(* ===== verification/Doubles.thy ===== *)
theory Doubles
  imports Complex_Main
begin

text \<open>
  The part of IEEE 754 binary64 arithmetic that the sources use: the value of a finite double is a
  rational, and an exact result is rounded to the nearest representable value, ties to even.
  \<open>round_double\<close> is that rounding for results below the overflow threshold.  The lemmas say
  what the program relies on: rounding is monotone, keeps the sign and leaves every integer of at
  most 53 bits as it is.
\<close>

section \<open>Rounding to an integer\<close>

definition round_half_even :: "rat \<Rightarrow> int" where
  "round_half_even x =
     (let f = \<lfloor>x\<rfloor>; d = x - of_int f in
      if d < 1 / 2 then f else if d > 1 / 2 then f + 1 else if even f then f else f + 1)"

lemma round_half_even_bounds: "\<lfloor>x\<rfloor> \<le> round_half_even x \<and> round_half_even x \<le> \<lfloor>x\<rfloor> + 1"
  by (simp add: round_half_even_def Let_def)

lemma round_half_even_of_int [simp]: "round_half_even (of_int n) = n"
  by (simp add: round_half_even_def)

lemma round_half_even_mono: "x \<le> y \<Longrightarrow> round_half_even x \<le> round_half_even y"
proof -
  assume xy: "x \<le> y"
  then have "\<lfloor>x\<rfloor> \<le> \<lfloor>y\<rfloor>" by (rule floor_mono)
  then consider "\<lfloor>x\<rfloor> < \<lfloor>y\<rfloor>" | "\<lfloor>x\<rfloor> = \<lfloor>y\<rfloor>" by linarith
  then show ?thesis
  proof cases
    case 1
    then show ?thesis using round_half_even_bounds [of x] round_half_even_bounds [of y] by linarith
  next
    case 2
    then show ?thesis using xy by (simp add: round_half_even_def Let_def)
  qed
qed

section \<open>Binades\<close>

text \<open>\<^verbatim>\<open>int.bit_length\<close>\<close>

fun bit_length :: "nat \<Rightarrow> nat" where
  "bit_length n = (if n = 0 then 0 else Suc (bit_length (n div 2)))"

declare bit_length.simps [simp del]

lemma bit_length_upper: "n < 2 ^ bit_length n"
proof (induction n rule: bit_length.induct)
  case (1 n)
  then show ?case by (cases "n = 0") (auto simp: bit_length.simps [of n])
qed

lemma bit_length_lower: "0 < n \<Longrightarrow> 2 ^ (bit_length n - 1) \<le> n"
proof (induction n rule: bit_length.induct)
  case (1 n)
  show ?case
  proof (cases "n div 2 = 0")
    case True
    then show ?thesis using "1.prems" by (simp add: bit_length.simps)
  next
    case False
    then obtain k where k: "bit_length (n div 2) = Suc k" by (simp add: bit_length.simps [of "n div 2"])
    have "2 ^ k \<le> n div 2" using "1.IH" "1.prems" False k by simp
    then show ?thesis using "1.prems" k by (simp add: bit_length.simps [of n])
  qed
qed

text \<open>The exponent \<open>e\<close> with \<open>2 ^ e \<le> x < 2 ^ (e + 1)\<close> of a positive rational.\<close>

definition floor_log2 :: "rat \<Rightarrow> int" where
  "floor_log2 x = (if 1 \<le> x then int (bit_length (nat \<lfloor>x\<rfloor>)) - 1 else - int (bit_length (nat (\<lceil>1 / x\<rceil> - 1))))"

lemma floor_log2_bounds:
  assumes "0 < x"
  shows "2 powi floor_log2 x \<le> x \<and> x < 2 powi (floor_log2 x + 1)"
proof (cases "1 \<le> x")
  case True
  let ?n = "nat \<lfloor>x\<rfloor>"
  have n: "0 < ?n" "of_nat ?n \<le> x" "x < of_nat ?n + 1" using True by (auto simp: of_nat_nat) linarith+
  have b: "0 < bit_length ?n" using n(1) by (simp add: bit_length.simps)
  then have e: "floor_log2 x = int (bit_length ?n - 1)" "floor_log2 x + 1 = int (bit_length ?n)"
    using True by (auto simp: floor_log2_def)
  have "of_nat (2 ^ (bit_length ?n - 1)) \<le> (of_nat ?n :: rat)" using bit_length_lower [OF n(1)] by (simp only: of_nat_le_iff)
  also note n(2)
  finally have l: "2 ^ (bit_length ?n - 1) \<le> x" by (simp only: of_nat_power of_nat_numeral)
  have "of_nat (?n + 1) \<le> (of_nat (2 ^ bit_length ?n) :: rat)"
    using bit_length_upper [of ?n] by (simp only: of_nat_le_iff)
  then have u: "x < 2 ^ bit_length ?n" using n(3) by (simp only: of_nat_power of_nat_numeral of_nat_add of_nat_1)
  show ?thesis unfolding e(2) unfolding e(1) power_int_of_nat using l u by (rule conjI)
next
  case False
  let ?y = "1 / x" and ?n = "nat (\<lceil>1 / x\<rceil> - 1)"
  have y: "1 < ?y" using False assms by simp
  then have n: "0 < ?n" "of_nat ?n < ?y" "?y \<le> of_nat ?n + 1" by (auto simp: of_nat_nat) linarith+
  have b: "0 < bit_length ?n" using n(1) by (simp add: bit_length.simps)
  have e: "floor_log2 x = - int (bit_length ?n)" "floor_log2 x + 1 = - int (bit_length ?n - 1)"
    using False b by (auto simp: floor_log2_def)
  have "of_nat (2 ^ (bit_length ?n - 1)) \<le> (of_nat ?n :: rat)" using bit_length_lower [OF n(1)] by (simp only: of_nat_le_iff)
  also note n(2)
  finally have l: "2 ^ (bit_length ?n - 1) < ?y" by (simp only: of_nat_power of_nat_numeral)
  have "of_nat (?n + 1) \<le> (of_nat (2 ^ bit_length ?n) :: rat)"
    using bit_length_upper [of ?n] by (simp only: of_nat_le_iff)
  with n(3) have u: "?y \<le> 2 ^ bit_length ?n" by (simp only: of_nat_power of_nat_numeral of_nat_add of_nat_1)
  show ?thesis unfolding e(2) unfolding e(1) power_int_minus power_int_of_nat using l u assms by (simp add: field_simps)
qed

lemma floor_log2_mono: "0 < x \<Longrightarrow> x \<le> y \<Longrightarrow> floor_log2 x \<le> floor_log2 y"
proof (rule ccontr)
  assume a: "0 < x" "x \<le> y" "\<not> floor_log2 x \<le> floor_log2 y"
  then have "(2 :: rat) powi (floor_log2 y + 1) \<le> 2 powi floor_log2 x" by (intro power_int_increasing) auto
  then show False using floor_log2_bounds [of x] floor_log2_bounds [of y] a by linarith
qed

section \<open>Rounding to a double\<close>

text \<open>The exponent of the last significand bit: 53 bits of precision, subnormals below \<open>2 ^ -1022\<close>.\<close>

definition ulp_exponent :: "rat \<Rightarrow> int" where
  "ulp_exponent x = max (floor_log2 x - 52) (- 1074)"

definition round_positive :: "rat \<Rightarrow> rat" where
  "round_positive x = of_int (round_half_even (x / 2 powi ulp_exponent x)) * 2 powi ulp_exponent x"

definition round_double :: "rat \<Rightarrow> rat" where
  "round_double x = (if x = 0 then 0 else if 0 < x then round_positive x else - round_positive (- x))"

lemma powi_multiple: "k \<le> e \<Longrightarrow> (2 :: rat) powi e = of_int (2 ^ nat (e - k)) * 2 powi k"
proof -
  assume "k \<le> e"
  then have "(2 :: rat) powi e = 2 powi (int (nat (e - k)) + k)" by simp
  also have "\<dots> = 2 powi int (nat (e - k)) * 2 powi k" by (rule power_int_add) simp
  finally show ?thesis unfolding power_int_of_nat by simp
qed

lemma round_positive_exact: "0 < x \<Longrightarrow> x = of_int m * 2 powi ulp_exponent x \<Longrightarrow> round_positive x = x"
proof -
  assume a: "0 < x" "x = of_int m * 2 powi ulp_exponent x"
  then have "x / 2 powi ulp_exponent x = of_int m" by (metis nonzero_mult_div_cancel_right power_int_eq_0_iff zero_neq_numeral)
  then show ?thesis using a(2) by (simp add: round_positive_def)
qed

lemma round_positive_mono:
  assumes "0 < x" "x \<le> y"
  shows "round_positive x \<le> round_positive y"
proof (cases "ulp_exponent x = ulp_exponent y")
  case True
  then show ?thesis using assms
    by (auto simp: round_positive_def intro!: mult_right_mono round_half_even_mono divide_right_mono)
next
  case False
  let ?e = "floor_log2 y" and ?u = "2 powi ulp_exponent x :: rat" and ?v = "2 powi ulp_exponent y :: rat"
  have le: "floor_log2 x \<le> ?e" by (rule floor_log2_mono [OF assms])
  then have uy: "ulp_exponent y = ?e - 52" "ulp_exponent x \<le> ?e" "floor_log2 x + 1 \<le> ?e"
    using False by (auto simp: ulp_exponent_def)
  have y: "2 powi ?e \<le> y" using floor_log2_bounds assms by auto
  have "x < 2 powi (floor_log2 x + 1)" using floor_log2_bounds assms by auto
  also have "\<dots> \<le> 2 powi ?e" using uy(3) by (intro power_int_increasing) auto
  finally have "x / ?u \<le> of_int (2 ^ nat (?e - ulp_exponent x))"
    unfolding powi_multiple [OF uy(2)] by (simp add: field_simps)
  from round_half_even_mono [OF this] have "round_half_even (x / ?u) \<le> 2 ^ nat (?e - ulp_exponent x)"
    unfolding round_half_even_of_int .
  then have "round_positive x \<le> of_int (2 ^ nat (?e - ulp_exponent x)) * ?u"
    unfolding round_positive_def by (intro mult_right_mono) (simp_all only: of_int_le_iff, simp)
  also have "\<dots> = 2 powi ?e" by (rule powi_multiple [OF uy(2), symmetric])
  also have "\<dots> = of_int (2 ^ nat (?e - ulp_exponent y)) * ?v" by (rule powi_multiple) (simp add: uy(1))
  also have "\<dots> \<le> round_positive y"
  proof -
    have "of_int (2 ^ nat (?e - ulp_exponent y)) * ?v \<le> y"
      using y powi_multiple [of "ulp_exponent y" ?e] uy(1) by linarith
    then have "of_int (2 ^ nat (?e - ulp_exponent y)) \<le> y / ?v" by (simp only: pos_le_divide_eq zero_less_power_int zero_less_numeral)
    from round_half_even_mono [OF this] have "2 ^ nat (?e - ulp_exponent y) \<le> round_half_even (y / ?v)"
      unfolding round_half_even_of_int .
    then show ?thesis unfolding round_positive_def by (intro mult_right_mono) (simp_all only: of_int_le_iff, simp)
  qed
  finally show ?thesis .
qed

lemma round_positive_nonneg: "0 < x \<Longrightarrow> 0 \<le> round_positive x"
  using round_half_even_mono [of 0 "x / 2 powi ulp_exponent x"] round_half_even_of_int [of 0]
  by (simp add: round_positive_def)

lemma round_double_mono: "x \<le> y \<Longrightarrow> round_double x \<le> round_double y"
  using round_positive_mono [of x y] round_positive_mono [of "- y" "- x"] round_positive_nonneg [of y]
    round_positive_nonneg [of "- x"]
  by (auto simp: round_double_def)

lemma round_double_int:
  assumes "\<bar>n\<bar> < 2 ^ 53"
  shows "round_double (of_int n) = of_int n"
proof -
  have pos: "round_positive (of_int m) = of_int m" if m: "0 < m" "m < 2 ^ 53" for m
  proof (rule round_positive_exact)
    have f: "2 powi floor_log2 (of_int m) \<le> (of_int m :: rat)" using floor_log2_bounds [of "of_int m"] m(1) by simp
    also have "(of_int m :: rat) < of_int (2 ^ 53)" using m(2) by (simp only: of_int_less_iff)
    also have "\<dots> = 2 powi 53" by simp
    finally have "floor_log2 (of_int m) < 53"
      using power_int_increasing [of 53 "floor_log2 (of_int m)" "2 :: rat"] by (meson not_le one_le_numeral)
    then have "ulp_exponent (of_int m) \<le> 0" by (simp add: ulp_exponent_def)
    from powi_multiple [OF this]
    show "of_int m = of_int (m * 2 ^ nat (- ulp_exponent (of_int m))) * (2 :: rat) powi ulp_exponent (of_int m)"
      by simp
  qed (use m in simp)
  show ?thesis using pos [of n] pos [of "- n"] assms by (auto simp: round_double_def)
qed

lemma round_double_sign:
  shows "0 \<le> x \<Longrightarrow> 0 \<le> round_double x" and "x \<le> 0 \<Longrightarrow> round_double x \<le> 0"
  using round_double_mono [of 0 x] round_double_mono [of x 0] by (simp_all add: round_double_def)

lemma round_double_int_sign:
  shows "round_double (of_int n) < 0 \<longleftrightarrow> n < 0" and "round_double (of_int n) = 0 \<longleftrightarrow> n = 0"
proof -
  have "round_double (of_int n) < 0" if "n < 0"
  proof -
    have "round_double (of_int n) \<le> round_double (of_int (- 1))" using that by (intro round_double_mono) linarith
    then show ?thesis using round_double_int [of "- 1"] by simp
  qed
  moreover have "0 < round_double (of_int n)" if "0 < n"
  proof -
    have "round_double (of_int 1) \<le> round_double (of_int n)" using that by (intro round_double_mono) linarith
    then show ?thesis using round_double_int [of 1] by simp
  qed
  moreover have "round_double (of_int 0) = 0" by (simp add: round_double_def)
  ultimately show "round_double (of_int n) < 0 \<longleftrightarrow> n < 0" "round_double (of_int n) = 0 \<longleftrightarrow> n = 0"
    by (cases "n < 0"; cases "n = 0"; force)+
qed

end
