(* ===== verification/Prelude.thy ===== *)
theory Prelude
  imports Doubles "HOL-Library.Word" "HOL-Library.List_Lexorder"
    "HOL-Library.Product_Lexorder" "HOL-Library.Char_ord" "HOL-Library.Multiset"
begin

text \<open>
  Shared vocabulary of the development.  Python exceptions are left injections of a sum
  (\<open>Inl e\<close>), normal returns are right injections (\<open>Inr v\<close>); \<open>rbind\<close> sequences two
  fallible computations and \<open>rmap\<close> runs one over a list, stopping at the first exception.
  \<open>pyval\<close> is the part of Python's dynamic values the sources inspect with \<open>isinstance\<close>.
  Strings are lists of bytes (their UTF-8 encoding), so that \<open>encode\<close> is the identity and
  the lexicographic order of HOL-Library agrees with Python's code-point order.
\<close>

section \<open>Python values and results\<close>

type_synonym byte = "8 word"

datatype pyfloat = Finite rat | PosInf | NegInf | NaN

datatype pyval = PInt int | PBool bool | PFloat pyfloat | PStr string | PNone | POther nat

datatype py_error = TypeError | ValueError | OverflowError | StructError

text \<open>\<open>isinstance(v, int) and not isinstance(v, bool)\<close>\<close>

fun is_plain_int :: "pyval \<Rightarrow> bool" where
  "is_plain_int (PInt _) = True"
| "is_plain_int _ = False"

fun nonneg_int :: "pyval \<Rightarrow> bool" where
  "nonneg_int (PInt n) = (0 \<le> n)"
| "nonneg_int _ = False"

fun the_int :: "pyval \<Rightarrow> int" where
  "the_int (PInt n) = n"
| "the_int _ = 0"

text \<open>
  Python's \<open>==\<close> on these values: numbers compare by value across \<open>int\<close>, \<open>bool\<close> and
  \<open>float\<close>, a NaN equals nothing, and any other object (\<open>POther\<close> with its identity) only itself.
\<close>

fun num_value :: "pyval \<Rightarrow> rat option" where
  "num_value (PInt n) = Some (of_int n)"
| "num_value (PBool b) = Some (if b then 1 else 0)"
| "num_value (PFloat (Finite r)) = Some r"
| "num_value _ = None"

definition py_eq :: "pyval \<Rightarrow> pyval \<Rightarrow> bool" where
  "py_eq a b \<longleftrightarrow>
     (case (num_value a, num_value b) of
        (Some x, Some y) \<Rightarrow> x = y
      | _ \<Rightarrow> a = b \<and> a \<noteq> PFloat NaN)"

text \<open>
  \<open>float(v)\<close> of a non-boolean number: an integer is rounded to the nearest double, and at or beyond
  the rounding boundary above the largest double it raises \<open>OverflowError\<close>.
\<close>

definition py_float :: "pyval \<Rightarrow> py_error + pyfloat" where
  "py_float v =
     (case v of
        PInt n \<Rightarrow> if \<bar>n\<bar> \<ge> 2 ^ 1024 - 2 ^ 970 then Inl OverflowError else Inr (Finite (round_double (of_int n)))
      | PFloat f \<Rightarrow> Inr f
      | _ \<Rightarrow> Inl TypeError)"

lemma py_float_huge: "2 ^ 1024 - 2 ^ 970 \<le> n \<Longrightarrow> py_float (PInt n) = Inl OverflowError"
proof -
  assume "2 ^ 1024 - 2 ^ 970 \<le> n"
  then have "(2 ^ 1024 - 2 ^ 970 :: int) \<le> \<bar>n\<bar>" by (rule order_trans) (rule abs_ge_self)
  then show ?thesis by (simp only: py_float_def pyval.case if_True)
qed

fun float_finite :: "pyfloat \<Rightarrow> bool" where
  "float_finite (Finite _) = True"
| "float_finite _ = False"

fun float_negative :: "pyfloat \<Rightarrow> bool" where
  "float_negative (Finite r) = (r < 0)"
| "float_negative NegInf = True"
| "float_negative _ = False"

definition rbind :: "'e + 'a \<Rightarrow> ('a \<Rightarrow> 'e + 'b) \<Rightarrow> 'e + 'b" where
  "rbind r f = (case r of Inl e \<Rightarrow> Inl e | Inr v \<Rightarrow> f v)"

fun rmap :: "('a \<Rightarrow> 'e + 'b) \<Rightarrow> 'a list \<Rightarrow> 'e + 'b list" where
  "rmap f [] = Inr []"
| "rmap f (x # xs) = rbind (f x) (\<lambda>y. rbind (rmap f xs) (\<lambda>ys. Inr (y # ys)))"

named_theorems result_simps \<open>rewriting of fallible computations\<close>
named_theorems wf_simps \<open>definitions of the well-formedness predicates\<close>
named_theorems init_simps \<open>when a validating constructor succeeds\<close>

lemma rbind_Inl [simp, result_simps]: "rbind (Inl e) f = Inl e"
  by (simp add: rbind_def)

lemma rbind_Inr [simp, result_simps]: "rbind (Inr v) f = f v"
  by (simp add: rbind_def)

lemma rbind_eq_Inr [result_simps]: "rbind r f = Inr y \<longleftrightarrow> (\<exists>x. r = Inr x \<and> f x = Inr y)"
  by (cases r) auto

lemma rbind_eq_Inl [result_simps]:
  "rbind r f = Inl e \<longleftrightarrow> r = Inl e \<or> (\<exists>x. r = Inr x \<and> f x = Inl e)"
  by (cases r) auto

lemma if_Inl_eq_Inr [result_simps]: "(if b then Inl e else r) = Inr y \<longleftrightarrow> \<not> b \<and> r = Inr y"
  by simp

lemma rmap_Inr: "rmap f xs = Inr ys \<longleftrightarrow> list_all2 (\<lambda>x y. f x = Inr y) xs ys"
  by (induction xs arbitrary: ys) (auto simp: result_simps list_all2_Cons1)

lemma rmap_total: "\<forall>x\<in>set xs. f x = Inr (g x) \<Longrightarrow> rmap f xs = Inr (map g xs)"
  by (induction xs) auto

lemma rmap_map: "rmap f (map g xs) = rmap (f \<circ> g) xs"
  by (induction xs) auto

lemma nonneg_int_iff: "nonneg_int v \<longleftrightarrow> (\<exists>n. v = PInt n \<and> 0 \<le> n)"
  by (cases v) auto

lemma nonneg_the_int: "nonneg_int v \<Longrightarrow> 0 \<le> the_int v"
  by (cases v) auto

lemma map_PInt_the_int: "\<forall>v\<in>set vs. nonneg_int v \<Longrightarrow> map PInt (map the_int vs) = vs"
  by (induction vs) (auto simp: nonneg_int_iff)

section \<open>Lists\<close>

lemma nth_enumerate0: "i < length xs \<Longrightarrow> List.enumerate 0 xs ! i = (i, xs ! i)"
  by (simp add: nth_enumerate_eq)

lemma length_slice [simp]:
  "b \<le> length xs \<Longrightarrow> length (take (b - a) (drop a xs)) = b - a"
  by simp

lemma sum_list_map_filter_split:
  "sum_list (map f xs) = sum_list (map f (filter P xs)) + sum_list (map f (filter (\<lambda>x. \<not> P x) xs))"
  for f :: "'a \<Rightarrow> 'b::comm_monoid_add"
  by (induction xs) (auto simp: ac_simps)

lemma sum_list_nonneg_int: "\<forall>x\<in>set xs. 0 \<le> f x \<Longrightarrow> 0 \<le> sum_list (map f xs)" for f :: "'a \<Rightarrow> int"
  by (induction xs) auto

lemma sort_key_eq_Nil [simp]: "sort_key f xs = [] \<longleftrightarrow> xs = []"
  by (metis length_0_conv length_sort)

lemma map_sort_key: "map g (sort_key (\<lambda>x. f (g x)) xs) = sort_key f (map g xs)"
proof (induction xs)
  case (Cons x xs)
  have "map g (insort_key (\<lambda>x. f (g x)) x ys) = insort_key f (g x) (map g ys)" for ys by (induction ys) auto
  with Cons show ?case by simp
qed simp

lemma sorted_map_fst: "sorted (map f xs) \<Longrightarrow> sorted (map (\<lambda>x. fst (f x)) xs)"
  for f :: "'a \<Rightarrow> 'b::linorder \<times> 'c::linorder"
  by (induction xs) (auto simp: less_eq_prod_def intro: less_imp_le)

lemma sorted_wrt_sym_pairs:
  assumes "symp R"
  shows "sorted_wrt R xs \<longleftrightarrow> (\<forall>x y. {#x, y#} \<subseteq># mset xs \<longrightarrow> R x y)"
proof (induction xs)
  case Nil
  then show ?case by simp
next
  case (Cons a xs)
  have "{#x, y#} \<subseteq># add_mset a (mset xs) \<longleftrightarrow>
      x = a \<and> y \<in># mset xs \<or> y = a \<and> x \<in># mset xs \<or> {#x, y#} \<subseteq># mset xs" for x y
    by (auto simp: insert_subset_eq_iff dest: mset_subset_eqD)
  then show ?case using Cons.IH assms by (auto simp: symp_def)
qed

lemma sorted_wrt_sym_mset: "symp R \<Longrightarrow> mset xs = mset ys \<Longrightarrow> sorted_wrt R xs \<Longrightarrow> sorted_wrt R ys"
  by (simp add: sorted_wrt_sym_pairs)

section \<open>Decimal rendering of integers\<close>

text \<open>\<open>str(n)\<close> of a Python integer.\<close>

definition decimal_digit :: "nat \<Rightarrow> char" where
  "decimal_digit d = char_of (48 + d)"

fun nat_decimal :: "nat \<Rightarrow> string" where
  "nat_decimal n =
     (if n < 10 then [decimal_digit n] else nat_decimal (n div 10) @ [decimal_digit (n mod 10)])"

declare nat_decimal.simps [simp del]

definition py_str_int :: "int \<Rightarrow> string" where
  "py_str_int n = (if n < 0 then CHR ''-'' # nat_decimal (nat (- n)) else nat_decimal (nat n))"

lemma decimal_digit_inj:
  assumes "d < 10" "e < 10" "decimal_digit d = decimal_digit e"
  shows "d = e"
proof -
  have "of_char (decimal_digit n) = 48 + n" if "n < 10" for n :: nat
    using that by (simp add: decimal_digit_def)
  with assms show ?thesis by (metis add_left_cancel)
qed

lemma nat_decimal_nonempty [simp]: "nat_decimal n \<noteq> []"
  by (subst nat_decimal.simps) simp

lemma nat_decimal_inj: "nat_decimal m = nat_decimal n \<Longrightarrow> m = n"
proof (induction m arbitrary: n rule: nat_decimal.induct)
  case (1 m)
  show ?case
  proof (cases "m < 10 \<longleftrightarrow> n < 10")
    case False
    with "1.prems" show ?thesis
      by (auto simp: nat_decimal.simps [of m] nat_decimal.simps [of n] Cons_eq_append_conv
          append_eq_Cons_conv)
  next
    case True
    then show ?thesis
    proof (cases "m < 10")
      case True
      with \<open>m < 10 \<longleftrightarrow> n < 10\<close> "1.prems" show ?thesis
        by (auto simp: nat_decimal.simps [of m] nat_decimal.simps [of n] dest: decimal_digit_inj)
    next
      case False
      with True "1.prems" have "m div 10 = n div 10" and "decimal_digit (m mod 10) = decimal_digit (n mod 10)"
        using "1.IH" by (auto simp: nat_decimal.simps [of m] nat_decimal.simps [of n])
      moreover from this(2) have "m mod 10 = n mod 10" by (auto intro: decimal_digit_inj)
      ultimately show ?thesis by (metis div_mult_mod_eq)
    qed
  qed
qed

end
