(* ===== verification/PlannerModels.thy ===== *)
theory PlannerModels
  imports Prelude
begin

text \<open>
  The immutable value objects of \<^verbatim>\<open>planner/models.py\<close> and the pinned target of
  \<^verbatim>\<open>targets.py\<close>.  A frozen dataclass is a record; its \<^verbatim>\<open>__post_init__\<close> is a
  validating constructor \<open>C_init\<close> that returns the record or the exception, and
  \<open>wf_\<dots>\<close> is the invariant that every constructed value satisfies.  The lemmas
  \<open>\<dots>_init_Inr\<close> say exactly when construction succeeds.  The union-length loop, which
  three modules of the program carry, is specified here once against the set of covered
  positions.
\<close>

section \<open>Token identifiers and ranges\<close>

definition MAX_TOKEN_ID :: int where
  "MAX_TOKEN_ID = 2 ^ 64 - 1"

definition normalize_token_id :: "pyval \<Rightarrow> py_error + int" where
  "normalize_token_id v =
     (case v of
        PInt t \<Rightarrow> if \<not> (0 \<le> t \<and> t \<le> MAX_TOKEN_ID) then Inl ValueError else Inr t
      | _ \<Rightarrow> Inl TypeError)"

definition normalize_token_ids :: "pyval list \<Rightarrow> py_error + int list" where
  "normalize_token_ids vs = rmap normalize_token_id vs"

record TokenRange =
  tr_start :: int
  tr_end :: int

definition TokenRange_init :: "pyval \<Rightarrow> pyval \<Rightarrow> py_error + TokenRange" where
  "TokenRange_init s e =
     (case (s, e) of
        (PInt a, PInt b) \<Rightarrow>
          if a < 0 then Inl ValueError
          else if b < a then Inl ValueError
          else Inr \<lparr>tr_start = a, tr_end = b\<rparr>
      | _ \<Rightarrow> Inl TypeError)"

definition range_len :: "TokenRange \<Rightarrow> int" where
  "range_len r = tr_end r - tr_start r"

definition overlaps :: "TokenRange \<Rightarrow> TokenRange \<Rightarrow> bool" where
  "overlaps r s \<longleftrightarrow> tr_start r < tr_end s \<and> tr_start s < tr_end r"

text \<open>\<^verbatim>\<open>order=True\<close>: ranges compare as the tuple of their fields.\<close>

instantiation TokenRange_ext :: (linorder) linorder
begin

definition less_eq_TokenRange_ext :: "'a TokenRange_scheme \<Rightarrow> 'a TokenRange_scheme \<Rightarrow> bool" where
  "less_eq_TokenRange_ext r s \<longleftrightarrow>
     (tr_start r, tr_end r, TokenRange.more r) \<le> (tr_start s, tr_end s, TokenRange.more s)"

definition less_TokenRange_ext :: "'a TokenRange_scheme \<Rightarrow> 'a TokenRange_scheme \<Rightarrow> bool" where
  "less_TokenRange_ext r s \<longleftrightarrow>
     (tr_start r, tr_end r, TokenRange.more r) < (tr_start s, tr_end s, TokenRange.more s)"

instance
  by standard (auto simp: less_eq_TokenRange_ext_def less_TokenRange_ext_def)

end

section \<open>Segments, namespaces, fingerprints and records\<close>

record TokenSegment =
  token_range :: TokenRange
  token_ids :: "int list"

definition TokenSegment_init :: "TokenRange \<Rightarrow> pyval list \<Rightarrow> py_error + TokenSegment" where
  "TokenSegment_init r ts =
     rbind (normalize_token_ids ts) (\<lambda>normalized.
       if normalized = [] then Inl ValueError
       else if range_len r \<noteq> int (length normalized) then Inl ValueError
       else Inr \<lparr>token_range = r, token_ids = normalized\<rparr>)"

definition TokenSegment_at :: "pyval \<Rightarrow> pyval list \<Rightarrow> py_error + TokenSegment" where
  "TokenSegment_at s ts =
     rbind (normalize_token_ids ts) (\<lambda>normalized.
       rbind (case s of PInt a \<Rightarrow> TokenRange_init (PInt a) (PInt (a + int (length normalized)))
              | _ \<Rightarrow> Inl TypeError) (\<lambda>r.
         TokenSegment_init r (map PInt normalized)))"

definition segment_len :: "TokenSegment \<Rightarrow> int" where
  "segment_len s = int (length (token_ids s))"

record CacheNamespace =
  schema_version :: int
  model_id :: string
  model_revision :: string
  tokenizer_id :: string
  tokenizer_revision :: string
  model_config_digest :: string
  kv_cache_config_digest :: string
  adapter_revision :: string
  vllm_version :: string
  lmcache_version :: string
  torch_version :: string
  cuda_runtime :: string

definition canonical_fields :: "CacheNamespace \<Rightarrow> (string \<times> string) list" where
  "canonical_fields n =
    [(''schema_version'', py_str_int (schema_version n)),
     (''model_id'', model_id n),
     (''model_revision'', model_revision n),
     (''tokenizer_id'', tokenizer_id n),
     (''tokenizer_revision'', tokenizer_revision n),
     (''model_config_digest'', model_config_digest n),
     (''kv_cache_config_digest'', kv_cache_config_digest n),
     (''adapter_revision'', adapter_revision n),
     (''vllm_version'', vllm_version n),
     (''lmcache_version'', lmcache_version n),
     (''torch_version'', torch_version n),
     (''cuda_runtime'', cuda_runtime n)]"

definition has_NUL :: "string \<Rightarrow> bool" where
  "has_NUL s \<longleftrightarrow> CHR 0x00 \<in> set s"

definition CacheNamespace_init :: "CacheNamespace \<Rightarrow> py_error + CacheNamespace" where
  "CacheNamespace_init n =
     (if schema_version n < 1 then Inl ValueError
      else rbind
        (rmap (\<lambda>(name, v).
            if name = ''schema_version'' then Inr ()
            else if v = [] then Inl ValueError
            else if has_NUL v then Inl ValueError
            else Inr ()) (canonical_fields n))
        (\<lambda>_. Inr n))"

record SegmentFingerprint =
  digest :: "byte list"

definition SegmentFingerprint_init :: "byte list \<Rightarrow> py_error + SegmentFingerprint" where
  "SegmentFingerprint_init d = (if length d \<noteq> 32 then Inl ValueError else Inr \<lparr>digest = d\<rparr>)"

record CacheRecord =
  rec_namespace :: CacheNamespace
  rec_fingerprint :: SegmentFingerprint
  rec_token_ids :: "int list"
  source_range :: TokenRange
  cache_key :: string

definition CacheRecord_init ::
    "CacheNamespace \<Rightarrow> SegmentFingerprint \<Rightarrow> pyval list \<Rightarrow> TokenRange \<Rightarrow> string \<Rightarrow> py_error + CacheRecord"
where
  "CacheRecord_init n f ts r k =
     rbind (normalize_token_ids ts) (\<lambda>normalized.
       if normalized = [] then Inl ValueError
       else if range_len r \<noteq> int (length normalized) then Inl ValueError
       else if k = [] then Inl ValueError
       else Inr \<lparr>rec_namespace = n, rec_fingerprint = f, rec_token_ids = normalized,
                 source_range = r, cache_key = k\<rparr>)"

record CandidateMatch =
  target_segment :: TokenSegment
  query_fingerprint :: SegmentFingerprint
  cm_record :: CacheRecord

definition position_delta :: "CandidateMatch \<Rightarrow> int" where
  "position_delta c = tr_start (token_range (target_segment c)) - tr_start (source_range (cm_record c))"

record RuntimeTarget =
  rt_model_id :: string
  rt_vllm_version :: string
  rt_lmcache_version :: string
  rt_torch_version :: string
  rt_cuda_runtime :: string
  rt_gpu_name :: string

definition PINNED_TARGET :: RuntimeTarget where
  "PINNED_TARGET =
    \<lparr>rt_model_id = ''openai/gpt-oss-20b'', rt_vllm_version = ''0.19.1'',
     rt_lmcache_version = ''0.4.3'', rt_torch_version = ''2.10.0+cu128'',
     rt_cuda_runtime = ''12.8'', rt_gpu_name = ''NVIDIA A100-SXM4-80GB''\<rparr>"

section \<open>Union length of ranges\<close>

fun covered_loop :: "int \<Rightarrow> int \<Rightarrow> int \<Rightarrow> TokenRange list \<Rightarrow> int" where
  "covered_loop covered current_start current_end [] = covered + current_end - current_start"
| "covered_loop covered current_start current_end (r # rs) =
     (if tr_start r \<le> current_end
      then covered_loop covered current_start (max current_end (tr_end r)) rs
      else covered_loop (covered + (current_end - current_start)) (tr_start r) (tr_end r) rs)"

definition covered_range_count :: "TokenRange list \<Rightarrow> int" where
  "covered_range_count ranges =
     (case sort ranges of
        [] \<Rightarrow> 0
      | r # rs \<Rightarrow> covered_loop 0 (tr_start r) (tr_end r) rs)"

section \<open>Invariants\<close>

definition wf_tokens :: "int list \<Rightarrow> bool" where
  [wf_simps]: "wf_tokens ts \<longleftrightarrow> (\<forall>t\<in>set ts. 0 \<le> t \<and> t \<le> MAX_TOKEN_ID)"

definition wf_range :: "TokenRange \<Rightarrow> bool" where
  [wf_simps]: "wf_range r \<longleftrightarrow> 0 \<le> tr_start r \<and> tr_start r \<le> tr_end r"

definition wf_segment :: "TokenSegment \<Rightarrow> bool" where
  [wf_simps]: "wf_segment s \<longleftrightarrow> wf_range (token_range s) \<and> wf_tokens (token_ids s) \<and> token_ids s \<noteq> []
     \<and> range_len (token_range s) = int (length (token_ids s))"

definition wf_namespace :: "CacheNamespace \<Rightarrow> bool" where
  [wf_simps]: "wf_namespace n \<longleftrightarrow> 1 \<le> schema_version n \<and>
     (\<forall>(name, v)\<in>set (tl (canonical_fields n)). v \<noteq> [] \<and> \<not> has_NUL v)"

definition wf_fingerprint :: "SegmentFingerprint \<Rightarrow> bool" where
  [wf_simps]: "wf_fingerprint f \<longleftrightarrow> length (digest f) = 32"

definition wf_record :: "CacheRecord \<Rightarrow> bool" where
  [wf_simps]: "wf_record r \<longleftrightarrow> wf_tokens (rec_token_ids r) \<and> rec_token_ids r \<noteq> [] \<and>
     range_len (source_range r) = int (length (rec_token_ids r)) \<and> cache_key r \<noteq> []"

definition range_set :: "TokenRange \<Rightarrow> int set" where
  "range_set r = {tr_start r..<tr_end r}"

section \<open>Lemmas\<close>

lemma normalize_token_id_PInt [simp]:
  "normalize_token_id (PInt t) = (if 0 \<le> t \<and> t \<le> MAX_TOKEN_ID then Inr t else Inl ValueError)"
  by (simp add: normalize_token_id_def)

lemma normalize_token_id_Inr: "normalize_token_id v = Inr t \<longleftrightarrow> v = PInt t \<and> 0 \<le> t \<and> t \<le> MAX_TOKEN_ID"
  by (auto simp: normalize_token_id_def split: pyval.splits if_splits)

lemma normalize_token_ids_Inr [init_simps]:
  "normalize_token_ids vs = Inr ts \<longleftrightarrow> vs = map PInt ts \<and> wf_tokens ts"
  unfolding normalize_token_ids_def rmap_Inr normalize_token_id_Inr wf_tokens_def
  by (induction vs arbitrary: ts) (auto simp: list_all2_Cons1)

lemma normalize_token_ids_PInt [simp]:
  "wf_tokens ts \<Longrightarrow> normalize_token_ids (map PInt ts) = Inr ts"
  by (simp add: init_simps)

lemma TokenRange_init_PInt [simp]:
  "TokenRange_init (PInt a) (PInt b) =
     (if 0 \<le> a \<and> a \<le> b then Inr \<lparr>tr_start = a, tr_end = b\<rparr> else Inl ValueError)"
  by (simp add: TokenRange_init_def)

lemma TokenRange_init_Inr [init_simps]:
  "TokenRange_init s e = Inr r \<longleftrightarrow> s = PInt (tr_start r) \<and> e = PInt (tr_end r) \<and> wf_range r"
  by (cases r) (auto simp: TokenRange_init_def wf_range_def split: pyval.splits)

lemma TokenSegment_init_Inr [init_simps]:
  "TokenSegment_init r ts = Inr s \<longleftrightarrow>
     ts = map PInt (token_ids s) \<and> token_range s = r \<and> wf_tokens (token_ids s) \<and> token_ids s \<noteq> [] \<and>
     range_len r = int (length (token_ids s))"
  by (cases s) (auto simp: TokenSegment_init_def result_simps init_simps split: if_splits)

lemma TokenSegment_at_PInt [simp]:
  "wf_tokens ts \<Longrightarrow> ts \<noteq> [] \<Longrightarrow> 0 \<le> a \<Longrightarrow> TokenSegment_at (PInt a) (map PInt ts) =
     Inr \<lparr>token_range = \<lparr>tr_start = a, tr_end = a + int (length ts)\<rparr>, token_ids = ts\<rparr>"
  by (simp add: TokenSegment_at_def TokenSegment_init_def range_len_def)

lemma TokenSegment_at_Inr [init_simps]:
  "TokenSegment_at v ts = Inr s \<Longrightarrow> wf_segment s \<and> v = PInt (tr_start (token_range s))"
  by (cases v) (auto simp: TokenSegment_at_def result_simps init_simps wf_segment_def
      simp del: TokenRange_init_PInt)

lemma rmap_unit_Inr: "(\<exists>us. rmap f xs = Inr us) \<longleftrightarrow> (\<forall>x\<in>set xs. f x = Inr ())" for f :: "'a \<Rightarrow> 'e + unit"
  by (induction xs) (auto simp: result_simps)

lemma CacheNamespace_init_Inr [init_simps]:
  "CacheNamespace_init n = Inr m \<longleftrightarrow> m = n \<and> wf_namespace n"
proof -
  have "CacheNamespace_init n = Inr m \<longleftrightarrow> m = n \<and> 1 \<le> schema_version n \<and>
      (\<forall>(name, v)\<in>set (canonical_fields n). name = ''schema_version'' \<or> v \<noteq> [] \<and> \<not> has_NUL v)"
    using rmap_unit_Inr [of "\<lambda>(name, v).
            if name = ''schema_version'' then Inr ()
            else if v = [] then Inl ValueError
            else if has_NUL v then Inl ValueError
            else Inr ()" "canonical_fields n"]
    by (auto simp: CacheNamespace_init_def result_simps split: if_splits)
  then show ?thesis by (simp add: wf_namespace_def canonical_fields_def)
qed

lemma SegmentFingerprint_init_Inr [init_simps]:
  "SegmentFingerprint_init d = Inr f \<longleftrightarrow> digest f = d \<and> wf_fingerprint f"
  by (cases f) (auto simp: SegmentFingerprint_init_def wf_fingerprint_def)

lemma CacheRecord_init_Inr [init_simps]:
  "CacheRecord_init n f ts r k = Inr c \<longleftrightarrow>
     rec_namespace c = n \<and> rec_fingerprint c = f \<and> ts = map PInt (rec_token_ids c) \<and>
     source_range c = r \<and> cache_key c = k \<and> wf_record c"
  by (cases c) (auto simp: CacheRecord_init_def result_simps init_simps wf_record_def split: if_splits)

lemma wf_segment_nonempty: "wf_segment s \<Longrightarrow> tr_start (token_range s) < tr_end (token_range s)"
proof -
  assume "wf_segment s"
  then have "0 < length (token_ids s)" "range_len (token_range s) = int (length (token_ids s))"
    by (auto simp: wf_segment_def)
  then show ?thesis unfolding range_len_def by linarith
qed

lemma wf_segment_len: "wf_segment s \<Longrightarrow> segment_len s = range_len (token_range s) \<and> 0 < segment_len s"
  by (auto simp: wf_segment_def segment_len_def)

lemma overlaps_sym: "overlaps r s = overlaps s r"
  by (auto simp: overlaps_def)

lemma overlaps_iff_range_set:
  "wf_range r \<Longrightarrow> wf_range s \<Longrightarrow> range_len r > 0 \<Longrightarrow> range_len s > 0 \<Longrightarrow>
     overlaps r s \<longleftrightarrow> range_set r \<inter> range_set s \<noteq> {}"
  by (auto simp: overlaps_def range_set_def range_len_def wf_range_def)

lemma not_overlaps_disjoint: "\<not> overlaps r s \<Longrightarrow> range_set r \<inter> range_set s = {}"
  by (auto simp: overlaps_def range_set_def)

lemma card_range_set [simp]: "wf_range r \<Longrightarrow> int (card (range_set r)) = range_len r"
  by (simp add: range_set_def range_len_def wf_range_def)

lemma finite_range_set [simp]: "finite (range_set r)"
  by (simp add: range_set_def)

lemma range_le_start: "(r::TokenRange) \<le> s \<Longrightarrow> tr_start r \<le> tr_start s"
  by (auto simp: less_eq_TokenRange_ext_def)

lemma sorted_starts: "sorted (rs :: TokenRange list) \<Longrightarrow> sorted (map tr_start rs)"
  by (induction rs) (auto dest: range_le_start)

lemma covered_loop_card:
  assumes "sorted (map tr_start rs)" "\<forall>r\<in>set rs. s \<le> tr_start r \<and> wf_range r" "s \<le> e"
  shows "covered_loop c s e rs = c + int (card ({s..<e} \<union> (\<Union>r\<in>set rs. range_set r)))"
  using assms
proof (induction rs arbitrary: c s e)
  case Nil
  then show ?case by simp
next
  case (Cons r rs)
  then have r: "s \<le> tr_start r" "tr_start r \<le> tr_end r" and
    rs: "sorted (map tr_start rs)" "\<forall>r'\<in>set rs. tr_start r \<le> tr_start r' \<and> wf_range r'"
    by (auto simp: wf_range_def)
  show ?case
  proof (cases "tr_start r \<le> e")
    case True
    then have "{s..<e} \<union> range_set r = {s..<max e (tr_end r)}"
      using r by (auto simp: range_set_def)
    then have *: "{s..<e} \<union> (\<Union>r\<in>set (r # rs). range_set r) =
        {s..<max e (tr_end r)} \<union> (\<Union>r\<in>set rs. range_set r)" by auto
    have "\<forall>r'\<in>set rs. s \<le> tr_start r' \<and> wf_range r'" using rs r by fastforce
    then show ?thesis using True rs(1) r Cons.prems(3) * by (simp add: Cons.IH)
  next
    case False
    have "{s..<e} \<inter> (range_set r \<union> (\<Union>r\<in>set rs. range_set r)) = {}"
      using False rs(2) by (fastforce simp: range_set_def)
    then have "card ({s..<e} \<union> (range_set r \<union> (\<Union>r\<in>set rs. range_set r))) =
        card {s..<e} + card (range_set r \<union> (\<Union>r\<in>set rs. range_set r))"
      by (intro card_Un_disjoint) auto
    moreover have "{tr_start r..<tr_end r} = range_set r" by (simp add: range_set_def)
    ultimately show ?thesis using False rs r Cons.prems(3) by (simp add: Cons.IH)
  qed
qed

lemma covered_range_count_card:
  assumes "\<forall>r\<in>set ranges. wf_range r"
  shows "covered_range_count ranges = int (card (\<Union>r\<in>set ranges. range_set r))"
proof (cases "sort ranges")
  case Nil
  then show ?thesis by (simp add: covered_range_count_def)
next
  case (Cons r rs)
  then have set: "set ranges = insert r (set rs)" by (metis list.simps(15) set_sort)
  have "sorted (r # rs)" using Cons by (metis sorted_sort)
  then have "sorted (map tr_start rs)" "\<forall>r'\<in>set rs. tr_start r \<le> tr_start r'"
    using sorted_starts [of "r # rs"] by auto
  with assms set have "covered_loop 0 (tr_start r) (tr_end r) rs =
      int (card ({tr_start r..<tr_end r} \<union> (\<Union>r\<in>set rs. range_set r)))"
    using covered_loop_card [of rs "tr_start r" "tr_end r" 0] by (simp add: wf_range_def)
  then show ?thesis using Cons set by (simp add: covered_range_count_def range_set_def)
qed

lemma disjoint_ranges_card:
  assumes "sorted_wrt (\<lambda>a b. \<not> overlaps (g b) (g a)) xs" "\<forall>x\<in>set xs. wf_range (g x)"
  shows "sum_list (map (\<lambda>x. range_len (g x)) xs) = int (card (\<Union>x\<in>set xs. range_set (g x)))"
  using assms
proof (induction xs)
  case (Cons x xs)
  let ?U = "\<Union>x\<in>set xs. range_set (g x)"
  have "range_set (g x) \<inter> ?U = {}" using Cons.prems(1) not_overlaps_disjoint by fastforce
  then have "card (range_set (g x) \<union> ?U) = card (range_set (g x)) + card ?U" by (intro card_Un_disjoint) auto
  then show ?case using Cons by simp
qed simp

end
