(* ===== verification/Sha256.thy ===== *)
theory Sha256
  imports Prelude
begin

unbundle bit_operations_syntax

text \<open>
  \<^verbatim>\<open>hashlib.sha256\<close>, the one primitive of Python's standard library that the cache identity
  rests on: the FIPS 180-4 compression function over 32-bit words.  The definitions are
  executable, so a fingerprint of the model is the digest the program computes.
\<close>

type_synonym u32 = "32 word"

text \<open>
  The standard's constants are the first 32 fractional bits of the cube roots (round constants) and
  square roots (initial state) of the first primes; they are computed here from that definition.
\<close>

definition prime_upto :: "int \<Rightarrow> int list" where
  "prime_upto n = filter (\<lambda>p. \<forall>d\<in>set [2..p - 1]. p mod d \<noteq> 0) [2..n]"

text \<open>The integer \<open>k\<close>-th root of \<open>n\<close>, one bit at a time from bit \<open>b - 1\<close> downwards.\<close>

fun iroot_bits :: "nat \<Rightarrow> int \<Rightarrow> nat \<Rightarrow> int \<Rightarrow> int" where
  "iroot_bits k n 0 r = r"
| "iroot_bits k n (Suc b) r = iroot_bits k n b (if (r + 2 ^ b) ^ k \<le> n then r + 2 ^ b else r)"

definition sha_K :: "u32 list" where
  "sha_K = map (\<lambda>p. word_of_int (iroot_bits 3 (p * 2 ^ 96) 36 0)) (prime_upto 311)"

definition sha_init :: "u32 list" where
  "sha_init = map (\<lambda>p. word_of_int (iroot_bits 2 (p * 2 ^ 64) 36 0)) (prime_upto 19)"

record sha_state =
  sA :: u32
  sB :: u32
  sC :: u32
  sD :: u32
  sE :: u32
  sF :: u32
  sG :: u32
  sH :: u32

definition sha_H0 :: sha_state where
  "sha_H0 = \<lparr>sA = sha_init ! 0, sB = sha_init ! 1, sC = sha_init ! 2, sD = sha_init ! 3,
             sE = sha_init ! 4, sF = sha_init ! 5, sG = sha_init ! 6, sH = sha_init ! 7\<rparr>"

definition rotr32 :: "nat \<Rightarrow> u32 \<Rightarrow> u32" where
  "rotr32 n x = drop_bit n x OR push_bit (32 - n) x"

definition small_sigma0 :: "u32 \<Rightarrow> u32" where
  "small_sigma0 x = rotr32 7 x XOR rotr32 18 x XOR drop_bit 3 x"

definition small_sigma1 :: "u32 \<Rightarrow> u32" where
  "small_sigma1 x = rotr32 17 x XOR rotr32 19 x XOR drop_bit 10 x"

definition big_sigma0 :: "u32 \<Rightarrow> u32" where
  "big_sigma0 x = rotr32 2 x XOR rotr32 13 x XOR rotr32 22 x"

definition big_sigma1 :: "u32 \<Rightarrow> u32" where
  "big_sigma1 x = rotr32 6 x XOR rotr32 11 x XOR rotr32 25 x"

definition sha_ch :: "u32 \<Rightarrow> u32 \<Rightarrow> u32 \<Rightarrow> u32" where
  "sha_ch x y z = (x AND y) XOR (NOT x AND z)"

definition sha_maj :: "u32 \<Rightarrow> u32 \<Rightarrow> u32 \<Rightarrow> u32" where
  "sha_maj x y z = (x AND y) XOR (x AND z) XOR (y AND z)"

text \<open>The message schedule, newest word first.\<close>

fun extend_schedule :: "nat \<Rightarrow> u32 list \<Rightarrow> u32 list" where
  "extend_schedule 0 ws = ws"
| "extend_schedule (Suc n) ws =
     extend_schedule n ((small_sigma1 (ws ! 1) + ws ! 6 + small_sigma0 (ws ! 14) + ws ! 15) # ws)"

definition sha_round :: "sha_state \<Rightarrow> u32 \<times> u32 \<Rightarrow> sha_state" where
  "sha_round s kw =
     (let t1 = sH s + big_sigma1 (sE s) + sha_ch (sE s) (sF s) (sG s) + fst kw + snd kw;
          t2 = big_sigma0 (sA s) + sha_maj (sA s) (sB s) (sC s)
      in \<lparr>sA = t1 + t2, sB = sA s, sC = sB s, sD = sC s,
          sE = sD s + t1, sF = sE s, sG = sF s, sH = sG s\<rparr>)"

definition sha_add :: "sha_state \<Rightarrow> sha_state \<Rightarrow> sha_state" where
  "sha_add s t =
     \<lparr>sA = sA s + sA t, sB = sB s + sB t, sC = sC s + sC t, sD = sD s + sD t,
      sE = sE s + sE t, sF = sF s + sF t, sG = sG s + sG t, sH = sH s + sH t\<rparr>"

fun be_words :: "byte list \<Rightarrow> u32 list" where
  "be_words (a # b # c # d # rest) =
     (push_bit 24 (ucast a) + push_bit 16 (ucast b) + push_bit 8 (ucast c) + ucast d) # be_words rest"
| "be_words _ = []"

definition sha_compress :: "sha_state \<Rightarrow> u32 list \<Rightarrow> sha_state" where
  "sha_compress s block = sha_add s (foldl sha_round s (zip sha_K (rev (extend_schedule 48 (rev block)))))"

fun sha_blocks :: "sha_state \<Rightarrow> nat \<Rightarrow> u32 list \<Rightarrow> sha_state" where
  "sha_blocks s 0 ws = s"
| "sha_blocks s (Suc n) ws = sha_blocks (sha_compress s (take 16 ws)) n (drop 16 ws)"

text \<open>\<^verbatim>\<open>struct.pack(">Q", n)\<close> for \<open>0 \<le> n < 2 ^ 64\<close>.\<close>

definition u64be :: "int \<Rightarrow> byte list" where
  "u64be n = map (\<lambda>k. word_of_int (n div 2 ^ (8 * k))) [7, 6, 5, 4, 3, 2, 1, 0]"

definition sha_pad :: "byte list \<Rightarrow> byte list" where
  "sha_pad m = m @ [0x80] @ replicate ((119 - length m mod 64) mod 64) 0 @ u64be (8 * int (length m))"

definition word_bytes :: "u32 \<Rightarrow> byte list" where
  "word_bytes w = [ucast (drop_bit 24 w), ucast (drop_bit 16 w), ucast (drop_bit 8 w), ucast w]"

definition sha256 :: "byte list \<Rightarrow> byte list" where
  "sha256 m =
     (let ws = be_words (sha_pad m); s = sha_blocks sha_H0 (length ws div 16) ws
      in concat (map word_bytes [sA s, sB s, sC s, sD s, sE s, sF s, sG s, sH s]))"

lemma length_word_bytes [simp]: "length (word_bytes w) = 4"
  by (simp add: word_bytes_def)

lemma length_sha256 [simp]: "length (sha256 m) = 32"
  by (simp add: sha256_def Let_def)

lemma length_u64be [simp]: "length (u64be n) = 8"
  by (simp add: u64be_def)

end
