(* ===== verification/Fingerprint.thy ===== *)
theory Fingerprint
  imports PlannerModels Sha256
begin

text \<open>
  \<^verbatim>\<open>planner/fingerprint.py\<close>: the canonical byte encoding of a token sequence, the
  length-prefixed preimage of a fingerprint and the production SHA-256 fingerprinter.
  Python sizes are below \<open>2 ^ 63\<close>, so packing a length never raises; the encoding lemmas carry
  that bound as a hypothesis.  The dependency-injection boundary
  \<^verbatim>\<open>SegmentFingerprinter\<close> is the locale \<open>segment_fingerprinter\<close>, interpreted on the
  production fingerprinter.
\<close>

definition encode_utf8 :: "string \<Rightarrow> byte list" where
  "encode_utf8 s = map of_char s"

definition FINGERPRINT_DOMAIN :: "byte list" where
  "FINGERPRINT_DOMAIN = encode_utf8 (''cacheblend-gpt-oss'' @ [CHR 0x00] @ ''segment-fingerprint'' @
     [CHR 0x00] @ ''v1'' @ [CHR 0x00])"

definition TOKEN_ENCODING_DOMAIN :: "byte list" where
  "TOKEN_ENCODING_DOMAIN = encode_utf8 (''cacheblend-gpt-oss'' @ [CHR 0x00] @ ''token-sequence'' @
     [CHR 0x00] @ ''u64be-v1'' @ [CHR 0x00])"

definition length_prefix :: "byte list \<Rightarrow> byte list" where
  "length_prefix v = u64be (int (length v)) @ v"

text \<open>The encoding of a normalised token tuple, and the function that normalises first.\<close>

definition token_bytes :: "int list \<Rightarrow> byte list" where
  "token_bytes ts = TOKEN_ENCODING_DOMAIN @ u64be (int (length ts)) @ concat (map u64be ts)"

definition canonical_token_bytes :: "pyval list \<Rightarrow> py_error + byte list" where
  "canonical_token_bytes vs = rbind (normalize_token_ids vs) (\<lambda>ts. Inr (token_bytes ts))"

definition field_bytes :: "(string \<times> string) list \<Rightarrow> byte list" where
  "field_bytes fs =
     concat (map (\<lambda>(name, v). length_prefix (encode_utf8 name) @ length_prefix (encode_utf8 v)) fs)"

definition fingerprint_preimage :: "CacheNamespace \<Rightarrow> byte list \<Rightarrow> byte list" where
  "fingerprint_preimage n tb = FINGERPRINT_DOMAIN @ field_bytes (canonical_fields n) @ length_prefix tb"

definition fingerprint_segment :: "CacheNamespace \<Rightarrow> pyval list \<Rightarrow> py_error + SegmentFingerprint" where
  "fingerprint_segment n vs =
     rbind (canonical_token_bytes vs) (\<lambda>tb. SegmentFingerprint_init (sha256 (fingerprint_preimage n tb)))"

text \<open>The production fingerprinter on tokens that are already normalised.\<close>

definition SHA256_FINGERPRINTER :: "CacheNamespace \<Rightarrow> int list \<Rightarrow> SegmentFingerprint" where
  "SHA256_FINGERPRINTER n ts = \<lparr>digest = sha256 (fingerprint_preimage n (token_bytes ts))\<rparr>"

section \<open>The fingerprinter interface\<close>

locale segment_fingerprinter =
  fixes fp :: "CacheNamespace \<Rightarrow> int list \<Rightarrow> SegmentFingerprint"
  assumes fp_wf: "wf_fingerprint (fp n ts)"
begin

text \<open>A record built from a segment carries a complete digest and is accepted by its constructor.\<close>

lemma build_record_succeeds:
  assumes "wf_segment s" "k \<noteq> []"
  shows "CacheRecord_init n (fp n (token_ids s)) (map PInt (token_ids s)) (token_range s) k =
    Inr \<lparr>rec_namespace = n, rec_fingerprint = fp n (token_ids s), rec_token_ids = token_ids s,
         source_range = token_range s, cache_key = k\<rparr>"
  using assms by (auto simp: init_simps wf_record_def wf_segment_def)

lemma fp_init: "SegmentFingerprint_init (digest (fp n ts)) = Inr (fp n ts)"
  using fp_wf [of n ts] by (simp add: init_simps)

end

interpretation sha_fp: segment_fingerprinter SHA256_FINGERPRINTER
  by unfold_locales (simp add: SHA256_FINGERPRINTER_def wf_fingerprint_def)

section \<open>Injectivity of the encodings\<close>

lemma of_char_byte_inj: "(of_char c :: byte) = of_char d \<Longrightarrow> c = d"
proof -
  assume "(of_char c :: byte) = of_char d"
  moreover have "unat (of_char x :: byte) = of_char x" for x :: char
  proof -
    have "unat (of_nat (of_char x) :: byte) = of_char x mod 256"
      by (subst unat_of_nat) simp
    then show ?thesis by (simp add: of_nat_of_char)
  qed
  ultimately show ?thesis by (metis char_of_char)
qed

lemma encode_utf8_inj [simp]: "encode_utf8 s = encode_utf8 t \<longleftrightarrow> s = t"
  unfolding encode_utf8_def by (rule inj_map_eq_map) (auto intro: injI of_char_byte_inj)

lemma length_encode_utf8 [simp]: "length (encode_utf8 s) = length s"
  by (simp add: encode_utf8_def)

fun bytes_value :: "byte list \<Rightarrow> int" where
  "bytes_value bs = foldl (\<lambda>acc b. acc * 256 + uint b) 0 bs"

lemma bytes_value_u64be:
  assumes "0 \<le> n" "n < 2 ^ 64"
  shows "bytes_value (u64be n) = n"
proof -
  define q where "q k = n div 2 ^ (8 * k)" for k
  have u: "uint (word_of_int m :: byte) = m mod 256" for m
    by (simp add: uint_word_of_int)
  have st: "q j * 256 + uint (word_of_int (q k) :: byte) = q k" if "j = Suc k" for j k
  proof -
    have "(2::int) ^ (8 * Suc k) = 2 ^ (8 * k) * 256" by (simp add: power_add)
    then have "q j = q k div 256" using that unfolding q_def by (simp only: zdiv_zmult2_eq)
    then show ?thesis by (simp only: u div_mult_mod_eq)
  qed
  have "q 7 mod 256 = q 7" using assms unfolding q_def by simp
  then have top: "0 * 256 + uint (word_of_int (q 7) :: byte) = q 7" by (simp only: u mult_zero_left add_0)
  have "u64be n = map (\<lambda>k. word_of_int (q k)) [7, 6, 5, 4, 3, 2, 1, 0]" by (simp only: u64be_def q_def)
  moreover have "q 0 = n" by (simp add: q_def)
  moreover have "q 7 * 256 + uint (word_of_int (q 6) :: byte) = q 6"
    "q 6 * 256 + uint (word_of_int (q 5) :: byte) = q 5" "q 5 * 256 + uint (word_of_int (q 4) :: byte) = q 4"
    "q 4 * 256 + uint (word_of_int (q 3) :: byte) = q 3" "q 3 * 256 + uint (word_of_int (q 2) :: byte) = q 2"
    "q 2 * 256 + uint (word_of_int (q 1) :: byte) = q 1" "q 1 * 256 + uint (word_of_int (q 0) :: byte) = q 0"
    by (rule st, simp)+
  ultimately show ?thesis by (simp only: bytes_value.simps list.map foldl.simps top)
qed

lemma u64be_inj:
  assumes "u64be m = u64be n" "0 \<le> m" "m < 2 ^ 64" "0 \<le> n" "n < 2 ^ 64"
  shows "m = n"
  by (metis assms bytes_value_u64be)

lemma length_prefix_append_inj:
  assumes "length_prefix a @ x = length_prefix b @ y" "length a < 2 ^ 64" "length b < 2 ^ 64"
  shows "a = b \<and> x = y"
proof -
  from assms(1) have u: "u64be (int (length a)) = u64be (int (length b))" and r: "a @ x = b @ y"
    by (auto simp: length_prefix_def append_eq_append_conv)
  have "int (length a) = int (length b)"
    using assms(2,3) by (intro u64be_inj [OF u]) (auto simp: less_imp_of_nat_less)
  with r show ?thesis by simp
qed

lemma token_concat_inj:
  "wf_tokens ts \<Longrightarrow> wf_tokens us \<Longrightarrow> length ts = length us \<Longrightarrow>
   concat (map u64be ts) = concat (map u64be us) \<Longrightarrow> ts = us"
proof (induction ts us rule: list_induct2')
  case (4 t ts u us)
  then have "u64be t = u64be u" "concat (map u64be ts) = concat (map u64be us)"
    by (auto simp: append_eq_append_conv)
  with 4 show ?case by (auto simp: wf_tokens_def MAX_TOKEN_ID_def intro: u64be_inj)
qed auto

lemma token_bytes_inj:
  assumes "token_bytes ts = token_bytes us" "wf_tokens ts" "wf_tokens us"
    "length ts < 2 ^ 60" "length us < 2 ^ 60"
  shows "ts = us"
proof -
  from assms(1) have u: "u64be (int (length ts)) = u64be (int (length us))"
    and c: "concat (map u64be ts) = concat (map u64be us)"
    by (auto simp: token_bytes_def append_eq_append_conv)
  have "int (length ts) = int (length us)"
    using assms(4,5) by (intro u64be_inj [OF u]) auto
  then show ?thesis using token_concat_inj [OF assms(2,3) _ c] by simp
qed

lemma length_token_bytes: "length (token_bytes ts) = 51 + 8 * length ts"
proof -
  have "length (concat (map u64be ts)) = 8 * length ts" by (induction ts) auto
  then show ?thesis by (simp add: token_bytes_def TOKEN_ENCODING_DOMAIN_def)
qed

text \<open>Every field of a namespace fits the length prefix.\<close>

definition sized_namespace :: "CacheNamespace \<Rightarrow> bool" where
  "sized_namespace n \<longleftrightarrow> (\<forall>(name, v)\<in>set (canonical_fields n). length v < 2 ^ 64)"

lemma field_step:
  assumes "field_bytes ((k, v) # fs) @ x = field_bytes ((k, w) # gs) @ y"
    "length k < 2 ^ 64" "length v < 2 ^ 64" "length w < 2 ^ 64"
  shows "v = w \<and> field_bytes fs @ x = field_bytes gs @ y"
proof -
  have "length_prefix (encode_utf8 k) @ length_prefix (encode_utf8 v) @ field_bytes fs @ x =
      length_prefix (encode_utf8 k) @ length_prefix (encode_utf8 w) @ field_bytes gs @ y"
    using assms(1) by (simp add: field_bytes_def)
  then show ?thesis
    using length_prefix_append_inj [of "encode_utf8 v" _ "encode_utf8 w"] assms(3,4) by simp
qed

lemma field_bytes_inj:
  assumes "field_bytes fs @ x = field_bytes gs @ y" "map fst fs = map fst gs"
    "\<forall>(k, v)\<in>set fs. length k < 2 ^ 64 \<and> length v < 2 ^ 64" "\<forall>(k, v)\<in>set gs. length v < 2 ^ 64"
  shows "fs = gs \<and> x = y"
  using assms
proof (induction fs gs rule: list_induct2')
  case (4 f fs g gs)
  then obtain k v w where e: "f = (k, v)" "g = (k, w)" by (metis fst_conv list.inject list.simps(9) prod.collapse)
  have "v = w \<and> field_bytes fs @ x = field_bytes gs @ y"
    using 4 e by (intro field_step) auto
  with 4 e show ?case by auto
qed (auto simp: field_bytes_def)

lemma canonical_fields_inj:
  assumes "canonical_fields m = canonical_fields n" "wf_namespace m" "wf_namespace n"
  shows "m = n"
proof -
  have "py_str_int (schema_version m) = py_str_int (schema_version n)"
    using assms(1) by (simp add: canonical_fields_def)
  then have "schema_version m = schema_version n"
    using assms(2,3) by (auto simp: py_str_int_def wf_namespace_def dest: nat_decimal_inj)
  with assms(1) show ?thesis by (simp add: canonical_fields_def)
qed

section \<open>Properties\<close>

text \<open>
  C4. The hashed preimage identifies the whole cache identity: for valid namespaces and token
  tuples of representable size, equal preimages force equal namespaces and equal tokens, so two
  different reusable segments share a fingerprint only through a SHA-256 collision.
\<close>

theorem fingerprint_preimage_injective:
  assumes "wf_namespace m" "wf_namespace n" "sized_namespace m" "sized_namespace n"
    "wf_tokens ts" "wf_tokens us" "length ts < 2 ^ 60" "length us < 2 ^ 60"
    "fingerprint_preimage m (token_bytes ts) = fingerprint_preimage n (token_bytes us)"
  shows "m = n \<and> ts = us"
proof -
  have "field_bytes (canonical_fields m) @ length_prefix (token_bytes ts) =
      field_bytes (canonical_fields n) @ length_prefix (token_bytes us)"
    using assms(9) by (simp add: fingerprint_preimage_def)
  moreover have "map fst (canonical_fields m) = map fst (canonical_fields n)"
    and "\<forall>(k, v)\<in>set (canonical_fields m). length k < 2 ^ 64 \<and> length v < 2 ^ 64"
    using assms(3) by (simp_all add: canonical_fields_def sized_namespace_def)
  ultimately have f: "canonical_fields m = canonical_fields n"
    and t: "length_prefix (token_bytes ts) @ [] = length_prefix (token_bytes us) @ []"
    using field_bytes_inj [of "canonical_fields m" _ "canonical_fields n"] assms(4)
    unfolding sized_namespace_def by blast+
  have "token_bytes ts = token_bytes us"
    using length_prefix_append_inj [OF t] assms(7,8) by (simp add: length_token_bytes)
  then show ?thesis using canonical_fields_inj [OF f] token_bytes_inj assms by blast
qed

definition example_namespace :: CacheNamespace where
  "example_namespace =
    \<lparr>schema_version = 1, model_id = ''openai/gpt-oss-20b'', model_revision = ''r1'',
     tokenizer_id = ''openai/gpt-oss-20b'', tokenizer_revision = ''t1'', model_config_digest = ''d1'',
     kv_cache_config_digest = ''d2'', adapter_revision = ''a1'', vllm_version = ''0.19.1'',
     lmcache_version = ''0.4.3'', torch_version = ''2.10.0+cu128'', cuda_runtime = ''12.8''\<rparr>"

lemma wf_example_namespace [simp]: "wf_namespace example_namespace" "sized_namespace example_namespace"
  by (simp_all add: example_namespace_def wf_namespace_def sized_namespace_def canonical_fields_def
      has_NUL_def py_str_int_def nat_decimal.simps)

theorem fingerprint_preimage_injective_witness:
  "wf_namespace example_namespace \<and> sized_namespace example_namespace \<and>
   example_namespace = example_namespace \<and> [1, 2] = [1, 2 :: int]"
  using fingerprint_preimage_injective [of example_namespace example_namespace "[1, 2]" "[1, 2]"]
  by (simp add: wf_tokens_def MAX_TOKEN_ID_def)

text \<open>
  The production fingerprinter accepts exactly the sequences whose entries are plain integers
  in the unsigned 64-bit range (booleans and other values are rejected), returns a 32-byte digest
  for them, and this digest is the one the planner uses for the normalised tokens.
\<close>

lemma fingerprint_segment_total:
  "fingerprint_segment n vs = Inr f \<longleftrightarrow>
     (\<exists>ts. vs = map PInt ts \<and> wf_tokens ts \<and> f = SHA256_FINGERPRINTER n ts \<and> length (digest f) = 32)"
  by (auto simp: fingerprint_segment_def canonical_token_bytes_def result_simps init_simps
      SHA256_FINGERPRINTER_def wf_fingerprint_def)

end
