(* ===== verification/IntervalScheduling.thy ===== *)
theory IntervalScheduling
  imports PlannerModels
begin

text \<open>
  Weighted interval scheduling, the routine \<^verbatim>\<open>_select_non_overlapping\<close> that
  \<^verbatim>\<open>planner/matching.py\<close> and \<^verbatim>\<open>storage/lookup.py\<close> each carry.  The definitions
  take the target range, the weight and the tie-breaking key of an item as arguments; the two
  modules supply their own.  The locale \<open>interval_jobs\<close> states what a module promises of its
  items (non-empty ranges, weight equal to length); inside it the selection is proved to be
  conflict-free and to cover the maximum number of tokens.
\<close>

section \<open>The dynamic program\<close>

record 'k Solution =
  token_count :: int
  candidate_indexes :: "nat list"
  tie_break_key :: "'k list"

definition better_solution :: "('k::linorder) Solution \<Rightarrow> 'k Solution \<Rightarrow> 'k Solution" where
  "better_solution left right =
     (if token_count left \<noteq> token_count right
      then (if token_count left > token_count right then left else right)
      else (if tie_break_key left \<le> tie_break_key right then left else right))"

text \<open>The \<^verbatim>\<open>while\<close> loop over \<^verbatim>\<open>predecessor\<close>; the result is \<^verbatim>\<open>predecessor + 1\<close>.\<close>

fun predecessor_slot :: "('a \<Rightarrow> TokenRange) \<Rightarrow> 'a list \<Rightarrow> int \<Rightarrow> nat \<Rightarrow> nat" where
  "predecessor_slot rng ordered s 0 = 0"
| "predecessor_slot rng ordered s (Suc p) =
     (if tr_end (rng (ordered ! p)) > s then predecessor_slot rng ordered s p else Suc p)"

definition selection_step ::
    "('a \<Rightarrow> TokenRange) \<Rightarrow> ('a \<Rightarrow> int) \<Rightarrow> ('a \<Rightarrow> 'k::linorder) \<Rightarrow> nat list \<Rightarrow> 'a list \<Rightarrow>
     'k Solution list \<Rightarrow> nat \<Rightarrow> 'k Solution list" where
  "selection_step rng w key ordered_indexes ordered solutions ordered_index =
     (let candidate = ordered ! ordered_index;
          base = solutions ! predecessor_slot rng ordered (tr_start (rng candidate)) ordered_index;
          original_index = ordered_indexes ! ordered_index;
          incl = \<lparr>token_count = token_count base + w candidate,
                  candidate_indexes = candidate_indexes base @ [original_index],
                  tie_break_key = tie_break_key base @ [key candidate]\<rparr>;
          excl = last solutions
      in solutions @ [better_solution incl excl])"

definition order_indexes :: "('a \<Rightarrow> TokenRange) \<Rightarrow> ('a \<Rightarrow> 'k::linorder) \<Rightarrow> 'a list \<Rightarrow> nat list" where
  "order_indexes rng key candidates =
     sort_key (\<lambda>i. (tr_end (rng (candidates ! i)), key (candidates ! i))) [0..<length candidates]"

definition selection_solutions ::
    "('a \<Rightarrow> TokenRange) \<Rightarrow> ('a \<Rightarrow> int) \<Rightarrow> ('a \<Rightarrow> 'k::linorder) \<Rightarrow> nat list \<Rightarrow> 'a list \<Rightarrow> nat \<Rightarrow> 'k Solution list"
where
  "selection_solutions rng w key ordered_indexes ordered n =
     foldl (selection_step rng w key ordered_indexes ordered)
       [\<lparr>token_count = 0, candidate_indexes = [], tie_break_key = []\<rparr>] [0..<n]"

definition select_intervals ::
    "('a \<Rightarrow> TokenRange) \<Rightarrow> ('a \<Rightarrow> int) \<Rightarrow> ('a \<Rightarrow> 'k::linorder) \<Rightarrow> 'a list \<Rightarrow> nat list" where
  "select_intervals rng w key candidates =
     (let ordered_indexes = order_indexes rng key candidates;
          ordered = map (\<lambda>i. candidates ! i) ordered_indexes
      in candidate_indexes
           (last (selection_solutions rng w key ordered_indexes ordered (length ordered))))"

section \<open>Helper lemmas\<close>

lemma set_order_indexes [simp]: "set (order_indexes rng key cs) = {..<length cs}"
  by (auto simp: order_indexes_def)

lemma distinct_order_indexes [simp]: "distinct (order_indexes rng key cs)"
  by (simp add: order_indexes_def)

lemma length_order_indexes [simp]: "length (order_indexes rng key cs) = length cs"
  by (simp add: order_indexes_def)

lemma sorted_by_end:
  "sorted (map (\<lambda>c. tr_end (rng c)) (map (\<lambda>i. cs ! i) (order_indexes rng key cs)))"
proof -
  have "sorted (map (\<lambda>i. (tr_end (rng (cs ! i)), key (cs ! i))) (order_indexes rng key cs))"
    by (simp add: order_indexes_def)
  then have "sorted (map fst (map (\<lambda>i. (tr_end (rng (cs ! i)), key (cs ! i))) (order_indexes rng key cs)))"
    by (auto simp: sorted_iff_nth_mono less_eq_prod_def intro: less_imp_le)
  then show ?thesis by (simp add: o_def)
qed

lemma predecessor_slot_le: "predecessor_slot rng xs s k \<le> k"
  by (induction k) auto

lemma predecessor_slot_after:
  "predecessor_slot rng xs s k \<le> i \<Longrightarrow> i < k \<Longrightarrow> s < tr_end (rng (xs ! i))"
  by (induction k) (auto simp: less_Suc_eq split: if_splits)

lemma predecessor_slot_before:
  "0 < predecessor_slot rng xs s k \<Longrightarrow> tr_end (rng (xs ! (predecessor_slot rng xs s k - 1))) \<le> s"
  by (induction k) auto

lemma selection_solutions_Suc:
  "selection_solutions rng w key oi xs (Suc n) =
     selection_step rng w key oi xs (selection_solutions rng w key oi xs n) n"
  by (simp add: selection_solutions_def)

lemma length_selection_solutions [simp]: "length (selection_solutions rng w key oi xs n) = Suc n"
  by (induction n) (simp_all add: selection_solutions_Suc selection_step_def Let_def,
      simp add: selection_solutions_def)

lemma selection_solutions_prefix:
  "k \<le> n \<Longrightarrow> selection_solutions rng w key oi xs n ! k = last (selection_solutions rng w key oi xs k)"
proof (induction n)
  case 0
  then show ?case by (simp add: selection_solutions_def)
next
  case (Suc n)
  have l: "last (selection_solutions rng w key oi xs k) = selection_solutions rng w key oi xs k ! k" for k
    using length_selection_solutions [of rng w key oi xs k] by (metis diff_Suc_1 last_conv_nth length_0_conv nat.simps(3))
  show ?case
  proof (cases "k = Suc n")
    case True
    then show ?thesis by (simp add: l)
  next
    case False
    with Suc show ?thesis
      by (simp add: selection_solutions_Suc selection_step_def Let_def nth_append)
  qed
qed

section \<open>The interface of a module's items, and optimality\<close>

locale interval_jobs =
  fixes rng :: "'a \<Rightarrow> TokenRange" and w :: "'a \<Rightarrow> int" and key :: "'a \<Rightarrow> 'k::linorder" and ok :: "'a \<Rightarrow> bool"
  assumes job_nonempty: "ok c \<Longrightarrow> tr_start (rng c) < tr_end (rng c)"
    and job_weight: "ok c \<Longrightarrow> w c = range_len (rng c)"
begin

text \<open>A set of positions of the list sorted by end whose jobs follow one another.\<close>

definition chained :: "'a list \<Rightarrow> nat set \<Rightarrow> bool" where
  "chained xs P \<longleftrightarrow> (\<forall>i\<in>P. \<forall>j\<in>P. i < j \<longrightarrow> tr_end (rng (xs ! i)) \<le> tr_start (rng (xs ! j)))"

text \<open>\<open>S\<close> is a best solution for the first \<open>k\<close> jobs.\<close>

definition best_prefix :: "'a list \<Rightarrow> nat list \<Rightarrow> nat \<Rightarrow> 'k Solution \<Rightarrow> bool" where
  "best_prefix xs oi k S \<longleftrightarrow>
     (\<exists>ps. sorted_wrt (<) ps \<and> set ps \<subseteq> {..<k} \<and> chained xs (set ps) \<and>
        candidate_indexes S = map (\<lambda>p. oi ! p) ps \<and> token_count S = (\<Sum>p\<in>set ps. w (xs ! p)) \<and>
        (\<forall>P\<subseteq>{..<k}. chained xs P \<longrightarrow> (\<Sum>p\<in>P. w (xs ! p)) \<le> token_count S))"

lemma best_prefix_step:
  assumes ok: "\<forall>c\<in>set xs. ok c" and k: "k < length xs" and sorted: "sorted (map (\<lambda>c. tr_end (rng c)) xs)"
    and base: "best_prefix xs oi (predecessor_slot rng xs (tr_start (rng (xs ! k))) k) B"
    and excl: "best_prefix xs oi k E"
    and incl: "I = \<lparr>token_count = token_count B + w (xs ! k),
       candidate_indexes = candidate_indexes B @ [oi ! k], tie_break_key = t\<rparr>"
  shows "best_prefix xs oi (Suc k) (better_solution I E)"
proof -
  let ?s = "tr_start (rng (xs ! k))"
  let ?b = "predecessor_slot rng xs ?s k"
  have b: "?b \<le> k" by (rule predecessor_slot_le)
  obtain ps where ps: "sorted_wrt (<) ps" "set ps \<subseteq> {..<?b}" "chained xs (set ps)"
      "candidate_indexes B = map (\<lambda>p. oi ! p) ps" "token_count B = (\<Sum>p\<in>set ps. w (xs ! p))"
    and Bopt: "\<And>P. P \<subseteq> {..<?b} \<Longrightarrow> chained xs P \<Longrightarrow> (\<Sum>p\<in>P. w (xs ! p)) \<le> token_count B"
    using base unfolding best_prefix_def by blast
  obtain es where es: "sorted_wrt (<) es" "set es \<subseteq> {..<k}" "chained xs (set es)"
      "candidate_indexes E = map (\<lambda>p. oi ! p) es" "token_count E = (\<Sum>p\<in>set es. w (xs ! p))"
    and Eopt: "\<And>P. P \<subseteq> {..<k} \<Longrightarrow> chained xs P \<Longrightarrow> (\<Sum>p\<in>P. w (xs ! p)) \<le> token_count E"
    using excl unfolding best_prefix_def by blast
  have early: "tr_end (rng (xs ! p)) \<le> ?s" if "p < ?b" for p
  proof -
    have "tr_end (rng (xs ! p)) \<le> tr_end (rng (xs ! (?b - 1)))"
      using sorted that b k by (auto simp: sorted_iff_nth_mono)
    also have "\<dots> \<le> ?s" using predecessor_slot_before that by (metis gr_zeroI not_less_zero)
    finally show ?thesis .
  qed
  have max: "token_count (better_solution I E) = max (token_count I) (token_count E)"
    by (auto simp: better_solution_def)
  have opt: "(\<Sum>p\<in>P. w (xs ! p)) \<le> token_count (better_solution I E)"
    if P: "P \<subseteq> {..<Suc k}" "chained xs P" for P
  proof (cases "k \<in> P")
    case False
    then have "P \<subseteq> {..<k}" using P by (auto simp: less_Suc_eq)
    then have "(\<Sum>p\<in>P. w (xs ! p)) \<le> token_count E" using P(2) by (rule Eopt)
    then show ?thesis using max by simp
  next
    case True
    have fin: "finite P" using P(1) finite_subset by blast
    have "p < ?b" if "p \<in> P - {k}" for p
    proof (rule ccontr)
      assume "\<not> p < ?b"
      moreover have "p < k" using that P(1) by auto
      ultimately have "?s < tr_end (rng (xs ! p))" by (intro predecessor_slot_after) auto
      moreover have "tr_end (rng (xs ! p)) \<le> ?s"
        using P(2) True that \<open>p < k\<close> unfolding chained_def by blast
      ultimately show False by simp
    qed
    then have "P - {k} \<subseteq> {..<?b}" by auto
    moreover have "chained xs (P - {k})" using P(2) by (auto simp: chained_def)
    ultimately have "(\<Sum>p\<in>P - {k}. w (xs ! p)) \<le> token_count B" by (rule Bopt)
    then have "(\<Sum>p\<in>P. w (xs ! p)) \<le> token_count I"
      using sum.remove [OF fin True, of "\<lambda>p. w (xs ! p)"] by (simp add: incl)
    then show ?thesis using max by simp
  qed
  consider "better_solution I E = I" | "better_solution I E = E" by (metis better_solution_def)
  then show ?thesis
  proof cases
    case 1
    have "k \<notin> set ps" using ps(2) b by auto
    then have "sorted_wrt (<) (ps @ [k]) \<and> set (ps @ [k]) \<subseteq> {..<Suc k} \<and> chained xs (set (ps @ [k])) \<and>
        candidate_indexes I = map (\<lambda>p. oi ! p) (ps @ [k]) \<and> token_count I = (\<Sum>p\<in>set (ps @ [k]). w (xs ! p))"
      using ps b early by (auto simp: incl sorted_wrt_append chained_def subset_iff less_Suc_eq)
    with opt 1 show ?thesis unfolding best_prefix_def by metis
  next
    case 2
    with es opt show ?thesis unfolding best_prefix_def by (metis lessThan_Suc subset_insertI2)
  qed
qed

lemma solutions_best:
  assumes "\<forall>c\<in>set xs. ok c" "sorted (map (\<lambda>c. tr_end (rng c)) xs)" "k \<le> length xs"
  shows "best_prefix xs oi k (last (selection_solutions rng w key oi xs k))"
  using assms(3)
proof (induction k rule: less_induct)
  case (less k)
  show ?case
  proof (cases k)
    case 0
    then show ?thesis by (simp add: selection_solutions_def best_prefix_def chained_def)
  next
    case (Suc n)
    let ?b = "predecessor_slot rng xs (tr_start (rng (xs ! n))) n"
    let ?sols = "selection_solutions rng w key oi xs"
    have b: "?b \<le> n" by (rule predecessor_slot_le)
    have "best_prefix xs oi ?b (?sols n ! ?b)"
      using less b Suc by (simp add: selection_solutions_prefix)
    moreover have "best_prefix xs oi n (last (?sols n))" using less Suc by simp
    ultimately show ?thesis
      using best_prefix_step [OF assms(1) _ assms(2)] less.prems Suc
      by (simp add: selection_solutions_Suc selection_step_def Let_def)
  qed
qed

text \<open>Between two jobs in end order, not overlapping is the same as following one another.\<close>

lemma no_overlap_follows:
  assumes "ok c" "ok d" "tr_end (rng c) \<le> tr_end (rng d)"
  shows "overlaps (rng c) (rng d) \<longleftrightarrow> \<not> tr_end (rng c) \<le> tr_start (rng d)"
  using job_nonempty [OF assms(1)] job_nonempty [OF assms(2)] assms(3) by (auto simp: overlaps_def)

theorem select_intervals_best:
  fixes cs :: "'a list"
  assumes ok: "\<forall>c\<in>set cs. ok c"
  defines "sel \<equiv> select_intervals rng w key cs"
  shows "distinct sel" "set sel \<subseteq> {..<length cs}"
    "\<forall>i\<in>set sel. \<forall>j\<in>set sel. i \<noteq> j \<longrightarrow> \<not> overlaps (rng (cs ! i)) (rng (cs ! j))"
    "J \<subseteq> {..<length cs} \<Longrightarrow> \<forall>i\<in>J. \<forall>j\<in>J. i \<noteq> j \<longrightarrow> \<not> overlaps (rng (cs ! i)) (rng (cs ! j)) \<Longrightarrow>
       (\<Sum>j\<in>J. w (cs ! j)) \<le> (\<Sum>i\<in>set sel. w (cs ! i))"
proof -
  define oi where "oi = order_indexes rng key cs"
  define xs where "xs = map (\<lambda>i. cs ! i) oi"
  have len: "length xs = length cs" "length oi = length cs" by (simp_all add: xs_def oi_def)
  have oi: "distinct oi" "set oi = {..<length cs}" by (simp_all add: oi_def)
  have okx: "\<forall>c\<in>set xs. ok c" using ok oi by (auto simp: xs_def)
  have sorted: "sorted (map (\<lambda>c. tr_end (rng c)) xs)" unfolding xs_def oi_def by (rule sorted_by_end)
  have nth: "xs ! p = cs ! (oi ! p)" if "p < length cs" for p using that by (simp add: xs_def len)
  obtain ps where ps: "sorted_wrt (<) ps" "set ps \<subseteq> {..<length cs}" "chained xs (set ps)"
      "sel = map (\<lambda>p. oi ! p) ps"
    and opt: "\<And>P. P \<subseteq> {..<length cs} \<Longrightarrow> chained xs P \<Longrightarrow> (\<Sum>p\<in>P. w (xs ! p)) \<le> (\<Sum>p\<in>set ps. w (xs ! p))"
    using solutions_best [OF okx sorted order.refl, of oi]
    unfolding best_prefix_def sel_def select_intervals_def Let_def xs_def oi_def by (auto simp: len)
  have inj: "inj_on (\<lambda>p. oi ! p) {..<length cs}" using oi(1) len by (auto simp: inj_on_def nth_eq_iff_index_eq)
  have psd: "distinct ps" using ps(1) strict_sorted_iff by blast
  show "distinct sel" using psd ps(2,4) inj by (auto simp: distinct_map intro: inj_on_subset)
  show sub: "set sel \<subseteq> {..<length cs}" using ps(2,4) oi(2) len(2) by (auto simp: subset_iff)
  have ends: "p < q \<Longrightarrow> q < length cs \<Longrightarrow> tr_end (rng (xs ! p)) \<le> tr_end (rng (xs ! q))" for p q
    using sorted len by (auto simp: sorted_iff_nth_mono)
  have chain: "p < q \<Longrightarrow> q < length cs \<Longrightarrow>
      overlaps (rng (xs ! p)) (rng (xs ! q)) \<longleftrightarrow> \<not> tr_end (rng (xs ! p)) \<le> tr_start (rng (xs ! q))" for p q
    using okx len ends by (intro no_overlap_follows) auto
  have free: "chained xs P \<longleftrightarrow> (\<forall>p\<in>P. \<forall>q\<in>P. p \<noteq> q \<longrightarrow> \<not> overlaps (rng (xs ! p)) (rng (xs ! q)))"
    if "P \<subseteq> {..<length cs}" for P
  proof -
    have "chained xs P \<longleftrightarrow> (\<forall>p\<in>P. \<forall>q\<in>P. p < q \<longrightarrow> \<not> overlaps (rng (xs ! p)) (rng (xs ! q)))"
      unfolding chained_def using chain that by (intro ball_cong refl) (auto simp: subset_iff)
    then show ?thesis using overlaps_sym by (auto simp: nat_neq_iff)
  qed
  show "\<forall>i\<in>set sel. \<forall>j\<in>set sel. i \<noteq> j \<longrightarrow> \<not> overlaps (rng (cs ! i)) (rng (cs ! j))"
  proof (intro ballI impI)
    fix i j assume "i \<in> set sel" "j \<in> set sel" "i \<noteq> j"
    then obtain p q where "p \<in> set ps" "q \<in> set ps" "p \<noteq> q" "i = oi ! p" "j = oi ! q"
      using ps(4) by auto
    moreover from this ps(2) nth have "xs ! p = cs ! i" "xs ! q = cs ! j" by auto
    ultimately show "\<not> overlaps (rng (cs ! i)) (rng (cs ! j))" using free [OF ps(2)] ps(3) by metis
  qed
  show "(\<Sum>j\<in>J. w (cs ! j)) \<le> (\<Sum>i\<in>set sel. w (cs ! i))"
    if J: "J \<subseteq> {..<length cs}" "\<forall>i\<in>J. \<forall>j\<in>J. i \<noteq> j \<longrightarrow> \<not> overlaps (rng (cs ! i)) (rng (cs ! j))"
  proof -
    define P where "P = {p. p < length cs \<and> oi ! p \<in> J}"
    have P: "P \<subseteq> {..<length cs}" by (auto simp: P_def)
    have img: "(\<lambda>p. oi ! p) ` P = J"
    proof
      show "J \<subseteq> (\<lambda>p. oi ! p) ` P"
      proof
        fix j assume "j \<in> J"
        then have "j \<in> set oi" using J(1) oi(2) by auto
        then obtain p where "p < length cs" "oi ! p = j" using len(2) by (auto simp: in_set_conv_nth)
        with \<open>j \<in> J\<close> show "j \<in> (\<lambda>p. oi ! p) ` P" by (auto simp: P_def)
      qed
    qed (auto simp: P_def)
    have "chained xs P"
      unfolding free [OF P] using J(2) inj P nth by (auto simp: P_def inj_on_def)
    then have "(\<Sum>p\<in>P. w (xs ! p)) \<le> (\<Sum>p\<in>set ps. w (xs ! p))" by (rule opt [OF P])
    moreover have re: "(\<Sum>p\<in>Q. w (xs ! p)) = (\<Sum>j\<in>(\<lambda>p. oi ! p) ` Q. w (cs ! j))" if "Q \<subseteq> {..<length cs}" for Q
      using that nth inj by (subst sum.reindex) (auto intro: inj_on_subset simp: subset_iff intro!: sum.cong)
    moreover have "set sel = (\<lambda>p. oi ! p) ` set ps" using ps(4) by simp
    ultimately show ?thesis using re [OF P] re [OF ps(2)] img by simp
  qed
qed

text \<open>However the selected jobs are listed, if their starts ascend they follow one another.\<close>

lemma selected_sequential:
  assumes ok: "\<forall>c\<in>set cs. ok c" and sel: "sel = set (select_intervals rng w key cs)"
    and ys: "mset (map g ys) = mset (map snd (filter (\<lambda>(i, c). i \<in> sel) (List.enumerate 0 cs)))"
    and sorted: "sorted (map (\<lambda>y. tr_start (rng (g y))) ys)"
  shows "sorted_wrt (\<lambda>a b. tr_end (rng (g a)) \<le> tr_start (rng (g b))) ys"
proof -
  let ?R = "\<lambda>c d. \<not> overlaps (rng c) (rng d)"
  let ?chosen = "filter (\<lambda>(i, c). i \<in> sel) (List.enumerate 0 cs)"
  have "sorted_wrt (<) (map fst (List.enumerate 0 cs))" by simp
  then have "sorted_wrt (\<lambda>x y. fst x < fst y) (List.enumerate 0 cs)" by (simp only: sorted_wrt_map)
  then have "sorted_wrt (\<lambda>x y. fst x < fst y) ?chosen" by (rule sorted_wrt_filter)
  then have "sorted_wrt (\<lambda>x y. ?R (snd x) (snd y)) ?chosen"
    by (rule sorted_wrt_mono_rel [rotated])
      (use select_intervals_best(3) [OF ok] sel in \<open>fastforce simp: in_set_enumerate_eq\<close>)
  then have "sorted_wrt ?R (map snd ?chosen)" by (simp only: sorted_wrt_map)
  then have "sorted_wrt ?R (map g ys)"
    using sorted_wrt_sym_mset [OF _ ys [symmetric]] overlaps_sym by (auto simp: symp_def)
  moreover have "\<forall>y\<in>set ys. tr_start (rng (g y)) < tr_end (rng (g y))"
  proof
    fix y assume that: "y \<in> set ys"
    have "g y \<in> set (map snd ?chosen)" using that arg_cong [OF ys, of set_mset] by auto
    then have "g y \<in> set cs" by (auto simp: in_set_enumerate_eq) (metis nth_mem)
    then show "tr_start (rng (g y)) < tr_end (rng (g y))" using ok job_nonempty by simp
  qed
  ultimately show ?thesis
    using sorted unfolding sorted_wrt_map by (induction ys) (fastforce simp: overlaps_def not_less)+
qed

end

end
