(* ===== verification/Matching.thy ===== *)
theory Matching
  imports Fingerprint IntervalScheduling
begin

text \<open>
  \<^verbatim>\<open>planner/matching.py\<close>: the in-memory record index, the fail-closed verification of a
  lookup candidate and the planner that turns rolling query segments into a conflict-free plan.
  The two injected collaborators, the fingerprinter and the record lookup, are arguments of the
  definitions; a lookup may raise, which the planner propagates.  The locale \<open>record_index\<close> is
  the contract of an index (what a lookup returns after an insertion), interpreted on
  \<^verbatim>\<open>InMemoryRecordIndex\<close>.
\<close>

section \<open>Plans\<close>

datatype CandidateRejectionReason =
  NAMESPACE_MISMATCH | FINGERPRINT_MISMATCH | TOKEN_MISMATCH | OVERLAPS_SELECTED_MATCH

record RejectedCandidate =
  rj_candidate :: CandidateMatch
  rj_reason :: CandidateRejectionReason

record VerifiedMatch =
  vm_candidate :: CandidateMatch

abbreviation vm_target :: "VerifiedMatch \<Rightarrow> TokenSegment" where
  "vm_target m \<equiv> target_segment (vm_candidate m)"

abbreviation vm_record :: "VerifiedMatch \<Rightarrow> CacheRecord" where
  "vm_record m \<equiv> cm_record (vm_candidate m)"

record MatchPlan =
  matches :: "VerifiedMatch list"
  rejected_candidates :: "RejectedCandidate list"
  requested_tokens :: int

definition matched_tokens :: "MatchPlan \<Rightarrow> int" where
  "matched_tokens p = sum_list (map (\<lambda>m. segment_len (vm_target m)) (matches p))"

definition unmatched_tokens :: "MatchPlan \<Rightarrow> int" where
  "unmatched_tokens p = requested_tokens p - matched_tokens p"

definition build_cache_record ::
    "(CacheNamespace \<Rightarrow> int list \<Rightarrow> SegmentFingerprint) \<Rightarrow> CacheNamespace \<Rightarrow> TokenSegment \<Rightarrow> string \<Rightarrow>
     py_error + CacheRecord" where
  "build_cache_record fp n s k =
     CacheRecord_init n (fp n (token_ids s)) (map PInt (token_ids s)) (token_range s) k"

section \<open>The in-memory index\<close>

type_synonym InMemoryRecordIndex = "CacheNamespace \<times> SegmentFingerprint \<rightharpoonup> CacheRecord list"

definition index_add :: "InMemoryRecordIndex \<Rightarrow> CacheRecord \<Rightarrow> InMemoryRecordIndex" where
  "index_add idx r =
     (let key = (rec_namespace r, rec_fingerprint r);
          bucket = (case idx key of None \<Rightarrow> [] | Some b \<Rightarrow> b)
      in idx(key \<mapsto> bucket @ [r]))"

definition index_init :: "CacheRecord list \<Rightarrow> InMemoryRecordIndex" where
  "index_init rs = foldl index_add Map.empty rs"

definition record_sort_key :: "CacheRecord \<Rightarrow> string \<times> int \<times> int" where
  "record_sort_key r = (cache_key r, tr_start (source_range r), tr_end (source_range r))"

definition index_lookup :: "InMemoryRecordIndex \<Rightarrow> CacheNamespace \<Rightarrow> SegmentFingerprint \<Rightarrow> CacheRecord list" where
  "index_lookup idx n f = sort_key record_sort_key (case idx (n, f) of None \<Rightarrow> [] | Some b \<Rightarrow> b)"

section \<open>Selection\<close>

definition candidate_sort_key :: "CandidateMatch \<Rightarrow> int \<times> int \<times> string \<times> int \<times> int" where
  "candidate_sort_key c =
     (tr_start (token_range (target_segment c)), tr_end (token_range (target_segment c)),
      cache_key (cm_record c), tr_start (source_range (cm_record c)), tr_end (source_range (cm_record c)))"

definition covered_token_count :: "TokenSegment list \<Rightarrow> int" where
  "covered_token_count segments = covered_range_count (map token_range segments)"

definition select_non_overlapping :: "CandidateMatch list \<Rightarrow> nat list" where
  "select_non_overlapping =
     select_intervals (\<lambda>c. token_range (target_segment c)) (\<lambda>c. segment_len (target_segment c)) candidate_sort_key"

section \<open>The planner\<close>

definition verify_candidate ::
    "(CacheNamespace \<Rightarrow> int list \<Rightarrow> SegmentFingerprint) \<Rightarrow> CacheNamespace \<Rightarrow> CandidateMatch \<Rightarrow>
     CandidateRejectionReason option" where
  "verify_candidate fp n c =
     (let r = cm_record c in
      if rec_namespace r \<noteq> n then Some NAMESPACE_MISMATCH
      else if rec_fingerprint r \<noteq> query_fingerprint c then Some FINGERPRINT_MISMATCH
      else if rec_token_ids r \<noteq> token_ids (target_segment c) then Some TOKEN_MISMATCH
      else if fp (rec_namespace r) (rec_token_ids r) \<noteq> rec_fingerprint r then Some FINGERPRINT_MISMATCH
      else None)"

definition query_candidates ::
    "(CacheNamespace \<Rightarrow> int list \<Rightarrow> SegmentFingerprint) \<Rightarrow>
     (CacheNamespace \<Rightarrow> SegmentFingerprint \<Rightarrow> 'e + CacheRecord list) \<Rightarrow> CacheNamespace \<Rightarrow>
     TokenSegment list \<Rightarrow> 'e + CandidateMatch list" where
  "query_candidates fp lookup n queries =
     rbind (rmap (\<lambda>q.
         let f = fp n (token_ids q) in
         rbind (lookup n f) (\<lambda>rs.
           Inr (map (\<lambda>r. \<lparr>target_segment = q, query_fingerprint = f, cm_record = r\<rparr>) rs))) queries)
       (\<lambda>cs. Inr (concat cs))"

definition reject_unverified ::
    "(CacheNamespace \<Rightarrow> int list \<Rightarrow> SegmentFingerprint) \<Rightarrow> CacheNamespace \<Rightarrow> CandidateMatch list \<Rightarrow>
     RejectedCandidate list" where
  "reject_unverified fp n cs =
     List.map_filter (\<lambda>c. case verify_candidate fp n c of
         None \<Rightarrow> None | Some reason \<Rightarrow> Some \<lparr>rj_candidate = c, rj_reason = reason\<rparr>) cs"

definition plan ::
    "(CacheNamespace \<Rightarrow> int list \<Rightarrow> SegmentFingerprint) \<Rightarrow>
     (CacheNamespace \<Rightarrow> SegmentFingerprint \<Rightarrow> 'e + CacheRecord list) \<Rightarrow> CacheNamespace \<Rightarrow>
     TokenSegment list \<Rightarrow> 'e + MatchPlan" where
  "plan fp lookup n queries =
     rbind (query_candidates fp lookup n queries) (\<lambda>candidates.
       let verified = filter (\<lambda>c. verify_candidate fp n c = None) candidates;
           selected_indexes = set (select_non_overlapping verified);
           selected = map (\<lambda>(i, c). \<lparr>vm_candidate = c\<rparr>)
             (filter (\<lambda>(i, c). i \<in> selected_indexes) (List.enumerate 0 verified));
           overlapping = map (\<lambda>(i, c). \<lparr>rj_candidate = c, rj_reason = OVERLAPS_SELECTED_MATCH\<rparr>)
             (filter (\<lambda>(i, c). i \<notin> selected_indexes) (List.enumerate 0 verified))
       in Inr \<lparr>matches = sort_key (\<lambda>m. candidate_sort_key (vm_candidate m)) selected,
               rejected_candidates = reject_unverified fp n candidates @ overlapping,
               requested_tokens = covered_token_count queries\<rparr>)"

section \<open>The index contract\<close>

locale record_index =
  fixes empty :: 'i and add :: "'i \<Rightarrow> CacheRecord \<Rightarrow> 'i"
    and lookup :: "'i \<Rightarrow> CacheNamespace \<Rightarrow> SegmentFingerprint \<Rightarrow> CacheRecord list"
  assumes lookup_empty: "lookup empty n f = []"
    and lookup_add: "mset (lookup (add idx r) n f) =
       mset (lookup idx n f) + (if rec_namespace r = n \<and> rec_fingerprint r = f then {#r#} else {#})"
begin

lemma lookup_adds:
  "mset (lookup (foldl add idx rs) n f) =
     mset (lookup idx n f) + mset (filter (\<lambda>r. rec_namespace r = n \<and> rec_fingerprint r = f) rs)"
  by (induction rs arbitrary: idx) (auto simp: lookup_add)

lemma lookup_all:
  "set (lookup (foldl add empty rs) n f) = {r \<in> set rs. rec_namespace r = n \<and> rec_fingerprint r = f}"
  using arg_cong [OF lookup_adds [of empty rs n f], of set_mset] by (auto simp: lookup_empty)

end

interpretation in_memory: record_index "Map.empty :: InMemoryRecordIndex" index_add index_lookup
  by unfold_locales (auto simp: index_lookup_def index_add_def Let_def split: option.splits)

lemma set_index_lookup:
  "set (index_lookup (index_init rs) n f) = {r \<in> set rs. rec_namespace r = n \<and> rec_fingerprint r = f}"
  unfolding index_init_def by (rule in_memory.lookup_all)

lemma sorted_index_lookup: "sorted (map record_sort_key (index_lookup idx n f))"
  by (simp add: index_lookup_def)

interpretation match_jobs: interval_jobs "\<lambda>c. token_range (target_segment c)"
    "\<lambda>c. segment_len (target_segment c)" candidate_sort_key "\<lambda>c. wf_segment (target_segment c)"
  by unfold_locales (auto simp: wf_segment_nonempty wf_segment_len)

section \<open>Lemmas on the plan\<close>

lemma verify_candidate_None:
  "verify_candidate fp n c = None \<longleftrightarrow>
     rec_namespace (cm_record c) = n \<and> rec_fingerprint (cm_record c) = query_fingerprint c \<and>
     rec_token_ids (cm_record c) = token_ids (target_segment c) \<and>
     fp n (token_ids (target_segment c)) = rec_fingerprint (cm_record c)"
  by (auto simp: verify_candidate_def Let_def)

lemma query_candidates_Inr:
  assumes "query_candidates fp lookup n queries = Inr cs"
  shows "set cs = {\<lparr>target_segment = q, query_fingerprint = fp n (token_ids q), cm_record = r\<rparr>
      | q r rs. q \<in> set queries \<and> lookup n (fp n (token_ids q)) = Inr rs \<and> r \<in> set rs}"
  using assms unfolding query_candidates_def
proof (induction queries arbitrary: cs)
  case Nil
  then show ?case by simp
next
  case (Cons q queries)
  then obtain rs ds where l: "lookup n (fp n (token_ids q)) = Inr rs"
    and cs: "cs = map (\<lambda>r. \<lparr>target_segment = q, query_fingerprint = fp n (token_ids q), cm_record = r\<rparr>) rs @ ds"
    and ds: "query_candidates fp lookup n queries = Inr ds"
    by (auto simp: result_simps Let_def query_candidates_def)
  show ?case using Cons.IH [of ds] ds l unfolding cs query_candidates_def by auto
qed

lemma enumerate_filter_split:
  "mset (map snd (filter (\<lambda>(i, c). i \<in> S) (List.enumerate k xs))) +
   mset (map snd (filter (\<lambda>(i, c). i \<notin> S) (List.enumerate k xs))) = mset xs"
  by (induction xs arbitrary: k) auto

lemma sum_enumerate_filter:
  "sum_list (map (\<lambda>x. f (snd x)) (filter (\<lambda>(i, c). i \<in> S) (List.enumerate 0 xs))) =
     (\<Sum>i\<in>S \<inter> {..<length xs}. f (xs ! i))" for f :: "'a \<Rightarrow> int"
proof -
  have "sum_list (map (\<lambda>x. f (snd x)) (filter (\<lambda>(i, c). i \<in> S) (List.enumerate k xs))) =
      (\<Sum>i\<in>{i. i < length xs \<and> k + i \<in> S}. f (xs ! i))" for k
  proof (induction xs arbitrary: k)
    case (Cons x xs)
    have "{i. i < length (x # xs) \<and> k + i \<in> S} =
        (if k \<in> S then {0} else {}) \<union> Suc ` {i. i < length xs \<and> Suc k + i \<in> S}"
      by (auto simp: image_iff less_Suc_eq_0_disj)
    moreover have "(\<Sum>i\<in>Suc ` {i. i < length xs \<and> Suc k + i \<in> S}. f ((x # xs) ! i)) =
        (\<Sum>i\<in>{i. i < length xs \<and> Suc k + i \<in> S}. f (xs ! i))"
      by (subst sum.reindex) auto
    ultimately show ?case using Cons [of "Suc k"] by (auto simp: sum.insert)
  qed simp
  from this [of 0] show ?thesis by (simp add: Int_def conj_commute)
qed

lemma set_enumerate_filter:
  "(i, c) \<in> set (List.enumerate 0 xs) \<longleftrightarrow> i < length xs \<and> c = xs ! i"
  by (auto simp: in_set_enumerate_eq)

text \<open>The pieces of a successful plan, named.\<close>

lemma plan_Inr:
  assumes "plan fp lookup n queries = Inr p"
  obtains cs vs sel where "query_candidates fp lookup n queries = Inr cs"
    "vs = filter (\<lambda>c. verify_candidate fp n c = None) cs" "sel = set (select_non_overlapping vs)"
    "mset (map vm_candidate (matches p)) = mset (map snd (filter (\<lambda>(i, c). i \<in> sel) (List.enumerate 0 vs)))"
    "sorted (map (\<lambda>m. candidate_sort_key (vm_candidate m)) (matches p))"
    "rejected_candidates p = reject_unverified fp n cs @
       map (\<lambda>(i, c). \<lparr>rj_candidate = c, rj_reason = OVERLAPS_SELECTED_MATCH\<rparr>)
         (filter (\<lambda>(i, c). i \<notin> sel) (List.enumerate 0 vs))"
    "requested_tokens p = covered_token_count queries"
proof -
  obtain cs where cs: "query_candidates fp lookup n queries = Inr cs"
    using assms by (auto simp: plan_def result_simps)
  define vs where "vs = filter (\<lambda>c. verify_candidate fp n c = None) cs"
  define sel where "sel = set (select_non_overlapping vs)"
  have p: "p = \<lparr>matches = sort_key (\<lambda>m. candidate_sort_key (vm_candidate m))
        (map (\<lambda>(i, c). \<lparr>vm_candidate = c\<rparr>) (filter (\<lambda>(i, c). i \<in> sel) (List.enumerate 0 vs))),
      rejected_candidates = reject_unverified fp n cs @
        map (\<lambda>(i, c). \<lparr>rj_candidate = c, rj_reason = OVERLAPS_SELECTED_MATCH\<rparr>)
         (filter (\<lambda>(i, c). i \<notin> sel) (List.enumerate 0 vs)),
      requested_tokens = covered_token_count queries\<rparr>"
    using assms by (simp add: plan_def cs vs_def sel_def Let_def)
  have "mset (map vm_candidate (matches p)) = image_mset vm_candidate (mset (matches p))" by simp
  also have "mset (matches p) =
      mset (map (\<lambda>(i, c). \<lparr>vm_candidate = c\<rparr>) (filter (\<lambda>(i, c). i \<in> sel) (List.enumerate 0 vs)))"
    by (simp add: p)
  also have "image_mset vm_candidate \<dots> = mset (map snd (filter (\<lambda>(i, c). i \<in> sel) (List.enumerate 0 vs)))"
    by (simp add: multiset.map_comp o_def case_prod_beta)
  finally show thesis using that [OF cs vs_def sel_def] by (simp add: p o_def)
qed

lemma plan_match_verified:
  assumes "plan fp lookup n queries = Inr p" "m \<in> set (matches p)"
  shows "vm_target m \<in> set queries \<and> verify_candidate fp n (vm_candidate m) = None \<and>
    query_fingerprint (vm_candidate m) = fp n (token_ids (vm_target m)) \<and>
    (\<exists>rs. lookup n (fp n (token_ids (vm_target m))) = Inr rs \<and> vm_record m \<in> set rs)"
proof -
  from assms(1) obtain cs vs sel where cs: "query_candidates fp lookup n queries = Inr cs"
    and vs: "vs = filter (\<lambda>c. verify_candidate fp n c = None) cs"
    and ms: "mset (map vm_candidate (matches p)) = mset (map snd (filter (\<lambda>(i, c). i \<in> sel) (List.enumerate 0 vs)))"
    by (rule plan_Inr)
  have "vm_candidate m \<in> set (map snd (filter (\<lambda>(i, c). i \<in> sel) (List.enumerate 0 vs)))"
    using assms(2) arg_cong [OF ms, of set_mset] by auto
  then have "vm_candidate m \<in> set vs" by (auto simp: in_set_enumerate_eq) (metis nth_mem)
  then show ?thesis using query_candidates_Inr [OF cs] vs by auto
qed

lemma plan_target_wf:
  assumes "plan fp lookup n queries = Inr p" "\<forall>q\<in>set queries. wf_segment q" "m \<in> set (matches p)"
  shows "wf_segment (vm_target m)"
  using assms plan_match_verified by blast

lemma verified_targets_wf:
  assumes "query_candidates fp lookup n queries = Inr cs" "\<forall>q\<in>set queries. wf_segment q"
  shows "\<forall>c\<in>set (filter P cs). wf_segment (target_segment c)"
  using assms query_candidates_Inr [OF assms(1)] by auto

lemma plan_matches_disjoint:
  assumes "plan fp lookup n queries = Inr p" "\<forall>q\<in>set queries. wf_segment q"
  shows "sorted_wrt (\<lambda>a b. tr_end (token_range (vm_target a)) \<le> tr_start (token_range (vm_target b))) (matches p)"
proof -
  from assms(1) obtain cs vs sel where cs: "query_candidates fp lookup n queries = Inr cs"
    and vs: "vs = filter (\<lambda>c. verify_candidate fp n c = None) cs" and sel: "sel = set (select_non_overlapping vs)"
    and ms: "mset (map vm_candidate (matches p)) = mset (map snd (filter (\<lambda>(i, c). i \<in> sel) (List.enumerate 0 vs)))"
    and sorted: "sorted (map (\<lambda>m. candidate_sort_key (vm_candidate m)) (matches p))"
    by (rule plan_Inr)
  have wf: "\<forall>c\<in>set vs. wf_segment (target_segment c)" unfolding vs by (rule verified_targets_wf [OF cs assms(2)])
  have "sorted (map (\<lambda>m. tr_start (token_range (vm_target m))) (matches p))"
    using sorted_map_fst [OF sorted] by (simp add: candidate_sort_key_def)
  then show ?thesis
    using match_jobs.selected_sequential [OF wf _ ms] sel by (simp add: select_non_overlapping_def)
qed

lemma matched_tokens_selected:
  assumes "mset (map vm_candidate (matches p)) = mset (map snd (filter (\<lambda>(i, c). i \<in> sel) (List.enumerate 0 vs)))"
    "sel \<subseteq> {..<length vs}"
  shows "matched_tokens p = (\<Sum>i\<in>sel. segment_len (target_segment (vs ! i)))"
proof -
  let ?f = "\<lambda>c. segment_len (target_segment c)"
  have "matched_tokens p = sum_list (map ?f (map vm_candidate (matches p)))"
    by (simp add: matched_tokens_def o_def)
  also have "\<dots> = sum_mset (image_mset ?f (mset (map vm_candidate (matches p))))"
    by (metis mset_map sum_mset_sum_list)
  also have "\<dots> = sum_list (map (\<lambda>x. ?f (snd x)) (filter (\<lambda>(i, c). i \<in> sel) (List.enumerate 0 vs)))"
    unfolding assms(1) by (simp add: multiset.map_comp o_def flip: mset_map sum_mset_sum_list)
  also have "\<dots> = (\<Sum>i\<in>sel. ?f (vs ! i))"
    using assms(2) sum_enumerate_filter [of ?f sel vs] by (simp add: Int_absorb2)
  finally show ?thesis .
qed

lemma reject_unverified_candidates:
  "map rj_candidate (reject_unverified fp n cs) = filter (\<lambda>c. verify_candidate fp n c \<noteq> None) cs"
  by (induction cs) (auto simp: reject_unverified_def List.map_filter_def split: option.splits)

lemma unverified_reason:
  assumes "r \<in> set (reject_unverified fp n cs)"
  shows "verify_candidate fp n (rj_candidate r) = Some (rj_reason r) \<and> rj_reason r \<noteq> OVERLAPS_SELECTED_MATCH"
proof -
  have "verify_candidate fp n c \<noteq> Some OVERLAPS_SELECTED_MATCH" for c
    by (simp add: verify_candidate_def Let_def)
  with assms show ?thesis
    by (fastforce simp: reject_unverified_def List.map_filter_def split: option.splits)
qed

lemma overlapping_verified:
  assumes "r \<in> set (map (\<lambda>(i, c). \<lparr>rj_candidate = c, rj_reason = OVERLAPS_SELECTED_MATCH\<rparr>)
         (filter (\<lambda>(i, c). i \<notin> sel) (List.enumerate 0 vs)))"
    "vs = filter (\<lambda>c. verify_candidate fp n c = None) cs"
  shows "verify_candidate fp n (rj_candidate r) = None \<and> rj_reason r = OVERLAPS_SELECTED_MATCH"
proof -
  from assms(1) obtain i c where "(i, c) \<in> set (List.enumerate 0 vs)"
    and r: "r = \<lparr>rj_candidate = c, rj_reason = OVERLAPS_SELECTED_MATCH\<rparr>" by auto
  then have "c \<in> set vs" by (simp add: set_enumerate_filter)
  with r assms(2) show ?thesis by simp
qed

lemma matched_card:
  assumes "sorted_wrt (\<lambda>a b. \<not> overlaps (token_range (vm_target b)) (token_range (vm_target a))) ms"
    "\<forall>m\<in>set ms. wf_segment (vm_target m)"
  shows "sum_list (map (\<lambda>m. segment_len (vm_target m)) ms) =
    int (card (\<Union>m\<in>set ms. range_set (token_range (vm_target m))))"
proof -
  have "map (\<lambda>m. segment_len (vm_target m)) ms = map (\<lambda>m. range_len (token_range (vm_target m))) ms"
    using assms(2) wf_segment_len by auto
  moreover have "\<forall>m\<in>set ms. wf_range (token_range (vm_target m))" using assms(2) by (simp add: wf_segment_def)
  ultimately show ?thesis using disjoint_ranges_card [OF assms(1)] by (simp only:)
qed

lemma plan_best:
  assumes "plan fp lookup n queries = Inr p" "\<forall>q\<in>set queries. wf_segment q"
    "query_candidates fp lookup n queries = Inr cs"
    "vs = filter (\<lambda>c. verify_candidate fp n c = None) cs" "J \<subseteq> {..<length vs}"
    "\<forall>i\<in>J. \<forall>j\<in>J. i \<noteq> j \<longrightarrow>
       \<not> overlaps (token_range (target_segment (vs ! i))) (token_range (target_segment (vs ! j)))"
  shows "(\<Sum>j\<in>J. segment_len (target_segment (vs ! j))) \<le> matched_tokens p"
proof -
  from assms(1) obtain sel where sel: "sel = set (select_non_overlapping vs)"
    and ms: "mset (map vm_candidate (matches p)) = mset (map snd (filter (\<lambda>(i, c). i \<in> sel) (List.enumerate 0 vs)))"
    using assms(3,4) by (auto elim!: plan_Inr)
  have wf: "\<forall>c\<in>set vs. wf_segment (target_segment c)"
    unfolding assms(4) by (rule verified_targets_wf [OF assms(3,2)])
  note best = match_jobs.select_intervals_best [OF wf, folded select_non_overlapping_def]
  have "matched_tokens p = (\<Sum>i\<in>sel. segment_len (target_segment (vs ! i)))"
    using matched_tokens_selected [OF ms] best(2) sel by simp
  then show ?thesis using best(4) [OF assms(5,6)] sel by simp
qed

lemma plan_requested:
  assumes "plan fp lookup n queries = Inr p" "\<forall>q\<in>set queries. wf_segment q"
  shows "requested_tokens p = int (card (\<Union>q\<in>set queries. range_set (token_range q)))"
proof -
  have "requested_tokens p = covered_token_count queries" using assms(1) by (rule plan_Inr)
  then show ?thesis
    using covered_range_count_card [of "map token_range queries"] assms(2)
    by (auto simp: covered_token_count_def wf_segment_def)
qed

lemma plan_matches_no_overlap:
  assumes "plan fp lookup n queries = Inr p" "\<forall>q\<in>set queries. wf_segment q"
  shows "sorted_wrt (\<lambda>a b. \<not> overlaps (token_range (vm_target b)) (token_range (vm_target a))) (matches p)"
  using plan_matches_disjoint [OF assms] by (rule sorted_wrt_mono_rel [rotated]) (auto simp: overlaps_def)

lemma plan_matched:
  assumes "plan fp lookup n queries = Inr p" "\<forall>q\<in>set queries. wf_segment q"
  shows "matched_tokens p = int (card (\<Union>m\<in>set (matches p). range_set (token_range (vm_target m))))"
  unfolding matched_tokens_def
  using matched_card [OF plan_matches_no_overlap [OF assms]] plan_target_wf [OF assms] by blast

lemma plan_matched_le:
  assumes "plan fp lookup n queries = Inr p" "\<forall>q\<in>set queries. wf_segment q"
  shows "matched_tokens p \<le> requested_tokens p"
proof -
  have "(\<Union>m\<in>set (matches p). range_set (token_range (vm_target m))) \<subseteq> (\<Union>q\<in>set queries. range_set (token_range q))"
    using plan_match_verified [OF assms(1)] by blast
  then have "card (\<Union>m\<in>set (matches p). range_set (token_range (vm_target m))) \<le>
      card (\<Union>q\<in>set queries. range_set (token_range q))" by (intro card_mono) auto
  then show ?thesis by (simp add: plan_requested [OF assms] plan_matched [OF assms])
qed

section \<open>A concrete plan\<close>

text \<open>A two-token query at position 2 whose tokens were stored at position 0.\<close>

definition example_query :: TokenSegment where
  "example_query = \<lparr>token_range = \<lparr>tr_start = 2, tr_end = 4\<rparr>, token_ids = [5, 6]\<rparr>"

definition example_record :: CacheRecord where
  "example_record = \<lparr>rec_namespace = example_namespace,
     rec_fingerprint = SHA256_FINGERPRINTER example_namespace [5, 6], rec_token_ids = [5, 6],
     source_range = \<lparr>tr_start = 0, tr_end = 2\<rparr>, cache_key = ''k''\<rparr>"

definition example_candidate :: CandidateMatch where
  "example_candidate = \<lparr>target_segment = example_query,
     query_fingerprint = SHA256_FINGERPRINTER example_namespace [5, 6], cm_record = example_record\<rparr>"

definition example_lookup :: "CacheNamespace \<Rightarrow> SegmentFingerprint \<Rightarrow> py_error + CacheRecord list" where
  "example_lookup n f = Inr [example_record]"

definition example_plan :: MatchPlan where
  "example_plan = \<lparr>matches = [\<lparr>vm_candidate = example_candidate\<rparr>], rejected_candidates = [], requested_tokens = 2\<rparr>"

lemma wf_example_query [simp]: "wf_segment example_query"
  by (simp add: example_query_def wf_simps range_len_def MAX_TOKEN_ID_def)

lemma example_candidates:
  "query_candidates SHA256_FINGERPRINTER example_lookup example_namespace [example_query] = Inr [example_candidate]"
  by (simp add: query_candidates_def example_lookup_def example_candidate_def example_query_def)

lemma example_verified: "verify_candidate SHA256_FINGERPRINTER example_namespace example_candidate = None"
  by (simp add: verify_candidate_None example_candidate_def example_record_def example_query_def)

lemma example_selected: "select_non_overlapping [example_candidate] = [0]"
  by (simp add: select_non_overlapping_def select_intervals_def order_indexes_def selection_solutions_def
      selection_step_def better_solution_def Let_def example_candidate_def example_query_def segment_len_def)

lemma example_requested: "covered_token_count [example_query] = 2"
  by (simp add: covered_token_count_def covered_range_count_def example_query_def)

lemma example_plan_eq:
  "plan SHA256_FINGERPRINTER example_lookup example_namespace [example_query] = Inr example_plan"
  by (simp add: plan_def example_candidates example_verified example_selected example_requested
      reject_unverified_def List.map_filter_def example_plan_def Let_def)

section \<open>Properties\<close>

text \<open>
  C1. Soundness of a plan: every selected match stems from one of the queries and from a record the
  lookup returned for that query's fingerprint; its record has the requested namespace, exactly
  the query's tokens, and a fingerprint that was recomputed from these tokens.  A digest alone is
  never accepted.
\<close>

theorem plan_sound:
  assumes "plan fp lookup n queries = Inr p" "m \<in> set (matches p)"
  shows "vm_target m \<in> set queries \<and>
    rec_namespace (vm_record m) = n \<and> rec_token_ids (vm_record m) = token_ids (vm_target m) \<and>
    rec_fingerprint (vm_record m) = fp n (token_ids (vm_target m)) \<and>
    (\<exists>rs. lookup n (fp n (token_ids (vm_target m))) = Inr rs \<and> vm_record m \<in> set rs)"
  using plan_match_verified [OF assms] unfolding verify_candidate_None by metis

theorem plan_sound_witness:
  "rec_token_ids (vm_record \<lparr>vm_candidate = example_candidate\<rparr>) = [5, 6] \<and>
   vm_target \<lparr>vm_candidate = example_candidate\<rparr> \<in> set [example_query]"
  using plan_sound [OF example_plan_eq, of "\<lparr>vm_candidate = example_candidate\<rparr>"]
  by (simp add: example_plan_def example_candidate_def example_query_def)

text \<open>
  C2. Optimality: the matches are in prompt order and do not overlap, and no conflict-free set of
  verified candidates covers more tokens than the plan does.
\<close>

theorem plan_optimal:
  assumes "plan fp lookup n queries = Inr p" "\<forall>q\<in>set queries. wf_segment q"
    "query_candidates fp lookup n queries = Inr cs"
    "vs = filter (\<lambda>c. verify_candidate fp n c = None) cs" "J \<subseteq> {..<length vs}"
    "\<forall>i\<in>J. \<forall>j\<in>J. i \<noteq> j \<longrightarrow>
       \<not> overlaps (token_range (target_segment (vs ! i))) (token_range (target_segment (vs ! j)))"
  shows "sorted_wrt (\<lambda>a b. tr_end (token_range (vm_target a)) \<le> tr_start (token_range (vm_target b))) (matches p) \<and>
    (\<Sum>j\<in>J. segment_len (target_segment (vs ! j))) \<le> matched_tokens p"
  using plan_best [OF assms] plan_matches_disjoint [OF assms(1,2)] by simp

theorem plan_optimal_witness:
  "(\<Sum>j\<in>{0}. segment_len (target_segment ([example_candidate] ! j))) \<le> matched_tokens example_plan"
proof -
  have v: "[example_candidate] =
      filter (\<lambda>c. verify_candidate SHA256_FINGERPRINTER example_namespace c = None) [example_candidate]"
    by (simp add: example_verified)
  show ?thesis
    using plan_optimal [OF example_plan_eq _ example_candidates v, of "{0}"] by simp
qed

text \<open>
  Complete accounting: every lookup candidate ends up exactly once in the plan, as a match or as
  a rejection; it is rejected for a verification reason if and only if verification gave that
  reason, and for overlap only if it was verified.
\<close>

lemma plan_accounts_for_all:
  assumes "plan fp lookup n queries = Inr p" "query_candidates fp lookup n queries = Inr cs"
  shows "mset cs = mset (map vm_candidate (matches p)) + mset (map rj_candidate (rejected_candidates p)) \<and>
    (\<forall>r\<in>set (rejected_candidates p).
       if rj_reason r = OVERLAPS_SELECTED_MATCH then verify_candidate fp n (rj_candidate r) = None
       else verify_candidate fp n (rj_candidate r) = Some (rj_reason r))"
proof -
  from assms(1) obtain vs sel where vs: "vs = filter (\<lambda>c. verify_candidate fp n c = None) cs"
    and ms: "mset (map vm_candidate (matches p)) = mset (map snd (filter (\<lambda>(i, c). i \<in> sel) (List.enumerate 0 vs)))"
    and rj: "rejected_candidates p = reject_unverified fp n cs @
       map (\<lambda>(i, c). \<lparr>rj_candidate = c, rj_reason = OVERLAPS_SELECTED_MATCH\<rparr>)
         (filter (\<lambda>(i, c). i \<notin> sel) (List.enumerate 0 vs))"
    using assms(2) by (auto elim!: plan_Inr)
  have e3: "mset (map rj_candidate (rejected_candidates p)) =
      mset (filter (\<lambda>c. verify_candidate fp n c \<noteq> None) cs) +
      mset (map snd (filter (\<lambda>(i, c). i \<notin> sel) (List.enumerate 0 vs)))"
    unfolding rj by (simp add: reject_unverified_candidates o_def case_prod_beta)
  have e1: "mset cs = mset vs + mset (filter (\<lambda>c. verify_candidate fp n c \<noteq> None) cs)"
    unfolding vs mset_filter by (metis multiset_partition)
  have "mset cs = mset (map vm_candidate (matches p)) + mset (map rj_candidate (rejected_candidates p))"
    unfolding e3 ms by (subst e1, subst enumerate_filter_split [of sel 0 vs, symmetric]) (simp only: ac_simps)
  moreover have "\<forall>r\<in>set (rejected_candidates p).
       if rj_reason r = OVERLAPS_SELECTED_MATCH then verify_candidate fp n (rj_candidate r) = None
       else verify_candidate fp n (rj_candidate r) = Some (rj_reason r)"
    unfolding rj using unverified_reason [of _ fp n cs] overlapping_verified [of _ sel vs fp n cs, OF _ vs]
    by (auto simp del: set_map)
  ultimately show ?thesis by blast
qed

lemma plan_accounts_for_all_witness:
  "mset [example_candidate] = mset (map vm_candidate (matches example_plan)) +
     mset (map rj_candidate (rejected_candidates example_plan))"
  using plan_accounts_for_all [OF example_plan_eq example_candidates] by blast

text \<open>
  Token accounting: a plan requests as many tokens as there are distinct prompt positions in the
  queries, matches at most that many, and its matched tokens are distinct positions too, so no
  position is counted twice however the rolling windows overlap.
\<close>

lemma plan_token_accounting:
  assumes "plan fp lookup n queries = Inr p" "\<forall>q\<in>set queries. wf_segment q"
  shows "requested_tokens p = int (card (\<Union>q\<in>set queries. range_set (token_range q))) \<and>
    matched_tokens p = int (card (\<Union>m\<in>set (matches p). range_set (token_range (vm_target m)))) \<and>
    0 \<le> matched_tokens p \<and> matched_tokens p \<le> requested_tokens p"
  using plan_requested [OF assms] plan_matched [OF assms] plan_matched_le [OF assms] by simp

lemma plan_token_accounting_witness:
  "requested_tokens example_plan = 2 \<and> matched_tokens example_plan \<le> requested_tokens example_plan"
  using plan_token_accounting [OF example_plan_eq] by (simp add: example_plan_def)

text \<open>
  C3. Store and find: when a segment's tokens were stored (at any position, under any key) as a
  record built by the same fingerprinter, planning a query with the same tokens over the
  in-memory index matches the whole query, at whatever position it now stands.
\<close>

theorem stored_segment_is_matched:
  assumes "build_cache_record fp n s k = Inr r" "r \<in> set rs" "wf_segment q" "token_ids q = token_ids s"
  shows "\<exists>p. plan fp (\<lambda>n f. Inr (index_lookup (index_init rs) n f) :: py_error + CacheRecord list) n [q] = Inr p \<and>
    matched_tokens p = segment_len q \<and> unmatched_tokens p = 0"
proof -
  let ?l' = "\<lambda>n f. Inr (index_lookup (index_init rs) n f) :: py_error + CacheRecord list"
  let ?c = "\<lparr>target_segment = q, query_fingerprint = fp n (token_ids q), cm_record = r\<rparr>"
  have r: "rec_namespace r = n" "rec_fingerprint r = fp n (token_ids q)" "rec_token_ids r = token_ids q"
    using assms(1,4) by (auto simp: build_cache_record_def CacheRecord_init_Inr inj_map_eq_map inj_def)
  obtain p cs where p: "plan fp ?l' n [q] = Inr p" and cs: "query_candidates fp ?l' n [q] = Inr cs"
    by (simp add: plan_def query_candidates_def Let_def)
  define vs where "vs = filter (\<lambda>c. verify_candidate fp n c = None) cs"
  have "?c \<in> set cs" unfolding query_candidates_Inr [OF cs] using assms(2) r by (auto simp: set_index_lookup)
  moreover have "verify_candidate fp n ?c = None" using r by (simp add: verify_candidate_None)
  ultimately obtain i where i: "i < length vs" "vs ! i = ?c"
    unfolding vs_def by (metis (mono_tags, lifting) filter_set in_set_conv_nth Set.filter_eq mem_Collect_eq)
  have "segment_len q \<le> matched_tokens p"
    using plan_best [OF p _ cs vs_def, of "{i}"] i assms(3) by simp
  moreover have "requested_tokens p = segment_len q" "matched_tokens p \<le> requested_tokens p"
    using plan_requested [OF p] plan_matched_le [OF p] assms(3) wf_segment_len [of q]
    by (auto simp: wf_segment_def)
  ultimately show ?thesis using p by (auto simp: unmatched_tokens_def)
qed

theorem stored_segment_is_matched_witness:
  "\<exists>p. plan SHA256_FINGERPRINTER
      (\<lambda>n f. Inr (index_lookup (index_init [example_record]) n f) :: py_error + CacheRecord list)
      example_namespace [example_query] = Inr p \<and>
    matched_tokens p = segment_len example_query \<and> unmatched_tokens p = 0"
proof -
  let ?s = "\<lparr>token_range = \<lparr>tr_start = 0, tr_end = 2\<rparr>, token_ids = [5, 6]\<rparr>"
  have "build_cache_record SHA256_FINGERPRINTER example_namespace ?s ''k'' = Inr example_record"
    by (simp add: build_cache_record_def CacheRecord_init_Inr example_record_def wf_record_def wf_tokens_def
        MAX_TOKEN_ID_def range_len_def)
  then show ?thesis by (rule stored_segment_is_matched) (simp_all add: example_query_def [symmetric], simp add: example_query_def)
qed

end
