(* ===== verification/Segmentation.thy ===== *)
theory Segmentation
  imports PlannerModels
begin

text \<open>
  The three segmentation strategies of \<^verbatim>\<open>planner/segmentation.py\<close>.  The delimiter scan
  is a \<^verbatim>\<open>while\<close> loop whose progress depends on every delimiter being non-empty, so it is
  a \<^theory_text>\<open>partial_function\<close> (\<open>None\<close> is a scan that never returns); that it returns, and
  what it returns, is proved for every segmenter its constructor accepts.  The fixed-size and
  the rolling strategies are bounded loops over \<^verbatim>\<open>range(0, n, step)\<close>.
\<close>

section \<open>Delimiter segmentation\<close>

record DelimiterSegmenter =
  delimiters :: "int list list"

definition DelimiterSegmenter_init :: "pyval list list \<Rightarrow> py_error + DelimiterSegmenter" where
  "DelimiterSegmenter_init ds =
     rbind (rmap normalize_token_ids ds) (\<lambda>normalized.
       if normalized = [] then Inl ValueError
       else if \<exists>d\<in>set normalized. d = [] then Inl ValueError
       else Inr \<lparr>delimiters = sort_key (\<lambda>d. (- int (length d), d)) (remdups normalized)\<rparr>)"

abbreviation slice :: "nat \<Rightarrow> nat \<Rightarrow> 'a list \<Rightarrow> 'a list" where
  "slice a b xs \<equiv> take (b - a) (drop a xs)"

definition occurs_at :: "int list \<Rightarrow> int list \<Rightarrow> nat \<Rightarrow> bool" where
  "occurs_at tokens d p \<longleftrightarrow> take (length d) (drop p tokens) = d"

partial_function (option) delimiter_loop ::
  "int list list \<Rightarrow> int list \<Rightarrow> int \<Rightarrow> TokenSegment list \<Rightarrow> nat \<Rightarrow> nat \<Rightarrow> (py_error + TokenSegment list) option"
where
  "delimiter_loop ds tokens offset segments region_start cursor =
     (if cursor < length tokens then
        (case find (\<lambda>d. occurs_at tokens d cursor) ds of
           None \<Rightarrow> delimiter_loop ds tokens offset segments region_start (cursor + 1)
         | Some d \<Rightarrow>
             (if cursor > region_start then
                (case TokenSegment_at (PInt (offset + int region_start))
                        (map PInt (slice region_start cursor tokens)) of
                   Inl e \<Rightarrow> Some (Inl e)
                 | Inr s \<Rightarrow> delimiter_loop ds tokens offset (segments @ [s])
                     (cursor + length d) (cursor + length d))
              else delimiter_loop ds tokens offset segments (cursor + length d) (cursor + length d)))
      else
        Some (if region_start < length tokens then
                rbind (TokenSegment_at (PInt (offset + int region_start))
                         (map PInt (drop region_start tokens)))
                  (\<lambda>s. Inr (segments @ [s]))
              else Inr segments))"

definition delimiter_segment ::
    "DelimiterSegmenter \<Rightarrow> pyval list \<Rightarrow> pyval \<Rightarrow> (py_error + TokenSegment list) option" where
  "delimiter_segment self ts off =
     (case normalize_token_ids ts of
        Inl e \<Rightarrow> Some (Inl e)
      | Inr tokens \<Rightarrow>
          (case off of
             PInt offset \<Rightarrow>
               if offset < 0 then Some (Inl ValueError)
               else delimiter_loop (delimiters self) tokens offset [] 0 0
           | _ \<Rightarrow> Some (Inl TypeError)))"

section \<open>Fixed-size storage chunks\<close>

definition py_range_step :: "nat \<Rightarrow> nat \<Rightarrow> nat list" where
  "py_range_step n step = map (\<lambda>k. k * step) [0..<(n + step - 1) div step]"

record FixedChunkStorageSegmenter =
  chunk_size :: nat
  include_partial :: bool
  minimum_partial_size :: nat

definition FixedChunkStorageSegmenter_init ::
    "pyval \<Rightarrow> bool \<Rightarrow> pyval \<Rightarrow> py_error + FixedChunkStorageSegmenter" where
  "FixedChunkStorageSegmenter_init c p m =
     (case c of
        PInt cs \<Rightarrow>
          if cs < 1 then Inl ValueError
          else (case m of
             PInt ms \<Rightarrow>
               if ms < 1 then Inl ValueError
               else if ms > cs then Inl ValueError
               else Inr \<lparr>chunk_size = nat cs, include_partial = p, minimum_partial_size = nat ms\<rparr>
           | _ \<Rightarrow> Inl TypeError)
      | _ \<Rightarrow> Inl TypeError)"

definition fixed_chunk_skipped :: "FixedChunkStorageSegmenter \<Rightarrow> int list \<Rightarrow> bool" where
  "fixed_chunk_skipped self token_slice \<longleftrightarrow>
     length token_slice < chunk_size self \<and>
     (\<not> include_partial self \<or> length token_slice < minimum_partial_size self)"

definition fixed_region_chunks ::
    "FixedChunkStorageSegmenter \<Rightarrow> TokenSegment \<Rightarrow> py_error + TokenSegment list" where
  "fixed_region_chunks self region =
     rmap (\<lambda>relative_start.
         TokenSegment_at (PInt (tr_start (token_range region) + int relative_start))
           (map PInt (take (chunk_size self) (drop relative_start (token_ids region)))))
       (filter (\<lambda>relative_start. \<not> fixed_chunk_skipped self
           (take (chunk_size self) (drop relative_start (token_ids region))))
         (py_range_step (length (token_ids region)) (chunk_size self)))"

definition fixed_segment ::
    "FixedChunkStorageSegmenter \<Rightarrow> TokenSegment list \<Rightarrow> py_error + TokenSegment list" where
  "fixed_segment self regions = rbind (rmap (fixed_region_chunks self) regions) (\<lambda>cs. Inr (concat cs))"

section \<open>Rolling query windows\<close>

record RollingQuerySegmenter =
  window_sizes :: "nat list"
  stride :: nat

definition positive_int :: "pyval \<Rightarrow> py_error + nat" where
  "positive_int v =
     (case v of PInt n \<Rightarrow> if n < 1 then Inl ValueError else Inr (nat n) | _ \<Rightarrow> Inl TypeError)"

definition RollingQuerySegmenter_init :: "pyval list \<Rightarrow> pyval \<Rightarrow> py_error + RollingQuerySegmenter" where
  "RollingQuerySegmenter_init sizes st =
     (if sizes = [] then Inl ValueError
      else rbind (rmap positive_int sizes) (\<lambda>ws.
        rbind (positive_int st) (\<lambda>n.
          Inr \<lparr>window_sizes = rev (sort (remdups ws)), stride = n\<rparr>)))"

definition rolling_window :: "TokenSegment \<Rightarrow> nat \<Rightarrow> nat \<Rightarrow> py_error + TokenSegment" where
  "rolling_window region relative_start window_size =
     rbind (TokenRange_init (PInt (tr_start (token_range region) + int relative_start))
              (PInt (tr_start (token_range region) + int (relative_start + window_size)))) (\<lambda>r.
       TokenSegment_init r
         (map PInt (slice relative_start (relative_start + window_size) (token_ids region))))"

definition rolling_region_windows ::
    "RollingQuerySegmenter \<Rightarrow> TokenSegment \<Rightarrow> py_error + TokenSegment list" where
  "rolling_region_windows self region =
     rmap (\<lambda>(relative_start, window_size). rolling_window region relative_start window_size)
       (filter (\<lambda>(relative_start, window_size). \<not> relative_start + window_size > length (token_ids region))
         (List.product (py_range_step (length (token_ids region)) (stride self)) (window_sizes self)))"

definition rolling_segment ::
    "RollingQuerySegmenter \<Rightarrow> TokenSegment list \<Rightarrow> py_error + TokenSegment list" where
  "rolling_segment self regions = rbind (rmap (rolling_region_windows self) regions) (\<lambda>cs. Inr (concat cs))"

section \<open>Lemmas on the loop bounds\<close>

lemma set_py_range_step:
  assumes "0 < step"
  shows "set (py_range_step n step) = {k * step | k. k * step < n}"
proof -
  have "k < (n + step - 1) div step \<longleftrightarrow> k * step < n" for k
  proof -
    have "k < (n + step - 1) div step \<longleftrightarrow> Suc k * step \<le> n + step - 1"
      using assms by (metis Suc_le_eq less_eq_div_iff_mult_less_eq)
    also have "\<dots> \<longleftrightarrow> k * step < n" using assms by auto
    finally show ?thesis .
  qed
  then show ?thesis by (auto simp: py_range_step_def)
qed

lemma wf_tokens_slice [simp]: "wf_tokens ts \<Longrightarrow> wf_tokens (take n (drop m ts))"
  by (auto simp: wf_tokens_def dest: in_set_takeD in_set_dropD)

lemma wf_tokens_drop [simp]: "wf_tokens ts \<Longrightarrow> wf_tokens (drop m ts)"
  by (auto simp: wf_tokens_def dest: in_set_dropD)

section \<open>The delimiter scan\<close>

text \<open>
  The reference: an input is a list of regions, each ended by a delimiter, and a last region.  It is the
  leftmost-longest split when no delimiter occurs in the input at a position of a region, and no longer
  delimiter occurs where one was taken.
\<close>

fun rejoin :: "(int list \<times> int list) list \<Rightarrow> int list \<Rightarrow> int list" where
  "rejoin [] rest = rest"
| "rejoin ((region, d) # cuts) rest = region @ d @ rejoin cuts rest"

fun leftmost_longest :: "int list set \<Rightarrow> (int list \<times> int list) list \<Rightarrow> int list \<Rightarrow> bool" where
  "leftmost_longest D [] rest \<longleftrightarrow> (\<forall>p<length rest. \<forall>e\<in>D. \<not> occurs_at rest e p)"
| "leftmost_longest D ((region, d) # cuts) rest \<longleftrightarrow>
     d \<in> D \<and> (\<forall>p<length region. \<forall>e\<in>D. \<not> occurs_at (rejoin ((region, d) # cuts) rest) e p) \<and>
     (\<forall>e\<in>D. occurs_at (rejoin ((region, d) # cuts) rest) e (length region) \<longrightarrow> length e \<le> length d) \<and>
     leftmost_longest D cuts rest"

text \<open>The non-empty regions, at their absolute positions.\<close>

definition region_at :: "int \<Rightarrow> int list \<Rightarrow> TokenSegment list" where
  "region_at start region =
     (if region = [] then []
      else [\<lparr>token_range = \<lparr>tr_start = start, tr_end = start + int (length region)\<rparr>, token_ids = region\<rparr>])"

fun regions_from :: "int \<Rightarrow> (int list \<times> int list) list \<Rightarrow> int list \<Rightarrow> TokenSegment list" where
  "regions_from start [] rest = region_at start rest"
| "regions_from start ((region, d) # cuts) rest =
     region_at start region @ regions_from (start + int (length region + length d)) cuts rest"

lemma occurs_at_bound: "occurs_at tokens d p \<Longrightarrow> d \<noteq> [] \<Longrightarrow> p + length d \<le> length tokens"
  unfolding occurs_at_def by (metis drop_all length_drop length_take min.absorb_iff2 le_cases
      le_diff_conv2 length_0_conv add.commute min_def take_eq_Nil2)

lemma occurs_at_drop: "occurs_at (drop a tokens) d p \<longleftrightarrow> occurs_at tokens d (a + p)"
  by (simp add: occurs_at_def add.commute)

lemma occurs_at_prefix: "occurs_at (region @ ts) d (length region) \<longleftrightarrow> take (length d) ts = d"
  by (simp add: occurs_at_def)

text \<open>There is one leftmost-longest split.\<close>

lemma leftmost_longest_unique:
  assumes "leftmost_longest D cuts rest" "leftmost_longest D cuts' rest'" "rejoin cuts rest = rejoin cuts' rest'" "[] \<notin> D"
  shows "cuts = cuts' \<and> rest = rest'"
  using assms
proof (induction cuts arbitrary: cuts')
  case Nil
  show ?case
  proof (cases cuts')
    case (Cons c cs)
    obtain r d where c: "c = (r, d)" by (cases c)
    have "occurs_at rest d (length r)" "length r < length rest" "d \<in> D"
      using Nil.prems Cons c by (auto simp: occurs_at_def)
    then show ?thesis using Nil.prems(1) by auto
  qed (use Nil in simp)
next
  case (Cons c cs)
  obtain r d where c: "c = (r, d)" by (cases c)
  let ?ts = "rejoin (c # cs) rest"
  have d: "d \<in> D" "d \<noteq> []" "occurs_at ?ts d (length r)" "length r < length ?ts" using Cons.prems(1,4) c by (auto simp: occurs_at_def)
  show ?case
  proof (cases cuts')
    case Nil
    then show ?thesis using Cons.prems(2,3) d by auto
  next
    case (Cons c' cs')
    obtain r' d' where c': "c' = (r', d')" by (cases c')
    have ts: "?ts = rejoin (c' # cs') rest'" using Cons.prems(3) Cons by simp
    have d': "d' \<in> D" "occurs_at ?ts d' (length r')" using Cons.prems(2) Cons c' ts by (auto simp: occurs_at_def)
    have "\<not> length r < length r'" "\<not> length r' < length r"
      using Cons.prems(1,2) Cons c c' d d' ts by auto
    then have len: "length r = length r'" by simp
    then have "length d = length d'" using Cons.prems(1,2) Cons c c' d(1,3) d' ts by (simp add: le_antisym)
    then have "r = r'" "d = d'" "rejoin cs rest = rejoin cs' rest'" using ts c c' len by simp_all
    then show ?thesis using Cons.IH [of cs'] Cons.prems(1,2,4) Cons c c' by simp
  qed
qed

lemma TokenSegment_at_slice:
  assumes "wf_tokens tokens" "0 \<le> offset" "rs < cur" "cur \<le> length tokens"
  shows "TokenSegment_at (PInt (offset + int rs)) (map PInt (slice rs cur tokens)) =
    Inr \<lparr>token_range = \<lparr>tr_start = offset + int rs, tr_end = offset + int cur\<rparr>, token_ids = slice rs cur tokens\<rparr>"
  using assms by simp

lemma region_at_slice:
  "rs \<le> cur \<Longrightarrow> cur \<le> length tokens \<Longrightarrow> region_at (offset + int rs) (slice rs cur tokens) =
     (if rs < cur then [\<lparr>token_range = \<lparr>tr_start = offset + int rs, tr_end = offset + int cur\<rparr>, token_ids = slice rs cur tokens\<rparr>] else [])"
  by (auto simp: region_at_def)

text \<open>In a list ordered by falling length the first delimiter found is a longest one.\<close>

lemma find_longest:
  assumes "find P ds = Some d" "sorted_wrt (\<lambda>a b. length b \<le> length a) ds" "e \<in> set ds" "P e"
  shows "length e \<le> length d"
  using assms by (induction ds) (auto split: if_splits)

lemma delimiter_loop_splits:
  assumes "wf_tokens tokens" "0 \<le> offset" "\<forall>d\<in>set ds. d \<noteq> []" "sorted_wrt (\<lambda>a b. length b \<le> length a) ds"
    "rs \<le> cur" "cur \<le> length tokens" "\<forall>p. rs \<le> p \<and> p < cur \<longrightarrow> (\<forall>d\<in>set ds. \<not> occurs_at tokens d p)"
  shows "\<exists>cuts rest. rejoin cuts rest = drop rs tokens \<and> leftmost_longest (set ds) cuts rest \<and>
    delimiter_loop ds tokens offset segs rs cur = Some (Inr (segs @ regions_from (offset + int rs) cuts rest))"
  using assms(5-)
proof (induction "length tokens - cur" arbitrary: segs rs cur rule: less_induct)
  case less
  note bnd = less.prems(1,2) and clear = less.prems(3)
  let ?region = "slice rs cur tokens"
  have at: "(if rs < cur then (case TokenSegment_at (PInt (offset + int rs)) (map PInt ?region) of Inl e \<Rightarrow> Some (Inl e) | Inr s \<Rightarrow> k (segs @ [s]))
      else k segs) = k (segs @ region_at (offset + int rs) ?region)" for k :: "TokenSegment list \<Rightarrow> (py_error + TokenSegment list) option"
    using TokenSegment_at_slice [OF assms(1,2)] bnd region_at_slice [OF bnd] by simp
  show ?case
  proof (cases "cur < length tokens")
    case False
    then have cur: "cur = length tokens" "drop rs tokens = ?region" using bnd by simp_all
    have "leftmost_longest (set ds) [] (drop rs tokens)"
      using clear cur(1) by (auto simp: occurs_at_drop)
    moreover have "delimiter_loop ds tokens offset segs rs cur = Some (Inr (segs @ region_at (offset + int rs) (drop rs tokens)))"
      using TokenSegment_at_slice [OF assms(1,2), of rs cur] bnd cur region_at_slice [OF bnd]
      by (subst delimiter_loop.simps) auto
    ultimately show ?thesis by (intro exI [of _ "[]"] exI [of _ "drop rs tokens"]) simp
  next
    case True
    show ?thesis
    proof (cases "find (\<lambda>d. occurs_at tokens d cur) ds")
      case None
      then have "\<forall>p. rs \<le> p \<and> p < cur + 1 \<longrightarrow> (\<forall>d\<in>set ds. \<not> occurs_at tokens d p)"
        using clear by (auto simp: find_None_iff less_Suc_eq)
      from less.hyps [OF _ _ _ this, of segs] True None bnd show ?thesis by (subst delimiter_loop.simps) simp
    next
      case (Some d)
      then have d: "d \<in> set ds" "occurs_at tokens d cur" "d \<noteq> []" using assms(3) by (auto simp: find_Some_iff)
      let ?next = "cur + length d"
      have len: "?next \<le> length tokens" by (rule occurs_at_bound [OF d(2,3)])
      have step: "delimiter_loop ds tokens offset segs rs cur =
          delimiter_loop ds tokens offset (segs @ region_at (offset + int rs) ?region) ?next ?next"
        using at [of "\<lambda>s. delimiter_loop ds tokens offset s ?next ?next"] True Some by (subst delimiter_loop.simps) simp
      have "length tokens - ?next < length tokens - cur" using d(3) True by (cases d) auto
      then have "\<exists>cuts rest. rejoin cuts rest = drop ?next tokens \<and> leftmost_longest (set ds) cuts rest \<and>
          delimiter_loop ds tokens offset (segs @ region_at (offset + int rs) ?region) ?next ?next =
            Some (Inr ((segs @ region_at (offset + int rs) ?region) @ regions_from (offset + int ?next) cuts rest))"
        by (rule less.hyps) (use len in auto)
      then obtain cuts rest where c: "rejoin cuts rest = drop ?next tokens" "leftmost_longest (set ds) cuts rest"
        "delimiter_loop ds tokens offset (segs @ region_at (offset + int rs) ?region) ?next ?next =
          Some (Inr ((segs @ region_at (offset + int rs) ?region) @ regions_from (offset + int ?next) cuts rest))"
        by blast
      have split: "rejoin ((?region, d) # cuts) rest = drop rs tokens"
      proof -
        have "d @ drop ?next tokens = drop cur tokens"
          using d(2) append_take_drop_id [of "length d" "drop cur tokens"] by (simp add: occurs_at_def add.commute)
        moreover have "?region @ drop cur tokens = drop rs tokens"
          using append_take_drop_id [of "cur - rs" "drop rs tokens"] bnd by simp
        ultimately show ?thesis using c(1) by simp
      qed
      have rl: "length ?region = cur - rs" using bnd by simp
      have "leftmost_longest (set ds) ((?region, d) # cuts) rest"
        unfolding leftmost_longest.simps split occurs_at_drop rl
        using d(1) c(2) clear find_longest [OF Some assms(4)] bnd by auto
      moreover have "segs @ regions_from (offset + int rs) ((?region, d) # cuts) rest =
          (segs @ region_at (offset + int rs) ?region) @ regions_from (offset + int ?next) cuts rest"
        using rl bnd by (simp add: add.assoc of_nat_diff)
      ultimately show ?thesis using split step c(3) by (intro exI [of _ "(?region, d) # cuts"] exI [of _ rest]) simp
    qed
  qed
qed

text \<open>What the constructor keeps: the normalised delimiters, none empty, longest first.\<close>

lemma DelimiterSegmenter_init_Inr:
  assumes "DelimiterSegmenter_init raw = Inr self"
  shows "\<exists>ds. rmap normalize_token_ids raw = Inr ds \<and> set (delimiters self) = set ds"
    "\<forall>d\<in>set (delimiters self). d \<noteq> []" "sorted_wrt (\<lambda>a b. length b \<le> length a) (delimiters self)"
proof -
  obtain ds where ds: "rmap normalize_token_ids raw = Inr ds" "[] \<notin> set ds"
    "delimiters self = sort_key (\<lambda>d. (- int (length d), d)) (remdups ds)"
    using assms by (auto simp: DelimiterSegmenter_init_def result_simps split: if_splits)
  show "\<exists>ds. rmap normalize_token_ids raw = Inr ds \<and> set (delimiters self) = set ds" using ds by auto
  show "\<forall>d\<in>set (delimiters self). d \<noteq> []" using ds by auto
  have "sorted (map (\<lambda>d. (- int (length d), d)) (delimiters self))" by (simp add: ds(3))
  then show "sorted_wrt (\<lambda>a b. length b \<le> length a) (delimiters self)"
    unfolding sorted_map by (rule sorted_wrt_mono_rel [rotated]) (auto simp: less_eq_prod_def)
qed

section \<open>Chunks and windows\<close>

lemma fixed_at [simp]:
  assumes "wf_segment region" "relative_start < length (token_ids region)" "0 < chunk_size self"
  shows "TokenSegment_at (PInt (tr_start (token_range region) + int relative_start))
      (map PInt (take (chunk_size self) (drop relative_start (token_ids region)))) =
    Inr \<lparr>token_range = \<lparr>tr_start = tr_start (token_range region) + int relative_start,
           tr_end = tr_start (token_range region) + int relative_start +
             int (length (take (chunk_size self) (drop relative_start (token_ids region))))\<rparr>,
         token_ids = take (chunk_size self) (drop relative_start (token_ids region))\<rparr>"
  using assms by (subst TokenSegment_at_PInt) (auto simp: wf_segment_def wf_range_def)

definition chunk_of :: "FixedChunkStorageSegmenter \<Rightarrow> TokenSegment \<Rightarrow> nat \<Rightarrow> TokenSegment" where
  "chunk_of self region a =
    \<lparr>token_range = \<lparr>tr_start = tr_start (token_range region) + int a,
       tr_end = tr_start (token_range region) + int (min (length (token_ids region)) (a + chunk_size self))\<rparr>,
     token_ids = take (chunk_size self) (drop a (token_ids region))\<rparr>"

lemma fixed_region_chunks_eq:
  assumes "wf_segment region" "0 < chunk_size self"
  shows "fixed_region_chunks self region = Inr (map (chunk_of self region)
     (filter (\<lambda>a. \<not> fixed_chunk_skipped self (take (chunk_size self) (drop a (token_ids region))))
       (py_range_step (length (token_ids region)) (chunk_size self))))"
  unfolding fixed_region_chunks_def
proof (rule rmap_total, intro ballI)
  fix a assume "a \<in> set (filter (\<lambda>a. \<not> fixed_chunk_skipped self
      (take (chunk_size self) (drop a (token_ids region))))
      (py_range_step (length (token_ids region)) (chunk_size self)))"
  then have "a < length (token_ids region)" using set_py_range_step [OF assms(2)] by auto
  then show "TokenSegment_at (PInt (tr_start (token_range region) + int a))
      (map PInt (take (chunk_size self) (drop a (token_ids region)))) = Inr (chunk_of self region a)"
    using assms by (auto simp: chunk_of_def min_def)
qed

lemma concat_chunks:
  "0 < c \<Longrightarrow> concat (map (\<lambda>k. take c (drop (k * c) ts)) [0..<m]) = take (m * c) ts"
proof (induction m)
  case (Suc m)
  then show ?case by (simp add: take_add [of "m * c" c ts, symmetric] add.commute)
qed simp

lemma last_chunk_length:
  assumes "0 < c"
  shows "length (take c (drop (k * c) ts)) < c \<longleftrightarrow> length ts < k * c + c"
  using assms by auto

lemma rolling_window_eq:
  assumes "wf_segment region" "a + w \<le> length (token_ids region)" "0 < w"
  shows "rolling_window region a w = Inr
    \<lparr>token_range = \<lparr>tr_start = tr_start (token_range region) + int a,
        tr_end = tr_start (token_range region) + int (a + w)\<rparr>,
     token_ids = slice a (a + w) (token_ids region)\<rparr>"
  using assms by (auto simp: rolling_window_def TokenSegment_init_def wf_segment_def wf_range_def range_len_def)

lemma div_round_up:
  assumes "0 < (c::nat)"
  shows "(n + c - Suc 0) div c = (if n mod c = 0 then n div c else Suc (n div c))"
proof -
  obtain q t where n: "n = c * q + t" "t < c" by (metis assms mod_less_divisor mult_div_mod_eq)
  then show ?thesis by (auto intro!: div_nat_eqI)
qed

text \<open>How many leading tokens of a region of \<open>n\<close> tokens the storage chunks keep.\<close>

definition kept_tokens :: "FixedChunkStorageSegmenter \<Rightarrow> nat \<Rightarrow> nat" where
  "kept_tokens self n =
     (let r = n mod chunk_size self in
      if r = 0 \<or> (include_partial self \<and> minimum_partial_size self \<le> r) then n else n - r)"

lemma kept_tokens_round:
  fixes n :: nat
  assumes "0 < chunk_size self"
  defines "m \<equiv> (kept_tokens self n + chunk_size self - 1) div chunk_size self * chunk_size self"
  shows "kept_tokens self n \<le> m" "kept_tokens self n < n \<Longrightarrow> m = kept_tokens self n"
proof -
  let ?c = "chunk_size self" and ?k = "kept_tokens self n"
  have m: "m = (if ?k mod ?c = 0 then ?k else ?k div ?c * ?c + ?c)"
    using div_round_up [OF assms(1), of ?k] by (auto simp: m_def)
  moreover have "?k \<le> ?k div ?c * ?c + ?c"
    using div_mult_mod_eq [of ?k ?c] mod_less_divisor [OF assms(1), of ?k] by linarith
  ultimately show "?k \<le> m" by simp
  assume "?k < n"
  then have "?k = n - n mod ?c" by (auto simp: kept_tokens_def Let_def split: if_splits)
  then have "?k mod ?c = 0" by (simp add: minus_mod_eq_div_mult)
  then show "m = ?k" using m by simp
qed

lemma kept_chunk_starts:
  assumes "0 < chunk_size self"
  shows "filter (\<lambda>a. \<not> fixed_chunk_skipped self (take (chunk_size self) (drop a ts)))
      (py_range_step (length ts) (chunk_size self)) =
    map (\<lambda>k. k * chunk_size self) [0..<(kept_tokens self (length ts) + chunk_size self - 1) div chunk_size self]"
proof -
  let ?c = "chunk_size self" and ?n = "length ts"
  let ?keep = "\<lambda>a. \<not> fixed_chunk_skipped self (take ?c (drop a ts))"
  have full: "?keep (k * ?c)" if "k < ?n div ?c" for k
  proof -
    have "Suc k * ?c \<le> ?n" using that assms by (metis Suc_leI less_eq_div_iff_mult_less_eq)
    then show ?thesis by (simp add: fixed_chunk_skipped_def)
  qed
  have part: "?keep (?n div ?c * ?c) \<longleftrightarrow> include_partial self \<and> minimum_partial_size self \<le> ?n mod ?c"
    if "?n mod ?c \<noteq> 0"
  proof -
    have "?n - ?n div ?c * ?c = ?n mod ?c" by (simp add: minus_div_mult_eq_mod)
    then show ?thesis using mod_less_divisor [OF assms, of ?n] by (auto simp: fixed_chunk_skipped_def)
  qed
  have r: "py_range_step ?n ?c = map (\<lambda>k. k * ?c) [0..<?n div ?c] @
      (if ?n mod ?c = 0 then [] else [?n div ?c * ?c])"
    by (simp add: py_range_step_def div_round_up [OF assms])
  have f: "filter ?keep (map (\<lambda>k. k * ?c) [0..<?n div ?c]) = map (\<lambda>k. k * ?c) [0..<?n div ?c]"
    using full by (intro filter_True) auto
  have "?n - ?n mod ?c = ?n div ?c * ?c" by (simp add: minus_mod_eq_div_mult)
  then have k: "(kept_tokens self ?n + ?c - Suc 0) div ?c =
      (if ?n mod ?c = 0 \<or> \<not> (include_partial self \<and> minimum_partial_size self \<le> ?n mod ?c)
       then ?n div ?c else Suc (?n div ?c))"
    using assms by (auto simp: kept_tokens_def Let_def div_round_up [OF assms])
  show ?thesis using part by (auto simp: r f k)
qed

lemma FixedChunkStorageSegmenter_init_pos:
  "FixedChunkStorageSegmenter_init c p m = Inr self \<Longrightarrow> 0 < chunk_size self"
  by (auto simp: FixedChunkStorageSegmenter_init_def split: pyval.splits if_splits)

lemma RollingQuerySegmenter_init_pos:
  "RollingQuerySegmenter_init ws st = Inr self \<Longrightarrow> 0 < stride self \<and> (\<forall>w\<in>set (window_sizes self). 0 < w)"
proof -
  have pos: "positive_int v = Inr n \<Longrightarrow> 0 < n" for v n
    by (auto simp: positive_int_def split: pyval.splits if_splits)
  assume "RollingQuerySegmenter_init ws st = Inr self"
  then obtain xs where "list_all2 (\<lambda>v n. positive_int v = Inr n) ws xs" "positive_int st = Inr (stride self)"
    "window_sizes self = rev (sort (remdups xs))"
    by (auto simp: RollingQuerySegmenter_init_def result_simps rmap_Inr split: if_splits)
  then show ?thesis using pos by (auto simp: list_all2_conv_all_nth in_set_conv_nth) blast+
qed

lemma rolling_region_windows_eq:
  assumes "wf_segment region" "\<forall>w\<in>set (window_sizes self). 0 < w"
  shows "rolling_region_windows self region = Inr (map (\<lambda>(a, w).
    \<lparr>token_range = \<lparr>tr_start = tr_start (token_range region) + int a,
        tr_end = tr_start (token_range region) + int (a + w)\<rparr>,
     token_ids = slice a (a + w) (token_ids region)\<rparr>)
     (filter (\<lambda>(a, w). \<not> a + w > length (token_ids region))
       (List.product (py_range_step (length (token_ids region)) (stride self)) (window_sizes self))))"
  unfolding rolling_region_windows_def
  using assms rolling_window_eq by (intro rmap_total) (auto simp: not_less)

section \<open>Properties\<close>

text \<open>
  C5. A delimiter segmenter accepted by its constructor always returns on normalised tokens and a
  non-negative offset, and its result is determined: the input has exactly one leftmost-longest split at
  the given delimiters, and the segmenter returns the non-empty regions of this split, in order, each with
  its own tokens at its absolute position.  A scan that resumed inside a delimiter, or took a shorter
  delimiter where a longer one occurs, would return something else.
\<close>

theorem delimiter_segment_correct:
  assumes "DelimiterSegmenter_init raw = Inr self" "rmap normalize_token_ids raw = Inr ds" "normalize_token_ids ts = Inr tokens"
    "0 \<le> offset"
  shows "\<exists>cuts rest. rejoin cuts rest = tokens \<and> leftmost_longest (set ds) cuts rest \<and>
    (\<forall>cuts' rest'. rejoin cuts' rest' = tokens \<and> leftmost_longest (set ds) cuts' rest' \<longrightarrow> cuts' = cuts \<and> rest' = rest) \<and>
    delimiter_segment self ts (PInt offset) = Some (Inr (regions_from offset cuts rest))"
proof -
  note init = DelimiterSegmenter_init_Inr [OF assms(1)]
  have ds: "set (delimiters self) = set ds" "[] \<notin> set ds" using init(1,2) assms(2) by auto
  have "wf_tokens tokens" using assms(3) by (simp add: init_simps)
  then obtain cuts rest where c: "rejoin cuts rest = tokens" "leftmost_longest (set ds) cuts rest"
    "delimiter_loop (delimiters self) tokens offset [] 0 0 = Some (Inr (regions_from offset cuts rest))"
    using delimiter_loop_splits [OF _ assms(4) init(2,3), of tokens 0 0 "[]"] ds(1) by auto
  have unique: "\<forall>cuts' rest'. rejoin cuts' rest' = tokens \<and> leftmost_longest (set ds) cuts' rest' \<longrightarrow>
      cuts' = cuts \<and> rest' = rest"
  proof (intro allI impI)
    fix cuts' rest'
    assume *: "rejoin cuts' rest' = tokens \<and> leftmost_longest (set ds) cuts' rest'"
    have "cuts = cuts' \<and> rest = rest'"
      by (rule leftmost_longest_unique [OF c(2) _ _ ds(2)]) (use c(1) * in simp_all)
    then show "cuts' = cuts \<and> rest' = rest" by simp
  qed
  have "delimiter_segment self ts (PInt offset) = Some (Inr (regions_from offset cuts rest))"
    using c(3) assms(3,4) by (simp add: delimiter_segment_def)
  with c(1,2) unique show ?thesis by blast
qed

theorem delimiter_segment_correct_witness:
  "\<exists>self. DelimiterSegmenter_init [[PInt 7], [PInt 7, PInt 8]] = Inr self \<and>
    delimiter_segment self (map PInt [1, 7, 8, 2, 7]) (PInt 5) = Some (Inr
      [\<lparr>token_range = \<lparr>tr_start = 5, tr_end = 6\<rparr>, token_ids = [1]\<rparr>, \<lparr>token_range = \<lparr>tr_start = 8, tr_end = 9\<rparr>, token_ids = [2]\<rparr>])"
proof -
  have raw: "rmap normalize_token_ids [[PInt 7], [PInt 7, PInt 8]] = Inr [[7], [7, 8]]"
    by (simp add: normalize_token_ids_def MAX_TOKEN_ID_def)
  then obtain self where self: "DelimiterSegmenter_init [[PInt 7], [PInt 7, PInt 8]] = Inr self"
    by (simp add: DelimiterSegmenter_init_def)
  have "normalize_token_ids (map PInt [1, 7, 8, 2, 7]) = Inr [1, 7, 8, 2, 7]"
    by (simp add: normalize_token_ids_def MAX_TOKEN_ID_def)
  from delimiter_segment_correct [OF self raw this, of 5] obtain cuts rest where
    c: "\<forall>cuts' rest'. rejoin cuts' rest' = [1, 7, 8, 2, 7] \<and> leftmost_longest (set [[7], [7, 8]]) cuts' rest' \<longrightarrow> cuts' = cuts \<and> rest' = rest"
    "delimiter_segment self (map PInt [1, 7, 8, 2, 7]) (PInt 5) = Some (Inr (regions_from 5 cuts rest))" by auto
  have "leftmost_longest (set [[7], [7, 8]]) [([1], [7, 8]), ([2], [7])] []" by (simp add: occurs_at_def)
  then have "[([1], [7, 8]), ([2], [7])] = cuts \<and> [] = rest" by (intro c(1) [rule_format] conjI) simp_all
  then have "cuts = [([1], [7, 8]), ([2], [7])]" "rest = []" by simp_all
  then show ?thesis using self c(2) by (simp add: region_at_def)
qed

text \<open>
  Storage chunking of a region keeps a prefix of it, in order and without gaps: the chunks'
  tokens concatenate to the first \<open>kept_tokens\<close> tokens (all of them, or all but a trailing
  partial chunk that the configuration drops), and the \<open>k\<close>-th chunk starts \<open>k * chunk_size\<close>
  tokens after the start of the region.
\<close>

lemma fixed_segment_partition:
  assumes "FixedChunkStorageSegmenter_init c p m = Inr self" "wf_segment region"
  shows "\<exists>chunks. fixed_segment self [region] = Inr chunks \<and>
    concat (map token_ids chunks) =
      take (kept_tokens self (length (token_ids region))) (token_ids region) \<and>
    (\<forall>k<length chunks. tr_start (token_range (chunks ! k)) =
       tr_start (token_range region) + int (k * chunk_size self) \<and>
       length (token_ids (chunks ! k)) \<le> chunk_size self)"
proof -
  let ?ts = "token_ids region" and ?c = "chunk_size self"
  let ?kept = "kept_tokens self (length ?ts)"
  have c: "0 < ?c" by (rule FixedChunkStorageSegmenter_init_pos [OF assms(1)])
  let ?m = "(?kept + ?c - 1) div ?c"
  let ?chunks = "map (\<lambda>k. chunk_of self region (k * ?c)) [0..<?m]"
  have "fixed_segment self [region] = Inr ?chunks"
    by (simp add: fixed_segment_def fixed_region_chunks_eq [OF assms(2) c] kept_chunk_starts [OF c] o_def)
  moreover have "concat (map token_ids ?chunks) = take (?m * ?c) ?ts"
    using concat_chunks [OF c, of ?ts ?m] by (simp add: chunk_of_def o_def)
  moreover have "take (?m * ?c) ?ts = take ?kept ?ts"
  proof -
    have "?kept \<le> length ?ts" by (simp add: kept_tokens_def Let_def)
    moreover have "?kept \<le> ?m * ?c" "?kept < length ?ts \<longrightarrow> ?m * ?c = ?kept"
      using kept_tokens_round [OF c] by auto
    ultimately show ?thesis by (cases "?kept < length ?ts") auto
  qed
  ultimately show ?thesis by (intro exI [of _ ?chunks]) (auto simp: chunk_of_def)
qed

lemma fixed_segment_partition_witness:
  "\<exists>chunks. fixed_segment \<lparr>chunk_size = 2, include_partial = True, minimum_partial_size = 1\<rparr>
      [\<lparr>token_range = \<lparr>tr_start = 4, tr_end = 9\<rparr>, token_ids = [1, 2, 3, 4, 5]\<rparr>] = Inr chunks \<and>
    concat (map token_ids chunks) = [1, 2, 3, 4, 5]"
proof -
  let ?self = "\<lparr>chunk_size = 2, include_partial = True, minimum_partial_size = 1\<rparr> :: FixedChunkStorageSegmenter"
  have "FixedChunkStorageSegmenter_init (PInt 2) True (PInt 1) = Inr ?self"
    by (simp add: FixedChunkStorageSegmenter_init_def)
  moreover have "wf_segment \<lparr>token_range = \<lparr>tr_start = 4, tr_end = 9\<rparr>, token_ids = [1, 2, 3, 4, 5]\<rparr>"
    by (simp add: wf_simps range_len_def MAX_TOKEN_ID_def)
  ultimately show ?thesis
    using fixed_segment_partition [of "PInt 2" True "PInt 1" ?self] by (fastforce simp: kept_tokens_def)
qed

text \<open>
  C6. The rolling query segmenter produces exactly the windows of the configured sizes that start
  at a multiple of the stride inside a region and fit into it, each with the region's own tokens
  at that position: no storage alignment is assumed and no window is missed.
\<close>

theorem rolling_segment_complete:
  assumes "RollingQuerySegmenter_init ws st = Inr self" "\<forall>r\<in>set regions. wf_segment r"
  shows "\<exists>out. rolling_segment self regions = Inr out \<and>
    set out = {\<lparr>token_range = \<lparr>tr_start = tr_start (token_range r) + int a,
                   tr_end = tr_start (token_range r) + int (a + w)\<rparr>,
                token_ids = slice a (a + w) (token_ids r)\<rparr>
      | r k a w. r \<in> set regions \<and> a = k * stride self \<and> w \<in> set (window_sizes self) \<and>
          a + w \<le> length (token_ids r)}"
proof -
  let ?win = "\<lambda>r (a, w). \<lparr>token_range = \<lparr>tr_start = tr_start (token_range r) + int a,
       tr_end = tr_start (token_range r) + int (a + w)\<rparr>, token_ids = slice a (a + w) (token_ids r)\<rparr>"
  let ?ps = "\<lambda>r. filter (\<lambda>(a, w). \<not> a + w > length (token_ids r))
       (List.product (py_range_step (length (token_ids r)) (stride self)) (window_sizes self))"
  have pos: "0 < stride self" "\<forall>w\<in>set (window_sizes self). 0 < w"
    using RollingQuerySegmenter_init_pos [OF assms(1)] by auto
  have "rmap (rolling_region_windows self) regions = Inr (map (\<lambda>r. map (?win r) (?ps r)) regions)"
    using assms(2) pos(2) by (intro rmap_total) (auto simp: rolling_region_windows_eq)
  then have res: "rolling_segment self regions = Inr (concat (map (\<lambda>r. map (?win r) (?ps r)) regions))"
    by (simp add: rolling_segment_def)
  have ps: "set (?ps r) = {(k * stride self, w) | k w. w \<in> set (window_sizes self) \<and>
      k * stride self + w \<le> length (token_ids r)}" for r
    using pos by (force simp: set_py_range_step not_less)
  have "set (concat (map (\<lambda>r. map (?win r) (?ps r)) regions)) = (\<Union>r\<in>set regions. ?win r ` set (?ps r))"
    by (simp only: set_concat set_map image_image)
  moreover have "\<dots> = {?win r (a, w) | r k a w. r \<in> set regions \<and> a = k * stride self \<and>
      w \<in> set (window_sizes self) \<and> a + w \<le> length (token_ids r)}"
    unfolding ps by blast
  ultimately show ?thesis using res by (simp only: prod.case) blast
qed

theorem rolling_segment_complete_witness:
  "\<exists>out. rolling_segment \<lparr>window_sizes = [2], stride = 1\<rparr>
     [\<lparr>token_range = \<lparr>tr_start = 4, tr_end = 7\<rparr>, token_ids = [1, 2, 3]\<rparr>] = Inr out \<and>
   \<lparr>token_range = \<lparr>tr_start = 5, tr_end = 7\<rparr>, token_ids = [2, 3]\<rparr> \<in> set out"
proof -
  let ?r = "\<lparr>token_range = \<lparr>tr_start = 4, tr_end = 7\<rparr>, token_ids = [1, 2, 3]\<rparr>"
  have "RollingQuerySegmenter_init [PInt 2] (PInt 1) = Inr \<lparr>window_sizes = [2], stride = 1\<rparr>"
    by (simp add: RollingQuerySegmenter_init_def positive_int_def)
  moreover have "\<forall>r\<in>set [?r]. wf_segment r" by (simp add: wf_simps range_len_def MAX_TOKEN_ID_def)
  ultimately obtain out where out: "rolling_segment \<lparr>window_sizes = [2], stride = 1\<rparr> [?r] = Inr out"
    "set out = {\<lparr>token_range = \<lparr>tr_start = tr_start (token_range r) + int a,
                   tr_end = tr_start (token_range r) + int (a + w)\<rparr>,
                token_ids = slice a (a + w) (token_ids r)\<rparr>
      | r k a w. r \<in> set [?r] \<and> a = k * stride \<lparr>window_sizes = [2], stride = 1\<rparr> \<and>
          w \<in> set (window_sizes \<lparr>window_sizes = [2], stride = 1\<rparr>) \<and> a + w \<le> length (token_ids r)}"
    using rolling_segment_complete [of "[PInt 2]" "PInt 1" "\<lparr>window_sizes = [2], stride = 1\<rparr>" "[?r]"]
    by blast
  have "\<lparr>token_range = \<lparr>tr_start = 5, tr_end = 7\<rparr>, token_ids = [2, 3]\<rparr> \<in> set out"
    unfolding out(2) by (intro CollectI exI [of _ ?r] exI [of _ 1] exI [of _ 2]) simp
  with out(1) show ?thesis by blast
qed

end
