(* ===== verification/Metrics.thy ===== *)
theory Metrics
  imports Prelude
begin

text \<open>
  \<^verbatim>\<open>metrics/request.py\<close>: the per-request counters and timers and their consistency check.
  The check exists to reject ill-typed snapshots, so every field is a \<open>pyval\<close>.  Issues are
  returned in the order of the source; converting an out-of-range integer timer raises, as
  \<^verbatim>\<open>float\<close> does.
\<close>

section \<open>Snapshots\<close>

datatype MetricField =
    PROMPT_TOKENS | REUSABLE_DOCUMENTS_REQUESTED | REUSABLE_DOCUMENTS_HIT
  | REUSABLE_DOCUMENT_TOKENS_REQUESTED | KV_TOKENS_FOUND | KV_TOKENS_LOADED | KV_TOKENS_REJECTED
  | TOKENS_RECOMPUTED | PREFILL_TOKENS_AVOIDED | LOOKUP_LATENCY_SECONDS | TRANSFER_LATENCY_SECONDS
  | POSITION_CORRECTION_LATENCY_SECONDS | SELECTIVE_RECOMPUTATION_LATENCY_SECONDS | TTFT_SECONDS
  | PREFILL_LATENCY_SECONDS | STORE_LATENCY_SECONDS | QUEUE_LATENCY_SECONDS | DECODE_LATENCY_SECONDS
  | END_TO_END_LATENCY_SECONDS | MAX_ABS_LOGIT_ERROR | MEAN_ABS_LOGIT_ERROR

datatype MetricInvariantCode =
    NEGATIVE_COUNTER | INVALID_COUNTER_TYPE | INVALID_TIMER_TYPE | INVALID_ERROR_TYPE
  | NONFINITE_OR_NEGATIVE_TIMER | NONFINITE_OR_NEGATIVE_ERROR | DOCUMENT_HITS_EXCEED_REQUESTS
  | REUSABLE_TOKENS_EXCEED_PROMPT | FOUND_TOKENS_EXCEED_REQUESTED | LOADED_TOKENS_EXCEED_FOUND
  | REJECTED_TOKEN_RECONCILIATION_FAILED | RECOMPUTED_TOKENS_EXCEED_PROMPT
  | SAVED_TOKENS_EXCEED_PROMPT | SAVED_TOKEN_RECONCILIATION_FAILED | FULL_RECOMPUTE_REPORTED_SAVINGS

record RequestMetricCounters =
  mc_prompt_tokens :: pyval
  mc_reusable_documents_requested :: pyval
  mc_reusable_documents_hit :: pyval
  mc_reusable_document_tokens_requested :: pyval
  mc_kv_tokens_found :: pyval
  mc_kv_tokens_loaded :: pyval
  mc_kv_tokens_rejected :: pyval
  mc_tokens_recomputed :: pyval
  mc_prefill_tokens_avoided :: pyval

record RequestMetricTimers =
  mt_lookup_latency_seconds :: pyval
  mt_transfer_latency_seconds :: pyval
  mt_position_correction_latency_seconds :: pyval
  mt_selective_recomputation_latency_seconds :: pyval
  mt_ttft_seconds :: pyval
  mt_prefill_latency_seconds :: pyval
  mt_store_latency_seconds :: pyval
  mt_queue_latency_seconds :: pyval
  mt_decode_latency_seconds :: pyval
  mt_end_to_end_latency_seconds :: pyval

record RequestCorrectnessMetrics =
  mx_max_abs_logit_error :: pyval
  mx_mean_abs_logit_error :: pyval

record RequestMetrics =
  counters :: RequestMetricCounters
  timers :: RequestMetricTimers
  correctness :: RequestCorrectnessMetrics

record MetricInvariantIssue =
  issue_code :: MetricInvariantCode
  issue_field :: "MetricField option"

section \<open>Validation\<close>

definition is_full_recomputation :: "RequestMetricCounters \<Rightarrow> bool" where
  "is_full_recomputation c = py_eq (mc_tokens_recomputed c) (mc_prompt_tokens c)"

abbreviation issue :: "MetricInvariantCode \<Rightarrow> MetricField \<Rightarrow> MetricInvariantIssue" where
  "issue code f \<equiv> \<lparr>issue_code = code, issue_field = Some f\<rparr>"

definition counter_fields :: "RequestMetricCounters \<Rightarrow> (MetricField \<times> pyval) list" where
  "counter_fields c =
    [(PROMPT_TOKENS, mc_prompt_tokens c),
     (REUSABLE_DOCUMENTS_REQUESTED, mc_reusable_documents_requested c),
     (REUSABLE_DOCUMENTS_HIT, mc_reusable_documents_hit c),
     (REUSABLE_DOCUMENT_TOKENS_REQUESTED, mc_reusable_document_tokens_requested c),
     (KV_TOKENS_FOUND, mc_kv_tokens_found c),
     (KV_TOKENS_LOADED, mc_kv_tokens_loaded c),
     (KV_TOKENS_REJECTED, mc_kv_tokens_rejected c),
     (TOKENS_RECOMPUTED, mc_tokens_recomputed c),
     (PREFILL_TOKENS_AVOIDED, mc_prefill_tokens_avoided c)]"

definition timer_fields :: "RequestMetricTimers \<Rightarrow> (MetricField \<times> pyval) list" where
  "timer_fields t =
    [(LOOKUP_LATENCY_SECONDS, mt_lookup_latency_seconds t),
     (TRANSFER_LATENCY_SECONDS, mt_transfer_latency_seconds t),
     (POSITION_CORRECTION_LATENCY_SECONDS, mt_position_correction_latency_seconds t),
     (SELECTIVE_RECOMPUTATION_LATENCY_SECONDS, mt_selective_recomputation_latency_seconds t),
     (TTFT_SECONDS, mt_ttft_seconds t),
     (PREFILL_LATENCY_SECONDS, mt_prefill_latency_seconds t),
     (STORE_LATENCY_SECONDS, mt_store_latency_seconds t),
     (QUEUE_LATENCY_SECONDS, mt_queue_latency_seconds t),
     (DECODE_LATENCY_SECONDS, mt_decode_latency_seconds t),
     (END_TO_END_LATENCY_SECONDS, mt_end_to_end_latency_seconds t)]"

definition error_fields :: "RequestCorrectnessMetrics \<Rightarrow> (MetricField \<times> pyval) list" where
  "error_fields x =
    [(MAX_ABS_LOGIT_ERROR, mx_max_abs_logit_error x), (MEAN_ABS_LOGIT_ERROR, mx_mean_abs_logit_error x)]"

definition counter_issues :: "MetricField \<times> pyval \<Rightarrow> MetricInvariantIssue list" where
  "counter_issues fv =
     (case snd fv of
        PInt n \<Rightarrow> if n < 0 then [issue NEGATIVE_COUNTER (fst fv)] else []
      | _ \<Rightarrow> [issue INVALID_COUNTER_TYPE (fst fv)])"

text \<open>The check shared by the optional timers and the optional errors.\<close>

definition measure_issues ::
    "MetricInvariantCode \<Rightarrow> MetricInvariantCode \<Rightarrow> MetricField \<times> pyval \<Rightarrow> py_error + MetricInvariantIssue list"
where
  "measure_issues type_code range_code fv =
     (case snd fv of
        PNone \<Rightarrow> Inr []
      | PInt n \<Rightarrow> rbind (py_float (PInt n)) (\<lambda>f.
          if \<not> float_finite f \<or> float_negative f then Inr [issue range_code (fst fv)] else Inr [])
      | PFloat x \<Rightarrow> rbind (py_float (PFloat x)) (\<lambda>f.
          if \<not> float_finite f \<or> float_negative f then Inr [issue range_code (fst fv)] else Inr [])
      | _ \<Rightarrow> Inr [issue type_code (fst fv)])"

text \<open>A comparison that is made only when every operand is a plain integer.\<close>

definition when_ints :: "pyval list \<Rightarrow> (int list \<Rightarrow> bool) \<Rightarrow> MetricInvariantIssue \<Rightarrow> MetricInvariantIssue list" where
  "when_ints vs violated i =
     (if list_all is_plain_int vs \<and> violated (map (\<lambda>v. case v of PInt n \<Rightarrow> n | _ \<Rightarrow> 0) vs) then [i] else [])"

definition relation_issues :: "RequestMetricCounters \<Rightarrow> MetricInvariantIssue list" where
  "relation_issues c =
     when_ints [mc_reusable_documents_hit c, mc_reusable_documents_requested c]
       (\<lambda>xs. xs ! 0 > xs ! 1) (issue DOCUMENT_HITS_EXCEED_REQUESTS REUSABLE_DOCUMENTS_HIT)
   @ when_ints [mc_reusable_document_tokens_requested c, mc_prompt_tokens c]
       (\<lambda>xs. xs ! 0 > xs ! 1) (issue REUSABLE_TOKENS_EXCEED_PROMPT REUSABLE_DOCUMENT_TOKENS_REQUESTED)
   @ when_ints [mc_kv_tokens_found c, mc_reusable_document_tokens_requested c]
       (\<lambda>xs. xs ! 0 > xs ! 1) (issue FOUND_TOKENS_EXCEED_REQUESTED KV_TOKENS_FOUND)
   @ when_ints [mc_kv_tokens_loaded c, mc_kv_tokens_found c]
       (\<lambda>xs. xs ! 0 > xs ! 1) (issue LOADED_TOKENS_EXCEED_FOUND KV_TOKENS_LOADED)
   @ when_ints [mc_kv_tokens_found c, mc_kv_tokens_loaded c, mc_kv_tokens_rejected c]
       (\<lambda>xs. xs ! 0 \<noteq> xs ! 1 + xs ! 2)
       \<lparr>issue_code = REJECTED_TOKEN_RECONCILIATION_FAILED, issue_field = None\<rparr>
   @ when_ints [mc_tokens_recomputed c, mc_prompt_tokens c]
       (\<lambda>xs. xs ! 0 > xs ! 1) (issue RECOMPUTED_TOKENS_EXCEED_PROMPT TOKENS_RECOMPUTED)
   @ when_ints [mc_prefill_tokens_avoided c, mc_prompt_tokens c]
       (\<lambda>xs. xs ! 0 > xs ! 1) (issue SAVED_TOKENS_EXCEED_PROMPT PREFILL_TOKENS_AVOIDED)
   @ when_ints [mc_prompt_tokens c, mc_tokens_recomputed c, mc_prefill_tokens_avoided c]
       (\<lambda>xs. xs ! 0 - xs ! 1 \<ge> 0 \<and> xs ! 2 \<noteq> xs ! 0 - xs ! 1)
       (issue SAVED_TOKEN_RECONCILIATION_FAILED PREFILL_TOKENS_AVOIDED)
   @ (if is_full_recomputation c \<and> \<not> py_eq (mc_prefill_tokens_avoided c) (PInt 0)
      then [issue FULL_RECOMPUTE_REPORTED_SAVINGS PREFILL_TOKENS_AVOIDED] else [])"

definition validate_request_metrics :: "RequestMetrics \<Rightarrow> py_error + MetricInvariantIssue list" where
  "validate_request_metrics m =
     rbind (rmap (measure_issues INVALID_TIMER_TYPE NONFINITE_OR_NEGATIVE_TIMER) (timer_fields (timers m))) (\<lambda>ts.
     rbind (rmap (measure_issues INVALID_ERROR_TYPE NONFINITE_OR_NEGATIVE_ERROR) (error_fields (correctness m))) (\<lambda>es.
       Inr (concat (map counter_issues (counter_fields (counters m))) @ concat ts @ concat es @
            relation_issues (counters m))))"

datatype metrics_error = InvalidRequestMetrics "MetricInvariantIssue list" | MetricsRaise py_error

definition require_valid_request_metrics :: "RequestMetrics \<Rightarrow> metrics_error + unit" where
  "require_valid_request_metrics m =
     (case validate_request_metrics m of
        Inl e \<Rightarrow> Inl (MetricsRaise e)
      | Inr issues \<Rightarrow> if issues \<noteq> [] then Inl (InvalidRequestMetrics issues) else Inr ())"

section \<open>What a valid snapshot is\<close>

text \<open>Counters of a request that reconcile.\<close>

definition reconciled ::
    "int \<Rightarrow> int \<Rightarrow> int \<Rightarrow> int \<Rightarrow> int \<Rightarrow> int \<Rightarrow> int \<Rightarrow> int \<Rightarrow> int \<Rightarrow> bool" where
  "reconciled prompt docs hits requested found loaded rejected recomputed avoided \<longleftrightarrow>
     0 \<le> hits \<and> hits \<le> docs \<and> 0 \<le> loaded \<and> 0 \<le> rejected \<and> found = loaded + rejected \<and>
     found \<le> requested \<and> requested \<le> prompt \<and> 0 \<le> recomputed \<and> recomputed \<le> prompt \<and>
     avoided = prompt - recomputed"

definition int_counters ::
    "int \<Rightarrow> int \<Rightarrow> int \<Rightarrow> int \<Rightarrow> int \<Rightarrow> int \<Rightarrow> int \<Rightarrow> int \<Rightarrow> int \<Rightarrow> RequestMetricCounters" where
  "int_counters prompt docs hits requested found loaded rejected recomputed avoided =
    \<lparr>mc_prompt_tokens = PInt prompt, mc_reusable_documents_requested = PInt docs,
     mc_reusable_documents_hit = PInt hits, mc_reusable_document_tokens_requested = PInt requested,
     mc_kv_tokens_found = PInt found, mc_kv_tokens_loaded = PInt loaded,
     mc_kv_tokens_rejected = PInt rejected, mc_tokens_recomputed = PInt recomputed,
     mc_prefill_tokens_avoided = PInt avoided\<rparr>"

fun valid_measure :: "pyval \<Rightarrow> bool" where
  "valid_measure PNone = True"
| "valid_measure (PInt n) = (0 \<le> n \<and> n < 2 ^ 1024 - 2 ^ 970)"
| "valid_measure (PFloat (Finite r)) = (0 \<le> r)"
| "valid_measure _ = False"

lemma measure_issues_Nil: "measure_issues a b fv = Inr [] \<longleftrightarrow> valid_measure (snd fv)"
proof (cases "snd fv")
  case (PFloat x)
  then show ?thesis by (cases x) (auto simp: measure_issues_def py_float_def)
qed (auto simp: measure_issues_def py_float_def round_double_int_sign result_simps split: if_splits)

lemma rmap_concat_Nil: "(\<exists>ys. rmap f xs = Inr ys \<and> concat ys = []) \<longleftrightarrow> (\<forall>x\<in>set xs. f x = Inr [])"
  by (induction xs) (auto simp: result_simps)

lemma counter_issues_Nil: "counter_issues fv = [] \<longleftrightarrow> (\<exists>n. snd fv = PInt n \<and> 0 \<le> n)"
  by (auto simp: counter_issues_def split: pyval.splits)

lemma py_eq_PInt [simp]: "py_eq (PInt m) (PInt n) \<longleftrightarrow> m = n"
  by (simp add: py_eq_def)

lemma relation_issues_int:
  "relation_issues (int_counters p d h q f l r c a) = [] \<longleftrightarrow>
     h \<le> d \<and> q \<le> p \<and> f \<le> q \<and> l \<le> f \<and> f = l + r \<and> c \<le> p \<and> a \<le> p \<and>
     (c \<le> p \<longrightarrow> a = p - c) \<and> (c = p \<longrightarrow> a = 0)"
  by (auto simp: relation_issues_def int_counters_def when_ints_def is_full_recomputation_def)

lemma counters_issue_free:
  "concat (map counter_issues (counter_fields c)) @ relation_issues c = [] \<longleftrightarrow>
     (\<exists>p d h q f l r k a. c = int_counters p d h q f l r k a \<and> reconciled p d h q f l r k a)"
  (is "?L \<longleftrightarrow> ?R")
proof
  assume ?L
  then obtain p d h q f l r k a where c: "c = int_counters p d h q f l r k a"
    and "0 \<le> p" "0 \<le> d" "0 \<le> h" "0 \<le> q" "0 \<le> f" "0 \<le> l" "0 \<le> r" "0 \<le> k" "0 \<le> a"
    by (cases c) (auto simp: counter_fields_def counter_issues_Nil int_counters_def)
  moreover have "relation_issues (int_counters p d h q f l r k a) = []" using \<open>?L\<close> c by simp
  ultimately show ?R unfolding relation_issues_int reconciled_def by blast
next
  assume ?R
  then obtain p d h q f l r k a where c: "c = int_counters p d h q f l r k a"
    and "reconciled p d h q f l r k a" by blast
  then have "relation_issues c = []" and "\<forall>fv\<in>set (counter_fields c). \<exists>n. snd fv = PInt n \<and> 0 \<le> n"
    unfolding c relation_issues_int reconciled_def by (auto simp: counter_fields_def int_counters_def)
  then show ?L by (simp add: counter_issues_Nil)
qed

lemma validate_request_metrics_Nil:
  "validate_request_metrics m = Inr [] \<longleftrightarrow>
     (\<exists>p d h q f l r k a. counters m = int_counters p d h q f l r k a \<and> reconciled p d h q f l r k a) \<and>
     list_all (\<lambda>fv. valid_measure (snd fv)) (timer_fields (timers m)) \<and>
     list_all (\<lambda>fv. valid_measure (snd fv)) (error_fields (correctness m))"
proof -
  let ?T = "measure_issues INVALID_TIMER_TYPE NONFINITE_OR_NEGATIVE_TIMER"
  let ?E = "measure_issues INVALID_ERROR_TYPE NONFINITE_OR_NEGATIVE_ERROR"
  have "validate_request_metrics m = Inr [] \<longleftrightarrow>
      (\<exists>ts. rmap ?T (timer_fields (timers m)) = Inr ts \<and> concat ts = []) \<and>
      (\<exists>es. rmap ?E (error_fields (correctness m)) = Inr es \<and> concat es = []) \<and>
      concat (map counter_issues (counter_fields (counters m))) @ relation_issues (counters m) = []"
    unfolding validate_request_metrics_def by (auto simp: result_simps simp del: concat_eq_Nil_conv)
  then show ?thesis unfolding rmap_concat_Nil measure_issues_Nil counters_issue_free list_all_iff by blast
qed

lemma reconciled_metrics_valid:
  assumes "reconciled p d h q f l r k a" "list_all (\<lambda>fv. valid_measure (snd fv)) (timer_fields t)"
    "list_all (\<lambda>fv. valid_measure (snd fv)) (error_fields x)"
  shows "validate_request_metrics \<lparr>counters = int_counters p d h q f l r k a, timers = t, correctness = x\<rparr> = Inr []"
proof -
  have "\<exists>p' d' h' q' f' l' r' k' a'. int_counters p d h q f l r k a = int_counters p' d' h' q' f' l' r' k' a' \<and>
      reconciled p' d' h' q' f' l' r' k' a'"
    using assms(1) by (intro exI conjI) (rule refl)
  then show ?thesis using assms(2,3) unfolding validate_request_metrics_Nil by simp
qed

section \<open>Properties\<close>

text \<open>
  Validation reports no issue exactly for the consistent snapshots: all nine counters are plain
  non-negative integers, hits do not exceed requests, found tokens split into loaded and rejected
  and stay within the requested ones, saved prefill equals prompt minus recomputed tokens, and
  every timer and error is absent or a finite non-negative number.
\<close>

lemma validate_request_metrics_exact:
  "validate_request_metrics m = Inr [] \<longleftrightarrow>
     (\<exists>p d h q f l r k a. counters m = int_counters p d h q f l r k a \<and> reconciled p d h q f l r k a) \<and>
     list_all (\<lambda>fv. valid_measure (snd fv)) (timer_fields (timers m)) \<and>
     list_all (\<lambda>fv. valid_measure (snd fv)) (error_fields (correctness m))"
  by (rule validate_request_metrics_Nil)

end
