(* ===== verification/RuntimeValidation.thy ===== *)
theory RuntimeValidation
  imports PlannerModels
begin

text \<open>
  \<^verbatim>\<open>connector/runtime_validation.py\<close>: the fail-closed comparison of an observed runtime with
  the single audited target.  Observed values are dynamically typed (\<open>rt_value\<close>), because the
  comparison must not confuse \<^verbatim>\<open>True\<close> with \<^verbatim>\<open>1\<close>.  The members of the two
  string enumerations are their string values, which is how Python compares them.
\<close>

section \<open>Vocabulary\<close>

datatype AttentionLayerKind = SLIDING_LAYER | FULL_LAYER

fun attention_value :: "AttentionLayerKind \<Rightarrow> string" where
  "attention_value SLIDING_LAYER = ''sliding''"
| "attention_value FULL_LAYER = ''full''"

definition GPT_OSS_ATTENTION_PATTERN :: "AttentionLayerKind list" where
  "GPT_OSS_ATTENTION_PATTERN =
     map (\<lambda>layer_index. if layer_index mod 2 = 0 then SLIDING_LAYER else FULL_LAYER) [0..<24]"

datatype rt_value =
    VStr string | VInt int | VBool bool | VTuple "string list" | VFrozenset "string set" | VOther string

datatype ValidationFailureCode =
    MODEL_ID_MISMATCH | VLLM_VERSION_MISMATCH | LMCACHE_VERSION_MISMATCH | TORCH_VERSION_MISMATCH
  | CUDA_RUNTIME_MISMATCH | GPU_NAME_MISMATCH | GPU_COMPUTE_CAPABILITY_MISMATCH
  | TENSOR_PARALLEL_SIZE_MISMATCH | PIPELINE_PARALLEL_SIZE_MISMATCH | LAYER_COUNT_MISMATCH
  | ATTENTION_PATTERN_MISMATCH | SLIDING_WINDOW_MISMATCH | HYBRID_KV_MANAGER_DISABLED
  | V2_MODEL_RUNNER_ENABLED | ATTENTION_BACKEND_MISMATCH | ATTENTION_SINKS_UNSUPPORTED
  | UNSUPPORTED_FEATURE_ENABLED | FULL_PREFILL_FALLBACK_UNAVAILABLE

datatype MismatchAction = FALL_BACK_TO_FULL_PREFILL | REJECT_STARTUP

datatype RuntimeMode = CACHEBLEND | FULL_PREFILL | REJECTED

record RuntimeFields =
  rf_model_id :: rt_value
  rf_vllm_version :: rt_value
  rf_lmcache_version :: rt_value
  rf_torch_version :: rt_value
  rf_cuda_runtime :: rt_value
  rf_gpu_name :: rt_value
  rf_gpu_compute_capability :: rt_value
  rf_tensor_parallel_size :: rt_value
  rf_pipeline_parallel_size :: rt_value
  rf_num_hidden_layers :: rt_value
  rf_attention_pattern :: rt_value
  rf_sliding_window :: rt_value
  rf_hybrid_kv_manager_enabled :: rt_value
  rf_v2_model_runner_enabled :: rt_value
  rf_attention_backend :: rt_value
  rf_attention_backend_supports_sinks :: rt_value
  rf_unsupported_features :: rt_value

text \<open>\<^verbatim>\<open>RuntimeObservation\<close>: the compared fields and the fallback flag.\<close>

record RuntimeObservation = RuntimeFields +
  full_prefill_fallback_available :: rt_value

text \<open>\<^verbatim>\<open>RuntimeExpectations()\<close>: the defaults, which are the pinned target.\<close>

definition RuntimeExpectations :: RuntimeFields where
  "RuntimeExpectations =
    \<lparr>rf_model_id = VStr (rt_model_id PINNED_TARGET),
     rf_vllm_version = VStr (rt_vllm_version PINNED_TARGET),
     rf_lmcache_version = VStr (rt_lmcache_version PINNED_TARGET),
     rf_torch_version = VStr (rt_torch_version PINNED_TARGET),
     rf_cuda_runtime = VStr (rt_cuda_runtime PINNED_TARGET),
     rf_gpu_name = VStr (rt_gpu_name PINNED_TARGET),
     rf_gpu_compute_capability = VStr ''8.0'',
     rf_tensor_parallel_size = VInt 1,
     rf_pipeline_parallel_size = VInt 1,
     rf_num_hidden_layers = VInt 24,
     rf_attention_pattern = VTuple (map attention_value GPT_OSS_ATTENTION_PATTERN),
     rf_sliding_window = VInt 128,
     rf_hybrid_kv_manager_enabled = VBool True,
     rf_v2_model_runner_enabled = VBool False,
     rf_attention_backend = VStr ''TRITON_ATTN'',
     rf_attention_backend_supports_sinks = VBool True,
     rf_unsupported_features = VFrozenset {}\<rparr>"

record RuntimeValidationIssue =
  rv_code :: ValidationFailureCode
  rv_expected :: string
  rv_observed :: string

record RuntimeValidationResult =
  rv_mode :: RuntimeMode
  rv_issues :: "RuntimeValidationIssue list"

definition cacheblend_enabled :: "RuntimeValidationResult \<Rightarrow> bool" where
  "cacheblend_enabled r \<longleftrightarrow> rv_mode r = CACHEBLEND"

definition requires_full_prefill :: "RuntimeValidationResult \<Rightarrow> bool" where
  "requires_full_prefill r \<longleftrightarrow> rv_mode r = FULL_PREFILL"

section \<open>Comparison and validation\<close>

fun join_comma :: "string list \<Rightarrow> string" where
  "join_comma [] = ''''"
| "join_comma [s] = s"
| "join_comma (s # t # ss) = s @ '','' @ join_comma (t # ss)"

text \<open>
  \<^verbatim>\<open>_display\<close>; an observed object of any other type (\<open>VOther\<close>) carries its own
  rendering, and no expectation is such an object.
\<close>

fun display :: "rt_value \<Rightarrow> string" where
  "display (VBool b) = (if b then ''true'' else ''false'')"
| "display (VTuple xs) = join_comma (sort xs)"
| "display (VFrozenset S) = join_comma (sorted_list_of_set S)"
| "display (VStr s) = s"
| "display (VInt n) = py_str_int n"
| "display (VOther s) = s"

fun strict_equal :: "rt_value \<Rightarrow> rt_value \<Rightarrow> bool" where
  "strict_equal (VBool e) v = (case v of VBool b \<Rightarrow> b = e | _ \<Rightarrow> False)"
| "strict_equal (VInt e) v = (case v of VInt n \<Rightarrow> n = e | _ \<Rightarrow> False)"
| "strict_equal (VTuple e) v = (case v of VTuple xs \<Rightarrow> xs = e | _ \<Rightarrow> False)"
| "strict_equal (VFrozenset e) v = (case v of VFrozenset S \<Rightarrow> S = e | _ \<Rightarrow> False)"
| "strict_equal (VStr e) v = (case v of VStr s \<Rightarrow> s = e | _ \<Rightarrow> False)"
| "strict_equal (VOther e) v = (case v of VOther k \<Rightarrow> k = e | _ \<Rightarrow> False)"

definition compare_runtime ::
    "ValidationFailureCode \<Rightarrow> rt_value \<Rightarrow> rt_value \<Rightarrow> RuntimeValidationIssue list" where
  "compare_runtime code expected_value observed_value =
     (if \<not> strict_equal expected_value observed_value
      then [\<lparr>rv_code = code, rv_expected = display expected_value, rv_observed = display observed_value\<rparr>]
      else [])"

definition runtime_comparisons ::
    "RuntimeFields \<Rightarrow> RuntimeObservation \<Rightarrow> (ValidationFailureCode \<times> rt_value \<times> rt_value) list" where
  "runtime_comparisons e ob =
    [(MODEL_ID_MISMATCH, rf_model_id e, rf_model_id ob),
     (VLLM_VERSION_MISMATCH, rf_vllm_version e, rf_vllm_version ob),
     (LMCACHE_VERSION_MISMATCH, rf_lmcache_version e, rf_lmcache_version ob),
     (TORCH_VERSION_MISMATCH, rf_torch_version e, rf_torch_version ob),
     (CUDA_RUNTIME_MISMATCH, rf_cuda_runtime e, rf_cuda_runtime ob),
     (GPU_NAME_MISMATCH, rf_gpu_name e, rf_gpu_name ob),
     (GPU_COMPUTE_CAPABILITY_MISMATCH, rf_gpu_compute_capability e, rf_gpu_compute_capability ob),
     (TENSOR_PARALLEL_SIZE_MISMATCH, rf_tensor_parallel_size e, rf_tensor_parallel_size ob),
     (PIPELINE_PARALLEL_SIZE_MISMATCH, rf_pipeline_parallel_size e, rf_pipeline_parallel_size ob),
     (LAYER_COUNT_MISMATCH, rf_num_hidden_layers e, rf_num_hidden_layers ob),
     (ATTENTION_PATTERN_MISMATCH, rf_attention_pattern e, rf_attention_pattern ob),
     (SLIDING_WINDOW_MISMATCH, rf_sliding_window e, rf_sliding_window ob),
     (HYBRID_KV_MANAGER_DISABLED, rf_hybrid_kv_manager_enabled e, rf_hybrid_kv_manager_enabled ob),
     (V2_MODEL_RUNNER_ENABLED, rf_v2_model_runner_enabled e, rf_v2_model_runner_enabled ob),
     (ATTENTION_BACKEND_MISMATCH, rf_attention_backend e, rf_attention_backend ob),
     (ATTENTION_SINKS_UNSUPPORTED, rf_attention_backend_supports_sinks e, rf_attention_backend_supports_sinks ob),
     (UNSUPPORTED_FEATURE_ENABLED, rf_unsupported_features e, rf_unsupported_features ob)]"

definition validate_runtime ::
    "RuntimeFields \<Rightarrow> MismatchAction \<Rightarrow> RuntimeObservation \<Rightarrow> RuntimeValidationResult" where
  "validate_runtime expected action observation =
     (let issues = concat (map (\<lambda>(code, e, v). compare_runtime code e v) (runtime_comparisons expected observation)) in
      if issues = [] then \<lparr>rv_mode = CACHEBLEND, rv_issues = []\<rparr>
      else if action = FALL_BACK_TO_FULL_PREFILL \<and> full_prefill_fallback_available observation = VBool True
      then \<lparr>rv_mode = FULL_PREFILL, rv_issues = issues\<rparr>
      else if action = FALL_BACK_TO_FULL_PREFILL \<and> full_prefill_fallback_available observation \<noteq> VBool True
      then \<lparr>rv_mode = REJECTED, rv_issues = issues @
             [\<lparr>rv_code = FULL_PREFILL_FALLBACK_UNAVAILABLE, rv_expected = ''true'', rv_observed = ''false''\<rparr>]\<rparr>
      else \<lparr>rv_mode = REJECTED, rv_issues = issues\<rparr>)"

section \<open>Lemmas\<close>

lemma strict_equal_iff: "strict_equal e v \<longleftrightarrow> e = v"
  by (cases e; cases v) auto

lemma compare_runtime_Nil: "compare_runtime code e v = [] \<longleftrightarrow> e = v"
  by (simp add: compare_runtime_def strict_equal_iff)

lemma comparison_issues_Nil:
  "concat (map (\<lambda>(code, e, v). compare_runtime code e v) (runtime_comparisons e ob)) = [] \<longleftrightarrow>
     RuntimeFields.truncate ob = e"
  by (cases e; cases ob) (auto simp: runtime_comparisons_def compare_runtime_Nil RuntimeFields.truncate_def)

lemma comparison_codes:
  "map rv_code (concat (map (\<lambda>(code, e, v). compare_runtime code e v) cs)) =
     map fst (filter (\<lambda>(code, e, v). e \<noteq> v) cs)"
  by (induction cs) (auto simp: compare_runtime_def strict_equal_iff)

section \<open>Properties\<close>

text \<open>
  C31. Fail-closed startup: cache reuse is enabled exactly when all seventeen observed fields equal the
  expectations (type and value); every other runtime falls back to ordinary prefill exactly when
  the policy asks for it and the fallback is available, and is rejected otherwise.
\<close>

theorem validate_runtime_fail_closed:
  "rv_mode (validate_runtime e action ob) =
     (if RuntimeFields.truncate ob = e then CACHEBLEND
      else if action = FALL_BACK_TO_FULL_PREFILL \<and> full_prefill_fallback_available ob = VBool True
      then FULL_PREFILL else REJECTED)"
  unfolding validate_runtime_def Let_def comparison_issues_Nil by simp

text \<open>
  Diagnosis: a result that does not enable reuse lists, in the fixed order of the checks, the code
  of every field that differs and of no other field, followed by the missing-fallback code exactly
  when the policy wanted a fallback that is not available.
\<close>

lemma validate_runtime_reports_exactly:
  "map rv_code (rv_issues (validate_runtime e action ob)) =
     map fst (filter (\<lambda>(code, x, v). x \<noteq> v) (runtime_comparisons e ob)) @
     (if RuntimeFields.truncate ob \<noteq> e \<and> action = FALL_BACK_TO_FULL_PREFILL \<and>
         full_prefill_fallback_available ob \<noteq> VBool True
      then [FULL_PREFILL_FALLBACK_UNAVAILABLE] else [])"
proof -
  define I where "I = concat (map (\<lambda>(code, e, v). compare_runtime code e v) (runtime_comparisons e ob))"
  have "I = [] \<longleftrightarrow> RuntimeFields.truncate ob = e" unfolding I_def by (rule comparison_issues_Nil)
  moreover have "map fst (filter (\<lambda>(code, x, v). x \<noteq> v) (runtime_comparisons e ob)) = map rv_code I"
    unfolding I_def by (rule comparison_codes [symmetric])
  ultimately show ?thesis by (auto simp: validate_runtime_def Let_def I_def [symmetric])
qed

text \<open>
  The rendering sorts the entries of a tuple, so two attention patterns that differ only in the
  order of their layers are rejected with identical expected and observed diagnostics.
\<close>

lemma display_hides_order:
  "mset xs = mset ys \<Longrightarrow> display (VTuple xs) = display (VTuple ys)"
  by simp (metis properties_for_sort sorted_sort mset_sort)

end
