(* ===== verification/ControlPlane.thy ===== *)
theory ControlPlane
  imports Matching Metrics
begin

text \<open>
  \<^verbatim>\<open>connector/control_plane.py\<close>: the request control plane of the full-recompute milestone.
  Every dataclass is a record with a validating constructor; \<^verbatim>\<open>dataclasses.replace\<close> runs the
  constructor again, so each transition ends in \<open>RequestLifecycleState_init\<close>.  The
  \<^verbatim>\<open>RequestControlPlane\<close> owner is a record of the configured layout and a map from request
  identifiers to lifecycle states; an operation returns the error code or the new owner with the
  method's result.  A raise leaves the owner unchanged.
\<close>

section \<open>Data\<close>

datatype RequestPhase = LOOKED_UP | ALLOCATED | HANDED_OFF | WORKER_VALIDATED | FINISHED

datatype ControlPlaneErrorCode =
    UNKNOWN_REQUEST | DUPLICATE_REQUEST_CONFLICT | LIFECYCLE_MISUSE | INVALID_REQUEST_PLAN
  | INVALID_GROUP_LAYOUT | GROUP_COUNT_MISMATCH | GROUP_LAYOUT_MISMATCH | INVALID_BLOCK_ID
  | NONZERO_EXTERNAL_TOKENS | METADATA_SCHEMA_MISMATCH | STALE_ALLOCATION | INVALID_WORKER_RESULT

definition METADATA_SCHEMA_VERSION :: int where
  "METADATA_SCHEMA_VERSION = 1"

definition FULL_RECOMPUTE_EXTERNAL_TOKENS :: int where
  "FULL_RECOMPUTE_EXTERNAL_TOKENS = 0"

definition segment_sort_key :: "TokenSegment \<Rightarrow> int \<times> int \<times> int list" where
  "segment_sort_key s = (tr_start (token_range s), tr_end (token_range s), token_ids s)"

record CacheGroupLayout =
  layer_names_by_group :: "string list list"

definition CacheGroupLayout_init :: "string list list \<Rightarrow> ControlPlaneErrorCode + CacheGroupLayout" where
  "CacheGroupLayout_init groups =
     (if groups = [] \<or> (\<exists>g\<in>set groups. g = []) then Inl INVALID_GROUP_LAYOUT
      else if \<exists>g\<in>set groups. \<exists>name\<in>set g. name = [] then Inl INVALID_GROUP_LAYOUT
      else if \<not> distinct (concat groups) then Inl INVALID_GROUP_LAYOUT
      else Inr \<lparr>layer_names_by_group = groups\<rparr>)"

definition group_count :: "CacheGroupLayout \<Rightarrow> nat" where
  "group_count l = length (layer_names_by_group l)"

record GroupBlockSnapshot =
  gb_group_index :: int
  gb_layer_names :: "string list"
  gb_block_ids :: "int list"

definition GroupBlockSnapshot_init ::
    "int \<Rightarrow> string list \<Rightarrow> pyval list \<Rightarrow> ControlPlaneErrorCode + GroupBlockSnapshot" where
  "GroupBlockSnapshot_init group_index names blocks =
     (if group_index < 0 then Inl INVALID_GROUP_LAYOUT
      else if names = [] \<or> (\<exists>name\<in>set names. name = []) then Inl INVALID_GROUP_LAYOUT
      else if \<exists>b\<in>set blocks. \<not> nonneg_int b then Inl INVALID_BLOCK_ID
      else if \<not> distinct blocks then Inl INVALID_BLOCK_ID
      else Inr \<lparr>gb_group_index = group_index, gb_layer_names = names, gb_block_ids = map the_int blocks\<rparr>)"

record GroupedBlockAllocation =
  ga_group_layout :: CacheGroupLayout
  ga_groups :: "GroupBlockSnapshot list"

fun check_group_snapshots ::
    "string list list \<Rightarrow> nat \<Rightarrow> GroupBlockSnapshot list \<Rightarrow> ControlPlaneErrorCode + unit" where
  "check_group_snapshots names k [] = Inr ()"
| "check_group_snapshots names k (g # gs) =
     (if gb_group_index g \<noteq> int k then Inl INVALID_GROUP_LAYOUT
      else if gb_layer_names g \<noteq> names ! k then Inl GROUP_LAYOUT_MISMATCH
      else check_group_snapshots names (Suc k) gs)"

definition GroupedBlockAllocation_init ::
    "CacheGroupLayout \<Rightarrow> GroupBlockSnapshot list \<Rightarrow> ControlPlaneErrorCode + GroupedBlockAllocation" where
  "GroupedBlockAllocation_init layout groups =
     (if length groups \<noteq> group_count layout then Inl GROUP_COUNT_MISMATCH
      else rbind (check_group_snapshots (layer_names_by_group layout) 0 groups)
        (\<lambda>_. Inr \<lparr>ga_group_layout = layout, ga_groups = groups\<rparr>))"

definition capture ::
    "CacheGroupLayout \<Rightarrow> pyval list list \<Rightarrow> ControlPlaneErrorCode + GroupedBlockAllocation" where
  "capture layout block_groups =
     (if length block_groups \<noteq> group_count layout then Inl GROUP_COUNT_MISMATCH
      else rbind (rmap (\<lambda>(i, blocks). GroupBlockSnapshot_init (int i) (layer_names_by_group layout ! i) blocks)
               (List.enumerate 0 block_groups))
        (\<lambda>groups. GroupedBlockAllocation_init layout groups))"

definition block_ids_by_group :: "GroupedBlockAllocation \<Rightarrow> int list list" where
  "block_ids_by_group a = map gb_block_ids (ga_groups a)"

record RequestPlan =
  rp_request_id :: string
  rp_prompt_tokens :: int
  rp_query_segments :: "TokenSegment list"
  rp_match_plan :: MatchPlan

fun check_matches ::
    "TokenSegment list \<Rightarrow> TokenRange list \<Rightarrow> (int \<times> int \<times> int list) option \<Rightarrow> VerifiedMatch list \<Rightarrow>
     ControlPlaneErrorCode + unit" where
  "check_matches queries matched_ranges previous [] = Inr ()"
| "check_matches queries matched_ranges previous (m # ms) =
     (let target = vm_target m; sort_key = segment_sort_key target in
      if target \<notin> set queries then Inl INVALID_REQUEST_PLAN
      else if token_ids target \<noteq> rec_token_ids (vm_record m) then Inl INVALID_REQUEST_PLAN
      else if query_fingerprint (vm_candidate m) \<noteq> rec_fingerprint (vm_record m) then Inl INVALID_REQUEST_PLAN
      else if \<exists>r\<in>set matched_ranges. overlaps (token_range target) r then Inl INVALID_REQUEST_PLAN
      else if (case previous of None \<Rightarrow> False | Some k \<Rightarrow> sort_key < k) then Inl INVALID_REQUEST_PLAN
      else check_matches queries (matched_ranges @ [token_range target]) (Some sort_key) ms)"

definition RequestPlan_init ::
    "string \<Rightarrow> int \<Rightarrow> TokenSegment list \<Rightarrow> MatchPlan \<Rightarrow> ControlPlaneErrorCode + RequestPlan" where
  "RequestPlan_init request_id prompt_tokens query_segments match_plan =
     (if request_id = [] then Inl INVALID_REQUEST_PLAN
      else if prompt_tokens < 0 then Inl INVALID_REQUEST_PLAN
      else
        let queries = sort_key segment_sort_key query_segments in
        if \<not> distinct queries then Inl INVALID_REQUEST_PLAN
        else if \<exists>s\<in>set queries. tr_end (token_range s) > prompt_tokens then Inl INVALID_REQUEST_PLAN
        else if requested_tokens match_plan \<noteq> covered_token_count queries then Inl INVALID_REQUEST_PLAN
        else if \<not> (0 \<le> matched_tokens match_plan \<and> matched_tokens match_plan \<le> requested_tokens match_plan)
        then Inl INVALID_REQUEST_PLAN
        else rbind (check_matches queries [] None (matches match_plan)) (\<lambda>_.
          if \<exists>r\<in>set (rejected_candidates match_plan). target_segment (rj_candidate r) \<notin> set queries
          then Inl INVALID_REQUEST_PLAN
          else Inr \<lparr>rp_request_id = request_id, rp_prompt_tokens = prompt_tokens,
                    rp_query_segments = queries, rp_match_plan = match_plan\<rparr>))"

definition plan_external_scheduler_tokens :: "RequestPlan \<Rightarrow> int" where
  "plan_external_scheduler_tokens p = FULL_RECOMPUTE_EXTERNAL_TOKENS"

record RequestAllocation =
  al_request_id :: string
  al_generation :: int
  al_grouped_blocks :: GroupedBlockAllocation
  al_external_scheduler_tokens :: int

definition RequestAllocation_init ::
    "string \<Rightarrow> int \<Rightarrow> GroupedBlockAllocation \<Rightarrow> pyval \<Rightarrow> ControlPlaneErrorCode + RequestAllocation" where
  "RequestAllocation_init request_id generation blocks external =
     (if request_id = [] then Inl INVALID_REQUEST_PLAN
      else if generation < 0 then Inl STALE_ALLOCATION
      else if \<not> is_plain_int external \<or> the_int external \<noteq> FULL_RECOMPUTE_EXTERNAL_TOKENS
      then Inl NONZERO_EXTERNAL_TOKENS
      else Inr \<lparr>al_request_id = request_id, al_generation = generation, al_grouped_blocks = blocks,
                al_external_scheduler_tokens = the_int external\<rparr>)"

record RequestHandoffMetadata =
  hm_schema_version :: int
  hm_plan :: RequestPlan
  hm_allocation :: RequestAllocation

definition RequestHandoffMetadata_init ::
    "int \<Rightarrow> RequestPlan \<Rightarrow> RequestAllocation \<Rightarrow> ControlPlaneErrorCode + RequestHandoffMetadata" where
  "RequestHandoffMetadata_init version p a =
     (if version \<noteq> METADATA_SCHEMA_VERSION then Inl METADATA_SCHEMA_MISMATCH
      else if rp_request_id p \<noteq> al_request_id a then Inl INVALID_REQUEST_PLAN
      else if plan_external_scheduler_tokens p \<noteq> al_external_scheduler_tokens a then Inl NONZERO_EXTERNAL_TOKENS
      else Inr \<lparr>hm_schema_version = version, hm_plan = p, hm_allocation = a\<rparr>)"

definition normalize_match_indexes :: "pyval list \<Rightarrow> ControlPlaneErrorCode + int list" where
  "normalize_match_indexes indexes =
     (if \<exists>v\<in>set indexes. \<not> nonneg_int v then Inl INVALID_WORKER_RESULT
      else if \<not> distinct indexes then Inl INVALID_WORKER_RESULT
      else Inr (sort (map the_int indexes)))"

record WorkerValidationReceipt =
  wr_request_id :: string
  wr_allocation :: RequestAllocation
  wr_loaded :: "int list"
  wr_rejected :: "int list"

definition WorkerValidationReceipt_init ::
    "string \<Rightarrow> RequestAllocation \<Rightarrow> pyval list \<Rightarrow> pyval list \<Rightarrow> ControlPlaneErrorCode + WorkerValidationReceipt"
where
  "WorkerValidationReceipt_init request_id a loaded rejected =
     (if request_id \<noteq> al_request_id a then Inl INVALID_WORKER_RESULT
      else rbind (normalize_match_indexes loaded) (\<lambda>l.
        rbind (normalize_match_indexes rejected) (\<lambda>r.
          if set l \<inter> set r \<noteq> {} then Inl INVALID_WORKER_RESULT
          else Inr \<lparr>wr_request_id = request_id, wr_allocation = a, wr_loaded = l, wr_rejected = r\<rparr>)))"

section \<open>The lifecycle of one request\<close>

record RequestLifecycleState =
  ls_plan :: RequestPlan
  ls_phase :: RequestPhase
  ls_generation :: int
  ls_allocation :: "RequestAllocation option"
  ls_handoff :: "RequestHandoffMetadata option"
  ls_worker :: "WorkerValidationReceipt option"
  ls_preemption_count :: int

definition RequestLifecycleState_init ::
    "RequestLifecycleState \<Rightarrow> ControlPlaneErrorCode + RequestLifecycleState" where
  "RequestLifecycleState_init s =
     (if ls_generation s < 0 then Inl STALE_ALLOCATION
      else if ls_preemption_count s < 0 then Inl STALE_ALLOCATION
      else if ls_phase s = LOOKED_UP then
        (if ls_allocation s \<noteq> None \<or> ls_handoff s \<noteq> None \<or> ls_worker s \<noteq> None
         then Inl LIFECYCLE_MISUSE else Inr s)
      else
        case ls_allocation s of
          None \<Rightarrow> Inl LIFECYCLE_MISUSE
        | Some a \<Rightarrow>
            if al_request_id a \<noteq> rp_request_id (ls_plan s) then Inl INVALID_REQUEST_PLAN
            else if al_generation a \<noteq> ls_generation s then Inl STALE_ALLOCATION
            else if ls_phase s = ALLOCATED then
              (if ls_handoff s \<noteq> None \<or> ls_worker s \<noteq> None then Inl LIFECYCLE_MISUSE else Inr s)
            else
              case ls_handoff s of
                None \<Rightarrow> Inl LIFECYCLE_MISUSE
              | Some h \<Rightarrow>
                  if hm_plan h \<noteq> ls_plan s \<or> hm_allocation h \<noteq> a then Inl STALE_ALLOCATION
                  else if ls_phase s = HANDED_OFF then
                    (if ls_worker s \<noteq> None then Inl LIFECYCLE_MISUSE else Inr s)
                  else
                    case ls_worker s of
                      None \<Rightarrow> Inl LIFECYCLE_MISUSE
                    | Some w \<Rightarrow> if wr_allocation w \<noteq> a then Inl STALE_ALLOCATION else Inr s)"

text \<open>\<^verbatim>\<open>RequestLifecycleState(plan=plan)\<close>: the field defaults.\<close>

definition looked_up_state :: "RequestPlan \<Rightarrow> RequestLifecycleState" where
  "looked_up_state p = \<lparr>ls_plan = p, ls_phase = LOOKED_UP, ls_generation = 0, ls_allocation = None,
     ls_handoff = None, ls_worker = None, ls_preemption_count = 0\<rparr>"

definition from_handoff ::
    "RequestHandoffMetadata \<Rightarrow> CacheGroupLayout \<Rightarrow> ControlPlaneErrorCode + RequestLifecycleState" where
  "from_handoff h expected_layout =
     (if hm_schema_version h \<noteq> METADATA_SCHEMA_VERSION then Inl METADATA_SCHEMA_MISMATCH
      else if ga_group_layout (al_grouped_blocks (hm_allocation h)) \<noteq> expected_layout
      then Inl GROUP_LAYOUT_MISMATCH
      else RequestLifecycleState_init
        \<lparr>ls_plan = hm_plan h, ls_phase = HANDED_OFF, ls_generation = al_generation (hm_allocation h),
         ls_allocation = Some (hm_allocation h), ls_handoff = Some h, ls_worker = None,
         ls_preemption_count = 0\<rparr>)"

definition state_allocate ::
    "RequestLifecycleState \<Rightarrow> CacheGroupLayout \<Rightarrow> pyval list list \<Rightarrow> pyval \<Rightarrow>
     ControlPlaneErrorCode + RequestLifecycleState" where
  "state_allocate s layout blocks external =
     (if \<not> is_plain_int external \<or> the_int external \<noteq> FULL_RECOMPUTE_EXTERNAL_TOKENS
      then Inl NONZERO_EXTERNAL_TOKENS
      else rbind (capture layout blocks) (\<lambda>grouped.
        rbind (RequestAllocation_init (rp_request_id (ls_plan s)) (ls_generation s) grouped external) (\<lambda>candidate.
          if ls_phase s = LOOKED_UP
          then RequestLifecycleState_init (s\<lparr>ls_phase := ALLOCATED, ls_allocation := Some candidate\<rparr>)
          else if ls_allocation s = Some candidate then Inr s
          else if ls_phase s = FINISHED then Inl LIFECYCLE_MISUSE
          else Inl DUPLICATE_REQUEST_CONFLICT)))"

definition state_handoff :: "RequestLifecycleState \<Rightarrow> ControlPlaneErrorCode + RequestLifecycleState" where
  "state_handoff s =
     (if ls_phase s \<in> {HANDED_OFF, WORKER_VALIDATED, FINISHED} then
        (if ls_handoff s = None then Inl LIFECYCLE_MISUSE else Inr s)
      else
        case (ls_phase s, ls_allocation s) of
          (ALLOCATED, Some a) \<Rightarrow>
            rbind (RequestHandoffMetadata_init METADATA_SCHEMA_VERSION (ls_plan s) a) (\<lambda>h.
              RequestLifecycleState_init (s\<lparr>ls_phase := HANDED_OFF, ls_handoff := Some h\<rparr>))
        | _ \<Rightarrow> Inl LIFECYCLE_MISUSE)"

definition state_apply_worker_validation ::
    "RequestLifecycleState \<Rightarrow> WorkerValidationReceipt \<Rightarrow> ControlPlaneErrorCode + RequestLifecycleState" where
  "state_apply_worker_validation s receipt =
     (if wr_request_id receipt \<noteq> rp_request_id (ls_plan s) then Inl DUPLICATE_REQUEST_CONFLICT
      else if al_generation (wr_allocation receipt) \<noteq> ls_generation s then Inl STALE_ALLOCATION
      else if ls_allocation s \<noteq> Some (wr_allocation receipt) then Inl STALE_ALLOCATION
      else if set (wr_loaded receipt) \<union> set (wr_rejected receipt) \<noteq>
              set (map int [0..<length (matches (rp_match_plan (ls_plan s)))])
      then Inl INVALID_WORKER_RESULT
      else if ls_phase s = HANDED_OFF
      then RequestLifecycleState_init (s\<lparr>ls_phase := WORKER_VALIDATED, ls_worker := Some receipt\<rparr>)
      else if ls_phase s \<in> {WORKER_VALIDATED, FINISHED} then
        (if ls_worker s = Some receipt then Inr s else Inl DUPLICATE_REQUEST_CONFLICT)
      else Inl LIFECYCLE_MISUSE)"

definition state_preempt :: "RequestLifecycleState \<Rightarrow> ControlPlaneErrorCode + RequestLifecycleState" where
  "state_preempt s =
     (if ls_phase s = FINISHED then Inl LIFECYCLE_MISUSE
      else if ls_phase s = LOOKED_UP then Inr s
      else RequestLifecycleState_init
        (s\<lparr>ls_phase := LOOKED_UP, ls_generation := ls_generation s + 1, ls_allocation := None,
           ls_handoff := None, ls_worker := None, ls_preemption_count := ls_preemption_count s + 1\<rparr>))"

definition state_finish :: "RequestLifecycleState \<Rightarrow> ControlPlaneErrorCode + RequestLifecycleState" where
  "state_finish s =
     (if ls_phase s = FINISHED then Inr s
      else if ls_phase s \<noteq> WORKER_VALIDATED then Inl LIFECYCLE_MISUSE
      else RequestLifecycleState_init (s\<lparr>ls_phase := FINISHED\<rparr>))"

definition derive_metric_counters :: "RequestLifecycleState \<Rightarrow> ControlPlaneErrorCode + RequestMetricCounters" where
  "derive_metric_counters s =
     (case (ls_phase s \<in> {WORKER_VALIDATED, FINISHED}, ls_worker s) of
        (True, Some w) \<Rightarrow>
          (let p = ls_plan s; ms = matches (rp_match_plan p);
               loaded_tokens = sum_list (map (\<lambda>i. segment_len (vm_target (ms ! nat i))) (wr_loaded w));
               candidate_targets = map vm_target ms @
                 map (\<lambda>r. target_segment (rj_candidate r)) (rejected_candidates (rp_match_plan p));
               found_tokens = covered_token_count candidate_targets;
               rejected_tokens = found_tokens - loaded_tokens
           in if rejected_tokens < 0 then Inl INVALID_WORKER_RESULT
              else
                let document_hits = length (filter (\<lambda>q. q \<in> set (map vm_target ms)) (rp_query_segments p)) in
                if length (wr_loaded w) + length (wr_rejected w) \<noteq> length ms then Inl INVALID_WORKER_RESULT
                else Inr (int_counters (rp_prompt_tokens p) (int (length (rp_query_segments p)))
                       (int document_hits) (requested_tokens (rp_match_plan p)) found_tokens loaded_tokens
                       rejected_tokens (rp_prompt_tokens p) 0))
      | _ \<Rightarrow> Inl LIFECYCLE_MISUSE)"

section \<open>The owner of all requests\<close>

record RequestControlPlane =
  cp_group_layout :: CacheGroupLayout
  cp_states :: "string \<rightharpoonup> RequestLifecycleState"

definition RequestControlPlane_init :: "CacheGroupLayout \<Rightarrow> RequestControlPlane" where
  "RequestControlPlane_init layout = \<lparr>cp_group_layout = layout, cp_states = Map.empty\<rparr>"

definition require_state :: "RequestControlPlane \<Rightarrow> string \<Rightarrow> ControlPlaneErrorCode + RequestLifecycleState" where
  "require_state cp request_id =
     (case cp_states cp request_id of None \<Rightarrow> Inl UNKNOWN_REQUEST | Some s \<Rightarrow> Inr s)"

abbreviation store_state :: "RequestControlPlane \<Rightarrow> string \<Rightarrow> RequestLifecycleState \<Rightarrow> RequestControlPlane" where
  "store_state cp request_id s \<equiv> cp\<lparr>cp_states := (cp_states cp)(request_id \<mapsto> s)\<rparr>"

definition cp_lookup ::
    "RequestControlPlane \<Rightarrow> string \<Rightarrow> int \<Rightarrow> TokenSegment list \<Rightarrow> MatchPlan \<Rightarrow>
     ControlPlaneErrorCode + RequestControlPlane \<times> RequestLifecycleState" where
  "cp_lookup cp request_id prompt_tokens query_segments match_plan =
     rbind (RequestPlan_init request_id prompt_tokens query_segments match_plan) (\<lambda>p.
       case cp_states cp request_id of
         Some existing \<Rightarrow>
           if ls_plan existing = p then Inr (cp, existing) else Inl DUPLICATE_REQUEST_CONFLICT
       | None \<Rightarrow> rbind (RequestLifecycleState_init (looked_up_state p)) (\<lambda>s.
           Inr (store_state cp request_id s, s)))"

definition cp_external_scheduler_tokens :: "RequestControlPlane \<Rightarrow> string \<Rightarrow> ControlPlaneErrorCode + int" where
  "cp_external_scheduler_tokens cp request_id =
     rbind (require_state cp request_id) (\<lambda>s. Inr (plan_external_scheduler_tokens (ls_plan s)))"

definition cp_allocate ::
    "RequestControlPlane \<Rightarrow> string \<Rightarrow> pyval list list \<Rightarrow> pyval \<Rightarrow>
     ControlPlaneErrorCode + RequestControlPlane \<times> RequestLifecycleState" where
  "cp_allocate cp request_id blocks external =
     rbind (require_state cp request_id) (\<lambda>s.
       rbind (state_allocate s (cp_group_layout cp) blocks external) (\<lambda>t.
         Inr (store_state cp request_id t, t)))"

definition cp_handoff ::
    "RequestControlPlane \<Rightarrow> string \<Rightarrow> ControlPlaneErrorCode + RequestControlPlane \<times> RequestHandoffMetadata" where
  "cp_handoff cp request_id =
     rbind (require_state cp request_id) (\<lambda>s.
       rbind (state_handoff s) (\<lambda>t.
         case ls_handoff t of
           None \<Rightarrow> Inl LIFECYCLE_MISUSE
         | Some h \<Rightarrow> Inr (store_state cp request_id t, h)))"

definition cp_accept_handoff ::
    "RequestControlPlane \<Rightarrow> RequestHandoffMetadata \<Rightarrow>
     ControlPlaneErrorCode + RequestControlPlane \<times> RequestLifecycleState" where
  "cp_accept_handoff cp h =
     (let request_id = rp_request_id (hm_plan h) in
      case cp_states cp request_id of
        Some existing \<Rightarrow>
          if ls_handoff existing = Some h then Inr (cp, existing) else Inl DUPLICATE_REQUEST_CONFLICT
      | None \<Rightarrow> rbind (from_handoff h (cp_group_layout cp)) (\<lambda>s. Inr (store_state cp request_id s, s)))"

definition cp_validate_worker ::
    "RequestControlPlane \<Rightarrow> string \<Rightarrow> pyval list \<Rightarrow> pyval list \<Rightarrow>
     ControlPlaneErrorCode + RequestControlPlane \<times> WorkerValidationReceipt" where
  "cp_validate_worker cp request_id loaded rejected =
     rbind (require_state cp request_id) (\<lambda>s.
       case ls_allocation s of
         None \<Rightarrow> Inl LIFECYCLE_MISUSE
       | Some a \<Rightarrow>
           rbind (WorkerValidationReceipt_init request_id a loaded rejected) (\<lambda>receipt.
             rbind (state_apply_worker_validation s receipt) (\<lambda>t.
               Inr (store_state cp request_id t, receipt))))"

definition cp_apply_worker_validation ::
    "RequestControlPlane \<Rightarrow> WorkerValidationReceipt \<Rightarrow>
     ControlPlaneErrorCode + RequestControlPlane \<times> RequestLifecycleState" where
  "cp_apply_worker_validation cp receipt =
     rbind (require_state cp (wr_request_id receipt)) (\<lambda>s.
       rbind (state_apply_worker_validation s receipt) (\<lambda>t.
         Inr (store_state cp (wr_request_id receipt) t, t)))"

definition cp_preempt ::
    "RequestControlPlane \<Rightarrow> string \<Rightarrow> ControlPlaneErrorCode + RequestControlPlane \<times> RequestLifecycleState" where
  "cp_preempt cp request_id =
     rbind (require_state cp request_id) (\<lambda>s.
       rbind (state_preempt s) (\<lambda>t. Inr (store_state cp request_id t, t)))"

definition cp_finish ::
    "RequestControlPlane \<Rightarrow> string \<Rightarrow> ControlPlaneErrorCode + RequestControlPlane \<times> RequestLifecycleState" where
  "cp_finish cp request_id =
     rbind (require_state cp request_id) (\<lambda>s.
       rbind (state_finish s) (\<lambda>t. Inr (store_state cp request_id t, t)))"

definition cp_discard :: "RequestControlPlane \<Rightarrow> string \<Rightarrow> RequestControlPlane \<times> RequestLifecycleState option" where
  "cp_discard cp request_id =
     (cp\<lparr>cp_states := (cp_states cp)(request_id := None)\<rparr>, cp_states cp request_id)"

section \<open>Invariants\<close>

definition wf_request_plan :: "RequestPlan \<Rightarrow> bool" where
  "wf_request_plan p \<longleftrightarrow>
     rp_request_id p \<noteq> [] \<and> 0 \<le> rp_prompt_tokens p \<and>
     distinct (rp_query_segments p) \<and> sorted (map segment_sort_key (rp_query_segments p)) \<and>
     (\<forall>q\<in>set (rp_query_segments p). wf_segment q \<and> tr_end (token_range q) \<le> rp_prompt_tokens p) \<and>
     requested_tokens (rp_match_plan p) = covered_token_count (rp_query_segments p) \<and>
     0 \<le> matched_tokens (rp_match_plan p) \<and> matched_tokens (rp_match_plan p) \<le> requested_tokens (rp_match_plan p) \<and>
     (\<forall>m\<in>set (matches (rp_match_plan p)). vm_target m \<in> set (rp_query_segments p) \<and>
        token_ids (vm_target m) = rec_token_ids (vm_record m) \<and>
        query_fingerprint (vm_candidate m) = rec_fingerprint (vm_record m)) \<and>
     sorted_wrt (\<lambda>a b. \<not> overlaps (token_range (vm_target b)) (token_range (vm_target a))) (matches (rp_match_plan p)) \<and>
     (\<forall>r\<in>set (rejected_candidates (rp_match_plan p)). target_segment (rj_candidate r) \<in> set (rp_query_segments p))"

definition wf_blocks :: "GroupedBlockAllocation \<Rightarrow> bool" where
  "wf_blocks a \<longleftrightarrow> map gb_layer_names (ga_groups a) = layer_names_by_group (ga_group_layout a) \<and>
     (\<forall>g\<in>set (ga_groups a). distinct (gb_block_ids g) \<and> (\<forall>b\<in>set (gb_block_ids g). 0 \<le> b))"

definition wf_allocation :: "RequestAllocation \<Rightarrow> bool" where
  "wf_allocation a \<longleftrightarrow> al_request_id a \<noteq> [] \<and> 0 \<le> al_generation a \<and>
     al_external_scheduler_tokens a = FULL_RECOMPUTE_EXTERNAL_TOKENS \<and> wf_blocks (al_grouped_blocks a)"

definition wf_handoff :: "RequestHandoffMetadata \<Rightarrow> bool" where
  "wf_handoff h \<longleftrightarrow> hm_schema_version h = METADATA_SCHEMA_VERSION \<and> wf_request_plan (hm_plan h) \<and>
     wf_allocation (hm_allocation h) \<and> al_request_id (hm_allocation h) = rp_request_id (hm_plan h)"

definition wf_receipt :: "WorkerValidationReceipt \<Rightarrow> bool" where
  "wf_receipt w \<longleftrightarrow> wr_request_id w = al_request_id (wr_allocation w) \<and>
     distinct (wr_loaded w) \<and> distinct (wr_rejected w) \<and> set (wr_loaded w) \<inter> set (wr_rejected w) = {}"

text \<open>The worker disposed of every planned match exactly once.\<close>

definition complete_receipt :: "RequestPlan \<Rightarrow> WorkerValidationReceipt \<Rightarrow> bool" where
  "complete_receipt p w \<longleftrightarrow> wf_receipt w \<and>
     set (wr_loaded w) \<union> set (wr_rejected w) = set (map int [0..<length (matches (rp_match_plan p))])"

text \<open>Which parts of the state are present in which phase, and that they agree with each other.\<close>

definition phase_consistent :: "RequestLifecycleState \<Rightarrow> bool" where
  "phase_consistent s \<longleftrightarrow> 0 \<le> ls_generation s \<and> 0 \<le> ls_preemption_count s \<and>
     (ls_phase s = LOOKED_UP \<longrightarrow> ls_allocation s = None) \<and>
     (ls_phase s \<noteq> LOOKED_UP \<longrightarrow> (\<exists>a. ls_allocation s = Some a \<and>
        al_request_id a = rp_request_id (ls_plan s) \<and> al_generation a = ls_generation s)) \<and>
     (ls_phase s \<in> {LOOKED_UP, ALLOCATED} \<longrightarrow> ls_handoff s = None) \<and>
     (ls_phase s \<notin> {LOOKED_UP, ALLOCATED} \<longrightarrow> (\<exists>h. ls_handoff s = Some h \<and>
        hm_plan h = ls_plan s \<and> ls_allocation s = Some (hm_allocation h))) \<and>
     (ls_phase s \<notin> {WORKER_VALIDATED, FINISHED} \<longrightarrow> ls_worker s = None) \<and>
     (ls_phase s \<in> {WORKER_VALIDATED, FINISHED} \<longrightarrow> (\<exists>w. ls_worker s = Some w \<and>
        ls_allocation s = Some (wr_allocation w)))"

definition wf_lifecycle :: "RequestLifecycleState \<Rightarrow> bool" where
  "wf_lifecycle s \<longleftrightarrow> phase_consistent s \<and> wf_request_plan (ls_plan s) \<and>
     (\<forall>a. ls_allocation s = Some a \<longrightarrow> wf_allocation a) \<and>
     (\<forall>h. ls_handoff s = Some h \<longrightarrow> wf_handoff h) \<and>
     (\<forall>w. ls_worker s = Some w \<longrightarrow> complete_receipt (ls_plan s) w)"

text \<open>The allocated blocks belong to the cache groups the owner was configured with.\<close>

definition on_layout :: "CacheGroupLayout \<Rightarrow> RequestLifecycleState \<Rightarrow> bool" where
  "on_layout layout s \<longleftrightarrow>
     (\<forall>a. ls_allocation s = Some a \<longrightarrow> ga_group_layout (al_grouped_blocks a) = layout)"

definition cp_inv :: "RequestControlPlane \<Rightarrow> bool" where
  "cp_inv cp \<longleftrightarrow> (\<forall>i s. cp_states cp i = Some s \<longrightarrow>
     rp_request_id (ls_plan s) = i \<and> wf_lifecycle s \<and> on_layout (cp_group_layout cp) s)"

section \<open>Constructor lemmas\<close>

lemma check_matches_Inr:
  "check_matches queries rs prev ms = Inr () \<longleftrightarrow>
     (\<forall>m\<in>set ms. vm_target m \<in> set queries \<and> token_ids (vm_target m) = rec_token_ids (vm_record m) \<and>
        query_fingerprint (vm_candidate m) = rec_fingerprint (vm_record m)) \<and>
     (\<forall>m\<in>set ms. \<forall>r\<in>set rs. \<not> overlaps (token_range (vm_target m)) r) \<and>
     sorted_wrt (\<lambda>a b. \<not> overlaps (token_range (vm_target b)) (token_range (vm_target a))) ms \<and>
     sorted ((case prev of None \<Rightarrow> [] | Some k \<Rightarrow> [k]) @ map (\<lambda>m. segment_sort_key (vm_target m)) ms)"
proof (induction ms arbitrary: rs prev)
  case Nil
  then show ?case by (simp split: option.splits)
next
  case (Cons m ms)
  show ?case
  proof (cases "vm_target m \<in> set queries \<and> token_ids (vm_target m) = rec_token_ids (vm_record m) \<and>
      query_fingerprint (vm_candidate m) = rec_fingerprint (vm_record m)")
    case False
    then show ?thesis by (auto simp: Let_def)
  next
    case True
    then show ?thesis
      by (cases prev) (auto simp: Let_def Cons.IH not_less dest: order_trans)
  qed
qed

lemma RequestPlan_init_Inr:
  assumes "RequestPlan_init i n qs mp = Inr p" "\<forall>q\<in>set qs. wf_segment q"
  shows "wf_request_plan p \<and> rp_request_id p = i \<and> rp_prompt_tokens p = n \<and>
    rp_query_segments p = sort_key segment_sort_key qs \<and> rp_match_plan p = mp"
  using assms by (auto simp: RequestPlan_init_def Let_def result_simps check_matches_Inr wf_request_plan_def
      not_less split: if_splits)

lemma RequestAllocation_init_Inr:
  "RequestAllocation_init i g b e = Inr a \<longleftrightarrow>
     al_request_id a = i \<and> al_generation a = g \<and> al_grouped_blocks a = b \<and>
     al_external_scheduler_tokens a = 0 \<and> e = PInt 0 \<and> i \<noteq> [] \<and> 0 \<le> g"
  by (cases a; cases e) (auto simp: RequestAllocation_init_def FULL_RECOMPUTE_EXTERNAL_TOKENS_def)

lemma RequestHandoffMetadata_init_Inr:
  "RequestHandoffMetadata_init v p a = Inr h \<longleftrightarrow>
     h = \<lparr>hm_schema_version = v, hm_plan = p, hm_allocation = a\<rparr> \<and> v = METADATA_SCHEMA_VERSION \<and>
     rp_request_id p = al_request_id a \<and> al_external_scheduler_tokens a = 0"
  by (auto simp: RequestHandoffMetadata_init_def plan_external_scheduler_tokens_def
      FULL_RECOMPUTE_EXTERNAL_TOKENS_def)

lemma distinct_map_the_int:
  assumes "\<forall>v\<in>set vs. nonneg_int v"
  shows "distinct (map the_int vs) = distinct vs"
proof -
  have "inj_on the_int (set vs)" using assms unfolding inj_on_def nonneg_int_iff by (metis the_int.simps(1))
  then show ?thesis by (simp add: distinct_map)
qed

lemma GroupBlockSnapshot_init_Inr:
  "GroupBlockSnapshot_init k names blocks = Inr g \<longleftrightarrow>
     g = \<lparr>gb_group_index = k, gb_layer_names = names, gb_block_ids = map the_int blocks\<rparr> \<and>
     0 \<le> k \<and> names \<noteq> [] \<and> [] \<notin> set names \<and> list_all nonneg_int blocks \<and> distinct blocks"
  by (auto simp: GroupBlockSnapshot_init_def list_all_iff)

lemma check_group_snapshots_Inr:
  "check_group_snapshots names k gs = Inr () \<longleftrightarrow>
     (\<forall>j<length gs. gb_group_index (gs ! j) = int (k + j) \<and> gb_layer_names (gs ! j) = names ! (k + j))"
proof (induction gs arbitrary: k)
  case (Cons g gs)
  show ?case unfolding check_group_snapshots.simps if_Inl_eq_Inr Cons.IH length_Cons
    by (subst All_less_Suc2) auto
qed simp

lemma capture_Inr:
  "capture layout blocks = Inr a \<longleftrightarrow>
     length blocks = group_count layout \<and> list_all (\<lambda>bs. list_all nonneg_int bs \<and> distinct bs) blocks \<and>
     list_all (\<lambda>names. names \<noteq> [] \<and> [] \<notin> set names) (layer_names_by_group layout) \<and>
     a = \<lparr>ga_group_layout = layout,
          ga_groups = map (\<lambda>(i, bs). \<lparr>gb_group_index = int i, gb_layer_names = layer_names_by_group layout ! i,
            gb_block_ids = map the_int bs\<rparr>) (List.enumerate 0 blocks)\<rparr>"
  (is "_ \<longleftrightarrow> _ \<and> _ \<and> _ \<and> a = \<lparr>ga_group_layout = layout, ga_groups = ?gs\<rparr>")
proof (cases "length blocks = group_count layout")
  case True
  have "rmap (\<lambda>(i, bs). GroupBlockSnapshot_init (int i) (layer_names_by_group layout ! i) bs)
        (List.enumerate 0 blocks) = Inr gs \<longleftrightarrow>
      gs = ?gs \<and> list_all (\<lambda>bs. list_all nonneg_int bs \<and> distinct bs) blocks \<and>
      list_all (\<lambda>names. names \<noteq> [] \<and> [] \<notin> set names) (layer_names_by_group layout)" for gs
    using True unfolding rmap_Inr list_all2_conv_all_nth list_all_length
    by (auto simp: nth_enumerate_eq GroupBlockSnapshot_init_Inr group_count_def list_all_length intro!: nth_equalityI)
  moreover have "GroupedBlockAllocation_init layout ?gs = Inr \<lparr>ga_group_layout = layout, ga_groups = ?gs\<rparr>"
    using True check_group_snapshots_Inr [of "layer_names_by_group layout" 0 ?gs]
    by (auto simp: GroupedBlockAllocation_init_def nth_enumerate_eq)
  ultimately show ?thesis using True by (auto simp: capture_def result_simps)
qed (simp add: capture_def)

lemma capture_wf:
  assumes "capture layout blocks = Inr a"
  shows "wf_blocks a \<and> ga_group_layout a = layout \<and> block_ids_by_group a = map (map the_int) blocks"
proof -
  note a = assms [unfolded capture_Inr group_count_def]
  have "map gb_layer_names (ga_groups a) = layer_names_by_group layout"
    using a by (auto simp: nth_enumerate_eq intro!: nth_equalityI)
  moreover have ids: "map gb_block_ids (ga_groups a) = map (map the_int) blocks"
    using a by (auto simp: nth_enumerate_eq intro!: nth_equalityI)
  moreover have "\<forall>bs\<in>set (map (map the_int) blocks). distinct bs \<and> (\<forall>b\<in>set bs. 0 \<le> b)"
    using a by (fastforce simp: list_all_iff distinct_map_the_int nonneg_int_iff)
  then have "\<forall>g\<in>set (ga_groups a). distinct (gb_block_ids g) \<and> (\<forall>b\<in>set (gb_block_ids g). 0 \<le> b)"
    unfolding ids [symmetric] by simp
  ultimately show ?thesis using a by (simp add: wf_blocks_def block_ids_by_group_def)
qed

lemma normalize_match_indexes_Inr:
  "normalize_match_indexes vs = Inr is \<longleftrightarrow>
     is = sort (map the_int vs) \<and> list_all nonneg_int vs \<and> distinct vs"
  by (auto simp: normalize_match_indexes_def list_all_iff)

lemma WorkerValidationReceipt_init_Inr:
  assumes "WorkerValidationReceipt_init i a loaded rejected = Inr w"
  shows "wf_receipt w \<and> wr_request_id w = i \<and> wr_allocation w = a \<and>
    set (wr_loaded w) = the_int ` set loaded \<and> set (wr_rejected w) = the_int ` set rejected"
proof -
  have "distinct (sort (map the_int vs))" if "list_all nonneg_int vs" "distinct vs" for vs
    using that distinct_map_the_int [of vs] by (simp add: list_all_iff)
  then show ?thesis using assms
    by (auto simp: WorkerValidationReceipt_init_def result_simps normalize_match_indexes_Inr wf_receipt_def
        split: if_splits)
qed

lemma RequestLifecycleState_init_Inr [init_simps]:
  "RequestLifecycleState_init s = Inr t \<longleftrightarrow> t = s \<and> phase_consistent s"
  by (cases "ls_phase s") (auto simp: RequestLifecycleState_init_def phase_consistent_def not_less
      split: if_splits option.splits)

section \<open>Transitions of one request\<close>

text \<open>
  The contract every lifecycle method keeps: the plan is never touched, the allocation generation
  never goes back, well-formedness survives, and repeating a call that succeeded changes nothing.
\<close>

locale lifecycle_transition =
  fixes step :: "'a \<Rightarrow> RequestLifecycleState \<Rightarrow> ControlPlaneErrorCode + RequestLifecycleState"
    and arg_ok :: "'a \<Rightarrow> bool" and fits :: "CacheGroupLayout \<Rightarrow> 'a \<Rightarrow> bool"
  assumes step_wf: "arg_ok x \<Longrightarrow> wf_lifecycle s \<Longrightarrow> step x s = Inr t \<Longrightarrow> wf_lifecycle t"
    and step_plan: "step x s = Inr t \<Longrightarrow> ls_plan t = ls_plan s"
    and step_generation: "step x s = Inr t \<Longrightarrow> ls_generation s \<le> ls_generation t"
    and step_layout: "fits layout x \<Longrightarrow> on_layout layout s \<Longrightarrow> step x s = Inr t \<Longrightarrow> on_layout layout t"
    and step_repeat: "wf_lifecycle s \<Longrightarrow> arg_ok x \<Longrightarrow> step x s = Inr t \<Longrightarrow> step x t = Inr t"
begin

lemma step_facts:
  "arg_ok x \<Longrightarrow> step x s = Inr t \<Longrightarrow>
     ls_plan t = ls_plan s \<and> ls_generation s \<le> ls_generation t \<and> (wf_lifecycle s \<longrightarrow> wf_lifecycle t)"
  using step_plan step_generation step_wf by blast

lemma owner_inv:
  assumes "cp_inv cp" "arg_ok x" "fits (cp_group_layout cp) x" "require_state cp i = Inr s" "step x s = Inr t"
  shows "cp_inv (store_state cp i t)"
proof -
  have "rp_request_id (ls_plan s) = i" "wf_lifecycle s" "on_layout (cp_group_layout cp) s"
    using assms(1,4) by (auto simp: cp_inv_def require_state_def split: option.splits)
  then show ?thesis using assms step_wf [OF assms(2) _ assms(5)] step_plan [OF assms(5)] step_layout
    by (auto simp: cp_inv_def)
qed

lemma owner_repeat:
  assumes "cp_inv cp" "arg_ok x" "require_state cp i = Inr s" "step x s = Inr t"
  shows "require_state (store_state cp i t) i = Inr t \<and> step x t = Inr t \<and>
    store_state (store_state cp i t) i t = store_state cp i t"
proof -
  have "wf_lifecycle s" using assms(1,3) by (auto simp: cp_inv_def require_state_def split: option.splits)
  then show ?thesis using step_repeat assms(2,4) by (simp add: require_state_def)
qed

end

lemmas transition_simps = result_simps init_simps wf_lifecycle_def RequestAllocation_init_Inr
  RequestHandoffMetadata_init_Inr wf_allocation_def wf_handoff_def FULL_RECOMPUTE_EXTERNAL_TOKENS_def

interpretation allocating: lifecycle_transition
  "\<lambda>(layout, blocks, external) s. state_allocate s layout blocks external" "\<lambda>_. True"
  "\<lambda>layout x. fst x = layout"
proof (unfold_locales, goal_cases)
  case (1 x s t)
  then show ?case
    by (cases x) (auto simp: state_allocate_def transition_simps phase_consistent_def
        dest!: capture_wf split: if_splits)
next
  case (4 layout x s t)
  then show ?case
    by (cases x) (auto simp: state_allocate_def result_simps init_simps RequestAllocation_init_Inr on_layout_def
        dest!: capture_wf split: if_splits)
qed (auto simp: state_allocate_def result_simps init_simps split: if_splits)

interpretation handing_off: lifecycle_transition "\<lambda>(_::unit) s. state_handoff s" "\<lambda>_. True" "\<lambda>_ _. True"
proof (unfold_locales, goal_cases)
  case (1 x s t)
  then show ?case
    by (cases "ls_phase s") (auto simp: state_handoff_def transition_simps phase_consistent_def
        split: if_splits option.splits)
qed (auto simp: state_handoff_def result_simps init_simps on_layout_def split: if_splits option.splits RequestPhase.splits)

interpretation validating: lifecycle_transition "\<lambda>w s. state_apply_worker_validation s w" wf_receipt
  "\<lambda>_ _. True"
proof (unfold_locales, goal_cases)
  case (1 x s t)
  then show ?case
    by (auto simp: state_apply_worker_validation_def transition_simps phase_consistent_def complete_receipt_def
        split: if_splits)
qed (auto simp: state_apply_worker_validation_def result_simps init_simps on_layout_def split: if_splits)

interpretation preempting: lifecycle_transition "\<lambda>(_::unit) s. state_preempt s" "\<lambda>_. True" "\<lambda>_ _. True"
proof (unfold_locales, goal_cases)
  case (1 x s t)
  then show ?case
    by (auto simp: state_preempt_def transition_simps phase_consistent_def split: if_splits)
qed (auto simp: state_preempt_def result_simps init_simps on_layout_def split: if_splits)

interpretation finishing: lifecycle_transition "\<lambda>(_::unit) s. state_finish s" "\<lambda>_. True" "\<lambda>_ _. True"
proof (unfold_locales, goal_cases)
  case (1 x s t)
  then show ?case
    by (auto simp: state_finish_def transition_simps phase_consistent_def split: if_splits)
qed (auto simp: state_finish_def result_simps init_simps on_layout_def split: if_splits)

section \<open>Step relations\<close>

text \<open>
  One successful method call on a request.  Receipts handed to the scheduler are values of the
  validating constructor.
\<close>

inductive lifecycle_step :: "RequestLifecycleState \<Rightarrow> RequestLifecycleState \<Rightarrow> bool" where
  allocate: "state_allocate s layout blocks external = Inr t \<Longrightarrow> lifecycle_step s t"
| handoff: "state_handoff s = Inr t \<Longrightarrow> lifecycle_step s t"
| validate: "wf_receipt w \<Longrightarrow> state_apply_worker_validation s w = Inr t \<Longrightarrow> lifecycle_step s t"
| preempt: "state_preempt s = Inr t \<Longrightarrow> lifecycle_step s t"
| finish: "state_finish s = Inr t \<Longrightarrow> lifecycle_step s t"

lemma lifecycle_step_facts:
  assumes "lifecycle_step s t"
  shows "ls_plan t = ls_plan s \<and> ls_generation s \<le> ls_generation t \<and> (wf_lifecycle s \<longrightarrow> wf_lifecycle t)"
  using assms
proof cases
  case (allocate layout blocks external)
  then show ?thesis using allocating.step_facts [where x = "(layout, blocks, external)"] by simp
next
  case handoff
  then show ?thesis using handing_off.step_facts by simp
next
  case (validate w)
  then show ?thesis using validating.step_facts by simp
next
  case preempt
  then show ?thesis using preempting.step_facts by simp
next
  case finish
  then show ?thesis using finishing.step_facts by simp
qed

lemma lifecycle_steps_facts:
  assumes "lifecycle_step\<^sup>*\<^sup>* s t"
  shows "ls_plan t = ls_plan s \<and> ls_generation s \<le> ls_generation t \<and> (wf_lifecycle s \<longrightarrow> wf_lifecycle t)"
  using assms by (induction rule: rtranclp_induct) (auto dest!: lifecycle_step_facts)

text \<open>One successful call on the owner, and the states it can reach from its construction.\<close>

inductive cp_step :: "RequestControlPlane \<Rightarrow> RequestControlPlane \<Rightarrow> bool" where
  lookup: "list_all wf_segment qs \<Longrightarrow> cp_lookup cp i n qs mp = Inr (cp', s) \<Longrightarrow> cp_step cp cp'"
| allocate: "cp_allocate cp i blocks external = Inr (cp', s) \<Longrightarrow> cp_step cp cp'"
| handoff: "cp_handoff cp i = Inr (cp', h) \<Longrightarrow> cp_step cp cp'"
| accept: "wf_handoff h \<Longrightarrow> cp_accept_handoff cp h = Inr (cp', s) \<Longrightarrow> cp_step cp cp'"
| validate: "cp_validate_worker cp i loaded rejected = Inr (cp', w) \<Longrightarrow> cp_step cp cp'"
| apply_receipt: "wf_receipt w \<Longrightarrow> cp_apply_worker_validation cp w = Inr (cp', s) \<Longrightarrow> cp_step cp cp'"
| preempt: "cp_preempt cp i = Inr (cp', s) \<Longrightarrow> cp_step cp cp'"
| finish: "cp_finish cp i = Inr (cp', s) \<Longrightarrow> cp_step cp cp'"
| discard: "cp_discard cp i = (cp', r) \<Longrightarrow> cp_step cp cp'"

inductive cp_reachable :: "CacheGroupLayout \<Rightarrow> RequestControlPlane \<Rightarrow> bool" where
  start: "cp_reachable layout (RequestControlPlane_init layout)"
| step: "cp_reachable layout cp \<Longrightarrow> cp_step cp cp' \<Longrightarrow> cp_reachable layout cp'"

lemma require_state_Inr: "require_state cp i = Inr s \<longleftrightarrow> cp_states cp i = Some s"
  by (auto simp: require_state_def split: option.splits)

lemma cp_inv_store:
  "cp_inv cp \<Longrightarrow> rp_request_id (ls_plan s) = i \<Longrightarrow> wf_lifecycle s \<Longrightarrow> on_layout (cp_group_layout cp) s \<Longrightarrow>
     cp_inv (store_state cp i s)"
  by (auto simp: cp_inv_def)

lemma cp_inv_stored:
  "cp_inv (store_state cp i s) \<Longrightarrow> rp_request_id (ls_plan s) = i \<and> wf_lifecycle s \<and> on_layout (cp_group_layout cp) s"
  unfolding cp_inv_def by (drule spec [of _ i], drule spec [of _ s]) simp

lemma cp_lookup_inv:
  assumes "cp_inv cp" "list_all wf_segment qs" "cp_lookup cp i n qs mp = Inr (cp', s)"
  shows "cp_inv cp'"
proof -
  obtain p where p: "RequestPlan_init i n qs mp = Inr p" using assms(3) by (auto simp: cp_lookup_def result_simps)
  then have "wf_request_plan p" "rp_request_id p = i"
    using RequestPlan_init_Inr [OF p] assms(2) by (auto simp: list_all_iff)
  then have "cp_inv (store_state cp i (looked_up_state p))"
    using assms(1) by (intro cp_inv_store) (auto simp: wf_lifecycle_def phase_consistent_def looked_up_state_def on_layout_def)
  then show ?thesis using assms p
    by (auto simp: cp_lookup_def result_simps init_simps split: option.splits if_splits)
qed

lemma from_handoff_Inr:
  assumes "from_handoff h layout = Inr s" "wf_handoff h"
  shows "wf_lifecycle s \<and> ls_plan s = hm_plan h \<and> ls_phase s = HANDED_OFF \<and>
    ls_allocation s = Some (hm_allocation h) \<and> on_layout layout s"
  using assms by (auto simp: from_handoff_def on_layout_def init_simps wf_lifecycle_def wf_handoff_def split: if_splits)

lemma cp_accept_inv:
  assumes "cp_inv cp" "wf_handoff h" "cp_accept_handoff cp h = Inr (cp', s)"
  shows "cp_inv cp'"
proof (cases "cp_states cp (rp_request_id (hm_plan h))")
  case None
  then have "from_handoff h (cp_group_layout cp) = Inr s" "cp' = store_state cp (rp_request_id (hm_plan h)) s"
    using assms(3) by (auto simp: cp_accept_handoff_def Let_def result_simps)
  then show ?thesis using from_handoff_Inr [OF _ assms(2)] cp_inv_store [OF assms(1)] by metis
qed (use assms in \<open>auto simp: cp_accept_handoff_def Let_def split: if_splits\<close>)

lemma cp_step_inv: "cp_step cp cp' \<Longrightarrow> cp_inv cp \<Longrightarrow> cp_inv cp'"
proof (induction rule: cp_step.induct)
  case (allocate cp i blocks external cp' s)
  then show ?case using allocating.owner_inv [where x = "(cp_group_layout cp, blocks, external)"]
    by (auto simp: cp_allocate_def result_simps)
next
  case (validate cp i loaded rejected cp' w)
  then show ?case using validating.owner_inv [where x = w]
    by (auto simp: cp_validate_worker_def result_simps split: option.splits dest!: WorkerValidationReceipt_init_Inr)
next
  case (discard cp i cp' r)
  then show ?case by (auto simp: cp_discard_def cp_inv_def split: if_splits)
qed (auto simp: cp_handoff_def cp_apply_worker_validation_def cp_preempt_def cp_finish_def result_simps
      dest: cp_lookup_inv cp_accept_inv handing_off.owner_inv validating.owner_inv preempting.owner_inv
        finishing.owner_inv split: option.splits)

lemma cp_step_layout: "cp_step cp cp' \<Longrightarrow> cp_group_layout cp' = cp_group_layout cp"
  by (induction rule: cp_step.induct)
    (auto simp: cp_lookup_def cp_allocate_def cp_handoff_def cp_accept_handoff_def cp_validate_worker_def
      cp_apply_worker_validation_def cp_preempt_def cp_finish_def cp_discard_def result_simps Let_def
      split: option.splits if_splits)

lemma cp_reachable_inv: "cp_reachable layout cp \<Longrightarrow> cp_inv cp \<and> cp_group_layout cp = layout"
proof (induction rule: cp_reachable.induct)
  case (start layout)
  then show ?case by (simp add: cp_inv_def RequestControlPlane_init_def)
qed (auto dest: cp_step_inv cp_step_layout)

section \<open>Accounting\<close>

lemma covered_token_count_card:
  "\<forall>q\<in>set qs. wf_segment q \<Longrightarrow>
     covered_token_count qs = int (card (\<Union>q\<in>set qs. range_set (token_range q)))"
  using covered_range_count_card [of "map token_range qs"]
  by (auto simp: covered_token_count_def wf_segment_def)

lemma covered_token_count_mono:
  assumes "set rs \<subseteq> set qs" "\<forall>q\<in>set qs. wf_segment q"
  shows "covered_token_count rs \<le> covered_token_count qs"
proof -
  have "card (\<Union>q\<in>set rs. range_set (token_range q)) \<le> card (\<Union>q\<in>set qs. range_set (token_range q))"
    using assms(1) by (intro card_mono) auto
  then show ?thesis using assms by (subst (1 2) covered_token_count_card) auto
qed

lemma covered_token_count_prompt:
  assumes "\<forall>q\<in>set qs. wf_segment q \<and> tr_end (token_range q) \<le> n" "0 \<le> n"
  shows "covered_token_count qs \<le> n"
proof -
  have "card (\<Union>q\<in>set qs. range_set (token_range q)) \<le> card {0..<n}"
    using assms(1) by (intro card_mono) (fastforce simp: range_set_def wf_segment_def wf_range_def)+
  then show ?thesis using assms covered_token_count_card [of qs] by auto
qed

lemma loaded_tokens_le:
  assumes "distinct is" "set is \<subseteq> set (map int [0..<length ms])" "\<forall>m\<in>set ms. wf_segment (vm_target m)"
    "sorted_wrt (\<lambda>a b. \<not> overlaps (token_range (vm_target b)) (token_range (vm_target a))) ms"
  shows "sum_list (map (\<lambda>i. segment_len (vm_target (ms ! nat i))) is) \<le> covered_token_count (map vm_target ms)"
proof -
  let ?f = "\<lambda>i. segment_len (vm_target (ms ! nat i))"
  have "sum_list (map ?f is) = sum ?f (set is)" using assms(1) by (simp add: sum_list_distinct_conv_sum_set)
  also have "\<dots> \<le> sum ?f (set (map int [0..<length ms]))"
    using assms(2) by (intro sum_mono2) (auto simp: segment_len_def)
  also have "\<dots> = sum_list (map ?f (map int [0..<length ms]))"
    by (rule sum.distinct_set_conv_list) (simp add: distinct_map inj_on_def)
  also have "map ?f (map int [0..<length ms]) = map (\<lambda>m. segment_len (vm_target m)) ms"
    by (rule nth_equalityI) auto
  finally show ?thesis using matched_card [OF assms(4,3)] covered_token_count_card [of "map vm_target ms"] assms(3)
    by simp
qed

lemma complete_receipt_count:
  assumes "complete_receipt p w"
  shows "length (wr_loaded w) + length (wr_rejected w) = length (matches (rp_match_plan p))"
proof -
  have "card (set (wr_loaded w) \<union> set (wr_rejected w)) = card (set (map int [0..<length (matches (rp_match_plan p))]))"
    using assms by (simp add: complete_receipt_def)
  moreover have "card (set (wr_loaded w) \<union> set (wr_rejected w)) = length (wr_loaded w) + length (wr_rejected w)"
    using assms unfolding complete_receipt_def wf_receipt_def
    by (subst card_Un_disjoint) (auto simp: distinct_card)
  ultimately show ?thesis by (simp add: card_image)
qed

lemma derive_metric_counters_ok:
  assumes "wf_lifecycle s" "ls_phase s = WORKER_VALIDATED \<or> ls_phase s = FINISHED"
  obtains hits found loaded where
    "derive_metric_counters s = Inr (int_counters (rp_prompt_tokens (ls_plan s))
       (int (length (rp_query_segments (ls_plan s)))) hits (requested_tokens (rp_match_plan (ls_plan s)))
       found loaded (found - loaded) (rp_prompt_tokens (ls_plan s)) 0)"
    "reconciled (rp_prompt_tokens (ls_plan s)) (int (length (rp_query_segments (ls_plan s)))) hits
       (requested_tokens (rp_match_plan (ls_plan s))) found loaded (found - loaded) (rp_prompt_tokens (ls_plan s)) 0"
proof -
  let ?p = "ls_plan s" let ?ms = "matches (rp_match_plan ?p)"
  let ?ts = "map vm_target ?ms @ map (\<lambda>r. target_segment (rj_candidate r)) (rejected_candidates (rp_match_plan ?p))"
  from assms obtain w where w: "ls_worker s = Some w" and c: "complete_receipt ?p w"
    unfolding wf_lifecycle_def phase_consistent_def by auto
  have p: "wf_request_plan ?p" using assms(1) by (simp add: wf_lifecycle_def)
  let ?loaded = "sum_list (map (\<lambda>i. segment_len (vm_target (?ms ! nat i))) (wr_loaded w))"
  have sub: "set ?ts \<subseteq> set (rp_query_segments ?p)" using p by (auto simp: wf_request_plan_def)
  have wf: "\<forall>q\<in>set (rp_query_segments ?p). wf_segment q" using p by (simp add: wf_request_plan_def)
  have "?loaded \<le> covered_token_count (map vm_target ?ms)"
    using c p sub wf by (intro loaded_tokens_le) (auto simp: complete_receipt_def wf_receipt_def wf_request_plan_def)
  also have "\<dots> \<le> covered_token_count ?ts" using sub wf by (intro covered_token_count_mono) auto
  finally have l: "?loaded \<le> covered_token_count ?ts" .
  have r: "covered_token_count ?ts \<le> requested_tokens (rp_match_plan ?p)"
    using covered_token_count_mono [OF sub wf] p by (simp add: wf_request_plan_def)
  have n: "requested_tokens (rp_match_plan ?p) \<le> rp_prompt_tokens ?p"
    using covered_token_count_prompt [of "rp_query_segments ?p"] p by (simp add: wf_request_plan_def)
  have "0 \<le> ?loaded" by (rule sum_list_nonneg_int) (simp add: segment_len_def)
  then show thesis
    using assms(2) w l r n complete_receipt_count [OF c] p
    by (intro that) (auto simp: derive_metric_counters_def Let_def reconciled_def wf_request_plan_def)
qed

section \<open>A complete request\<close>

text \<open>
  The contract between the planner and the control plane: what \<open>plan\<close> returns for distinct
  well-formed queries inside the prompt passes every check of \<^verbatim>\<open>RequestPlan\<close>.
\<close>

lemma plan_matches_sorted:
  assumes "plan fp lookup n queries = Inr p" "\<forall>q\<in>set queries. wf_segment q"
  shows "sorted (map (\<lambda>m. segment_sort_key (vm_target m)) (matches p))"
proof -
  have "sorted_wrt (\<lambda>a b. segment_sort_key (vm_target a) \<le> segment_sort_key (vm_target b)) (matches p)"
    using plan_matches_disjoint [OF assms]
  proof (rule sorted_wrt_mono_rel [rotated])
    fix a b
    assume "a \<in> set (matches p)" "tr_end (token_range (vm_target a)) \<le> tr_start (token_range (vm_target b))"
    then show "segment_sort_key (vm_target a) \<le> segment_sort_key (vm_target b)"
      using wf_segment_nonempty [OF plan_target_wf [OF assms, of a]] by (auto simp: segment_sort_key_def)
  qed
  then show ?thesis by (simp add: sorted_wrt_map)
qed

lemma plan_rejected_query:
  assumes "plan fp lookup n queries = Inr p" "r \<in> set (rejected_candidates p)"
  shows "target_segment (rj_candidate r) \<in> set queries"
proof -
  from assms(1) obtain cs vs sel where cs: "query_candidates fp lookup n queries = Inr cs"
    and vs: "vs = filter (\<lambda>c. verify_candidate fp n c = None) cs"
    and rj: "rejected_candidates p = reject_unverified fp n cs @
       map (\<lambda>(i, c). \<lparr>rj_candidate = c, rj_reason = OVERLAPS_SELECTED_MATCH\<rparr>)
         (filter (\<lambda>(i, c). i \<notin> sel) (List.enumerate 0 vs))" by (rule plan_Inr)
  have "rj_candidate r \<in> set cs"
    using assms(2) unfolding rj vs
    by (auto simp: reject_unverified_def List.map_filter_def in_set_enumerate_eq split: option.splits)
      (metis (no_types, lifting) filter_is_subset nth_mem subsetD)
  then show ?thesis using query_candidates_Inr [OF cs] by auto
qed

lemma planner_plan_accepted:
  assumes "plan fp lookup n queries = Inr mp" "i \<noteq> []" "distinct queries"
    "\<forall>q\<in>set queries. wf_segment q \<and> tr_end (token_range q) \<le> prompt" "0 \<le> prompt"
  shows "RequestPlan_init i prompt queries mp = Inr \<lparr>rp_request_id = i, rp_prompt_tokens = prompt,
    rp_query_segments = sort_key segment_sort_key queries, rp_match_plan = mp\<rparr>"
proof -
  have wf: "\<forall>q\<in>set queries. wf_segment q" using assms(4) by simp
  have m: "\<forall>m\<in>set (matches mp). vm_target m \<in> set queries \<and> token_ids (vm_target m) = rec_token_ids (vm_record m) \<and>
      query_fingerprint (vm_candidate m) = rec_fingerprint (vm_record m)"
    using plan_match_verified [OF assms(1)] unfolding verify_candidate_None by metis
  have "requested_tokens mp = covered_token_count (sort_key segment_sort_key queries)"
    using plan_requested [OF assms(1) wf] wf covered_token_count_card [of "sort_key segment_sort_key queries"] by simp
  moreover have "0 \<le> matched_tokens mp" "matched_tokens mp \<le> requested_tokens mp"
    using plan_matched [OF assms(1) wf] plan_matched_le [OF assms(1) wf] by simp_all
  moreover have "check_matches (sort_key segment_sort_key queries) [] None (matches mp) = Inr ()"
    unfolding check_matches_Inr
    using plan_matches_no_overlap [OF assms(1) wf] plan_matches_sorted [OF assms(1) wf] m by simp
  ultimately show ?thesis using assms plan_rejected_query [OF assms(1)]
    by (auto simp: RequestPlan_init_def Let_def not_less)
qed

text \<open>Each owner call of an undisturbed request, from the state the previous one stored.\<close>

definition allocated_state :: "RequestPlan \<Rightarrow> GroupedBlockAllocation \<Rightarrow> RequestLifecycleState" where
  "allocated_state p g = (looked_up_state p)\<lparr>ls_phase := ALLOCATED, ls_allocation := Some
     \<lparr>al_request_id = rp_request_id p, al_generation = 0, al_grouped_blocks = g, al_external_scheduler_tokens = 0\<rparr>\<rparr>"

definition handed_off_state :: "RequestPlan \<Rightarrow> GroupedBlockAllocation \<Rightarrow> RequestLifecycleState" where
  "handed_off_state p g = (allocated_state p g)\<lparr>ls_phase := HANDED_OFF, ls_handoff := Some
     \<lparr>hm_schema_version = METADATA_SCHEMA_VERSION, hm_plan = p, hm_allocation = the (ls_allocation (allocated_state p g))\<rparr>\<rparr>"

lemmas stage_defs = allocated_state_def handed_off_state_def looked_up_state_def phase_consistent_def

lemma cp_allocate_looked_up:
  assumes "cp_states cp i = Some (looked_up_state p)" "rp_request_id p = i" "i \<noteq> []"
    "capture (cp_group_layout cp) blocks = Inr g"
  shows "cp_allocate cp i blocks (PInt 0) = Inr (store_state cp i (allocated_state p g), allocated_state p g)"
  using assms by (simp add: cp_allocate_def require_state_def state_allocate_def RequestAllocation_init_def
      RequestLifecycleState_init_def FULL_RECOMPUTE_EXTERNAL_TOKENS_def stage_defs)

lemma cp_handoff_allocated:
  assumes "cp_states cp i = Some (allocated_state p g)" "rp_request_id p = i"
  shows "cp_handoff cp i = Inr (store_state cp i (handed_off_state p g), the (ls_handoff (handed_off_state p g)))"
  using assms by (simp add: cp_handoff_def require_state_def state_handoff_def RequestHandoffMetadata_init_def
      RequestLifecycleState_init_def FULL_RECOMPUTE_EXTERNAL_TOKENS_def plan_external_scheduler_tokens_def stage_defs)

lemma WorkerValidationReceipt_init_ints:
  assumes "distinct (loaded @ rejected)" "\<forall>k\<in>set (loaded @ rejected). 0 \<le> k"
  shows "WorkerValidationReceipt_init (al_request_id a) a (map PInt loaded) (map PInt rejected) =
    Inr \<lparr>wr_request_id = al_request_id a, wr_allocation = a, wr_loaded = sort loaded, wr_rejected = sort rejected\<rparr>"
  using assms by (auto simp: WorkerValidationReceipt_init_def normalize_match_indexes_def o_def distinct_map inj_on_def)

lemma cp_validate_handed_off:
  assumes "cp_states cp i = Some s" "ls_phase s = HANDED_OFF" "wf_lifecycle s" "rp_request_id (ls_plan s) = i"
    "distinct (loaded @ rejected)"
    "set (loaded @ rejected) = set (map int [0..<length (matches (rp_match_plan (ls_plan s)))])"
  shows "\<exists>w. cp_validate_worker cp i (map PInt loaded) (map PInt rejected) =
    Inr (store_state cp i (s\<lparr>ls_phase := WORKER_VALIDATED, ls_worker := Some w\<rparr>), w) \<and>
    ls_allocation s = Some (wr_allocation w)"
proof -
  obtain a where a: "ls_allocation s = Some a" "al_request_id a = i" "al_generation a = ls_generation s"
    using assms(2,3,4) by (auto simp: wf_lifecycle_def phase_consistent_def)
  let ?w = "\<lparr>wr_request_id = i, wr_allocation = a, wr_loaded = sort loaded, wr_rejected = sort rejected\<rparr>"
  have "\<forall>k\<in>set (loaded @ rejected). 0 \<le> k" unfolding assms(6) by auto
  note w = WorkerValidationReceipt_init_ints [OF assms(5) this, of a, unfolded a]
  have "state_apply_worker_validation s ?w = Inr (s\<lparr>ls_phase := WORKER_VALIDATED, ls_worker := Some ?w\<rparr>)"
    using a assms(2,3,4,6) by (auto simp: state_apply_worker_validation_def init_simps wf_lifecycle_def phase_consistent_def)
  then show ?thesis using assms(1) a w by (auto simp: cp_validate_worker_def require_state_def)
qed

lemma cp_finish_validated:
  assumes "cp_states cp i = Some s" "ls_phase s = WORKER_VALIDATED" "phase_consistent s"
  shows "cp_finish cp i = Inr (store_state cp i (s\<lparr>ls_phase := FINISHED\<rparr>), s\<lparr>ls_phase := FINISHED\<rparr>)"
  using assms by (auto simp: cp_finish_def require_state_def state_finish_def init_simps phase_consistent_def
      result_simps)

lemma request_pipeline:
  assumes "RequestPlan_init i prompt queries mp = Inr p" "list_all wf_segment queries" "cp_inv cp"
    "cp_states cp i = None" "capture (cp_group_layout cp) blocks = Inr g"
    "distinct (loaded @ rejected)" "set (loaded @ rejected) = set (map int [0..<length (matches mp)])"
  shows "\<exists>c1 s1 c2 s2 c3 h c4 w c5 s5.
    cp_lookup cp i prompt queries mp = Inr (c1, s1) \<and> cp_allocate c1 i blocks (PInt 0) = Inr (c2, s2) \<and>
    cp_handoff c2 i = Inr (c3, h) \<and> cp_validate_worker c3 i (map PInt loaded) (map PInt rejected) = Inr (c4, w) \<and>
    cp_finish c4 i = Inr (c5, s5) \<and> ls_phase s5 = FINISHED \<and> cp_states c5 i = Some s5 \<and>
    map gb_block_ids (ga_groups (al_grouped_blocks (the (ls_allocation s5)))) = map (map the_int) blocks"
proof -
  have p: "rp_request_id p = i" "rp_match_plan p = mp" "wf_request_plan p"
    using RequestPlan_init_Inr [OF assms(1)] assms(2) by (auto simp: list_all_iff)
  then have i: "i \<noteq> []" by (auto simp: wf_request_plan_def)
  define c1 where "c1 = store_state cp i (looked_up_state p)"
  have 1: "cp_lookup cp i prompt queries mp = Inr (c1, looked_up_state p)"
    using assms(1,4) by (simp add: cp_lookup_def c1_def RequestLifecycleState_init_def looked_up_state_def)
  define c2 where "c2 = store_state c1 i (allocated_state p g)"
  have 2: "cp_allocate c1 i blocks (PInt 0) = Inr (c2, allocated_state p g)"
    using cp_allocate_looked_up [of c1 i p blocks g] p(1) i assms(5) by (simp add: c1_def c2_def)
  define c3 where "c3 = store_state c2 i (handed_off_state p g)"
  obtain h where 3: "cp_handoff c2 i = Inr (c3, h)"
    using cp_handoff_allocated [of c2 i p g] p(1) by (simp add: c2_def c3_def)
  have "cp_inv c1" using cp_lookup_inv [OF assms(3,2) 1] .
  then have "cp_inv c3" using cp_step_inv cp_step.allocate [OF 2] cp_step.handoff [OF 3] by blast
  then have wf: "wf_lifecycle (handed_off_state p g)" unfolding c3_def by (blast dest: cp_inv_stored)
  have st: "ls_phase (handed_off_state p g) = HANDED_OFF" "ls_plan (handed_off_state p g) = p"
    "ls_allocation (handed_off_state p g) = Some \<lparr>al_request_id = i, al_generation = 0,
       al_grouped_blocks = g, al_external_scheduler_tokens = 0\<rparr>"
    using p by (simp_all add: handed_off_state_def allocated_state_def looked_up_state_def)
  obtain w where 4: "cp_validate_worker c3 i (map PInt loaded) (map PInt rejected) =
      Inr (store_state c3 i ((handed_off_state p g)\<lparr>ls_phase := WORKER_VALIDATED, ls_worker := Some w\<rparr>), w)"
    "ls_allocation (handed_off_state p g) = Some (wr_allocation w)"
    using cp_validate_handed_off [of c3 i "handed_off_state p g" loaded rejected] wf st p assms(6,7)
    by (auto simp: c3_def)
  let ?s4 = "(handed_off_state p g)\<lparr>ls_phase := WORKER_VALIDATED, ls_worker := Some w\<rparr>"
  let ?c4 = "store_state c3 i ?s4"
  have "phase_consistent ?s4" using wf 4(2) st by (auto simp: wf_lifecycle_def phase_consistent_def)
  then have "cp_finish ?c4 i = Inr (store_state ?c4 i (?s4\<lparr>ls_phase := FINISHED\<rparr>), ?s4\<lparr>ls_phase := FINISHED\<rparr>)"
    by (intro cp_finish_validated) simp_all
  then show ?thesis using 1 2 3 4(1) st capture_wf [OF assms(5)] by (fastforce simp: block_ids_by_group_def)
qed

lemma cp_handoff_Inr:
  "cp_handoff cp i = Inr (cp', h) \<longleftrightarrow>
     (\<exists>s t. require_state cp i = Inr s \<and> state_handoff s = Inr t \<and> ls_handoff t = Some h \<and> cp' = store_state cp i t)"
  unfolding cp_handoff_def rbind_eq_Inr by (force split: option.splits)

lemma cp_handoff_stored:
  assumes "cp_inv cp" "cp_handoff cp i = Inr (cp', h)"
  shows "\<exists>t. cp' = store_state cp i t \<and> ls_handoff t = Some h \<and> hm_plan h = ls_plan t \<and>
    ls_allocation t = Some (hm_allocation h) \<and> wf_handoff h \<and> wf_lifecycle t \<and>
    rp_request_id (ls_plan t) = i \<and> on_layout (cp_group_layout cp) t"
proof -
  obtain s t where t: "state_handoff s = Inr t" "ls_handoff t = Some h" "cp' = store_state cp i t"
    using assms(2) unfolding cp_handoff_Inr by blast
  have "cp_inv cp'" using cp_step_inv [OF cp_step.handoff [OF assms(2)] assms(1)] .
  then have *: "wf_lifecycle t" "rp_request_id (ls_plan t) = i" "on_layout (cp_group_layout cp) t"
    using t(3) cp_inv_stored by auto
  then have "wf_handoff h" "hm_plan h = ls_plan t \<and> ls_allocation t = Some (hm_allocation h)"
    using t(2) unfolding wf_lifecycle_def phase_consistent_def by (auto split: if_splits)
  then show ?thesis using t * by blast
qed

lemma state_apply_transfer:
  assumes "state_apply_worker_validation s w = Inr s'" "ls_plan t = ls_plan s" "ls_allocation t = ls_allocation s"
    "ls_phase t = HANDED_OFF" "phase_consistent t" "phase_consistent s"
  shows "state_apply_worker_validation t w = Inr (t\<lparr>ls_phase := WORKER_VALIDATED, ls_worker := Some w\<rparr>)"
  using assms by (auto simp: state_apply_worker_validation_def init_simps phase_consistent_def split: if_splits)

section \<open>A concrete request\<close>

definition example_layout :: CacheGroupLayout where
  "example_layout = \<lparr>layer_names_by_group = [[''layers.0''], [''layers.1'']]\<rparr>"

definition example_blocks :: "pyval list list" where
  "example_blocks = [[PInt 7, PInt 3], [PInt 1]]"

definition example_allocation :: GroupedBlockAllocation where
  "example_allocation = \<lparr>ga_group_layout = example_layout, ga_groups =
     [\<lparr>gb_group_index = 0, gb_layer_names = [''layers.0''], gb_block_ids = [7, 3]\<rparr>,
      \<lparr>gb_group_index = 1, gb_layer_names = [''layers.1''], gb_block_ids = [1]\<rparr>]\<rparr>"

definition example_request :: RequestPlan where
  "example_request = \<lparr>rp_request_id = ''r'', rp_prompt_tokens = 6, rp_query_segments = [example_query],
     rp_match_plan = example_plan\<rparr>"

abbreviation example_cp :: "RequestLifecycleState \<Rightarrow> RequestControlPlane" where
  "example_cp s \<equiv> \<lparr>cp_group_layout = example_layout, cp_states = [''r'' \<mapsto> s]\<rparr>"

lemma example_capture: "capture example_layout example_blocks = Inr example_allocation"
  by (simp add: capture_Inr example_layout_def example_blocks_def example_allocation_def group_count_def)

lemma example_query_end: "list_all (\<lambda>q. wf_segment q \<and> tr_end (token_range q) \<le> 6) [example_query]"
  using wf_example_query by (simp add: example_query_def)

lemma example_request_eq: "RequestPlan_init ''r'' 6 [example_query] example_plan = Inr example_request"
  using planner_plan_accepted [OF example_plan_eq, of "''r''" 6] example_query_end by (simp add: example_request_def)

lemma example_looked_up: "cp_reachable example_layout (example_cp (looked_up_state example_request))"
proof (rule cp_reachable.step [OF cp_reachable.start cp_step.lookup])
  show "cp_lookup (RequestControlPlane_init example_layout) ''r'' 6 [example_query] example_plan =
      Inr (example_cp (looked_up_state example_request), looked_up_state example_request)"
    by (simp add: cp_lookup_def example_request_eq RequestControlPlane_init_def RequestLifecycleState_init_def
        looked_up_state_def)
qed simp

lemma example_allocate:
  "cp_allocate (example_cp (looked_up_state example_request)) ''r'' example_blocks (PInt 0) =
     Inr (example_cp (allocated_state example_request example_allocation), allocated_state example_request example_allocation)"
  by (subst cp_allocate_looked_up [where p = example_request and g = example_allocation])
    (simp_all add: example_capture, simp_all add: example_request_def)

lemma example_handoff:
  "cp_handoff (example_cp (allocated_state example_request example_allocation)) ''r'' =
     Inr (example_cp (handed_off_state example_request example_allocation),
          the (ls_handoff (handed_off_state example_request example_allocation)))"
  by (subst cp_handoff_allocated [where p = example_request and g = example_allocation])
    (simp_all add: example_request_def)

lemma example_allocated_reachable:
  "cp_reachable example_layout (example_cp (allocated_state example_request example_allocation))"
  using cp_reachable.step [OF example_looked_up cp_step.allocate [OF example_allocate]] .

lemma example_handed_off_reachable:
  "cp_reachable example_layout (example_cp (handed_off_state example_request example_allocation))"
  using cp_reachable.step [OF example_allocated_reachable cp_step.handoff [OF example_handoff]] .

definition example_receipt :: WorkerValidationReceipt where
  "example_receipt = \<lparr>wr_request_id = ''r'',
     wr_allocation = the (ls_allocation (allocated_state example_request example_allocation)),
     wr_loaded = [0], wr_rejected = []\<rparr>"

definition example_validated :: RequestLifecycleState where
  "example_validated = (handed_off_state example_request example_allocation)
     \<lparr>ls_phase := WORKER_VALIDATED, ls_worker := Some example_receipt\<rparr>"

lemma example_validated_reachable: "cp_reachable example_layout (example_cp example_validated)"
proof (rule cp_reachable.step [OF example_handed_off_reachable cp_step.apply_receipt])
  show "wf_receipt example_receipt"
    by (simp add: wf_receipt_def example_receipt_def allocated_state_def example_request_def)
  have "state_apply_worker_validation (handed_off_state example_request example_allocation) example_receipt =
      Inr example_validated"
    using conjunct1 [OF cp_reachable_inv [OF example_handed_off_reachable]]
    by (simp add: state_apply_worker_validation_def init_simps example_validated_def example_receipt_def
        handed_off_state_def allocated_state_def looked_up_state_def example_request_def example_plan_def
        phase_consistent_def)
  then show "cp_apply_worker_validation (example_cp (handed_off_state example_request example_allocation)) example_receipt =
      Inr (example_cp example_validated, example_validated)"
    by (simp add: cp_apply_worker_validation_def require_state_def example_receipt_def)
qed

section \<open>Properties\<close>

text \<open>
  C7. In every state the control plane can reach, whatever calls were made and in whatever order, a
  stored request is filed under its own identifier; its plan, allocation, handoff and worker
  receipt are present exactly in the phases that own them and agree with each other; the scheduler
  is credited zero external tokens and an allocation that claims any other credit is refused.
\<close>

theorem control_plane_consistent:
  assumes "cp_reachable layout cp" "cp_states cp i = Some s"
  shows "rp_request_id (ls_plan s) = i \<and> wf_lifecycle s \<and> on_layout layout s \<and>
    cp_external_scheduler_tokens cp i = Inr 0 \<and>
    (\<forall>blocks credit. credit \<noteq> PInt 0 \<longrightarrow> cp_allocate cp i blocks credit = Inl NONZERO_EXTERNAL_TOKENS)"
proof -
  have "\<not> is_plain_int c \<or> the_int c \<noteq> 0" if "c \<noteq> PInt 0" for c using that by (cases c) auto
  moreover have "cp_inv cp" "cp_group_layout cp = layout" using cp_reachable_inv [OF assms(1)] by auto
  ultimately show ?thesis using assms(2)
    by (auto simp: cp_inv_def cp_external_scheduler_tokens_def require_state_def cp_allocate_def state_allocate_def
        plan_external_scheduler_tokens_def FULL_RECOMPUTE_EXTERNAL_TOKENS_def)
qed

theorem control_plane_consistent_witness:
  "wf_lifecycle (handed_off_state example_request example_allocation) \<and>
   cp_external_scheduler_tokens (example_cp (handed_off_state example_request example_allocation)) ''r'' = Inr 0"
  using control_plane_consistent [OF example_handed_off_reachable, of "''r''"] by simp

text \<open>
  C9. A preemption invalidates every receipt issued before it: whatever successful calls follow, a
  receipt for the allocation that was live at the preemption is rejected as stale.
\<close>

theorem preempted_receipt_is_stale:
  assumes "wf_lifecycle s" "ls_allocation s = Some a" "state_preempt s = Inr t" "lifecycle_step\<^sup>*\<^sup>* t u"
    "wr_allocation w = a" "wr_request_id w = al_request_id a"
  shows "state_apply_worker_validation u w = Inl STALE_ALLOCATION"
proof -
  have a: "al_generation a = ls_generation s" "al_request_id a = rp_request_id (ls_plan s)"
    using assms(1,2) by (auto simp: wf_lifecycle_def phase_consistent_def)
  have "ls_phase s \<noteq> LOOKED_UP" using assms(1,2) by (auto simp: wf_lifecycle_def phase_consistent_def)
  then have "ls_generation t = ls_generation s + 1" "ls_plan t = ls_plan s"
    using assms(3) by (auto simp: state_preempt_def init_simps split: if_splits)
  then show ?thesis using lifecycle_steps_facts [OF assms(4)] assms(5,6) a
    by (simp add: state_apply_worker_validation_def)
qed

theorem preempted_receipt_is_stale_witness:
  "state_apply_worker_validation
     ((looked_up_state example_request)\<lparr>ls_generation := 1, ls_preemption_count := 1\<rparr>)
     \<lparr>wr_request_id = ''r'', wr_allocation = the (ls_allocation (allocated_state example_request example_allocation)),
      wr_loaded = [0], wr_rejected = []\<rparr> = Inl STALE_ALLOCATION"
proof (rule preempted_receipt_is_stale)
  show "wf_lifecycle (allocated_state example_request example_allocation)"
    using cp_reachable_inv [OF example_allocated_reachable] by (simp add: cp_inv_def)
  show "state_preempt (allocated_state example_request example_allocation) =
      Inr ((looked_up_state example_request)\<lparr>ls_generation := 1, ls_preemption_count := 1\<rparr>)"
    by (simp add: state_preempt_def RequestLifecycleState_init_def allocated_state_def looked_up_state_def)
  show "ls_allocation (allocated_state example_request example_allocation) =
      Some (the (ls_allocation (allocated_state example_request example_allocation)))"
    by (simp add: allocated_state_def)
qed (simp_all add: allocated_state_def example_request_def)

text \<open>
  C8. An undisturbed request always completes: a plan accepted at lookup, a block table per
  configured group, and a worker that disposes of every match once take the request through lookup,
  allocation, handoff, validation and finish without an error, and the finished request still holds
  the block identifiers in the order the scheduler gave them.
\<close>

theorem request_completes:
  assumes "plan fp lookup n queries = Inr mp" "i \<noteq> []" "distinct queries" "0 \<le> prompt"
    "list_all (\<lambda>q. wf_segment q \<and> tr_end (token_range q) \<le> prompt) queries"
    "cp_reachable layout cp" "cp_states cp i = None" "capture layout blocks = Inr g"
    "distinct (loaded @ rejected)" "set (loaded @ rejected) = set (map int [0..<length (matches mp)])"
  shows "\<exists>c1 s1 c2 s2 c3 h c4 w c5 s5.
    cp_lookup cp i prompt queries mp = Inr (c1, s1) \<and> cp_allocate c1 i blocks (PInt 0) = Inr (c2, s2) \<and>
    cp_handoff c2 i = Inr (c3, h) \<and> cp_validate_worker c3 i (map PInt loaded) (map PInt rejected) = Inr (c4, w) \<and>
    cp_finish c4 i = Inr (c5, s5) \<and> ls_phase s5 = FINISHED \<and> cp_states c5 i = Some s5 \<and>
    map gb_block_ids (ga_groups (al_grouped_blocks (the (ls_allocation s5)))) = map (map the_int) blocks"
proof (rule request_pipeline)
  show "RequestPlan_init i prompt queries mp = Inr \<lparr>rp_request_id = i, rp_prompt_tokens = prompt,
      rp_query_segments = sort_key segment_sort_key queries, rp_match_plan = mp\<rparr>"
    using assms(1-5) by (intro planner_plan_accepted) (auto simp: list_all_iff)
qed (use assms cp_reachable_inv [OF assms(6)] in \<open>auto simp: list_all_iff\<close>)

theorem request_completes_witness:
  "\<exists>c1 s1 c2 s2 c3 h c4 w c5 s5.
    cp_lookup (RequestControlPlane_init example_layout) ''r'' 6 [example_query] example_plan = Inr (c1, s1) \<and>
    cp_allocate c1 ''r'' example_blocks (PInt 0) = Inr (c2, s2) \<and> cp_handoff c2 ''r'' = Inr (c3, h) \<and>
    cp_validate_worker c3 ''r'' (map PInt [0]) (map PInt []) = Inr (c4, w) \<and>
    cp_finish c4 ''r'' = Inr (c5, s5) \<and> ls_phase s5 = FINISHED \<and> cp_states c5 ''r'' = Some s5 \<and>
    map gb_block_ids (ga_groups (al_grouped_blocks (the (ls_allocation s5)))) = map (map the_int) example_blocks"
  by (rule request_completes [OF example_plan_eq _ _ _ example_query_end cp_reachable.start _ example_capture])
    (simp_all add: RequestControlPlane_init_def example_plan_def)

text \<open>
  C10. Once the worker's result is recorded, the counters of a request can always be derived, the
  metrics validator finds no fault in them, and they claim no saved prefill: every prompt token
  counts as recomputed.
\<close>

theorem derived_counters_reconcile:
  assumes "cp_reachable layout cp" "cp_states cp i = Some s" "ls_phase s = WORKER_VALIDATED \<or> ls_phase s = FINISHED"
  shows "\<exists>c. derive_metric_counters s = Inr c \<and> mc_tokens_recomputed c = PInt (rp_prompt_tokens (ls_plan s)) \<and>
    mc_prefill_tokens_avoided c = PInt 0 \<and>
    (\<forall>t x. list_all (\<lambda>fv. valid_measure (snd fv)) (timer_fields t) \<and> list_all (\<lambda>fv. valid_measure (snd fv)) (error_fields x)
       \<longrightarrow> validate_request_metrics \<lparr>counters = c, timers = t, correctness = x\<rparr> = Inr [])"
proof -
  have "wf_lifecycle s" using cp_reachable_inv [OF assms(1)] assms(2) by (auto simp: cp_inv_def)
  from derive_metric_counters_ok [OF this assms(3)] obtain hits found loaded where
    d: "derive_metric_counters s = Inr (int_counters (rp_prompt_tokens (ls_plan s))
       (int (length (rp_query_segments (ls_plan s)))) hits (requested_tokens (rp_match_plan (ls_plan s)))
       found loaded (found - loaded) (rp_prompt_tokens (ls_plan s)) 0)" (is "_ = Inr ?c")
    and "reconciled (rp_prompt_tokens (ls_plan s)) (int (length (rp_query_segments (ls_plan s)))) hits
       (requested_tokens (rp_match_plan (ls_plan s))) found loaded (found - loaded) (rp_prompt_tokens (ls_plan s)) 0" .
  then have "validate_request_metrics \<lparr>counters = ?c, timers = t, correctness = x\<rparr> = Inr []"
    if "list_all (\<lambda>fv. valid_measure (snd fv)) (timer_fields t) \<and> list_all (\<lambda>fv. valid_measure (snd fv)) (error_fields x)" for t x
    using that by (intro reconciled_metrics_valid) auto
  then show ?thesis using d by (auto simp: int_counters_def)
qed

theorem derived_counters_reconcile_witness:
  "\<exists>c. derive_metric_counters example_validated = Inr c \<and> mc_tokens_recomputed c = PInt 6 \<and>
     mc_prefill_tokens_avoided c = PInt 0"
proof -
  have "rp_prompt_tokens (ls_plan example_validated) = 6" "ls_phase example_validated = WORKER_VALIDATED"
    by (simp_all add: example_validated_def handed_off_state_def allocated_state_def looked_up_state_def
        example_request_def)
  then show ?thesis using derived_counters_reconcile [OF example_validated_reachable, of "''r''" example_validated]
    by auto
qed

text \<open>
  Scheduler and worker agree across the process boundary: metadata handed off by a scheduler is
  accepted by a worker with the same group layout, and the receipt the worker then produces is
  accepted by the scheduler as long as the request is still handed off there.
\<close>

lemma handoff_round_trip:
  assumes "cp_reachable layout sched" "cp_reachable layout worker" "cp_handoff sched i = Inr (sched', h)"
    "cp_states worker i = None"
  shows "\<exists>worker' s. cp_accept_handoff worker h = Inr (worker', s) \<and> ls_plan s = hm_plan h \<and>
    ls_allocation s = Some (hm_allocation h) \<and>
    (\<forall>l r worker'' w. cp_validate_worker worker' i l r = Inr (worker'', w) \<and>
        (\<exists>t. cp_states sched' i = Some t \<and> ls_phase t = HANDED_OFF) \<longrightarrow>
      (\<exists>sched'' u. cp_apply_worker_validation sched' w = Inr (sched'', u) \<and>
         ls_phase u = WORKER_VALIDATED \<and> ls_worker u = Some w))"
proof -
  note inv = cp_reachable_inv [OF assms(1)] cp_reachable_inv [OF assms(2)]
  from cp_handoff_stored [OF conjunct1 [OF inv(1)] assms(3)] obtain t where
    t: "sched' = store_state sched i t" "hm_plan h = ls_plan t" "ls_allocation t = Some (hm_allocation h)"
    "wf_handoff h" "wf_lifecycle t" "rp_request_id (ls_plan t) = i" "on_layout layout t"
    using inv by auto
  define s where "s = \<lparr>ls_plan = hm_plan h, ls_phase = HANDED_OFF, ls_generation = al_generation (hm_allocation h),
     ls_allocation = Some (hm_allocation h), ls_handoff = Some h, ls_worker = None, ls_preemption_count = 0\<rparr>"
  have pc: "phase_consistent s" "phase_consistent t"
    using t by (auto simp: s_def phase_consistent_def wf_handoff_def wf_allocation_def wf_lifecycle_def)
  then have "from_handoff h (cp_group_layout worker) = Inr s"
    using t inv by (auto simp: from_handoff_def init_simps s_def wf_handoff_def on_layout_def)
  then have acc: "cp_accept_handoff worker h = Inr (store_state worker i s, s)"
    using t assms(4) by (simp add: cp_accept_handoff_def Let_def)
  have "\<exists>sched'' u. cp_apply_worker_validation sched' w = Inr (sched'', u) \<and>
         ls_phase u = WORKER_VALIDATED \<and> ls_worker u = Some w"
    if "cp_validate_worker (store_state worker i s) i l r = Inr (worker'', w)" "ls_phase t = HANDED_OFF" for l r worker'' w
  proof -
    have a: "ls_allocation s = Some (hm_allocation h)" by (simp add: s_def)
    have "\<exists>s'. state_apply_worker_validation s w = Inr s' \<and>
        WorkerValidationReceipt_init i (hm_allocation h) l r = Inr w"
      using that(1) by (auto simp: cp_validate_worker_def require_state_def result_simps a)
    then obtain s' where "state_apply_worker_validation s w = Inr s'" "wr_request_id w = i"
      using WorkerValidationReceipt_init_Inr by blast
    then show ?thesis using state_apply_transfer [of s w s' t] pc t(1-3) that(2) a
      by (simp add: cp_apply_worker_validation_def require_state_def) (simp add: s_def)
  qed
  then show ?thesis using acc t(1) by (auto simp: s_def)
qed

lemma handoff_round_trip_witness:
  "\<exists>worker' s. cp_accept_handoff (RequestControlPlane_init example_layout)
      (the (ls_handoff (handed_off_state example_request example_allocation))) = Inr (worker', s) \<and>
    ls_plan s = example_request"
  using handoff_round_trip [OF example_allocated_reachable cp_reachable.start example_handoff]
  by (auto simp: RequestControlPlane_init_def) (auto simp: handed_off_state_def)

text \<open>
  Replays are harmless: on every reachable owner, repeating a successful call (with the same
  arguments) succeeds again, returns the same value and leaves the owner as it is.
\<close>

lemma replays_are_harmless:
  assumes "cp_reachable layout cp"
  shows "(cp_allocate cp i blocks e = Inr (c1, s1) \<longrightarrow> cp_allocate c1 i blocks e = Inr (c1, s1)) \<and>
    (cp_handoff cp i = Inr (c2, h) \<longrightarrow> cp_handoff c2 i = Inr (c2, h)) \<and>
    (cp_validate_worker cp i l r = Inr (c3, w) \<longrightarrow> cp_apply_worker_validation c3 w = Inr (c3, the (cp_states c3 i))) \<and>
    (cp_preempt cp i = Inr (c4, s4) \<longrightarrow> cp_preempt c4 i = Inr (c4, s4)) \<and>
    (cp_finish cp i = Inr (c5, s5) \<longrightarrow> cp_finish c5 i = Inr (c5, s5))"
proof (intro conjI impI)
  note inv = conjunct1 [OF cp_reachable_inv [OF assms]]
  show "cp_allocate c1 i blocks e = Inr (c1, s1)" if "cp_allocate cp i blocks e = Inr (c1, s1)"
    using that allocating.owner_repeat [OF inv, where x = "(cp_group_layout cp, blocks, e)"]
    by (auto simp: cp_allocate_def result_simps)
  show "cp_handoff c2 i = Inr (c2, h)" if ok: "cp_handoff cp i = Inr (c2, h)"
  proof -
    obtain s t where "require_state cp i = Inr s" "state_handoff s = Inr t" "ls_handoff t = Some h" "c2 = store_state cp i t"
      using ok unfolding cp_handoff_Inr by blast
    then show ?thesis using handing_off.owner_repeat [OF inv] by (simp add: cp_handoff_def)
  qed
  show "cp_apply_worker_validation c3 w = Inr (c3, the (cp_states c3 i))" if "cp_validate_worker cp i l r = Inr (c3, w)"
    using that validating.owner_repeat [OF inv, where x = w]
    by (auto simp: cp_validate_worker_def cp_apply_worker_validation_def result_simps split: option.splits
        dest!: WorkerValidationReceipt_init_Inr)
  show "cp_preempt c4 i = Inr (c4, s4)" if "cp_preempt cp i = Inr (c4, s4)"
    using that preempting.owner_repeat [OF inv] by (auto simp: cp_preempt_def result_simps)
  show "cp_finish c5 i = Inr (c5, s5)" if "cp_finish cp i = Inr (c5, s5)"
    using that finishing.owner_repeat [OF inv] by (auto simp: cp_finish_def result_simps)
qed

lemma replays_are_harmless_witness:
  "cp_handoff (example_cp (handed_off_state example_request example_allocation)) ''r'' =
     Inr (example_cp (handed_off_state example_request example_allocation),
          the (ls_handoff (handed_off_state example_request example_allocation)))"
  using replays_are_harmless [OF example_allocated_reachable] example_handoff by blast

text \<open>
  A block-table snapshot is taken exactly when there is one table per configured group and every
  table lists distinct non-negative plain integers; the snapshot then carries the layout's layer
  names and the identifiers in the order given.
\<close>

lemma capture_exact:
  assumes "CacheGroupLayout_init names = Inr layout"
  shows "((\<exists>a. capture layout blocks = Inr a) \<longleftrightarrow>
      length blocks = length names \<and> list_all (\<lambda>bs. list_all nonneg_int bs \<and> distinct bs) blocks) \<and>
    (\<forall>a. capture layout blocks = Inr a \<longrightarrow>
      map gb_layer_names (ga_groups a) = names \<and> block_ids_by_group a = map (map the_int) blocks \<and>
      map gb_group_index (ga_groups a) = map int [0..<length names])"
proof (rule conjI)
  have l: "layer_names_by_group layout = names" "list_all (\<lambda>g. g \<noteq> [] \<and> [] \<notin> set g) names"
    using assms by (auto simp: CacheGroupLayout_init_def list_all_iff split: if_splits)
  then show "(\<exists>a. capture layout blocks = Inr a) \<longleftrightarrow>
      length blocks = length names \<and> list_all (\<lambda>bs. list_all nonneg_int bs \<and> distinct bs) blocks"
    by (auto simp: capture_Inr group_count_def)
  show "\<forall>a. capture layout blocks = Inr a \<longrightarrow>
      map gb_layer_names (ga_groups a) = names \<and> block_ids_by_group a = map (map the_int) blocks \<and>
      map gb_group_index (ga_groups a) = map int [0..<length names]"
  proof (intro allI impI)
    fix a
    assume a: "capture layout blocks = Inr a"
    then have "map gb_group_index (ga_groups a) = map int [0..<length names]"
      using l by (auto simp: capture_Inr group_count_def nth_enumerate_eq intro!: nth_equalityI)
    then show "map gb_layer_names (ga_groups a) = names \<and> block_ids_by_group a = map (map the_int) blocks \<and>
      map gb_group_index (ga_groups a) = map int [0..<length names]"
      using capture_wf [OF a] l by (simp add: wf_blocks_def)
  qed
qed

lemma capture_exact_witness:
  "CacheGroupLayout_init [[''layers.0''], [''layers.1'']] = Inr example_layout \<and>
   block_ids_by_group example_allocation = [[7, 3], [1]]"
proof -
  have "CacheGroupLayout_init [[''layers.0''], [''layers.1'']] = Inr example_layout"
    by (simp add: CacheGroupLayout_init_def example_layout_def)
  then show ?thesis using capture_exact [of "[[''layers.0''], [''layers.1'']]" example_layout example_blocks]
      example_capture by (simp add: example_blocks_def)
qed

end
