(* ===== verification/Layout.thy ===== *)
theory Layout
  imports PlannerModels
begin

text \<open>
  \<^verbatim>\<open>gpt_oss/layout.py\<close>: the validated 24-layer hybrid cache layout and the planning of token
  scatters into grouped block tables.  Layer names are lists of Unicode code points here, because
  the pattern of the source accepts any decimal digit of Unicode.  The scatter loop is a
  \<open>partial_function\<close>: \<open>None\<close> would mean that the source loop does not end.
\<close>

section \<open>Layer names\<close>

definition GPT_OSS_NUM_LAYERS :: int where
  "GPT_OSS_NUM_LAYERS = 24"

definition GPT_OSS_NUM_CACHE_GROUPS :: nat where
  "GPT_OSS_NUM_CACHE_GROUPS = 2"

definition GPT_OSS_SLIDING_WINDOW :: int where
  "GPT_OSS_SLIDING_WINDOW = 128"

definition GPT_OSS_MAX_CONTEXT_TOKENS :: int where
  "GPT_OSS_MAX_CONTEXT_TOKENS = 131072"

definition MAX_VLLM_BLOCK_ID :: int where
  "MAX_VLLM_BLOCK_ID = push_bit 31 1 - 1"

datatype AttentionKind = SLIDING | FULL

datatype HybridLayoutErrorCode =
    INVALID_GROUP_COUNT | INVALID_GROUP_ID | DUPLICATE_GROUP_ID | INVALID_LAYER_COUNT | INVALID_LAYER_NAME
  | DUPLICATE_LAYER_NAME | DUPLICATE_LAYER_INDEX | LAYER_INDEX_OUT_OF_RANGE | ATTENTION_PATTERN_MISMATCH
  | SLIDING_WINDOW_MISMATCH | INVALID_BLOCK_SIZE | MISSING_BLOCK_TABLE | UNEXPECTED_BLOCK_TABLE
  | DUPLICATE_BLOCK_TABLE | BLOCK_SIZE_MISMATCH | INVALID_BLOCK_ID | EMPTY_TRANSFER | RANGE_LENGTH_MISMATCH
  | POSITION_OUT_OF_RANGE | BLOCK_TABLE_TOO_SHORT | BLOCK_UNAVAILABLE | UNKNOWN_GROUP | UNKNOWN_LAYER

type_synonym pystr = "nat list"

definition code_points :: "string \<Rightarrow> pystr" where
  "code_points s = map of_char s"

text \<open>
  The zero digits of Unicode 13 and 14 (Python 3.10 and 3.11): a decimal digit is one of the ten code points from
  such a zero on.  \<^verbatim>\<open>\d\<close> and \<^verbatim>\<open>int\<close> both accept all of them.
\<close>

definition unicode_zeros :: "nat list" where
  "unicode_zeros =
    [0x30, 0x660, 0x6f0, 0x7c0, 0x966, 0x9e6, 0xa66, 0xae6, 0xb66, 0xbe6, 0xc66, 0xce6, 0xd66, 0xde6,
     0xe50, 0xed0, 0xf20, 0x1040, 0x1090, 0x17e0, 0x1810, 0x1946, 0x19d0, 0x1a80, 0x1a90, 0x1b50, 0x1bb0,
     0x1c40, 0x1c50, 0xa620, 0xa8d0, 0xa900, 0xa9d0, 0xa9f0, 0xaa50, 0xabf0, 0xff10, 0x104a0, 0x10d30,
     0x11066, 0x110f0, 0x11136, 0x111d0, 0x112f0, 0x11450, 0x114d0, 0x11650, 0x116c0, 0x11730, 0x118e0,
     0x11950, 0x11c50, 0x11d50, 0x11da0, 0x16a60, 0x16ac0, 0x16b50, 0x1d7ce, 0x1d7d8, 0x1d7e2, 0x1d7ec,
     0x1d7f6, 0x1e140, 0x1e2f0, 0x1e950, 0x1fbf0]"

definition digit_value :: "nat \<Rightarrow> nat option" where
  "digit_value c = map_option (\<lambda>z. c - z) (find (\<lambda>z. z \<le> c \<and> c < z + 10) unicode_zeros)"

text \<open>\<^verbatim>\<open>int(digits)\<close> of a string of decimal digits.\<close>

definition parse_digits :: "pystr \<Rightarrow> int" where
  "parse_digits ds = foldl (\<lambda>n c. 10 * n + int (the (digit_value c))) 0 ds"

definition layer_prefix :: pystr where
  "layer_prefix = code_points ''model.layers.''"

definition layer_suffix :: pystr where
  "layer_suffix = code_points ''.attn.attn''"

text \<open>\<^verbatim>\<open>_LAYER_NAME_PATTERN.fullmatch\<close>: the digits between the fixed parts, at least one.\<close>

definition match_layer_name :: "pystr \<Rightarrow> pystr option" where
  "match_layer_name name =
     (if take (length layer_prefix) name \<noteq> layer_prefix then None
      else
        let rest = drop (length layer_prefix) name;
            digits = takeWhile (\<lambda>c. digit_value c \<noteq> None) rest;
            tail = dropWhile (\<lambda>c. digit_value c \<noteq> None) rest
        in if digits \<noteq> [] \<and> tail = layer_suffix then Some digits else None)"

definition extract_gpt_oss_layer_index :: "pystr \<Rightarrow> HybridLayoutErrorCode + int" where
  "extract_gpt_oss_layer_index name =
     (case match_layer_name name of
        None \<Rightarrow> Inl INVALID_LAYER_NAME
      | Some digits \<Rightarrow>
          if length digits > 2 then Inl LAYER_INDEX_OUT_OF_RANGE
          else if length digits > 1 \<and> take 1 digits = code_points ''0'' then Inl INVALID_LAYER_NAME
          else
            let layer_index = parse_digits digits in
            if \<not> (0 \<le> layer_index \<and> layer_index < GPT_OSS_NUM_LAYERS) then Inl LAYER_INDEX_OUT_OF_RANGE
            else Inr layer_index)"

section \<open>The hybrid layout\<close>

record CacheGroupLayout =
  cg_group_id :: int
  cg_attention_kind :: AttentionKind
  cg_layer_names :: "pystr list"
  cg_block_size :: int
  cg_sliding_window :: "int option"

definition CacheGroupLayout_init ::
    "pyval \<Rightarrow> AttentionKind \<Rightarrow> pystr list \<Rightarrow> pyval \<Rightarrow> int option \<Rightarrow> HybridLayoutErrorCode + CacheGroupLayout" where
  "CacheGroupLayout_init group_id kind names block_size window =
     (if \<not> nonneg_int group_id then Inl INVALID_GROUP_ID
      else if \<not> is_plain_int block_size \<or> the_int block_size \<le> 0 then Inl INVALID_BLOCK_SIZE
      else if kind = SLIDING \<and> window \<noteq> Some GPT_OSS_SLIDING_WINDOW then Inl SLIDING_WINDOW_MISMATCH
      else if kind \<noteq> SLIDING \<and> window \<noteq> None then Inl SLIDING_WINDOW_MISMATCH
      else Inr \<lparr>cg_group_id = the_int group_id, cg_attention_kind = kind, cg_layer_names = names,
                cg_block_size = the_int block_size, cg_sliding_window = window\<rparr>)"

record AttentionLayerLayout =
  ly_layer_name :: pystr
  ly_layer_index :: int
  ly_group_id :: int
  ly_attention_kind :: AttentionKind
  ly_sliding_window :: "int option"
  ly_block_size :: int

record GptOssHybridCacheLayout =
  hl_groups :: "CacheGroupLayout list"
  hl_layers :: "AttentionLayerLayout list"

definition expected_kind :: "int \<Rightarrow> AttentionKind" where
  "expected_kind layer_index = (if layer_index mod 2 = 0 then SLIDING else FULL)"

definition layer_of :: "CacheGroupLayout \<Rightarrow> pystr \<Rightarrow> int \<Rightarrow> AttentionLayerLayout" where
  "layer_of g name layer_index =
     \<lparr>ly_layer_name = name, ly_layer_index = layer_index, ly_group_id = cg_group_id g,
      ly_attention_kind = cg_attention_kind g, ly_sliding_window = cg_sliding_window g,
      ly_block_size = cg_block_size g\<rparr>"

text \<open>The two nested loops over groups and their layer names, on the flattened list of pairs.\<close>

fun collect_layers ::
    "pystr set \<Rightarrow> int set \<Rightarrow> AttentionLayerLayout list \<Rightarrow> (CacheGroupLayout \<times> pystr) list \<Rightarrow>
     HybridLayoutErrorCode + int set \<times> AttentionLayerLayout list" where
  "collect_layers seen_names seen_indexes layers [] = Inr (seen_indexes, layers)"
| "collect_layers seen_names seen_indexes layers ((g, name) # rest) =
     (if name \<in> seen_names then Inl DUPLICATE_LAYER_NAME
      else rbind (extract_gpt_oss_layer_index name) (\<lambda>layer_index.
        if layer_index \<in> seen_indexes then Inl DUPLICATE_LAYER_INDEX
        else if cg_attention_kind g \<noteq> expected_kind layer_index then Inl ATTENTION_PATTERN_MISMATCH
        else collect_layers (insert name seen_names) (insert layer_index seen_indexes)
          (layers @ [layer_of g name layer_index]) rest))"

definition group_layer_pairs :: "CacheGroupLayout list \<Rightarrow> (CacheGroupLayout \<times> pystr) list" where
  "group_layer_pairs groups = concat (map (\<lambda>g. map (\<lambda>name. (g, name)) (cg_layer_names g)) groups)"

definition GptOssHybridCacheLayout_init ::
    "CacheGroupLayout list \<Rightarrow> HybridLayoutErrorCode + GptOssHybridCacheLayout" where
  "GptOssHybridCacheLayout_init groups =
     (if length groups \<noteq> GPT_OSS_NUM_CACHE_GROUPS then Inl INVALID_GROUP_COUNT
      else
        let group_ids = map cg_group_id groups in
        if \<not> distinct group_ids then Inl DUPLICATE_GROUP_ID
        else if set group_ids \<noteq> set (map int [0..<GPT_OSS_NUM_CACHE_GROUPS]) then Inl INVALID_GROUP_ID
        else if set (map cg_attention_kind groups) \<noteq> {SLIDING, FULL} then Inl ATTENTION_PATTERN_MISMATCH
        else if int (sum_list (map (\<lambda>g. length (cg_layer_names g)) groups)) \<noteq> GPT_OSS_NUM_LAYERS
        then Inl INVALID_LAYER_COUNT
        else rbind (collect_layers {} {} [] (group_layer_pairs groups)) (\<lambda>(seen_indexes, layers).
          if seen_indexes \<noteq> set [0..GPT_OSS_NUM_LAYERS - 1] then Inl INVALID_LAYER_COUNT
          else Inr \<lparr>hl_groups = groups, hl_layers = sort_key ly_layer_index layers\<rparr>))"

definition layout_group :: "GptOssHybridCacheLayout \<Rightarrow> int \<Rightarrow> HybridLayoutErrorCode + CacheGroupLayout" where
  "layout_group layout group_id =
     (case find (\<lambda>g. cg_group_id g = group_id) (hl_groups layout) of
        None \<Rightarrow> Inl UNKNOWN_GROUP | Some g \<Rightarrow> Inr g)"

definition layout_layer :: "GptOssHybridCacheLayout \<Rightarrow> pystr \<Rightarrow> HybridLayoutErrorCode + AttentionLayerLayout" where
  "layout_layer layout name =
     (case find (\<lambda>l. ly_layer_name l = name) (hl_layers layout) of
        None \<Rightarrow> Inl UNKNOWN_LAYER | Some l \<Rightarrow> Inr l)"

definition layers_in_group ::
    "GptOssHybridCacheLayout \<Rightarrow> int \<Rightarrow> HybridLayoutErrorCode + AttentionLayerLayout list" where
  "layers_in_group layout group_id =
     rbind (layout_group layout group_id) (\<lambda>_. Inr (filter (\<lambda>l. ly_group_id l = group_id) (hl_layers layout)))"

section \<open>Block tables, transfers and spans\<close>

record GroupBlockTable =
  bt_group_id :: int
  bt_block_size :: int
  bt_block_ids :: "int option list"

definition valid_block_id :: "pyval \<Rightarrow> bool" where
  "valid_block_id b \<longleftrightarrow> b = PNone \<or> nonneg_int b \<and> the_int b \<le> MAX_VLLM_BLOCK_ID"

definition GroupBlockTable_init ::
    "pyval \<Rightarrow> pyval \<Rightarrow> pyval list \<Rightarrow> HybridLayoutErrorCode + GroupBlockTable" where
  "GroupBlockTable_init group_id block_size block_ids =
     (if \<not> nonneg_int group_id then Inl INVALID_GROUP_ID
      else if \<not> is_plain_int block_size \<or> the_int block_size \<le> 0 then Inl INVALID_BLOCK_SIZE
      else if \<exists>b\<in>set block_ids. \<not> valid_block_id b then Inl INVALID_BLOCK_ID
      else Inr \<lparr>bt_group_id = the_int group_id, bt_block_size = the_int block_size,
                bt_block_ids = map (\<lambda>b. if b = PNone then None else Some (the_int b)) block_ids\<rparr>)"

definition capacity_tokens :: "GroupBlockTable \<Rightarrow> int" where
  "capacity_tokens t = int (length (bt_block_ids t)) * bt_block_size t"

record TokenTransfer =
  tt_source_range :: TokenRange
  tt_target_range :: TokenRange

definition TokenTransfer_init :: "TokenRange \<Rightarrow> TokenRange \<Rightarrow> HybridLayoutErrorCode + TokenTransfer" where
  "TokenTransfer_init src tgt =
     (if range_len src = 0 \<or> range_len tgt = 0 then Inl EMPTY_TRANSFER
      else if range_len src \<noteq> range_len tgt then Inl RANGE_LENGTH_MISMATCH
      else if tr_end src > GPT_OSS_MAX_CONTEXT_TOKENS \<or> tr_end tgt > GPT_OSS_MAX_CONTEXT_TOKENS
      then Inl POSITION_OUT_OF_RANGE
      else Inr \<lparr>tt_source_range = src, tt_target_range = tgt\<rparr>)"

definition transfer_position_delta :: "TokenTransfer \<Rightarrow> int" where
  "transfer_position_delta t = tr_start (tt_target_range t) - tr_start (tt_source_range t)"

record GroupTokenScatterSpan =
  gs_group_id :: int
  gs_attention_kind :: AttentionKind
  gs_source_range :: TokenRange
  gs_target_range :: TokenRange
  gs_logical_block_index :: int
  gs_block_id :: int
  gs_block_size :: int
  gs_block_offset :: int
  gs_physical_slot_start :: int

definition span_token_count :: "GroupTokenScatterSpan \<Rightarrow> int" where
  "span_token_count s = range_len (gs_target_range s)"

record LayerTokenScatterSpan =
  lspan_layer_name :: pystr
  lspan_layer_index :: int
  lspan_group_span :: GroupTokenScatterSpan

record TokenScatterPlan =
  sp_transfer :: TokenTransfer
  sp_group_spans :: "GroupTokenScatterSpan list"
  sp_layer_spans :: "LayerTokenScatterSpan list"

definition spans_for_group :: "TokenScatterPlan \<Rightarrow> int \<Rightarrow> HybridLayoutErrorCode + GroupTokenScatterSpan list" where
  "spans_for_group p group_id =
     (let spans = filter (\<lambda>s. gs_group_id s = group_id) (sp_group_spans p) in
      if spans = [] then Inl UNKNOWN_GROUP else Inr spans)"

definition spans_for_layer :: "TokenScatterPlan \<Rightarrow> pystr \<Rightarrow> HybridLayoutErrorCode + LayerTokenScatterSpan list" where
  "spans_for_layer p name =
     (let spans = filter (\<lambda>s. lspan_layer_name s = name) (sp_layer_spans p) in
      if spans = [] then Inl UNKNOWN_LAYER else Inr spans)"

section \<open>Planning\<close>

text \<open>Everything the planning code could raise; the last three are shown never to occur.\<close>

datatype scatter_error =
  LayoutError HybridLayoutErrorCode | AssertionError | IndexError | RangeError py_error

definition check_table ::
    "GroupBlockTable list \<Rightarrow> TokenTransfer \<Rightarrow> CacheGroupLayout \<Rightarrow> HybridLayoutErrorCode + GroupBlockTable" where
  "check_table tables transfer g =
     (let table = the (find (\<lambda>t. bt_group_id t = cg_group_id g) tables);
          first_block = tr_start (tt_target_range transfer) div cg_block_size g;
          last_block = (tr_end (tt_target_range transfer) - 1) div cg_block_size g
      in if bt_block_size table \<noteq> cg_block_size g then Inl BLOCK_SIZE_MISMATCH
         else if last_block \<ge> int (length (bt_block_ids table)) then Inl BLOCK_TABLE_TOO_SHORT
         else if \<exists>k\<in>set [first_block..last_block]. bt_block_ids table ! nat k = None then Inl BLOCK_UNAVAILABLE
         else Inr table)"

definition validated_tables ::
    "GptOssHybridCacheLayout \<Rightarrow> GroupBlockTable list \<Rightarrow> TokenTransfer \<Rightarrow>
     HybridLayoutErrorCode + GroupBlockTable list" where
  "validated_tables layout tables transfer =
     (let table_ids = map bt_group_id tables; expected_ids = set (map cg_group_id (hl_groups layout)) in
      if \<not> distinct table_ids then Inl DUPLICATE_BLOCK_TABLE
      else if set table_ids - expected_ids \<noteq> {} then Inl UNEXPECTED_BLOCK_TABLE
      else if expected_ids - set table_ids \<noteq> {} then Inl MISSING_BLOCK_TABLE
      else rmap (check_table tables transfer) (sort_key cg_group_id (hl_groups layout)))"

partial_function (option) scatter_loop ::
    "CacheGroupLayout \<Rightarrow> GroupBlockTable \<Rightarrow> TokenTransfer \<Rightarrow> int \<Rightarrow> GroupTokenScatterSpan list \<Rightarrow>
     (scatter_error + GroupTokenScatterSpan list) option" where
  "scatter_loop g table transfer target_cursor spans =
     (if \<not> target_cursor < tr_end (tt_target_range transfer) then Some (Inr spans)
      else
        let logical_block_index = target_cursor div cg_block_size g;
            block_offset = target_cursor mod cg_block_size g;
            token_count = min (tr_end (tt_target_range transfer) - target_cursor) (cg_block_size g - block_offset);
            source_start = tr_start (tt_source_range transfer) + target_cursor - tr_start (tt_target_range transfer)
        in if \<not> (0 \<le> logical_block_index \<and> logical_block_index < int (length (bt_block_ids table)))
           then Some (Inl IndexError)
           else
             case bt_block_ids table ! nat logical_block_index of
               None \<Rightarrow> Some (Inl AssertionError)
             | Some block_id \<Rightarrow>
                 case TokenRange_init (PInt source_start) (PInt (source_start + token_count)) of
                   Inl e \<Rightarrow> Some (Inl (RangeError e))
                 | Inr src \<Rightarrow>
                     case TokenRange_init (PInt target_cursor) (PInt (target_cursor + token_count)) of
                       Inl e \<Rightarrow> Some (Inl (RangeError e))
                     | Inr tgt \<Rightarrow>
                         scatter_loop g table transfer (target_cursor + token_count)
                           (spans @ [\<lparr>gs_group_id = cg_group_id g, gs_attention_kind = cg_attention_kind g,
                              gs_source_range = src, gs_target_range = tgt,
                              gs_logical_block_index = logical_block_index, gs_block_id = block_id,
                              gs_block_size = cg_block_size g, gs_block_offset = block_offset,
                              gs_physical_slot_start = block_id * cg_block_size g + block_offset\<rparr>]))"

definition scatter_group ::
    "CacheGroupLayout \<Rightarrow> GroupBlockTable \<Rightarrow> TokenTransfer \<Rightarrow>
     (scatter_error + GroupTokenScatterSpan list) option" where
  "scatter_group g table transfer = scatter_loop g table transfer (tr_start (tt_target_range transfer)) []"

fun scatter_tables ::
    "GptOssHybridCacheLayout \<Rightarrow> TokenTransfer \<Rightarrow> GroupBlockTable list \<Rightarrow>
     (scatter_error + (int \<times> GroupTokenScatterSpan list) list) option" where
  "scatter_tables layout transfer [] = Some (Inr [])"
| "scatter_tables layout transfer (table # tables) =
     (case layout_group layout (bt_group_id table) of
        Inl c \<Rightarrow> Some (Inl (LayoutError c))
      | Inr g \<Rightarrow>
          (case scatter_group g table transfer of
             None \<Rightarrow> None
           | Some (Inl e) \<Rightarrow> Some (Inl e)
           | Some (Inr spans) \<Rightarrow>
               (case scatter_tables layout transfer tables of
                  None \<Rightarrow> None
                | Some (Inl e) \<Rightarrow> Some (Inl e)
                | Some (Inr rest) \<Rightarrow> Some (Inr ((cg_group_id g, spans) # rest)))))"

definition plan_token_scatter ::
    "GptOssHybridCacheLayout \<Rightarrow> GroupBlockTable list \<Rightarrow> TokenTransfer \<Rightarrow>
     (scatter_error + TokenScatterPlan) option" where
  "plan_token_scatter layout block_tables transfer =
     (case validated_tables layout block_tables transfer of
        Inl c \<Rightarrow> Some (Inl (LayoutError c))
      | Inr tables \<Rightarrow>
          (case scatter_tables layout transfer tables of
             None \<Rightarrow> None
           | Some (Inl e) \<Rightarrow> Some (Inl e)
           | Some (Inr spans_by_group) \<Rightarrow>
               Some (Inr
                 \<lparr>sp_transfer = transfer,
                  sp_group_spans = concat (map snd spans_by_group),
                  sp_layer_spans = concat (map (\<lambda>layer.
                    map (\<lambda>group_span. \<lparr>lspan_layer_name = ly_layer_name layer,
                           lspan_layer_index = ly_layer_index layer, lspan_group_span = group_span\<rparr>)
                      (the (map_of spans_by_group (ly_group_id layer)))) (hl_layers layout))\<rparr>)))"

section \<open>Reference semantics\<close>

text \<open>
  What a scatter means, token by token: the source position, the target position and the physical
  slot \<^verbatim>\<open>block_id * block_size + block_offset\<close> of the pinned model runner.
\<close>

definition slot_of :: "GroupBlockTable \<Rightarrow> int \<Rightarrow> int" where
  "slot_of table t = the (bt_block_ids table ! nat (t div bt_block_size table)) * bt_block_size table +
     t mod bt_block_size table"

definition reference_writes :: "GroupBlockTable \<Rightarrow> TokenTransfer \<Rightarrow> (int \<times> int \<times> int) list" where
  "reference_writes table transfer =
     map (\<lambda>t. (t - transfer_position_delta transfer, t, slot_of table t))
       [tr_start (tt_target_range transfer)..tr_end (tt_target_range transfer) - 1]"

definition span_writes :: "GroupTokenScatterSpan \<Rightarrow> (int \<times> int \<times> int) list" where
  "span_writes s = map (\<lambda>k. (tr_start (gs_source_range s) + k, tr_start (gs_target_range s) + k,
       gs_physical_slot_start s + k)) [0..span_token_count s - 1]"

definition span_in_block :: "CacheGroupLayout \<Rightarrow> GroupBlockTable \<Rightarrow> GroupTokenScatterSpan \<Rightarrow> bool" where
  "span_in_block g table s \<longleftrightarrow> gs_group_id s = cg_group_id g \<and> gs_attention_kind s = cg_attention_kind g \<and>
     gs_block_size s = cg_block_size g \<and> 0 < span_token_count s \<and> 0 \<le> gs_block_offset s \<and>
     gs_block_offset s + span_token_count s \<le> cg_block_size g \<and>
     range_len (gs_source_range s) = span_token_count s \<and>
     gs_physical_slot_start s = gs_block_id s * gs_block_size s + gs_block_offset s \<and>
     0 \<le> gs_logical_block_index s \<and> gs_logical_block_index s < int (length (bt_block_ids table)) \<and>
     bt_block_ids table ! nat (gs_logical_block_index s) = Some (gs_block_id s)"

text \<open>The blocks from a position to the end of the target are in the table and available.\<close>

definition blocks_available :: "int \<Rightarrow> GroupBlockTable \<Rightarrow> int \<Rightarrow> int \<Rightarrow> bool" where
  "blocks_available block_size table a b \<longleftrightarrow>
     (\<forall>t. a \<le> t \<and> t < b \<longrightarrow> t div block_size < int (length (bt_block_ids table)) \<and>
        bt_block_ids table ! nat (t div block_size) \<noteq> None)"

lemma upto_shift: "[a..b] = map (\<lambda>k. a + k) [0..b - a]"
  by (rule nth_equalityI) (auto simp: nth_upto)

lemma block_run:
  fixes c k bs :: int
  assumes "0 < bs" "0 \<le> k" "c mod bs + k < bs"
  shows "(c + k) div bs = c div bs \<and> (c + k) mod bs = c mod bs + k"
proof -
  have "(r + bs * q) div bs = q \<and> (r + bs * q) mod bs = r" if "0 \<le> r" "r < bs" for r q using that by simp
  from this [of "c mod bs + k" "c div bs"] assms
  have "(c mod bs + k + bs * (c div bs)) div bs = c div bs \<and> (c mod bs + k + bs * (c div bs)) mod bs = c mod bs + k"
    by (simp only: pos_mod_sign add_nonneg_nonneg)
  moreover have "c mod bs + k + bs * (c div bs) = c + k" using mod_mult_div_eq [of c bs] by linarith
  ultimately show ?thesis by metis
qed

text \<open>The span the loop emits at a cursor writes the reference slots of its tokens.\<close>

lemma span_writes_reference:
  assumes "0 < bs" "bt_block_size table = bs" "bt_block_ids table ! nat (c div bs) = Some b" "n \<le> bs - c mod bs"
    "s = \<lparr>gs_group_id = i, gs_attention_kind = kd, gs_source_range = \<lparr>tr_start = c - d, tr_end = c - d + n\<rparr>,
       gs_target_range = \<lparr>tr_start = c, tr_end = c + n\<rparr>, gs_logical_block_index = l, gs_block_id = b,
       gs_block_size = bs, gs_block_offset = f, gs_physical_slot_start = b * bs + c mod bs\<rparr>"
  shows "span_writes s = map (\<lambda>t. (t - d, t, slot_of table t)) [c..c + n - 1]"
proof -
  have "slot_of table (c + k) = b * bs + c mod bs + k" if "0 \<le> k" "k < n" for k
    using block_run [of bs k c] assms(1-4) that by (simp add: slot_of_def)
  then show ?thesis
    unfolding span_writes_def upto_shift [of c] assms(5)
    by (auto simp: span_token_count_def range_len_def)
qed

lemma scatter_loop_correct:
  assumes "0 < cg_block_size g" "bt_block_size table = cg_block_size g" "wf_range (tt_target_range transfer)"
    "wf_range (tt_source_range transfer)" "tr_start (tt_target_range transfer) \<le> c"
    "c \<le> tr_end (tt_target_range transfer)"
    "blocks_available (cg_block_size g) table c (tr_end (tt_target_range transfer))"
  shows "\<exists>new. scatter_loop g table transfer c spans = Some (Inr (spans @ new)) \<and>
    concat (map span_writes new) = map (\<lambda>t. (t - transfer_position_delta transfer, t, slot_of table t))
      [c..tr_end (tt_target_range transfer) - 1] \<and> list_all (span_in_block g table) new"
  using assms(5-7)
proof (induction "nat (tr_end (tt_target_range transfer) - c)" arbitrary: c spans rule: less_induct)
  case less
  let ?e = "tr_end (tt_target_range transfer)" let ?bs = "cg_block_size g" let ?d = "transfer_position_delta transfer"
  show ?case
  proof (cases "c < ?e")
    case False
    then show ?thesis using less.prems by (subst scatter_loop.simps) auto
  next
    case True
    define n where "n = min (?e - c) (?bs - c mod ?bs)"
    have n: "0 < n" "c + n \<le> ?e" "c mod ?bs + n \<le> ?bs" using True assms(1) by (auto simp: n_def min_def)
    obtain b where b: "bt_block_ids table ! nat (c div ?bs) = Some b" and l: "c div ?bs < int (length (bt_block_ids table))"
      using less.prems(3) True by (auto simp: blocks_available_def)
    have c0: "0 \<le> c" "0 \<le> c div ?bs" using less.prems(1) assms(1,3) by (auto simp: wf_range_def pos_imp_zdiv_nonneg_iff)
    define s where "s = \<lparr>gs_group_id = cg_group_id g, gs_attention_kind = cg_attention_kind g,
       gs_source_range = \<lparr>tr_start = c - ?d, tr_end = c - ?d + n\<rparr>,
       gs_target_range = \<lparr>tr_start = c, tr_end = c + n\<rparr>, gs_logical_block_index = c div ?bs, gs_block_id = b,
       gs_block_size = ?bs, gs_block_offset = c mod ?bs, gs_physical_slot_start = b * ?bs + c mod ?bs\<rparr>"
    have src: "tr_start (tt_source_range transfer) + c - tr_start (tt_target_range transfer) = c - ?d"
      "0 \<le> c - ?d" using less.prems(1) assms(4) by (auto simp: transfer_position_delta_def wf_range_def)
    have step: "scatter_loop g table transfer c spans = scatter_loop g table transfer (c + n) (spans @ [s])"
      using True b l c0 n src(2) by (subst scatter_loop.simps) (simp add: Let_def s_def src(1) flip: n_def)
    obtain new where new: "scatter_loop g table transfer (c + n) (spans @ [s]) = Some (Inr ((spans @ [s]) @ new))"
      "concat (map span_writes new) = map (\<lambda>t. (t - ?d, t, slot_of table t)) [c + n..?e - 1]"
      "list_all (span_in_block g table) new"
      using less.hyps [of "c + n" "spans @ [s]"] less.prems n True by (force simp: blocks_available_def)
    have "span_writes s = map (\<lambda>t. (t - ?d, t, slot_of table t)) [c..c + n - 1]"
      using n by (intro span_writes_reference [OF assms(1,2) b _ s_def]) simp
    moreover have "span_in_block g table s"
      using n b l c0 assms(1) by (simp add: span_in_block_def s_def span_token_count_def range_len_def)
    moreover have "[c..?e - 1] = [c..c + n - 1] @ [c + n..?e - 1]"
      using n upto_split1 [of c "c + n" "?e - 1"] by (cases "c + n \<le> ?e - 1") auto
    ultimately show ?thesis using step new by (intro exI [of _ "s # new"]) simp
  qed
qed

lemma scatter_group_correct:
  assumes "0 < cg_block_size g" "bt_block_size table = cg_block_size g" "wf_range (tt_target_range transfer)"
    "wf_range (tt_source_range transfer)"
    "blocks_available (cg_block_size g) table (tr_start (tt_target_range transfer)) (tr_end (tt_target_range transfer))"
  obtains spans where "scatter_group g table transfer = Some (Inr spans)"
    "concat (map span_writes spans) = reference_writes table transfer" "list_all (span_in_block g table) spans"
  using scatter_loop_correct [OF assms(1-4) order_refl _ assms(5), of "[]"] assms(3) that
  by (auto simp: scatter_group_def reference_writes_def wf_range_def)

section \<open>The validated layout\<close>

definition wf_group :: "CacheGroupLayout \<Rightarrow> bool" where
  [wf_simps]: "wf_group g \<longleftrightarrow> 0 \<le> cg_group_id g \<and> 0 < cg_block_size g \<and>
     cg_sliding_window g = (if cg_attention_kind g = SLIDING then Some GPT_OSS_SLIDING_WINDOW else None)"

definition wf_table :: "GroupBlockTable \<Rightarrow> bool" where
  [wf_simps]: "wf_table t \<longleftrightarrow> 0 \<le> bt_group_id t \<and> 0 < bt_block_size t \<and>
     (\<forall>b. Some b \<in> set (bt_block_ids t) \<longrightarrow> 0 \<le> b \<and> b \<le> MAX_VLLM_BLOCK_ID)"

definition wf_transfer :: "TokenTransfer \<Rightarrow> bool" where
  [wf_simps]: "wf_transfer t \<longleftrightarrow> wf_range (tt_source_range t) \<and> wf_range (tt_target_range t) \<and>
     range_len (tt_source_range t) = range_len (tt_target_range t) \<and> 0 < range_len (tt_target_range t) \<and>
     tr_end (tt_source_range t) \<le> GPT_OSS_MAX_CONTEXT_TOKENS \<and> tr_end (tt_target_range t) \<le> GPT_OSS_MAX_CONTEXT_TOKENS"

lemma Layout_group_init_wf: "CacheGroupLayout_init i k ns bs w = Inr g \<Longrightarrow> wf_group g"
  by (cases i; cases bs) (auto simp: CacheGroupLayout_init_def wf_group_def split: if_splits)

lemma GroupBlockTable_init_wf:
  assumes "GroupBlockTable_init i bs ids = Inr t"
  shows "wf_table t"
proof -
  have v: "\<forall>b\<in>set ids. b \<noteq> PNone \<longrightarrow> 0 \<le> the_int b \<and> the_int b \<le> MAX_VLLM_BLOCK_ID"
    using assms nonneg_the_int by (auto simp: GroupBlockTable_init_def valid_block_id_def split: if_splits)
  show ?thesis using assms v nonneg_the_int [of i]
    by (auto simp: GroupBlockTable_init_def wf_table_def split: if_splits)
qed

lemma TokenTransfer_init_wf:
  "TokenTransfer_init s t = Inr tr \<Longrightarrow> wf_range s \<Longrightarrow> wf_range t \<Longrightarrow> wf_transfer tr"
  by (auto simp: TokenTransfer_init_def wf_transfer_def wf_range_def range_len_def split: if_splits)

lemma collect_layers_Inr:
  assumes "collect_layers names idx layers pairs = Inr (seen, ls)"
  shows "\<exists>new. ls = layers @ new \<and> seen = idx \<union> ly_layer_index ` set new \<and>
    distinct (map ly_layer_index new) \<and> ly_layer_index ` set new \<inter> idx = {} \<and>
    distinct (map ly_layer_name new) \<and> ly_layer_name ` set new \<inter> names = {} \<and>
    list_all2 (\<lambda>(g, name) l. extract_gpt_oss_layer_index name = Inr (ly_layer_index l) \<and>
      l = layer_of g name (ly_layer_index l) \<and> cg_attention_kind g = expected_kind (ly_layer_index l)) pairs new"
  using assms
proof (induction names idx layers pairs arbitrary: seen ls rule: collect_layers.induct)
  case (2 names idx layers g name rest)
  from "2.prems" obtain i where i: "extract_gpt_oss_layer_index name = Inr i" "name \<notin> names" "i \<notin> idx"
      "cg_attention_kind g = expected_kind i"
      "collect_layers (insert name names) (insert i idx) (layers @ [layer_of g name i]) rest = Inr (seen, ls)"
    by (auto simp: result_simps split: if_splits)
  from "2.IH" [OF i(2,3) _ i(5)] i(4) obtain new where new: "ls = (layers @ [layer_of g name i]) @ new"
    "seen = insert i idx \<union> ly_layer_index ` set new" "distinct (map ly_layer_index new)"
    "ly_layer_index ` set new \<inter> insert i idx = {}" "distinct (map ly_layer_name new)"
    "ly_layer_name ` set new \<inter> insert name names = {}"
    "list_all2 (\<lambda>(g, name) l. extract_gpt_oss_layer_index name = Inr (ly_layer_index l) \<and>
      l = layer_of g name (ly_layer_index l) \<and> cg_attention_kind g = expected_kind (ly_layer_index l)) rest new"
    by auto
  then show ?case using i by (intro exI [of _ "layer_of g name i # new"]) (auto simp: layer_of_def)
qed simp

definition wf_layout :: "GptOssHybridCacheLayout \<Rightarrow> bool" where
  "wf_layout layout \<longleftrightarrow> distinct (map cg_group_id (hl_groups layout)) \<and>
     set (map cg_group_id (hl_groups layout)) = {0, 1} \<and>
     map ly_layer_index (hl_layers layout) = [0..GPT_OSS_NUM_LAYERS - 1] \<and>
     distinct (map ly_layer_name (hl_layers layout)) \<and>
     list_all (\<lambda>l. extract_gpt_oss_layer_index (ly_layer_name l) = Inr (ly_layer_index l) \<and>
        ly_attention_kind l = expected_kind (ly_layer_index l) \<and>
        (\<exists>g\<in>set (hl_groups layout). l = layer_of g (ly_layer_name l) (ly_layer_index l) \<and>
           ly_layer_name l \<in> set (cg_layer_names g))) (hl_layers layout)"

lemma list_all2_set2: "list_all2 P xs ys \<Longrightarrow> y \<in> set ys \<Longrightarrow> \<exists>x\<in>set xs. P x y"
  by (induction rule: list_all2_induct) auto

lemma GptOssHybridCacheLayout_init_wf:
  assumes "GptOssHybridCacheLayout_init groups = Inr layout"
  shows "wf_layout layout \<and> hl_groups layout = groups"
proof -
  from assms obtain seen layers where
    ids: "distinct (map cg_group_id groups)" "set (map cg_group_id groups) = {0, 1}" and
    c: "collect_layers {} {} [] (group_layer_pairs groups) = Inr (seen, layers)" and
    seen: "seen = {0..GPT_OSS_NUM_LAYERS - 1}" and
    l: "layout = \<lparr>hl_groups = groups, hl_layers = sort_key ly_layer_index layers\<rparr>"
    by (auto simp: GptOssHybridCacheLayout_init_def Let_def result_simps GPT_OSS_NUM_CACHE_GROUPS_def
        upt_rec split: if_splits)
  from collect_layers_Inr [OF c] have ls: "seen = ly_layer_index ` set layers" "distinct (map ly_layer_index layers)"
    "distinct (map ly_layer_name layers)" and
    all: "list_all2 (\<lambda>(g, name) l. extract_gpt_oss_layer_index name = Inr (ly_layer_index l) \<and>
      l = layer_of g name (ly_layer_index l) \<and> cg_attention_kind g = expected_kind (ly_layer_index l))
      (group_layer_pairs groups) layers" by auto
  let ?s = "sort_key ly_layer_index layers"
  have "map ly_layer_index ?s = [0..GPT_OSS_NUM_LAYERS - 1]"
    by (rule sorted_distinct_set_unique) (use ls seen in \<open>auto simp: distinct_map\<close>)
  moreover have "distinct (map ly_layer_name ?s)" using ls(3) by (simp add: distinct_map)
  moreover have "\<exists>g\<in>set groups. extract_gpt_oss_layer_index (ly_layer_name l) = Inr (ly_layer_index l) \<and>
      ly_attention_kind l = expected_kind (ly_layer_index l) \<and> l = layer_of g (ly_layer_name l) (ly_layer_index l) \<and>
      ly_layer_name l \<in> set (cg_layer_names g)" if "l \<in> set layers" for l
    using list_all2_set2 [OF all that] by (cases l) (auto simp: group_layer_pairs_def layer_of_def)
  ultimately show ?thesis using ids l by (auto simp: wf_layout_def list_all_iff)
qed

lemma layout_group_unique:
  assumes "distinct (map cg_group_id (hl_groups layout))" "g \<in> set (hl_groups layout)"
  shows "layout_group layout (cg_group_id g) = Inr g"
proof -
  obtain h where "find (\<lambda>h. cg_group_id h = cg_group_id g) (hl_groups layout) = Some h"
    using assms(2) by (cases "find (\<lambda>h. cg_group_id h = cg_group_id g) (hl_groups layout)") (auto simp: find_None_iff)
  moreover from this have "h = g" using assms by (auto simp: find_Some_iff distinct_map dest: inj_onD nth_mem)
  ultimately show ?thesis by (simp add: layout_group_def)
qed

section \<open>Correctness of planning\<close>

definition table_fits :: "TokenTransfer \<Rightarrow> CacheGroupLayout \<Rightarrow> GroupBlockTable \<Rightarrow> bool" where
  "table_fits transfer g table \<longleftrightarrow> bt_group_id table = cg_group_id g \<and> bt_block_size table = cg_block_size g \<and>
     blocks_available (cg_block_size g) table (tr_start (tt_target_range transfer)) (tr_end (tt_target_range transfer))"

lemma check_table_Inr:
  assumes "check_table tables transfer g = Inr table" "\<exists>t\<in>set tables. bt_group_id t = cg_group_id g" "0 < cg_block_size g"
  shows "table \<in> set tables \<and> table_fits transfer g table"
proof -
  obtain t where t: "find (\<lambda>t. bt_group_id t = cg_group_id g) tables = Some t"
    using assms(2) by (cases "find (\<lambda>t. bt_group_id t = cg_group_id g) tables") (auto simp: find_None_iff)
  then have in_set: "t \<in> set tables" "bt_group_id t = cg_group_id g" by (auto simp: find_Some_iff)
  let ?a = "tr_start (tt_target_range transfer)" let ?b = "tr_end (tt_target_range transfer)" let ?bs = "cg_block_size g"
  have c: "table = t" "bt_block_size t = ?bs" "(?b - 1) div ?bs < int (length (bt_block_ids t))"
    "\<forall>k\<in>{?a div ?bs..(?b - 1) div ?bs}. bt_block_ids t ! nat k \<noteq> None"
    using assms(1) t by (auto simp: check_table_def Let_def split: if_splits)
  have "?a div ?bs \<le> k div ?bs \<and> k div ?bs \<le> (?b - 1) div ?bs" if "?a \<le> k" "k < ?b" for k
    using that assms(3) by (auto intro!: zdiv_mono1)
  then show ?thesis using c in_set by (fastforce simp: table_fits_def blocks_available_def)
qed

lemma validated_tables_Inr:
  assumes "validated_tables layout ts transfer = Inr tables" "\<forall>g\<in>set (hl_groups layout). wf_group g"
  shows "list_all2 (\<lambda>g t. t \<in> set ts \<and> table_fits transfer g t) (sort_key cg_group_id (hl_groups layout)) tables"
proof -
  have ids: "set (map cg_group_id (hl_groups layout)) \<subseteq> set (map bt_group_id ts)" and
    r: "list_all2 (\<lambda>g t. check_table ts transfer g = Inr t) (sort_key cg_group_id (hl_groups layout)) tables"
    using assms(1) by (auto simp: validated_tables_def Let_def rmap_Inr split: if_splits)
  have "\<exists>t\<in>set ts. bt_group_id t = cg_group_id g" if "g \<in> set (hl_groups layout)" for g
    using ids that by fastforce
  then show ?thesis using assms(2) check_table_Inr [of ts transfer]
    by (intro list.rel_mono_strong [OF r]) (auto simp: wf_group_def)
qed

lemma scatter_tables_correct:
  assumes "list_all2 (table_fits transfer) gs tables" "set gs \<subseteq> set (hl_groups layout)"
    "distinct (map cg_group_id (hl_groups layout))" "\<forall>g\<in>set (hl_groups layout). wf_group g" "wf_transfer transfer"
  shows "\<exists>ss. scatter_tables layout transfer tables = Some (Inr ss) \<and> map fst ss = map cg_group_id gs \<and>
    list_all2 (\<lambda>(g, t) (i, spans). concat (map span_writes spans) = reference_writes t transfer \<and>
       list_all (span_in_block g t) spans) (zip gs tables) ss"
  using assms(1,2)
proof (induction rule: list_all2_induct)
  case (Cons g gs t tables)
  then have "layout_group layout (bt_group_id t) = Inr g"
    using layout_group_unique [OF assms(3), of g] by (simp add: table_fits_def)
  moreover obtain spans where "scatter_group g t transfer = Some (Inr spans)"
    "concat (map span_writes spans) = reference_writes t transfer" "list_all (span_in_block g t) spans"
    using scatter_group_correct [of g t transfer] Cons.hyps Cons.prems assms(4,5)
    by (auto simp: table_fits_def wf_group_def wf_transfer_def)
  ultimately show ?case using Cons.IH Cons.prems by auto
qed simp

lemma map_of_list_all2:
  assumes "map fst ss = map f gs" "distinct (map f gs)" "length ts = length gs"
    "list_all2 (\<lambda>(g, t) (i, x). P g t x) (zip gs ts) ss" "k < length gs"
  shows "\<exists>x. map_of ss (f (gs ! k)) = Some x \<and> P (gs ! k) (ts ! k) x"
proof -
  have l: "length ss = length gs" using assms(1) by (metis length_map)
  have "ss ! k = (f (gs ! k), snd (ss ! k))" using assms(1,5) l by (metis nth_map prod.collapse)
  moreover have "distinct (map fst ss)" using assms(1,2) by simp
  ultimately have "map_of ss (f (gs ! k)) = Some (snd (ss ! k))" using assms(5) l by (metis map_of_eq_Some_iff nth_mem)
  moreover have "P (gs ! k) (ts ! k) (snd (ss ! k))"
    using assms(3,4,5) l by (auto simp: list_all2_conv_all_nth case_prod_beta)
  ultimately show ?thesis by blast
qed

text \<open>The table a request gave for the group of a layer.\<close>

definition layer_table :: "GroupBlockTable list \<Rightarrow> AttentionLayerLayout \<Rightarrow> GroupBlockTable" where
  "layer_table tables l = the (find (\<lambda>t. bt_group_id t = ly_group_id l) tables)"

lemma find_unique_id:
  assumes "distinct (map f xs)" "x \<in> set xs" "f x = i"
  shows "find (\<lambda>x. f x = i) xs = Some x"
proof -
  obtain y where y: "find (\<lambda>x. f x = i) xs = Some y"
    using assms(2,3) by (cases "find (\<lambda>x. f x = i) xs") (auto simp: find_None_iff)
  then have "y \<in> set xs" "f y = i" by (auto simp: find_Some_iff)
  then show ?thesis using assms y by (auto simp: distinct_map dest: inj_onD)
qed

lemma filter_concat_name:
  assumes "distinct (map f ls)" "l \<in> set ls" "\<forall>l\<in>set ls. \<forall>s\<in>set (h l). key s = f l"
  shows "filter (\<lambda>s. key s = f l) (concat (map h ls)) = h l"
  using assms
proof (induction ls)
  case (Cons a ls)
  show ?case
  proof (cases "a = l")
    case True
    have "filter (\<lambda>s. key s = f l) (concat (map h ls)) = []"
      using Cons.prems True by (auto simp: filter_empty_conv) (metis image_eqI)
    moreover have "filter (\<lambda>s. key s = f l) (h a) = h l" using Cons.prems True by (simp add: filter_id_conv)
    ultimately show ?thesis by simp
  next
    case False
    then have "l \<in> set ls" "f a \<noteq> f l" using Cons.prems by auto
    then have "filter (\<lambda>s. key s = f l) (h a) = []" using Cons.prems by (auto simp: filter_empty_conv)
    then show ?thesis using Cons \<open>l \<in> set ls\<close> by simp
  qed
qed simp

lemma validated_scatter:
  assumes "wf_layout layout" "list_all wf_group (hl_groups layout)" "wf_transfer transfer"
    "validated_tables layout tables transfer = Inr ordered"
  obtains ss where "scatter_tables layout transfer ordered = Some (Inr ss)"
    "\<And>l. l \<in> set (hl_layers layout) \<Longrightarrow> \<exists>g\<in>set (hl_groups layout). \<exists>spans. cg_group_id g = ly_group_id l \<and>
       map_of ss (ly_group_id l) = Some spans \<and> spans \<noteq> [] \<and>
       concat (map span_writes spans) = reference_writes (layer_table tables l) transfer \<and>
       list_all (span_in_block g (layer_table tables l)) spans"
proof -
  let ?gs = "sort_key cg_group_id (hl_groups layout)"
  have wf: "\<forall>g\<in>set (hl_groups layout). wf_group g" and d: "distinct (map cg_group_id (hl_groups layout))"
    using assms(1,2) by (auto simp: list_all_iff wf_layout_def)
  then have dg: "distinct (map cg_group_id ?gs)" by (simp add: distinct_map)
  note fits = validated_tables_Inr [OF assms(4) wf]
  have ts: "distinct (map bt_group_id tables)" using assms(4) by (auto simp: validated_tables_def Let_def split: if_splits)
  obtain ss where ss: "scatter_tables layout transfer ordered = Some (Inr ss)" "map fst ss = map cg_group_id ?gs"
    "list_all2 (\<lambda>(g, t) (i, spans). concat (map span_writes spans) = reference_writes t transfer \<and>
       list_all (span_in_block g t) spans) (zip ?gs ordered) ss"
    using scatter_tables_correct [OF list_all2_mono [OF fits] _ d wf assms(3)] by fastforce
  have len: "length ordered = length ?gs" using list_all2_lengthD [OF fits] by simp
  show thesis
  proof (rule that [OF ss(1)])
    fix l
    assume l: "l \<in> set (hl_layers layout)"
    obtain g where gm: "g \<in> set (hl_groups layout)" and lg: "l = layer_of g (ly_layer_name l) (ly_layer_index l)"
      using assms(1) l unfolding wf_layout_def list_all_iff by blast
    have g: "g \<in> set (hl_groups layout)" "cg_group_id g = ly_group_id l"
      using gm arg_cong [OF lg, of ly_group_id] by (simp_all add: layer_of_def)
    then obtain k where k: "k < length ?gs" "?gs ! k = g" by (metis in_set_conv_nth set_sort)
    have f: "ordered ! k \<in> set tables" "table_fits transfer g (ordered ! k)"
      using fits k by (auto simp: list_all2_conv_all_nth)
    have lt: "layer_table tables l = ordered ! k"
      using find_unique_id [OF ts f(1), of "ly_group_id l"] f(2) g(2) by (simp add: layer_table_def table_fits_def)
    obtain spans where sp: "map_of ss (ly_group_id l) = Some spans"
      "concat (map span_writes spans) = reference_writes (ordered ! k) transfer" "list_all (span_in_block g (ordered ! k)) spans"
      using map_of_list_all2 [OF ss(2) dg len ss(3) k(1)] k(2) g(2) by auto
    moreover have "reference_writes (ordered ! k) transfer \<noteq> []"
      using assms(3) by (simp add: reference_writes_def wf_transfer_def range_len_def)
    then have "spans \<noteq> []" using sp(2) by auto
    ultimately show "\<exists>g\<in>set (hl_groups layout). \<exists>spans. cg_group_id g = ly_group_id l \<and>
       map_of ss (ly_group_id l) = Some spans \<and> spans \<noteq> [] \<and>
       concat (map span_writes spans) = reference_writes (layer_table tables l) transfer \<and>
       list_all (span_in_block g (layer_table tables l)) spans"
      unfolding lt using g by (intro bexI [of _ g] exI [of _ spans] conjI) simp_all
  qed
qed

text \<open>The spans of a layer, and what it means that they implement the reference.\<close>

definition layer_spans_correct ::
    "GptOssHybridCacheLayout \<Rightarrow> GroupBlockTable list \<Rightarrow> TokenTransfer \<Rightarrow> TokenScatterPlan \<Rightarrow> AttentionLayerLayout \<Rightarrow> bool"
where
  "layer_spans_correct layout tables transfer p l \<longleftrightarrow>
     (\<exists>spans. spans_for_layer p (ly_layer_name l) = Inr spans \<and>
        concat (map (span_writes \<circ> lspan_group_span) spans) = reference_writes (layer_table tables l) transfer \<and>
        list_all (\<lambda>s. lspan_layer_index s = ly_layer_index l \<and>
          (\<exists>g\<in>set (hl_groups layout). cg_group_id g = ly_group_id l \<and>
             span_in_block g (layer_table tables l) (lspan_group_span s))) spans)"

lemma plan_token_scatter_layers:
  assumes "wf_layout layout" "list_all wf_group (hl_groups layout)" "wf_transfer transfer"
    "validated_tables layout tables transfer = Inr ordered"
  shows "\<exists>p. plan_token_scatter layout tables transfer = Some (Inr p) \<and> sp_transfer p = transfer \<and>
    list_all (layer_spans_correct layout tables transfer p) (hl_layers layout)"
proof -
  from validated_scatter [OF assms] obtain ss where ss: "scatter_tables layout transfer ordered = Some (Inr ss)" and
    l: "\<And>l. l \<in> set (hl_layers layout) \<Longrightarrow> \<exists>g\<in>set (hl_groups layout). \<exists>spans. cg_group_id g = ly_group_id l \<and>
       map_of ss (ly_group_id l) = Some spans \<and> spans \<noteq> [] \<and>
       concat (map span_writes spans) = reference_writes (layer_table tables l) transfer \<and>
       list_all (span_in_block g (layer_table tables l)) spans" by blast
  let ?h = "\<lambda>l. map (\<lambda>s. \<lparr>lspan_layer_name = ly_layer_name l, lspan_layer_index = ly_layer_index l, lspan_group_span = s\<rparr>)
      (the (map_of ss (ly_group_id l)))"
  define p where "p = \<lparr>sp_transfer = transfer, sp_group_spans = concat (map snd ss),
      sp_layer_spans = concat (map ?h (hl_layers layout))\<rparr>"
  have "layer_spans_correct layout tables transfer p l" if "l \<in> set (hl_layers layout)" for l
  proof -
    have "filter (\<lambda>s. lspan_layer_name s = ly_layer_name l) (concat (map ?h (hl_layers layout))) = ?h l"
      using assms(1) that by (intro filter_concat_name) (auto simp: wf_layout_def)
    then have "spans_for_layer p (ly_layer_name l) = Inr (?h l)"
      using l [OF that] by (auto simp: spans_for_layer_def p_def)
    then show ?thesis using l [OF that] unfolding layer_spans_correct_def
      by (intro exI [of _ "?h l"]) (auto simp: list_all_iff o_def)
  qed
  then show ?thesis using assms(4) ss by (auto simp: plan_token_scatter_def p_def list_all_iff)
qed

lemma slot_of_inj:
  assumes "slot_of table t = slot_of table u" "0 < bt_block_size table" "0 \<le> t" "0 \<le> u"
    "\<And>i j. i \<in> {t div bt_block_size table, u div bt_block_size table} \<Longrightarrow>
       j \<in> {t div bt_block_size table, u div bt_block_size table} \<Longrightarrow>
       bt_block_ids table ! nat i = bt_block_ids table ! nat j \<Longrightarrow> i = j"
    "bt_block_ids table ! nat (t div bt_block_size table) \<noteq> None"
    "bt_block_ids table ! nat (u div bt_block_size table) \<noteq> None"
  shows "t = u"
proof -
  let ?bs = "bt_block_size table"
  obtain a b where ab: "bt_block_ids table ! nat (t div ?bs) = Some a" "bt_block_ids table ! nat (u div ?bs) = Some b"
    using assms(6,7) by blast
  have e: "t mod ?bs + ?bs * a = u mod ?bs + ?bs * b" using assms(1) ab by (simp add: slot_of_def algebra_simps)
  have d: "(r + ?bs * q) div ?bs = q" if "0 \<le> r" "r < ?bs" for r q using that by simp
  have "a = (t mod ?bs + ?bs * a) div ?bs" by (rule sym, rule d) (use assms(2) in simp_all)
  also have "\<dots> = (u mod ?bs + ?bs * b) div ?bs" by (simp only: e)
  also have "\<dots> = b" by (rule d) (use assms(2) in simp_all)
  finally have "a = b" .
  then have "t div ?bs = u div ?bs" "t mod ?bs = u mod ?bs"
    using assms(5) [of "t div ?bs" "u div ?bs"] ab e by simp_all
  then show ?thesis by (metis mult_div_mod_eq)
qed

section \<open>Canonical layer names\<close>

lemma digit_value_dot: "digit_value 46 = None"
  by (simp add: digit_value_def unicode_zeros_def)

lemma match_layer_name_Some:
  "match_layer_name name = Some ds \<longleftrightarrow>
     ds \<noteq> [] \<and> (\<forall>c\<in>set ds. digit_value c \<noteq> None) \<and> name = layer_prefix @ ds @ layer_suffix"
proof
  assume m: "match_layer_name name = Some ds"
  then have "name = layer_prefix @ drop (length layer_prefix) name"
    by (metis (no_types, lifting) append_take_drop_id match_layer_name_def option.simps(3))
  moreover have ds: "ds = takeWhile (\<lambda>c. digit_value c \<noteq> None) (drop (length layer_prefix) name)" "ds \<noteq> []"
    "dropWhile (\<lambda>c. digit_value c \<noteq> None) (drop (length layer_prefix) name) = layer_suffix"
    using m unfolding match_layer_name_def Let_def by (metis option.distinct(1) option.inject)+
  then have "drop (length layer_prefix) name = ds @ layer_suffix"
    using takeWhile_dropWhile_id [of "\<lambda>c. digit_value c \<noteq> None" "drop (length layer_prefix) name"] by simp
  moreover have "\<forall>c\<in>set ds. digit_value c \<noteq> None" using set_takeWhileD unfolding ds(1) by metis
  moreover note ds(2)
  ultimately show "ds \<noteq> [] \<and> (\<forall>c\<in>set ds. digit_value c \<noteq> None) \<and> name = layer_prefix @ ds @ layer_suffix" by auto
next
  assume "ds \<noteq> [] \<and> (\<forall>c\<in>set ds. digit_value c \<noteq> None) \<and> name = layer_prefix @ ds @ layer_suffix"
  then show "match_layer_name name = Some ds"
    using digit_value_dot by (auto simp: match_layer_name_def Let_def layer_suffix_def code_points_def)
qed

lemma digit_value_ascii: "c < 128 \<Longrightarrow> digit_value c = (if 48 \<le> c \<and> c < 58 then Some (c - 48) else None)"
  by (simp add: digit_value_def unicode_zeros_def)

definition ascii_layer_name :: "int \<Rightarrow> pystr" where
  "ascii_layer_name i = layer_prefix @ code_points (py_str_int i) @ layer_suffix"

lemma code_points_single: "n < 10 \<Longrightarrow> code_points (py_str_int (int n)) = [48 + n]"
  by (simp add: py_str_int_def nat_decimal.simps decimal_digit_def code_points_def)

lemma code_points_double: "0 < a \<Longrightarrow> a < 10 \<Longrightarrow> b < 10 \<Longrightarrow> code_points (py_str_int (int (10 * a + b))) = [48 + a, 48 + b]"
  by (simp add: py_str_int_def nat_decimal.simps [of "10 * a + b"] nat_decimal.simps [of a] decimal_digit_def
      code_points_def nat_add_distrib nat_mult_distrib)

lemma ascii_digit: "digit_value c \<noteq> None \<Longrightarrow> c < 128 \<Longrightarrow> \<exists>n<10. c = 48 + n"
  by (rule exI [of _ "c - 48"]) (auto simp: digit_value_ascii split: if_splits)

lemma digit_value_48 [simp]: "n < 10 \<Longrightarrow> digit_value (48 + n) = Some n"
  by (simp add: digit_value_ascii)

lemma canonical_digits:
  assumes "0 \<le> i" "i < GPT_OSS_NUM_LAYERS"
  obtains n where "n < 10" "i = int n" "code_points (py_str_int i) = [48 + n]"
  | a b where "0 < a" "a < 10" "b < 10" "i = int (10 * a + b)" "code_points (py_str_int i) = [48 + a, 48 + b]"
proof (cases "i < 10")
  case True
  then show thesis using that(1) [of "nat i"] assms(1) code_points_single [of "nat i"] by simp
next
  case False
  have "10 * (nat i div 10) + nat i mod 10 = nat i" by simp
  then show thesis using that(2) [of "nat i div 10" "nat i mod 10"] False assms
      code_points_double [of "nat i div 10" "nat i mod 10"] by (simp add: GPT_OSS_NUM_LAYERS_def)
qed

lemma extract_canonical_name:
  assumes "0 \<le> i" "i < GPT_OSS_NUM_LAYERS"
  shows "extract_gpt_oss_layer_index (ascii_layer_name i) = Inr i"
  using canonical_digits [OF assms]
proof cases
  case (1 n)
  then have "match_layer_name (ascii_layer_name i) = Some [48 + n]" by (simp add: match_layer_name_Some ascii_layer_name_def)
  then show ?thesis using 1 assms by (simp add: extract_gpt_oss_layer_index_def parse_digits_def Let_def)
next
  case (2 a b)
  then have "match_layer_name (ascii_layer_name i) = Some [48 + a, 48 + b]"
    by (simp add: match_layer_name_Some ascii_layer_name_def)
  then show ?thesis using 2 assms
    by (simp add: extract_gpt_oss_layer_index_def parse_digits_def Let_def code_points_def)
qed

lemma extract_canonical:
  assumes "list_all (\<lambda>c. c < 128) name"
  shows "extract_gpt_oss_layer_index name = Inr i \<longleftrightarrow>
    0 \<le> i \<and> i < GPT_OSS_NUM_LAYERS \<and> name = ascii_layer_name i"
proof
  assume e: "extract_gpt_oss_layer_index name = Inr i"
  then obtain ds where ds: "match_layer_name name = Some ds" "length ds \<le> 2"
    "\<not> (length ds > 1 \<and> take 1 ds = code_points ''0'')" "i = parse_digits ds" "0 \<le> i" "i < GPT_OSS_NUM_LAYERS"
    by (auto simp: extract_gpt_oss_layer_index_def Let_def not_less split: option.splits if_splits)
  have m: "ds \<noteq> []" "\<forall>c\<in>set ds. digit_value c \<noteq> None" "name = layer_prefix @ ds @ layer_suffix"
    using ds(1) unfolding match_layer_name_Some by blast+
  have digit: "\<exists>n<10. c = 48 + n" if "c \<in> set ds" for c
    using that m(2,3) assms by (intro ascii_digit) (auto simp: list_all_iff)
  consider (one) c where "ds = [c]" | (two) c d where "ds = [c, d]"
    using ds(2) m(1) by (auto simp: le_Suc_eq length_Suc_conv numeral_2_eq_2)
  then have "code_points (py_str_int i) = ds"
  proof cases
    case one
    then obtain n where "n < 10" "c = 48 + n" using digit by auto
    then show ?thesis using ds(4) one code_points_single [of n] by (simp add: parse_digits_def)
  next
    case two
    then obtain a b where ab: "a < 10" "c = 48 + a" "b < 10" "d = 48 + b" using digit [of c] digit [of d] by auto
    then have "0 < a" using ds(3) two by (auto simp: code_points_def)
    then show ?thesis using ab ds(4) two code_points_double [of a b] by (simp add: parse_digits_def)
  qed
  then show "0 \<le> i \<and> i < GPT_OSS_NUM_LAYERS \<and> name = ascii_layer_name i"
    using ds(5,6) m(3) by (simp add: ascii_layer_name_def)
qed (simp add: extract_canonical_name)

section \<open>When planning succeeds\<close>

lemma block_has_token:
  fixes a b k bs :: int
  assumes "0 < bs" "a < b" "a div bs \<le> k" "k \<le> (b - 1) div bs"
  shows "\<exists>t. a \<le> t \<and> t < b \<and> t div bs = k"
proof -
  let ?t = "max a (k * bs)"
  have "k * bs \<le> b - 1" using assms(1,4) by (metis mult.commute order_trans mult_left_mono order_less_imp_le
      add.commute le_add_same_cancel1 mult_div_mod_eq pos_mod_sign)
  moreover have "?t div bs = k"
  proof (cases "a \<le> k * bs")
    case False
    then have "k \<le> a div bs" using assms(1) by (metis linear zdiv_mono1 nonzero_mult_div_cancel_right order_less_irrefl)
    then show ?thesis using False assms(3) by (simp add: max_def)
  qed (use assms(1) in simp)
  ultimately show ?thesis using assms(2) by (intro exI [of _ ?t]) auto
qed

lemma check_table_fits:
  assumes "distinct (map bt_group_id tables)" "t \<in> set tables" "table_fits transfer g t" "0 < cg_block_size g"
    "tr_start (tt_target_range transfer) < tr_end (tt_target_range transfer)"
  shows "check_table tables transfer g = Inr t"
proof -
  let ?a = "tr_start (tt_target_range transfer)" let ?b = "tr_end (tt_target_range transfer)" let ?bs = "cg_block_size g"
  have f: "find (\<lambda>t. bt_group_id t = cg_group_id g) tables = Some t"
    using find_unique_id [OF assms(1,2)] assms(3) by (simp add: table_fits_def)
  have av: "blocks_available ?bs t ?a ?b" "bt_block_size t = ?bs" using assms(3) by (auto simp: table_fits_def)
  have "(?b - 1) div ?bs < int (length (bt_block_ids t))" using av(1) assms(5) by (simp add: blocks_available_def)
  moreover have "\<forall>k\<in>{?a div ?bs..(?b - 1) div ?bs}. bt_block_ids t ! nat k \<noteq> None"
    using block_has_token [OF assms(4,5)] av(1) unfolding blocks_available_def by fastforce
  ultimately show ?thesis using f av(2) by (auto simp: check_table_def Let_def)
qed

lemma validated_tables_iff:
  assumes "wf_layout layout" "list_all wf_group (hl_groups layout)" "wf_transfer transfer"
  shows "(\<exists>ordered. validated_tables layout tables transfer = Inr ordered) \<longleftrightarrow>
    distinct (map bt_group_id tables) \<and> set (map bt_group_id tables) = {0, 1} \<and>
    list_all (\<lambda>g. \<exists>t\<in>set tables. table_fits transfer g t) (hl_groups layout)" (is "?L \<longleftrightarrow> ?R")
proof
  have ids: "set (map cg_group_id (hl_groups layout)) = {0, 1}" using assms(1) by (simp add: wf_layout_def)
  assume ?L
  then obtain ordered where o: "validated_tables layout tables transfer = Inr ordered" by blast
  have "\<forall>g\<in>set (hl_groups layout). wf_group g" using assms(2) by (simp add: list_all_iff)
  note r = validated_tables_Inr [OF o this]
  have "\<exists>t\<in>set tables. table_fits transfer g t" if g: "g \<in> set (hl_groups layout)" for g
  proof -
    obtain k where "k < length (sort_key cg_group_id (hl_groups layout))" "sort_key cg_group_id (hl_groups layout) ! k = g"
      using g by (metis in_set_conv_nth set_sort)
    then show ?thesis using r by (auto simp: list_all2_conv_all_nth)
  qed
  then show ?R using o ids by (auto simp: validated_tables_def Let_def list_all_iff split: if_splits)
next
  have ids: "set (map cg_group_id (hl_groups layout)) = {0, 1}" using assms(1) by (simp add: wf_layout_def)
  assume R: ?R
  have "\<exists>t. check_table tables transfer g = Inr t" if g: "g \<in> set (hl_groups layout)" for g
    using R g assms(2,3) check_table_fits [of tables _ transfer g]
    by (auto simp: list_all_iff wf_group_def wf_transfer_def range_len_def)
  then obtain f where "\<forall>g\<in>set (sort_key cg_group_id (hl_groups layout)). check_table tables transfer g = Inr (f g)"
    by (simp only: set_sort) metis
  from rmap_total [OF this] show ?L using R ids by (auto simp: validated_tables_def Let_def)
qed

lemma distinct_filter_nth:
  assumes "distinct (filter P xs)" "i < length xs" "j < length xs" "xs ! i = xs ! j" "P (xs ! i)"
  shows "i = j"
  using assms
proof (induction xs arbitrary: i j)
  case (Cons x xs)
  then show ?case by (cases i; cases j) (auto split: if_splits)
qed simp

lemma distinct_reference_slots:
  assumes "table_fits transfer g table" "0 < cg_block_size g" "wf_range (tt_target_range transfer)"
    "distinct (filter (\<lambda>b. b \<noteq> None) (bt_block_ids table))"
  shows "distinct (map (snd \<circ> snd) (reference_writes table transfer))"
proof -
  let ?bs = "bt_block_size table" let ?ids = "bt_block_ids table"
  have "t = u" if "slot_of table t = slot_of table u" "t \<in> {tr_start (tt_target_range transfer)..tr_end (tt_target_range transfer) - 1}"
    "u \<in> {tr_start (tt_target_range transfer)..tr_end (tt_target_range transfer) - 1}" for t u
  proof (rule slot_of_inj [OF that(1)])
    have d: "0 \<le> k div ?bs" "k div ?bs < int (length ?ids)" "?ids ! nat (k div ?bs) \<noteq> None" if "k \<in> {t, u}" for k
      using that assms(1-3) \<open>t \<in> _\<close> \<open>u \<in> _\<close>
      by (auto simp: table_fits_def blocks_available_def wf_range_def pos_imp_zdiv_nonneg_iff)
    then show "?ids ! nat (t div ?bs) \<noteq> None" "?ids ! nat (u div ?bs) \<noteq> None" by blast+
    show "i = j" if "i \<in> {t div ?bs, u div ?bs}" "j \<in> {t div ?bs, u div ?bs}" "?ids ! nat i = ?ids ! nat j" for i j
    proof -
      have "nat i < length ?ids" "nat j < length ?ids" "?ids ! nat i \<noteq> None" "0 \<le> i" "0 \<le> j"
        using that(1,2) d [of t] d [of u] by auto
      then have "nat i = nat j" using that(3) distinct_filter_nth [OF assms(4), of "nat i" "nat j"] by simp
      then show ?thesis using \<open>0 \<le> i\<close> \<open>0 \<le> j\<close> by simp
    qed
  qed (use assms that in \<open>auto simp: table_fits_def wf_range_def\<close>)
  then show ?thesis by (auto simp: reference_writes_def distinct_map inj_on_def o_def)
qed

section \<open>A concrete layout\<close>

definition example_groups :: "CacheGroupLayout list" where
  "example_groups =
    [\<lparr>cg_group_id = 0, cg_attention_kind = SLIDING, cg_layer_names = map (\<lambda>i. ascii_layer_name (2 * i)) [0..11],
      cg_block_size = 4, cg_sliding_window = Some 128\<rparr>,
     \<lparr>cg_group_id = 1, cg_attention_kind = FULL, cg_layer_names = map (\<lambda>i. ascii_layer_name (2 * i + 1)) [0..11],
      cg_block_size = 4, cg_sliding_window = None\<rparr>]"

definition example_transfer :: TokenTransfer where
  "example_transfer = \<lparr>tt_source_range = \<lparr>tr_start = 0, tr_end = 3\<rparr>, tt_target_range = \<lparr>tr_start = 2, tr_end = 5\<rparr>\<rparr>"

definition example_tables :: "GroupBlockTable list" where
  "example_tables = [\<lparr>bt_group_id = 1, bt_block_size = 4, bt_block_ids = [Some 9, Some 5]\<rparr>,
     \<lparr>bt_group_id = 0, bt_block_size = 4, bt_block_ids = [Some 2, Some 7]\<rparr>]"

lemma ascii_layer_name_inj:
  assumes "ascii_layer_name i = ascii_layer_name j" "0 \<le> i" "i < GPT_OSS_NUM_LAYERS" "0 \<le> j" "j < GPT_OSS_NUM_LAYERS"
  shows "i = j"
  using extract_canonical_name [OF assms(2,3), unfolded assms(1)] extract_canonical_name [OF assms(4,5)] by simp

lemma collect_canonical_layers:
  assumes "distinct (map snd gis)" "set (map snd gis) \<inter> idx = {}" "idx \<subseteq> {0..<GPT_OSS_NUM_LAYERS}"
    "list_all (\<lambda>(g, i). 0 \<le> i \<and> i < GPT_OSS_NUM_LAYERS \<and> cg_attention_kind g = expected_kind i) gis"
  shows "collect_layers (ascii_layer_name ` idx) idx layers (map (\<lambda>(g, i). (g, ascii_layer_name i)) gis) =
    Inr (idx \<union> set (map snd gis), layers @ map (\<lambda>(g, i). layer_of g (ascii_layer_name i) i) gis)"
  using assms
proof (induction gis arbitrary: idx layers)
  case (Cons gi gis)
  obtain g i where gi: "gi = (g, i)" by (cases gi)
  have i: "0 \<le> i" "i < GPT_OSS_NUM_LAYERS" "i \<notin> idx" "cg_attention_kind g = expected_kind i" using Cons.prems gi by auto
  have "ascii_layer_name i \<notin> ascii_layer_name ` idx"
    using i Cons.prems(3) ascii_layer_name_inj [of i] by fastforce
  moreover have "collect_layers (ascii_layer_name ` insert i idx) (insert i idx) (layers @ [layer_of g (ascii_layer_name i) i])
      (map (\<lambda>(g, i). (g, ascii_layer_name i)) gis) =
    Inr (insert i idx \<union> set (map snd gis), (layers @ [layer_of g (ascii_layer_name i) i]) @
      map (\<lambda>(g, i). layer_of g (ascii_layer_name i) i) gis)"
    using Cons.prems gi i by (intro Cons.IH) auto
  ultimately show ?case using i gi by (simp add: extract_canonical_name)
qed simp

lemma example_layout_exists: "\<exists>layout. GptOssHybridCacheLayout_init example_groups = Inr layout"
proof -
  let ?gis = "map (\<lambda>i. (example_groups ! 0, 2 * i)) [0..11] @ map (\<lambda>i. (example_groups ! 1, 2 * i + 1)) [0..11 :: int]"
  have "group_layer_pairs example_groups = map (\<lambda>(g, i). (g, ascii_layer_name i)) ?gis"
    by (simp add: group_layer_pairs_def example_groups_def upto_rec1)
  moreover have "set (map snd ?gis) = {0..23}"
  proof (rule set_eqI)
    show "x \<in> set (map snd ?gis) \<longleftrightarrow> x \<in> {0..23}" for x
      by (cases "even x") (auto simp: image_iff elim!: evenE oddE)
  qed
  ultimately have "collect_layers {} {} [] (group_layer_pairs example_groups) =
      Inr ({0..23}, map (\<lambda>(g, i). layer_of g (ascii_layer_name i) i) ?gis)"
    using collect_canonical_layers [of ?gis "{}" "[]"]
    by (simp add: expected_kind_def example_groups_def GPT_OSS_NUM_LAYERS_def upto_rec1)
  then show ?thesis
    by (simp add: GptOssHybridCacheLayout_init_def example_groups_def GPT_OSS_NUM_CACHE_GROUPS_def
        GPT_OSS_NUM_LAYERS_def upt_rec insert_commute)
qed

lemma example_groups_wf: "list_all wf_group example_groups"
  by (simp add: example_groups_def wf_group_def GPT_OSS_SLIDING_WINDOW_def)

lemma example_transfer_wf: "wf_transfer example_transfer"
  by (simp add: example_transfer_def wf_transfer_def wf_range_def range_len_def GPT_OSS_MAX_CONTEXT_TOKENS_def)

lemma example_tables_valid:
  assumes "hl_groups layout = example_groups"
  shows "\<exists>ordered. validated_tables layout example_tables example_transfer = Inr ordered"
  using assms by (simp add: validated_tables_def example_tables_def example_groups_def check_table_def Let_def
      example_transfer_def upto_rec1)

section \<open>Properties\<close>

text \<open>
  C27. A layout that validates is complete: its layers are the indices 0 to 23 in execution order,
  each bound to one of the two groups, sliding attention on the even and full attention on the odd
  layers, and looking a layer up by its name finds it.
\<close>

theorem hybrid_layout_complete:
  assumes "GptOssHybridCacheLayout_init groups = Inr layout"
  shows "map ly_layer_index (hl_layers layout) = [0..23] \<and>
    list_all (\<lambda>l. ly_attention_kind l = (if ly_layer_index l mod 2 = 0 then SLIDING else FULL) \<and>
      layout_layer layout (ly_layer_name l) = Inr l \<and>
      (\<exists>g\<in>set groups. layout_group layout (ly_group_id l) = Inr g \<and> ly_layer_name l \<in> set (cg_layer_names g) \<and>
         l = layer_of g (ly_layer_name l) (ly_layer_index l))) (hl_layers layout)"
proof -
  have wf: "wf_layout layout" "hl_groups layout = groups" using GptOssHybridCacheLayout_init_wf [OF assms] by auto
  then have d: "distinct (map ly_layer_name (hl_layers layout))" "distinct (map cg_group_id (hl_groups layout))"
    by (auto simp: wf_layout_def)
  have "layout_group layout (ly_group_id l) = Inr g"
    if "g \<in> set groups" "l = layer_of g (ly_layer_name l) (ly_layer_index l)" for g l
    using layout_group_unique [OF d(2), of g] that(1) wf(2) arg_cong [OF that(2), of ly_group_id]
    by (simp add: layer_of_def)
  moreover have "layout_layer layout (ly_layer_name l) = Inr l" if "l \<in> set (hl_layers layout)" for l
    using find_unique_id [OF d(1) that] by (simp add: layout_layer_def)
  ultimately show ?thesis using wf
    unfolding wf_layout_def list_all_iff expected_kind_def GPT_OSS_NUM_LAYERS_def by (simp, blast)
qed

theorem hybrid_layout_complete_witness:
  "\<exists>layout. GptOssHybridCacheLayout_init example_groups = Inr layout \<and> map ly_layer_index (hl_layers layout) = [0..23]"
  using example_layout_exists hybrid_layout_complete [of example_groups] by blast

text \<open>
  C26. Planning a scatter always returns.  It either reports the layout error found while checking the
  tables, or a plan in which every one of the 24 layers receives exactly the writes of the reference
  semantics for its group's block table: each token of the transfer once, in order, at the slot
  block id times block size plus offset, in spans that never cross a block boundary.  No index,
  assertion or range error can occur.
\<close>

theorem plan_token_scatter_correct:
  assumes "GptOssHybridCacheLayout_init groups = Inr layout" "list_all wf_group groups" "wf_transfer transfer"
  shows "(\<exists>c. validated_tables layout tables transfer = Inl c \<and>
      plan_token_scatter layout tables transfer = Some (Inl (LayoutError c))) \<or>
    (\<exists>p. plan_token_scatter layout tables transfer = Some (Inr p) \<and> sp_transfer p = transfer \<and>
      list_all (layer_spans_correct layout tables transfer p) (hl_layers layout))"
proof (cases "validated_tables layout tables transfer")
  case (Inl c)
  then show ?thesis by (simp add: plan_token_scatter_def)
next
  case (Inr ordered)
  then show ?thesis
    using plan_token_scatter_layers [OF _ _ assms(3) Inr] GptOssHybridCacheLayout_init_wf [OF assms(1)] assms(2) by simp
qed

theorem plan_token_scatter_correct_witness:
  "\<exists>layout p. plan_token_scatter layout example_tables example_transfer = Some (Inr p) \<and>
     list_all (layer_spans_correct layout example_tables example_transfer p) (hl_layers layout) \<and> hl_layers layout \<noteq> []"
proof -
  obtain layout where l: "GptOssHybridCacheLayout_init example_groups = Inr layout" using example_layout_exists by blast
  note wf = GptOssHybridCacheLayout_init_wf [OF l]
  obtain ordered where "validated_tables layout example_tables example_transfer = Inr ordered"
    using example_tables_valid wf by blast
  moreover have "hl_layers layout \<noteq> []" using wf by (auto simp: wf_layout_def GPT_OSS_NUM_LAYERS_def)
  ultimately show ?thesis
    using plan_token_scatter_correct [OF l example_groups_wf example_transfer_wf, of example_tables] by auto
qed

text \<open>
  A scatter plan exists exactly when there is one table for each of the two groups, of the
  group's block size, long enough for the target range and with every touched block available.
\<close>

lemma scatter_plan_exists_iff:
  assumes "GptOssHybridCacheLayout_init groups = Inr layout" "list_all wf_group groups" "wf_transfer transfer"
  shows "(\<exists>p. plan_token_scatter layout tables transfer = Some (Inr p)) \<longleftrightarrow>
    distinct (map bt_group_id tables) \<and> set (map bt_group_id tables) = {0, 1} \<and>
    list_all (\<lambda>g. \<exists>t\<in>set tables. table_fits transfer g t) groups"
proof -
  note wf = GptOssHybridCacheLayout_init_wf [OF assms(1)]
  have "(\<exists>p. plan_token_scatter layout tables transfer = Some (Inr p)) \<longleftrightarrow>
      (\<exists>ordered. validated_tables layout tables transfer = Inr ordered)"
    using plan_token_scatter_layers [of layout transfer tables] wf assms(2,3)
    by (cases "validated_tables layout tables transfer") (auto simp: plan_token_scatter_def [of layout])
  then show ?thesis using validated_tables_iff [of layout transfer tables] wf assms(2,3) by simp
qed

lemma scatter_plan_exists_iff_witness:
  "\<exists>layout p. plan_token_scatter layout example_tables example_transfer = Some (Inr p)"
proof -
  obtain layout where l: "GptOssHybridCacheLayout_init example_groups = Inr layout" using example_layout_exists by blast
  have "t div 4 \<in> {0, 1}" if "2 \<le> t" "t < 5" for t :: int
    using that zdiv_mono1 [of t 4 4] zdiv_mono1 [of 2 t 4] by auto
  then have "list_all (\<lambda>g. \<exists>t\<in>set example_tables. table_fits example_transfer g t) example_groups"
    by (force simp: example_groups_def example_tables_def example_transfer_def table_fits_def blocks_available_def)
  then show ?thesis
    using scatter_plan_exists_iff [OF l example_groups_wf example_transfer_wf, of example_tables]
    by (auto simp: example_tables_def)
qed

text \<open>
  No two tokens of a transfer are written to the same physical slot of a layer, provided the
  block table lists no block twice.
\<close>

lemma scatter_slots_distinct:
  assumes "GptOssHybridCacheLayout_init groups = Inr layout" "list_all wf_group groups" "wf_transfer transfer"
    "plan_token_scatter layout tables transfer = Some (Inr p)" "l \<in> set (hl_layers layout)"
    "spans_for_layer p (ly_layer_name l) = Inr spans"
    "distinct (filter (\<lambda>b. b \<noteq> None) (bt_block_ids (layer_table tables l)))"
  shows "distinct (map (snd \<circ> snd) (concat (map (span_writes \<circ> lspan_group_span) spans)))"
proof -
  have wf: "wf_layout layout" "hl_groups layout = groups" using GptOssHybridCacheLayout_init_wf [OF assms(1)] by auto
  obtain ordered where v: "validated_tables layout tables transfer = Inr ordered"
    using assms(4) by (auto simp: plan_token_scatter_def split: sum.splits)
  have "layer_spans_correct layout tables transfer p l"
    using plan_token_scatter_layers [OF wf(1) _ assms(3) v] assms(2,4,5) wf(2) by (auto simp: list_all_iff)
  then have r: "concat (map (span_writes \<circ> lspan_group_span) spans) = reference_writes (layer_table tables l) transfer"
    using assms(6) by (auto simp: layer_spans_correct_def)
  obtain g where g: "g \<in> set groups" and lg: "l = layer_of g (ly_layer_name l) (ly_layer_index l)"
    using wf assms(5) unfolding wf_layout_def list_all_iff by blast
  then have "\<exists>t\<in>set tables. table_fits transfer g t" and d: "distinct (map bt_group_id tables)"
    using validated_tables_iff [of layout transfer tables] wf v assms(2,3) by (auto simp: list_all_iff)
  then obtain t where t: "t \<in> set tables" "table_fits transfer g t" by blast
  have "ly_group_id l = cg_group_id g" using arg_cong [OF lg, of ly_group_id] by (simp add: layer_of_def)
  then have "layer_table tables l = t"
    using find_unique_id [OF d t(1)] t(2) by (simp add: layer_table_def table_fits_def)
  then show ?thesis unfolding r
    using distinct_reference_slots [OF t(2)] assms(2,3,7) g by (auto simp: list_all_iff wf_group_def wf_transfer_def)
qed

lemma scatter_slots_distinct_witness:
  "\<exists>layout p l spans. spans_for_layer p (ly_layer_name l) = Inr spans \<and> l \<in> set (hl_layers layout) \<and>
     plan_token_scatter layout example_tables example_transfer = Some (Inr p) \<and>
     distinct (map (snd \<circ> snd) (concat (map (span_writes \<circ> lspan_group_span) spans)))"
proof -
  obtain layout where l: "GptOssHybridCacheLayout_init example_groups = Inr layout" using example_layout_exists by blast
  note wf = GptOssHybridCacheLayout_init_wf [OF l]
  obtain ordered where v: "validated_tables layout example_tables example_transfer = Inr ordered"
    using example_tables_valid wf by blast
  from plan_token_scatter_layers [OF _ _ example_transfer_wf v] wf example_groups_wf
  obtain p where p: "plan_token_scatter layout example_tables example_transfer = Some (Inr p)"
    "list_all (layer_spans_correct layout example_tables example_transfer p) (hl_layers layout)" by auto
  obtain a where a: "a \<in> set (hl_layers layout)"
    using wf by (cases "hl_layers layout") (auto simp: wf_layout_def GPT_OSS_NUM_LAYERS_def)
  then obtain spans where s: "spans_for_layer p (ly_layer_name a) = Inr spans"
    using p(2) by (auto simp: list_all_iff layer_spans_correct_def)
  have "ly_group_id a \<in> {0, 1}"
    using a wf unfolding wf_layout_def list_all_iff by (metis AttentionLayerLayout.select_convs(3) image_eqI layer_of_def set_map)
  then have "distinct (filter (\<lambda>b. b \<noteq> None) (bt_block_ids (layer_table example_tables a)))"
    by (auto simp: layer_table_def example_tables_def)
  then show ?thesis
    using scatter_slots_distinct [OF l example_groups_wf example_transfer_wf p(1) a s] p(1) a s by blast
qed

text \<open>
  On ASCII names the layer-name parser is the exact inverse of naming: it accepts precisely
  the 24 canonical names, without leading zeros, and returns their index.
\<close>

lemma layer_name_canonical:
  assumes "list_all (\<lambda>c. c < 128) name"
  shows "extract_gpt_oss_layer_index name = Inr i \<longleftrightarrow>
    0 \<le> i \<and> i < 24 \<and> name = code_points ''model.layers.'' @ code_points (py_str_int i) @ code_points ''.attn.attn''"
  using extract_canonical [OF assms]
  by (simp add: GPT_OSS_NUM_LAYERS_def ascii_layer_name_def layer_prefix_def layer_suffix_def)

lemma layer_name_canonical_witness:
  "extract_gpt_oss_layer_index (code_points ''model.layers.17.attn.attn'') = Inr 17"
proof -
  have "code_points ''model.layers.17.attn.attn'' =
      code_points ''model.layers.'' @ code_points (py_str_int 17) @ code_points ''.attn.attn''"
    using code_points_double [of 1 7] by (simp add: code_points_def)
  moreover have "list_all (\<lambda>c. c < 128) (code_points ''model.layers.17.attn.attn'')" by (simp add: code_points_def)
  ultimately show ?thesis using layer_name_canonical [of "code_points ''model.layers.17.attn.attn''" 17] by simp
qed

text \<open>
  Outside ASCII the pattern admits aliases: the full-width digit three, and a two-digit form with a
  leading Arabic-Indic zero, name layer 3 as well, although neither is the canonical name.
\<close>

lemma unicode_digit_aliases:
  "extract_gpt_oss_layer_index (layer_prefix @ [0xFF13] @ layer_suffix) = Inr 3 \<and>
   extract_gpt_oss_layer_index (layer_prefix @ [0x660, 0x663] @ layer_suffix) = Inr 3 \<and>
   layer_prefix @ [0xFF13] @ layer_suffix \<noteq> ascii_layer_name 3"
proof -
  have d: "digit_value 0xFF13 = Some 3" "digit_value 0x660 = Some 0" "digit_value 0x663 = Some 3"
    by (simp_all add: digit_value_def unicode_zeros_def)
  then have m: "match_layer_name (layer_prefix @ [0xFF13] @ layer_suffix) = Some [0xFF13]"
    "match_layer_name (layer_prefix @ [0x660, 0x663] @ layer_suffix) = Some [0x660, 0x663]"
    by (simp_all add: match_layer_name_Some)
  have "code_points (py_str_int 3) = [51]" using code_points_single [of 3] by simp
  then show ?thesis
    unfolding extract_gpt_oss_layer_index_def m ascii_layer_name_def
    by (simp add: parse_digits_def d GPT_OSS_NUM_LAYERS_def code_points_def)
qed

end
