(* ===== verification/Selective.thy ===== *)
theory Selective
  imports Layout
begin

text \<open>
  \<^verbatim>\<open>gpt_oss/selective.py\<close>, \<^verbatim>\<open>gpt_oss/forward_output.py\<close> and
  \<^verbatim>\<open>gpt_oss/selective_runtime.py\<close>: per-layer row selections and their complements, the
  full-shaped output contract, and the bridge that binds one row plan around a model call.  The
  context variable is an explicit state \<open>ForwardRowPlan option\<close>; the model call and the shape
  reader are parameters that may raise.
\<close>

section \<open>Row selections\<close>

datatype SelectivePlanErrorCode =
    INVALID_PROMPT_LENGTH | INVALID_LAYER_COUNT | INVALID_LAYER_INDEX | INVALID_RANGE | RANGE_OUT_OF_BOUNDS
  | OVERLAPPING_RANGES | NON_CANONICAL_RANGES | ACTIVE_CONTEXT | MISSING_CONTEXT

definition validate_prompt_tokens :: "pyval \<Rightarrow> SelectivePlanErrorCode + int" where
  "validate_prompt_tokens v =
     (if \<not> is_plain_int v \<or> the_int v < 0 \<or> the_int v > GPT_OSS_MAX_CONTEXT_TOKENS
      then Inl INVALID_PROMPT_LENGTH else Inr (the_int v))"

fun check_ranges :: "int \<Rightarrow> TokenRange list \<Rightarrow> SelectivePlanErrorCode + unit" where
  "check_ranges n [] = Inr ()"
| "check_ranges n (r # rs) =
     (if range_len r = 0 then Inl INVALID_RANGE
      else if tr_end r > n then Inl RANGE_OUT_OF_BOUNDS
      else check_ranges n rs)"

definition normalize_ranges :: "pyval \<Rightarrow> TokenRange list \<Rightarrow> SelectivePlanErrorCode + TokenRange list" where
  "normalize_ranges prompt_tokens ranges =
     rbind (validate_prompt_tokens prompt_tokens) (\<lambda>n.
       rbind (check_ranges n ranges) (\<lambda>_.
         let ordered = sort_key (\<lambda>r. (tr_start r, tr_end r)) ranges in
         if ordered \<noteq> ranges then Inl NON_CANONICAL_RANGES
         else if \<exists>(left, right)\<in>set (zip ordered (tl ordered)). overlaps left right then Inl OVERLAPPING_RANGES
         else Inr ordered))"

fun complement_loop :: "int \<Rightarrow> int \<Rightarrow> TokenRange list \<Rightarrow> TokenRange list" where
  "complement_loop n cursor [] = (if cursor < n then [\<lparr>tr_start = cursor, tr_end = n\<rparr>] else [])"
| "complement_loop n cursor (r # rs) =
     (if cursor < tr_start r then [\<lparr>tr_start = cursor, tr_end = tr_start r\<rparr>] else []) @
     complement_loop n (tr_end r) rs"

definition complement :: "int \<Rightarrow> TokenRange list \<Rightarrow> TokenRange list" where
  "complement prompt_tokens excluded = complement_loop prompt_tokens 0 excluded"

definition range_token_count :: "TokenRange list \<Rightarrow> int" where
  "range_token_count rs = sum_list (map range_len rs)"

record LayerRowSelection =
  lr_layer_index :: int
  lr_prompt_tokens :: int
  lr_recompute_ranges :: "TokenRange list"

definition LayerRowSelection_init ::
    "pyval \<Rightarrow> pyval \<Rightarrow> TokenRange list \<Rightarrow> SelectivePlanErrorCode + LayerRowSelection" where
  "LayerRowSelection_init layer_index prompt_tokens ranges =
     (if \<not> is_plain_int layer_index \<or> \<not> (0 \<le> the_int layer_index \<and> the_int layer_index < GPT_OSS_NUM_LAYERS)
      then Inl INVALID_LAYER_INDEX
      else rbind (validate_prompt_tokens prompt_tokens) (\<lambda>n.
        rbind (normalize_ranges prompt_tokens ranges) (\<lambda>normalized.
          Inr \<lparr>lr_layer_index = the_int layer_index, lr_prompt_tokens = n, lr_recompute_ranges = normalized\<rparr>)))"

definition layer_recompute_tokens :: "LayerRowSelection \<Rightarrow> int" where
  "layer_recompute_tokens s = range_token_count (lr_recompute_ranges s)"

definition cached_ranges :: "LayerRowSelection \<Rightarrow> TokenRange list" where
  "cached_ranges s = complement (lr_prompt_tokens s) (lr_recompute_ranges s)"

definition layer_cached_tokens :: "LayerRowSelection \<Rightarrow> int" where
  "layer_cached_tokens s = range_token_count (cached_ranges s)"

definition covers_prompt :: "LayerRowSelection \<Rightarrow> bool" where
  "covers_prompt s \<longleftrightarrow> layer_recompute_tokens s + layer_cached_tokens s = lr_prompt_tokens s"

definition layer_is_full_recompute :: "LayerRowSelection \<Rightarrow> bool" where
  "layer_is_full_recompute s \<longleftrightarrow> layer_cached_tokens s = 0"

section \<open>Forward row plans\<close>

record ForwardRowPlan =
  fp_prompt_tokens :: int
  fp_layers :: "LayerRowSelection list"

fun check_layers :: "int \<Rightarrow> int \<Rightarrow> LayerRowSelection list \<Rightarrow> SelectivePlanErrorCode + unit" where
  "check_layers n expected_index [] = Inr ()"
| "check_layers n expected_index (l # ls) =
     (if lr_layer_index l \<noteq> expected_index then Inl INVALID_LAYER_INDEX
      else if lr_prompt_tokens l \<noteq> n \<or> \<not> covers_prompt l then Inl INVALID_PROMPT_LENGTH
      else check_layers n (expected_index + 1) ls)"

definition ForwardRowPlan_init ::
    "pyval \<Rightarrow> LayerRowSelection list \<Rightarrow> SelectivePlanErrorCode + ForwardRowPlan" where
  "ForwardRowPlan_init prompt_tokens layers =
     rbind (validate_prompt_tokens prompt_tokens) (\<lambda>n.
       if int (length layers) \<noteq> GPT_OSS_NUM_LAYERS then Inl INVALID_LAYER_COUNT
       else rbind (check_layers n 0 layers) (\<lambda>_.
         Inr \<lparr>fp_prompt_tokens = n, fp_layers = layers\<rparr>))"

definition full_recompute :: "pyval \<Rightarrow> SelectivePlanErrorCode + ForwardRowPlan" where
  "full_recompute prompt_tokens =
     rbind (validate_prompt_tokens prompt_tokens) (\<lambda>n.
       let full_range = (if n \<noteq> 0 then [\<lparr>tr_start = 0, tr_end = n\<rparr>] else []) in
       rbind (rmap (\<lambda>index. LayerRowSelection_init (PInt index) prompt_tokens full_range) [0..GPT_OSS_NUM_LAYERS - 1])
         (\<lambda>layers. ForwardRowPlan_init prompt_tokens layers))"

definition from_recompute_ranges :: "pyval \<Rightarrow> TokenRange list list \<Rightarrow> SelectivePlanErrorCode + ForwardRowPlan" where
  "from_recompute_ranges prompt_tokens ranges =
     rbind (validate_prompt_tokens prompt_tokens) (\<lambda>n.
       if int (length ranges) \<noteq> GPT_OSS_NUM_LAYERS then Inl INVALID_LAYER_COUNT
       else rbind (rmap (\<lambda>(index, layer_ranges). LayerRowSelection_init (PInt (int index)) prompt_tokens layer_ranges)
              (List.enumerate 0 ranges))
         (\<lambda>layers. ForwardRowPlan_init prompt_tokens layers))"

definition plan_recompute_tokens :: "ForwardRowPlan \<Rightarrow> int" where
  "plan_recompute_tokens p = sum_list (map layer_recompute_tokens (fp_layers p))"

definition plan_cached_tokens :: "ForwardRowPlan \<Rightarrow> int" where
  "plan_cached_tokens p = sum_list (map layer_cached_tokens (fp_layers p))"

definition plan_is_full_recompute :: "ForwardRowPlan \<Rightarrow> bool" where
  "plan_is_full_recompute p \<longleftrightarrow> plan_cached_tokens p = 0"

definition plan_layer :: "ForwardRowPlan \<Rightarrow> pyval \<Rightarrow> SelectivePlanErrorCode + LayerRowSelection" where
  "plan_layer p layer_index =
     (if \<not> is_plain_int layer_index \<or> \<not> (0 \<le> the_int layer_index \<and> the_int layer_index < GPT_OSS_NUM_LAYERS)
      then Inl INVALID_LAYER_INDEX
      else Inr (fp_layers p ! nat (the_int layer_index)))"

section \<open>The worker-local context\<close>

text \<open>
  \<^verbatim>\<open>ForwardRowPlanContext.bind\<close> as a combinator: the body runs with the plan bound, and the
  variable is reset to its previous value whether the body returns or raises.  \<open>raise_plan\<close> injects
  the error of the context manager into the body's exceptions.
\<close>

type_synonym context_var = "ForwardRowPlan option"

definition bind_context ::
    "(SelectivePlanErrorCode \<Rightarrow> 'e) \<Rightarrow> ForwardRowPlan \<Rightarrow> (context_var \<Rightarrow> ('e + 'a) \<times> context_var) \<Rightarrow>
     context_var \<Rightarrow> ('e + 'a) \<times> context_var" where
  "bind_context raise_plan p body active =
     (if active \<noteq> None then (Inl (raise_plan ACTIVE_CONTEXT), active)
      else (fst (body (Some p)), active))"

definition current :: "context_var \<Rightarrow> SelectivePlanErrorCode + ForwardRowPlan" where
  "current active = (case active of None \<Rightarrow> Inl MISSING_CONTEXT | Some p \<Rightarrow> Inr p)"

section \<open>The output contract\<close>

datatype ForwardOutputErrorCode =
    INVALID_EXPECTED_ROWS | INVALID_ACTUAL_ROWS | ROW_COUNT_MISMATCH | INVALID_HIDDEN_SIZE | INVALID_HIDDEN_RANK
  | INVALID_LOGITS_INDEX | LOGITS_INDEX_OUT_OF_RANGE | LOGITS_INDICES_NOT_INCREASING

definition bounded_nonnegative :: "pyval \<Rightarrow> ForwardOutputErrorCode \<Rightarrow> ForwardOutputErrorCode + int" where
  "bounded_nonnegative v code = (if \<not> nonneg_int v then Inl code else Inr (the_int v))"

record ForwardOutputContract =
  fo_expected_rows :: int
  fo_actual_rows :: int
  fo_hidden_size :: int
  fo_logits_indices :: "int list"

fun normalize_logits :: "int \<Rightarrow> int \<Rightarrow> pyval list \<Rightarrow> ForwardOutputErrorCode + int list" where
  "normalize_logits actual previous [] = Inr []"
| "normalize_logits actual previous (v # vs) =
     (if \<not> is_plain_int v then Inl INVALID_LOGITS_INDEX
      else if the_int v < 0 \<or> the_int v \<ge> actual then Inl LOGITS_INDEX_OUT_OF_RANGE
      else if the_int v \<le> previous then Inl LOGITS_INDICES_NOT_INCREASING
      else rbind (normalize_logits actual (the_int v) vs) (\<lambda>rest. Inr (the_int v # rest)))"

definition ForwardOutputContract_validate ::
    "pyval \<Rightarrow> pyval list \<Rightarrow> pyval \<Rightarrow> pyval list \<Rightarrow> ForwardOutputErrorCode + ForwardOutputContract" where
  "ForwardOutputContract_validate expected_rows shape hidden_size logits_indices =
     rbind (bounded_nonnegative expected_rows INVALID_EXPECTED_ROWS) (\<lambda>expected.
       if length shape \<noteq> 2 then Inl INVALID_HIDDEN_RANK
       else rbind (bounded_nonnegative (shape ! 0) INVALID_ACTUAL_ROWS) (\<lambda>actual.
         if actual \<noteq> expected then Inl ROW_COUNT_MISMATCH
         else rbind (bounded_nonnegative hidden_size INVALID_HIDDEN_SIZE) (\<lambda>width.
           rbind (bounded_nonnegative (shape ! 1) INVALID_HIDDEN_SIZE) (\<lambda>shape_width.
             if width = 0 \<or> shape_width \<noteq> width then Inl INVALID_HIDDEN_SIZE
             else rbind (normalize_logits actual (-1) logits_indices) (\<lambda>normalized.
               Inr \<lparr>fo_expected_rows = expected, fo_actual_rows = actual, fo_hidden_size = width,
                    fo_logits_indices = normalized\<rparr>)))))"

section \<open>The forward bridge\<close>

datatype SelectiveForwardErrorCode =
    INVALID_PLAN | INVALID_FORWARD | FORWARD_FAILED | INVALID_OUTPUT | ACTIVE_CONTEXT | INPUT_IDS_REQUIRED
  | POSITIONS_REQUIRED | PROMPT_EMBEDS_UNSUPPORTED

text \<open>
  What the injected callables can raise: a row-plan error, any other \<^verbatim>\<open>Exception\<close>, of which
  \<^verbatim>\<open>TypeError\<close> and \<^verbatim>\<open>ValueError\<close> are told apart, or an exception outside
  \<^verbatim>\<open>Exception\<close> such as an interrupt.
\<close>

datatype raised = PlanRaise SelectivePlanErrorCode | TypeOrValueError | OtherException | NonException

datatype bridge_error = SelectiveForwardError SelectiveForwardErrorCode | Propagated raised

record 'o SelectiveForwardResult =
  sf_output :: 'o
  sf_contract :: ForwardOutputContract

definition bridge_run ::
    "ForwardRowPlan \<Rightarrow> pyval \<Rightarrow> pyval \<Rightarrow> pyval list \<Rightarrow> (context_var \<Rightarrow> (raised + 'o) \<times> context_var) \<Rightarrow>
     ('o \<Rightarrow> raised + pyval list) \<Rightarrow> context_var \<Rightarrow> (bridge_error + 'o SelectiveForwardResult) \<times> context_var" where
  "bridge_run p expected_rows hidden_size logits_indices forward hidden_shape active =
     (case bind_context PlanRaise p forward active of
        (Inl (PlanRaise SelectivePlanErrorCode.ACTIVE_CONTEXT), active') \<Rightarrow>
          (Inl (SelectiveForwardError ACTIVE_CONTEXT), active')
      | (Inl NonException, active') \<Rightarrow> (Inl (Propagated NonException), active')
      | (Inl _, active') \<Rightarrow> (Inl (SelectiveForwardError FORWARD_FAILED), active')
      | (Inr output, active') \<Rightarrow>
          (case hidden_shape output of
             Inl (PlanRaise _) \<Rightarrow> (Inl (SelectiveForwardError INVALID_OUTPUT), active')
           | Inl TypeOrValueError \<Rightarrow> (Inl (SelectiveForwardError INVALID_OUTPUT), active')
           | Inl e \<Rightarrow> (Inl (Propagated e), active')
           | Inr shape \<Rightarrow>
               (case ForwardOutputContract_validate expected_rows shape hidden_size logits_indices of
                  Inl _ \<Rightarrow> (Inl (SelectiveForwardError INVALID_OUTPUT), active')
                | Inr contract \<Rightarrow> (Inr \<lparr>sf_output = output, sf_contract = contract\<rparr>, active'))))"

text \<open>
  \<^verbatim>\<open>GptOssSelectiveModelAdapter.run\<close>.  Model inputs are opaque objects, \<open>None\<close> the absent
  ones; the model call receives \<^verbatim>\<open>inputs_embeds=None\<close>.
\<close>

definition adapter_run ::
    "ForwardRowPlan \<Rightarrow> 'i option \<Rightarrow> 'i option \<Rightarrow> 'i option \<Rightarrow> 'i option \<Rightarrow> pyval \<Rightarrow> pyval \<Rightarrow> pyval list \<Rightarrow>
     ('i \<Rightarrow> 'i \<Rightarrow> 'i option \<Rightarrow> 'i option \<Rightarrow> context_var \<Rightarrow> (raised + 'o) \<times> context_var) \<Rightarrow>
     ('o \<Rightarrow> raised + pyval list) \<Rightarrow> context_var \<Rightarrow> (bridge_error + 'o SelectiveForwardResult) \<times> context_var" where
  "adapter_run p input_ids positions intermediate inputs_embeds expected_rows hidden_size logits_indices
     model_forward hidden_shape active =
     (case (input_ids, positions) of
        (None, _) \<Rightarrow> (Inl (SelectiveForwardError INPUT_IDS_REQUIRED), active)
      | (Some _, None) \<Rightarrow> (Inl (SelectiveForwardError POSITIONS_REQUIRED), active)
      | (Some ids, Some pos) \<Rightarrow>
          if inputs_embeds \<noteq> None then (Inl (SelectiveForwardError PROMPT_EMBEDS_UNSUPPORTED), active)
          else bridge_run p expected_rows hidden_size logits_indices
                 (model_forward ids pos intermediate None) hidden_shape active)"

section \<open>Canonical ranges\<close>

text \<open>Non-empty ranges inside the prompt, in order and without overlap.\<close>

definition canonical :: "int \<Rightarrow> int \<Rightarrow> TokenRange list \<Rightarrow> bool" where
  "canonical a n rs \<longleftrightarrow> sorted_wrt (\<lambda>r s. tr_end r \<le> tr_start s) rs \<and>
     (\<forall>r\<in>set rs. a \<le> tr_start r \<and> tr_start r < tr_end r \<and> tr_end r \<le> n)"

lemma check_ranges_Inr: "check_ranges n rs = Inr () \<longleftrightarrow> (\<forall>r\<in>set rs. range_len r \<noteq> 0 \<and> tr_end r \<le> n)"
  by (induction rs) auto

lemma validate_prompt_tokens_Inr:
  "validate_prompt_tokens v = Inr n \<longleftrightarrow> v = PInt n \<and> 0 \<le> n \<and> n \<le> GPT_OSS_MAX_CONTEXT_TOKENS"
  by (cases v) (auto simp: validate_prompt_tokens_def)

lemma adjacent_disjoint:
  assumes "sorted (map (\<lambda>r. (tr_start r, tr_end r)) rs)" "\<forall>r\<in>set rs. tr_start r < tr_end r"
    "\<forall>x\<in>set (zip rs (tl rs)). \<not> (case x of (left, right) \<Rightarrow> overlaps left right)"
  shows "sorted_wrt (\<lambda>r s. tr_end r \<le> tr_start s) rs"
  using assms
proof (induction rs)
  case (Cons r rs)
  show ?case
  proof (cases rs)
    case (Cons s ss)
    have IH: "sorted_wrt (\<lambda>r s. tr_end r \<le> tr_start s) rs"
      using Cons.prems Cons by (intro Cons.IH) auto
    have "tr_start r \<le> tr_start s" "\<not> overlaps r s" "tr_start r < tr_end r" "tr_start s < tr_end s"
      using Cons.prems Cons by auto
    then have "tr_end r \<le> tr_start s" by (auto simp: overlaps_def)
    moreover have "\<forall>x\<in>set ss. tr_start s \<le> tr_start x"
      using Cons.prems(1) Cons by (auto simp: sorted_wrt_map)
    ultimately show ?thesis using IH Cons by auto
  qed simp
qed simp

lemma canonical_sorted: "canonical a n rs \<Longrightarrow> sort_key (\<lambda>r. (tr_start r, tr_end r)) rs = rs"
proof -
  assume c: "canonical a n rs"
  have "sorted_wrt (\<lambda>r s. (tr_start r, tr_end r) \<le> (tr_start s, tr_end s)) rs"
    by (rule sorted_wrt_mono_rel [of _ "\<lambda>r s. tr_end r \<le> tr_start s"]) (use c in \<open>fastforce simp: canonical_def\<close>)+
  then show ?thesis by (intro sort_key_id_if_sorted) (simp add: sorted_wrt_map)
qed

lemma normalize_ranges_Inr:
  assumes "\<forall>r\<in>set rs. wf_range r"
  shows "normalize_ranges v rs = Inr rs' \<longleftrightarrow>
    rs' = rs \<and> (\<exists>n. v = PInt n \<and> 0 \<le> n \<and> n \<le> GPT_OSS_MAX_CONTEXT_TOKENS \<and> canonical 0 n rs)" (is "?L \<longleftrightarrow> ?R")
proof
  assume ?L
  then obtain n where n: "v = PInt n" "0 \<le> n" "n \<le> GPT_OSS_MAX_CONTEXT_TOKENS" and rs: "rs' = rs"
    "sort_key (\<lambda>r. (tr_start r, tr_end r)) rs = rs" "\<forall>r\<in>set rs. range_len r \<noteq> 0 \<and> tr_end r \<le> n"
    "\<forall>x\<in>set (zip rs (tl rs)). \<not> (case x of (left, right) \<Rightarrow> overlaps left right)"
    by (auto simp: normalize_ranges_def result_simps validate_prompt_tokens_Inr check_ranges_Inr Let_def split: if_splits)
  have "sorted (map (\<lambda>r. (tr_start r, tr_end r)) rs)" by (metis rs(2) sorted_sort_key)
  moreover have ne: "\<forall>r\<in>set rs. 0 \<le> tr_start r \<and> tr_start r < tr_end r"
    using assms rs(3) by (force simp: wf_range_def range_len_def)
  ultimately have "canonical 0 n rs" using rs(3,4) adjacent_disjoint [of rs] by (auto simp: canonical_def)
  then show ?R using n rs(1) by blast
next
  assume R: ?R
  then obtain n where n: "v = PInt n" "0 \<le> n" "n \<le> GPT_OSS_MAX_CONTEXT_TOKENS" and c: "canonical 0 n rs" by blast
  have "\<not> overlaps l r" if lr: "(l, r) \<in> set (zip rs (tl rs))" for l r
  proof -
    obtain k where k: "Suc k < length rs" "l = rs ! k" "r = rs ! Suc k"
      using lr by (fastforce simp: in_set_zip nth_tl less_diff_conv)
    then have "tr_end l \<le> tr_start r" using c by (auto simp: canonical_def sorted_wrt_iff_nth_less)
    then show ?thesis by (simp add: overlaps_def)
  qed
  moreover have "check_ranges n rs = Inr ()" using c by (auto simp: check_ranges_Inr canonical_def range_len_def)
  moreover have "validate_prompt_tokens v = Inr n" using n by (simp add: validate_prompt_tokens_Inr)
  ultimately show ?L using R canonical_sorted [OF c] by (auto simp: normalize_ranges_def Let_def)
qed

lemma canonical_Cons:
  "canonical a n (r # rs) \<longleftrightarrow> a \<le> tr_start r \<and> tr_start r < tr_end r \<and> tr_end r \<le> n \<and> canonical (tr_end r) n rs"
  by (auto simp: canonical_def)

lemma canonical_weaken: "canonical b n rs \<Longrightarrow> a \<le> b \<Longrightarrow> canonical a n rs"
  by (auto simp: canonical_def)

lemma range_token_count_Cons [simp]: "range_token_count (r # rs) = range_len r + range_token_count rs"
  by (simp add: range_token_count_def)

lemma complement_loop_count:
  "canonical c n rs \<Longrightarrow> c \<le> n \<Longrightarrow> range_token_count (complement_loop n c rs) + range_token_count rs = n - c"
proof (induction rs arbitrary: c)
  case (Cons r rs)
  then have "range_token_count (complement_loop n (tr_end r) rs) + range_token_count rs = n - tr_end r"
    by (simp add: canonical_Cons)
  then show ?case using Cons.prems by (auto simp: canonical_Cons range_len_def)
qed (simp add: range_token_count_def range_len_def)

lemma complement_loop_canonical:
  "canonical c n rs \<Longrightarrow> c \<le> n \<Longrightarrow> canonical c n (complement_loop n c rs)"
proof (induction rs arbitrary: c)
  case (Cons r rs)
  then have "canonical (tr_end r) n (complement_loop n (tr_end r) rs)" by (simp add: canonical_Cons)
  then show ?case using Cons.prems by (auto simp: canonical_Cons intro: canonical_weaken)
qed (simp add: canonical_def)

lemma complement_loop_set:
  "canonical c n rs \<Longrightarrow> c \<le> n \<Longrightarrow>
     (\<Union>r\<in>set (complement_loop n c rs). range_set r) = {c..<n} - (\<Union>r\<in>set rs. range_set r)"
proof (induction rs arbitrary: c)
  case (Cons r rs)
  let ?U = "\<Union>r\<in>set rs. range_set r"
  have r: "c \<le> tr_start r" "tr_start r < tr_end r" "tr_end r \<le> n" "canonical (tr_end r) n rs"
    using Cons.prems by (auto simp: canonical_Cons)
  have "?U \<subseteq> {tr_end r..<n}" using r(4) by (force simp: canonical_def range_set_def)
  then have "{c..<n} - (range_set r \<union> ?U) = {c..<tr_start r} \<union> ({tr_end r..<n} - ?U)"
    using r by (auto simp: range_set_def)
  then show ?case using Cons.IH [OF r(4)] r by (auto simp: range_set_def)
qed (auto simp: range_set_def)

definition wf_selection :: "LayerRowSelection \<Rightarrow> bool" where
  [wf_simps]: "wf_selection s \<longleftrightarrow> 0 \<le> lr_layer_index s \<and> lr_layer_index s < GPT_OSS_NUM_LAYERS \<and>
     0 \<le> lr_prompt_tokens s \<and> lr_prompt_tokens s \<le> GPT_OSS_MAX_CONTEXT_TOKENS \<and>
     canonical 0 (lr_prompt_tokens s) (lr_recompute_ranges s)"

lemma LayerRowSelection_init_Inr:
  assumes "\<forall>r\<in>set rs. wf_range r"
  shows "LayerRowSelection_init i v rs = Inr s \<longleftrightarrow>
    i = PInt (lr_layer_index s) \<and> v = PInt (lr_prompt_tokens s) \<and> lr_recompute_ranges s = rs \<and> wf_selection s"
  using normalize_ranges_Inr [OF assms]
  by (cases s; cases i) (auto simp: LayerRowSelection_init_def result_simps validate_prompt_tokens_Inr wf_selection_def)

lemma wf_selection_covers: "wf_selection s \<Longrightarrow> covers_prompt s"
  using complement_loop_count [of 0 "lr_prompt_tokens s" "lr_recompute_ranges s"]
  by (simp add: covers_prompt_def layer_recompute_tokens_def layer_cached_tokens_def cached_ranges_def complement_def
      wf_selection_def)

lemma check_layers_Inr:
  "check_layers n k ls = Inr () \<longleftrightarrow> map lr_layer_index ls = [k..k + int (length ls) - 1] \<and>
     (\<forall>l\<in>set ls. lr_prompt_tokens l = n \<and> covers_prompt l)"
proof (induction ls arbitrary: k)
  case (Cons l ls)
  show ?case using Cons.IH [of "k + 1"] by (auto simp: upto_rec1 algebra_simps)
qed simp

lemma rmap_cong: "(\<And>x. x \<in> set xs \<Longrightarrow> f x = g x) \<Longrightarrow> rmap f xs = rmap g xs"
  by (induction xs) auto

lemma from_recompute_ranges_Inr:
  assumes "\<forall>rs\<in>set ranges. \<forall>r\<in>set rs. wf_range r"
  shows "from_recompute_ranges v ranges = Inr p \<longleftrightarrow>
    (\<exists>n. v = PInt n \<and> 0 \<le> n \<and> n \<le> GPT_OSS_MAX_CONTEXT_TOKENS \<and> int (length ranges) = GPT_OSS_NUM_LAYERS \<and>
       (\<forall>rs\<in>set ranges. canonical 0 n rs) \<and>
       p = \<lparr>fp_prompt_tokens = n, fp_layers = map (\<lambda>(k, rs). \<lparr>lr_layer_index = int k, lr_prompt_tokens = n,
         lr_recompute_ranges = rs\<rparr>) (List.enumerate 0 ranges)\<rparr>)" (is "_ \<longleftrightarrow> (\<exists>n. _ \<and> _ \<and> _ \<and> _ \<and> _ \<and> p = \<lparr>fp_prompt_tokens = n, fp_layers = ?ls n\<rparr>)")
proof (cases "\<exists>n. v = PInt n \<and> 0 \<le> n \<and> n \<le> GPT_OSS_MAX_CONTEXT_TOKENS \<and> int (length ranges) = GPT_OSS_NUM_LAYERS")
  case False
  then show ?thesis by (auto simp: from_recompute_ranges_def result_simps validate_prompt_tokens_Inr split: if_splits)
next
  case True
  then obtain n where n: "v = PInt n" "0 \<le> n" "n \<le> GPT_OSS_MAX_CONTEXT_TOKENS" "int (length ranges) = GPT_OSS_NUM_LAYERS"
    by blast
  have v: "validate_prompt_tokens v = Inr n" using n by (simp add: validate_prompt_tokens_Inr)
  have "rmap (\<lambda>(k, rs). LayerRowSelection_init (PInt (int k)) v rs) (List.enumerate 0 ranges) = Inr ls \<longleftrightarrow>
      ls = ?ls n \<and> (\<forall>rs\<in>set ranges. canonical 0 n rs)" for ls
  proof -
    have "LayerRowSelection_init (PInt (int k)) v (ranges ! k) = Inr s \<longleftrightarrow>
        s = \<lparr>lr_layer_index = int k, lr_prompt_tokens = n, lr_recompute_ranges = ranges ! k\<rparr> \<and> canonical 0 n (ranges ! k)"
      if "k < length ranges" for k s
    proof -
      have "\<forall>r\<in>set (ranges ! k). wf_range r" using assms nth_mem [OF that] by blast
      from LayerRowSelection_init_Inr [OF this, of "PInt (int k)" v s] show ?thesis
        using n that by (cases s) (auto simp: wf_selection_def)
    qed
    then show ?thesis unfolding rmap_Inr list_all2_conv_all_nth all_set_conv_all_nth
      by (auto simp: nth_enumerate_eq intro!: nth_equalityI)
  qed
  moreover have "ForwardRowPlan_init v (?ls n) = Inr \<lparr>fp_prompt_tokens = n, fp_layers = ?ls n\<rparr>"
    if c: "\<forall>rs\<in>set ranges. canonical 0 n rs"
  proof -
    have "wf_selection l" if "l \<in> set (?ls n)" for l
      using that c n by (auto simp: wf_selection_def in_set_enumerate_eq)
    moreover have "map lr_layer_index (?ls n) = [0..int (length ranges) - 1]"
      by (rule nth_equalityI) (auto simp: nth_enumerate_eq)
    ultimately have "check_layers n 0 (?ls n) = Inr ()"
      using wf_selection_covers by (auto simp: check_layers_Inr)
    then show ?thesis using n(4) v by (simp add: ForwardRowPlan_init_def)
  qed
  ultimately show ?thesis using v n by (auto simp: from_recompute_ranges_def result_simps)
qed

lemma full_recompute_as_ranges:
  "full_recompute (PInt n) = from_recompute_ranges (PInt n)
     (replicate (nat GPT_OSS_NUM_LAYERS) (if n \<noteq> 0 then [\<lparr>tr_start = 0, tr_end = n\<rparr>] else []))"
proof -
  let ?full = "if n \<noteq> 0 then [\<lparr>tr_start = 0, tr_end = n\<rparr>] else []"
  have e: "List.enumerate 0 (replicate (nat GPT_OSS_NUM_LAYERS) x) = map (\<lambda>k. (nat k, x)) [0..GPT_OSS_NUM_LAYERS - 1]"
    for x :: "TokenRange list" by (rule nth_equalityI) (auto simp: nth_enumerate_eq GPT_OSS_NUM_LAYERS_def)
  have r: "rmap (\<lambda>(k, rs). LayerRowSelection_init (PInt (int k)) (PInt n) rs)
        (List.enumerate 0 (replicate (nat GPT_OSS_NUM_LAYERS) ?full)) =
      rmap (\<lambda>k. LayerRowSelection_init (PInt k) (PInt n) ?full) [0..GPT_OSS_NUM_LAYERS - 1]"
    unfolding e rmap_map by (rule rmap_cong) auto
  show ?thesis
  proof (cases "validate_prompt_tokens (PInt n)")
    case (Inr m)
    then have "m = n" by (auto simp: validate_prompt_tokens_Inr)
    then show ?thesis using Inr unfolding full_recompute_def from_recompute_ranges_def r Let_def
      by (simp add: GPT_OSS_NUM_LAYERS_def)
  qed (simp add: full_recompute_def from_recompute_ranges_def)
qed

section \<open>Output contract and bridge\<close>

lemma normalize_logits_Inr:
  "normalize_logits actual previous vs = Inr is \<longleftrightarrow>
     vs = map PInt is \<and> sorted_wrt (<) (previous # is) \<and> (\<forall>k\<in>set is. 0 \<le> k \<and> k < actual)"
proof (induction actual previous vs arbitrary: "is" rule: normalize_logits.induct)
  case (2 actual previous v vs)
  show ?case
  proof (cases "\<exists>k. v = PInt k \<and> 0 \<le> k \<and> k < actual \<and> previous < k")
    case True
    then obtain k where k: "v = PInt k" "0 \<le> k" "k < actual" "previous < k" by blast
    then have "normalize_logits actual k vs = Inr js \<longleftrightarrow>
        vs = map PInt js \<and> sorted_wrt (<) (k # js) \<and> (\<forall>k\<in>set js. 0 \<le> k \<and> k < actual)" for js
      using "2.IH" by simp
    then show ?thesis using k by (cases "is") (auto simp: result_simps)
  next
    case False
    then show ?thesis by (cases v; cases "is") auto
  qed
qed auto

lemma bounded_nonnegative_Inr: "bounded_nonnegative v c = Inr n \<longleftrightarrow> v = PInt n \<and> 0 \<le> n"
  by (cases v) (auto simp: bounded_nonnegative_def)

lemma ForwardOutputContract_validate_Inr:
  "ForwardOutputContract_validate e shape h ls = Inr c \<longleftrightarrow>
     e = PInt (fo_expected_rows c) \<and> shape = [e, h] \<and> h = PInt (fo_hidden_size c) \<and>
     ls = map PInt (fo_logits_indices c) \<and> fo_actual_rows c = fo_expected_rows c \<and> 0 \<le> fo_expected_rows c \<and>
     0 < fo_hidden_size c \<and> sorted_wrt (<) (fo_logits_indices c) \<and>
     (\<forall>k\<in>set (fo_logits_indices c). 0 \<le> k \<and> k < fo_expected_rows c)"
proof (cases "length shape = 2")
  case True
  then obtain a b where "shape = [a, b]" by (auto simp: length_Suc_conv numeral_2_eq_2)
  then show ?thesis
    by (cases c) (auto simp: ForwardOutputContract_validate_def result_simps bounded_nonnegative_Inr
        normalize_logits_Inr)
qed (auto simp: ForwardOutputContract_validate_def result_simps)

lemma bridge_run_cases:
  "snd (bridge_run p e h ls forward shape active) = active \<and>
   (active \<noteq> None \<longrightarrow> bridge_run p e h ls forward shape active = (Inl (SelectiveForwardError ACTIVE_CONTEXT), active)) \<and>
   (fst (bridge_run p e h ls forward shape active) = Inr r \<longrightarrow>
      active = None \<and> fst (forward (Some p)) = Inr (sf_output r) \<and>
      (\<exists>sh. shape (sf_output r) = Inr sh \<and> ForwardOutputContract_validate e sh h ls = Inr (sf_contract r)))"
  by (auto simp: bridge_run_def bind_context_def split: sum.splits raised.splits SelectivePlanErrorCode.splits)

section \<open>Properties\<close>

text \<open>
  The rows of a layer are partitioned: the recomputed ranges and the derived cached ranges are
  both canonical, cover every prompt row together and no row twice, so the coverage check of a plan
  can never fail for a constructed selection.
\<close>

lemma row_selection_partition:
  assumes "list_all wf_range rs" "LayerRowSelection_init i v rs = Inr s"
  shows "(\<Union>r\<in>set (lr_recompute_ranges s). range_set r) \<union> (\<Union>r\<in>set (cached_ranges s). range_set r) =
      {0..<lr_prompt_tokens s} \<and>
    (\<Union>r\<in>set (lr_recompute_ranges s). range_set r) \<inter> (\<Union>r\<in>set (cached_ranges s). range_set r) = {} \<and>
    canonical 0 (lr_prompt_tokens s) (lr_recompute_ranges s) \<and> canonical 0 (lr_prompt_tokens s) (cached_ranges s) \<and>
    covers_prompt s"
proof -
  have wf: "wf_selection s" using assms LayerRowSelection_init_Inr [of rs i v s] by (simp add: list_all_iff)
  then have c: "canonical 0 (lr_prompt_tokens s) (lr_recompute_ranges s)" "0 \<le> lr_prompt_tokens s"
    by (auto simp: wf_selection_def)
  have "(\<Union>r\<in>set (lr_recompute_ranges s). range_set r) \<subseteq> {0..<lr_prompt_tokens s}"
    using c by (force simp: canonical_def range_set_def)
  then show ?thesis
    using complement_loop_set [OF c] complement_loop_canonical [OF c] c wf_selection_covers [OF wf]
    by (auto simp: cached_ranges_def complement_def)
qed

lemma row_selection_partition_witness:
  "\<exists>s. LayerRowSelection_init (PInt 3) (PInt 5) [\<lparr>tr_start = 1, tr_end = 3\<rparr>] = Inr s \<and>
     cached_ranges s = [\<lparr>tr_start = 0, tr_end = 1\<rparr>, \<lparr>tr_start = 3, tr_end = 5\<rparr>] \<and> covers_prompt s"
proof -
  have "LayerRowSelection_init (PInt 3) (PInt 5) [\<lparr>tr_start = 1, tr_end = 3\<rparr>] =
      Inr \<lparr>lr_layer_index = 3, lr_prompt_tokens = 5, lr_recompute_ranges = [\<lparr>tr_start = 1, tr_end = 3\<rparr>]\<rparr>" (is "_ = Inr ?s")
    by (simp add: LayerRowSelection_init_def validate_prompt_tokens_def normalize_ranges_def GPT_OSS_NUM_LAYERS_def
        GPT_OSS_MAX_CONTEXT_TOKENS_def range_len_def)
  moreover from this have "covers_prompt ?s"
    using row_selection_partition [of "[\<lparr>tr_start = 1, tr_end = 3\<rparr>]" "PInt 3" "PInt 5" ?s] by (simp add: wf_range_def)
  ultimately show ?thesis by (simp add: cached_ranges_def complement_def)
qed

text \<open>
  A per-layer plan is built exactly from 24 lists of canonical ranges inside a prompt of
  admissible length; it keeps them layer by layer, and recomputed and cached rows of all layers
  add up to 24 times the prompt.
\<close>

lemma row_plan_exact:
  assumes "list_all (list_all wf_range) ranges"
  shows "((\<exists>p. from_recompute_ranges (PInt n) ranges = Inr p) \<longleftrightarrow>
      0 \<le> n \<and> n \<le> 131072 \<and> length ranges = 24 \<and> list_all (canonical 0 n) ranges) \<and>
    (\<forall>p. from_recompute_ranges (PInt n) ranges = Inr p \<longrightarrow>
      map lr_recompute_ranges (fp_layers p) = ranges \<and> map lr_layer_index (fp_layers p) = [0..23] \<and>
      plan_recompute_tokens p + plan_cached_tokens p = 24 * n)"
proof (rule conjI)
  have wf: "\<forall>rs\<in>set ranges. \<forall>r\<in>set rs. wf_range r" using assms by (simp add: list_all_iff)
  show "(\<exists>p. from_recompute_ranges (PInt n) ranges = Inr p) \<longleftrightarrow>
      0 \<le> n \<and> n \<le> 131072 \<and> length ranges = 24 \<and> list_all (canonical 0 n) ranges"
    unfolding from_recompute_ranges_Inr [OF wf]
    by (auto simp: GPT_OSS_NUM_LAYERS_def GPT_OSS_MAX_CONTEXT_TOKENS_def list_all_iff)
  show "\<forall>p. from_recompute_ranges (PInt n) ranges = Inr p \<longrightarrow>
      map lr_recompute_ranges (fp_layers p) = ranges \<and> map lr_layer_index (fp_layers p) = [0..23] \<and>
      plan_recompute_tokens p + plan_cached_tokens p = 24 * n"
  proof (intro allI impI)
    fix p
    assume "from_recompute_ranges (PInt n) ranges = Inr p"
    then have n: "0 \<le> n" "n \<le> GPT_OSS_MAX_CONTEXT_TOKENS" "length ranges = 24" "\<forall>rs\<in>set ranges. canonical 0 n rs" and
      p: "fp_layers p = map (\<lambda>(k, rs). \<lparr>lr_layer_index = int k, lr_prompt_tokens = n, lr_recompute_ranges = rs\<rparr>)
        (List.enumerate 0 ranges)"
      unfolding from_recompute_ranges_Inr [OF wf] by (auto simp: GPT_OSS_NUM_LAYERS_def)
    have "wf_selection l \<and> lr_prompt_tokens l = n" if "l \<in> set (fp_layers p)" for l
      using that n unfolding p by (auto simp: wf_selection_def in_set_enumerate_eq GPT_OSS_NUM_LAYERS_def)
    then have "map (\<lambda>l. layer_recompute_tokens l + layer_cached_tokens l) (fp_layers p) = map (\<lambda>l. n) (fp_layers p)"
      using wf_selection_covers by (auto simp: covers_prompt_def)
    then have "plan_recompute_tokens p + plan_cached_tokens p = sum_list (map (\<lambda>l. n) (fp_layers p))"
      by (metis plan_recompute_tokens_def plan_cached_tokens_def sum_list_addf)
    also have "\<dots> = int (length (fp_layers p)) * n" by (simp add: sum_list_triv)
    also have "\<dots> = 24 * n" using n(3) by (simp add: p)
    finally show "map lr_recompute_ranges (fp_layers p) = ranges \<and> map lr_layer_index (fp_layers p) = [0..23] \<and>
      plan_recompute_tokens p + plan_cached_tokens p = 24 * n"
      using n(3) by (auto simp: p nth_enumerate_eq intro!: nth_equalityI)
  qed
qed

lemma row_plan_exact_witness:
  "\<exists>p. from_recompute_ranges (PInt 5) (replicate 24 [\<lparr>tr_start = 1, tr_end = 3\<rparr>]) = Inr p"
  using row_plan_exact [of "replicate 24 [\<lparr>tr_start = 1, tr_end = 3\<rparr>]" 5]
  by (simp add: list_all_iff wf_range_def canonical_def)

text \<open>
  The full-recompute plan exists for every admissible prompt, caches no row of any layer and
  recomputes every row of all 24.
\<close>

lemma full_recompute_total:
  assumes "0 \<le> n" "n \<le> 131072"
  shows "\<exists>p. full_recompute (PInt n) = Inr p \<and> plan_is_full_recompute p \<and> plan_recompute_tokens p = 24 * n \<and>
    length (fp_layers p) = 24 \<and> list_all layer_is_full_recompute (fp_layers p)"
proof -
  let ?full = "if n \<noteq> 0 then [\<lparr>tr_start = 0, tr_end = n\<rparr>] else []"
  have wf: "\<forall>rs\<in>set (replicate (nat GPT_OSS_NUM_LAYERS) ?full). \<forall>r\<in>set rs. wf_range r"
    using assms by (auto simp: wf_range_def)
  have c: "canonical 0 n ?full" using assms by (auto simp: canonical_def)
  define p where "p = \<lparr>fp_prompt_tokens = n, fp_layers = map (\<lambda>(k, rs). \<lparr>lr_layer_index = int k, lr_prompt_tokens = n,
         lr_recompute_ranges = rs\<rparr>) (List.enumerate 0 (replicate (nat GPT_OSS_NUM_LAYERS) ?full))\<rparr>"
  have "full_recompute (PInt n) = Inr p"
    unfolding full_recompute_as_ranges from_recompute_ranges_Inr [OF wf] p_def
    using assms c by (auto simp: GPT_OSS_MAX_CONTEXT_TOKENS_def GPT_OSS_NUM_LAYERS_def)
  moreover have l: "layer_cached_tokens l = 0 \<and> layer_recompute_tokens l = n" if "l \<in> set (fp_layers p)" for l
    using that assms by (auto simp: p_def in_set_enumerate_eq layer_cached_tokens_def layer_recompute_tokens_def
        cached_ranges_def complement_def range_token_count_def range_len_def)
  moreover have "length (fp_layers p) = 24" by (simp add: p_def GPT_OSS_NUM_LAYERS_def)
  moreover have "map layer_cached_tokens (fp_layers p) = map (\<lambda>l. 0) (fp_layers p)" using l by simp
  then have "plan_cached_tokens p = 0" by (simp only: plan_cached_tokens_def sum_list_triv)
  moreover have "map layer_recompute_tokens (fp_layers p) = map (\<lambda>l. n) (fp_layers p)" using l by simp
  then have "plan_recompute_tokens p = of_nat (length (fp_layers p)) * n"
    by (simp only: plan_recompute_tokens_def sum_list_triv)
  ultimately show ?thesis by (auto simp: plan_is_full_recompute_def list_all_iff layer_is_full_recompute_def)
qed

lemma full_recompute_total_witness:
  "\<exists>p. full_recompute (PInt 7) = Inr p \<and> plan_is_full_recompute p \<and> plan_recompute_tokens p = 168"
  using full_recompute_total [of 7] by auto

text \<open>
  A model output is accepted exactly when it is full-shaped: two-dimensional with the expected
  number of rows and the configured positive width, and strictly increasing sampling indices that
  all address existing rows; the accepted contract repeats these values unchanged.
\<close>

lemma forward_output_contract_exact:
  "ForwardOutputContract_validate expected shape hidden logits = Inr c \<longleftrightarrow>
     expected = PInt (fo_expected_rows c) \<and> shape = [expected, hidden] \<and> hidden = PInt (fo_hidden_size c) \<and>
     logits = map PInt (fo_logits_indices c) \<and> fo_actual_rows c = fo_expected_rows c \<and> 0 \<le> fo_expected_rows c \<and>
     0 < fo_hidden_size c \<and> sorted_wrt (<) (fo_logits_indices c) \<and>
     list_all (\<lambda>k. 0 \<le> k \<and> k < fo_expected_rows c) (fo_logits_indices c)"
  using ForwardOutputContract_validate_Inr by (simp add: list_all_iff)

text \<open>
  C30. The bridge runs the model with exactly its plan bound and leaves the context as it found it on
  every path, errors and interrupts included; a nested run is refused without calling the model,
  and a result is returned only with an output the contract accepts.
\<close>

theorem bridge_context_restored:
  "snd (bridge_run p e h ls forward shape active) = active \<and>
   (active \<noteq> None \<longrightarrow> bridge_run p e h ls forward shape active = (Inl (SelectiveForwardError ACTIVE_CONTEXT), active)) \<and>
   (fst (bridge_run p e h ls forward shape active) = Inr r \<longrightarrow>
      active = None \<and> fst (forward (Some p)) = Inr (sf_output r) \<and>
      (\<exists>sh. shape (sf_output r) = Inr sh \<and> ForwardOutputContract_validate e sh h ls = Inr (sf_contract r)))"
  using bridge_run_cases [of p e h ls forward shape active] by blast

theorem bridge_context_restored_witness:
  "let p = \<lparr>fp_prompt_tokens = 2, fp_layers = []\<rparr>;
       run = bridge_run p (PInt 2) (PInt 8) [PInt 1] (\<lambda>a. (Inr (), Some p)) (\<lambda>_. Inr [PInt 2, PInt 8])
   in snd (run None) = None \<and> run (Some p) = (Inl (SelectiveForwardError ACTIVE_CONTEXT), Some p)"
  unfolding Let_def using bridge_context_restored by blast

text \<open>
  The model adapter serves token-identity requests only: it returns a result only when token
  ids and positions are given and prompt embeddings are not, the model was called on exactly these
  with the plan bound, and the context is restored on every path.
\<close>

lemma adapter_token_ids_only:
  "snd (adapter_run p ids pos mid embeds e h ls model shape active) = active \<and>
   (fst (adapter_run p ids pos mid embeds e h ls model shape active) = Inr r \<longrightarrow>
      embeds = None \<and> active = None \<and>
      (\<exists>i k. ids = Some i \<and> pos = Some k \<and> fst (model i k mid None (Some p)) = Inr (sf_output r)))"
  using bridge_run_cases [of p e h ls _ shape active] by (auto simp: adapter_run_def split: option.splits)

lemma adapter_token_ids_only_witness:
  "let p = \<lparr>fp_prompt_tokens = 2, fp_layers = []\<rparr>;
       run = (\<lambda>embeds. adapter_run p (Some ()) (Some ()) None embeds (PInt 2) (PInt 8) [PInt 1]
         (\<lambda>_ _ _ _ _. (Inr (), Some p)) (\<lambda>_. Inr [PInt 2, PInt 8]) None)
   in snd (run None) = None \<and> (\<exists>r. fst (run None) = Inr r)"
  unfolding Let_def
  by (rule conjI [OF conjunct1 [OF adapter_token_ids_only]])
    (simp add: adapter_run_def bridge_run_def bind_context_def ForwardOutputContract_validate_def bounded_nonnegative_def)

end
