(* ===== verification/SelectionPolicy.thy ===== *)
theory SelectionPolicy
  imports Selective
begin

text \<open>
  \<^verbatim>\<open>gpt_oss/selective_policy.py\<close>: the deterministic check-layer policy.  Rows without verified KV and a
  suffix are always recomputed; of the remaining cached rows a fraction with the largest scores is
  recomputed too.  Scores, ratios and measurements are Python numbers; a finite double is the rational
  it denotes, and the budget is the truncated, rounded double product of the source.
\<close>

section \<open>Errors and inputs\<close>

datatype SelectionPolicyErrorCode =
    INVALID_PROMPT_LENGTH | INVALID_CHECK_LAYER | INVALID_RECOMPUTE_RATIO | INVALID_SUFFIX_LENGTH
  | INVALID_IMPORTANCE_SCORES | INVALID_CACHE_RANGES | NON_CANONICAL_CACHE_RANGES | OVERLAPPING_CACHE_RANGES
  | CACHE_RANGE_OUT_OF_BOUNDS | INVALID_RATIO_SWEEP | INCONSISTENT_SWEEP | INVALID_MEASUREMENT | MEASUREMENT_MISMATCH

text \<open>
  What a call may raise: the policy's own error, the \<^verbatim>\<open>OverflowError\<close> of \<^verbatim>\<open>float()\<close> on a huge integer, or
  an error of the row plan.
\<close>

datatype policy_exn =
    SelectionPolicyError SelectionPolicyErrorCode | FloatRaise py_error | RowPlanRaise SelectivePlanErrorCode

definition policy_prompt_tokens :: "pyval \<Rightarrow> policy_exn + int" where
  "policy_prompt_tokens v =
     (if \<not> is_plain_int v \<or> the_int v < 0 \<or> the_int v > 131072
      then Inl (SelectionPolicyError INVALID_PROMPT_LENGTH) else Inr (the_int v))"

text \<open>
  The check of a number: not a boolean, an integer or a float, finite as a double and within the bounds
  of the caller; the result is the double.
\<close>

definition policy_float :: "SelectionPolicyErrorCode \<Rightarrow> (rat \<Rightarrow> bool) \<Rightarrow> pyval \<Rightarrow> policy_exn + rat" where
  "policy_float code admissible v =
     (let convert =
        (case py_float v of
           Inl e \<Rightarrow> Inl (FloatRaise e)
         | Inr (Finite r) \<Rightarrow> if admissible r then Inr r else Inl (SelectionPolicyError code)
         | Inr _ \<Rightarrow> Inl (SelectionPolicyError code)) in
      case v of
        PInt _ \<Rightarrow> convert
      | PFloat _ \<Rightarrow> convert
      | _ \<Rightarrow> Inl (SelectionPolicyError code))"

definition validate_cache_ranges :: "int \<Rightarrow> TokenRange list \<Rightarrow> policy_exn + TokenRange list" where
  "validate_cache_ranges prompt_tokens normalized =
     (if \<exists>item\<in>set normalized. range_len item = 0 then Inl (SelectionPolicyError INVALID_CACHE_RANGES)
      else if \<exists>item\<in>set normalized. tr_end item > prompt_tokens then Inl (SelectionPolicyError CACHE_RANGE_OUT_OF_BOUNDS)
      else if sort_key (\<lambda>item. (tr_start item, tr_end item)) normalized \<noteq> normalized
      then Inl (SelectionPolicyError NON_CANONICAL_CACHE_RANGES)
      else if \<exists>(left, right)\<in>set (zip normalized (tl normalized)). overlaps left right
      then Inl (SelectionPolicyError OVERLAPPING_CACHE_RANGES)
      else Inr normalized)"

text \<open>
  One step of the merge: append a range that starts beyond the last one, otherwise extend the last one
  when the range ends later.
\<close>

definition merge_step :: "TokenRange list \<Rightarrow> TokenRange \<Rightarrow> TokenRange list" where
  "merge_step merged item =
     (if merged = [] \<or> tr_start item > tr_end (last merged) then merged @ [item]
      else if tr_end item > tr_end (last merged)
      then butlast merged @ [\<lparr>tr_start = tr_start (last merged), tr_end = tr_end item\<rparr>]
      else merged)"

definition merge_ranges :: "TokenRange list \<Rightarrow> TokenRange list" where
  "merge_ranges ranges = foldl merge_step [] (sort_key (\<lambda>item. (tr_start item, tr_end item)) ranges)"

fun policy_complement_loop :: "int \<Rightarrow> int \<Rightarrow> TokenRange list \<Rightarrow> TokenRange list" where
  "policy_complement_loop n cursor [] = (if cursor < n then [\<lparr>tr_start = cursor, tr_end = n\<rparr>] else [])"
| "policy_complement_loop n cursor (item # items) =
     (if cursor < tr_start item then [\<lparr>tr_start = cursor, tr_end = tr_start item\<rparr>] else []) @
     policy_complement_loop n (tr_end item) items"

definition policy_complement :: "int \<Rightarrow> TokenRange list \<Rightarrow> TokenRange list" where
  "policy_complement prompt_tokens cache_ranges = policy_complement_loop prompt_tokens 0 cache_ranges"

definition contains_position :: "TokenRange list \<Rightarrow> int \<Rightarrow> bool" where
  "contains_position ranges position \<longleftrightarrow> (\<exists>item\<in>set ranges. tr_start item \<le> position \<and> position < tr_end item)"

section \<open>Selection\<close>

record SelectionPolicyResult =
  sr_check_layer :: int
  sr_recompute_ratio :: rat
  sr_suffix_tokens :: int
  sr_candidate_cached_ranges :: "TokenRange list"
  sr_recompute_ranges :: "TokenRange list"
  sr_selected_cached_rows :: "int list"
  sr_row_plan :: ForwardRowPlan

definition sr_prompt_tokens :: "SelectionPolicyResult \<Rightarrow> int" where
  "sr_prompt_tokens r = fp_prompt_tokens (sr_row_plan r)"

definition sr_layer_zero :: "SelectionPolicyResult \<Rightarrow> policy_exn + LayerRowSelection" where
  "sr_layer_zero r = map_sum RowPlanRaise id (plan_layer (sr_row_plan r) (PInt 0))"

definition sr_cached_ranges :: "SelectionPolicyResult \<Rightarrow> policy_exn + TokenRange list" where
  "sr_cached_ranges r = map_sum id cached_ranges (sr_layer_zero r)"

definition recompute_tokens_per_layer :: "SelectionPolicyResult \<Rightarrow> policy_exn + int" where
  "recompute_tokens_per_layer r = map_sum id layer_recompute_tokens (sr_layer_zero r)"

definition cached_tokens_per_layer :: "SelectionPolicyResult \<Rightarrow> policy_exn + int" where
  "cached_tokens_per_layer r = map_sum id layer_cached_tokens (sr_layer_zero r)"

definition recompute_fraction :: "SelectionPolicyResult \<Rightarrow> policy_exn + rat" where
  "recompute_fraction r =
     (if sr_prompt_tokens r = 0 then Inr 0
      else rbind (recompute_tokens_per_layer r) (\<lambda>n. Inr (round_double (of_int n / of_int (sr_prompt_tokens r)))))"

definition forced_suffix :: "int \<Rightarrow> int \<Rightarrow> TokenRange list" where
  "forced_suffix prompt suffix = (if suffix \<noteq> 0 then [\<lparr>tr_start = prompt - suffix, tr_end = prompt\<rparr>] else [])"

definition eligible_rows :: "TokenRange list \<Rightarrow> TokenRange list \<Rightarrow> int list" where
  "eligible_rows cached suffix_ranges =
     concat (map (\<lambda>item. filter (\<lambda>position. \<not> contains_position suffix_ranges position) [tr_start item..tr_end item - 1]) cached)"

text \<open>\<^verbatim>\<open>int(len(eligible) * ratio)\<close>: the product is a double, the conversion truncates towards zero.\<close>

definition selection_budget :: "nat \<Rightarrow> rat \<Rightarrow> int" where
  "selection_budget n ratio = \<lfloor>round_double (of_nat n * ratio)\<rfloor>"

definition rank_key :: "rat list \<Rightarrow> int \<Rightarrow> rat \<times> int" where
  "rank_key scores position = (- (scores ! nat position), position)"

definition selected_rows :: "rat list \<Rightarrow> rat \<Rightarrow> int list \<Rightarrow> int list" where
  "selected_rows scores ratio eligible =
     sort (take (nat (selection_budget (length eligible) ratio)) (sort_key (rank_key scores) eligible))"

definition select ::
    "pyval \<Rightarrow> TokenRange list \<Rightarrow> pyval list \<Rightarrow> pyval \<Rightarrow> pyval \<Rightarrow> pyval \<Rightarrow> policy_exn + SelectionPolicyResult" where
  "select prompt_tokens cache_ranges importance_scores check_layer recompute_ratio suffix_tokens =
     rbind (policy_prompt_tokens prompt_tokens) (\<lambda>prompt.
       if \<not> is_plain_int check_layer \<or> \<not> (0 \<le> the_int check_layer \<and> the_int check_layer < GPT_OSS_NUM_LAYERS)
       then Inl (SelectionPolicyError INVALID_CHECK_LAYER)
       else rbind (policy_float INVALID_RECOMPUTE_RATIO (\<lambda>r. 0 \<le> r \<and> r \<le> 1) recompute_ratio) (\<lambda>ratio.
         if \<not> nonneg_int suffix_tokens \<or> the_int suffix_tokens > prompt then Inl (SelectionPolicyError INVALID_SUFFIX_LENGTH)
         else if int (length importance_scores) \<noteq> prompt then Inl (SelectionPolicyError INVALID_IMPORTANCE_SCORES)
         else rbind (rmap (policy_float INVALID_IMPORTANCE_SCORES (\<lambda>r. \<not> r < 0)) importance_scores) (\<lambda>scores.
           rbind (validate_cache_ranges prompt cache_ranges) (\<lambda>cached.
             let suffix = the_int suffix_tokens;
                 forced = forced_suffix prompt suffix;
                 non_cached = policy_complement prompt cached;
                 selected = selected_rows scores ratio (eligible_rows cached forced);
                 selected_ranges = map (\<lambda>position. \<lparr>tr_start = position, tr_end = position + 1\<rparr>) selected;
                 recompute = merge_ranges (non_cached @ forced @ selected_ranges) in
             rbind (map_sum RowPlanRaise id (from_recompute_ranges (PInt prompt) (replicate (nat GPT_OSS_NUM_LAYERS) recompute))) (\<lambda>row_plan.
               Inr \<lparr>sr_check_layer = the_int check_layer, sr_recompute_ratio = ratio, sr_suffix_tokens = suffix,
                    sr_candidate_cached_ranges = cached, sr_recompute_ranges = recompute,
                    sr_selected_cached_rows = selected, sr_row_plan = row_plan\<rparr>)))))"

section \<open>Ratio sweeps\<close>

record SelectionMeasurement =
  me_max_abs_error :: pyval
  me_mean_abs_error :: pyval
  me_selective_latency_seconds :: pyval

definition SelectionMeasurement_init :: "pyval \<Rightarrow> pyval \<Rightarrow> pyval \<Rightarrow> policy_exn + SelectionMeasurement" where
  "SelectionMeasurement_init max_abs mean_abs latency =
     rbind (rmap (policy_float INVALID_MEASUREMENT (\<lambda>r. \<not> r < 0)) [max_abs, mean_abs, latency]) (\<lambda>_.
       Inr \<lparr>me_max_abs_error = max_abs, me_mean_abs_error = mean_abs, me_selective_latency_seconds = latency\<rparr>)"

record SelectionSweepPoint =
  sp_result :: SelectionPolicyResult
  sp_measurement :: "SelectionMeasurement option"

definition sp_ratio :: "SelectionSweepPoint \<Rightarrow> rat" where
  "sp_ratio p = sr_recompute_ratio (sp_result p)"

definition sp_recompute_fraction :: "SelectionSweepPoint \<Rightarrow> policy_exn + rat" where
  "sp_recompute_fraction p = recompute_fraction (sp_result p)"

record SelectionSweep =
  sweep_points :: "SelectionSweepPoint list"

definition sweep_context :: "SelectionSweepPoint \<Rightarrow> int \<times> int \<times> int \<times> TokenRange list" where
  "sweep_context p =
     (let r = sp_result p in (sr_prompt_tokens r, sr_check_layer r, sr_suffix_tokens r, sr_candidate_cached_ranges r))"

definition SelectionSweep_init :: "SelectionSweepPoint list \<Rightarrow> policy_exn + SelectionSweep" where
  "SelectionSweep_init points =
     (if points = [] then Inl (SelectionPolicyError INVALID_RATIO_SWEEP)
      else
        let ratios = map sp_ratio points in
        if \<exists>(left, right)\<in>set (zip ratios (tl ratios)). left \<le> right then Inl (SelectionPolicyError INVALID_RATIO_SWEEP)
        else if \<exists>point\<in>set (tl points). sweep_context point \<noteq> sweep_context (hd points)
        then Inl (SelectionPolicyError INCONSISTENT_SWEEP)
        else Inr \<lparr>sweep_points = points\<rparr>)"

definition sweep_ratios :: "SelectionSweep \<Rightarrow> rat list" where
  "sweep_ratios s = map sp_ratio (sweep_points s)"

definition work_curve :: "SelectionSweep \<Rightarrow> policy_exn + (rat \<times> rat) list" where
  "work_curve s = rmap (\<lambda>p. map_sum id (Pair (sp_ratio p)) (sp_recompute_fraction p)) (sweep_points s)"

definition error_curve :: "SelectionSweep \<Rightarrow> policy_exn + (rat \<times> pyval \<times> pyval) list" where
  "error_curve s =
     (if \<exists>p\<in>set (sweep_points s). sp_measurement p = None then Inl (SelectionPolicyError MEASUREMENT_MISMATCH)
      else Inr (map (\<lambda>p. (sp_ratio p, me_max_abs_error (the (sp_measurement p)), me_mean_abs_error (the (sp_measurement p))))
        (sweep_points s)))"

definition latency_curve :: "SelectionSweep \<Rightarrow> policy_exn + (rat \<times> pyval) list" where
  "latency_curve s =
     (if \<exists>p\<in>set (sweep_points s). sp_measurement p = None then Inl (SelectionPolicyError MEASUREMENT_MISMATCH)
      else Inr (map (\<lambda>p. (sp_ratio p, me_selective_latency_seconds (the (sp_measurement p)))) (sweep_points s)))"

definition with_measurements :: "SelectionSweep \<Rightarrow> SelectionMeasurement list \<Rightarrow> policy_exn + SelectionSweep" where
  "with_measurements s measurements =
     (if length measurements \<noteq> length (sweep_points s) then Inl (SelectionPolicyError MEASUREMENT_MISMATCH)
      else SelectionSweep_init
        (map (\<lambda>(point, measurement). \<lparr>sp_result = sp_result point, sp_measurement = Some measurement\<rparr>)
          (zip (sweep_points s) measurements)))"

definition sweep ::
    "pyval \<Rightarrow> TokenRange list \<Rightarrow> pyval list \<Rightarrow> pyval \<Rightarrow> pyval list \<Rightarrow> pyval \<Rightarrow> policy_exn + SelectionSweep" where
  "sweep prompt_tokens cache_ranges importance_scores check_layer recompute_ratios suffix_tokens =
     (if recompute_ratios = [] then Inl (SelectionPolicyError INVALID_RATIO_SWEEP)
      else rbind (rmap (\<lambda>ratio. map_sum id (\<lambda>result. \<lparr>sp_result = result, sp_measurement = None\<rparr>)
                (select prompt_tokens cache_ranges importance_scores check_layer ratio suffix_tokens)) recompute_ratios)
        SelectionSweep_init)"

section \<open>Merging ranges\<close>

abbreviation rows :: "TokenRange list \<Rightarrow> int set" where
  "rows rs \<equiv> \<Union>r\<in>set rs. range_set r"

text \<open>Ranges inside \<open>{a..<n}\<close> in order and with a gap between neighbours.\<close>

definition separated :: "int \<Rightarrow> int \<Rightarrow> TokenRange list \<Rightarrow> bool" where
  "separated a n rs \<longleftrightarrow> sorted_wrt (\<lambda>r s. tr_end r < tr_start s) rs \<and>
     (\<forall>r\<in>set rs. a \<le> tr_start r \<and> tr_start r < tr_end r \<and> tr_end r \<le> n)"

lemma separated_canonical: "separated a n rs \<Longrightarrow> canonical a n rs"
  unfolding separated_def canonical_def
  by (auto elim!: sorted_wrt_mono_rel [rotated])

lemma merge_step_snoc:
  "merge_step (xs @ [l]) item =
     (if tr_start item > tr_end l then xs @ [l, item]
      else if tr_end item > tr_end l then xs @ [\<lparr>tr_start = tr_start l, tr_end = tr_end item\<rparr>] else xs @ [l])"
  by (simp add: merge_step_def)

lemma merge_step_separated:
  assumes "separated a n merged" "a \<le> tr_start item" "tr_start item < tr_end item" "tr_end item \<le> n"
    "merged \<noteq> [] \<Longrightarrow> tr_start (last merged) \<le> tr_start item"
  shows "separated a n (merge_step merged item) \<and> rows (merge_step merged item) = rows merged \<union> range_set item \<and>
    merge_step merged item \<noteq> [] \<and> tr_start (last (merge_step merged item)) \<le> tr_start item"
proof (cases merged rule: rev_cases)
  case Nil
  then show ?thesis using assms by (auto simp: merge_step_def separated_def)
next
  case (snoc xs l)
  then have l: "tr_start l < tr_end l" "tr_start l \<le> tr_start item" "\<forall>r\<in>set xs. tr_end r < tr_start l"
    using assms by (auto simp: separated_def sorted_wrt_append)
  show ?thesis
  proof (cases "tr_start item > tr_end l")
    case True
    then have "\<forall>r\<in>set xs. tr_end r < tr_start item" using l by fastforce
    then show ?thesis using True snoc assms l by (auto simp: merge_step_snoc separated_def sorted_wrt_append)
  next
    case False
    then have "range_set l \<union> range_set item = {tr_start l..<max (tr_end l) (tr_end item)}"
      using l assms(3) by (auto simp: range_set_def)
    then have "rows merged \<union> range_set item = rows xs \<union> {tr_start l..<max (tr_end l) (tr_end item)}"
      using snoc by auto
    then show ?thesis using False snoc assms l
      by (auto simp: merge_step_snoc separated_def sorted_wrt_append range_set_def max_def)
  qed
qed

lemma foldl_merge_step:
  assumes "sorted (map tr_start items)" "\<forall>r\<in>set items. a \<le> tr_start r \<and> tr_start r < tr_end r \<and> tr_end r \<le> n"
    "separated a n merged" "merged \<noteq> [] \<Longrightarrow> \<forall>r\<in>set items. tr_start (last merged) \<le> tr_start r"
  shows "separated a n (foldl merge_step merged items) \<and> rows (foldl merge_step merged items) = rows merged \<union> rows items"
  using assms
proof (induction items arbitrary: merged)
  case (Cons item items)
  have step: "separated a n (merge_step merged item)" "rows (merge_step merged item) = rows merged \<union> range_set item"
    "tr_start (last (merge_step merged item)) \<le> tr_start item"
    using merge_step_separated [of a n merged item] Cons.prems by auto
  then have "\<forall>r\<in>set items. tr_start (last (merge_step merged item)) \<le> tr_start r" using Cons.prems(1) by auto
  then show ?case using Cons.IH [of "merge_step merged item"] Cons.prems step by auto
qed simp

lemma merge_ranges_correct:
  assumes "\<forall>r\<in>set rs. a \<le> tr_start r \<and> tr_start r < tr_end r \<and> tr_end r \<le> n"
  shows "separated a n (merge_ranges rs) \<and> rows (merge_ranges rs) = rows rs"
proof -
  let ?items = "sort_key (\<lambda>item. (tr_start item, tr_end item)) rs"
  have "sorted (map (\<lambda>item. (tr_start item, tr_end item)) ?items)" by (rule sorted_sort_key)
  then have "sorted (map tr_start ?items)" unfolding sorted_map by (rule sorted_wrt_mono_rel [rotated]) auto
  then show ?thesis using foldl_merge_step [of ?items a n "[]"] assms by (simp add: merge_ranges_def separated_def)
qed

lemma policy_complement_eq: "policy_complement n rs = complement n rs"
proof -
  have "policy_complement_loop n c rs = complement_loop n c rs" for c
    by (induction rs arbitrary: c) auto
  then show ?thesis by (simp add: policy_complement_def complement_def)
qed

lemma validate_cache_ranges_Inr:
  assumes "\<forall>r\<in>set rs. wf_range r" "0 \<le> n" "n \<le> 131072"
  shows "validate_cache_ranges n rs = Inr cached \<longleftrightarrow> cached = rs \<and> canonical 0 n rs"
proof -
  have "validate_cache_ranges n rs = Inr cached \<longleftrightarrow> normalize_ranges (PInt n) rs = Inr cached"
    using assms(2,3)
    by (auto simp: validate_cache_ranges_def normalize_ranges_def result_simps validate_prompt_tokens_Inr check_ranges_Inr
        Let_def GPT_OSS_MAX_CONTEXT_TOKENS_def)
  then show ?thesis using normalize_ranges_Inr [OF assms(1)] assms(2,3) by (auto simp: GPT_OSS_MAX_CONTEXT_TOKENS_def)
qed

section \<open>The ranked prefix\<close>

lemma selection_budget_bounds:
  assumes "0 \<le> ratio" "ratio \<le> 1" "int n < 2 ^ 53"
  shows "0 \<le> selection_budget n ratio \<and> selection_budget n ratio \<le> int n"
proof -
  have "of_nat n * ratio \<le> of_int (int n)" using assms(1,2) by (simp add: mult_left_le)
  then have "round_double (of_nat n * ratio) \<le> round_double (of_int (int n))" by (rule round_double_mono)
  also have "\<dots> = of_int (int n)" using assms(3) by (intro round_double_int) simp
  finally have "selection_budget n ratio \<le> int n" unfolding selection_budget_def by linarith
  moreover have "0 \<le> round_double (of_nat n * ratio)" using assms(1) by (intro round_double_sign) simp
  ultimately show ?thesis by (simp add: selection_budget_def)
qed

lemma selection_budget_mono: "r \<le> s \<Longrightarrow> selection_budget n r \<le> selection_budget n s"
  unfolding selection_budget_def by (intro floor_mono round_double_mono mult_left_mono) simp_all

lemma selection_budget_one: "int n < 2 ^ 53 \<Longrightarrow> selection_budget n 1 = int n"
  using round_double_int [of "int n"] by (simp add: selection_budget_def)

lemma selection_budget_zero: "selection_budget n 0 = 0"
  by (simp add: selection_budget_def round_double_def)

lemma rank_key_inj: "inj_on (rank_key scores) A"
  by (auto simp: inj_on_def rank_key_def)

lemma ranked_strict: "distinct xs \<Longrightarrow> sorted_wrt (\<lambda>p q. rank_key scores p < rank_key scores q) (sort_key (rank_key scores) xs)"
proof -
  assume d: "distinct xs"
  have "sorted (map (rank_key scores) (sort_key (rank_key scores) xs))" "distinct (map (rank_key scores) (sort_key (rank_key scores) xs))"
    using d by (simp_all add: distinct_map rank_key_inj)
  then have "sorted_wrt (<) (map (rank_key scores) (sort_key (rank_key scores) xs))" by (simp add: strict_sorted_iff)
  then show ?thesis by (simp add: sorted_wrt_map)
qed

lemma selected_rows_top:
  assumes "distinct eligible" "0 \<le> ratio" "ratio \<le> 1" "int (length eligible) < 2 ^ 53"
  shows "sorted_wrt (<) (selected_rows scores ratio eligible)" "set (selected_rows scores ratio eligible) \<subseteq> set eligible"
    "int (length (selected_rows scores ratio eligible)) = selection_budget (length eligible) ratio"
    "\<lbrakk>p \<in> set (selected_rows scores ratio eligible); q \<in> set eligible; q \<notin> set (selected_rows scores ratio eligible)\<rbrakk> \<Longrightarrow>
      rank_key scores p < rank_key scores q"
proof -
  let ?k = "nat (selection_budget (length eligible) ratio)" and ?ranked = "sort_key (rank_key scores) eligible"
  have s: "selected_rows scores ratio eligible = sort (take ?k ?ranked)" by (simp add: selected_rows_def)
  have d: "distinct (take ?k ?ranked)" using assms(1) by simp
  then show "sorted_wrt (<) (selected_rows scores ratio eligible)" by (simp add: s strict_sorted_iff)
  show "set (selected_rows scores ratio eligible) \<subseteq> set eligible" unfolding s using set_take_subset [of ?k ?ranked] by simp
  show "int (length (selected_rows scores ratio eligible)) = selection_budget (length eligible) ratio"
    unfolding s using selection_budget_bounds [OF assms(2,3,4)] by (auto simp: min_def)
  assume p: "p \<in> set (selected_rows scores ratio eligible)" and q: "q \<in> set eligible" "q \<notin> set (selected_rows scores ratio eligible)"
  have r: "?ranked = take ?k ?ranked @ drop ?k ?ranked" by simp
  have "q \<in> set (drop ?k ?ranked)" using q r unfolding s by (metis UnE set_append set_sort)
  moreover have "sorted_wrt (\<lambda>p q. rank_key scores p < rank_key scores q) (take ?k ?ranked @ drop ?k ?ranked)"
    using ranked_strict [OF assms(1)] by simp
  ultimately show "rank_key scores p < rank_key scores q" using p unfolding s sorted_wrt_append by auto
qed

lemma selected_rows_mono:
  "ratio \<le> ratio' \<Longrightarrow> set (selected_rows scores ratio eligible) \<subseteq> set (selected_rows scores ratio' eligible)"
  using selection_budget_mono [of ratio ratio' "length eligible"]
  by (auto simp: selected_rows_def intro!: set_take_subset_set_take nat_mono dest: set_take_subset_set_take [THEN subsetD, rotated])

section \<open>Results of a selection\<close>

text \<open>The sets behind the row lists: rows that must be recomputed, and rows the ratio may choose from.\<close>

definition forced_rows :: "int \<Rightarrow> TokenRange list \<Rightarrow> int \<Rightarrow> int set" where
  "forced_rows n cached suffix = ({0..<n} - rows cached) \<union> {n - suffix..<n}"

definition valid_policy_input :: "int \<Rightarrow> TokenRange list \<Rightarrow> rat list \<Rightarrow> int \<Rightarrow> rat \<Rightarrow> int \<Rightarrow> bool" where
  "valid_policy_input n cached scores layer ratio suffix \<longleftrightarrow>
     0 \<le> n \<and> n \<le> 131072 \<and> canonical 0 n cached \<and> int (length scores) = n \<and> (\<forall>s\<in>set scores. 0 \<le> s) \<and>
     0 \<le> layer \<and> layer < 24 \<and> 0 \<le> ratio \<and> ratio \<le> 1 \<and> 0 \<le> suffix \<and> suffix \<le> n"

definition selection_result :: "int \<Rightarrow> TokenRange list \<Rightarrow> rat list \<Rightarrow> int \<Rightarrow> rat \<Rightarrow> int \<Rightarrow> SelectionPolicyResult" where
  "selection_result n cached scores layer ratio suffix =
     (let forced = forced_suffix n suffix;
          selected = selected_rows scores ratio (eligible_rows cached forced);
          recompute = merge_ranges (policy_complement n cached @ forced @
            map (\<lambda>position. \<lparr>tr_start = position, tr_end = position + 1\<rparr>) selected) in
      \<lparr>sr_check_layer = layer, sr_recompute_ratio = ratio, sr_suffix_tokens = suffix, sr_candidate_cached_ranges = cached,
       sr_recompute_ranges = recompute, sr_selected_cached_rows = selected,
       sr_row_plan = \<lparr>fp_prompt_tokens = n, fp_layers = map (\<lambda>k. \<lparr>lr_layer_index = k, lr_prompt_tokens = n,
         lr_recompute_ranges = recompute\<rparr>) [0..23]\<rparr>\<rparr>)"

lemma rows_forced_suffix: "0 \<le> suffix \<Longrightarrow> rows (forced_suffix n suffix) = {n - suffix..<n}"
  by (auto simp: forced_suffix_def range_set_def)

lemma contains_position_rows: "contains_position rs p \<longleftrightarrow> p \<in> rows rs"
  by (auto simp: contains_position_def range_set_def)

lemma set_eligible_rows: "set (eligible_rows cached forced) = rows cached - rows forced"
  by (auto simp: eligible_rows_def contains_position_rows range_set_def)

lemma sorted_eligible_rows: "canonical a n cached \<Longrightarrow> sorted_wrt (<) (eligible_rows cached forced)"
proof (induction cached arbitrary: a)
  case (Cons r rs)
  then have "sorted_wrt (<) (eligible_rows rs forced)" by (auto simp: canonical_Cons)
  moreover have "tr_end r \<le> p" if "p \<in> set (eligible_rows rs forced)" for p
    using that Cons.prems by (force simp: set_eligible_rows range_set_def canonical_def)
  moreover have "eligible_rows (r # rs) forced =
      filter (\<lambda>p. \<not> contains_position forced p) [tr_start r..tr_end r - 1] @ eligible_rows rs forced"
    by (simp add: eligible_rows_def)
  moreover have "sorted_wrt (<) (filter (\<lambda>p. \<not> contains_position forced p) [tr_start r..tr_end r - 1])"
    by (intro sorted_wrt_filter) (simp add: sorted_wrt_upto)
  ultimately show ?case by (fastforce simp: sorted_wrt_append)
qed (simp add: eligible_rows_def)

lemma length_eligible_rows:
  assumes "canonical 0 n cached" "0 \<le> n"
  shows "distinct (eligible_rows cached forced)" "int (length (eligible_rows cached forced)) \<le> n"
proof -
  show d: "distinct (eligible_rows cached forced)" using sorted_eligible_rows [OF assms(1)] by (simp add: strict_sorted_iff)
  have "set (eligible_rows cached forced) \<subseteq> {0..<n}"
    using assms(1) by (fastforce simp: set_eligible_rows range_set_def canonical_def)
  then have "card (set (eligible_rows cached forced)) \<le> card {0..<n}" by (intro card_mono) auto
  then show "int (length (eligible_rows cached forced)) \<le> n" using distinct_card [OF d] assms(2) by simp
qed

lemma selection_result_rows:
  assumes "valid_policy_input n cached scores layer ratio suffix"
  defines "r \<equiv> selection_result n cached scores layer ratio suffix"
  shows "separated 0 n (sr_recompute_ranges r)"
    "rows (sr_recompute_ranges r) = forced_rows n cached suffix \<union> set (sr_selected_cached_rows r)"
    "set (sr_selected_cached_rows r) \<subseteq> {0..<n} - forced_rows n cached suffix"
proof -
  let ?forced = "forced_suffix n suffix"
  let ?el = "eligible_rows cached ?forced"
  let ?sel = "selected_rows scores ratio ?el"
  let ?all = "policy_complement n cached @ ?forced @ map (\<lambda>p. \<lparr>tr_start = p, tr_end = p + 1\<rparr>) ?sel"
  have v: "0 \<le> n" "n \<le> 131072" "canonical 0 n cached" "0 \<le> ratio" "ratio \<le> 1" "0 \<le> suffix" "suffix \<le> n"
    using assms(1) by (auto simp: valid_policy_input_def)
  have r: "sr_recompute_ranges r = merge_ranges ?all" "sr_selected_cached_rows r = ?sel"
    by (simp_all add: r_def selection_result_def Let_def)
  have el: "set ?el = rows cached - {n - suffix..<n}" using v by (simp add: set_eligible_rows rows_forced_suffix)
  have inside: "rows cached \<subseteq> {0..<n}" using v(3) by (fastforce simp: range_set_def canonical_def)
  have sel: "set ?sel \<subseteq> set ?el"
    using selected_rows_top(2) [of ?el ratio scores] length_eligible_rows [OF v(3,1), of ?forced] v by simp
  show "set (sr_selected_cached_rows r) \<subseteq> {0..<n} - forced_rows n cached suffix"
    using sel el inside by (auto simp: r(2) forced_rows_def)
  have comp: "canonical 0 n (policy_complement n cached)" "rows (policy_complement n cached) = {0..<n} - rows cached"
    using complement_loop_canonical [OF v(3,1)] complement_loop_set [OF v(3,1)]
    by (simp_all add: policy_complement_eq complement_def)
  have "\<forall>p\<in>set ?sel. 0 \<le> p \<and> p < n" using sel el inside by fastforce
  moreover have "\<forall>x\<in>set ?forced. 0 \<le> tr_start x \<and> tr_start x < tr_end x \<and> tr_end x \<le> n" using v by (simp add: forced_suffix_def)
  moreover have "\<forall>x\<in>set (policy_complement n cached). 0 \<le> tr_start x \<and> tr_start x < tr_end x \<and> tr_end x \<le> n"
    using comp(1) by (simp add: canonical_def)
  ultimately have "\<forall>x\<in>set ?all. 0 \<le> tr_start x \<and> tr_start x < tr_end x \<and> tr_end x \<le> n" by auto
  from merge_ranges_correct [OF this] have m: "separated 0 n (merge_ranges ?all)" "rows (merge_ranges ?all) = rows ?all"
    by simp_all
  show "separated 0 n (sr_recompute_ranges r)" using m by (simp add: r)
  have "rows (map (\<lambda>p. \<lparr>tr_start = p, tr_end = p + 1\<rparr>) ?sel) = set ?sel" by (auto simp: range_set_def)
  moreover have "rows ?all = rows (policy_complement n cached) \<union> (rows ?forced \<union> rows (map (\<lambda>p. \<lparr>tr_start = p, tr_end = p + 1\<rparr>) ?sel))"
    by (simp only: set_append UN_Un)
  ultimately have "rows ?all = forced_rows n cached suffix \<union> set ?sel"
    by (simp only: comp(2) rows_forced_suffix [OF v(6)] forced_rows_def Un_assoc)
  then show "rows (sr_recompute_ranges r) = forced_rows n cached suffix \<union> set (sr_selected_cached_rows r)"
    using m(2) by (simp only: r)
qed

text \<open>A number that passed the check, and the scores that did.\<close>

lemma policy_float_Inr:
  "policy_float code ok v = Inr r \<longleftrightarrow> ok r \<and> py_float v = Inr (Finite r)"
  by (cases v) (auto simp: policy_float_def py_float_def Let_def split: pyfloat.splits)

text \<open>An integer beyond the doubles is not reported as an invalid input but raises while it is converted.\<close>

lemma policy_float_huge: "2 ^ 1024 - 2 ^ 970 \<le> n \<Longrightarrow> policy_float code ok (PInt n) = Inl (FloatRaise OverflowError)"
  by (simp only: policy_float_def py_float_huge Let_def pyval.case sum.case)

definition score_values :: "pyval list \<Rightarrow> rat list \<Rightarrow> bool" where
  "score_values vs scores \<longleftrightarrow> list_all2 (\<lambda>v s. py_float v = Inr (Finite s)) vs scores"

lemma scores_Inr:
  "rmap (policy_float code (\<lambda>r. \<not> r < 0)) vs = Inr scores \<longleftrightarrow> score_values vs scores \<and> (\<forall>s\<in>set scores. 0 \<le> s)"
  by (auto simp: rmap_Inr score_values_def list_all2_conv_all_nth all_set_conv_all_nth policy_float_Inr not_less)

lemma select_Inr:
  assumes "\<forall>r\<in>set rs. wf_range r"
  shows "select v rs vs lv rv sv = Inr r \<longleftrightarrow>
    (\<exists>n scores layer ratio suffix. v = PInt n \<and> score_values vs scores \<and> lv = PInt layer \<and>
       py_float rv = Inr (Finite ratio) \<and> sv = PInt suffix \<and> valid_policy_input n rs scores layer ratio suffix \<and>
       r = selection_result n rs scores layer ratio suffix)" (is "?L \<longleftrightarrow> ?R")
proof -
  have row_plan: "from_recompute_ranges (PInt n) (replicate (nat GPT_OSS_NUM_LAYERS)
        (sr_recompute_ranges (selection_result n rs scores layer ratio suffix))) =
      Inr (sr_row_plan (selection_result n rs scores layer ratio suffix))"
    if "valid_policy_input n rs scores layer ratio suffix" for n scores layer ratio suffix
  proof -
    let ?rs = "sr_recompute_ranges (selection_result n rs scores layer ratio suffix)"
    have c: "canonical 0 n ?rs" using selection_result_rows(1) [OF that] by (rule separated_canonical)
    then have "\<forall>r\<in>set ?rs. wf_range r" by (auto simp: canonical_def wf_range_def)
    then show ?thesis using from_recompute_ranges_Inr [of "replicate (nat GPT_OSS_NUM_LAYERS) ?rs" "PInt n"] c that
      by (auto simp: GPT_OSS_NUM_LAYERS_def GPT_OSS_MAX_CONTEXT_TOKENS_def valid_policy_input_def selection_result_def
          Let_def nth_enumerate_eq intro!: nth_equalityI)
  qed
  show ?thesis
  proof
    assume ?L
    then obtain n layer ratio suffix scores where n: "v = PInt n" "lv = PInt layer" "sv = PInt suffix"
      "policy_float INVALID_RECOMPUTE_RATIO (\<lambda>r. 0 \<le> r \<and> r \<le> 1) rv = Inr ratio"
      "rmap (policy_float INVALID_IMPORTANCE_SCORES (\<lambda>r. \<not> r < 0)) vs = Inr scores"
      "0 \<le> n" "n \<le> 131072" "0 \<le> layer" "layer < 24" "0 \<le> suffix" "suffix \<le> n" "int (length vs) = n"
      "validate_cache_ranges n rs = Inr rs"
      using validate_cache_ranges_Inr [OF assms]
      by (cases v; cases lv; cases sv)
        (auto simp: select_def result_simps policy_prompt_tokens_def GPT_OSS_NUM_LAYERS_def split: if_splits)
    have "canonical 0 n rs" using validate_cache_ranges_Inr [OF assms n(6,7), of rs] n(13) by simp
    moreover have "length scores = length vs" using n(5) by (simp add: rmap_Inr list_all2_lengthD)
    ultimately have val: "valid_policy_input n rs scores layer ratio suffix"
      using n by (auto simp: valid_policy_input_def scores_Inr policy_float_Inr)
    then show ?R using \<open>?L\<close> n row_plan [OF val]
      by (auto simp: select_def policy_prompt_tokens_def GPT_OSS_NUM_LAYERS_def policy_float_Inr scores_Inr selection_result_def Let_def
          valid_policy_input_def)
  next
    assume ?R
    then obtain n scores layer ratio suffix where a: "v = PInt n" "score_values vs scores" "lv = PInt layer"
       "py_float rv = Inr (Finite ratio)" "sv = PInt suffix" and val: "valid_policy_input n rs scores layer ratio suffix" and
       r: "r = selection_result n rs scores layer ratio suffix" by blast
    have "policy_float INVALID_RECOMPUTE_RATIO (\<lambda>r. 0 \<le> r \<and> r \<le> 1) rv = Inr ratio"
      "rmap (policy_float INVALID_IMPORTANCE_SCORES (\<lambda>r. \<not> r < 0)) vs = Inr scores"
      using a val by (auto simp: policy_float_Inr scores_Inr valid_policy_input_def)
    moreover have "validate_cache_ranges n rs = Inr rs"
      using val validate_cache_ranges_Inr [OF assms, of n rs] by (simp add: valid_policy_input_def)
    moreover have "length vs = length scores" using a(2) by (simp add: score_values_def list_all2_lengthD)
    ultimately show ?L using a val row_plan [OF val] unfolding r
      by (auto simp: select_def policy_prompt_tokens_def GPT_OSS_NUM_LAYERS_def selection_result_def Let_def valid_policy_input_def)
  qed
qed

lemma selection_result_layer:
  assumes "valid_policy_input n cached scores layer ratio suffix" "r = selection_result n cached scores layer ratio suffix"
    "l \<in> set (fp_layers (sr_row_plan r))"
  shows "wf_selection l" "rows (lr_recompute_ranges l) = forced_rows n cached suffix \<union> set (sr_selected_cached_rows r)"
    "rows (cached_ranges l) = rows cached - {n - suffix..<n} - set (sr_selected_cached_rows r)"
    "layer_recompute_tokens l = int (card (rows (sr_recompute_ranges r)))" "lr_prompt_tokens l = n"
proof -
  note res = selection_result_rows [OF assms(1), folded assms(2)]
  have v: "0 \<le> n" "n \<le> 131072" "canonical 0 n cached" using assms(1) by (auto simp: valid_policy_input_def)
  have l: "0 \<le> lr_layer_index l" "lr_layer_index l < 24" "lr_prompt_tokens l = n" "lr_recompute_ranges l = sr_recompute_ranges r"
    using assms(3) unfolding assms(2) by (auto simp: selection_result_def Let_def)
  have c: "canonical 0 n (sr_recompute_ranges r)" using res(1) by (rule separated_canonical)
  show "wf_selection l" using l v c by (simp add: wf_selection_def GPT_OSS_NUM_LAYERS_def GPT_OSS_MAX_CONTEXT_TOKENS_def)
  show "rows (lr_recompute_ranges l) = forced_rows n cached suffix \<union> set (sr_selected_cached_rows r)" using res(2) l(4) by simp
  have "rows (cached_ranges l) = {0..<n} - rows (sr_recompute_ranges r)"
    using complement_loop_set [OF c v(1)] l by (simp add: cached_ranges_def complement_def)
  moreover have "rows cached \<subseteq> {0..<n}" using v(3) by (fastforce simp: range_set_def canonical_def)
  ultimately show "rows (cached_ranges l) = rows cached - {n - suffix..<n} - set (sr_selected_cached_rows r)"
    using res(2) by (auto simp: forced_rows_def)
  have "sorted_wrt (\<lambda>x y. \<not> overlaps y x) (sr_recompute_ranges r)" using c unfolding canonical_def
    by (auto simp: overlaps_def elim!: sorted_wrt_mono_rel [rotated])
  moreover have "\<forall>x\<in>set (sr_recompute_ranges r). wf_range x" using c by (auto simp: canonical_def wf_range_def)
  ultimately show "layer_recompute_tokens l = int (card (rows (sr_recompute_ranges r)))"
    using disjoint_ranges_card [of "\<lambda>x. x" "sr_recompute_ranges r"] l(4)
    by (simp add: layer_recompute_tokens_def range_token_count_def)
  show "lr_prompt_tokens l = n" by (rule l(3))
qed

text \<open>The work of a result: the recomputed share of the prompt as a double.\<close>

definition recomputed_share :: "SelectionPolicyResult \<Rightarrow> rat" where
  "recomputed_share r =
     (if sr_prompt_tokens r = 0 then 0
      else round_double (of_nat (card (rows (sr_recompute_ranges r))) / of_int (sr_prompt_tokens r)))"

lemma recompute_fraction_eq:
  assumes "valid_policy_input n cached scores layer ratio suffix" "r = selection_result n cached scores layer ratio suffix"
  shows "recompute_fraction r = Inr (recomputed_share r)"
proof -
  have f: "fp_layers (sr_row_plan r) ! 0 \<in> set (fp_layers (sr_row_plan r))"
    by (rule nth_mem) (simp add: assms(2) selection_result_def Let_def)
  have "layer_recompute_tokens (fp_layers (sr_row_plan r) ! 0) = int (card (rows (sr_recompute_ranges r)))"
    using selection_result_layer(4) [OF assms f] .
  then show ?thesis
    by (simp add: recompute_fraction_def recompute_tokens_per_layer_def sr_layer_zero_def plan_layer_def GPT_OSS_NUM_LAYERS_def
        recomputed_share_def)
qed

lemma recomputed_share_bounds:
  assumes "rows (sr_recompute_ranges r) \<subseteq> {0..<sr_prompt_tokens r}" "0 \<le> sr_prompt_tokens r"
  shows "0 \<le> recomputed_share r \<and> recomputed_share r \<le> 1"
proof -
  let ?c = "card (rows (sr_recompute_ranges r))"
  have "?c \<le> card {0..<sr_prompt_tokens r}" using assms(1) by (intro card_mono) auto
  then have "int ?c \<le> sr_prompt_tokens r" using assms(2) by simp
  then have "(of_int (int ?c) :: rat) \<le> of_int (sr_prompt_tokens r)" by (simp only: of_int_le_iff)
  then have "(of_nat ?c :: rat) / of_int (sr_prompt_tokens r) \<le> of_int 1"
    using assms(2) by (auto simp add: divide_le_eq_1)
  then have "round_double (of_nat ?c / of_int (sr_prompt_tokens r)) \<le> round_double (of_int 1)" by (rule round_double_mono)
  then have "round_double (of_nat ?c / of_int (sr_prompt_tokens r)) \<le> 1" using round_double_int [of 1] by simp
  moreover have "0 \<le> round_double (of_nat ?c / of_int (sr_prompt_tokens r))" using assms(2) by (intro round_double_sign) simp
  ultimately show ?thesis by (simp add: recomputed_share_def)
qed

lemma recomputed_share_mono:
  assumes "rows (sr_recompute_ranges r) \<subseteq> rows (sr_recompute_ranges r')" "sr_prompt_tokens r = sr_prompt_tokens r'"
    "0 \<le> sr_prompt_tokens r'"
  shows "recomputed_share r \<le> recomputed_share r'"
proof -
  have "card (rows (sr_recompute_ranges r)) \<le> card (rows (sr_recompute_ranges r'))" using assms(1) by (intro card_mono) auto
  then show ?thesis using assms(2,3) unfolding recomputed_share_def by (auto intro!: round_double_mono divide_right_mono)
qed

lemma selection_result_mono:
  assumes "valid_policy_input n cached scores layer ratio suffix" "valid_policy_input n cached scores layer ratio' suffix" "ratio \<le> ratio'"
  shows "rows (sr_recompute_ranges (selection_result n cached scores layer ratio suffix)) \<subseteq>
    rows (sr_recompute_ranges (selection_result n cached scores layer ratio' suffix))"
  unfolding selection_result_rows(2) [OF assms(1)] selection_result_rows(2) [OF assms(2)]
  using selected_rows_mono [OF assms(3), of scores] by (auto simp: selection_result_def Let_def)

section \<open>Sweeps\<close>

lemma adjacent_decreasing:
  "(\<forall>x\<in>set (zip xs (tl xs)). \<not> (case x of (left, right) \<Rightarrow> left \<le> right)) \<longleftrightarrow> sorted_wrt (>) (xs :: rat list)"
proof -
  have "sorted_wrt (>) xs \<longleftrightarrow> (\<forall>i. Suc i < length xs \<longrightarrow> xs ! i > xs ! Suc i)"
    by (rule sorted_wrt_iff_nth_Suc_transp) (auto simp: transp_def)
  then show ?thesis by (auto simp: all_set_conv_all_nth nth_tl not_le)
qed

lemma SelectionSweep_init_Inr:
  "SelectionSweep_init points = Inr s \<longleftrightarrow> points \<noteq> [] \<and> sorted_wrt (>) (map sp_ratio points) \<and>
     (\<forall>p\<in>set points. sweep_context p = sweep_context (hd points)) \<and> s = \<lparr>sweep_points = points\<rparr>"
  using adjacent_decreasing [of "map sp_ratio points"]
  by (cases points) (auto simp: SelectionSweep_init_def Let_def)

lemma sweep_Inr:
  assumes "\<forall>r\<in>set rs. wf_range r" "sweep v rs vs lv rvs sv = Inr s"
  obtains n scores layer suffix ratios where "v = PInt n" "score_values vs scores" "lv = PInt layer" "sv = PInt suffix"
    "list_all2 (\<lambda>rv ratio. py_float rv = Inr (Finite ratio)) rvs ratios"
    "\<forall>ratio\<in>set ratios. valid_policy_input n rs scores layer ratio suffix" "sorted_wrt (>) ratios"
    "s = \<lparr>sweep_points = map (\<lambda>ratio. \<lparr>sp_result = selection_result n rs scores layer ratio suffix, sp_measurement = None\<rparr>) ratios\<rparr>"
proof -
  let ?f = "\<lambda>ratio. map_sum id (\<lambda>result. \<lparr>sp_result = result, sp_measurement = None\<rparr>) (select v rs vs lv ratio sv)"
  obtain points where points: "rmap ?f rvs = Inr points" "SelectionSweep_init points = Inr s" "rvs \<noteq> []"
    using assms(2) by (auto simp: sweep_def result_simps split: if_splits)
  then have l2: "list_all2 (\<lambda>rv p. ?f rv = Inr p) rvs points" by (simp add: rmap_Inr)
  have one: "\<exists>n scores layer ratio suffix. v = PInt n \<and> score_values vs scores \<and> lv = PInt layer \<and>
      py_float rv = Inr (Finite ratio) \<and> sv = PInt suffix \<and> valid_policy_input n rs scores layer ratio suffix \<and>
      p = \<lparr>sp_result = selection_result n rs scores layer ratio suffix, sp_measurement = None\<rparr>" if fp: "?f rv = Inr p" for rv p
  proof -
    obtain r where "select v rs vs lv rv sv = Inr r" "p = \<lparr>sp_result = r, sp_measurement = None\<rparr>"
      using fp by (cases "select v rs vs lv rv sv") auto
    then show ?thesis using select_Inr [OF assms(1), of v vs lv rv sv r] by blast
  qed
  have fun_scores: "scores = scores'" if "score_values vs scores" "score_values vs scores'" for scores scores'
    using that by (auto simp: score_values_def list_all2_conv_all_nth intro!: nth_equalityI)
  obtain rv p where "?f rv = Inr p" using l2 points(3) by (cases rvs; cases points) auto
  from one [OF this] obtain n scores layer suffix where h: "v = PInt n" "score_values vs scores" "lv = PInt layer" "sv = PInt suffix"
    by blast
  let ?pt = "\<lambda>ratio. \<lparr>sp_result = selection_result n rs scores layer ratio suffix, sp_measurement = None\<rparr>"
  have each: "py_float rv = Inr (Finite (sp_ratio p)) \<and> valid_policy_input n rs scores layer (sp_ratio p) suffix \<and> p = ?pt (sp_ratio p)"
    if fp: "?f rv = Inr p" for rv p
  proof -
    from one [OF fp] obtain scores' ratio where o: "score_values vs scores'" "py_float rv = Inr (Finite ratio)"
      "valid_policy_input n rs scores' layer ratio suffix"
      "p = \<lparr>sp_result = selection_result n rs scores' layer ratio suffix, sp_measurement = None\<rparr>" using h by auto
    then have "sp_ratio p = ratio" by (simp add: sp_ratio_def selection_result_def Let_def)
    then show ?thesis using o fun_scores [OF o(1) h(2)] by simp
  qed
  show thesis
  proof (rule that [OF h, of "map sp_ratio points"])
    show "list_all2 (\<lambda>rv ratio. py_float rv = Inr (Finite ratio)) rvs (map sp_ratio points)"
      unfolding list_all2_map2 by (rule list_all2_mono [OF l2]) (use each in blast)
    show "\<forall>ratio\<in>set (map sp_ratio points). valid_policy_input n rs scores layer ratio suffix"
      using l2 each by (fastforce simp: list_all2_conv_all_nth in_set_conv_nth)
    show "sorted_wrt (>) (map sp_ratio points)" using points(2) by (simp add: SelectionSweep_init_Inr)
    have "points = map ?pt (map sp_ratio points)"
      using l2 each by (auto simp: list_all2_conv_all_nth intro!: nth_equalityI)
    then show "s = \<lparr>sweep_points = map ?pt (map sp_ratio points)\<rparr>" using points(2) by (simp add: SelectionSweep_init_Inr)
  qed
qed

lemma map_eq_hd_const:
  assumes "map f xs = map f ys" "\<forall>y\<in>set ys. f y = f (hd ys)"
  shows "\<forall>x\<in>set xs. f x = f (hd xs)"
proof
  have const: "f x = f (hd ys)" if "x \<in> set xs" for x
  proof -
    have "f x \<in> f ` set ys" using assms(1) that by (metis image_eqI list.set_map)
    then show ?thesis using assms(2) by auto
  qed
  fix x assume "x \<in> set xs"
  then show "f x = f (hd xs)" using const [of x] const [of "hd xs"] by (metis hd_in_set list.set_cases list.discI)
qed

lemma with_measurements_attach:
  assumes "SelectionSweep_init points = Inr s" "length ms = length points"
  shows "\<exists>s'. with_measurements s ms = Inr s' \<and> sweep_ratios s' = sweep_ratios s \<and> work_curve s' = work_curve s \<and>
    latency_curve s' = Inr (zip (sweep_ratios s) (map me_selective_latency_seconds ms))"
proof -
  let ?f = "\<lambda>(point, measurement). \<lparr>sp_result = sp_result point, sp_measurement = Some measurement\<rparr>"
  let ?points = "map ?f (zip points ms)"
  have s: "s = \<lparr>sweep_points = points\<rparr>" using assms(1) by (simp add: SelectionSweep_init_Inr)
  have res: "map sp_result ?points = map sp_result points" using assms(2) by (auto intro!: nth_equalityI)
  have ratio: "map sp_ratio ?points = map sp_ratio points" using assms(2) by (auto simp: sp_ratio_def intro!: nth_equalityI)
  have ctx: "map sweep_context ?points = map sweep_context points"
    using assms(2) by (auto simp: sweep_context_def intro!: nth_equalityI)
  note init = assms(1) [unfolded SelectionSweep_init_Inr]
  have const: "\<forall>y\<in>set points. sweep_context y = sweep_context (hd points)" using init by blast
  have "\<forall>p\<in>set ?points. sweep_context p = sweep_context (hd ?points)" by (rule map_eq_hd_const [OF ctx const])
  moreover have "points \<noteq> []" using init by blast
  then have "?points \<noteq> []" using assms(2) by (cases points; cases ms) simp_all
  moreover have "sorted_wrt (>) (map sp_ratio ?points)" unfolding ratio using init by blast
  ultimately have "SelectionSweep_init ?points = Inr \<lparr>sweep_points = ?points\<rparr>" unfolding SelectionSweep_init_Inr by blast
  then have "with_measurements s ms = Inr \<lparr>sweep_points = ?points\<rparr>" using assms(2) by (simp add: with_measurements_def s)
  moreover have "rmap (\<lambda>p. map_sum id (Pair (sp_ratio p)) (sp_recompute_fraction p)) ?points =
      rmap (\<lambda>p. map_sum id (Pair (sp_ratio p)) (sp_recompute_fraction p)) points"
  proof -
    let ?g = "\<lambda>r. map_sum id (Pair (sr_recompute_ratio r)) (recompute_fraction r)"
    have "rmap ?g (map sp_result ?points) = rmap ?g (map sp_result points)" by (simp only: res)
    then show ?thesis by (simp only: rmap_map sp_ratio_def sp_recompute_fraction_def o_def)
  qed
  then have "work_curve \<lparr>sweep_points = ?points\<rparr> = work_curve s" by (simp add: work_curve_def s)
  moreover have "sweep_ratios \<lparr>sweep_points = ?points\<rparr> = sweep_ratios s" by (simp only: sweep_ratios_def s ratio SelectionSweep.select_convs)
  moreover have "latency_curve \<lparr>sweep_points = ?points\<rparr> = Inr (zip (sweep_ratios s) (map me_selective_latency_seconds ms))"
    using assms(2) by (auto simp: latency_curve_def sweep_ratios_def s sp_ratio_def dest: set_zip_leftD intro!: nth_equalityI)
  ultimately show ?thesis by blast
qed

section \<open>Properties\<close>

definition example_cached :: "TokenRange list" where
  "example_cached = [\<lparr>tr_start = 0, tr_end = 2\<rparr>, \<lparr>tr_start = 3, tr_end = 5\<rparr>]"

definition example_scores :: "pyval list" where
  "example_scores = [PInt 1, PInt 4, PInt 2, PInt 4, PInt 3]"

lemma example_policy_input:
  assumes "0 \<le> ratio" "ratio \<le> 1"
  shows "valid_policy_input 5 example_cached [1, 4, 2, 4, 3] 0 ratio 1" "score_values example_scores [1, 4, 2, 4, 3]"
    "\<forall>r\<in>set example_cached. wf_range r"
  using assms round_double_int [of 1] round_double_int [of 2] round_double_int [of 3] round_double_int [of 4]
  by (auto simp: valid_policy_input_def example_cached_def canonical_def score_values_def example_scores_def py_float_def
      wf_range_def)

lemma example_select:
  "select (PInt 5) example_cached example_scores (PInt 0) (PFloat (Finite (1 / 2))) (PInt 1) =
     Inr (selection_result 5 example_cached [1, 4, 2, 4, 3] 0 (1 / 2) 1)"
proof -
  have "py_float (PFloat (Finite (1 / 2))) = Inr (Finite (1 / 2))" by (simp add: py_float_def)
  then show ?thesis
    using select_Inr [OF example_policy_input(3) [of "1 / 2"]] example_policy_input(1,2) [of "1 / 2"] by fastforce
qed

text \<open>
  C28. A selection chooses by rank and never skips a row without verified KV: in each of the 24 layers the
  recomputed rows are the rows outside the cached ranges, the suffix and the selected rows, and all
  other rows, each verified and outside the suffix, stay cached.  The selected rows are as many as the
  rounded, truncated share of the eligible rows and come before every unselected eligible row in the
  order of descending score, ties broken by position; the full ratio recomputes the whole prompt and
  the zero ratio selects nothing.
\<close>

theorem selection_is_top_ranked:
  assumes "list_all wf_range rs" "score_values vs scores" "select (PInt n) rs vs lv rv (PInt suffix) = Inr r"
  shows "length (fp_layers (sr_row_plan r)) = 24 \<and>
    (\<forall>l\<in>set (fp_layers (sr_row_plan r)). covers_prompt l \<and>
       rows (lr_recompute_ranges l) = ({0..<n} - rows rs) \<union> {n - suffix..<n} \<union> set (sr_selected_cached_rows r) \<and>
       rows (cached_ranges l) = rows rs - {n - suffix..<n} - set (sr_selected_cached_rows r)) \<and>
    sorted_wrt (<) (sr_selected_cached_rows r) \<and> set (sr_selected_cached_rows r) \<subseteq> rows rs - {n - suffix..<n} \<and>
    int (length (sr_selected_cached_rows r)) =
      \<lfloor>round_double (of_nat (card (rows rs - {n - suffix..<n})) * sr_recompute_ratio r)\<rfloor> \<and>
    (\<forall>p\<in>set (sr_selected_cached_rows r). \<forall>q\<in>rows rs - {n - suffix..<n} - set (sr_selected_cached_rows r).
       scores ! nat q < scores ! nat p \<or> scores ! nat q = scores ! nat p \<and> p < q) \<and>
    (sr_recompute_ratio r = 1 \<longrightarrow> rows (sr_recompute_ranges r) = {0..<n}) \<and>
    (sr_recompute_ratio r = 0 \<longrightarrow> sr_selected_cached_rows r = [])"
proof -
  have wf: "\<forall>r\<in>set rs. wf_range r" using assms(1) by (simp add: list_all_iff)
  obtain scores' layer ratio where o: "score_values vs scores'" "valid_policy_input n rs scores' layer ratio suffix" and
    r': "r = selection_result n rs scores' layer ratio suffix"
    using select_Inr [OF wf, of "PInt n" vs lv rv "PInt suffix" r] assms(3) by blast
  have "scores' = scores" using o(1) assms(2) by (auto simp: score_values_def list_all2_conv_all_nth intro!: nth_equalityI)
  then have val: "valid_policy_input n rs scores layer ratio suffix" and r: "r = selection_result n rs scores layer ratio suffix"
    using o(2) r' by simp_all
  let ?el = "eligible_rows rs (forced_suffix n suffix)"
  have v: "0 \<le> n" "n \<le> 131072" "canonical 0 n rs" "0 \<le> ratio" "ratio \<le> 1" "0 \<le> suffix"
    using val by (auto simp: valid_policy_input_def)
  have sel: "sr_selected_cached_rows r = selected_rows scores ratio ?el" "sr_recompute_ratio r = ratio"
    "length (fp_layers (sr_row_plan r)) = 24" by (simp_all add: r selection_result_def Let_def)
  have el: "set ?el = rows rs - {n - suffix..<n}" using v by (simp add: set_eligible_rows rows_forced_suffix)
  note len = length_eligible_rows [OF v(3,1), of "forced_suffix n suffix"]
  have small: "int (length ?el) < 2 ^ 53" using len(2) v(2) by simp
  note top = selected_rows_top [OF len(1) v(4,5) small, where scores = scores, folded sel(1), unfolded el]
  have card: "card (rows rs - {n - suffix..<n}) = length ?el" using distinct_card [OF len(1)] el by simp
  have layers: "covers_prompt l \<and>
       rows (lr_recompute_ranges l) = ({0..<n} - rows rs) \<union> {n - suffix..<n} \<union> set (sr_selected_cached_rows r) \<and>
       rows (cached_ranges l) = rows rs - {n - suffix..<n} - set (sr_selected_cached_rows r)"
    if "l \<in> set (fp_layers (sr_row_plan r))" for l
    using selection_result_layer [OF val r that] wf_selection_covers by (simp add: forced_rows_def)
  have rank: "scores ! nat q < scores ! nat p \<or> scores ! nat q = scores ! nat p \<and> p < q"
    if "p \<in> set (sr_selected_cached_rows r)" "q \<in> rows rs - {n - suffix..<n} - set (sr_selected_cached_rows r)" for p q
    using top(4) [of p q] that by (auto simp: rank_key_def)
  have full: "rows (sr_recompute_ranges r) = {0..<n}" if "ratio = 1"
  proof -
    have "set (sr_selected_cached_rows r) = set ?el" using selection_budget_one [OF small] that by (simp add: sel selected_rows_def)
    moreover have "rows rs \<subseteq> {0..<n}" using v(3) by (fastforce simp: range_set_def canonical_def)
    moreover have "suffix \<le> n" using val by (simp add: valid_policy_input_def)
    ultimately show ?thesis using selection_result_rows(2) [OF val, folded r] el v(6) by (auto simp: forced_rows_def)
  qed
  have none: "sr_selected_cached_rows r = []" if "ratio = 0" using that by (simp add: sel selected_rows_def selection_budget_zero)
  show ?thesis using sel layers top rank full none card unfolding selection_budget_def by auto
qed

theorem selection_is_top_ranked_witness:
  "\<exists>r. select (PInt 5) example_cached example_scores (PInt 0) (PFloat (Finite (1 / 2))) (PInt 1) = Inr r \<and>
     length (fp_layers (sr_row_plan r)) = 24 \<and> set (sr_selected_cached_rows r) \<subseteq> rows example_cached - {4..<5}"
proof -
  have "list_all wf_range example_cached" "score_values example_scores [1, 4, 2, 4, 3]"
    using example_policy_input(2,3) [of 0] by (simp_all add: list_all_iff)
  from selection_is_top_ranked [OF this example_select] example_select show ?thesis by simp
qed

text \<open>
  C29. A sweep is a descending curve: the ratios of a sweep strictly decrease, every point recomputes a
  subset of the rows of the points before it, and the work curve always exists, pairs each ratio with a
  share between zero and one, and never rises.  Attaching one measurement per point always succeeds
  and leaves ratios and work as they were.
\<close>

theorem sweep_lowers_work:
  assumes "list_all wf_range rs" "sweep v rs vs lv rvs sv = Inr s"
  shows "sorted_wrt (>) (sweep_ratios s) \<and> length (sweep_ratios s) = length rvs \<and>
    sorted_wrt (\<lambda>a b. rows (sr_recompute_ranges (sp_result b)) \<subseteq> rows (sr_recompute_ranges (sp_result a))) (sweep_points s) \<and>
    (\<exists>curve. work_curve s = Inr curve \<and> map fst curve = sweep_ratios s \<and> sorted_wrt (\<ge>) (map snd curve) \<and>
       list_all (\<lambda>f. 0 \<le> f \<and> f \<le> 1) (map snd curve)) \<and>
    (\<forall>ms. length ms = length rvs \<longrightarrow>
       (\<exists>s'. with_measurements s ms = Inr s' \<and> sweep_ratios s' = sweep_ratios s \<and> work_curve s' = work_curve s))"
proof -
  have wf: "\<forall>r\<in>set rs. wf_range r" using assms(1) by (simp add: list_all_iff)
  from sweep_Inr [OF wf assms(2)] obtain n scores layer suffix ratios where
    l: "list_all2 (\<lambda>rv ratio. py_float rv = Inr (Finite ratio)) rvs ratios" and
    val: "\<forall>ratio\<in>set ratios. valid_policy_input n rs scores layer ratio suffix" and desc: "sorted_wrt (>) ratios" and
    s: "s = \<lparr>sweep_points = map (\<lambda>ratio. \<lparr>sp_result = selection_result n rs scores layer ratio suffix, sp_measurement = None\<rparr>) ratios\<rparr>"
    by metis
  let ?r = "\<lambda>ratio. selection_result n rs scores layer ratio suffix"
  have len: "length ratios = length rvs" using l by (simp add: list_all2_lengthD)
  have ratios: "sweep_ratios s = ratios" by (simp add: s sweep_ratios_def sp_ratio_def selection_result_def Let_def o_def)
  have nested: "sorted_wrt (\<lambda>a b. rows (sr_recompute_ranges (?r b)) \<subseteq> rows (sr_recompute_ranges (?r a))) ratios"
    by (rule sorted_wrt_mono_rel [OF _ desc]) (use val selection_result_mono in \<open>simp add: less_imp_le\<close>)
  let ?curve = "map (\<lambda>ratio. (ratio, recomputed_share (?r ratio))) ratios"
  have prompt: "sr_prompt_tokens (?r ratio) = n" "sr_recompute_ratio (?r ratio) = ratio" for ratio
    by (simp_all add: sr_prompt_tokens_def selection_result_def Let_def)
  have "work_curve s = rmap (\<lambda>ratio. Inr (ratio, recomputed_share (?r ratio))) ratios"
    unfolding work_curve_def s SelectionSweep.select_convs rmap_map using val
    by (intro rmap_cong) (simp add: sp_ratio_def sp_recompute_fraction_def prompt recompute_fraction_eq [OF _ refl])
  then have curve: "work_curve s = Inr ?curve" by (simp add: rmap_Inr list_all2_conv_all_nth)
  have inside: "rows (sr_recompute_ranges (?r ratio)) \<subseteq> {0..<n} \<and> 0 \<le> n" if "ratio \<in> set ratios" for ratio
    using selection_result_rows(1) [of n rs scores layer ratio suffix] val that
    by (fastforce simp: separated_def range_set_def valid_policy_input_def)
  have "list_all (\<lambda>f. 0 \<le> f \<and> f \<le> 1) (map snd ?curve)"
    using inside recomputed_share_bounds prompt by (auto simp: list_all_iff)
  moreover have "sorted_wrt (\<lambda>a b. recomputed_share (?r b) \<le> recomputed_share (?r a)) ratios"
    by (rule sorted_wrt_mono_rel [OF _ nested]) (use inside recomputed_share_mono prompt in \<open>simp\<close>)
  then have "sorted_wrt (\<ge>) (map snd ?curve)" by (simp add: sorted_wrt_map)
  moreover have "SelectionSweep_init (sweep_points s) = Inr s"
  proof -
    obtain points where points: "SelectionSweep_init points = Inr s"
      using assms(2) by (auto simp: sweep_def result_simps split: if_splits)
    then have "s = \<lparr>sweep_points = points\<rparr>" unfolding SelectionSweep_init_Inr by blast
    then show ?thesis using points by simp
  qed
  then have "\<exists>s'. with_measurements s ms = Inr s' \<and> sweep_ratios s' = sweep_ratios s \<and> work_curve s' = work_curve s"
    if "length ms = length rvs" for ms
    using with_measurements_attach [of "sweep_points s" s ms] that len by (auto simp: s)
  ultimately show ?thesis using desc ratios len nested curve by (auto simp: s sorted_wrt_map o_def)
qed

lemma example_sweep:
  "\<exists>s. sweep (PInt 5) example_cached example_scores (PInt 0) [PInt 1, PFloat (Finite (1 / 2)), PInt 0] (PInt 1) = Inr s"
proof -
  let ?p = "\<lambda>ratio. \<lparr>sp_result = selection_result 5 example_cached [1, 4, 2, 4, 3] 0 ratio 1, sp_measurement = None\<rparr>"
  have sel: "select (PInt 5) example_cached example_scores (PInt 0) v (PInt 1) = Inr (selection_result 5 example_cached [1, 4, 2, 4, 3] 0 ratio 1)"
    if "py_float v = Inr (Finite ratio)" "0 \<le> ratio" "ratio \<le> 1" for v ratio
    using select_Inr [OF example_policy_input(3) [OF that(2,3)], of "PInt 5" example_scores "PInt 0" v "PInt 1"]
      example_policy_input(1,2) [OF that(2,3)] that(1) by blast
  have "py_float (PInt 1) = Inr (Finite 1)" "py_float (PInt 0) = Inr (Finite 0)" "py_float (PFloat (Finite (1 / 2))) = Inr (Finite (1 / 2))"
    using round_double_int [of 1] round_double_int [of 0] by (auto simp: py_float_def)
  note e = sel [OF this(1)] sel [OF this(2)] sel [OF this(3)]
  have "SelectionSweep_init [?p 1, ?p (1 / 2), ?p 0] = Inr \<lparr>sweep_points = [?p 1, ?p (1 / 2), ?p 0]\<rparr>"
    unfolding SelectionSweep_init_Inr
    by (simp add: sp_ratio_def sweep_context_def sr_prompt_tokens_def selection_result_def Let_def)
  then show ?thesis by (simp add: sweep_def e)
qed

theorem sweep_lowers_work_witness:
  "\<exists>s curve. sweep (PInt 5) example_cached example_scores (PInt 0) [PInt 1, PFloat (Finite (1 / 2)), PInt 0] (PInt 1) = Inr s \<and>
     work_curve s = Inr curve \<and> sorted_wrt (\<ge>) (map snd curve)"
proof -
  obtain s where s: "sweep (PInt 5) example_cached example_scores (PInt 0) [PInt 1, PFloat (Finite (1 / 2)), PInt 0] (PInt 1) = Inr s"
    using example_sweep by blast
  have "list_all wf_range example_cached" using example_policy_input(3) [of 0] by (simp add: list_all_iff)
  from sweep_lowers_work [OF this s] s show ?thesis by blast
qed

end
