(* ===== verification/SidecarCodec.thy ===== *)
theory SidecarCodec
  imports Fingerprint
begin

text \<open>
  The record encoding of \<^verbatim>\<open>storage/sidecar.py\<close>: input bounds, the token blob, the namespace key, the
  record checksum, the column values of a row, and the decoder that trusts none of them.  A column
  holds a \<open>dbval\<close>, one constructor per SQLite storage class; a row read back from the file may hold
  anything.  The lemmas show that decoding inverts encoding, that whatever decodes is a valid record,
  and that two valid records with equal checksums are equal or a SHA-256 collision.
\<close>

section \<open>Constants and errors\<close>

definition SIDECAR_NAMESPACE_FIELD_BYTES :: nat where
  "SIDECAR_NAMESPACE_FIELD_BYTES = 1024"

definition MAX_CACHE_KEY_BYTES :: nat where
  "MAX_CACHE_KEY_BYTES = 2048"

definition MAX_TOKENS_PER_RECORD :: int where
  "MAX_TOKENS_PER_RECORD = 131072"

definition MAX_TOKEN_POSITION :: int where
  "MAX_TOKEN_POSITION = 131072"

definition TOKEN_BLOB_MAGIC :: "byte list" where
  "TOKEN_BLOB_MAGIC = encode_utf8 ''CBT1''"

definition TOKEN_BLOB_HEADER_BYTES :: nat where
  "TOKEN_BLOB_HEADER_BYTES = length TOKEN_BLOB_MAGIC + 8"

definition NAMESPACE_KEY_DOMAIN :: "byte list" where
  "NAMESPACE_KEY_DOMAIN = encode_utf8 (''cacheblend-gpt-oss'' @ [CHR 0x00] @ ''sidecar-namespace'' @
     [CHR 0x00] @ ''v1'' @ [CHR 0x00])"

definition RECORD_CHECKSUM_DOMAIN :: "byte list" where
  "RECORD_CHECKSUM_DOMAIN = encode_utf8 (''cacheblend-gpt-oss'' @ [CHR 0x00] @ ''sidecar-record'' @
     [CHR 0x00] @ ''v1'' @ [CHR 0x00])"

datatype SidecarErrorCode =
    INVALID_MODE | INVALID_PATH | DATABASE_NOT_FOUND | OPEN_FAILED | CLOSED | WRITE_FORBIDDEN | INVALID_NAMESPACE
  | INVALID_FINGERPRINT | INVALID_RECORD | SCHEMA_MISMATCH | DATABASE_CORRUPT | RECORD_CORRUPT | CHECKSUM_COLLISION
  | COLLISION_BUCKET_LIMIT | SQLITE_OPERATION_FAILED

text \<open>\<^verbatim>\<open>SidecarError\<close> and its subclasses.\<close>

datatype SidecarError =
    SidecarConfigurationError SidecarErrorCode | SidecarModeError SidecarErrorCode | SidecarClosedError SidecarErrorCode
  | SidecarSchemaError SidecarErrorCode | SidecarCorruptionError SidecarErrorCode | SidecarOperationError SidecarErrorCode

abbreviation raise_corrupt :: "SidecarError + 'a" where
  "raise_corrupt \<equiv> Inl (SidecarCorruptionError RECORD_CORRUPT)"

section \<open>Input bounds\<close>

definition bounded_text :: "string \<Rightarrow> nat \<Rightarrow> SidecarError + string" where
  "bounded_text v maximum_bytes =
     (if v = [] \<or> has_NUL v then Inl (SidecarConfigurationError INVALID_RECORD)
      else if length (encode_utf8 v) > maximum_bytes then Inl (SidecarConfigurationError INVALID_RECORD)
      else Inr v)"

definition validate_sidecar_namespace :: "CacheNamespace \<Rightarrow> SidecarError + unit" where
  "validate_sidecar_namespace n =
     (if \<not> (1 \<le> schema_version n \<and> schema_version n \<le> 2147483647) then Inl (SidecarConfigurationError INVALID_NAMESPACE)
      else rbind (rmap (\<lambda>(name, v).
          if name \<noteq> ''schema_version''
          then (case bounded_text v SIDECAR_NAMESPACE_FIELD_BYTES of
                  Inl _ \<Rightarrow> Inl (SidecarConfigurationError INVALID_NAMESPACE) | Inr _ \<Rightarrow> Inr ())
          else Inr ()) (canonical_fields n)) (\<lambda>_. Inr ()))"

definition validate_sidecar_fingerprint :: "SegmentFingerprint \<Rightarrow> SidecarError + unit" where
  "validate_sidecar_fingerprint f =
     (if length (digest f) \<noteq> 32 then Inl (SidecarConfigurationError INVALID_FINGERPRINT) else Inr ())"

definition validate_sidecar_record :: "CacheRecord \<Rightarrow> SidecarError + unit" where
  "validate_sidecar_record r =
     rbind (validate_sidecar_namespace (rec_namespace r)) (\<lambda>_.
     rbind (validate_sidecar_fingerprint (rec_fingerprint r)) (\<lambda>_.
     rbind (bounded_text (cache_key r) MAX_CACHE_KEY_BYTES) (\<lambda>_.
       case normalize_token_ids (map PInt (rec_token_ids r)) of
         Inl _ \<Rightarrow> Inl (SidecarConfigurationError INVALID_RECORD)
       | Inr ts \<Rightarrow>
           if \<not> (1 \<le> int (length ts) \<and> int (length ts) \<le> MAX_TOKENS_PER_RECORD)
           then Inl (SidecarConfigurationError INVALID_RECORD)
           else if tr_start (source_range r) < 0 \<or> tr_end (source_range r) > MAX_TOKEN_POSITION \<or>
               range_len (source_range r) \<noteq> int (length ts)
           then Inl (SidecarConfigurationError INVALID_RECORD)
           else Inr ())))"

section \<open>Encoding\<close>

text \<open>\<^verbatim>\<open>struct.pack(">I", n)\<close> for \<open>0 \<le> n < 2 ^ 32\<close>, and one field of a digest.\<close>

definition u32be :: "int \<Rightarrow> byte list" where
  "u32be n = map (\<lambda>k. word_of_int (n div 2 ^ (8 * k))) [3, 2, 1, 0]"

definition update_field :: "string \<Rightarrow> byte list \<Rightarrow> byte list" where
  "update_field name v =
     u32be (int (length (encode_utf8 name))) @ encode_utf8 name @ u64be (int (length v)) @ v"

definition update_fields :: "(string \<times> byte list) list \<Rightarrow> byte list" where
  "update_fields fs = concat (map (\<lambda>(name, v). update_field name v) fs)"

definition namespace_fields :: "CacheNamespace \<Rightarrow> (string \<times> byte list) list" where
  "namespace_fields n = map (\<lambda>(name, v). (name, encode_utf8 v)) (canonical_fields n)"

definition namespace_key_preimage :: "CacheNamespace \<Rightarrow> byte list" where
  "namespace_key_preimage n = NAMESPACE_KEY_DOMAIN @ update_fields (namespace_fields n)"

definition namespace_key :: "CacheNamespace \<Rightarrow> byte list" where
  "namespace_key n = sha256 (namespace_key_preimage n)"

definition encode_token_ids :: "int list \<Rightarrow> byte list" where
  "encode_token_ids ts = TOKEN_BLOB_MAGIC @ u64be (int (length ts)) @ concat (map u64be ts)"

text \<open>\<^verbatim>\<open>struct.unpack(">Q", \<dots>)\<close> of eight bytes, and \<^verbatim>\<open>struct.iter_unpack\<close> of a multiple of eight.\<close>

fun iter_unpack :: "byte list \<Rightarrow> int list" where
  "iter_unpack [] = []"
| "iter_unpack (b # bs) = bytes_value (take 8 (b # bs)) # iter_unpack (drop 8 (b # bs))"

definition decode_token_ids :: "byte list \<Rightarrow> int \<Rightarrow> SidecarError + int list" where
  "decode_token_ids v expected_count =
     (if length v < TOKEN_BLOB_HEADER_BYTES \<or> take (length TOKEN_BLOB_MAGIC) v \<noteq> TOKEN_BLOB_MAGIC then raise_corrupt
      else
        let encoded_count = bytes_value (drop (length TOKEN_BLOB_MAGIC) (take TOKEN_BLOB_HEADER_BYTES v)) in
        if encoded_count \<noteq> expected_count \<or> \<not> (1 \<le> encoded_count \<and> encoded_count \<le> MAX_TOKENS_PER_RECORD) then raise_corrupt
        else if int (length v) \<noteq> int TOKEN_BLOB_HEADER_BYTES + encoded_count * 8 then raise_corrupt
        else Inr (iter_unpack (drop TOKEN_BLOB_HEADER_BYTES v)))"

definition checksum_fields :: "CacheNamespace \<Rightarrow> byte list \<Rightarrow> string \<Rightarrow> int \<Rightarrow> int \<Rightarrow> byte list \<Rightarrow> (string \<times> byte list) list" where
  "checksum_fields n fingerprint key source_start source_end token_blob =
     namespace_fields n @
     [(''fingerprint'', fingerprint), (''cache_key'', encode_utf8 key), (''source_start'', u64be source_start),
      (''source_end'', u64be source_end), (''token_ids'', token_blob)]"

definition record_checksum :: "CacheNamespace \<Rightarrow> byte list \<Rightarrow> string \<Rightarrow> int \<Rightarrow> int \<Rightarrow> byte list \<Rightarrow> byte list" where
  "record_checksum n fingerprint key source_start source_end token_blob =
     sha256 (RECORD_CHECKSUM_DOMAIN @ update_fields (checksum_fields n fingerprint key source_start source_end token_blob))"

record EncodedRecord =
  er_record :: CacheRecord
  er_namespace_key :: "byte list"
  er_token_blob :: "byte list"
  er_checksum :: "byte list"

definition encoded_record :: "CacheRecord \<Rightarrow> EncodedRecord" where
  "encoded_record r =
     (let token_blob = encode_token_ids (rec_token_ids r) in
      \<lparr>er_record = r, er_namespace_key = namespace_key (rec_namespace r), er_token_blob = token_blob,
       er_checksum = record_checksum (rec_namespace r) (digest (rec_fingerprint r)) (cache_key r)
         (tr_start (source_range r)) (tr_end (source_range r)) token_blob\<rparr>)"

definition from_record :: "CacheRecord \<Rightarrow> SidecarError + EncodedRecord" where
  "from_record r = rbind (validate_sidecar_record r) (\<lambda>_. Inr (encoded_record r))"

section \<open>Rows\<close>

datatype dbval = DbNull | DbInt int | DbReal rat | DbText string | DbBlob "byte list"

text \<open>The columns of \<^verbatim>\<open>sidecar_records\<close> in the order of the statement, without the row identifier.\<close>

record SidecarRow =
  row_namespace_key :: dbval
  row_schema_version :: dbval
  row_model_id :: dbval
  row_model_revision :: dbval
  row_tokenizer_id :: dbval
  row_tokenizer_revision :: dbval
  row_model_config_digest :: dbval
  row_kv_cache_config_digest :: dbval
  row_adapter_revision :: dbval
  row_vllm_version :: dbval
  row_lmcache_version :: dbval
  row_torch_version :: dbval
  row_cuda_runtime :: dbval
  row_fingerprint :: dbval
  row_cache_key :: dbval
  row_source_start :: dbval
  row_source_end :: dbval
  row_token_count :: dbval
  row_token_ids :: dbval
  row_checksum :: dbval

definition database_values :: "EncodedRecord \<Rightarrow> SidecarRow" where
  "database_values e =
     (let r = er_record e; n = rec_namespace r in
      \<lparr>row_namespace_key = DbBlob (er_namespace_key e), row_schema_version = DbInt (schema_version n),
       row_model_id = DbText (model_id n), row_model_revision = DbText (model_revision n),
       row_tokenizer_id = DbText (tokenizer_id n), row_tokenizer_revision = DbText (tokenizer_revision n),
       row_model_config_digest = DbText (model_config_digest n),
       row_kv_cache_config_digest = DbText (kv_cache_config_digest n),
       row_adapter_revision = DbText (adapter_revision n), row_vllm_version = DbText (vllm_version n),
       row_lmcache_version = DbText (lmcache_version n), row_torch_version = DbText (torch_version n),
       row_cuda_runtime = DbText (cuda_runtime n), row_fingerprint = DbBlob (digest (rec_fingerprint r)),
       row_cache_key = DbText (cache_key r), row_source_start = DbInt (tr_start (source_range r)),
       row_source_end = DbInt (tr_end (source_range r)), row_token_count = DbInt (int (length (rec_token_ids r))),
       row_token_ids = DbBlob (er_token_blob e), row_checksum = DbBlob (er_checksum e)\<rparr>)"

fun db_int :: "dbval \<Rightarrow> SidecarError + int" where
  "db_int (DbInt i) = Inr i"
| "db_int _ = raise_corrupt"

fun db_text :: "dbval \<Rightarrow> SidecarError + string" where
  "db_text (DbText s) = Inr s"
| "db_text _ = raise_corrupt"

fun db_blob :: "dbval \<Rightarrow> SidecarError + byte list" where
  "db_blob (DbBlob b) = Inr b"
| "db_blob _ = raise_corrupt"

text \<open>
  Building the namespace of a row: a column of the wrong class, an exception of the dataclass and a
  violated bound all end as a corrupt record.
\<close>

definition namespace_from_row :: "SidecarRow \<Rightarrow> SidecarError + CacheNamespace" where
  "namespace_from_row row =
     rbind (db_int (row_schema_version row)) (\<lambda>version.
     rbind (rmap db_text [row_model_id row, row_model_revision row, row_tokenizer_id row, row_tokenizer_revision row,
         row_model_config_digest row, row_kv_cache_config_digest row, row_adapter_revision row, row_vllm_version row,
         row_lmcache_version row, row_torch_version row, row_cuda_runtime row]) (\<lambda>ts.
       case CacheNamespace_init \<lparr>schema_version = version, model_id = ts ! 0, model_revision = ts ! 1, tokenizer_id = ts ! 2,
           tokenizer_revision = ts ! 3, model_config_digest = ts ! 4, kv_cache_config_digest = ts ! 5,
           adapter_revision = ts ! 6, vllm_version = ts ! 7, lmcache_version = ts ! 8, torch_version = ts ! 9,
           cuda_runtime = ts ! 10\<rparr> of
         Inl _ \<Rightarrow> raise_corrupt
       | Inr n \<Rightarrow> (case validate_sidecar_namespace n of Inl _ \<Rightarrow> raise_corrupt | Inr _ \<Rightarrow> Inr n)))"

text \<open>The end of the decoder: construct the record again and validate it.\<close>

definition rebuild_record ::
    "CacheNamespace \<Rightarrow> byte list \<Rightarrow> int list \<Rightarrow> int \<Rightarrow> int \<Rightarrow> string \<Rightarrow> SidecarError + CacheRecord" where
  "rebuild_record n fingerprint ts source_start source_end key =
     (case rbind (SegmentFingerprint_init fingerprint) (\<lambda>f.
           rbind (TokenRange_init (PInt source_start) (PInt source_end)) (\<lambda>range.
             CacheRecord_init n f (map PInt ts) range key)) of
        Inl _ \<Rightarrow> raise_corrupt
      | Inr r \<Rightarrow> (case validate_sidecar_record r of Inl _ \<Rightarrow> raise_corrupt | Inr _ \<Rightarrow> Inr r))"

definition record_from_row :: "SidecarRow \<Rightarrow> CacheNamespace \<Rightarrow> SegmentFingerprint \<Rightarrow> SidecarError + CacheRecord" where
  "record_from_row row expected_namespace expected_fingerprint =
     rbind (namespace_from_row row) (\<lambda>n.
     rbind (db_blob (row_namespace_key row)) (\<lambda>key_blob.
       if key_blob \<noteq> namespace_key n \<or> n \<noteq> expected_namespace then raise_corrupt
       else rbind (db_blob (row_fingerprint row)) (\<lambda>fingerprint.
         if fingerprint \<noteq> digest expected_fingerprint then raise_corrupt
         else rbind (db_int (row_token_count row)) (\<lambda>token_count.
           rbind (db_blob (row_token_ids row)) (\<lambda>token_blob.
           rbind (decode_token_ids token_blob token_count) (\<lambda>ts.
           rbind (db_int (row_source_start row)) (\<lambda>source_start.
           rbind (db_int (row_source_end row)) (\<lambda>source_end.
           rbind (db_text (row_cache_key row)) (\<lambda>key.
             if source_start < 0 \<or> source_end > MAX_TOKEN_POSITION \<or> source_end - source_start \<noteq> token_count then raise_corrupt
             else
               case bounded_text key MAX_CACHE_KEY_BYTES of
                 Inl _ \<Rightarrow> raise_corrupt
               | Inr _ \<Rightarrow>
                   rbind (db_blob (row_checksum row)) (\<lambda>checksum.
                     if checksum \<noteq> record_checksum n fingerprint key source_start source_end token_blob then raise_corrupt
                     else rebuild_record n fingerprint ts source_start source_end key))))))))))"

section \<open>What the bounds mean\<close>

lemma bounded_text_Inr: "bounded_text v m = Inr w \<longleftrightarrow> w = v \<and> v \<noteq> [] \<and> \<not> has_NUL v \<and> length v \<le> m"
  by (auto simp: bounded_text_def)

definition bounded_namespace :: "CacheNamespace \<Rightarrow> bool" where
  "bounded_namespace n \<longleftrightarrow> 1 \<le> schema_version n \<and> schema_version n \<le> 2147483647 \<and>
     (\<forall>(name, v)\<in>set (tl (canonical_fields n)). v \<noteq> [] \<and> \<not> has_NUL v \<and> length v \<le> SIDECAR_NAMESPACE_FIELD_BYTES)"

lemma validate_sidecar_namespace_Inr: "validate_sidecar_namespace n = Inr u \<longleftrightarrow> bounded_namespace n"
proof -
  have "(case bounded_text v SIDECAR_NAMESPACE_FIELD_BYTES of
          Inl _ \<Rightarrow> Inl (SidecarConfigurationError INVALID_NAMESPACE) | Inr _ \<Rightarrow> Inr ()) = Inr u \<longleftrightarrow>
      v \<noteq> [] \<and> \<not> has_NUL v \<and> length v \<le> SIDECAR_NAMESPACE_FIELD_BYTES" for v u
    by (auto simp: bounded_text_def)
  then show ?thesis unfolding validate_sidecar_namespace_def bounded_namespace_def
    by (auto simp: result_simps canonical_fields_def rmap_unit_Inr)
qed

definition valid_sidecar_record :: "CacheRecord \<Rightarrow> bool" where
  "valid_sidecar_record r \<longleftrightarrow> bounded_namespace (rec_namespace r) \<and> wf_fingerprint (rec_fingerprint r) \<and>
     cache_key r \<noteq> [] \<and> \<not> has_NUL (cache_key r) \<and> length (cache_key r) \<le> MAX_CACHE_KEY_BYTES \<and>
     wf_tokens (rec_token_ids r) \<and> 1 \<le> int (length (rec_token_ids r)) \<and> int (length (rec_token_ids r)) \<le> MAX_TOKENS_PER_RECORD \<and>
     0 \<le> tr_start (source_range r) \<and> tr_end (source_range r) \<le> MAX_TOKEN_POSITION \<and>
     range_len (source_range r) = int (length (rec_token_ids r))"

lemma validate_sidecar_record_Inr: "validate_sidecar_record r = Inr u \<longleftrightarrow> valid_sidecar_record r"
proof (cases "wf_tokens (rec_token_ids r)")
  case True
  then have "normalize_token_ids (map PInt (rec_token_ids r)) = Inr (rec_token_ids r)" by simp
  then show ?thesis using True
    by (simp add: validate_sidecar_record_def valid_sidecar_record_def result_simps validate_sidecar_namespace_Inr
        validate_sidecar_fingerprint_def wf_fingerprint_def bounded_text_Inr not_less conj_assoc)
next
  case False
  have "map PInt xs = map PInt ys \<longleftrightarrow> xs = ys" for xs ys by (rule inj_map_eq_map) (simp add: inj_def)
  then have "\<nexists>ts. normalize_token_ids (map PInt (rec_token_ids r)) = Inr ts" using False by (simp add: normalize_token_ids_Inr)
  then obtain e where "normalize_token_ids (map PInt (rec_token_ids r)) = Inl e" by (metis sum.exhaust)
  then show ?thesis using False by (simp add: validate_sidecar_record_def valid_sidecar_record_def result_simps)
qed

lemma from_record_Inr: "from_record r = Inr e \<longleftrightarrow> valid_sidecar_record r \<and> e = encoded_record r"
  by (auto simp: from_record_def result_simps validate_sidecar_record_Inr)

lemma bounded_namespace_wf: "bounded_namespace n \<Longrightarrow> wf_namespace n"
  by (auto simp: bounded_namespace_def wf_namespace_def)

section \<open>The token blob\<close>

lemma byte_shift: "(p * 256 + uint (b :: byte)) div 256 = p" "word_of_int (p * 256 + uint b) = b"
proof -
  have b: "0 \<le> uint b" "uint b < 256" using uint_lt2p [of b] by simp_all
  then show "(p * 256 + uint b) div 256 = p" by simp
  have "uint (word_of_int (p * 256 + uint b) :: byte) = (p * 256 + uint b) mod 2 ^ 8"
    by (simp only: uint_word_of_int) simp
  also have "\<dots> = uint b" using b by simp
  finally have "uint (word_of_int (p * 256 + uint b) :: byte) = uint b" .
  then show "word_of_int (p * 256 + uint b) = b" by (rule word_uint_eqI)
qed

lemma u64be_bytes_value:
  assumes "length bs = 8"
  shows "u64be (bytes_value bs) = bs" "0 \<le> bytes_value bs" "bytes_value bs \<le> MAX_TOKEN_ID"
proof -
  obtain a b c d e f g h where bs: "bs = [a, b, c, d, e, f, g, h]"
    using assms by (auto simp: numeral_eq_Suc length_Suc_conv)
  define q where "q = rec_nat 0 (\<lambda>k p. p * 256 + uint (bs ! k))"
  have st: "q (Suc k) = q k * 256 + uint (bs ! k)" for k by (simp add: q_def)
  have q0: "q 0 = 0" by (simp add: q_def)
  have v: "bytes_value bs = q 8" by (simp add: q_def bs numeral_eq_Suc)
  have dv: "q (Suc k) div 256 = q k" "word_of_int (q (Suc k)) = bs ! k" for k unfolding st by (rule byte_shift)+
  have sh: "q 8 div 2 ^ (8 * j) = q (8 - j)" if "j \<le> 8" for j
    using that
  proof (induction j)
    case (Suc j)
    have "q 8 div 2 ^ (8 * Suc j) = q 8 div 2 ^ (8 * j) div 256" by (simp add: zdiv_zmult2_eq [symmetric] power_add mult.commute)
    also have "8 - j = Suc (8 - Suc j)" using Suc.prems by simp
    then have "q 8 div 2 ^ (8 * j) div 256 = q (Suc (8 - Suc j)) div 256" using Suc by simp
    finally show ?case by (simp only: dv)
  qed simp
  have each: "word_of_int (q 8 div 2 ^ (8 * j)) = bs ! (7 - j)" if "j \<le> 7" for j
  proof -
    have "8 - j = Suc (7 - j)" using that by simp
    then show ?thesis using sh [of j] dv(2) [of "7 - j"] that by simp
  qed
  show "u64be (bytes_value bs) = bs" unfolding v u64be_def 
    by (simp only: list.map each [of 7] each [of 6] each [of 5] each [of 4] each [of 3] each [of 2] each [of 1] each [of 0]) (simp add: bs)
  have bnd: "0 \<le> q k \<and> q k < 256 ^ k" for k
  proof (induction k)
    case (Suc k)
    moreover have "0 \<le> uint (bs ! k)" "uint (bs ! k) < 256" using uint_lt2p [of "bs ! k"] by simp_all
    ultimately show ?case unfolding st by simp
  qed (simp add: q0)
  from bnd [of 8] show "0 \<le> bytes_value bs" "bytes_value bs \<le> MAX_TOKEN_ID" unfolding v MAX_TOKEN_ID_def by simp_all
qed

lemma length_concat_u64be [simp]: "length (concat (map u64be ts)) = 8 * length ts"
  by (induction ts) auto

lemma iter_unpack_concat: "wf_tokens ts \<Longrightarrow> iter_unpack (concat (map u64be ts)) = ts"
proof (induction ts)
  case (Cons t ts)
  have "u64be t \<noteq> []" by (metis length_u64be list.size(3) zero_neq_numeral)
  then obtain b bs where u: "u64be t = b # bs" by (cases "u64be t") auto
  have "bytes_value (u64be t) = t" using Cons.prems by (intro bytes_value_u64be) (auto simp: wf_tokens_def MAX_TOKEN_ID_def)
  moreover have "length bs = 7" using length_u64be [of t] by (simp add: u)
  ultimately show ?case using Cons by (simp add: u wf_tokens_def del: bytes_value.simps)
qed simp

lemma concat_iter_unpack:
  "length v = 8 * k \<Longrightarrow> concat (map u64be (iter_unpack v)) = v \<and> wf_tokens (iter_unpack v) \<and> length (iter_unpack v) = k"
proof (induction k arbitrary: v)
  case (Suc k)
  then obtain b bs where v: "v = b # bs" by (cases v) auto
  have "concat (map u64be (iter_unpack (drop 8 v))) = drop 8 v \<and> wf_tokens (iter_unpack (drop 8 v)) \<and> length (iter_unpack (drop 8 v)) = k"
    using Suc by (intro Suc.IH) simp
  moreover have "u64be (bytes_value (take 8 v)) = take 8 v" "0 \<le> bytes_value (take 8 v)" "bytes_value (take 8 v) \<le> MAX_TOKEN_ID"
    using u64be_bytes_value [of "take 8 v"] Suc.prems by simp_all
  moreover have "iter_unpack v = bytes_value (take 8 v) # iter_unpack (drop 8 v)" unfolding v by (rule iter_unpack.simps(2))
  ultimately show ?case by (simp add: wf_tokens_def del: bytes_value.simps iter_unpack.simps)
qed (simp add: wf_tokens_def)

lemma magic_length [simp]: "length TOKEN_BLOB_MAGIC = 4" "TOKEN_BLOB_HEADER_BYTES = 12"
  by (simp_all add: TOKEN_BLOB_MAGIC_def TOKEN_BLOB_HEADER_BYTES_def)

lemma decode_token_ids_Inr:
  "decode_token_ids v c = Inr ts \<longleftrightarrow> v = encode_token_ids ts \<and> c = int (length ts) \<and> wf_tokens ts \<and>
     1 \<le> c \<and> c \<le> MAX_TOKENS_PER_RECORD" (is "?L \<longleftrightarrow> ?R")
proof
  assume L: ?L
  let ?c = "bytes_value (drop 4 (take 12 v))"
  have v: "12 \<le> length v" "take 4 v = TOKEN_BLOB_MAGIC" "?c = c" "1 \<le> c" "c \<le> MAX_TOKENS_PER_RECORD"
    "int (length v) = 12 + c * 8" "ts = iter_unpack (drop 12 v)"
    using L by (auto simp: decode_token_ids_def Let_def simp del: bytes_value.simps iter_unpack.simps split: if_splits)
  have "length (drop 12 v) = 8 * nat c" using v(4,6) by simp
  from concat_iter_unpack [OF this] have t: "concat (map u64be ts) = drop 12 v" "wf_tokens ts" "int (length ts) = c"
    using v(4,7) by simp_all
  have "u64be c = drop 4 (take 12 v)" using u64be_bytes_value(1) [of "drop 4 (take 12 v)"] v(1,3) by simp
  moreover have "v = take 4 v @ drop 4 (take 12 v) @ drop 12 v"
  proof -
    have "take 4 (take 12 v) = take 4 v" by simp
    then have "take 12 v = take 4 v @ drop 4 (take 12 v)" by (metis append_take_drop_id)
    then show ?thesis by (metis append.assoc append_take_drop_id)
  qed
  ultimately show ?R using v t by (simp add: encode_token_ids_def)
next
  assume R: ?R
  have "c < 2 ^ 64" using R by (simp add: MAX_TOKENS_PER_RECORD_def)
  then have "bytes_value (u64be c) = c" using R by (intro bytes_value_u64be) simp_all
  then show ?L using R iter_unpack_concat [of ts]
    by (simp add: decode_token_ids_def encode_token_ids_def Let_def del: bytes_value.simps)
qed

section \<open>Rows and records\<close>

lemma case_Inl_eq_Inr: "(case s of Inl _ \<Rightarrow> Inl e | Inr v \<Rightarrow> f v) = Inr r \<longleftrightarrow> (\<exists>v. s = Inr v \<and> f v = Inr r)"
  by (cases s) auto

lemma db_value_Inr:
  "db_int v = Inr i \<longleftrightarrow> v = DbInt i" "db_text v = Inr s \<longleftrightarrow> v = DbText s" "db_blob v = Inr b \<longleftrightarrow> v = DbBlob b"
  by (cases v; auto)+

definition namespace_columns :: "SidecarRow \<Rightarrow> CacheNamespace \<Rightarrow> bool" where
  "namespace_columns row n \<longleftrightarrow>
     row_schema_version row = DbInt (schema_version n) \<and> row_model_id row = DbText (model_id n) \<and>
     row_model_revision row = DbText (model_revision n) \<and> row_tokenizer_id row = DbText (tokenizer_id n) \<and>
     row_tokenizer_revision row = DbText (tokenizer_revision n) \<and> row_model_config_digest row = DbText (model_config_digest n) \<and>
     row_kv_cache_config_digest row = DbText (kv_cache_config_digest n) \<and> row_adapter_revision row = DbText (adapter_revision n) \<and>
     row_vllm_version row = DbText (vllm_version n) \<and> row_lmcache_version row = DbText (lmcache_version n) \<and>
     row_torch_version row = DbText (torch_version n) \<and> row_cuda_runtime row = DbText (cuda_runtime n)"

lemma namespace_from_row_Inr: "namespace_from_row row = Inr n \<longleftrightarrow> bounded_namespace n \<and> namespace_columns row n" (is "?L \<longleftrightarrow> ?R")
proof -
  have fin: "(case CacheNamespace_init m of Inl _ \<Rightarrow> raise_corrupt
      | Inr k \<Rightarrow> (case validate_sidecar_namespace k of Inl _ \<Rightarrow> raise_corrupt | Inr _ \<Rightarrow> Inr k)) = Inr n \<longleftrightarrow>
      n = m \<and> bounded_namespace m" for m
  proof (cases "bounded_namespace m")
    case True
    then have "CacheNamespace_init m = Inr m" "validate_sidecar_namespace m = Inr ()"
      using bounded_namespace_wf by (simp_all add: CacheNamespace_init_Inr validate_sidecar_namespace_Inr)
    then show ?thesis using True by auto
  next
    case False
    then show ?thesis
      by (auto simp: CacheNamespace_init_Inr validate_sidecar_namespace_Inr split: sum.splits)
  qed
  show ?thesis
  proof
    assume ?L
    then show ?R unfolding namespace_from_row_def by (auto simp: result_simps db_value_Inr fin namespace_columns_def)
  next
    assume R: ?R
    have eta: "\<lparr>schema_version = schema_version n, model_id = model_id n, model_revision = model_revision n,
        tokenizer_id = tokenizer_id n, tokenizer_revision = tokenizer_revision n, model_config_digest = model_config_digest n,
        kv_cache_config_digest = kv_cache_config_digest n, adapter_revision = adapter_revision n, vllm_version = vllm_version n,
        lmcache_version = lmcache_version n, torch_version = torch_version n, cuda_runtime = cuda_runtime n\<rparr> = n"
      by (cases n) simp
    from R have "bounded_namespace n" "namespace_columns row n" by blast+
    then show ?L unfolding namespace_from_row_def by (simp add: namespace_columns_def fin eta)
  qed
qed

lemma rebuild_record_Inr:
  "rebuild_record n f ts a b key = Inr r \<longleftrightarrow> valid_sidecar_record r \<and>
     r = \<lparr>rec_namespace = n, rec_fingerprint = \<lparr>digest = f\<rparr>, rec_token_ids = ts, source_range = \<lparr>tr_start = a, tr_end = b\<rparr>, cache_key = key\<rparr>"
  (is "_ \<longleftrightarrow> valid_sidecar_record r \<and> r = ?r")
proof (cases "valid_sidecar_record ?r")
  case True
  then have "rbind (SegmentFingerprint_init f) (\<lambda>f. rbind (TokenRange_init (PInt a) (PInt b)) (\<lambda>range.
             CacheRecord_init n f (map PInt ts) range key)) = Inr ?r"
    by (auto simp: valid_sidecar_record_def SegmentFingerprint_init_def wf_fingerprint_def TokenRange_init_def range_len_def
        CacheRecord_init_def)
  then show ?thesis using True validate_sidecar_record_Inr [of ?r] by (auto simp: rebuild_record_def)
next
  case False
  have inj: "map PInt xs = map PInt ys \<longleftrightarrow> xs = ys" for xs ys by (rule inj_map_eq_map) (simp add: inj_def)
  have "rbind (SegmentFingerprint_init f) (\<lambda>f. rbind (TokenRange_init (PInt a) (PInt b)) (\<lambda>range.
             CacheRecord_init n f (map PInt ts) range key)) = Inr x \<Longrightarrow> x = ?r" for x
    by (auto simp: result_simps SegmentFingerprint_init_def TokenRange_init_def CacheRecord_init_def normalize_token_ids_Inr inj
        split: if_splits)
  then show ?thesis using False validate_sidecar_record_Inr [of ?r]
    by (auto simp: rebuild_record_def split: sum.splits)
qed

lemma encoded_record_fields [simp]:
  "er_record (encoded_record r) = r" "er_namespace_key (encoded_record r) = namespace_key (rec_namespace r)"
  "er_token_blob (encoded_record r) = encode_token_ids (rec_token_ids r)"
  by (simp_all add: encoded_record_def Let_def)

text \<open>
  The decoder accepts exactly the rows the encoder produces: no other combination of column values, a
  changed checksum, blob, key or count included, is read as a record.
\<close>

lemma record_from_row_Inr:
  "record_from_row row n f = Inr r \<longleftrightarrow>
     valid_sidecar_record r \<and> row = database_values (encoded_record r) \<and> rec_namespace r = n \<and> rec_fingerprint r = f" (is "?L \<longleftrightarrow> ?R")
proof
  assume ?L
  then obtain ts a b key where
    h: "bounded_namespace n" "namespace_columns row n" "row_namespace_key row = DbBlob (namespace_key n)"
    "row_fingerprint row = DbBlob (digest f)" "row_token_count row = DbInt (int (length ts))"
    "row_token_ids row = DbBlob (encode_token_ids ts)" "row_source_start row = DbInt a" "row_source_end row = DbInt b"
    "row_cache_key row = DbText key" "row_checksum row = DbBlob (record_checksum n (digest f) key a b (encode_token_ids ts))"
    "rebuild_record n (digest f) ts a b key = Inr r"
    unfolding record_from_row_def
    by (auto simp: result_simps db_value_Inr namespace_from_row_Inr decode_token_ids_Inr case_Inl_eq_Inr)
  have dig: "\<lparr>digest = digest f\<rparr> = f" by (cases f) simp
  have r: "valid_sidecar_record r" "r = \<lparr>rec_namespace = n, rec_fingerprint = f, rec_token_ids = ts,
      source_range = \<lparr>tr_start = a, tr_end = b\<rparr>, cache_key = key\<rparr>"
    using h(11) unfolding rebuild_record_Inr dig by blast+
  then show ?R using h
    by (cases row) (simp add: database_values_def Let_def namespace_columns_def encoded_record_def)
next
  assume ?R
  then have v: "valid_sidecar_record r" and row: "row = database_values (encoded_record r)" and
    nf: "n = rec_namespace r" "f = rec_fingerprint r" by simp_all
  have f: "rebuild_record n (digest f) (rec_token_ids r) (tr_start (source_range r)) (tr_end (source_range r)) (cache_key r) = Inr r"
    unfolding rebuild_record_Inr nf using v by simp
  have n: "namespace_from_row row = Inr n"
    unfolding namespace_from_row_Inr row nf using v
    by (auto simp: valid_sidecar_record_def namespace_columns_def database_values_def Let_def)
  have d: "decode_token_ids (encode_token_ids (rec_token_ids r)) (int (length (rec_token_ids r))) = Inr (rec_token_ids r)"
    unfolding decode_token_ids_Inr using v by (simp add: valid_sidecar_record_def)
  have b: "bounded_text (cache_key r) MAX_CACHE_KEY_BYTES = Inr (cache_key r)"
    using v by (simp add: bounded_text_Inr valid_sidecar_record_def)
  have range: "0 \<le> tr_start (source_range r)" "tr_end (source_range r) \<le> MAX_TOKEN_POSITION"
    "tr_end (source_range r) - tr_start (source_range r) = int (length (rec_token_ids r))"
    using v by (simp_all add: valid_sidecar_record_def range_len_def)
  show ?L unfolding record_from_row_def n using f d b range nf
    by (simp add: row database_values_def Let_def encoded_record_def)
qed

section \<open>Digest preimages\<close>

lemma update_fields_inj:
  assumes "update_fields fs @ x = update_fields gs @ y" "map fst fs = map fst gs"
    "\<forall>(k, v)\<in>set fs. length v < 2 ^ 64" "\<forall>(k, v)\<in>set gs. length v < 2 ^ 64"
  shows "fs = gs \<and> x = y"
  using assms
proof (induction fs gs rule: list_induct2')
  case (4 f fs g gs)
  then obtain k v w where e: "f = (k, v)" "g = (k, w)" by (metis fst_conv list.inject list.simps(9) prod.collapse)
  have "length_prefix v @ update_fields fs @ x = length_prefix w @ update_fields gs @ y"
    using 4(2) unfolding e by (simp add: update_fields_def update_field_def length_prefix_def)
  moreover have "length v < 2 ^ 64" "length w < 2 ^ 64" using 4(4,5) unfolding e by auto
  ultimately have "v = w" and r: "update_fields fs @ x = update_fields gs @ y" using length_prefix_append_inj by blast+
  moreover have "fs = gs \<and> x = y" using 4(3-5) r by (intro "4.IH") auto
  ultimately show ?case using e by simp
qed (auto simp: update_fields_def)

lemma bounded_field_length:
  assumes "bounded_namespace n" "(k, v) \<in> set (canonical_fields n)"
  shows "length v < 2 ^ 64"
proof -
  have "length (nat_decimal m) \<le> Suc m" for m
  proof (induction m rule: nat_decimal.induct)
    case (1 m)
    then show ?case by (cases "m < 10") (auto simp: nat_decimal.simps [of m])
  qed
  then have "length (py_str_int (schema_version n)) \<le> Suc (nat (schema_version n))" using assms(1) by (simp add: py_str_int_def bounded_namespace_def)
  moreover have "nat (schema_version n) \<le> 2147483647" using assms(1) unfolding bounded_namespace_def by linarith
  ultimately have "length (py_str_int (schema_version n)) < 2 ^ 64" by simp
  then show ?thesis using assms by (auto simp: bounded_namespace_def canonical_fields_def SIDECAR_NAMESPACE_FIELD_BYTES_def)
qed

lemma namespace_fields_inj:
  assumes "namespace_fields m = namespace_fields n" "bounded_namespace m" "bounded_namespace n"
  shows "m = n"
proof -
  have "inj (\<lambda>(name :: string, v). (name, encode_utf8 v))" by (auto simp: inj_def)
  then have "canonical_fields m = canonical_fields n" using assms(1) unfolding namespace_fields_def by (simp add: inj_map_eq_map)
  then show ?thesis using canonical_fields_inj assms(2,3) bounded_namespace_wf by blast
qed

lemma namespace_fields_bounded:
  assumes "bounded_namespace n"
  shows "\<forall>(k, v)\<in>set (namespace_fields n). length v < 2 ^ 64"
  using bounded_field_length [OF assms] by (auto simp: namespace_fields_def)

lemma namespace_field_names: "map fst (namespace_fields m) = map fst (namespace_fields n)"
  by (simp add: namespace_fields_def canonical_fields_def)

text \<open>Equal namespace keys of bounded namespaces: the same namespace, or a collision.\<close>

lemma namespace_key_inj:
  assumes "bounded_namespace m" "bounded_namespace n" "namespace_key_preimage m = namespace_key_preimage n"
  shows "m = n"
  using assms update_fields_inj [of "namespace_fields m" "[]" "namespace_fields n" "[]"] namespace_fields_bounded
    namespace_field_names [of m n] namespace_fields_inj
  by (simp add: namespace_key_preimage_def)

definition record_fields :: "CacheRecord \<Rightarrow> (string \<times> byte list) list" where
  "record_fields r = checksum_fields (rec_namespace r) (digest (rec_fingerprint r)) (cache_key r)
     (tr_start (source_range r)) (tr_end (source_range r)) (encode_token_ids (rec_token_ids r))"

definition record_preimage :: "CacheRecord \<Rightarrow> byte list" where
  "record_preimage r = RECORD_CHECKSUM_DOMAIN @ update_fields (record_fields r)"

lemma er_checksum_sha: "er_checksum (encoded_record r) = sha256 (record_preimage r)"
  by (simp add: encoded_record_def Let_def record_checksum_def record_preimage_def record_fields_def)

lemma encode_token_ids_inj:
  assumes "encode_token_ids ts = encode_token_ids us" "wf_tokens ts" "wf_tokens us" "length ts = length us"
  shows "ts = us"
  using assms token_concat_inj [of ts us] by (simp add: encode_token_ids_def)

lemma record_preimage_inj:
  assumes "valid_sidecar_record r" "valid_sidecar_record s" "record_preimage r = record_preimage s"
  shows "r = s"
proof -
  have len: "\<forall>(k, v)\<in>set (record_fields x). length v < 2 ^ 64" if "valid_sidecar_record x" for x
  proof -
    have "length (rec_token_ids x) \<le> 131072" "length (cache_key x) \<le> 2048" "length (digest (rec_fingerprint x)) = 32"
      using that by (simp_all add: valid_sidecar_record_def MAX_TOKENS_PER_RECORD_def MAX_CACHE_KEY_BYTES_def wf_fingerprint_def)
    then show ?thesis using namespace_fields_bounded [of "rec_namespace x"] that
      by (auto simp: record_fields_def checksum_fields_def encode_token_ids_def valid_sidecar_record_def)
  qed
  have "map fst (record_fields r) = map fst (record_fields s)"
    using namespace_field_names [of "rec_namespace r" "rec_namespace s"] by (simp add: record_fields_def checksum_fields_def)
  then have "record_fields r = record_fields s"
    using update_fields_inj [of "record_fields r" "[]" "record_fields s" "[]"] len assms by (simp add: record_preimage_def)
  moreover have "length (namespace_fields (rec_namespace r)) = length (namespace_fields (rec_namespace s))"
    by (simp add: namespace_fields_def canonical_fields_def)
  ultimately have f: "namespace_fields (rec_namespace r) = namespace_fields (rec_namespace s)"
    "digest (rec_fingerprint r) = digest (rec_fingerprint s)" "cache_key r = cache_key s"
    "u64be (tr_start (source_range r)) = u64be (tr_start (source_range s))"
    "u64be (tr_end (source_range r)) = u64be (tr_end (source_range s))"
    "encode_token_ids (rec_token_ids r) = encode_token_ids (rec_token_ids s)"
    by (simp_all add: record_fields_def checksum_fields_def append_eq_append_conv)
  have bnd: "0 \<le> tr_start (source_range x) \<and> tr_start (source_range x) < 2 ^ 64 \<and> 0 \<le> tr_end (source_range x) \<and> tr_end (source_range x) < 2 ^ 64"
    if "valid_sidecar_record x" for x
    using that by (auto simp: valid_sidecar_record_def MAX_TOKEN_POSITION_def range_len_def)
  have pos: "tr_start (source_range r) = tr_start (source_range s)" "tr_end (source_range r) = tr_end (source_range s)"
    using u64be_inj [OF f(4)] u64be_inj [OF f(5)] bnd assms by blast+
  then have "length (rec_token_ids r) = length (rec_token_ids s)"
    using assms by (simp add: valid_sidecar_record_def range_len_def)
  then have "rec_token_ids r = rec_token_ids s" using encode_token_ids_inj [OF f(6)] assms by (simp add: valid_sidecar_record_def)
  moreover have "rec_namespace r = rec_namespace s" using namespace_fields_inj [OF f(1)] assms by (simp add: valid_sidecar_record_def)
  ultimately show ?thesis using f(2,3) pos
    by (cases r; cases s; cases "rec_fingerprint r"; cases "rec_fingerprint s"; cases "source_range r"; cases "source_range s") simp
qed

end
