(* ===== verification/Sidecar.thy ===== *)
theory Sidecar
  imports SidecarCodec
begin

text \<open>
  \<^verbatim>\<open>storage/sidecar.py\<close>, the persistent record index: transactions, batch insertion, bucket lookup and
  close over a SQLite table.  A table is a list of identified rows whose content may be anything; the
  statements the program runs are functions on a connection with a committed table and, inside a
  transaction, a pending one.  Every statement may fail: \<open>faults\<close> says which of the statements
  executed on a connection fails, with what message, and whether the engine rolled back by itself.
  The contract of a record store is the locale \<open>record_store\<close>, interpreted on this index for every
  fault schedule.
\<close>

section \<open>The database\<close>

datatype SidecarMode = SCHEDULER_READ_ONLY | WORKER_READ_WRITE

definition MAX_COLLISION_BUCKET_RECORDS :: nat where
  "MAX_COLLISION_BUCKET_RECORDS = 1024"

definition MAX_RECORDS_PER_TRANSACTION :: nat where
  "MAX_RECORDS_PER_TRANSACTION = 1024"

definition MAX_TOKENS_PER_TRANSACTION :: int where
  "MAX_TOKENS_PER_TRANSACTION = 1048576"

type_synonym sidecar_table = "(int \<times> SidecarRow) list"

record sqlite_fault =
  sq_message :: string
  sq_database_error :: bool
  sq_rolls_back :: bool

record SqliteConnection =
  db_committed :: sidecar_table
  db_pending :: "sidecar_table option"
  db_clock :: nat

text \<open>The table constraints on the rows the program inserts.\<close>

definition int_between :: "int \<Rightarrow> int \<Rightarrow> dbval \<Rightarrow> bool" where
  "int_between a b v = (case v of DbInt i \<Rightarrow> a \<le> i \<and> i \<le> b | _ \<Rightarrow> False)"

definition blob_of_length :: "int \<Rightarrow> dbval \<Rightarrow> bool" where
  "blob_of_length n v = (case v of DbBlob b \<Rightarrow> int (length b) = n | _ \<Rightarrow> False)"

fun int_value :: "dbval \<Rightarrow> int" where
  "int_value (DbInt i) = i"
| "int_value _ = 0"

definition schema_checks :: "SidecarRow \<Rightarrow> bool" where
  "schema_checks row \<longleftrightarrow>
     blob_of_length 32 (row_namespace_key row) \<and> int_between 1 2147483647 (row_schema_version row) \<and>
     (\<forall>v\<in>set [row_model_id row, row_model_revision row, row_tokenizer_id row, row_tokenizer_revision row,
         row_model_config_digest row, row_kv_cache_config_digest row, row_adapter_revision row, row_vllm_version row,
         row_lmcache_version row, row_torch_version row, row_cuda_runtime row, row_cache_key row]. v \<noteq> DbNull) \<and>
     blob_of_length 32 (row_fingerprint row) \<and> int_between 0 MAX_TOKEN_POSITION (row_source_start row) \<and>
     int_between 1 MAX_TOKEN_POSITION (row_source_end row) \<and> int_between 1 MAX_TOKENS_PER_RECORD (row_token_count row) \<and>
     blob_of_length (int TOKEN_BLOB_HEADER_BYTES + int_value (row_token_count row) * 8) (row_token_ids row) \<and>
     blob_of_length 32 (row_checksum row) \<and>
     int_value (row_source_end row) - int_value (row_source_start row) = int_value (row_token_count row)"

text \<open>
  \<^verbatim>\<open>INSERT OR IGNORE\<close>: a row that violates a constraint or repeats the unique checksum is skipped and
  the row count is zero; otherwise it gets an identifier above all others.
\<close>

definition next_rowid :: "sidecar_table \<Rightarrow> int" where
  "next_rowid t = foldl max 0 (map fst t) + 1"

definition insert_or_ignore :: "SidecarRow \<Rightarrow> sidecar_table \<Rightarrow> int \<times> sidecar_table" where
  "insert_or_ignore row t =
     (if schema_checks row \<and> (\<forall>(i, old)\<in>set t. row_checksum old \<noteq> row_checksum row)
      then (1, t @ [(next_rowid t, row)]) else (0, t))"

text \<open>
  \<^verbatim>\<open>ORDER BY\<close>: values of different storage classes are ordered by class, texts and blobs bytewise.
\<close>

fun db_order :: "dbval \<Rightarrow> nat \<times> rat \<times> byte list" where
  "db_order DbNull = (0, 0, [])"
| "db_order (DbInt i) = (1, of_int i, [])"
| "db_order (DbReal x) = (1, x, [])"
| "db_order (DbText s) = (2, 0, encode_utf8 s)"
| "db_order (DbBlob b) = (3, 0, b)"

definition bucket_order :: "int \<times> SidecarRow \<Rightarrow> (nat \<times> rat \<times> byte list) \<times> (nat \<times> rat \<times> byte list) \<times> (nat \<times> rat \<times> byte list) \<times> int" where
  "bucket_order = (\<lambda>(i, row). (db_order (row_cache_key row), db_order (row_source_start row), db_order (row_source_end row), i))"

definition select_checksum :: "byte list \<Rightarrow> sidecar_table \<Rightarrow> SidecarRow list" where
  "select_checksum checksum t = take 2 (map snd (filter (\<lambda>(i, row). row_checksum row = DbBlob checksum) t))"

definition select_bucket :: "byte list \<Rightarrow> byte list \<Rightarrow> nat \<Rightarrow> sidecar_table \<Rightarrow> SidecarRow list" where
  "select_bucket key fingerprint limit t =
     take limit (map snd (sort_key bucket_order
       (filter (\<lambda>(i, row). row_namespace_key row = DbBlob key \<and> row_fingerprint row = DbBlob fingerprint) t)))"

section \<open>Statements and transactions\<close>

text \<open>
  A statement sees the pending table inside a transaction and the committed one outside.  A scheduled
  fault replaces its effect; the engine may then have rolled the transaction back.
\<close>

definition current_table :: "SqliteConnection \<Rightarrow> sidecar_table" where
  "current_table c = (case db_pending c of Some t \<Rightarrow> t | None \<Rightarrow> db_committed c)"

definition engine_fault :: "string \<Rightarrow> sqlite_fault" where
  "engine_fault message = \<lparr>sq_message = message, sq_database_error = True, sq_rolls_back = False\<rparr>"

type_synonym 'a statement = "SqliteConnection \<Rightarrow> (sqlite_fault + 'a) \<times> SqliteConnection"

definition execute :: "(nat \<Rightarrow> sqlite_fault option) \<Rightarrow> 'a statement \<Rightarrow> 'a statement" where
  "execute faults stmt c =
     (let ticked = c\<lparr>db_clock := Suc (db_clock c)\<rparr> in
      case faults (db_clock c) of
        Some f \<Rightarrow> (Inl f, if sq_rolls_back f then ticked\<lparr>db_pending := None\<rparr> else ticked)
      | None \<Rightarrow> stmt ticked)"

definition begin_stmt :: "unit statement" where
  "begin_stmt c =
     (if db_pending c \<noteq> None then (Inl (engine_fault ''cannot start a transaction within a transaction''), c)
      else (Inr (), c\<lparr>db_pending := Some (db_committed c)\<rparr>))"

definition commit_stmt :: "unit statement" where
  "commit_stmt c =
     (case db_pending c of
        None \<Rightarrow> (Inl (engine_fault ''cannot commit - no transaction is active''), c)
      | Some t \<Rightarrow> (Inr (), c\<lparr>db_committed := t, db_pending := None\<rparr>))"

definition rollback_stmt :: "unit statement" where
  "rollback_stmt c =
     (if db_pending c = None then (Inl (engine_fault ''cannot rollback - no transaction is active''), c)
      else (Inr (), c\<lparr>db_pending := None\<rparr>))"

definition insert_stmt :: "SidecarRow \<Rightarrow> int statement" where
  "insert_stmt row c =
     (let (rowcount, t) = insert_or_ignore row (current_table c) in
      (Inr rowcount, if db_pending c = None then c\<lparr>db_committed := t\<rparr> else c\<lparr>db_pending := Some t\<rparr>))"

definition query_stmt :: "(sidecar_table \<Rightarrow> 'a) \<Rightarrow> 'a statement" where
  "query_stmt query c = (Inr (query (current_table c)), c)"

text \<open>What a method raises before the translation of engine errors.\<close>

datatype sidecar_exn = SidecarRaise SidecarError | SqliteRaise sqlite_fault

type_synonym 'a sidecar_action = "SqliteConnection \<Rightarrow> (sidecar_exn + 'a) \<times> SqliteConnection"

definition run_stmt :: "(nat \<Rightarrow> sqlite_fault option) \<Rightarrow> 'a statement \<Rightarrow> ('a \<Rightarrow> 'b sidecar_action) \<Rightarrow> 'b sidecar_action" where
  "run_stmt faults stmt rest c =
     (case execute faults stmt c of
        (Inl f, c) \<Rightarrow> (Inl (SqliteRaise f), c)
      | (Inr x, c) \<Rightarrow> rest x c)"

text \<open>The handlers of the context manager: roll back if a transaction is open, then raise again.\<close>

definition rollback_and_raise :: "(nat \<Rightarrow> sqlite_fault option) \<Rightarrow> sidecar_exn \<Rightarrow> 'b sidecar_action" where
  "rollback_and_raise faults e c =
     (if db_pending c \<noteq> None then run_stmt faults rollback_stmt (\<lambda>_ c. (Inl e, c)) c else (Inl e, c))"

definition transaction :: "(nat \<Rightarrow> sqlite_fault option) \<Rightarrow> 'b sidecar_action \<Rightarrow> 'b sidecar_action" where
  "transaction faults body =
     run_stmt faults begin_stmt (\<lambda>_ c.
       case body c of
         (Inl e, c) \<Rightarrow> rollback_and_raise faults e c
       | (Inr x, c) \<Rightarrow>
           (case execute faults commit_stmt c of
              (Inr _, c) \<Rightarrow> (Inr x, c)
            | (Inl f, c) \<Rightarrow> rollback_and_raise faults (SqliteRaise f) c))"

text \<open>\<^verbatim>\<open>_translate_sqlite_error\<close>, by the message; the engine's messages are ASCII.\<close>

definition lower_char :: "char \<Rightarrow> char" where
  "lower_char ch = (let n = (of_char ch :: nat) in if 65 \<le> n \<and> n \<le> 90 then char_of (n + 32) else ch)"

definition contains_text :: "string \<Rightarrow> string \<Rightarrow> bool" where
  "contains_text marker message \<longleftrightarrow> (\<exists>k\<in>set [0..<Suc (length message)]. take (length marker) (drop k message) = marker)"

definition corruption_markers :: "string list" where
  "corruption_markers = [''database disk image is malformed'', ''file is not a database'', ''malformed database schema'',
     ''database corruption'']"

definition translate_sqlite_error :: "sqlite_fault \<Rightarrow> SidecarError" where
  "translate_sqlite_error f =
     (let message = map lower_char (sq_message f) in
      if \<exists>marker\<in>set corruption_markers. contains_text marker message then SidecarCorruptionError DATABASE_CORRUPT
      else SidecarOperationError SQLITE_OPERATION_FAILED)"

text \<open>\<^verbatim>\<open>except sqlite3.DatabaseError\<close>: other engine errors pass.\<close>

definition translated :: "(sidecar_exn + 'a) \<Rightarrow> sidecar_exn + 'a" where
  "translated r =
     (case r of
        Inl (SqliteRaise f) \<Rightarrow> if sq_database_error f then Inl (SidecarRaise (translate_sqlite_error f)) else r
      | _ \<Rightarrow> r)"

section \<open>Operations\<close>

record SqliteSidecarIndex =
  si_mode :: SidecarMode
  si_closed :: bool
  si_connection :: SqliteConnection

fun encode_batch :: "nat \<Rightarrow> int \<Rightarrow> CacheRecord list \<Rightarrow> SidecarError + EncodedRecord list" where
  "encode_batch batch_size total_tokens [] = Inr []"
| "encode_batch batch_size total_tokens (r # rs) =
     (if batch_size \<ge> MAX_RECORDS_PER_TRANSACTION then Inl (SidecarConfigurationError INVALID_RECORD)
      else rbind (from_record r) (\<lambda>encoded.
        let total = total_tokens + int (length (rec_token_ids (er_record encoded))) in
        if total > MAX_TOKENS_PER_TRANSACTION then Inl (SidecarConfigurationError INVALID_RECORD)
        else rbind (encode_batch (Suc batch_size) total rs) (\<lambda>es. Inr (encoded # es))))"

text \<open>One record of the batch: inserted, or equal to the one row with its checksum.\<close>

definition insert_one :: "(nat \<Rightarrow> sqlite_fault option) \<Rightarrow> EncodedRecord \<Rightarrow> int sidecar_action" where
  "insert_one faults encoded =
     run_stmt faults (insert_stmt (database_values encoded)) (\<lambda>rowcount.
       if rowcount = 1 then (\<lambda>c. (Inr 1, c))
       else run_stmt faults (query_stmt (select_checksum (er_checksum encoded))) (\<lambda>rows c.
         if length rows \<noteq> 1 then (Inl (SidecarRaise (SidecarCorruptionError RECORD_CORRUPT)), c)
         else
           (case record_from_row (rows ! 0) (rec_namespace (er_record encoded)) (rec_fingerprint (er_record encoded)) of
              Inl e \<Rightarrow> (Inl (SidecarRaise e), c)
            | Inr existing \<Rightarrow>
                if existing \<noteq> er_record encoded then (Inl (SidecarRaise (SidecarCorruptionError CHECKSUM_COLLISION)), c)
                else (Inr 0, c))))"

fun insert_all :: "(nat \<Rightarrow> sqlite_fault option) \<Rightarrow> int \<Rightarrow> EncodedRecord list \<Rightarrow> int sidecar_action" where
  "insert_all faults inserted [] c = (Inr inserted, c)"
| "insert_all faults inserted (encoded # rest) c =
     (case insert_one faults encoded c of
        (Inl e, c) \<Rightarrow> (Inl e, c)
      | (Inr k, c) \<Rightarrow> insert_all faults (inserted + k) rest c)"

definition add_many ::
    "(nat \<Rightarrow> sqlite_fault option) \<Rightarrow> CacheRecord list \<Rightarrow> SqliteSidecarIndex \<Rightarrow> (sidecar_exn + int) \<times> SqliteSidecarIndex" where
  "add_many faults records idx =
     (if si_closed idx then (Inl (SidecarRaise (SidecarClosedError CLOSED)), idx)
      else if si_mode idx \<noteq> WORKER_READ_WRITE then (Inl (SidecarRaise (SidecarModeError WRITE_FORBIDDEN)), idx)
      else
        case encode_batch 0 0 records of
          Inl e \<Rightarrow> (Inl (SidecarRaise e), idx)
        | Inr encoded \<Rightarrow>
            (case transaction faults (insert_all faults 0 encoded) (si_connection idx) of
               (result, c) \<Rightarrow> (translated result, idx\<lparr>si_connection := c\<rparr>)))"

definition add ::
    "(nat \<Rightarrow> sqlite_fault option) \<Rightarrow> CacheRecord \<Rightarrow> SqliteSidecarIndex \<Rightarrow> (sidecar_exn + bool) \<times> SqliteSidecarIndex" where
  "add faults record idx = (case add_many faults [record] idx of (r, idx) \<Rightarrow> (map_sum id (\<lambda>k. k = 1) r, idx))"

definition lookup_rows :: "CacheNamespace \<Rightarrow> SegmentFingerprint \<Rightarrow> SidecarRow list \<Rightarrow> SidecarError + CacheRecord list" where
  "lookup_rows n f rows =
     (if length rows > MAX_COLLISION_BUCKET_RECORDS then Inl (SidecarCorruptionError COLLISION_BUCKET_LIMIT)
      else rmap (\<lambda>row. record_from_row row n f) rows)"

definition lookup ::
    "(nat \<Rightarrow> sqlite_fault option) \<Rightarrow> CacheNamespace \<Rightarrow> SegmentFingerprint \<Rightarrow> SqliteSidecarIndex \<Rightarrow>
     (sidecar_exn + CacheRecord list) \<times> SqliteSidecarIndex" where
  "lookup faults n f idx =
     (if si_closed idx then (Inl (SidecarRaise (SidecarClosedError CLOSED)), idx)
      else
        case rbind (validate_sidecar_namespace n) (\<lambda>_. validate_sidecar_fingerprint f) of
          Inl e \<Rightarrow> (Inl (SidecarRaise e), idx)
        | Inr _ \<Rightarrow>
            (case transaction faults
                (run_stmt faults (query_stmt (select_bucket (namespace_key n) (digest f) (MAX_COLLISION_BUCKET_RECORDS + 1)))
                  (\<lambda>rows c. (map_sum SidecarRaise id (lookup_rows n f rows), c))) (si_connection idx) of
               (result, c) \<Rightarrow> (translated result, idx\<lparr>si_connection := c\<rparr>)))"

text \<open>Closing rolls an open transaction back; only an error of another class leaves the index open.\<close>

definition close_stmt :: "unit statement" where
  "close_stmt c = (Inr (), c\<lparr>db_pending := None\<rparr>)"

definition close :: "(nat \<Rightarrow> sqlite_fault option) \<Rightarrow> SqliteSidecarIndex \<Rightarrow> (sidecar_exn + unit) \<times> SqliteSidecarIndex" where
  "close faults idx =
     (if si_closed idx then (Inr (), idx)
      else
        case execute faults close_stmt (si_connection idx) of
          (Inr _, c) \<Rightarrow> (Inr (), idx\<lparr>si_connection := c, si_closed := True\<rparr>)
        | (Inl f, c) \<Rightarrow>
            (translated (Inl (SqliteRaise f)), idx\<lparr>si_connection := c, si_closed := sq_database_error f\<rparr>))"

section \<open>Transactions are atomic\<close>

lemma execute_cases:
  assumes "execute faults stmt c = (r, c')"
  obtains (fault) f where "r = Inl f" "db_committed c' = db_committed c"
    | (run) "stmt (c\<lparr>db_clock := Suc (db_clock c)\<rparr>) = (r, c')"
  using assms by (auto simp: execute_def Let_def split: option.splits if_splits)

lemma run_stmt_cases:
  assumes "run_stmt faults stmt rest c = (r, c')"
  obtains (fault) f where "r = Inl (SqliteRaise f)" "execute faults stmt c = (Inl f, c')"
    | (run) x c1 where "execute faults stmt c = (Inr x, c1)" "rest x c1 = (r, c')"
  using assms by (auto simp: run_stmt_def split: prod.splits sum.splits)

lemma rollback_and_raise_keeps:
  assumes "rollback_and_raise faults e c = (r, c')"
  shows "db_committed c' = db_committed c \<and> (\<exists>e'. r = Inl e')"
proof (cases "db_pending c = None")
  case False
  then have "run_stmt faults rollback_stmt (\<lambda>_ c. (Inl e, c)) c = (r, c')" using assms by (simp add: rollback_and_raise_def)
  then show ?thesis
  proof (cases rule: run_stmt_cases)
    case (fault f)
    from fault(2) show ?thesis by (cases rule: execute_cases) (use fault(1) in \<open>auto simp: rollback_stmt_def split: if_splits\<close>)
  next
    case (run x c1)
    from run(1) show ?thesis by (cases rule: execute_cases) (use run(2) in \<open>auto simp: rollback_stmt_def split: if_splits\<close>)
  qed
qed (use assms in \<open>auto simp: rollback_and_raise_def\<close>)

text \<open>
  A body of a transaction: it never touches the committed table, and when it returns, it has turned the
  pending table as \<open>Q\<close> says.
\<close>

definition transactional :: "('b sidecar_action) \<Rightarrow> (sidecar_table \<Rightarrow> 'b \<Rightarrow> sidecar_table \<Rightarrow> bool) \<Rightarrow> bool" where
  "transactional body Q \<longleftrightarrow>
     (\<forall>c t r c'. db_pending c = Some t \<longrightarrow> body c = (r, c') \<longrightarrow> db_committed c' = db_committed c \<and>
        (\<forall>x. r = Inr x \<longrightarrow> (\<exists>t'. db_pending c' = Some t' \<and> Q t x t')))"

lemma transactionalD:
  "transactional body Q \<Longrightarrow> db_pending c = Some t \<Longrightarrow> body c = (r, c') \<Longrightarrow>
   db_committed c' = db_committed c \<and> (\<forall>x. r = Inr x \<longrightarrow> (\<exists>t'. db_pending c' = Some t' \<and> Q t x t'))"
  unfolding transactional_def by blast

lemma transaction_atomic:
  assumes body: "transactional body Q" and tx: "transaction faults body c = (r, c')"
  shows "(\<exists>x. r = Inr x \<and> Q (db_committed c) x (db_committed c')) \<or> (\<exists>e. r = Inl e) \<and> db_committed c' = db_committed c"
proof -
  let ?rest = "\<lambda>_ c. case body c of
         (Inl e, c) \<Rightarrow> rollback_and_raise faults e c
       | (Inr x, c) \<Rightarrow>
           (case execute faults commit_stmt c of
              (Inr _, c) \<Rightarrow> (Inr x, c)
            | (Inl f, c) \<Rightarrow> rollback_and_raise faults (SqliteRaise f) c)"
  have "run_stmt faults begin_stmt ?rest c = (r, c')" using tx by (simp add: transaction_def)
  then show ?thesis
  proof (cases rule: run_stmt_cases)
    case (fault f)
    from fault(2) show ?thesis by (cases rule: execute_cases) (use fault(1) in \<open>auto simp: begin_stmt_def split: if_splits\<close>)
  next
    case (run x c1)
    from run(1) have "db_pending c1 = Some (db_committed c) \<and> db_committed c1 = db_committed c"
      by (cases rule: execute_cases) (auto simp: begin_stmt_def split: if_splits)
    then have c1: "db_pending c1 = Some (db_committed c)" "db_committed c1 = db_committed c" by simp_all
    obtain b c2 where b: "body c1 = (b, c2)" by (cases "body c1")
    note bd = transactionalD [OF body c1(1) b]
    show ?thesis
    proof (cases b)
      case (Inl e)
      then have "rollback_and_raise faults e c2 = (r, c')" using run(2) b by simp
      from rollback_and_raise_keeps [OF this] show ?thesis using bd c1 by auto
    next
      case (Inr y)
      obtain k c3 where k: "execute faults commit_stmt c2 = (k, c3)" by (cases "execute faults commit_stmt c2")
      obtain t' where t': "db_pending c2 = Some t'" "Q (db_committed c) y t'" "db_committed c2 = db_committed c"
        using bd Inr c1 by auto
      show ?thesis
      proof (cases k)
        case (Inl f)
        then have "rollback_and_raise faults (SqliteRaise f) c3 = (r, c')" using run(2) b k \<open>b = Inr y\<close> by simp
        moreover have "db_committed c3 = db_committed c2"
          using k by (cases rule: execute_cases) (use Inl in \<open>auto simp: commit_stmt_def split: option.splits\<close>)
        ultimately show ?thesis using rollback_and_raise_keeps [of faults "SqliteRaise f" c3 r c'] t' by auto
      next
        case (Inr u)
        then have r: "r = Inr y" "c' = c3" using run(2) b k \<open>b = Inr y\<close> by simp_all
        have "db_committed c3 = t'"
          using k by (cases rule: execute_cases) (use Inr t' in \<open>auto simp: commit_stmt_def split: option.splits\<close>)
        then show ?thesis using r t' by auto
      qed
    qed
  qed
qed

section \<open>Tables written by the program\<close>

abbreviation record_row :: "CacheRecord \<Rightarrow> SidecarRow" where
  "record_row r \<equiv> database_values (encoded_record r)"

definition table_ok :: "sidecar_table \<Rightarrow> bool" where
  "table_ok t \<longleftrightarrow> (\<forall>row\<in>snd ` set t. \<exists>r. valid_sidecar_record r \<and> row = record_row r) \<and>
     distinct (map fst t) \<and> distinct (map (\<lambda>(i, row). row_checksum row) t)"

definition contents :: "sidecar_table \<Rightarrow> CacheRecord set" where
  "contents t = {r. valid_sidecar_record r \<and> record_row r \<in> snd ` set t}"

lemma record_row_inj: "valid_sidecar_record r \<Longrightarrow> valid_sidecar_record s \<Longrightarrow> record_row r = record_row s \<Longrightarrow> r = s"
proof -
  assume v: "valid_sidecar_record r" "valid_sidecar_record s" and eq: "record_row r = record_row s"
  have "rec_namespace r = rec_namespace s"
    using eq by (intro CacheNamespace.equality) (simp_all add: database_values_def Let_def)
  moreover have "rec_fingerprint r = rec_fingerprint s"
    using eq by (intro SegmentFingerprint.equality) (simp_all add: database_values_def Let_def)
  ultimately have "record_from_row (record_row r) (rec_namespace r) (rec_fingerprint r) = Inr r"
    "record_from_row (record_row r) (rec_namespace r) (rec_fingerprint r) = Inr s"
    using v eq by (simp_all add: record_from_row_Inr)
  then show "r = s" by simp
qed

lemma finite_contents: "finite (contents t)"
proof (rule finite_imageD)
  show "finite (record_row ` contents t)" by (rule finite_subset [of _ "snd ` set t"]) (auto simp: contents_def)
  show "inj_on record_row (contents t)" using record_row_inj by (auto simp: contents_def inj_on_def)
qed

lemma next_rowid_fresh: "i \<in> fst ` set t \<Longrightarrow> i < next_rowid t"
proof -
  have "a \<le> foldl max a ks \<and> (\<forall>i\<in>set ks. i \<le> foldl max a ks)" for a :: int and ks
    by (induction ks arbitrary: a) (auto, (meson max.bounded_iff order_trans)+)
  from this [of 0 "map fst t"] show "i \<in> fst ` set t \<Longrightarrow> i < next_rowid t"
    unfolding next_rowid_def by fastforce
qed

definition store_row :: "sidecar_table \<Rightarrow> CacheRecord \<Rightarrow> sidecar_table" where
  "store_row t r = snd (insert_or_ignore (record_row r) t)"

lemma store_row_ok:
  assumes "table_ok t" "valid_sidecar_record r" "r \<in> contents (store_row t r)"
  shows "table_ok (store_row t r)" "contents (store_row t r) = insert r (contents t)"
    "fst (insert_or_ignore (record_row r) t) = (if r \<in> contents t then 0 else 1)"
proof -
  let ?new = "schema_checks (record_row r) \<and> (\<forall>(i, old)\<in>set t. row_checksum old \<noteq> row_checksum (record_row r))"
  have "r \<notin> contents t" if ?new using that by (force simp: contents_def)
  moreover have "r \<in> contents t" if "\<not> ?new" using assms(3) that by (auto simp: store_row_def insert_or_ignore_def contents_def)
  ultimately have new: "?new \<longleftrightarrow> r \<notin> contents t" by blast
  show "fst (insert_or_ignore (record_row r) t) = (if r \<in> contents t then 0 else 1)"
    using new by (auto simp: insert_or_ignore_def)
  show "contents (store_row t r) = insert r (contents t)"
  proof (cases ?new)
    case True
    then have "store_row t r = t @ [(next_rowid t, record_row r)]" by (simp add: store_row_def insert_or_ignore_def)
    then show ?thesis using record_row_inj assms(2) by (auto simp: contents_def)
  next
    case False
    then have "store_row t r = t" by (auto simp: store_row_def insert_or_ignore_def)
    then show ?thesis using new False by auto
  qed
  show "table_ok (store_row t r)"
  proof (cases ?new)
    case True
    then have "store_row t r = t @ [(next_rowid t, record_row r)]" by (simp add: store_row_def insert_or_ignore_def)
    then show ?thesis using assms(1,2) True next_rowid_fresh [of "next_rowid t" t]
      by (fastforce simp: table_ok_def)
  next
    case False
    then have "store_row t r = t" by (auto simp: store_row_def insert_or_ignore_def)
    then show ?thesis using assms(1) by simp
  qed
qed

section \<open>What the operations do to a table\<close>

lemma record_row_fields:
  "row_namespace_key (record_row r) = DbBlob (namespace_key (rec_namespace r))"
  "row_fingerprint (record_row r) = DbBlob (digest (rec_fingerprint r))"
  "row_cache_key (record_row r) = DbText (cache_key r)" "row_source_start (record_row r) = DbInt (tr_start (source_range r))"
  "row_source_end (record_row r) = DbInt (tr_end (source_range r))"
  "row_checksum (record_row r) = DbBlob (er_checksum (encoded_record r))"
  by (simp_all add: database_values_def Let_def)

lemma query_in_transaction:
  assumes "execute faults (query_stmt q) c = (Inr x, c')" "db_pending c = Some t"
  shows "x = q t \<and> db_pending c' = Some t \<and> db_committed c' = db_committed c"
  using assms(1) by (cases rule: execute_cases) (use assms(2) in \<open>auto simp: query_stmt_def current_table_def\<close>)

lemma insert_in_transaction:
  assumes "execute faults (insert_stmt row) c = (Inr k, c')" "db_pending c = Some t"
  shows "(k, the (db_pending c')) = insert_or_ignore row t \<and> db_pending c' \<noteq> None \<and> db_committed c' = db_committed c"
  using assms(1) by (cases rule: execute_cases) (use assms(2) in \<open>auto simp: insert_stmt_def current_table_def split: prod.splits\<close>)

lemma statement_fault_keeps:
  assumes "execute faults stmt c = (Inl f, c')" "\<And>c r c'. stmt c = (r, c') \<Longrightarrow> \<exists>x. r = Inr x"
  shows "db_committed c' = db_committed c"
  using assms(1) by (cases rule: execute_cases) (use assms(2) in blast)+

lemma stmt_returns: "insert_stmt row c = (r, c') \<Longrightarrow> \<exists>x. r = Inr x" "query_stmt q c = (s, c') \<Longrightarrow> \<exists>x. s = Inr x"
  by (auto simp: insert_stmt_def query_stmt_def split: prod.splits)

lemma insert_one_transactional:
  assumes v: "valid_sidecar_record r"
  shows "transactional (insert_one faults (encoded_record r))
    (\<lambda>t k t'. t' = store_row t r \<and> k = fst (insert_or_ignore (record_row r) t) \<and> r \<in> contents t')"
  unfolding transactional_def
proof (intro allI impI)
  fix c t res c' assume c: "db_pending c = Some t" and run: "insert_one faults (encoded_record r) c = (res, c')"
  show "db_committed c' = db_committed c \<and> (\<forall>x. res = Inr x \<longrightarrow> (\<exists>t'. db_pending c' = Some t' \<and>
      t' = store_row t r \<and> x = fst (insert_or_ignore (record_row r) t) \<and> r \<in> contents t'))"
    using run unfolding insert_one_def
  proof (cases rule: run_stmt_cases)
    case (fault f)
    then show ?thesis using statement_fault_keeps [OF fault(2) stmt_returns(1)] by simp
  next
    case (run k c1)
    have c1: "db_pending c1 = Some (store_row t r)" "k = fst (insert_or_ignore (record_row r) t)" "db_committed c1 = db_committed c"
      using insert_in_transaction [OF run(1) c] by (auto simp: store_row_def prod_eq_iff)
    show ?thesis
    proof (cases "k = 1")
      case True
      then have "record_row r \<in> snd ` set (store_row t r)" using c1(2) by (auto simp: store_row_def insert_or_ignore_def split: if_splits)
      then show ?thesis using True run(2) c1 v by (auto simp: contents_def)
    next
      case False
      then have k0: "k = 0" using c1(2) by (auto simp: insert_or_ignore_def split: if_splits)
      note rest = run(2) [simplified False if_False]
      from rest show ?thesis
      proof (cases rule: run_stmt_cases)
        case (fault f)
        then show ?thesis using statement_fault_keeps [OF fault(2) stmt_returns(2)] c1 by simp
      next
        case (run rows c2)
        note q = query_in_transaction [OF run(1) c1(1)]
        show ?thesis
        proof (cases "\<exists>x. res = Inr x")
          case True
          then have ok: "length rows = 1" "record_from_row (rows ! 0) (rec_namespace r) (rec_fingerprint r) = Inr r" "res = Inr 0" "c' = c2"
            using run(2) by (auto split: if_splits sum.splits)
          have "rows ! 0 \<in> set rows" using ok(1) by simp
          moreover have "set rows \<subseteq> snd ` set (store_row t r)"
            using q by (auto simp: select_checksum_def dest!: in_set_takeD)
          moreover have "rows ! 0 = record_row r" using ok(2) by (simp add: record_from_row_Inr)
          ultimately have "r \<in> contents (store_row t r)" using v by (auto simp: contents_def)
          then show ?thesis using ok q c1 k0 by auto
        next
          case False
          then show ?thesis using run(2) q c1 by (auto split: if_splits sum.splits)
        qed
      qed
    qed
  qed
qed

definition batch_stored :: "CacheRecord list \<Rightarrow> int \<Rightarrow> sidecar_table \<Rightarrow> int \<Rightarrow> sidecar_table \<Rightarrow> bool" where
  "batch_stored rs inserted t k t' \<longleftrightarrow>
     (table_ok t \<longrightarrow> table_ok t' \<and> contents t' = contents t \<union> set rs \<and> k = inserted + int (card (set rs - contents t)))"

lemma insert_all_transactional:
  "list_all valid_sidecar_record rs \<Longrightarrow>
   transactional (insert_all faults inserted (map encoded_record rs)) (batch_stored rs inserted)"
proof (induction rs arbitrary: inserted)
  case Nil
  show ?case by (auto simp: transactional_def batch_stored_def)
next
  case (Cons r rs)
  then have v: "valid_sidecar_record r" and IH: "\<And>k. transactional (insert_all faults k (map encoded_record rs)) (batch_stored rs k)"
    by simp_all
  show ?case unfolding transactional_def
  proof (intro allI impI)
    fix c t res c' assume c: "db_pending c = Some t" and run: "insert_all faults inserted (map encoded_record (r # rs)) c = (res, c')"
    obtain o1 c1 where one: "insert_one faults (encoded_record r) c = (o1, c1)" by (cases "insert_one faults (encoded_record r) c")
    note d = transactionalD [OF insert_one_transactional [OF v] c one]
    show "db_committed c' = db_committed c \<and>
        (\<forall>x. res = Inr x \<longrightarrow> (\<exists>t'. db_pending c' = Some t' \<and> batch_stored (r # rs) inserted t x t'))"
    proof (cases o1)
      case (Inl e)
      then show ?thesis using run one d by auto
    next
      case (Inr k)
      then have k: "db_pending c1 = Some (store_row t r)" "k = fst (insert_or_ignore (record_row r) t)" "r \<in> contents (store_row t r)"
        and run': "insert_all faults (inserted + k) (map encoded_record rs) c1 = (res, c')" using d run one by auto
      note d' = transactionalD [OF IH k(1) run']
      have "batch_stored (r # rs) inserted t x t'" if s: "batch_stored rs (inserted + k) (store_row t r) x t'" for x t'
        unfolding batch_stored_def
      proof
        assume ok: "table_ok t"
        note st = store_row_ok [OF ok v k(3)]
        have "int (card (set (r # rs) - contents t)) = k + int (card (set rs - contents (store_row t r)))"
        proof (cases "r \<in> contents t")
          case True
          then have "set (r # rs) - contents t = set rs - contents (store_row t r)" using st(2) by auto
          then show ?thesis using k(2) st(3) True by simp
        next
          case False
          then have "set (r # rs) - contents t = insert r (set rs - contents (store_row t r))" using st(2) by auto
          moreover have "r \<notin> set rs - contents (store_row t r)" using k(3) by simp
          ultimately show ?thesis using k(2) st(3) False by simp
        qed
        then show "table_ok t' \<and> contents t' = contents t \<union> set (r # rs) \<and> x = inserted + int (card (set (r # rs) - contents t))"
          using s st by (auto simp: batch_stored_def)
      qed
      then show ?thesis using d d' by auto
    qed
  qed
qed

definition valid_batch :: "CacheRecord list \<Rightarrow> bool" where
  "valid_batch rs \<longleftrightarrow> list_all valid_sidecar_record rs \<and> length rs \<le> MAX_RECORDS_PER_TRANSACTION \<and>
     int (sum_list (map (\<lambda>r. length (rec_token_ids r)) rs)) \<le> MAX_TOKENS_PER_TRANSACTION"

lemma encode_batch_Inr:
  "encode_batch b tokens rs = Inr es \<longleftrightarrow> es = map encoded_record rs \<and> list_all valid_sidecar_record rs \<and>
     (rs \<noteq> [] \<longrightarrow> b + length rs \<le> MAX_RECORDS_PER_TRANSACTION \<and>
        tokens + int (sum_list (map (\<lambda>r. length (rec_token_ids r)) rs)) \<le> MAX_TOKENS_PER_TRANSACTION)"
proof (induction rs arbitrary: b tokens es)
  case (Cons r rs)
  show ?case
    by (cases "rs = []") (auto simp: result_simps from_record_Inr Let_def Cons.IH not_less)
qed auto

lemma encode_batch_valid: "encode_batch 0 0 rs = Inr es \<longleftrightarrow> es = map encoded_record rs \<and> valid_batch rs"
  by (auto simp: encode_batch_Inr valid_batch_def MAX_TOKENS_PER_TRANSACTION_def)

definition bucket_rows :: "CacheNamespace \<Rightarrow> SegmentFingerprint \<Rightarrow> sidecar_table \<Rightarrow> SidecarRow list" where
  "bucket_rows n f t = select_bucket (namespace_key n) (digest f) (MAX_COLLISION_BUCKET_RECORDS + 1) t"

lemma lookup_transactional:
  "transactional (run_stmt faults (query_stmt (select_bucket (namespace_key n) (digest f) (MAX_COLLISION_BUCKET_RECORDS + 1)))
     (\<lambda>rows c. (map_sum SidecarRaise id (lookup_rows n f rows), c)))
     (\<lambda>t rs t'. t' = t \<and> lookup_rows n f (bucket_rows n f t) = Inr rs)"
  unfolding transactional_def
proof (intro allI impI)
  let ?q = "select_bucket (namespace_key n) (digest f) (MAX_COLLISION_BUCKET_RECORDS + 1)"
  fix c t res c' assume c: "db_pending c = Some t" and
    run: "run_stmt faults (query_stmt ?q) (\<lambda>rows c. (map_sum SidecarRaise id (lookup_rows n f rows), c)) c = (res, c')"
  from run show "db_committed c' = db_committed c \<and> (\<forall>x. res = Inr x \<longrightarrow> (\<exists>t'. db_pending c' = Some t' \<and> t' = t \<and>
      lookup_rows n f (bucket_rows n f t) = Inr x))"
  proof (cases rule: run_stmt_cases)
    case (fault e)
    then show ?thesis using statement_fault_keeps [OF fault(2) stmt_returns(2)] by simp
  next
    case (run rows c1)
    note q = query_in_transaction [OF run(1) c]
    show ?thesis using q run(2) by (cases "lookup_rows n f rows") (auto simp: bucket_rows_def)
  qed
qed

definition lookup_order :: "CacheRecord \<Rightarrow> byte list \<times> int \<times> int" where
  "lookup_order r = (encode_utf8 (cache_key r), tr_start (source_range r), tr_end (source_range r))"

lemma decoded_bucket:
  assumes "lookup_rows n f (bucket_rows n f t) = Inr rs" "distinct (map (\<lambda>(i, row). row_checksum row) t)"
  shows "set rs = {r \<in> contents t. rec_namespace r = n \<and> rec_fingerprint r = f}" "distinct rs" "sorted (map lookup_order rs)"
proof -
  let ?sel = "\<lambda>(i, row). row_namespace_key row = DbBlob (namespace_key n) \<and> row_fingerprint row = DbBlob (digest f)"
  define L where "L = sort_key bucket_order (filter ?sel t)"
  have len: "length (bucket_rows n f t) \<le> MAX_COLLISION_BUCKET_RECORDS" and dec: "rmap (\<lambda>row. record_from_row row n f) (bucket_rows n f t) = Inr rs"
    using assms(1) by (auto simp: lookup_rows_def split: if_splits)
  then have "bucket_rows n f t = map snd L" by (simp add: bucket_rows_def select_bucket_def L_def MAX_COLLISION_BUCKET_RECORDS_def)
  then have l2: "list_all2 (\<lambda>row r. record_from_row row n f = Inr r) (map snd L) rs" using dec by (simp add: rmap_Inr)
  then have rows: "map snd L = map record_row rs" and
    each: "\<forall>r\<in>set rs. valid_sidecar_record r \<and> rec_namespace r = n \<and> rec_fingerprint r = f"
    by (auto simp: list_all2_conv_all_nth record_from_row_Inr in_set_conv_nth intro!: nth_equalityI)
  have snd_L: "snd ` set L = {row \<in> snd ` set t. row_namespace_key row = DbBlob (namespace_key n) \<and> row_fingerprint row = DbBlob (digest f)}"
    by (force simp: L_def)
  have set_rows: "record_row ` set rs = snd ` set L" using arg_cong [OF rows, of set] by simp
  show "set rs = {r \<in> contents t. rec_namespace r = n \<and> rec_fingerprint r = f}"
  proof (intro equalityI subsetI)
    fix r assume r: "r \<in> set rs"
    then have "record_row r \<in> snd ` set L" using set_rows by blast
    then have "record_row r \<in> snd ` set t" unfolding snd_L by blast
    then show "r \<in> {r \<in> contents t. rec_namespace r = n \<and> rec_fingerprint r = f}" using each r by (simp add: contents_def)
  next
    fix r assume "r \<in> {r \<in> contents t. rec_namespace r = n \<and> rec_fingerprint r = f}"
    then have v: "valid_sidecar_record r" and "record_row r \<in> snd ` set L" unfolding snd_L by (auto simp: contents_def record_row_fields)
    then obtain s where "s \<in> set rs" "record_row s = record_row r" unfolding set_rows [symmetric] by auto
    then show "r \<in> set rs" using record_row_inj [of s r] each v by auto
  qed
  have "distinct (map row_checksum (map snd t))" using assms(2) by (simp add: split_def o_def)
  then have "distinct (map snd t)" by (simp only: distinct_map)
  then have "distinct (map snd (filter ?sel t))" by (rule distinct_map_filter)
  then have "distinct (map snd L)" unfolding L_def distinct_map by (simp add: inj_on_def distinct_map)
  then show "distinct rs" unfolding rows by (simp only: distinct_map)
  have "sorted (map bucket_order L)" unfolding L_def by (rule sorted_sort_key)
  moreover have "length L = length rs" using arg_cong [OF rows, of length] by simp
  moreover have "snd (L ! k) = record_row (rs ! k)" if "k < length rs" for k
    using arg_cong [OF rows, of "\<lambda>xs. xs ! k"] that \<open>length L = length rs\<close> by simp
  ultimately show "sorted (map lookup_order rs)"
    by (auto simp: sorted_iff_nth_mono bucket_order_def split_def record_row_fields lookup_order_def)
      (force simp: sorted_iff_nth_mono bucket_order_def split_def record_row_fields lookup_order_def less_eq_prod_def)?
qed

section \<open>The store contract\<close>

abbreviation stored_table :: "SqliteSidecarIndex \<Rightarrow> sidecar_table" where
  "stored_table idx \<equiv> db_committed (si_connection idx)"

lemma translated_Inr: "translated r = Inr x \<longleftrightarrow> r = Inr x" "(\<exists>e. translated r = Inl e) \<longleftrightarrow> (\<exists>e. r = Inl e)"
  by (auto simp: translated_def split: sum.splits sidecar_exn.splits)

lemma add_many_result:
  assumes "add_many faults rs idx = (r, idx')"
  shows "(\<exists>k. r = Inr k \<and> valid_batch rs \<and> batch_stored rs 0 (stored_table idx) k (stored_table idx')) \<or>
    (\<exists>e. r = Inl e) \<and> stored_table idx' = stored_table idx"
proof (cases "si_closed idx \<or> si_mode idx \<noteq> WORKER_READ_WRITE \<or> (\<exists>e. encode_batch 0 0 rs = Inl e)")
  case True
  then show ?thesis using assms by (auto simp: add_many_def split: if_splits)
next
  case False
  then have es: "encode_batch 0 0 rs = Inr (map encoded_record rs)" "valid_batch rs"
    using encode_batch_valid [of rs] by (cases "encode_batch 0 0 rs"; auto)+
  obtain q c where q: "transaction faults (insert_all faults 0 (map encoded_record rs)) (si_connection idx) = (q, c)"
    by (cases "transaction faults (insert_all faults 0 (map encoded_record rs)) (si_connection idx)")
  have r: "r = translated q" "stored_table idx' = db_committed c" using assms False es(1) q by (auto simp: add_many_def)
  have "list_all valid_sidecar_record rs" using es(2) by (simp add: valid_batch_def)
  from transaction_atomic [OF insert_all_transactional [OF this] q] show ?thesis
    unfolding r using translated_Inr [of q] es(2) by auto
qed

lemma lookup_result:
  assumes "lookup faults n f idx = (r, idx')"
  shows "stored_table idx' = stored_table idx \<and> (\<forall>rs. r = Inr rs \<longrightarrow> lookup_rows n f (bucket_rows n f (stored_table idx)) = Inr rs)"
proof (cases "si_closed idx \<or> (\<exists>e. rbind (validate_sidecar_namespace n) (\<lambda>_. validate_sidecar_fingerprint f) = Inl e)")
  case True
  then show ?thesis using assms by (auto simp: lookup_def split: if_splits)
next
  case False
  then obtain u where u: "rbind (validate_sidecar_namespace n) (\<lambda>_. validate_sidecar_fingerprint f) = Inr u"
    by (metis sum.exhaust)
  let ?body = "run_stmt faults (query_stmt (select_bucket (namespace_key n) (digest f) (MAX_COLLISION_BUCKET_RECORDS + 1)))
                  (\<lambda>rows c. (map_sum SidecarRaise id (lookup_rows n f rows), c))"
  obtain q c where q: "transaction faults ?body (si_connection idx) = (q, c)" by (cases "transaction faults ?body (si_connection idx)")
  have r: "r = translated q" "stored_table idx' = db_committed c" using assms False u q by (auto simp: lookup_def)
  from transaction_atomic [OF lookup_transactional q] show ?thesis unfolding r using translated_Inr [of q] by auto
qed

text \<open>
  What a client of a record store relies on: a batch that was accepted is in the store as a whole, a
  refused one left it as it was, the count is the number of new records, and a bucket holds exactly the
  stored records of its namespace and fingerprint.
\<close>

locale record_store =
  fixes store_inv :: "'s \<Rightarrow> bool" and records :: "'s \<Rightarrow> CacheRecord set"
    and put :: "CacheRecord list \<Rightarrow> 's \<Rightarrow> ('e + int) \<times> 's"
    and fetch :: "CacheNamespace \<Rightarrow> SegmentFingerprint \<Rightarrow> 's \<Rightarrow> ('e + CacheRecord list) \<times> 's"
  assumes put_returns: "store_inv s \<Longrightarrow> put rs s = (Inr k, s') \<Longrightarrow>
      store_inv s' \<and> records s' = records s \<union> set rs \<and> k = int (card (set rs - records s))"
    and put_raises: "store_inv s \<Longrightarrow> put rs s = (Inl e, s') \<Longrightarrow> store_inv s' \<and> records s' = records s"
    and fetch_returns: "store_inv s \<Longrightarrow> fetch n f s = (Inr rs, s') \<Longrightarrow>
      store_inv s' \<and> records s' = records s \<and> distinct rs \<and> set rs = {r \<in> records s. rec_namespace r = n \<and> rec_fingerprint r = f}"
    and fetch_raises: "store_inv s \<Longrightarrow> fetch n f s = (Inl e, s') \<Longrightarrow> store_inv s' \<and> records s' = records s"

text \<open>Sequences of calls, and what a set of records answers to them.\<close>

datatype store_call = Put "CacheRecord list" | Fetch CacheNamespace SegmentFingerprint

datatype 'e store_answer = PutAnswer "'e + int" | FetchAnswer "'e + CacheRecord list"

fun run_calls ::
    "(CacheRecord list \<Rightarrow> 's \<Rightarrow> ('e + int) \<times> 's) \<Rightarrow>
     (CacheNamespace \<Rightarrow> SegmentFingerprint \<Rightarrow> 's \<Rightarrow> ('e + CacheRecord list) \<times> 's) \<Rightarrow> store_call list \<Rightarrow> 's \<Rightarrow>
     'e store_answer list \<times> 's" where
  "run_calls put fetch [] s = ([], s)"
| "run_calls put fetch (call # calls) s =
     (let (answer, s) = (case call of
          Put rs \<Rightarrow> map_prod PutAnswer id (put rs s) | Fetch n f \<Rightarrow> map_prod FetchAnswer id (fetch n f s));
        (answers, s) = run_calls put fetch calls s in
      (answer # answers, s))"

fun set_answers :: "CacheRecord set \<Rightarrow> store_call list \<Rightarrow> 'e store_answer list \<Rightarrow> CacheRecord set \<Rightarrow> bool" where
  "set_answers S [] [] S' \<longleftrightarrow> S' = S"
| "set_answers S (Put rs # calls) (PutAnswer (Inr k) # answers) S' \<longleftrightarrow>
     k = int (card (set rs - S)) \<and> set_answers (S \<union> set rs) calls answers S'"
| "set_answers S (Put rs # calls) (PutAnswer (Inl e) # answers) S' \<longleftrightarrow> set_answers S calls answers S'"
| "set_answers S (Fetch n f # calls) (FetchAnswer (Inr rs) # answers) S' \<longleftrightarrow>
     distinct rs \<and> set rs = {r \<in> S. rec_namespace r = n \<and> rec_fingerprint r = f} \<and> set_answers S calls answers S'"
| "set_answers S (Fetch n f # calls) (FetchAnswer (Inl e) # answers) S' \<longleftrightarrow> set_answers S calls answers S'"
| "set_answers S _ _ S' \<longleftrightarrow> False"

context record_store
begin

lemma runs_like_a_set:
  "store_inv s \<Longrightarrow> run_calls put fetch calls s = (answers, s') \<Longrightarrow> set_answers (records s) calls answers (records s') \<and> store_inv s'"
proof (induction calls arbitrary: s answers)
  case (Cons call calls)
  show ?case
  proof (cases call)
    case (Put rs)
    obtain r s1 where p: "put rs s = (r, s1)" by (cases "put rs s")
    obtain as where as: "answers = PutAnswer r # as" "run_calls put fetch calls s1 = (as, s')"
      using Cons.prems(2) Put p by (auto split: prod.splits)
    show ?thesis
    proof (cases r)
      case (Inl e)
      have "store_inv s1" "records s1 = records s" using put_raises [OF Cons.prems(1) p [unfolded Inl]] by simp_all
      then show ?thesis using Cons.IH [OF _ as(2)] by (simp add: as(1) Put Inl)
    next
      case (Inr x)
      note d = put_returns [OF Cons.prems(1) p [unfolded Inr]]
      then have "set_answers (records s1) calls as (records s') \<and> store_inv s'" using Cons.IH [OF _ as(2)] by blast
      then show ?thesis using d by (simp add: as(1) Put Inr)
    qed
  next
    case (Fetch n f)
    obtain r s1 where p: "fetch n f s = (r, s1)" by (cases "fetch n f s")
    obtain as where as: "answers = FetchAnswer r # as" "run_calls put fetch calls s1 = (as, s')"
      using Cons.prems(2) Fetch p by (auto split: prod.splits)
    show ?thesis
    proof (cases r)
      case (Inl e)
      have "store_inv s1" "records s1 = records s" using fetch_raises [OF Cons.prems(1) p [unfolded Inl]] by simp_all
      then show ?thesis using Cons.IH [OF _ as(2)] by (simp add: as(1) Fetch Inl)
    next
      case (Inr x)
      note d = fetch_returns [OF Cons.prems(1) p [unfolded Inr]]
      then have "set_answers (records s1) calls as (records s') \<and> store_inv s'" using Cons.IH [OF _ as(2)] by blast
      then show ?thesis using d by (simp add: as(1) Fetch Inr)
    qed
  qed
qed simp

end

interpretation sqlite_store: record_store "\<lambda>idx. table_ok (stored_table idx)" "\<lambda>idx. contents (stored_table idx)"
    "add_many faults" "lookup faults" for faults
proof
  fix s rs k s' assume "table_ok (stored_table s)" "add_many faults rs s = (Inr k, s')"
  then show "table_ok (stored_table s') \<and> contents (stored_table s') = contents (stored_table s) \<union> set rs \<and>
      k = int (card (set rs - contents (stored_table s)))"
    using add_many_result [of faults rs s "Inr k" s'] by (auto simp: batch_stored_def)
next
  fix s rs e s' assume "table_ok (stored_table s)" "add_many faults rs s = (Inl e, s')"
  then show "table_ok (stored_table s') \<and> contents (stored_table s') = contents (stored_table s)"
    using add_many_result [of faults rs s "Inl e" s'] by auto
next
  fix s n f rs s' assume ok: "table_ok (stored_table s)" and l: "lookup faults n f s = (Inr rs, s')"
  have "lookup_rows n f (bucket_rows n f (stored_table s)) = Inr rs" "stored_table s' = stored_table s"
    using lookup_result [OF l] by simp_all
  then show "table_ok (stored_table s') \<and> contents (stored_table s') = contents (stored_table s) \<and> distinct rs \<and>
      set rs = {r \<in> contents (stored_table s). rec_namespace r = n \<and> rec_fingerprint r = f}"
    using decoded_bucket [of n f "stored_table s" rs] ok by (simp add: table_ok_def)
next
  fix s n f e s' assume "table_ok (stored_table s)" "lookup faults n f s = (Inl e, s')"
  then show "table_ok (stored_table s') \<and> contents (stored_table s') = contents (stored_table s)"
    using lookup_result [of faults n f s "Inl e" s'] by simp
qed

section \<open>Undisturbed operation\<close>

abbreviation no_faults :: "nat \<Rightarrow> sqlite_fault option" where
  "no_faults \<equiv> \<lambda>_. None"

text \<open>No two of these records differ and share a checksum; by injectivity of the preimage that is a statement about SHA-256.\<close>

definition checksums_separate :: "CacheRecord set \<Rightarrow> bool" where
  "checksums_separate A \<longleftrightarrow>
     (\<forall>r\<in>A. \<forall>s\<in>A. sha256 (record_preimage r) = sha256 (record_preimage s) \<longrightarrow> record_preimage r = record_preimage s)"

definition ready :: "SqliteSidecarIndex \<Rightarrow> bool" where
  "ready idx \<longleftrightarrow> \<not> si_closed idx \<and> db_pending (si_connection idx) = None \<and> table_ok (stored_table idx)"

lemma valid_schema_checks: "valid_sidecar_record r \<Longrightarrow> schema_checks (record_row r)"
  by (auto simp: valid_sidecar_record_def bounded_namespace_def schema_checks_def database_values_def Let_def blob_of_length_def
      int_between_def namespace_key_def er_checksum_sha encode_token_ids_def wf_fingerprint_def range_len_def)

lemma checksum_row_unique:
  assumes "table_ok t" "(i, row) \<in> set t" "row_checksum row = DbBlob b"
  shows "select_checksum b t = [row]"
proof -
  let ?g = "\<lambda>(i, row). row_checksum row" and ?hit = "\<lambda>(i, row). row_checksum row = DbBlob b"
  have inj: "inj_on ?g (set t)" and d: "distinct t" using assms(1) by (auto simp: table_ok_def distinct_map)
  have "x = (i, row)" if x: "x \<in> set t" "?hit x" for x
  proof (rule inj_onD [OF inj _ x(1) assms(2)])
    show "?g x = ?g (i, row)" using x(2) assms(3) by (cases x) simp
  qed
  then have "set (filter ?hit t) \<subseteq> {(i, row)}" unfolding set_filter by blast
  moreover have "(i, row) \<in> set (filter ?hit t)" using assms(2,3) by simp
  ultimately have "set (filter ?hit t) = {(i, row)}" by blast
  moreover have "distinct (filter ?hit t)" using d by simp
  moreover have "xs = [a]" if "distinct xs" "set xs = {a}" for xs and a :: "int \<times> SidecarRow"
  proof (cases xs)
    case (Cons y ys)
    then have ya: "y = a" "set ys \<subseteq> {a}" "a \<notin> set ys" using that by auto
    from ya(2,3) have "set ys = {}" by (cases ys) auto
    then show ?thesis using Cons ya(1) by simp
  qed (use that in simp)
  ultimately have "filter ?hit t = [(i, row)]" by blast
  then show ?thesis by (simp add: select_checksum_def)
qed

lemma insert_one_total:
  assumes "table_ok t" "valid_sidecar_record r" "checksums_separate (insert r (contents t))" "db_pending c = Some t"
  shows "\<exists>k c'. insert_one no_faults (encoded_record r) c = (Inr k, c')"
proof (cases "r \<in> contents t \<or> (\<exists>(i, old)\<in>set t. row_checksum old = row_checksum (record_row r))")
  case False
  then have "\<forall>(i, old)\<in>set t. row_checksum old \<noteq> row_checksum (record_row r)" by auto
  then have "fst (insert_or_ignore (record_row r) t) = 1" using valid_schema_checks [OF assms(2)] by (simp add: insert_or_ignore_def)
  then show ?thesis using assms(4)
    by (auto simp: insert_one_def run_stmt_def execute_def insert_stmt_def current_table_def split: prod.splits)
next
  case True
  then obtain i old where old: "(i, old) \<in> set t" "row_checksum old = row_checksum (record_row r)" by (auto simp: contents_def)
  obtain s where s: "valid_sidecar_record s" "old = record_row s" using assms(1) old(1) by (force simp: table_ok_def)
  have "s \<in> contents t" using s old(1) by (force simp: contents_def)
  moreover have "sha256 (record_preimage s) = sha256 (record_preimage r)"
    using old(2) s(2) by (simp add: record_row_fields er_checksum_sha)
  ultimately have "record_preimage s = record_preimage r" using assms(3) unfolding checksums_separate_def by blast
  then have sr: "s = r" using record_preimage_inj s(1) assms(2) by blast
  have "insert_or_ignore (record_row r) t = (0, t)" using old by (auto simp: insert_or_ignore_def)
  moreover have "select_checksum (er_checksum (encoded_record r)) t = [record_row r]"
    using checksum_row_unique [OF assms(1) old(1)] s(2) sr by (simp add: record_row_fields)
  moreover have "record_from_row (record_row r) (rec_namespace r) (rec_fingerprint r) = Inr r"
    using assms(2) by (simp add: record_from_row_Inr)
  ultimately show ?thesis using assms(4)
    by (simp add: insert_one_def run_stmt_def execute_def insert_stmt_def query_stmt_def current_table_def)
qed

lemma insert_all_total:
  assumes "table_ok t" "list_all valid_sidecar_record rs" "checksums_separate (set rs \<union> contents t)" "db_pending c = Some t"
  shows "\<exists>k c'. insert_all no_faults inserted (map encoded_record rs) c = (Inr k, c')"
  using assms
proof (induction rs arbitrary: t c inserted)
  case (Cons r rs)
  have v: "valid_sidecar_record r" and sep: "checksums_separate (insert r (contents t))"
    using Cons.prems by (auto simp: checksums_separate_def)
  obtain k c1 where one: "insert_one no_faults (encoded_record r) c = (Inr k, c1)"
    using insert_one_total [OF Cons.prems(1) v sep Cons.prems(4)] by blast
  from transactionalD [OF insert_one_transactional [OF v] Cons.prems(4) one]
  have c1: "db_pending c1 = Some (store_row t r)" "r \<in> contents (store_row t r)" by auto
  note st = store_row_ok [OF Cons.prems(1) v c1(2)]
  have "checksums_separate (set rs \<union> contents (store_row t r))" using Cons.prems(3) st(2) by (simp add: Un_commute)
  then show ?case using Cons.IH [OF st(1) _ _ c1(1)] Cons.prems(2) one by simp
qed simp

lemma begin_commit:
  assumes "db_pending c = None" "\<And>c. db_pending c \<noteq> None \<Longrightarrow> db_committed c = t \<Longrightarrow> db_pending c = Some t \<Longrightarrow> \<exists>x c'. body c = (Inr x, c') \<and> db_pending c' \<noteq> None"
    "db_committed c = t"
  shows "\<exists>x c'. transaction no_faults body c = (Inr x, c') \<and> db_pending c' = None"
proof -
  let ?c = "c\<lparr>db_clock := Suc (db_clock c), db_pending := Some t\<rparr>"
  obtain x c' where b: "body ?c = (Inr x, c')" "db_pending c' \<noteq> None" using assms(2) [of ?c] assms(3) by auto
  then show ?thesis using assms(1,3)
    by (auto simp: transaction_def run_stmt_def execute_def begin_stmt_def commit_stmt_def split: option.splits)
qed

lemma add_many_total:
  assumes "ready idx" "si_mode idx = WORKER_READ_WRITE" "valid_batch rs" "checksums_separate (set rs \<union> contents (stored_table idx))"
  shows "\<exists>k idx'. add_many no_faults rs idx = (Inr k, idx') \<and> ready idx' \<and> si_mode idx' = WORKER_READ_WRITE"
proof -
  let ?t = "stored_table idx" and ?body = "insert_all no_faults 0 (map encoded_record rs)"
  have r: "\<not> si_closed idx" "db_pending (si_connection idx) = None" "table_ok ?t" using assms(1) by (simp_all add: ready_def)
  have v: "list_all valid_sidecar_record rs" using assms(3) by (simp add: valid_batch_def)
  have "\<exists>x c'. ?body c = (Inr x, c') \<and> db_pending c' \<noteq> None" if p: "db_pending c = Some ?t" for c
  proof -
    obtain k c' where k: "?body c = (Inr k, c')" using insert_all_total [OF r(3) v assms(4) p] by blast
    from transactionalD [OF insert_all_transactional [OF v] p k] k show ?thesis by auto
  qed
  then obtain k c where k: "transaction no_faults ?body (si_connection idx) = (Inr k, c)" "db_pending c = None"
    using begin_commit [OF r(2), of ?t ?body] by auto
  have e: "encode_batch 0 0 rs = Inr (map encoded_record rs)" using assms(3) encode_batch_valid by simp
  let ?idx = "idx\<lparr>si_connection := c\<rparr>"
  have a: "add_many no_faults rs idx = (Inr k, ?idx)" using r(1) assms(2) e k(1) by (simp add: add_many_def translated_def)
  moreover have "table_ok (stored_table ?idx)" using sqlite_store.put_returns [OF r(3) a] by blast
  ultimately show ?thesis using r(1) assms(2) k(2) by (auto simp: ready_def)
qed

lemma bucket_decodes:
  assumes "table_ok t" "bounded_namespace n"
    "\<forall>r\<in>contents t. namespace_key (rec_namespace r) = namespace_key n \<longrightarrow> namespace_key_preimage (rec_namespace r) = namespace_key_preimage n"
    "card {r \<in> contents t. rec_namespace r = n \<and> rec_fingerprint r = f} \<le> MAX_COLLISION_BUCKET_RECORDS"
  shows "\<exists>rs. lookup_rows n f (bucket_rows n f t) = Inr rs"
proof -
  let ?sel = "\<lambda>(i, row). row_namespace_key row = DbBlob (namespace_key n) \<and> row_fingerprint row = DbBlob (digest f)"
  let ?B = "{r \<in> contents t. rec_namespace r = n \<and> rec_fingerprint r = f}"
  have hit: "\<exists>r\<in>?B. row = record_row r" if h: "(i, row) \<in> set t" "?sel (i, row)" for i row
  proof -
    obtain r where r: "valid_sidecar_record r" "row = record_row r" using assms(1) h(1) by (force simp: table_ok_def)
    then have rc: "r \<in> contents t" using h(1) by (force simp: contents_def)
    have "namespace_key (rec_namespace r) = namespace_key n" "digest (rec_fingerprint r) = digest f"
      using h(2) r(2) by (auto simp: record_row_fields)
    then have "rec_namespace r = n" "rec_fingerprint r = f"
      using assms(2,3) rc r(1) namespace_key_inj [of "rec_namespace r" n] by (auto simp: valid_sidecar_record_def)
    then show ?thesis using r(2) rc by blast
  qed
  have "length (bucket_rows n f t) \<le> length (filter ?sel t)" by (simp add: bucket_rows_def select_bucket_def)
  also have "\<dots> = length (map snd (filter ?sel t))" by simp
  also have "\<dots> = card (set (map snd (filter ?sel t)))"
  proof -
    have "distinct (map row_checksum (map snd t))" using assms(1) by (simp add: table_ok_def split_def o_def)
    then have "distinct (map snd t)" by (simp only: distinct_map)
    then show ?thesis by (intro distinct_card [symmetric] distinct_map_filter)
  qed
  also have "\<dots> \<le> card (record_row ` ?B)"
  proof (rule card_mono)
    show "finite (record_row ` ?B)" using finite_contents [of t] by simp
    show "set (map snd (filter ?sel t)) \<subseteq> record_row ` ?B" using hit by fastforce
  qed
  also have "\<dots> \<le> card ?B" using finite_contents [of t] by (intro card_image_le) simp
  finally have "length (bucket_rows n f t) \<le> MAX_COLLISION_BUCKET_RECORDS" using assms(4) by simp
  moreover have "\<forall>row\<in>set (bucket_rows n f t). record_from_row row n f = Inr (projr (record_from_row row n f))"
  proof
    fix row assume "row \<in> set (bucket_rows n f t)"
    then obtain i where "(i, row) \<in> set t" "?sel (i, row)" by (auto simp: bucket_rows_def select_bucket_def dest!: in_set_takeD)
    from hit [OF this] obtain r where "r \<in> ?B" "row = record_row r" by blast
    then have "record_from_row row n f = Inr r" by (auto simp: record_from_row_Inr contents_def)
    then show "record_from_row row n f = Inr (projr (record_from_row row n f))" by simp
  qed
  ultimately show ?thesis using rmap_total [of "bucket_rows n f t" "\<lambda>row. record_from_row row n f"] by (simp add: lookup_rows_def)
qed

lemma lookup_total:
  assumes "ready idx" "bounded_namespace n" "wf_fingerprint f"
    "\<forall>r\<in>contents (stored_table idx). namespace_key (rec_namespace r) = namespace_key n \<longrightarrow>
       namespace_key_preimage (rec_namespace r) = namespace_key_preimage n"
    "card {r \<in> contents (stored_table idx). rec_namespace r = n \<and> rec_fingerprint r = f} \<le> MAX_COLLISION_BUCKET_RECORDS"
  shows "\<exists>rs idx'. lookup no_faults n f idx = (Inr rs, idx') \<and> ready idx'"
proof -
  let ?t = "stored_table idx"
  let ?body = "run_stmt no_faults (query_stmt (select_bucket (namespace_key n) (digest f) (MAX_COLLISION_BUCKET_RECORDS + 1)))
                  (\<lambda>rows c. (map_sum SidecarRaise id (lookup_rows n f rows), c))"
  have r: "\<not> si_closed idx" "db_pending (si_connection idx) = None" "table_ok ?t" using assms(1) by (simp_all add: ready_def)
  obtain rs where rs: "lookup_rows n f (bucket_rows n f ?t) = Inr rs" using bucket_decodes [OF r(3) assms(2,4,5)] by blast
  have "\<exists>x c'. ?body c = (Inr x, c') \<and> db_pending c' \<noteq> None" if "db_pending c = Some ?t" for c
    using that rs by (simp add: run_stmt_def execute_def query_stmt_def current_table_def bucket_rows_def)
  then obtain x c where k: "transaction no_faults ?body (si_connection idx) = (Inr x, c)" "db_pending c = None"
    using begin_commit [OF r(2), of ?t ?body] by auto
  have "rbind (validate_sidecar_namespace n) (\<lambda>_. validate_sidecar_fingerprint f) = Inr ()"
    using assms(2,3) validate_sidecar_namespace_Inr [of n "()"] by (simp add: validate_sidecar_fingerprint_def wf_fingerprint_def)
  then have l: "lookup no_faults n f idx = (Inr x, idx\<lparr>si_connection := c\<rparr>)" using r(1) k(1) by (simp add: lookup_def translated_def)
  moreover have "table_ok (stored_table (idx\<lparr>si_connection := c\<rparr>))" using sqlite_store.fetch_returns [OF r(3) l] by blast
  ultimately show ?thesis using r(1) k(2) by (auto simp: ready_def)
qed

section \<open>Properties\<close>

definition empty_worker_index :: SqliteSidecarIndex where
  "empty_worker_index = \<lparr>si_mode = WORKER_READ_WRITE, si_closed = False,
     si_connection = \<lparr>db_committed = [], db_pending = None, db_clock = 0\<rparr>\<rparr>"

definition example_sidecar_record :: CacheRecord where
  "example_sidecar_record = \<lparr>rec_namespace = example_namespace, rec_fingerprint = \<lparr>digest = replicate 32 7\<rparr>, rec_token_ids = [5, 6],
     source_range = \<lparr>tr_start = 3, tr_end = 5\<rparr>, cache_key = ''k''\<rparr>"

lemma example_index:
  "ready empty_worker_index" "si_mode empty_worker_index = WORKER_READ_WRITE" "stored_table empty_worker_index = []" "contents [] = {}"
  by (simp_all add: ready_def empty_worker_index_def table_ok_def contents_def)

lemma example_bounded_namespace: "bounded_namespace example_namespace"
  by (simp add: bounded_namespace_def example_namespace_def canonical_fields_def has_NUL_def SIDECAR_NAMESPACE_FIELD_BYTES_def)

lemma example_valid: "valid_sidecar_record example_sidecar_record"
  using example_bounded_namespace
  by (simp add: valid_sidecar_record_def example_sidecar_record_def wf_fingerprint_def has_NUL_def MAX_CACHE_KEY_BYTES_def
      wf_tokens_def MAX_TOKEN_ID_def MAX_TOKENS_PER_RECORD_def MAX_TOKEN_POSITION_def range_len_def)

lemma example_batch: "valid_batch [example_sidecar_record]" "checksums_separate (set [example_sidecar_record] \<union> contents [])"
  using example_valid
  by (simp_all add: valid_batch_def checksums_separate_def example_index MAX_RECORDS_PER_TRANSACTION_def MAX_TOKENS_PER_TRANSACTION_def)
    (simp add: example_sidecar_record_def)

text \<open>
  C24. The index is a set of records, whatever fails: for every schedule of engine faults and every
  sequence of batch insertions and lookups on a table the program has written, a returned insertion
  put exactly its whole batch into the set and counted the new records, a raised one left the set as it
  was, and a returned lookup lists exactly the stored records of its namespace and fingerprint, each once.
\<close>

theorem sidecar_behaves_as_set:
  assumes "table_ok (stored_table idx)" "run_calls (add_many faults) (lookup faults) calls idx = (answers, idx')"
  shows "set_answers (contents (stored_table idx)) calls answers (contents (stored_table idx')) \<and> table_ok (stored_table idx')"
  using sqlite_store.runs_like_a_set [OF assms] .

theorem sidecar_behaves_as_set_witness:
  "\<exists>answers idx'. run_calls (add_many no_faults) (lookup no_faults)
      [Put [example_sidecar_record], Fetch example_namespace \<lparr>digest = replicate 32 7\<rparr>] empty_worker_index = (answers, idx') \<and>
     set_answers {} [Put [example_sidecar_record], Fetch example_namespace \<lparr>digest = replicate 32 7\<rparr>] answers (contents (stored_table idx'))"
proof -
  let ?calls = "[Put [example_sidecar_record], Fetch example_namespace \<lparr>digest = replicate 32 7\<rparr>]"
  obtain answers idx' where r: "run_calls (add_many no_faults) (lookup no_faults) ?calls empty_worker_index = (answers, idx')"
    by (cases "run_calls (add_many no_faults) (lookup no_faults) ?calls empty_worker_index")
  have "table_ok (stored_table empty_worker_index)" using example_index by (simp add: ready_def)
  from sidecar_behaves_as_set [OF this r] r show ?thesis by (simp add: example_index)
qed

text \<open>
  C25. The reader trusts no row: on any table whatever, also one changed behind the program's back, and
  under any faults, a lookup that returns lists, in the order of cache key and position, only valid
  records of the requested namespace and fingerprint, and every row of the bucket is the exact encoding
  of the record listed for it; one row that is not makes the lookup fail.
\<close>

theorem lookup_trusts_no_row:
  assumes "lookup faults n f idx = (Inr rs, idx')"
  shows "list_all (\<lambda>r. valid_sidecar_record r \<and> rec_namespace r = n \<and> rec_fingerprint r = f) rs \<and>
    map record_row rs = bucket_rows n f (stored_table idx) \<and> length rs \<le> 1024 \<and>
    {row \<in> snd ` set (stored_table idx). row_namespace_key row = DbBlob (namespace_key n) \<and> row_fingerprint row = DbBlob (digest f)} =
      record_row ` set rs \<and> stored_table idx' = stored_table idx"
proof -
  let ?t = "stored_table idx"
  have l: "lookup_rows n f (bucket_rows n f ?t) = Inr rs" "stored_table idx' = ?t" using lookup_result [OF assms] by simp_all
  then have len: "length (bucket_rows n f ?t) \<le> 1024" and
    l2: "list_all2 (\<lambda>row r. record_from_row row n f = Inr r) (bucket_rows n f ?t) rs"
    by (auto simp: lookup_rows_def rmap_Inr MAX_COLLISION_BUCKET_RECORDS_def split: if_splits)
  have rows: "map record_row rs = bucket_rows n f ?t" and
    each: "\<forall>r\<in>set rs. valid_sidecar_record r \<and> rec_namespace r = n \<and> rec_fingerprint r = f"
    using l2 by (auto simp: list_all2_conv_all_nth record_from_row_Inr in_set_conv_nth intro!: nth_equalityI)
  let ?sel = "\<lambda>(i, row). row_namespace_key row = DbBlob (namespace_key n) \<and> row_fingerprint row = DbBlob (digest f)"
  have "bucket_rows n f ?t = map snd (sort_key bucket_order (filter ?sel ?t))"
    using len by (simp add: bucket_rows_def select_bucket_def MAX_COLLISION_BUCKET_RECORDS_def)
  then have "set (bucket_rows n f ?t) = snd ` {x \<in> set ?t. ?sel x}" by simp
  moreover have "snd ` {x \<in> set ?t. ?sel x} = {row \<in> snd ` set ?t. row_namespace_key row = DbBlob (namespace_key n) \<and> row_fingerprint row = DbBlob (digest f)}"
    by force
  moreover have "set (bucket_rows n f ?t) = record_row ` set rs" unfolding rows [symmetric] by simp
  ultimately have "{row \<in> snd ` set ?t. row_namespace_key row = DbBlob (namespace_key n) \<and> row_fingerprint row = DbBlob (digest f)} =
      record_row ` set rs" by simp
  moreover have "length rs \<le> 1024" using len arg_cong [OF rows, of length] by simp
  ultimately show ?thesis using each rows l(2) unfolding list_all_iff by blast
qed

theorem lookup_trusts_no_row_witness:
  "\<exists>rs idx'. lookup no_faults example_namespace \<lparr>digest = replicate 32 7\<rparr> empty_worker_index = (Inr rs, idx') \<and>
     map record_row rs = bucket_rows example_namespace \<lparr>digest = replicate 32 7\<rparr> (stored_table empty_worker_index)"
proof -
  have "wf_fingerprint \<lparr>digest = replicate 32 7\<rparr>" by (simp add: wf_fingerprint_def)
  then obtain rs idx' where l: "lookup no_faults example_namespace \<lparr>digest = replicate 32 7\<rparr> empty_worker_index = (Inr rs, idx')"
    using lookup_total [OF example_index(1) example_bounded_namespace, of "\<lparr>digest = replicate 32 7\<rparr>"]
    by (fastforce simp: example_index)
  from lookup_trusts_no_row [OF l] l show ?thesis by blast
qed

text \<open>
  What is added is found: on an open worker index without engine faults a valid batch is accepted,
  and afterwards every record of it is listed by a lookup of its namespace and fingerprint, by this
  connection or by any other on the same table, unless SHA-256 collides or a bucket outgrows its limit.
\<close>

lemma added_records_are_found:
  assumes "ready idx" "si_mode idx = WORKER_READ_WRITE" "valid_batch rs"
    "checksums_separate (set rs \<union> contents (stored_table idx))"
  shows "\<exists>k idx'. add_many no_faults rs idx = (Inr k, idx') \<and> k = int (card (set rs - contents (stored_table idx))) \<and>
    (\<forall>r reader. r \<in> set rs \<longrightarrow> ready reader \<longrightarrow> stored_table reader = stored_table idx' \<longrightarrow>
       (\<forall>s\<in>contents (stored_table idx'). namespace_key (rec_namespace s) = namespace_key (rec_namespace r) \<longrightarrow>
          namespace_key_preimage (rec_namespace s) = namespace_key_preimage (rec_namespace r)) \<longrightarrow>
       card {s \<in> contents (stored_table idx'). rec_namespace s = rec_namespace r \<and> rec_fingerprint s = rec_fingerprint r} \<le> 1024 \<longrightarrow>
       (\<exists>found reader'. lookup no_faults (rec_namespace r) (rec_fingerprint r) reader = (Inr found, reader') \<and> r \<in> set found))"
proof -
  obtain k idx' where a: "add_many no_faults rs idx = (Inr k, idx')" using add_many_total [OF assms] by blast
  have "table_ok (stored_table idx)" using assms(1) by (simp add: ready_def)
  note put = sqlite_store.put_returns [OF this a]
  have "\<exists>found reader'. lookup no_faults (rec_namespace r) (rec_fingerprint r) reader = (Inr found, reader') \<and> r \<in> set found"
    if h: "r \<in> set rs" "ready reader" "stored_table reader = stored_table idx'"
      "\<forall>s\<in>contents (stored_table idx'). namespace_key (rec_namespace s) = namespace_key (rec_namespace r) \<longrightarrow>
          namespace_key_preimage (rec_namespace s) = namespace_key_preimage (rec_namespace r)"
      "card {s \<in> contents (stored_table idx'). rec_namespace s = rec_namespace r \<and> rec_fingerprint s = rec_fingerprint r} \<le> 1024" for r reader
  proof -
    have v: "valid_sidecar_record r" using assms(3) h(1) by (simp add: valid_batch_def list_all_iff)
    then obtain found reader' where l: "lookup no_faults (rec_namespace r) (rec_fingerprint r) reader = (Inr found, reader')"
      using lookup_total [OF h(2), of "rec_namespace r" "rec_fingerprint r"] h(3-5)
      by (auto simp: valid_sidecar_record_def MAX_COLLISION_BUCKET_RECORDS_def)
    have "table_ok (stored_table reader)" using h(2) by (simp add: ready_def)
    from sqlite_store.fetch_returns [OF this l] show ?thesis using l h(1,3) put by auto
  qed
  then show ?thesis using a put by (intro exI [of _ k] exI [of _ idx'] conjI allI impI) blast+
qed

lemma added_records_are_found_witness:
  "\<exists>k idx'. add_many no_faults [example_sidecar_record] empty_worker_index = (Inr k, idx') \<and> k = 1"
  using added_records_are_found [OF example_index(1,2) example_batch(1)] example_batch(2) by (auto simp: example_index)

end
