(* ===== verification/LmcacheTypes.thy ===== *)
theory LmcacheTypes
  imports Matching
begin

text \<open>
  \<^verbatim>\<open>storage/lmcache_types.py\<close>: the value objects of the LMCache transport and their validation.
  An exception is its class (the message carries no decision); \<open>LmcacheRaise\<close> is a built-in
  exception the source does not convert.  Strings are their UTF-8 bytes, so \<^verbatim>\<open>len(s.encode())\<close>
  is \<open>length\<close>.
\<close>

section \<open>Constants and errors\<close>

datatype lmcache_error = LmcacheConfigurationError | LmcacheProtocolError | LmcacheRaise py_error

datatype LmcacheTransportState = CREATED | READY | REGISTERED | FAILED | CLOSED

definition LMCACHE_VERSION :: string where
  "LMCACHE_VERSION = ''0.4.3''"

definition LMCACHE_SOURCE_COMMIT :: string where
  "LMCACHE_SOURCE_COMMIT = ''7f326118a2f1afc7801988dd02e3055bdf21ef6b''"

definition LMCACHE_BLEND_PROTOCOL :: string where
  "LMCACHE_BLEND_PROTOCOL = ''multiprocess-blend-v2''"

definition LMCACHE_HASH_ALGORITHM :: string where
  "LMCACHE_HASH_ALGORITHM = ''blake3''"

definition LMCACHE_CHUNK_SIZE :: int where
  "LMCACHE_CHUNK_SIZE = 256"

definition LMCACHE_CACHE_KEY_PREFIX :: string where
  "LMCACHE_CACHE_KEY_PREFIX = ''lmcache:0.4.3:blake3:''"

definition STORAGE_NAMESPACE_DOMAIN :: "byte list" where
  "STORAGE_NAMESPACE_DOMAIN = encode_utf8 (''cacheblend-gpt-oss'' @ [CHR 0x00] @ ''lmcache-storage-namespace'' @
     [CHR 0x00] @ ''v1'' @ [CHR 0x00])"

definition QUERY_DOMAIN :: "byte list" where
  "QUERY_DOMAIN = encode_utf8 (''cacheblend-gpt-oss'' @ [CHR 0x00] @ ''lmcache-query'' @
     [CHR 0x00] @ ''v1'' @ [CHR 0x00])"

definition MAX_NAMESPACE_FIELD_BYTES :: nat where
  "MAX_NAMESPACE_FIELD_BYTES = 1024"

definition MAX_REQUEST_ID_BYTES :: nat where
  "MAX_REQUEST_ID_BYTES = 256"

definition MAX_EVENT_HANDLE_BYTES :: nat where
  "MAX_EVENT_HANDLE_BYTES = 16 * 1024"

definition require_plain_int :: "pyval \<Rightarrow> int \<Rightarrow> lmcache_error + unit" where
  "require_plain_int v minimum =
     (if \<not> is_plain_int v then Inl LmcacheConfigurationError
      else if the_int v < minimum then Inl LmcacheConfigurationError else Inr ())"

definition require_receipt_int :: "pyval \<Rightarrow> lmcache_error + unit" where
  "require_receipt_int v = (if \<not> nonneg_int v then Inl LmcacheProtocolError else Inr ())"

section \<open>Server attestation and client configuration\<close>

record LmcacheServerAttestation =
  at_lmcache_version :: string
  at_source_commit :: string
  at_protocol :: string
  at_hash_algorithm :: string

definition LmcacheServerAttestation_init ::
    "string \<Rightarrow> string \<Rightarrow> string \<Rightarrow> string \<Rightarrow> lmcache_error + LmcacheServerAttestation" where
  "LmcacheServerAttestation_init version commit protocol algorithm =
     (if \<exists>v\<in>set [version, commit, protocol, algorithm]. v = [] \<or> has_NUL v then Inl LmcacheConfigurationError
      else Inr \<lparr>at_lmcache_version = version, at_source_commit = commit, at_protocol = protocol,
                at_hash_algorithm = algorithm\<rparr>)"

definition attestation_validate :: "LmcacheServerAttestation \<Rightarrow> lmcache_error + unit" where
  "attestation_validate a =
     (if \<exists>(expected, observed)\<in>set [(LMCACHE_VERSION, at_lmcache_version a), (LMCACHE_SOURCE_COMMIT, at_source_commit a),
            (LMCACHE_BLEND_PROTOCOL, at_protocol a), (LMCACHE_HASH_ALGORITHM, at_hash_algorithm a)]. observed \<noteq> expected
      then Inl LmcacheConfigurationError else Inr ())"

definition validate_namespace :: "CacheNamespace \<Rightarrow> lmcache_error + unit" where
  "validate_namespace n =
     (if schema_version n \<noteq> 1 then Inl LmcacheConfigurationError
      else if \<exists>(expected, observed)\<in>set
          [(rt_model_id PINNED_TARGET, model_id n), (rt_model_id PINNED_TARGET, tokenizer_id n),
           (rt_vllm_version PINNED_TARGET, vllm_version n), (rt_lmcache_version PINNED_TARGET, lmcache_version n),
           (rt_torch_version PINNED_TARGET, torch_version n), (rt_cuda_runtime PINNED_TARGET, cuda_runtime n)].
          observed \<noteq> expected
      then Inl LmcacheConfigurationError
      else if \<exists>(name, v)\<in>set (canonical_fields n). length v > MAX_NAMESPACE_FIELD_BYTES
      then Inl LmcacheConfigurationError else Inr ())"

record LmcacheBlendTransportConfig =
  cf_namespace :: CacheNamespace
  cf_server_attestation :: LmcacheServerAttestation
  cf_world_size :: int
  cf_worker_id :: int
  cf_chunk_size :: int
  cf_request_timeout_seconds :: pyfloat

definition LmcacheBlendTransportConfig_init ::
    "CacheNamespace \<Rightarrow> LmcacheServerAttestation \<Rightarrow> pyval \<Rightarrow> pyval \<Rightarrow> pyval \<Rightarrow> pyval \<Rightarrow>
     lmcache_error + LmcacheBlendTransportConfig" where
  "LmcacheBlendTransportConfig_init n a world_size worker_id chunk_size timeout =
     rbind (attestation_validate a) (\<lambda>_. rbind (validate_namespace n) (\<lambda>_.
     rbind (require_plain_int world_size 1) (\<lambda>_. rbind (require_plain_int worker_id 0) (\<lambda>_.
     rbind (require_plain_int chunk_size 1) (\<lambda>_.
       if the_int world_size \<noteq> 1 \<or> the_int worker_id \<noteq> 0 then Inl LmcacheConfigurationError
       else if the_int chunk_size \<noteq> LMCACHE_CHUNK_SIZE then Inl LmcacheConfigurationError
       else
         case timeout of
           PBool _ \<Rightarrow> Inl LmcacheConfigurationError
         | PStr _ \<Rightarrow> Inl LmcacheConfigurationError
         | PNone \<Rightarrow> Inl LmcacheConfigurationError
         | POther _ \<Rightarrow> Inl LmcacheConfigurationError
         | _ \<Rightarrow>
             (case py_float timeout of
                Inl e \<Rightarrow> Inl (LmcacheRaise e)
              | Inr f \<Rightarrow>
                  if \<not> float_finite f \<or> float_negative f \<or> f = Finite 0 then Inl LmcacheConfigurationError
                  else Inr \<lparr>cf_namespace = n, cf_server_attestation = a, cf_world_size = the_int world_size,
                            cf_worker_id = the_int worker_id, cf_chunk_size = the_int chunk_size,
                            cf_request_timeout_seconds = f\<rparr>))))))"

text \<open>\<^verbatim>\<open>hexdigest\<close> and \<^verbatim>\<open>bytes.hex\<close>: two lower-case digits per byte.\<close>

definition hex_digit :: "nat \<Rightarrow> char" where
  "hex_digit d = ''0123456789abcdef'' ! d"

definition hex :: "byte list \<Rightarrow> string" where
  "hex bs = concat (map (\<lambda>b. [hex_digit (unat b div 16), hex_digit (unat b mod 16)]) bs)"

definition storage_preimage :: "LmcacheBlendTransportConfig \<Rightarrow> byte list" where
  "storage_preimage c =
     STORAGE_NAMESPACE_DOMAIN @ field_bytes (canonical_fields (cf_namespace c)) @
     length_prefix (encode_utf8 (py_str_int (cf_world_size c))) @
     length_prefix (encode_utf8 (py_str_int (cf_chunk_size c))) @
     length_prefix (encode_utf8 (at_protocol (cf_server_attestation c))) @
     length_prefix (encode_utf8 (at_hash_algorithm (cf_server_attestation c)))"

definition storage_model_name :: "LmcacheBlendTransportConfig \<Rightarrow> string" where
  "storage_model_name c = rt_model_id PINNED_TARGET @ ''#cacheblend-v1-'' @ hex (sha256 (storage_preimage c))"

section \<open>Staging\<close>

record LmcacheStagingLayout =
  st_layer_count :: int
  st_token_capacity :: int
  st_kv_width :: int
  st_dtype_name :: string

definition LmcacheStagingLayout_init ::
    "pyval \<Rightarrow> pyval \<Rightarrow> pyval \<Rightarrow> string \<Rightarrow> lmcache_error + LmcacheStagingLayout" where
  "LmcacheStagingLayout_init layer_count token_capacity kv_width dtype_name =
     rbind (require_plain_int layer_count 1) (\<lambda>_. rbind (require_plain_int token_capacity 1) (\<lambda>_.
     rbind (require_plain_int kv_width 1) (\<lambda>_.
       if dtype_name = [] \<or> has_NUL dtype_name \<or> length dtype_name > 128 then Inl LmcacheConfigurationError
       else if the_int token_capacity < LMCACHE_CHUNK_SIZE then Inl LmcacheConfigurationError
       else Inr \<lparr>st_layer_count = the_int layer_count, st_token_capacity = the_int token_capacity,
                 st_kv_width = the_int kv_width, st_dtype_name = dtype_name\<rparr>)))"

definition staging_shape :: "LmcacheStagingLayout \<Rightarrow> int \<times> int \<times> int \<times> int" where
  "staging_shape s = (2, st_layer_count s, st_token_capacity s, st_kv_width s)"

record 'o LmcacheStagingRegistration =
  sr_instance_id :: int
  sr_kv_cache_payload :: "'o list"
  sr_layout :: LmcacheStagingLayout

definition LmcacheStagingRegistration_init ::
    "pyval \<Rightarrow> 'o list \<Rightarrow> LmcacheStagingLayout \<Rightarrow> lmcache_error + 'o LmcacheStagingRegistration" where
  "LmcacheStagingRegistration_init instance_id payload layout =
     rbind (require_plain_int instance_id 0) (\<lambda>_.
       if length payload \<noteq> 1 then Inl LmcacheConfigurationError
       else Inr \<lparr>sr_instance_id = the_int instance_id, sr_kv_cache_payload = payload, sr_layout = layout\<rparr>)"

section \<open>Candidates\<close>

record LmcacheCandidate =
  lc_source_relative_range :: TokenRange
  lc_target_range :: TokenRange
  lc_storage_hash :: "byte list"
  lc_storage_model_name :: string
  lc_query_digest :: "byte list"

definition LmcacheCandidate_init ::
    "TokenRange \<Rightarrow> TokenRange \<Rightarrow> byte list \<Rightarrow> string \<Rightarrow> byte list \<Rightarrow> lmcache_error + LmcacheCandidate" where
  "LmcacheCandidate_init src tgt storage_hash model_name query =
     (if range_len src = 0 \<or> range_len tgt = 0 then Inl LmcacheProtocolError
      else if range_len src \<noteq> range_len tgt then Inl LmcacheProtocolError
      else if length storage_hash \<noteq> 32 then Inl LmcacheProtocolError
      else if model_name = [] \<or> has_NUL model_name then Inl LmcacheProtocolError
      else if length query \<noteq> 32 then Inl LmcacheProtocolError
      else Inr \<lparr>lc_source_relative_range = src, lc_target_range = tgt, lc_storage_hash = storage_hash,
                lc_storage_model_name = model_name, lc_query_digest = query\<rparr>)"

definition lc_cache_key :: "LmcacheCandidate \<Rightarrow> string" where
  "lc_cache_key c = LMCACHE_CACHE_KEY_PREFIX @ hex (lc_storage_hash c)"

record VerifiedLmcacheCandidate =
  vc_candidate :: LmcacheCandidate
  vc_match :: VerifiedMatch

definition VerifiedLmcacheCandidate_bind ::
    "LmcacheCandidate \<Rightarrow> VerifiedMatch \<Rightarrow> CacheNamespace \<Rightarrow> lmcache_error + VerifiedLmcacheCandidate" where
  "VerifiedLmcacheCandidate_bind c m expected_namespace =
     (let r = vm_record m; target = vm_target m;
          expected_fingerprint = SHA256_FINGERPRINTER expected_namespace (token_ids target) in
      if rec_namespace r \<noteq> expected_namespace then Inl LmcacheProtocolError
      else if lc_target_range c \<noteq> token_range target then Inl LmcacheProtocolError
      else if lc_cache_key c \<noteq> cache_key r then Inl LmcacheProtocolError
      else if rec_token_ids r \<noteq> token_ids target then Inl LmcacheProtocolError
      else if query_fingerprint (vm_candidate m) \<noteq> expected_fingerprint \<or> rec_fingerprint r \<noteq> expected_fingerprint
      then Inl LmcacheProtocolError
      else if range_len (lc_target_range c) \<noteq> segment_len target then Inl LmcacheProtocolError
      else Inr \<lparr>vc_candidate = c, vc_match = m\<rparr>)"

section \<open>Receipts\<close>

record LmcacheStoreReceipt =
  rc_stored_tokens :: int
  rc_stored_chunks :: int
  rc_candidate_lookup_required :: bool
  rc_sidecar_records :: "CacheRecord list"

fun check_sidecar_records ::
    "int option \<Rightarrow> CacheNamespace option \<Rightarrow> CacheRecord list \<Rightarrow> lmcache_error + unit" where
  "check_sidecar_records previous_end ns [] = Inr ()"
| "check_sidecar_records previous_end ns (r # rs) =
     (if int (length (rec_token_ids r)) \<noteq> LMCACHE_CHUNK_SIZE then Inl LmcacheProtocolError
      else if (case previous_end of None \<Rightarrow> False | Some e \<Rightarrow> tr_start (source_range r) \<noteq> e)
      then Inl LmcacheProtocolError
      else if (case ns of None \<Rightarrow> False | Some n \<Rightarrow> rec_namespace r \<noteq> n) then Inl LmcacheProtocolError
      else if rec_fingerprint r \<noteq> SHA256_FINGERPRINTER (rec_namespace r) (rec_token_ids r)
      then Inl LmcacheProtocolError
      else check_sidecar_records (Some (tr_end (source_range r))) (Some (rec_namespace r)) rs)"

definition LmcacheStoreReceipt_init ::
    "pyval \<Rightarrow> pyval \<Rightarrow> bool \<Rightarrow> CacheRecord list \<Rightarrow> lmcache_error + LmcacheStoreReceipt" where
  "LmcacheStoreReceipt_init stored_tokens stored_chunks lookup_required records =
     rbind (require_receipt_int stored_tokens) (\<lambda>_. rbind (require_receipt_int stored_chunks) (\<lambda>_.
       let receipt = \<lparr>rc_stored_tokens = the_int stored_tokens, rc_stored_chunks = the_int stored_chunks,
                      rc_candidate_lookup_required = lookup_required, rc_sidecar_records = records\<rparr> in
       if the_int stored_tokens \<noteq> the_int stored_chunks * LMCACHE_CHUNK_SIZE then Inl LmcacheProtocolError
       else if \<not> lookup_required then (if records \<noteq> [] then Inl LmcacheProtocolError else Inr receipt)
       else if int (length records) \<noteq> the_int stored_chunks then Inl LmcacheProtocolError
       else rbind (check_sidecar_records None None records) (\<lambda>_. Inr receipt)))"

record LmcacheRetrieveReceipt =
  rr_retrieved_tokens :: int
  rr_retrieved_chunks :: int

definition LmcacheRetrieveReceipt_init :: "pyval \<Rightarrow> pyval \<Rightarrow> lmcache_error + LmcacheRetrieveReceipt" where
  "LmcacheRetrieveReceipt_init tokens chunks =
     rbind (require_receipt_int tokens) (\<lambda>_. rbind (require_receipt_int chunks) (\<lambda>_.
       Inr \<lparr>rr_retrieved_tokens = the_int tokens, rr_retrieved_chunks = the_int chunks\<rparr>))"

section \<open>Wire helpers\<close>

definition query_preimage :: "int list \<Rightarrow> byte list" where
  "query_preimage ts = QUERY_DOMAIN @ u64be (int (length ts)) @ concat (map u64be ts)"

definition query_digest :: "pyval list \<Rightarrow> py_error + byte list" where
  "query_digest vs = rbind (normalize_token_ids vs) (\<lambda>ts. Inr (sha256 (query_preimage ts)))"

definition validate_request_id :: "string \<Rightarrow> lmcache_error + unit" where
  "validate_request_id i =
     (if i = [] then Inl LmcacheConfigurationError
      else if length i > MAX_REQUEST_ID_BYTES then Inl LmcacheConfigurationError else Inr ())"

definition validate_event_handle :: "byte list \<Rightarrow> lmcache_error + unit" where
  "validate_event_handle h =
     (if h = [] then Inl LmcacheConfigurationError
      else if length h > MAX_EVENT_HANDLE_BYTES then Inl LmcacheConfigurationError else Inr ())"

definition validate_buffer_range :: "pyval \<Rightarrow> pyval \<Rightarrow> pyval \<Rightarrow> lmcache_error + unit" where
  "validate_buffer_range s len capacity =
     rbind (require_plain_int s 0) (\<lambda>_. rbind (require_plain_int len 0) (\<lambda>_.
     rbind (require_plain_int capacity 0) (\<lambda>_.
       if the_int s + the_int len > the_int capacity then Inl LmcacheConfigurationError else Inr ())))"

section \<open>Lemmas\<close>

lemma require_plain_int_Inr: "require_plain_int v m = Inr () \<longleftrightarrow> (\<exists>n. v = PInt n \<and> m \<le> n)"
  by (cases v) (auto simp: require_plain_int_def)

lemma require_receipt_int_Inr: "require_receipt_int v = Inr () \<longleftrightarrow> (\<exists>n. v = PInt n \<and> 0 \<le> n)"
  by (cases v) (auto simp: require_receipt_int_def)

lemma unit_rbind_eq_Inr: "rbind r f = Inr y \<longleftrightarrow> r = Inr () \<and> f () = Inr y" for r :: "'e + unit"
  by (cases r) auto

lemma hex_digit_inj: "i < 16 \<Longrightarrow> j < 16 \<Longrightarrow> hex_digit i = hex_digit j \<longleftrightarrow> i = j"
  unfolding hex_digit_def by (subst nth_eq_iff_index_eq) simp_all

lemma hex_inj: "hex a = hex b \<Longrightarrow> a = b"
proof (induction a b rule: list_induct2')
  case (4 x xs y ys)
  have b: "unat z div 16 < 16" "unat z mod 16 < 16" for z :: byte
  proof -
    have "unat z < 2 ^ LENGTH(8)" by (rule unsigned_less)
    then show "unat z div 16 < 16" by (simp add: less_mult_imp_div_less)
  qed simp
  have "unat x div 16 = unat y div 16" "unat x mod 16 = unat y mod 16" "hex xs = hex ys"
    using "4.prems" b by (simp_all add: hex_def hex_digit_inj)
  then have "unat x = unat y" by (metis div_mult_mod_eq)
  then show ?case using "4.IH" \<open>hex xs = hex ys\<close> by (simp add: word_unat_eq_iff)
qed (auto simp: hex_def)

lemma check_sidecar_records_Inr:
  "check_sidecar_records e n rs = Inr () \<longleftrightarrow>
     list_all (\<lambda>r. int (length (rec_token_ids r)) = LMCACHE_CHUNK_SIZE \<and>
       rec_fingerprint r = SHA256_FINGERPRINTER (rec_namespace r) (rec_token_ids r)) rs \<and>
     successively (\<lambda>r s. tr_end (source_range r) = tr_start (source_range s) \<and> rec_namespace r = rec_namespace s) rs \<and>
     (case (rs, e) of (r # _, Some k) \<Rightarrow> tr_start (source_range r) = k | _ \<Rightarrow> True) \<and>
     (case (rs, n) of (r # _, Some m) \<Rightarrow> rec_namespace r = m | _ \<Rightarrow> True)"
proof (induction e n rs rule: check_sidecar_records.induct)
  case (2 e n r rs)
  then show ?case by (cases rs) (auto split: option.splits)
qed (auto split: option.splits)

lemma validate_namespace_Inr:
  "validate_namespace n = Inr () \<longleftrightarrow> schema_version n = 1 \<and> model_id n = rt_model_id PINNED_TARGET \<and>
     tokenizer_id n = rt_model_id PINNED_TARGET \<and> vllm_version n = rt_vllm_version PINNED_TARGET \<and>
     lmcache_version n = rt_lmcache_version PINNED_TARGET \<and> torch_version n = rt_torch_version PINNED_TARGET \<and>
     cuda_runtime n = rt_cuda_runtime PINNED_TARGET \<and>
     list_all (\<lambda>(name, v). length v \<le> MAX_NAMESPACE_FIELD_BYTES) (canonical_fields n)"
proof -
  have "(\<exists>(name, v)\<in>set fs. length v > b) \<longleftrightarrow> \<not> list_all (\<lambda>(name, v). length v \<le> b) fs" for fs :: "(string \<times> string) list" and b
    by (force simp: list_all_iff)
  then show ?thesis by (auto simp: validate_namespace_def)
qed

lemma attestation_validate_Inr:
  "attestation_validate a = Inr () \<longleftrightarrow> a = \<lparr>at_lmcache_version = LMCACHE_VERSION,
     at_source_commit = LMCACHE_SOURCE_COMMIT, at_protocol = LMCACHE_BLEND_PROTOCOL,
     at_hash_algorithm = LMCACHE_HASH_ALGORITHM\<rparr>"
  by (cases a) (auto simp: attestation_validate_def)

text \<open>A positive finite timeout.\<close>

fun valid_timeout :: "pyval \<Rightarrow> bool" where
  "valid_timeout (PInt n) = (0 < n \<and> n < 2 ^ 1024 - 2 ^ 970)"
| "valid_timeout (PFloat (Finite r)) = (0 < r)"
| "valid_timeout _ = False"

lemma py_float_timeout:
  assumes "is_plain_int t \<or> (\<exists>x. t = PFloat x)"
  shows "(\<exists>f. py_float t = Inr f \<and> \<not> (\<not> float_finite f \<or> float_negative f \<or> f = Finite 0)) \<longleftrightarrow> valid_timeout t"
proof (cases t)
  case (PFloat x)
  then show ?thesis by (cases x) (auto simp: py_float_def)
qed (use assms in \<open>auto simp: py_float_def round_double_int_sign\<close>)

lemma config_init_Inr:
  "(\<exists>c. LmcacheBlendTransportConfig_init n a w i k t = Inr c) \<longleftrightarrow>
     attestation_validate a = Inr () \<and> validate_namespace n = Inr () \<and> w = PInt 1 \<and> i = PInt 0 \<and>
     k = PInt LMCACHE_CHUNK_SIZE \<and> valid_timeout t"
proof (cases "attestation_validate a = Inr () \<and> validate_namespace n = Inr () \<and> w = PInt 1 \<and> i = PInt 0 \<and>
     k = PInt LMCACHE_CHUNK_SIZE")
  case False
  then show ?thesis
    by (cases w; cases i; cases k)
      (auto simp: LmcacheBlendTransportConfig_init_def unit_rbind_eq_Inr require_plain_int_Inr)
next
  case True
  then have c: "attestation_validate a = Inr ()" "validate_namespace n = Inr ()" "w = PInt 1" "i = PInt 0"
    "k = PInt 256" by (simp_all add: LMCACHE_CHUNK_SIZE_def)
  show ?thesis
  proof (cases "is_plain_int t \<or> (\<exists>x. t = PFloat x)")
    case True
    then show ?thesis using c py_float_timeout [OF True]
      by (cases t) (auto simp: LmcacheBlendTransportConfig_init_def require_plain_int_def LMCACHE_CHUNK_SIZE_def
          split: sum.splits if_splits)
  next
    case False
    then show ?thesis using c
      by (cases t) (auto simp: LmcacheBlendTransportConfig_init_def require_plain_int_def LMCACHE_CHUNK_SIZE_def)
  qed
qed

lemma config_init_fields:
  "LmcacheBlendTransportConfig_init n a w i k t = Inr c \<Longrightarrow> cf_namespace c = n \<and> cf_server_attestation c = a \<and>
     cf_world_size c = 1 \<and> cf_worker_id c = 0 \<and> cf_chunk_size c = LMCACHE_CHUNK_SIZE"
  by (auto simp: LmcacheBlendTransportConfig_init_def unit_rbind_eq_Inr split: if_splits pyval.splits sum.splits)

lemma storage_preimage_inj:
  assumes "storage_preimage c = storage_preimage d" "wf_namespace (cf_namespace c)" "wf_namespace (cf_namespace d)"
    "sized_namespace (cf_namespace c)" "sized_namespace (cf_namespace d)"
  shows "cf_namespace c = cf_namespace d"
proof -
  have "map fst (canonical_fields (cf_namespace c)) = map fst (canonical_fields (cf_namespace d))"
    "\<forall>(k, v)\<in>set (canonical_fields (cf_namespace c)). length k < 2 ^ 64 \<and> length v < 2 ^ 64"
    using assms(4) by (simp_all add: canonical_fields_def sized_namespace_def)
  then have "canonical_fields (cf_namespace c) = canonical_fields (cf_namespace d)"
    using assms(1,5) field_bytes_inj [of "canonical_fields (cf_namespace c)" _ "canonical_fields (cf_namespace d)"]
    unfolding storage_preimage_def sized_namespace_def by blast
  then show ?thesis using canonical_fields_inj assms(2,3) by blast
qed

lemma validated_namespace_sized: "validate_namespace n = Inr () \<Longrightarrow> sized_namespace n"
  by (force simp: validate_namespace_Inr sized_namespace_def list_all_iff MAX_NAMESPACE_FIELD_BYTES_def)

lemma bind_Inr:
  "VerifiedLmcacheCandidate_bind c m n = Inr v \<longleftrightarrow> v = \<lparr>vc_candidate = c, vc_match = m\<rparr> \<and>
     rec_namespace (vm_record m) = n \<and> lc_target_range c = token_range (vm_target m) \<and>
     lc_cache_key c = cache_key (vm_record m) \<and> rec_token_ids (vm_record m) = token_ids (vm_target m) \<and>
     query_fingerprint (vm_candidate m) = SHA256_FINGERPRINTER n (token_ids (vm_target m)) \<and>
     rec_fingerprint (vm_record m) = SHA256_FINGERPRINTER n (token_ids (vm_target m)) \<and>
     range_len (lc_target_range c) = segment_len (vm_target m)"
  unfolding VerifiedLmcacheCandidate_bind_def Let_def by (auto split: if_splits)

section \<open>Properties\<close>

text \<open>
  A client configuration is accepted exactly for the audited deployment: the attested server
  identity is the pinned one field by field, the namespace is pinned and bounded, one worker of
  rank zero, chunks of 256 tokens and a finite positive timeout.
\<close>

lemma transport_config_exact:
  "(\<exists>c. LmcacheBlendTransportConfig_init n a world worker chunk timeout = Inr c) \<longleftrightarrow>
     a = \<lparr>at_lmcache_version = ''0.4.3'', at_source_commit = LMCACHE_SOURCE_COMMIT,
          at_protocol = ''multiprocess-blend-v2'', at_hash_algorithm = ''blake3''\<rparr> \<and>
     schema_version n = 1 \<and> model_id n = ''openai/gpt-oss-20b'' \<and> tokenizer_id n = ''openai/gpt-oss-20b'' \<and>
     vllm_version n = ''0.19.1'' \<and> lmcache_version n = ''0.4.3'' \<and> torch_version n = ''2.10.0+cu128'' \<and>
     cuda_runtime n = ''12.8'' \<and> list_all (\<lambda>(name, v). length v \<le> 1024) (canonical_fields n) \<and>
     world = PInt 1 \<and> worker = PInt 0 \<and> chunk = PInt 256 \<and> valid_timeout timeout"
  unfolding config_init_Inr attestation_validate_Inr validate_namespace_Inr
  by (simp add: PINNED_TARGET_def LMCACHE_VERSION_def LMCACHE_BLEND_PROTOCOL_def LMCACHE_HASH_ALGORITHM_def
      MAX_NAMESPACE_FIELD_BYTES_def LMCACHE_CHUNK_SIZE_def)

text \<open>
  Storage separation: two accepted configurations that are given the same LMCache model name
  have the same digest of their naming preimage, and equal preimages come from equal namespaces; so
  caches of different namespaces share a storage name only through a SHA-256 collision.
\<close>

lemma storage_name_separates:
  assumes "LmcacheBlendTransportConfig_init m a w i k t = Inr c" "LmcacheBlendTransportConfig_init n a' w' i' k' t' = Inr d"
    "wf_namespace m" "wf_namespace n"
  shows "(storage_model_name c = storage_model_name d \<longrightarrow> sha256 (storage_preimage c) = sha256 (storage_preimage d)) \<and>
    (storage_preimage c = storage_preimage d \<longrightarrow> m = n)"
proof -
  have v: "validate_namespace m = Inr ()" "validate_namespace n = Inr ()" using assms(1,2) config_init_Inr by blast+
  have f: "cf_namespace c = m" "cf_namespace d = n" using config_init_fields assms(1,2) by blast+
  then show ?thesis
    using storage_preimage_inj [of c d] assms(3,4) validated_namespace_sized v hex_inj
    by (auto simp: storage_model_name_def)
qed

definition example_attestation :: LmcacheServerAttestation where
  "example_attestation = \<lparr>at_lmcache_version = LMCACHE_VERSION, at_source_commit = LMCACHE_SOURCE_COMMIT,
     at_protocol = LMCACHE_BLEND_PROTOCOL, at_hash_algorithm = LMCACHE_HASH_ALGORITHM\<rparr>"

lemma example_config: "\<exists>c. LmcacheBlendTransportConfig_init example_namespace example_attestation (PInt 1) (PInt 0) (PInt 256)
    (PFloat (Finite 10)) = Inr c"
  unfolding config_init_Inr attestation_validate_Inr validate_namespace_Inr
  by (simp add: example_attestation_def example_namespace_def PINNED_TARGET_def MAX_NAMESPACE_FIELD_BYTES_def
      LMCACHE_CHUNK_SIZE_def canonical_fields_def py_str_int_def nat_decimal.simps)

lemma storage_name_separates_witness:
  "\<exists>c. LmcacheBlendTransportConfig_init example_namespace example_attestation (PInt 1) (PInt 0) (PInt 256)
    (PFloat (Finite 10)) = Inr c \<and> (storage_preimage c = storage_preimage c \<longrightarrow> example_namespace = example_namespace)"
  using example_config storage_name_separates [where m = example_namespace and n = example_namespace]
    wf_example_namespace by blast

text \<open>
  A store receipt that publishes sidecar records publishes one record of exactly 256 tokens per
  stored chunk; the records share a namespace, their fingerprints are those of their tokens, and
  their source ranges tile one contiguous range of as many tokens as were stored.
\<close>

lemma store_receipt_contiguous:
  assumes "LmcacheStoreReceipt_init tokens chunks True records = Inr r" "list_all wf_record records" "i < length records"
  shows "rc_stored_tokens r = 256 * int (length records) \<and> length (rec_token_ids (records ! i)) = 256 \<and>
    rec_namespace (records ! i) = rec_namespace (hd records) \<and>
    rec_fingerprint (records ! i) = SHA256_FINGERPRINTER (rec_namespace (hd records)) (rec_token_ids (records ! i)) \<and>
    tr_start (source_range (records ! i)) = tr_start (source_range (hd records)) + 256 * int i \<and>
    tr_end (source_range (records ! i)) = tr_start (source_range (hd records)) + 256 * int (Suc i)"
proof -
  have r: "check_sidecar_records None None records = Inr ()" "rc_stored_tokens r = 256 * int (length records)"
    using assms(1) by (auto simp: LmcacheStoreReceipt_init_def unit_rbind_eq_Inr Let_def LMCACHE_CHUNK_SIZE_def
        split: if_splits)
  have all: "list_all (\<lambda>r. length (rec_token_ids r) = 256 \<and>
       rec_fingerprint r = SHA256_FINGERPRINTER (rec_namespace r) (rec_token_ids r)) records"
    and succ: "successively (\<lambda>r s. tr_end (source_range r) = tr_start (source_range s) \<and> rec_namespace r = rec_namespace s) records"
    using r(1) by (auto simp: check_sidecar_records_Inr LMCACHE_CHUNK_SIZE_def list_all_iff)
  have len: "tr_end (source_range (records ! k)) = tr_start (source_range (records ! k)) + 256" if "k < length records" for k
    using that all assms(2) by (auto simp: list_all_length wf_record_def range_len_def)
  have "rec_namespace (records ! i) = rec_namespace (hd records) \<and>
      tr_start (source_range (records ! i)) = tr_start (source_range (hd records)) + 256 * int i"
    using assms(3)
  proof (induction i)
    case 0
    then show ?case by (simp add: hd_conv_nth)
  next
    case (Suc k)
    then have "tr_end (source_range (records ! k)) = tr_start (source_range (records ! Suc k))"
      "rec_namespace (records ! k) = rec_namespace (records ! Suc k)"
      using succ by (auto simp: successively_conv_nth)
    then show ?case using Suc len [of k] by simp
  qed
  then show ?thesis using r(2) all len [OF assms(3)] assms(3) by (auto simp: list_all_length)
qed

definition example_chunk :: CacheRecord where
  "example_chunk = \<lparr>rec_namespace = example_namespace,
     rec_fingerprint = SHA256_FINGERPRINTER example_namespace (replicate 256 5), rec_token_ids = replicate 256 5,
     source_range = \<lparr>tr_start = 512, tr_end = 768\<rparr>, cache_key = ''k''\<rparr>"

lemma store_receipt_contiguous_witness:
  "\<exists>r. LmcacheStoreReceipt_init (PInt 256) (PInt 1) True [example_chunk] = Inr r \<and> rc_stored_tokens r = 256 \<and>
     tr_end (source_range ([example_chunk] ! 0)) = tr_start (source_range (hd [example_chunk])) + 256"
proof -
  obtain r where r: "LmcacheStoreReceipt_init (PInt 256) (PInt 1) True [example_chunk] = Inr r"
    by (simp add: LmcacheStoreReceipt_init_def require_receipt_int_def example_chunk_def LMCACHE_CHUNK_SIZE_def)
  moreover have "list_all wf_record [example_chunk]"
    by (simp add: example_chunk_def wf_record_def wf_tokens_def MAX_TOKEN_ID_def range_len_def)
  ultimately show ?thesis using store_receipt_contiguous [of "PInt 256" "PInt 1" "[example_chunk]" r 0] by auto
qed

end
