(* ===== verification/Lookup.thy ===== *)
theory Lookup
  imports LmcacheTypes
begin

text \<open>
  \<^verbatim>\<open>storage/lookup.py\<close>: the coordinator that turns untrusted LMCache candidates into
  verified ones.  Every candidate is checked against the current prompt, looked up in the sidecar by
  this project's own fingerprint, required to name the record's cache key and compared token by
  token; then weighted interval scheduling chooses a conflict-free subset and every other candidate
  is rejected with a reason.  The sidecar is an argument of the definitions: it may raise, and it may
  return objects that are not records (\<open>None\<close>), and so may the candidate list.  The bucket cache of a
  call is threaded through the loop; \<open>candidate_outcome_cached\<close> shows it changes no outcome, which
  gives the description \<open>lookup_plan_Inr\<close> of a plan the properties rest on.
\<close>

section \<open>Error codes, reasons and values\<close>

datatype LmcacheLookupErrorCode =
  INVALID_PROMPT_TOKENS | INVALID_CANDIDATE | TARGET_RANGE_OUT_OF_BOUNDS | SIDECAR_LOOKUP_FAILED
| INVALID_SIDECAR_RESPONSE | BINDING_INVARIANT_FAILED | ACCOUNTING_INVARIANT_FAILED

text \<open>What a call may raise: its own error, or one that a constructor raised and nothing caught.\<close>

datatype lookup_error =
  LmcacheLookupError LmcacheLookupErrorCode | LookupRaise py_error | LookupTransport lmcache_error

datatype LmcacheCandidateRejectionReason =
  STALE_QUERY | NO_SIDECAR_RECORD | CACHE_KEY_MISMATCH | NAMESPACE_MISMATCH | FINGERPRINT_MISMATCH
| TOKEN_MISMATCH | SOURCE_POSITION_AMBIGUOUS | DUPLICATE_CANDIDATE | OVERLAPS_SELECTED_CANDIDATE

fun reason_value :: "LmcacheCandidateRejectionReason \<Rightarrow> string" where
  "reason_value STALE_QUERY = ''stale_query''"
| "reason_value NO_SIDECAR_RECORD = ''no_sidecar_record''"
| "reason_value CACHE_KEY_MISMATCH = ''cache_key_mismatch''"
| "reason_value NAMESPACE_MISMATCH = ''namespace_mismatch''"
| "reason_value FINGERPRINT_MISMATCH = ''fingerprint_mismatch''"
| "reason_value TOKEN_MISMATCH = ''token_mismatch''"
| "reason_value SOURCE_POSITION_AMBIGUOUS = ''source_position_ambiguous''"
| "reason_value DUPLICATE_CANDIDATE = ''duplicate_candidate''"
| "reason_value OVERLAPS_SELECTED_CANDIDATE = ''overlaps_selected_candidate''"

text \<open>
  \<^verbatim>\<open>_VERIFICATION_REASON_PRIORITY\<close>; only the three listed reasons reach the table, so
  the value of the others plays no part.
\<close>

fun reason_priority :: "LmcacheCandidateRejectionReason \<Rightarrow> nat" where
  "reason_priority NAMESPACE_MISMATCH = 0"
| "reason_priority FINGERPRINT_MISMATCH = 1"
| "reason_priority TOKEN_MISMATCH = 2"
| "reason_priority _ = 3"

definition FOUND_REJECTION_REASONS :: "LmcacheCandidateRejectionReason list" where
  "FOUND_REJECTION_REASONS =
     [NAMESPACE_MISMATCH, FINGERPRINT_MISMATCH, TOKEN_MISMATCH, SOURCE_POSITION_AMBIGUOUS,
      DUPLICATE_CANDIDATE, OVERLAPS_SELECTED_CANDIDATE]"

record RejectedLmcacheCandidate =
  rl_candidate :: LmcacheCandidate
  rl_reason :: LmcacheCandidateRejectionReason

record LmcacheLookupCounters =
  raw_candidates :: int
  raw_candidate_tokens :: int
  found_candidates :: int
  found_candidate_tokens :: int
  verified_candidates :: int
  verified_candidate_tokens :: int
  rejected_candidates_count :: int
  rejected_candidate_tokens :: int

definition LmcacheLookupCounters_init :: "LmcacheLookupCounters \<Rightarrow> lookup_error + LmcacheLookupCounters" where
  "LmcacheLookupCounters_init c =
     (if \<exists>v\<in>set [raw_candidates c, raw_candidate_tokens c, found_candidates c, found_candidate_tokens c,
          verified_candidates c, verified_candidate_tokens c, rejected_candidates_count c,
          rejected_candidate_tokens c]. v < 0
      then Inl (LmcacheLookupError ACCOUNTING_INVARIANT_FAILED)
      else if raw_candidates c \<noteq> verified_candidates c + rejected_candidates_count c
      then Inl (LmcacheLookupError ACCOUNTING_INVARIANT_FAILED)
      else if raw_candidate_tokens c \<noteq> verified_candidate_tokens c + rejected_candidate_tokens c
      then Inl (LmcacheLookupError ACCOUNTING_INVARIANT_FAILED)
      else if found_candidates c > raw_candidates c then Inl (LmcacheLookupError ACCOUNTING_INVARIANT_FAILED)
      else if found_candidate_tokens c > raw_candidate_tokens c
      then Inl (LmcacheLookupError ACCOUNTING_INVARIANT_FAILED)
      else if verified_candidates c > found_candidates c then Inl (LmcacheLookupError ACCOUNTING_INVARIANT_FAILED)
      else if verified_candidate_tokens c > found_candidate_tokens c
      then Inl (LmcacheLookupError ACCOUNTING_INVARIANT_FAILED)
      else Inr c)"

record LmcacheLookupPlan =
  lp_verified :: "VerifiedLmcacheCandidate list"
  lp_rejected :: "RejectedLmcacheCandidate list"
  lp_counters :: LmcacheLookupCounters

definition found_target_token_count :: "LmcacheLookupPlan \<Rightarrow> int" where
  "found_target_token_count p =
     covered_range_count
       (map (\<lambda>v. lc_target_range (vc_candidate v)) (lp_verified p) @
        map (\<lambda>r. lc_target_range (rl_candidate r))
          (filter (\<lambda>r. rl_reason r \<in> set FOUND_REJECTION_REASONS) (lp_rejected p)))"

record PotentialCandidate =
  pc_raw_index :: nat
  pc_verified :: VerifiedLmcacheCandidate

abbreviation pc_candidate :: "PotentialCandidate \<Rightarrow> LmcacheCandidate" where
  "pc_candidate p \<equiv> vc_candidate (pc_verified p)"

section \<open>Orders and selection\<close>

definition lookup_candidate_sort_key ::
    "LmcacheCandidate \<Rightarrow> int \<times> int \<times> string \<times> int \<times> int \<times> string \<times> byte list" where
  "lookup_candidate_sort_key c =
     (tr_start (lc_target_range c), tr_end (lc_target_range c), lc_cache_key c,
      tr_start (lc_source_relative_range c), tr_end (lc_source_relative_range c),
      lc_storage_model_name c, lc_query_digest c)"

definition verified_sort_key ::
    "VerifiedLmcacheCandidate \<Rightarrow> (int \<times> int \<times> string \<times> int \<times> int \<times> string \<times> byte list) \<times> int \<times> int" where
  "verified_sort_key v =
     (lookup_candidate_sort_key (vc_candidate v), tr_start (source_range (vm_record (vc_match v))),
      tr_end (source_range (vm_record (vc_match v))))"

definition potential_sort_key ::
    "PotentialCandidate \<Rightarrow> (int \<times> int \<times> string \<times> int \<times> int \<times> string \<times> byte list) \<times> int \<times> int \<times> nat" where
  "potential_sort_key p =
     (lookup_candidate_sort_key (pc_candidate p), tr_start (source_range (vm_record (vc_match (pc_verified p)))),
      tr_end (source_range (vm_record (vc_match (pc_verified p)))), pc_raw_index p)"

definition lookup_record_sort_key ::
    "CacheRecord \<Rightarrow> string \<times> int \<times> int \<times> byte list \<times> int list \<times> (string \<times> string) list" where
  "lookup_record_sort_key r =
     (cache_key r, tr_start (source_range r), tr_end (source_range r), digest (rec_fingerprint r),
      rec_token_ids r, canonical_fields (rec_namespace r))"

definition select_potentials :: "PotentialCandidate list \<Rightarrow> nat list" where
  "select_potentials =
     select_intervals (\<lambda>p. lc_target_range (pc_candidate p)) (\<lambda>p. range_len (lc_target_range (pc_candidate p)))
       potential_sort_key"

section \<open>Verification of one candidate\<close>

definition verify_record ::
    "CacheNamespace \<Rightarrow> TokenSegment \<Rightarrow> SegmentFingerprint \<Rightarrow> CacheRecord \<Rightarrow> LmcacheCandidateRejectionReason option"
where
  "verify_record n seg f r =
     (if rec_namespace r \<noteq> n then Some NAMESPACE_MISMATCH
      else if rec_fingerprint r \<noteq> f then Some FINGERPRINT_MISMATCH
      else if rec_token_ids r \<noteq> token_ids seg then Some TOKEN_MISMATCH
      else if SHA256_FINGERPRINTER (rec_namespace r) (rec_token_ids r) \<noteq> rec_fingerprint r
      then Some FINGERPRINT_MISMATCH
      else None)"

type_synonym 'e sidecar = "CacheNamespace \<Rightarrow> SegmentFingerprint \<Rightarrow> 'e + CacheRecord option list"

type_synonym bucket_cache = "SegmentFingerprint \<rightharpoonup> CacheRecord list"

definition lookup_bucket :: "'e sidecar \<Rightarrow> CacheNamespace \<Rightarrow> SegmentFingerprint \<Rightarrow> lookup_error + CacheRecord list" where
  "lookup_bucket lookup n f =
     (case lookup n f of
        Inl _ \<Rightarrow> Inl (LmcacheLookupError SIDECAR_LOOKUP_FAILED)
      | Inr response \<Rightarrow>
          if None \<in> set response then Inl (LmcacheLookupError INVALID_SIDECAR_RESPONSE)
          else Inr (sort_key lookup_record_sort_key (map the response)))"

definition cached_bucket ::
    "'e sidecar \<Rightarrow> CacheNamespace \<Rightarrow> SegmentFingerprint \<Rightarrow> bucket_cache \<Rightarrow>
     lookup_error + CacheRecord list \<times> bucket_cache" where
  "cached_bucket lookup n f cache =
     (case cache f of
        Some bucket \<Rightarrow> Inr (bucket, cache)
      | None \<Rightarrow> rbind (lookup_bucket lookup n f) (\<lambda>bucket. Inr (bucket, cache(f \<mapsto> bucket))))"

text \<open>The record a bound bucket yields, or the reason to reject the candidate.\<close>

definition choose_record ::
    "CacheNamespace \<Rightarrow> TokenSegment \<Rightarrow> SegmentFingerprint \<Rightarrow> CacheRecord list \<Rightarrow>
     LmcacheCandidateRejectionReason + CacheRecord" where
  "choose_record n seg f bound =
     (let valid = filter (\<lambda>r. verify_record n seg f r = None) bound;
          invalid = List.map_filter (verify_record n seg f) bound
      in if valid = [] then Inl (hd (sort_key reason_priority invalid))
         else if card (set (map source_range valid)) \<noteq> 1 then Inl SOURCE_POSITION_AMBIGUOUS
         else Inr (hd (sort_key lookup_record_sort_key valid)))"

definition prompt_slice :: "int list \<Rightarrow> TokenRange \<Rightarrow> int list" where
  "prompt_slice prompt r = take (nat (tr_end r) - nat (tr_start r)) (drop (nat (tr_start r)) prompt)"

text \<open>
  The body of the candidate loop: the new cache, whether the candidate counts as found, and either
  the reason it is rejected for or the verified candidate.
\<close>

definition candidate_outcome ::
    "'e sidecar \<Rightarrow> CacheNamespace \<Rightarrow> int list \<Rightarrow> byte list \<Rightarrow> bucket_cache \<Rightarrow> LmcacheCandidate \<Rightarrow>
     lookup_error + bucket_cache \<times> bool \<times> (LmcacheCandidateRejectionReason + VerifiedLmcacheCandidate)" where
  "candidate_outcome lookup n prompt expected_query_digest cache c =
     (if tr_end (lc_target_range c) > int (length prompt)
      then Inl (LmcacheLookupError TARGET_RANGE_OUT_OF_BOUNDS)
      else if lc_query_digest c \<noteq> expected_query_digest then Inr (cache, False, Inl STALE_QUERY)
      else case TokenSegment_init (lc_target_range c) (map PInt (prompt_slice prompt (lc_target_range c))) of
        Inl e \<Rightarrow> Inl (LookupRaise e)
      | Inr seg \<Rightarrow>
          let f = SHA256_FINGERPRINTER n (token_ids seg) in
          rbind (cached_bucket lookup n f cache) (\<lambda>(bucket, cache).
            if bucket = [] then Inr (cache, False, Inl NO_SIDECAR_RECORD)
            else
              let bound = filter (\<lambda>r. cache_key r = lc_cache_key c) bucket in
              if bound = [] then Inr (cache, False, Inl CACHE_KEY_MISMATCH)
              else
                case choose_record n seg f bound of
                  Inl reason \<Rightarrow> Inr (cache, True, Inl reason)
                | Inr r \<Rightarrow>
                    (case VerifiedLmcacheCandidate_bind c
                        \<lparr>vm_candidate = \<lparr>target_segment = seg, query_fingerprint = f, cm_record = r\<rparr>\<rparr> n of
                       Inl LmcacheProtocolError \<Rightarrow> Inl (LmcacheLookupError BINDING_INVARIANT_FAILED)
                     | Inl e \<Rightarrow> Inl (LookupTransport e)
                     | Inr v \<Rightarrow> Inr (cache, True, Inr v))))"

section \<open>The plan\<close>

record LookupLoop =
  ll_cache :: bucket_cache
  ll_potentials :: "PotentialCandidate list"
  ll_rejected :: "(nat \<times> RejectedLmcacheCandidate) list"
  ll_found :: "nat set"

definition record_outcome ::
    "nat \<Rightarrow> LmcacheCandidate \<Rightarrow> bool \<Rightarrow> LmcacheCandidateRejectionReason + VerifiedLmcacheCandidate \<Rightarrow>
     LookupLoop \<Rightarrow> LookupLoop" where
  "record_outcome i c found result st =
     (let st = (if found then st\<lparr>ll_found := insert i (ll_found st)\<rparr> else st) in
      case result of
        Inl reason \<Rightarrow>
          st\<lparr>ll_rejected := ll_rejected st @ [(i, \<lparr>rl_candidate = c, rl_reason = reason\<rparr>)]\<rparr>
      | Inr v \<Rightarrow> st\<lparr>ll_potentials := ll_potentials st @ [\<lparr>pc_raw_index = i, pc_verified = v\<rparr>]\<rparr>)"

fun lookup_loop ::
    "'e sidecar \<Rightarrow> CacheNamespace \<Rightarrow> int list \<Rightarrow> byte list \<Rightarrow> LookupLoop \<Rightarrow> (nat \<times> LmcacheCandidate) list \<Rightarrow>
     lookup_error + LookupLoop" where
  "lookup_loop lookup n prompt d st [] = Inr st"
| "lookup_loop lookup n prompt d st ((i, c) # rest) =
     rbind (candidate_outcome lookup n prompt d (ll_cache st) c) (\<lambda>(cache, found, result).
       lookup_loop lookup n prompt d (record_outcome i c found result (st\<lparr>ll_cache := cache\<rparr>)) rest)"

definition select_verified :: "PotentialCandidate list \<Rightarrow> nat set \<Rightarrow> VerifiedLmcacheCandidate list" where
  "select_verified potentials selected_indexes =
     sort_key verified_sort_key
       (map (\<lambda>(i, p). pc_verified p) (filter (\<lambda>(i, p). i \<in> selected_indexes) (List.enumerate 0 potentials)))"

definition unselected_rejections ::
    "PotentialCandidate list \<Rightarrow> nat set \<Rightarrow> LmcacheCandidate list \<Rightarrow> (nat \<times> RejectedLmcacheCandidate) list" where
  "unselected_rejections potentials selected_indexes selected_candidates =
     map (\<lambda>(i, p). (pc_raw_index p,
         \<lparr>rl_candidate = pc_candidate p,
          rl_reason = (if pc_candidate p \<in> set selected_candidates then DUPLICATE_CANDIDATE
                       else OVERLAPS_SELECTED_CANDIDATE)\<rparr>))
       (filter (\<lambda>(i, p). i \<notin> selected_indexes) (List.enumerate 0 potentials))"

definition order_rejections :: "(nat \<times> RejectedLmcacheCandidate) list \<Rightarrow> RejectedLmcacheCandidate list" where
  "order_rejections rejected =
     map snd (sort_key (\<lambda>(i, r). (lookup_candidate_sort_key (rl_candidate r), reason_value (rl_reason r), i)) rejected)"

definition finish_lookup :: "LmcacheCandidate list \<Rightarrow> LookupLoop \<Rightarrow> lookup_error + LmcacheLookupPlan" where
  "finish_lookup raw st =
     (let selected_indexes = set (select_potentials (ll_potentials st));
          selected = select_verified (ll_potentials st) selected_indexes;
          rejected = ll_rejected st @
            unselected_rejections (ll_potentials st) selected_indexes (map vc_candidate selected);
          ordered = order_rejections rejected
      in rbind (LmcacheLookupCounters_init
          \<lparr>raw_candidates = int (length raw),
           raw_candidate_tokens = sum_list (map (\<lambda>c. range_len (lc_target_range c)) raw),
           found_candidates = int (card (ll_found st)),
           found_candidate_tokens = (\<Sum>i\<in>ll_found st. range_len (lc_target_range (raw ! i))),
           verified_candidates = int (length selected),
           verified_candidate_tokens = sum_list (map (\<lambda>v. range_len (lc_target_range (vc_candidate v))) selected),
           rejected_candidates_count = int (length ordered),
           rejected_candidate_tokens = sum_list (map (\<lambda>r. range_len (lc_target_range (rl_candidate r))) ordered)\<rparr>)
        (\<lambda>counters. Inr \<lparr>lp_verified = selected, lp_rejected = ordered, lp_counters = counters\<rparr>))"

definition lookup_plan ::
    "'e sidecar \<Rightarrow> pyval list \<Rightarrow> CacheNamespace \<Rightarrow> LmcacheCandidate option list \<Rightarrow> lookup_error + LmcacheLookupPlan" where
  "lookup_plan lookup prompt_token_ids n candidates =
     (case normalize_token_ids prompt_token_ids of
        Inl _ \<Rightarrow> Inl (LmcacheLookupError INVALID_PROMPT_TOKENS)
      | Inr prompt \<Rightarrow>
          if None \<in> set candidates then Inl (LmcacheLookupError INVALID_CANDIDATE)
          else case query_digest (map PInt prompt) of
            Inl e \<Rightarrow> Inl (LookupRaise e)
          | Inr d \<Rightarrow>
              let raw = map the candidates in
              rbind (lookup_loop lookup n prompt d
                  \<lparr>ll_cache = Map.empty, ll_potentials = [], ll_rejected = [], ll_found = {}\<rparr> (List.enumerate 0 raw))
                (finish_lookup raw))"


section \<open>What a candidate must satisfy\<close>

definition wf_lmcache_candidate :: "LmcacheCandidate \<Rightarrow> bool" where
  [wf_simps]: "wf_lmcache_candidate c \<longleftrightarrow> wf_range (lc_target_range c) \<and> 0 < range_len (lc_target_range c)"

text \<open>The records of a response that describe exactly the candidate's slice of the prompt.\<close>

definition exact_records ::
    "CacheNamespace \<Rightarrow> int list \<Rightarrow> LmcacheCandidate \<Rightarrow> CacheRecord option list \<Rightarrow> CacheRecord set" where
  "exact_records n prompt c response =
     {r. Some r \<in> set response \<and> cache_key r = lc_cache_key c \<and> rec_namespace r = n \<and>
         rec_token_ids r = prompt_slice prompt (lc_target_range c) \<and>
         rec_fingerprint r = SHA256_FINGERPRINTER n (prompt_slice prompt (lc_target_range c))}"

abbreviation fresh :: "int list \<Rightarrow> LmcacheCandidate \<Rightarrow> bool" where
  "fresh prompt c \<equiv> lc_query_digest c = sha256 (query_preimage prompt)"

abbreviation slice_lookup :: "'e sidecar \<Rightarrow> CacheNamespace \<Rightarrow> int list \<Rightarrow> LmcacheCandidate \<Rightarrow> 'e + CacheRecord option list" where
  "slice_lookup lookup n prompt c \<equiv> lookup n (SHA256_FINGERPRINTER n (prompt_slice prompt (lc_target_range c)))"

text \<open>A candidate the plan may use: fresh, with exact records that agree on one source range.\<close>

definition bindable :: "'e sidecar \<Rightarrow> CacheNamespace \<Rightarrow> int list \<Rightarrow> LmcacheCandidate \<Rightarrow> bool" where
  "bindable lookup n prompt c \<longleftrightarrow> fresh prompt c \<and>
     (\<exists>rs. slice_lookup lookup n prompt c = Inr rs \<and>
        (\<exists>R. source_range ` exact_records n prompt c rs = {R}))"

text \<open>The outcome of a candidate examined on its own.\<close>

definition outcome ::
    "'e sidecar \<Rightarrow> CacheNamespace \<Rightarrow> int list \<Rightarrow> LmcacheCandidate \<Rightarrow>
     lookup_error + bool \<times> (LmcacheCandidateRejectionReason + VerifiedLmcacheCandidate)" where
  "outcome lookup n prompt c =
     rbind (candidate_outcome lookup n prompt (sha256 (query_preimage prompt)) Map.empty c) (\<lambda>(_, r). Inr r)"

definition cache_ok :: "'e sidecar \<Rightarrow> CacheNamespace \<Rightarrow> bucket_cache \<Rightarrow> bool" where
  "cache_ok lookup n cache \<longleftrightarrow> (\<forall>f b. cache f = Some b \<longrightarrow> lookup_bucket lookup n f = Inr b)"

section \<open>Lemmas on one candidate\<close>

lemma length_prompt_slice:
  "wf_range r \<Longrightarrow> tr_end r \<le> int (length prompt) \<Longrightarrow> int (length (prompt_slice prompt r)) = range_len r"
  by (auto simp: prompt_slice_def wf_range_def range_len_def)

lemma wf_prompt_slice: "wf_tokens prompt \<Longrightarrow> wf_tokens (prompt_slice prompt r)"
  by (auto simp: prompt_slice_def wf_tokens_def dest!: in_set_takeD in_set_dropD)

lemma slice_segment:
  assumes "wf_tokens prompt" "wf_lmcache_candidate c" "tr_end (lc_target_range c) \<le> int (length prompt)"
  shows "TokenSegment_init (lc_target_range c) (map PInt (prompt_slice prompt (lc_target_range c))) =
    Inr \<lparr>token_range = lc_target_range c, token_ids = prompt_slice prompt (lc_target_range c)\<rparr>"
  using assms length_prompt_slice [of "lc_target_range c" prompt] wf_prompt_slice [of prompt]
  by (auto simp: TokenSegment_init_Inr wf_lmcache_candidate_def)

lemma verify_record_None:
  "verify_record n seg f r = None \<longleftrightarrow> rec_namespace r = n \<and> rec_token_ids r = token_ids seg \<and>
     rec_fingerprint r = f \<and> SHA256_FINGERPRINTER n (token_ids seg) = f"
  by (auto simp: verify_record_def)

lemma lookup_bucket_Inr:
  "lookup_bucket lookup n f = Inr b \<longleftrightarrow>
     (\<exists>rs. lookup n f = Inr rs \<and> None \<notin> set rs \<and> b = sort_key lookup_record_sort_key (map the rs))"
  by (auto simp: lookup_bucket_def split: sum.splits)

lemma set_the_map: "None \<notin> set xs \<Longrightarrow> r \<in> set (map the xs) \<longleftrightarrow> Some r \<in> set xs"
  by (induction xs) auto

text \<open>The filtered bucket holds exactly the exact records, and the cheapest of them is chosen.\<close>

lemma valid_records:
  assumes "None \<notin> set rs" "f = SHA256_FINGERPRINTER n (token_ids seg)"
    "token_ids seg = prompt_slice prompt (lc_target_range c)"
  shows "set (filter (\<lambda>r. verify_record n seg f r = None) (filter (\<lambda>r. cache_key r = lc_cache_key c)
      (sort_key lookup_record_sort_key (map the rs)))) = exact_records n prompt c rs"
  using set_the_map [OF assms(1)] assms(2,3) by (auto simp: exact_records_def verify_record_None)

lemma choose_record_Inr:
  assumes "set (filter (\<lambda>r. verify_record n seg f r = None) bound) = E"
  shows "choose_record n seg f bound = Inr r \<Longrightarrow> r \<in> E \<and> source_range ` E = {source_range r}"
    and "source_range ` E = {R} \<Longrightarrow> \<exists>r. choose_record n seg f bound = Inr r"
proof -
  let ?v = "filter (\<lambda>r. verify_record n seg f r = None) bound"
  have h: "?v \<noteq> [] \<Longrightarrow> hd (sort_key lookup_record_sort_key ?v) \<in> E"
    using assms by (metis hd_in_set set_sort sort_key_eq_Nil)
  show "r \<in> E \<and> source_range ` E = {source_range r}" if c: "choose_record n seg f bound = Inr r"
  proof -
    have v: "?v \<noteq> []" and card: "card (source_range ` E) = 1" and r: "r = hd (sort_key lookup_record_sort_key ?v)"
      using c unfolding choose_record_def Let_def assms [symmetric] by (auto split: if_splits)
    then have "r \<in> E" using h by simp
    moreover from card obtain R where "source_range ` E = {R}" by (auto simp: card_1_singleton_iff)
    ultimately show ?thesis by (metis image_eqI singletonD)
  qed
  show "\<exists>r. choose_record n seg f bound = Inr r" if R: "source_range ` E = {R}"
  proof -
    have "?v \<noteq> []" using R assms by (metis image_empty insert_not_empty list.set(1))
    moreover have "set (map source_range ?v) = {R}" using R assms by simp
    then have "card (set (map source_range ?v)) = 1" by simp
    ultimately show ?thesis unfolding choose_record_def Let_def by (simp del: set_map)
  qed
qed

lemma cached_bucket_ok:
  assumes "cache_ok lookup n cache"
  shows "cached_bucket lookup n f cache = rbind (lookup_bucket lookup n f) (\<lambda>b. Inr (b, cache(f \<mapsto> b)))"
  using assms by (cases "cache f") (auto simp: cached_bucket_def cache_ok_def map_upd_triv)


text \<open>The bucket cache changes no outcome.\<close>

lemma candidate_outcome_cached:
  assumes "cache_ok lookup n cache"
  obtains cache' where "cache_ok lookup n cache'"
    "candidate_outcome lookup n prompt (sha256 (query_preimage prompt)) cache c =
       rbind (outcome lookup n prompt c) (\<lambda>r. Inr (cache', r))"
proof -
  have e: "cache_ok lookup n Map.empty" by (simp add: cache_ok_def)
  show thesis
  proof (cases "TokenSegment_init (lc_target_range c) (map PInt (prompt_slice prompt (lc_target_range c)))")
    case (Inl e)
    then show thesis using that [OF assms] by (simp add: outcome_def candidate_outcome_def)
  next
    case (Inr seg)
    let ?f = "SHA256_FINGERPRINTER n (token_ids seg)"
    show thesis
    proof (cases "tr_end (lc_target_range c) \<le> int (length prompt) \<and> fresh prompt c")
      case False
      then show thesis using that [OF assms] by (auto simp: outcome_def candidate_outcome_def)
    next
      case True
      show thesis
      proof (cases "lookup_bucket lookup n ?f")
        case Inl': (Inl e)
        then show thesis using that [OF assms] True Inr cached_bucket_ok [OF assms, of ?f] cached_bucket_ok [OF e, of ?f]
          by (simp add: outcome_def candidate_outcome_def)
      next
        case Inr': (Inr b)
        have "cache_ok lookup n (cache(?f \<mapsto> b))" using assms Inr' by (auto simp: cache_ok_def)
        moreover have "candidate_outcome lookup n prompt (sha256 (query_preimage prompt)) cache c =
            rbind (outcome lookup n prompt c) (\<lambda>r. Inr (cache(?f \<mapsto> b), r))"
          using True Inr Inr' cached_bucket_ok [OF assms, of ?f] cached_bucket_ok [OF e, of ?f]
          by (simp add: outcome_def candidate_outcome_def Let_def split: sum.splits lmcache_error.splits)
        ultimately show thesis by (rule that)
      qed
    qed
  qed
qed

text \<open>The outcome of a well-formed candidate on the current prompt, without the constructors.\<close>

lemma outcome_eq:
  assumes "wf_tokens prompt" "wf_lmcache_candidate c" "tr_end (lc_target_range c) \<le> int (length prompt)"
  shows "outcome lookup n prompt c =
    (if \<not> fresh prompt c then Inr (False, Inl STALE_QUERY)
     else let slice = prompt_slice prompt (lc_target_range c); f = SHA256_FINGERPRINTER n slice;
              seg = \<lparr>token_range = lc_target_range c, token_ids = slice\<rparr> in
       rbind (lookup_bucket lookup n f) (\<lambda>bucket.
         if bucket = [] then Inr (False, Inl NO_SIDECAR_RECORD)
         else let bound = filter (\<lambda>r. cache_key r = lc_cache_key c) bucket in
           if bound = [] then Inr (False, Inl CACHE_KEY_MISMATCH)
           else case choose_record n seg f bound of
               Inl reason \<Rightarrow> Inr (True, Inl reason)
             | Inr r \<Rightarrow> Inr (True, Inr \<lparr>vc_candidate = c, vc_match = \<lparr>vm_candidate =
                 \<lparr>target_segment = seg, query_fingerprint = f, cm_record = r\<rparr>\<rparr>\<rparr>)))"
proof -
  let ?slice = "prompt_slice prompt (lc_target_range c)"
  let ?f = "SHA256_FINGERPRINTER n ?slice"
  let ?seg = "\<lparr>token_range = lc_target_range c, token_ids = ?slice\<rparr>"
  have bind: "VerifiedLmcacheCandidate_bind c m n = Inr \<lparr>vc_candidate = c, vc_match = m\<rparr>"
    if "choose_record n ?seg ?f (filter (\<lambda>r. cache_key r = lc_cache_key c) b) = Inr r"
      "m = \<lparr>vm_candidate = \<lparr>target_segment = ?seg, query_fingerprint = ?f, cm_record = r\<rparr>\<rparr>" for b r m
    using choose_record_Inr(1) [OF refl that(1)] that(2) length_prompt_slice [of "lc_target_range c" prompt] assms
    by (auto simp: bind_Inr verify_record_None segment_len_def wf_lmcache_candidate_def)
  have e: "cache_ok lookup n Map.empty" by (simp add: cache_ok_def)
  show ?thesis
    using assms(3) bind
    by (simp add: outcome_def candidate_outcome_def slice_segment [OF assms] cached_bucket_ok [OF e] Let_def rbind_def
        split: sum.splits)
qed


lemma outcome_in_bounds: "outcome lookup n prompt c = Inr r \<Longrightarrow> tr_end (lc_target_range c) \<le> int (length prompt)"
  by (auto simp: outcome_def candidate_outcome_def split: if_splits)

lemma outcome_total:
  assumes "wf_tokens prompt" "wf_lmcache_candidate c"
  shows "(\<exists>r. outcome lookup n prompt c = Inr r) \<longleftrightarrow> tr_end (lc_target_range c) \<le> int (length prompt) \<and>
    (fresh prompt c \<longrightarrow> (\<exists>rs. slice_lookup lookup n prompt c = Inr rs \<and> None \<notin> set rs))"
proof (cases "tr_end (lc_target_range c) \<le> int (length prompt)")
  case True
  let ?f = "SHA256_FINGERPRINTER n (prompt_slice prompt (lc_target_range c))"
  have "(\<exists>b. lookup_bucket lookup n ?f = Inr b) \<longleftrightarrow> (\<exists>rs. lookup n ?f = Inr rs \<and> None \<notin> set rs)"
    by (auto simp: lookup_bucket_Inr)
  moreover have "(\<exists>r. outcome lookup n prompt c = Inr r) \<longleftrightarrow>
      (fresh prompt c \<longrightarrow> (\<exists>b. lookup_bucket lookup n ?f = Inr b))"
    unfolding outcome_eq [OF assms True]
    by (cases "lookup_bucket lookup n ?f") (auto simp: Let_def split: sum.splits)
  ultimately show ?thesis using True by blast
qed (use outcome_in_bounds in blast)

lemma outcome_verified:
  assumes "wf_tokens prompt" "wf_lmcache_candidate c" "outcome lookup n prompt c = Inr (found, Inr v)"
  shows "found \<and> vc_candidate v = c \<and> fresh prompt c \<and>
    query_fingerprint (vm_candidate (vc_match v)) = SHA256_FINGERPRINTER n (prompt_slice prompt (lc_target_range c)) \<and>
    vm_target (vc_match v) = \<lparr>token_range = lc_target_range c, token_ids = prompt_slice prompt (lc_target_range c)\<rparr> \<and>
    (\<exists>rs. slice_lookup lookup n prompt c = Inr rs \<and> None \<notin> set rs \<and>
       vm_record (vc_match v) \<in> exact_records n prompt c rs \<and>
       source_range ` exact_records n prompt c rs = {source_range (vm_record (vc_match v))})"
proof -
  note b = outcome_in_bounds [OF assms(3)]
  let ?slice = "prompt_slice prompt (lc_target_range c)"
  let ?f = "SHA256_FINGERPRINTER n ?slice"
  let ?seg = "\<lparr>token_range = lc_target_range c, token_ids = ?slice\<rparr>"
  obtain bucket r where fr: "fresh prompt c" "found" and bk: "lookup_bucket lookup n ?f = Inr bucket"
    and ch: "choose_record n ?seg ?f (filter (\<lambda>r. cache_key r = lc_cache_key c) bucket) = Inr r"
    and v: "v = \<lparr>vc_candidate = c, vc_match = \<lparr>vm_candidate = \<lparr>target_segment = ?seg, query_fingerprint = ?f, cm_record = r\<rparr>\<rparr>\<rparr>"
    using assms(3) unfolding outcome_eq [OF assms(1,2) b] by (auto simp: result_simps Let_def split: if_splits sum.splits)
  obtain rs where rs: "lookup n ?f = Inr rs" "None \<notin> set rs"
    and bucket: "bucket = sort_key lookup_record_sort_key (map the rs)"
    using bk by (auto simp: lookup_bucket_Inr)
  have "set (filter (\<lambda>r. verify_record n ?seg ?f r = None) (filter (\<lambda>r. cache_key r = lc_cache_key c) bucket)) =
      exact_records n prompt c rs"
    unfolding bucket by (rule valid_records [OF rs(2)]) simp_all
  then show ?thesis using choose_record_Inr(1) [OF _ ch] fr v rs by simp
qed

lemma outcome_bindable:
  assumes "wf_tokens prompt" "wf_lmcache_candidate c" "tr_end (lc_target_range c) \<le> int (length prompt)"
    "bindable lookup n prompt c" "outcome lookup n prompt c = Inr r"
  shows "\<exists>v. r = (True, Inr v)"
proof -
  let ?slice = "prompt_slice prompt (lc_target_range c)"
  let ?f = "SHA256_FINGERPRINTER n ?slice"
  let ?seg = "\<lparr>token_range = lc_target_range c, token_ids = ?slice\<rparr>"
  from assms(4) obtain rs R where fr: "fresh prompt c" and rs: "lookup n ?f = Inr rs"
    and R: "source_range ` exact_records n prompt c rs = {R}" by (auto simp: bindable_def)
  have none: "None \<notin> set rs" using outcome_total [OF assms(1,2), of lookup n] assms(5) fr rs by auto
  let ?b = "sort_key lookup_record_sort_key (map the rs)"
  let ?bound = "filter (\<lambda>r. cache_key r = lc_cache_key c) ?b"
  have bk: "lookup_bucket lookup n ?f = Inr ?b" using rs none by (simp add: lookup_bucket_Inr)
  have vs: "set (filter (\<lambda>r. verify_record n ?seg ?f r = None) ?bound) = exact_records n prompt c rs"
    by (rule valid_records [OF none]) simp_all
  then obtain r' where r': "choose_record n ?seg ?f ?bound = Inr r'" using choose_record_Inr(2) [OF vs R] by blast
  have "exact_records n prompt c rs \<noteq> {}" using R by auto
  then have "?bound \<noteq> []" using vs by (metis filter.simps(1) list.set(1))
  then have ne: "?b \<noteq> []" "?bound \<noteq> []" by auto
  then show ?thesis using assms(5) fr bk r' unfolding outcome_eq [OF assms(1-3)] by (auto simp: Let_def)
qed

lemma choose_record_Inl:
  assumes "choose_record n seg f bound = Inl reason" "bound \<noteq> []"
  shows "reason \<in> {NAMESPACE_MISMATCH, FINGERPRINT_MISMATCH, TOKEN_MISMATCH, SOURCE_POSITION_AMBIGUOUS}"
proof (cases "filter (\<lambda>r. verify_record n seg f r = None) bound = []")
  case True
  then have "\<forall>r\<in>set bound. verify_record n seg f r \<noteq> None" by (auto simp: filter_empty_conv)
  then have ne: "List.map_filter (verify_record n seg f) bound \<noteq> []"
    using assms(2) by (cases bound) (auto simp: List.map_filter_def)
  have "reason = hd (sort_key reason_priority (List.map_filter (verify_record n seg f) bound))"
    using assms(1) True by (simp add: choose_record_def)
  then have "reason \<in> set (List.map_filter (verify_record n seg f) bound)"
    using ne hd_in_set sort_key_eq_Nil by (metis set_sort)
  then show ?thesis by (auto simp: List.map_filter_def verify_record_def split: if_splits)
qed (use assms in \<open>auto simp: choose_record_def Let_def split: if_splits\<close>)

lemma outcome_rejected:
  assumes "wf_tokens prompt" "wf_lmcache_candidate c" "outcome lookup n prompt c = Inr (found, Inl reason)"
  shows "(found \<longleftrightarrow> reason \<in> set FOUND_REJECTION_REASONS) \<and>
    reason \<notin> {DUPLICATE_CANDIDATE, OVERLAPS_SELECTED_CANDIDATE}"
  using assms(3) choose_record_Inl unfolding outcome_eq [OF assms(1,2) outcome_in_bounds [OF assms(3)]]
  by (fastforce simp: result_simps Let_def FOUND_REJECTION_REASONS_def split: if_splits sum.splits)

section \<open>The loop\<close>

text \<open>What holds of the loop state once the first \<open>k\<close> candidates are examined.\<close>

definition potentials_ok :: "'e sidecar \<Rightarrow> CacheNamespace \<Rightarrow> int list \<Rightarrow> LmcacheCandidate list \<Rightarrow> nat \<Rightarrow> PotentialCandidate list \<Rightarrow> bool" where
  "potentials_ok lookup n prompt raw k ps \<longleftrightarrow> distinct (map pc_raw_index ps) \<and>
     (\<forall>p\<in>set ps. pc_raw_index p < k \<and> pc_candidate p = raw ! pc_raw_index p \<and>
        outcome lookup n prompt (raw ! pc_raw_index p) = Inr (True, Inr (pc_verified p)))"

definition rejections_ok :: "'e sidecar \<Rightarrow> CacheNamespace \<Rightarrow> int list \<Rightarrow> LmcacheCandidate list \<Rightarrow> nat \<Rightarrow> (nat \<times> RejectedLmcacheCandidate) list \<Rightarrow> bool" where
  "rejections_ok lookup n prompt raw k rs \<longleftrightarrow>
     (\<forall>(i, r)\<in>set rs. i < k \<and> rl_candidate r = raw ! i \<and>
        (\<exists>found. outcome lookup n prompt (raw ! i) = Inr (found, Inl (rl_reason r))))"

definition found_ok :: "'e sidecar \<Rightarrow> CacheNamespace \<Rightarrow> int list \<Rightarrow> LmcacheCandidate list \<Rightarrow> nat \<Rightarrow> nat set \<Rightarrow> bool" where
  "found_ok lookup n prompt raw k fs \<longleftrightarrow>
     fs = {i. i < k \<and> (\<exists>res. outcome lookup n prompt (raw ! i) = Inr (True, res))}"

definition loop_inv :: "'e sidecar \<Rightarrow> CacheNamespace \<Rightarrow> int list \<Rightarrow> LmcacheCandidate list \<Rightarrow> nat \<Rightarrow> LookupLoop \<Rightarrow> bool" where
  "loop_inv lookup n prompt raw k st \<longleftrightarrow> cache_ok lookup n (ll_cache st) \<and>
     mset (take k raw) = mset (map pc_candidate (ll_potentials st)) + mset (map (\<lambda>(i, r). rl_candidate r) (ll_rejected st)) \<and>
     potentials_ok lookup n prompt raw k (ll_potentials st) \<and>
     pc_raw_index ` set (ll_potentials st) = {i. i < k \<and> (\<exists>v. outcome lookup n prompt (raw ! i) = Inr (True, Inr v))} \<and>
     rejections_ok lookup n prompt raw k (ll_rejected st) \<and> found_ok lookup n prompt raw k (ll_found st)"

lemma found_ok_step:
  assumes "found_ok lookup n prompt raw k fs" "outcome lookup n prompt (raw ! k) = Inr (found, result)"
  shows "found_ok lookup n prompt raw (Suc k) (if found then insert k fs else fs)"
  using assms by (auto simp: found_ok_def less_Suc_eq)

lemma loop_inv_step:
  assumes inv: "loop_inv lookup n prompt raw k st" and k: "k < length raw"
    and wf: "wf_tokens prompt" "wf_lmcache_candidate (raw ! k)"
    and o: "outcome lookup n prompt (raw ! k) = Inr (found, result)" and cache: "cache_ok lookup n cache"
  shows "loop_inv lookup n prompt raw (Suc k) (record_outcome k (raw ! k) found result (st\<lparr>ll_cache := cache\<rparr>))"
proof -
  let ?st = "record_outcome k (raw ! k) found result (st\<lparr>ll_cache := cache\<rparr>)"
  have f: "ll_found ?st = (if found then insert k (ll_found st) else ll_found st)" and c: "ll_cache ?st = cache"
    by (simp_all add: record_outcome_def Let_def split: sum.splits)
  have fo: "found_ok lookup n prompt raw (Suc k) (ll_found ?st)"
    unfolding f using found_ok_step [OF _ o] inv by (simp add: loop_inv_def)
  have ps: "potentials_ok lookup n prompt raw k (ll_potentials st)"
    and idx: "pc_raw_index ` set (ll_potentials st) = {i. i < k \<and> (\<exists>v. outcome lookup n prompt (raw ! i) = Inr (True, Inr v))}"
    and rs: "rejections_ok lookup n prompt raw k (ll_rejected st)"
    and ms: "mset (take k raw) = mset (map pc_candidate (ll_potentials st)) + mset (map (\<lambda>(i, r). rl_candidate r) (ll_rejected st))"
    using inv by (simp_all add: loop_inv_def)
  note t = take_Suc_conv_app_nth [OF k]
  show ?thesis
  proof (cases result)
    case (Inl reason)
    have p: "ll_potentials ?st = ll_potentials st"
      and r: "ll_rejected ?st = ll_rejected st @ [(k, \<lparr>rl_candidate = raw ! k, rl_reason = reason\<rparr>)]"
      using Inl by (simp_all add: record_outcome_def Let_def)
    have "potentials_ok lookup n prompt raw (Suc k) (ll_potentials st)" using ps by (auto simp: potentials_ok_def)
    moreover have "rejections_ok lookup n prompt raw (Suc k) (ll_rejected ?st)"
      using rs o Inl unfolding r by (auto simp: rejections_ok_def)
    moreover have "pc_raw_index ` set (ll_potentials st) =
        {i. i < Suc k \<and> (\<exists>v. outcome lookup n prompt (raw ! i) = Inr (True, Inr v))}"
      unfolding idx using o Inl by (auto simp: less_Suc_eq)
    ultimately show ?thesis using fo c cache ms unfolding loop_inv_def p by (simp add: r t)
  next
    case (Inr v)
    then have v: "found" "vc_candidate v = raw ! k" using outcome_verified [OF wf, of lookup n found v] o by simp_all
    have p: "ll_potentials ?st = ll_potentials st @ [\<lparr>pc_raw_index = k, pc_verified = v\<rparr>]"
      and r: "ll_rejected ?st = ll_rejected st" using Inr by (simp_all add: record_outcome_def Let_def)
    have "potentials_ok lookup n prompt raw (Suc k) (ll_potentials ?st)"
      using ps v o Inr unfolding p by (auto simp: potentials_ok_def)
    moreover have "rejections_ok lookup n prompt raw (Suc k) (ll_rejected st)"
      using rs by (auto simp: rejections_ok_def)
    moreover have "pc_raw_index ` set (ll_potentials ?st) =
        {i. i < Suc k \<and> (\<exists>v. outcome lookup n prompt (raw ! i) = Inr (True, Inr v))}"
      using o Inr v unfolding p by (auto simp: idx less_Suc_eq)
    moreover have "mset (take (Suc k) raw) =
        mset (map pc_candidate (ll_potentials ?st)) + mset (map (\<lambda>(i, r). rl_candidate r) (ll_rejected st))"
      using ms v(2) unfolding p t by simp
    ultimately show ?thesis unfolding loop_inv_def r c using fo cache by (intro conjI)
  qed
qed

lemma lookup_loop_step:
  assumes inv: "loop_inv lookup n prompt raw k st" and wf: "wf_tokens prompt" "\<forall>c\<in>set raw. wf_lmcache_candidate c"
    and k: "k < length raw"
  shows "case outcome lookup n prompt (raw ! k) of
      Inl e \<Rightarrow> lookup_loop lookup n prompt (sha256 (query_preimage prompt)) st (List.enumerate k (drop k raw)) = Inl e
    | Inr r \<Rightarrow> \<exists>st'. loop_inv lookup n prompt raw (Suc k) st' \<and>
        lookup_loop lookup n prompt (sha256 (query_preimage prompt)) st (List.enumerate k (drop k raw)) =
        lookup_loop lookup n prompt (sha256 (query_preimage prompt)) st' (List.enumerate (Suc k) (drop (Suc k) raw))"
proof -
  obtain cache where cache: "cache_ok lookup n cache"
    and o: "candidate_outcome lookup n prompt (sha256 (query_preimage prompt)) (ll_cache st) (raw ! k) =
      rbind (outcome lookup n prompt (raw ! k)) (\<lambda>r. Inr (cache, r))"
    by (rule candidate_outcome_cached [of lookup n "ll_cache st" prompt "raw ! k"]) (use inv in \<open>auto simp: loop_inv_def\<close>)
  have "List.enumerate k (drop k raw) = (k, raw ! k) # List.enumerate (Suc k) (drop (Suc k) raw)"
    using k by (simp add: Cons_nth_drop_Suc [symmetric])
  then show ?thesis using loop_inv_step [OF inv k wf(1) _ _ cache] wf(2) k o
    by (cases "outcome lookup n prompt (raw ! k)") (auto simp: prod.case_eq_if)
qed

lemma lookup_loop_inv:
  assumes "loop_inv lookup n prompt raw k st" "wf_tokens prompt" "\<forall>c\<in>set raw. wf_lmcache_candidate c" "k \<le> length raw"
  shows "case lookup_loop lookup n prompt (sha256 (query_preimage prompt)) st (List.enumerate k (drop k raw)) of
      Inl e \<Rightarrow> \<exists>i\<ge>k. i < length raw \<and> outcome lookup n prompt (raw ! i) = Inl e
    | Inr st' \<Rightarrow> loop_inv lookup n prompt raw (length raw) st' \<and>
        (\<forall>i. k \<le> i \<and> i < length raw \<longrightarrow> (\<exists>r. outcome lookup n prompt (raw ! i) = Inr r))"
  using assms(1,4)
proof (induction "length raw - k" arbitrary: k st)
  case 0
  then show ?case by auto
next
  case (Suc d)
  then have k: "k < length raw" and d: "d = length raw - Suc k" by simp_all
  show ?case
  proof (cases "outcome lookup n prompt (raw ! k)")
    case (Inl e)
    then show ?thesis using lookup_loop_step [OF Suc.prems(1) assms(2,3) k] k by auto
  next
    case (Inr r)
    then obtain st' where st': "loop_inv lookup n prompt raw (Suc k) st'"
        "lookup_loop lookup n prompt (sha256 (query_preimage prompt)) st (List.enumerate k (drop k raw)) =
         lookup_loop lookup n prompt (sha256 (query_preimage prompt)) st' (List.enumerate (Suc k) (drop (Suc k) raw))"
      using lookup_loop_step [OF Suc.prems(1) assms(2,3) k] by auto
    have "k \<le> i \<longleftrightarrow> i = k \<or> Suc k \<le> i" for i by auto
    then show ?thesis using Suc.hyps(1) [OF d st'(1)] k Inr unfolding st'(2)
      by (auto split: sum.splits)
  qed
qed

section \<open>The finished plan\<close>

interpretation potential_jobs: interval_jobs "\<lambda>p. lc_target_range (pc_candidate p)"
    "\<lambda>p. range_len (lc_target_range (pc_candidate p))" potential_sort_key "\<lambda>p. wf_lmcache_candidate (pc_candidate p)"
  by unfold_locales (auto simp: wf_lmcache_candidate_def range_len_def)

lemma mset_select_verified:
  "mset (select_verified ps sel) = mset (map pc_verified (map snd (filter (\<lambda>(i, p). i \<in> sel) (List.enumerate 0 ps))))"
  by (simp add: select_verified_def case_prod_beta' multiset.map_comp o_def)

lemma mset_order_rejections: "mset (order_rejections rs) = mset (map snd rs)"
  by (simp add: order_rejections_def)

lemma sum_list_mset: "mset xs = mset ys \<Longrightarrow> sum_list (map f xs) = sum_list (map f ys)" for f :: "'a \<Rightarrow> int"
  by (metis mset_map sum_mset_sum_list)

text \<open>Selected and unselected potentials partition the potentials.\<close>

lemma potentials_split:
  "mset (map pc_candidate ps) = mset (map vc_candidate (select_verified ps sel)) +
     mset (map (\<lambda>(i, r). rl_candidate r) (unselected_rejections ps sel cs))"
proof -
  have "mset (map vc_candidate (select_verified ps sel)) = image_mset vc_candidate (mset (select_verified ps sel))" by simp
  also have "\<dots> = image_mset pc_candidate (mset (map snd (filter (\<lambda>(i, p). i \<in> sel) (List.enumerate 0 ps))))"
    unfolding mset_select_verified by (simp add: multiset.map_comp o_def)
  finally have a: "mset (map vc_candidate (select_verified ps sel)) =
      image_mset pc_candidate (mset (map snd (filter (\<lambda>(i, p). i \<in> sel) (List.enumerate 0 ps))))" .
  have "map (\<lambda>(i, r). rl_candidate r) (unselected_rejections ps sel cs) =
      map pc_candidate (map snd (filter (\<lambda>(i, p). i \<notin> sel) (List.enumerate 0 ps)))"
    by (auto simp: unselected_rejections_def)
  then have b: "mset (map (\<lambda>(i, r). rl_candidate r) (unselected_rejections ps sel cs)) =
      image_mset pc_candidate (mset (map snd (filter (\<lambda>(i, p). i \<notin> sel) (List.enumerate 0 ps))))"
    by (metis mset_map)
  show ?thesis unfolding a b mset_map [of pc_candidate ps]
    by (subst enumerate_filter_split [of sel 0 ps, symmetric]) (rule image_mset_union)
qed

lemma verified_tokens_sum:
  assumes "sel \<subseteq> {..<length ps}"
  shows "sum_list (map (\<lambda>v. range_len (lc_target_range (vc_candidate v))) (select_verified ps sel)) =
    (\<Sum>i\<in>sel. range_len (lc_target_range (pc_candidate (ps ! i))))"
proof -
  let ?f = "\<lambda>p. range_len (lc_target_range (pc_candidate p))"
  have "sum_list (map (\<lambda>v. range_len (lc_target_range (vc_candidate v))) (select_verified ps sel)) =
      sum_list (map (\<lambda>x. ?f (snd x)) (filter (\<lambda>(i, p). i \<in> sel) (List.enumerate 0 ps)))"
    using sum_list_mset [OF mset_select_verified [of ps sel], of "\<lambda>v. range_len (lc_target_range (vc_candidate v))"]
    by (simp only: map_map o_def)
  also have "\<dots> = (\<Sum>i\<in>sel. ?f (ps ! i))"
    using sum_enumerate_filter [of ?f sel ps] assms by (simp add: Int_absorb2)
  finally show ?thesis .
qed

lemma length_select_verified: "sel \<subseteq> {..<length ps} \<Longrightarrow> length (select_verified ps sel) = card sel"
proof -
  assume sel: "sel \<subseteq> {..<length ps}"
  have "int (length (select_verified ps sel)) = sum_list (map (\<lambda>x. (\<lambda>_. 1) (snd x)) (filter (\<lambda>(i, p). i \<in> sel) (List.enumerate 0 ps)))"
    by (simp add: select_verified_def sum_list_triv)
  also have "\<dots> = (\<Sum>i\<in>sel. 1)"
    using sum_enumerate_filter [of "\<lambda>_. 1" sel ps] sel by (simp only: Int_absorb2)
  finally show ?thesis by simp
qed

text \<open>What the loop leaves is consistent, so the counters are accepted.\<close>

abbreviation candidate_tokens :: "LmcacheCandidate \<Rightarrow> int" where
  "candidate_tokens c \<equiv> range_len (lc_target_range c)"

lemma finish_accounts:
  assumes "loop_inv lookup n prompt raw (length raw) st"
  shows "mset raw = mset (map vc_candidate (select_verified (ll_potentials st) sel)) +
    mset (map rl_candidate (order_rejections (ll_rejected st @ unselected_rejections (ll_potentials st) sel cs)))"
proof -
  have "image_mset rl_candidate (mset (order_rejections (ll_rejected st @ unselected_rejections (ll_potentials st) sel cs))) =
      mset (map (\<lambda>(i, r). rl_candidate r) (ll_rejected st)) +
      mset (map (\<lambda>(i, r). rl_candidate r) (unselected_rejections (ll_potentials st) sel cs))"
    unfolding mset_order_rejections by (simp add: multiset.map_comp o_def case_prod_beta')
  then show ?thesis
    using assms potentials_split [of "ll_potentials st" sel cs] by (simp add: loop_inv_def ac_simps)
qed

lemma found_subset: "loop_inv lookup n prompt raw k st \<Longrightarrow> ll_found st \<subseteq> {..<k}"
  by (auto simp: loop_inv_def found_ok_def)

lemma found_bounds:
  assumes "loop_inv lookup n prompt raw (length raw) st" "\<forall>c\<in>set raw. 0 \<le> candidate_tokens c"
  shows "card (ll_found st) \<le> length raw"
    and "(\<Sum>i\<in>ll_found st. candidate_tokens (raw ! i)) \<le> sum_list (map candidate_tokens raw)"
proof -
  note fs = found_subset [OF assms(1)]
  show "card (ll_found st) \<le> length raw" using card_mono [OF _ fs] by simp
  have "sum_list (map candidate_tokens raw) = (\<Sum>i<length raw. candidate_tokens (raw ! i))"
    by (simp add: sum_list_sum_nth atLeast0LessThan)
  then show "(\<Sum>i\<in>ll_found st. candidate_tokens (raw ! i)) \<le> sum_list (map candidate_tokens raw)"
    using fs assms(2) by (auto intro!: sum_mono2)
qed

text \<open>Each selected potential is a found candidate of its own.\<close>

lemma selected_bounds:
  assumes inv: "loop_inv lookup n prompt raw (length raw) st" and sel: "sel \<subseteq> {..<length (ll_potentials st)}"
    and nonneg: "\<forall>c\<in>set raw. 0 \<le> candidate_tokens c"
  shows "card sel \<le> card (ll_found st)"
    and "(\<Sum>i\<in>sel. candidate_tokens (pc_candidate (ll_potentials st ! i))) \<le> (\<Sum>i\<in>ll_found st. candidate_tokens (raw ! i))"
proof -
  let ?ps = "ll_potentials st" and ?ix = "\<lambda>i. pc_raw_index (ll_potentials st ! i)"
  have ok: "potentials_ok lookup n prompt raw (length raw) ?ps"
    and fo: "found_ok lookup n prompt raw (length raw) (ll_found st)" using inv by (simp_all add: loop_inv_def)
  have "distinct (map pc_raw_index ?ps)" using ok by (simp add: potentials_ok_def)
  then have inj: "inj_on ?ix sel"
    using sel by (auto simp: inj_on_def distinct_conv_nth subset_iff)
  have p: "?ix i < length raw \<and> pc_candidate (?ps ! i) = raw ! ?ix i \<and>
      outcome lookup n prompt (raw ! ?ix i) = Inr (True, Inr (pc_verified (?ps ! i)))" if "i \<in> sel" for i
    using ok sel that by (auto simp: potentials_ok_def subset_iff)
  then have img: "?ix ` sel \<subseteq> ll_found st" using fo by (auto simp: found_ok_def)
  have fin: "finite (ll_found st)" using found_subset [OF inv] by (rule finite_subset) simp
  show "card sel \<le> card (ll_found st)" using card_inj_on_le [OF inj img fin] .
  have "(\<Sum>i\<in>sel. candidate_tokens (pc_candidate (?ps ! i))) = (\<Sum>i\<in>?ix ` sel. candidate_tokens (raw ! i))"
    using inj p by (simp add: sum.reindex)
  also have "\<dots> \<le> (\<Sum>i\<in>ll_found st. candidate_tokens (raw ! i))"
    using fin img found_subset [OF inv] nonneg by (intro sum_mono2) auto
  finally show "(\<Sum>i\<in>sel. candidate_tokens (pc_candidate (?ps ! i))) \<le> (\<Sum>i\<in>ll_found st. candidate_tokens (raw ! i))" .
qed

lemma loop_potentials_wf:
  "loop_inv lookup n prompt raw (length raw) st \<Longrightarrow> \<forall>c\<in>set raw. wf_lmcache_candidate c \<Longrightarrow>
     \<forall>p\<in>set (ll_potentials st). wf_lmcache_candidate (pc_candidate p)"
  by (auto simp: loop_inv_def potentials_ok_def)

text \<open>The finished plan, named by its parts; the counters of a well-formed request are always accepted.\<close>

lemma finish_lookup_Inr:
  assumes inv: "loop_inv lookup n prompt raw (length raw) st" and wf: "\<forall>c\<in>set raw. wf_lmcache_candidate c"
  obtains p where "finish_lookup raw st = Inr p"
    "lp_verified p = select_verified (ll_potentials st) (set (select_potentials (ll_potentials st)))"
    "lp_rejected p = order_rejections (ll_rejected st @ unselected_rejections (ll_potentials st)
       (set (select_potentials (ll_potentials st))) (map vc_candidate (lp_verified p)))"
    "raw_candidates (lp_counters p) = int (length raw)" "found_candidates (lp_counters p) = int (card (ll_found st))"
    "verified_candidate_tokens (lp_counters p) =
       (\<Sum>i\<in>set (select_potentials (ll_potentials st)). candidate_tokens (pc_candidate (ll_potentials st ! i)))"
    "mset raw = mset (map vc_candidate (lp_verified p)) + mset (map rl_candidate (lp_rejected p))"
proof -
  let ?ps = "ll_potentials st"
  let ?sel = "set (select_potentials ?ps)"
  let ?v = "select_verified ?ps ?sel"
  let ?o = "order_rejections (ll_rejected st @ unselected_rejections ?ps ?sel (map vc_candidate ?v))"
  have nonneg: "\<forall>c\<in>set raw. 0 \<le> candidate_tokens c" using wf by (auto simp: wf_lmcache_candidate_def)
  have sub: "?sel \<subseteq> {..<length ?ps}"
    using potential_jobs.select_intervals_best(2) [OF loop_potentials_wf [OF inv wf]] by (simp add: select_potentials_def)
  note all = finish_accounts [OF inv, of ?sel "map vc_candidate ?v"]
  have len: "length raw = length ?v + length ?o" using arg_cong [OF all, of size] by simp
  have tokens: "sum_list (map candidate_tokens raw) =
      sum_list (map (\<lambda>v. candidate_tokens (vc_candidate v)) ?v) + sum_list (map (\<lambda>r. candidate_tokens (rl_candidate r)) ?o)"
    using arg_cong [OF all, of "\<lambda>M. sum_mset (image_mset candidate_tokens M)"]
    by (simp add: multiset.map_comp o_def flip: sum_mset_sum_list)
  have "set (map rl_candidate ?o) \<subseteq> set raw" "set (map vc_candidate ?v) \<subseteq> set raw"
    using arg_cong [OF all, of set_mset] by auto
  then have "0 \<le> sum_list (map (\<lambda>r. candidate_tokens (rl_candidate r)) ?o)"
    "0 \<le> sum_list (map (\<lambda>v. candidate_tokens (vc_candidate v)) ?v)"
    using nonneg by (auto intro!: sum_list_nonneg_int)
  then have "\<exists>p. finish_lookup raw st = Inr p"
    using found_bounds [OF inv nonneg] selected_bounds [OF inv sub nonneg] len tokens
      length_select_verified [OF sub] verified_tokens_sum [OF sub]
    by (simp add: finish_lookup_def LmcacheLookupCounters_init_def Let_def)
  then obtain p where p: "finish_lookup raw st = Inr p" ..
  then show thesis using that [OF p] all verified_tokens_sum [OF sub]
    by (auto simp: finish_lookup_def LmcacheLookupCounters_init_def Let_def split: if_splits)
qed


abbreviation initial_loop :: LookupLoop where
  "initial_loop \<equiv> \<lparr>ll_cache = Map.empty, ll_potentials = [], ll_rejected = [], ll_found = {}\<rparr>"

lemma initial_loop_inv: "loop_inv lookup n prompt raw 0 initial_loop"
  by (simp add: loop_inv_def cache_ok_def potentials_ok_def rejections_ok_def found_ok_def)

lemma lookup_plan_eq:
  assumes "wf_tokens prompt"
  shows "lookup_plan lookup (map PInt prompt) n (map Some raw) =
    rbind (lookup_loop lookup n prompt (sha256 (query_preimage prompt)) initial_loop (List.enumerate 0 raw)) (finish_lookup raw)"
  using assms by (auto simp: lookup_plan_def query_digest_def o_def)

text \<open>A plan, by the state of the loop that led to it.\<close>

lemma lookup_plan_Inr:
  assumes plan: "lookup_plan lookup (map PInt prompt) n (map Some raw) = Inr p"
    and wf: "wf_tokens prompt" "list_all wf_lmcache_candidate raw"
  obtains st where "loop_inv lookup n prompt raw (length raw) st" "finish_lookup raw st = Inr p"
    "\<forall>i<length raw. \<exists>r. outcome lookup n prompt (raw ! i) = Inr r"
proof -
  from plan obtain st where st: "lookup_loop lookup n prompt (sha256 (query_preimage prompt)) initial_loop (List.enumerate 0 raw) = Inr st"
    and p: "finish_lookup raw st = Inr p" unfolding lookup_plan_eq [OF wf(1)] by (auto simp: result_simps)
  then show thesis
    using lookup_loop_inv [OF initial_loop_inv [of lookup n prompt raw] wf(1)] wf(2) that by (auto simp: list_all_iff)
qed

lemma verified_member:
  assumes "v \<in> set (select_verified ps sel)"
  obtains p where "p \<in> set ps" "pc_verified p = v"
proof -
  have "v \<in> set (map pc_verified (map snd (filter (\<lambda>(i, p). i \<in> sel) (List.enumerate 0 ps))))"
    using assms arg_cong [OF mset_select_verified [of ps sel], of set_mset] by auto
  then show thesis using that by (auto simp: in_set_enumerate_eq) (metis nth_mem)
qed

lemma lookup_plan_verified:
  assumes "lookup_plan lookup (map PInt prompt) n (map Some raw) = Inr p"
    "wf_tokens prompt" "list_all wf_lmcache_candidate raw" "v \<in> set (lp_verified p)"
  shows "vc_candidate v \<in> set raw \<and> outcome lookup n prompt (vc_candidate v) = Inr (True, Inr v)"
proof -
  obtain st where inv: "loop_inv lookup n prompt raw (length raw) st" and fin: "finish_lookup raw st = Inr p"
    by (rule lookup_plan_Inr [OF assms(1-3)])
  have wf: "\<forall>c\<in>set raw. wf_lmcache_candidate c" using assms(3) by (simp add: list_all_iff)
  obtain sel where "lp_verified p = select_verified (ll_potentials st) sel"
    by (rule finish_lookup_Inr [OF inv wf]) (use fin in auto)
  then obtain q where q: "q \<in> set (ll_potentials st)" "pc_verified q = v"
    using assms(4) verified_member by metis
  then show ?thesis using inv by (auto simp: loop_inv_def potentials_ok_def)
qed

lemma lookup_plan_rejected:
  assumes "lookup_plan lookup (map PInt prompt) n (map Some raw) = Inr p"
    "wf_tokens prompt" "list_all wf_lmcache_candidate raw" "r \<in> set (lp_rejected p)"
  shows "(\<exists>found. outcome lookup n prompt (rl_candidate r) = Inr (found, Inl (rl_reason r))) \<or>
    (\<exists>v. outcome lookup n prompt (rl_candidate r) = Inr (True, Inr v) \<and>
      rl_reason r = (if rl_candidate r \<in> vc_candidate ` set (lp_verified p) then DUPLICATE_CANDIDATE
                     else OVERLAPS_SELECTED_CANDIDATE))"
proof -
  obtain st where inv: "loop_inv lookup n prompt raw (length raw) st" and fin: "finish_lookup raw st = Inr p"
    by (rule lookup_plan_Inr [OF assms(1-3)])
  have wf: "\<forall>c\<in>set raw. wf_lmcache_candidate c" using assms(3) by (simp add: list_all_iff)
  obtain sel where rej: "lp_rejected p = order_rejections (ll_rejected st @ unselected_rejections (ll_potentials st) sel
      (map vc_candidate (lp_verified p)))"
    by (rule finish_lookup_Inr [OF inv wf]) (use fin in auto)
  have "r \<in> set (map snd (ll_rejected st @ unselected_rejections (ll_potentials st) sel (map vc_candidate (lp_verified p))))"
    using assms(4) arg_cong [OF mset_order_rejections, of set_mset] unfolding rej by (metis set_mset_mset)
  then consider i where "(i, r) \<in> set (ll_rejected st)"
    | i where "(i, r) \<in> set (unselected_rejections (ll_potentials st) sel (map vc_candidate (lp_verified p)))" by auto
  then show ?thesis
  proof cases
    case 1
    then show ?thesis using inv by (auto simp: loop_inv_def rejections_ok_def)
  next
    case 2
    then obtain q where "q \<in> set (ll_potentials st)" "rl_candidate r = pc_candidate q"
      "rl_reason r = (if pc_candidate q \<in> vc_candidate ` set (lp_verified p) then DUPLICATE_CANDIDATE
                     else OVERLAPS_SELECTED_CANDIDATE)"
      by (auto simp: unselected_rejections_def in_set_enumerate_eq) (metis nth_mem)+
    then show ?thesis using inv by (auto simp: loop_inv_def potentials_ok_def)
  qed
qed

lemma lookup_plan_sequential:
  assumes plan: "lookup_plan lookup (map PInt prompt) n (map Some raw) = Inr p"
    and wf: "wf_tokens prompt" "list_all wf_lmcache_candidate raw"
  shows "sorted_wrt (\<lambda>a b. tr_end (lc_target_range (vc_candidate a)) \<le> tr_start (lc_target_range (vc_candidate b))) (lp_verified p)"
proof -
  obtain st where inv: "loop_inv lookup n prompt raw (length raw) st" and fin: "finish_lookup raw st = Inr p"
    by (rule lookup_plan_Inr [OF plan wf])
  have wf': "\<forall>c\<in>set raw. wf_lmcache_candidate c" using wf(2) by (simp add: list_all_iff)
  let ?ps = "ll_potentials st" and ?sel = "set (select_potentials (ll_potentials st))"
  let ?chosen = "map snd (filter (\<lambda>(i, p). i \<in> ?sel) (List.enumerate 0 ?ps))"
  let ?ys = "sort_key (\<lambda>p. verified_sort_key (pc_verified p)) ?chosen"
  have v: "lp_verified p = map pc_verified ?ys"
  proof -
    have "map pc_verified ?ys = sort_key verified_sort_key (map pc_verified ?chosen)" by (rule map_sort_key)
    moreover have "map (\<lambda>(i, p). pc_verified p) (filter (\<lambda>(i, p). i \<in> ?sel) (List.enumerate 0 ?ps)) = map pc_verified ?chosen"
      by auto
    moreover have "lp_verified p = select_verified ?ps ?sel" by (rule finish_lookup_Inr [OF inv wf']) (use fin in auto)
    ultimately show ?thesis by (simp only: select_verified_def)
  qed
  have "sorted (map (\<lambda>p. fst (fst (verified_sort_key (pc_verified p)))) ?ys)"
    by (intro sorted_map_fst) simp
  then have "sorted (map (\<lambda>p. tr_start (lc_target_range (pc_candidate p))) ?ys)"
    by (simp add: verified_sort_key_def lookup_candidate_sort_key_def)
  then have "sorted_wrt (\<lambda>a b. tr_end (lc_target_range (pc_candidate a)) \<le> tr_start (lc_target_range (pc_candidate b))) ?ys"
    by (intro potential_jobs.selected_sequential [OF loop_potentials_wf [OF inv wf'], where sel = ?sel])
      (simp_all add: select_potentials_def)
  then show ?thesis by (simp add: v sorted_wrt_map)
qed

lemma lookup_plan_returns:
  assumes "wf_tokens prompt" "list_all wf_lmcache_candidate raw"
    "list_all (\<lambda>c. tr_end (lc_target_range c) \<le> int (length prompt) \<and>
        (fresh prompt c \<longrightarrow> (\<exists>rs. slice_lookup lookup n prompt c = Inr rs \<and> None \<notin> set rs))) raw"
  shows "\<exists>p. lookup_plan lookup (map PInt prompt) n (map Some raw) = Inr p"
proof -
  have wf: "\<forall>c\<in>set raw. wf_lmcache_candidate c" using assms(2) by (simp add: list_all_iff)
  note loop = lookup_loop_inv [OF initial_loop_inv [of lookup n prompt raw] assms(1) wf, simplified]
  show ?thesis
  proof (cases "lookup_loop lookup n prompt (sha256 (query_preimage prompt)) initial_loop (List.enumerate 0 raw)")
    case (Inl e)
    then obtain i where "i < length raw" "outcome lookup n prompt (raw ! i) = Inl e" using loop by auto
    then show ?thesis using outcome_total [OF assms(1), of "raw ! i" lookup n] wf assms(3) by (auto simp: list_all_length)
  next
    case (Inr st)
    then have "loop_inv lookup n prompt raw (length raw) st" using loop by auto
    from finish_lookup_Inr [OF this wf] obtain p where "finish_lookup raw st = Inr p" by metis
    then show ?thesis using Inr by (simp add: lookup_plan_eq [OF assms(1)])
  qed
qed

text \<open>A candidate that can be bound is verified, or a verified candidate overlaps it.\<close>

lemma selected_member: "i \<in> sel \<Longrightarrow> i < length ps \<Longrightarrow> pc_verified (ps ! i) \<in> set (select_verified ps sel)"
proof -
  assume "i \<in> sel" "i < length ps"
  then have "pc_verified (ps ! i) \<in> set (map pc_verified (map snd (filter (\<lambda>(i, p). i \<in> sel) (List.enumerate 0 ps))))"
    by (force simp: in_set_enumerate_eq image_iff)
  then show ?thesis using arg_cong [OF mset_select_verified [of ps sel], of set_mset] by (metis set_mset_mset)
qed

lemma lookup_plan_maximal:
  assumes plan: "lookup_plan lookup (map PInt prompt) n (map Some raw) = Inr p"
    and wf: "wf_tokens prompt" "list_all wf_lmcache_candidate raw" and c: "c \<in> set raw" "bindable lookup n prompt c"
  shows "\<exists>v\<in>set (lp_verified p). overlaps (lc_target_range (vc_candidate v)) (lc_target_range c)"
proof (rule ccontr)
  assume none: "\<not> ?thesis"
  obtain st where inv: "loop_inv lookup n prompt raw (length raw) st" and fin: "finish_lookup raw st = Inr p"
    and tot: "\<forall>i<length raw. \<exists>r. outcome lookup n prompt (raw ! i) = Inr r"
    by (rule lookup_plan_Inr [OF plan wf])
  let ?ps = "ll_potentials st" and ?sel = "set (select_potentials (ll_potentials st))"
  let ?rng = "\<lambda>k. lc_target_range (pc_candidate (ll_potentials st ! k))"
  have wf': "\<forall>c\<in>set raw. wf_lmcache_candidate c" using wf(2) by (simp add: list_all_iff)
  note best = potential_jobs.select_intervals_best [OF loop_potentials_wf [OF inv wf'], folded select_potentials_def]
  obtain i where i: "i < length raw" "raw ! i = c" using c(1) unfolding in_set_conv_nth by blast
  obtain r where "outcome lookup n prompt c = Inr r" using tot i by blast
  then obtain v where "outcome lookup n prompt c = Inr (True, Inr v)"
    using outcome_bindable [OF wf(1) _ outcome_in_bounds c(2)] wf' c(1) by blast
  then have "i \<in> pc_raw_index ` set ?ps" using inv i by (simp add: loop_inv_def)
  then obtain k where k: "k < length ?ps" "pc_raw_index (?ps ! k) = i" by (auto simp: in_set_conv_nth)
  have cand: "pc_candidate (?ps ! k) = c" using inv k i by (auto simp: loop_inv_def potentials_ok_def)
  have verified: "lp_verified p = select_verified ?ps ?sel" by (rule finish_lookup_Inr [OF inv wf']) (use fin in auto)
  have apart: "\<not> overlaps (?rng j) (?rng k)" if "j \<in> ?sel" for j
  proof -
    have "j < length ?ps" using best(2) that by (simp add: subset_iff)
    then have "pc_verified (?ps ! j) \<in> set (lp_verified p)" unfolding verified by (rule selected_member [OF that])
    then show ?thesis using none by (simp add: cand)
  qed
  have pos: "0 < candidate_tokens c" using wf' c(1) by (simp add: wf_lmcache_candidate_def)
  then have "overlaps (?rng k) (?rng k)" by (simp add: cand overlaps_def range_len_def)
  then have "k \<notin> ?sel" using apart by blast
  moreover have "insert k ?sel \<subseteq> {..<length ?ps}" using best(2) k(1) by simp
  moreover have "\<forall>a\<in>insert k ?sel. \<forall>b\<in>insert k ?sel. a \<noteq> b \<longrightarrow> \<not> overlaps (?rng a) (?rng b)"
  proof (intro ballI impI)
    fix a b
    assume "a \<in> insert k ?sel" "b \<in> insert k ?sel" "a \<noteq> b"
    then consider "a = k" "b \<in> ?sel" | "b = k" "a \<in> ?sel" | "a \<in> ?sel" "b \<in> ?sel" by blast
    then show "\<not> overlaps (?rng a) (?rng b)"
    proof cases
      case 1
      then show ?thesis using apart [of b] overlaps_sym by metis
    next
      case 2
      then show ?thesis using apart [of a] by simp
    next
      case 3
      then show ?thesis using best(3) \<open>a \<noteq> b\<close> by blast
    qed
  qed
  ultimately have "(\<Sum>j\<in>insert k ?sel. candidate_tokens (pc_candidate (?ps ! j))) \<le>
      (\<Sum>j\<in>?sel. candidate_tokens (pc_candidate (?ps ! j)))" by (intro best(4))
  then show False using pos cand \<open>k \<notin> ?sel\<close> by simp
qed

lemma outcome_verified_bindable:
  assumes "wf_tokens prompt" "wf_lmcache_candidate c" "outcome lookup n prompt c = Inr (found, Inr v)"
  shows "bindable lookup n prompt c"
  using outcome_verified [OF assms] unfolding bindable_def by blast

lemma lookup_plan_partition:
  assumes plan: "lookup_plan lookup (map PInt prompt) n (map Some raw) = Inr p"
    and wf: "wf_tokens prompt" "list_all wf_lmcache_candidate raw"
  shows "mset raw = mset (map vc_candidate (lp_verified p)) + mset (map rl_candidate (lp_rejected p))"
proof -
  obtain st where inv: "loop_inv lookup n prompt raw (length raw) st" and fin: "finish_lookup raw st = Inr p"
    by (rule lookup_plan_Inr [OF plan wf])
  have wf': "\<forall>c\<in>set raw. wf_lmcache_candidate c" using wf(2) by (simp add: list_all_iff)
  show ?thesis by (rule finish_lookup_Inr [OF inv wf']) (use fin in auto)
qed

lemma lookup_plan_found:
  assumes plan: "lookup_plan lookup (map PInt prompt) n (map Some raw) = Inr p"
    and wf: "wf_tokens prompt" "list_all wf_lmcache_candidate raw"
    and raw: "vc_candidate ` set (lp_verified p) \<union> rl_candidate ` set (lp_rejected p) = set raw"
  shows "verified_candidate_tokens (lp_counters p) \<le> found_target_token_count p \<and>
    found_target_token_count p \<le> int (length prompt)"
proof -
  obtain st where inv: "loop_inv lookup n prompt raw (length raw) st" and fin: "finish_lookup raw st = Inr p"
    and tot: "\<forall>i<length raw. \<exists>r. outcome lookup n prompt (raw ! i) = Inr r"
    by (rule lookup_plan_Inr [OF plan wf])
  let ?found = "map (\<lambda>v. lc_target_range (vc_candidate v)) (lp_verified p) @
        map (\<lambda>r. lc_target_range (rl_candidate r))
          (filter (\<lambda>r. rl_reason r \<in> set FOUND_REJECTION_REASONS) (lp_rejected p))"
  let ?ver = "\<Union>v\<in>set (lp_verified p). range_set (lc_target_range (vc_candidate v))"
  have "set ?found \<subseteq> lc_target_range ` set raw" unfolding raw [symmetric] by auto
  moreover have "wf_range (lc_target_range c) \<and> tr_end (lc_target_range c) \<le> int (length prompt)" if c: "c \<in> set raw" for c
  proof -
    obtain i where i: "i < length raw" "raw ! i = c" using c unfolding in_set_conv_nth by blast
    then obtain r where "outcome lookup n prompt c = Inr r" using tot by blast
    from outcome_in_bounds [OF this] show ?thesis using c wf(2) by (auto simp: list_all_iff wf_lmcache_candidate_def)
  qed
  ultimately have b: "\<forall>r\<in>set ?found. wf_range r \<and> tr_end r \<le> int (length prompt)" by blast
  then have count: "found_target_token_count p = int (card (\<Union>r\<in>set ?found. range_set r))"
    unfolding found_target_token_count_def by (intro covered_range_count_card) blast
  have sub: "(\<Union>r\<in>set ?found. range_set r) \<subseteq> {0..<int (length prompt)}"
    using b by (fastforce simp: range_set_def wf_range_def)
  have "sorted_wrt (\<lambda>a b. \<not> overlaps (lc_target_range (vc_candidate b)) (lc_target_range (vc_candidate a))) (lp_verified p)"
    using lookup_plan_sequential [OF plan wf] by (rule sorted_wrt_mono_rel [rotated]) (auto simp: overlaps_def)
  then have "sum_list (map (\<lambda>v. candidate_tokens (vc_candidate v)) (lp_verified p)) = int (card ?ver)"
    by (rule disjoint_ranges_card) (use b in auto)
  moreover have "verified_candidate_tokens (lp_counters p) = sum_list (map (\<lambda>v. candidate_tokens (vc_candidate v)) (lp_verified p))"
    using fin by (auto simp: finish_lookup_def LmcacheLookupCounters_init_def Let_def split: if_splits)
  moreover have "card ?ver \<le> card (\<Union>r\<in>set ?found. range_set r)"
    using finite_subset [OF sub] by (intro card_mono) auto
  moreover have "card (\<Union>r\<in>set ?found. range_set r) \<le> length prompt" using card_mono [OF _ sub] by simp
  ultimately show ?thesis using count by simp
qed

section \<open>A concrete lookup\<close>

text \<open>
  A prompt of three tokens, a candidate for its first two, and a sidecar with one record of these two
  tokens that was produced at position 7.
\<close>

definition example_raw :: LmcacheCandidate where
  "example_raw = \<lparr>lc_source_relative_range = \<lparr>tr_start = 0, tr_end = 2\<rparr>, lc_target_range = \<lparr>tr_start = 0, tr_end = 2\<rparr>,
     lc_storage_hash = replicate 32 0, lc_storage_model_name = ''m'', lc_query_digest = sha256 (query_preimage [5, 6, 9])\<rparr>"

definition example_side_record :: CacheRecord where
  "example_side_record = \<lparr>rec_namespace = example_namespace,
     rec_fingerprint = SHA256_FINGERPRINTER example_namespace [5, 6], rec_token_ids = [5, 6],
     source_range = \<lparr>tr_start = 7, tr_end = 9\<rparr>, cache_key = lc_cache_key example_raw\<rparr>"

definition example_sidecar :: "py_error sidecar" where
  "example_sidecar n f = Inr [Some example_side_record]"

lemma example_raw_wf: "wf_tokens [5, 6, 9]" "list_all wf_lmcache_candidate [example_raw]"
  by (simp_all add: example_raw_def wf_simps range_len_def MAX_TOKEN_ID_def)

lemma example_slice: "prompt_slice [5, 6, 9] (lc_target_range example_raw) = [5, 6]"
  by (simp add: prompt_slice_def example_raw_def)

lemma example_exact: "exact_records example_namespace [5, 6, 9] example_raw [Some example_side_record] = {example_side_record}"
  by (auto simp: exact_records_def example_slice example_side_record_def)

lemma example_fresh: "fresh [5, 6, 9] example_raw"
  by (simp add: example_raw_def)

lemma example_bindable: "bindable example_sidecar example_namespace [5, 6, 9] example_raw"
  using example_fresh example_exact by (simp add: bindable_def example_sidecar_def)

lemma example_lookup_plan:
  "\<exists>p v. lookup_plan example_sidecar (map PInt [5, 6, 9]) example_namespace (map Some [example_raw]) = Inr p \<and> lp_verified p = [v]"
proof -
  let ?o = "outcome example_sidecar example_namespace [5, 6, 9] example_raw"
  have b: "tr_end (lc_target_range example_raw) \<le> int (length [5, 6, 9 :: int])" by (simp add: example_raw_def)
  have w: "wf_lmcache_candidate example_raw" using example_raw_wf by simp
  obtain r where r: "?o = Inr r"
    using outcome_total [OF example_raw_wf(1) w, of example_sidecar example_namespace] b by (auto simp: example_sidecar_def)
  then obtain v where v: "?o = Inr (True, Inr v)"
    using outcome_bindable [OF example_raw_wf(1) w b example_bindable r] by auto
  then obtain cache where o: "candidate_outcome example_sidecar example_namespace [5, 6, 9] (sha256 (query_preimage [5, 6, 9]))
      Map.empty example_raw = Inr (cache, True, Inr v)" by (auto simp: outcome_def result_simps)
  have c: "vc_candidate v = example_raw" using outcome_verified [OF example_raw_wf(1) w v] by simp
  have "select_potentials [\<lparr>pc_raw_index = 0, pc_verified = v\<rparr>] = [0]"
    by (simp add: select_potentials_def select_intervals_def order_indexes_def selection_solutions_def
        selection_step_def better_solution_def Let_def c example_raw_def range_len_def)
  then show ?thesis
    unfolding lookup_plan_eq [OF example_raw_wf(1)]
    by (simp add: o record_outcome_def finish_lookup_def select_verified_def unselected_rejections_def order_rejections_def
        LmcacheLookupCounters_init_def c Let_def) (simp add: example_raw_def range_len_def)
qed

section \<open>Properties\<close>

text \<open>
  C11. Soundness: every candidate a lookup plan verifies is one of the raw candidates, was computed for
  this very prompt, and is bound to a record that the sidecar returned for the fingerprint of the
  prompt slice, with the candidate's cache key, the requested namespace, exactly the tokens of the
  slice and their recomputed fingerprint; every other such record was produced at the same source
  position, so the position shift of its keys is known.
\<close>

theorem lookup_plan_sound:
  assumes "lookup_plan lookup (map PInt prompt) n (map Some raw) = Inr p"
    "wf_tokens prompt" "list_all wf_lmcache_candidate raw" "v \<in> set (lp_verified p)"
  shows "vc_candidate v \<in> set raw \<and> fresh prompt (vc_candidate v) \<and>
    vm_target (vc_match v) = \<lparr>token_range = lc_target_range (vc_candidate v),
      token_ids = prompt_slice prompt (lc_target_range (vc_candidate v))\<rparr> \<and>
    (\<exists>rs. slice_lookup lookup n prompt (vc_candidate v) = Inr rs \<and>
       vm_record (vc_match v) \<in> exact_records n prompt (vc_candidate v) rs \<and>
       source_range ` exact_records n prompt (vc_candidate v) rs = {source_range (vm_record (vc_match v))})"
proof -
  note v = lookup_plan_verified [OF assms]
  then have "wf_lmcache_candidate (vc_candidate v)" using assms(3) by (auto simp: list_all_iff)
  then show ?thesis using outcome_verified [OF assms(2), of "vc_candidate v" lookup n True v] v by blast
qed

theorem lookup_plan_sound_witness:
  "\<exists>p v. lookup_plan example_sidecar (map PInt [5, 6, 9]) example_namespace (map Some [example_raw]) = Inr p \<and>
     lp_verified p = [v] \<and> vc_candidate v = example_raw \<and> tr_start (source_range (vm_record (vc_match v))) = 7"
proof -
  obtain p v where p: "lookup_plan example_sidecar (map PInt [5, 6, 9]) example_namespace (map Some [example_raw]) = Inr p"
    "lp_verified p = [v]" using example_lookup_plan by blast
  then show ?thesis using lookup_plan_sound [OF p(1) example_raw_wf, of v]
    by (auto simp: example_sidecar_def example_exact) (simp add: example_side_record_def)
qed

text \<open>
  C13. Success and failure: on well-formed tokens and candidates planning succeeds exactly when every
  candidate lies inside the prompt and the sidecar answers with records for every fresh one; its
  errors are only those three causes.  In particular the binding and the accounting invariants that
  the code rechecks never fail.
\<close>

theorem lookup_plan_succeeds_iff:
  assumes "wf_tokens prompt" "list_all wf_lmcache_candidate raw"
  shows "((\<exists>p. lookup_plan lookup (map PInt prompt) n (map Some raw) = Inr p) \<longleftrightarrow>
      list_all (\<lambda>c. tr_end (lc_target_range c) \<le> int (length prompt) \<and>
        (fresh prompt c \<longrightarrow> (\<exists>rs. slice_lookup lookup n prompt c = Inr rs \<and> None \<notin> set rs))) raw) \<and>
    (\<forall>e. lookup_plan lookup (map PInt prompt) n (map Some raw) = Inl e \<longrightarrow>
      e \<in> LmcacheLookupError ` {TARGET_RANGE_OUT_OF_BOUNDS, SIDECAR_LOOKUP_FAILED, INVALID_SIDECAR_RESPONSE})"
proof -
  have wf: "\<forall>c\<in>set raw. wf_lmcache_candidate c" using assms(2) by (simp add: list_all_iff)
  note loop = lookup_loop_inv [OF initial_loop_inv [of lookup n prompt raw] assms(1) wf, simplified]
  note tot = outcome_total [OF assms(1), of _ lookup n]
  have err: "e \<in> LmcacheLookupError ` {TARGET_RANGE_OUT_OF_BOUNDS, SIDECAR_LOOKUP_FAILED, INVALID_SIDECAR_RESPONSE}"
    if "outcome lookup n prompt c = Inl e" "wf_lmcache_candidate c" for c e
  proof (cases "tr_end (lc_target_range c) \<le> int (length prompt)")
    case True
    then show ?thesis using that outcome_eq [OF assms(1) that(2) True, of lookup n]
      by (auto simp: result_simps Let_def lookup_bucket_def split: if_splits sum.splits)
  qed (use that in \<open>simp add: outcome_def candidate_outcome_def\<close>)
  show ?thesis
  proof (intro conjI iffI allI impI)
    assume "\<exists>p. lookup_plan lookup (map PInt prompt) n (map Some raw) = Inr p"
    then obtain p st where "\<forall>i<length raw. \<exists>r. outcome lookup n prompt (raw ! i) = Inr r"
      using lookup_plan_Inr [OF _ assms] by metis
    then show "list_all (\<lambda>c. tr_end (lc_target_range c) \<le> int (length prompt) \<and>
        (fresh prompt c \<longrightarrow> (\<exists>rs. slice_lookup lookup n prompt c = Inr rs \<and> None \<notin> set rs))) raw"
      using tot wf by (auto simp: list_all_length)
  next
    fix e
    assume e: "lookup_plan lookup (map PInt prompt) n (map Some raw) = Inl e"
    show "e \<in> LmcacheLookupError ` {TARGET_RANGE_OUT_OF_BOUNDS, SIDECAR_LOOKUP_FAILED, INVALID_SIDECAR_RESPONSE}"
    proof (cases "lookup_loop lookup n prompt (sha256 (query_preimage prompt)) initial_loop (List.enumerate 0 raw)")
      case (Inl e')
      then obtain i where i: "i < length raw" "outcome lookup n prompt (raw ! i) = Inl e'" using loop by auto
      moreover have "e = e'" using e Inl by (simp add: lookup_plan_eq [OF assms(1)])
      ultimately show ?thesis using err [OF i(2)] wf by simp
    next
      case (Inr st)
      then have "loop_inv lookup n prompt raw (length raw) st" using loop by auto
      from finish_lookup_Inr [OF this wf] obtain p where "finish_lookup raw st = Inr p" by metis
      then show ?thesis using e Inr by (simp add: lookup_plan_eq [OF assms(1)])
    qed
  qed (rule lookup_plan_returns [OF assms])
qed

theorem lookup_plan_succeeds_iff_witness:
  "\<exists>p. lookup_plan example_sidecar (map PInt [5, 6, 9]) example_namespace (map Some [example_raw]) = Inr p"
proof -
  have "list_all (\<lambda>c. tr_end (lc_target_range c) \<le> int (length [5, 6, 9 :: int]) \<and> (fresh [5, 6, 9] c \<longrightarrow>
      (\<exists>rs. slice_lookup example_sidecar example_namespace [5, 6, 9] c = Inr rs \<and> None \<notin> set rs))) [example_raw]"
    by (simp add: example_sidecar_def) (simp add: example_raw_def)
  then show ?thesis using lookup_plan_succeeds_iff [OF example_raw_wf, of example_sidecar example_namespace] by blast
qed

text \<open>
  C12. Optimality: the verified candidates of a plan follow one another in the prompt without overlap,
  and no conflict-free set of raw candidates that could be bound covers more tokens.
\<close>

theorem lookup_plan_optimal:
  assumes plan: "lookup_plan lookup (map PInt prompt) n (map Some raw) = Inr p"
    and wf: "wf_tokens prompt" "list_all wf_lmcache_candidate raw"
    and J: "J \<subseteq> {..<length raw}" "\<forall>i\<in>J. bindable lookup n prompt (raw ! i)"
      "\<forall>i\<in>J. \<forall>j\<in>J. i \<noteq> j \<longrightarrow> \<not> overlaps (lc_target_range (raw ! i)) (lc_target_range (raw ! j))"
  shows "sorted_wrt (\<lambda>a b. tr_end (lc_target_range (vc_candidate a)) \<le> tr_start (lc_target_range (vc_candidate b))) (lp_verified p) \<and>
    (\<Sum>i\<in>J. candidate_tokens (raw ! i)) \<le> verified_candidate_tokens (lp_counters p)"
proof (rule conjI)
  show "sorted_wrt (\<lambda>a b. tr_end (lc_target_range (vc_candidate a)) \<le> tr_start (lc_target_range (vc_candidate b))) (lp_verified p)"
    by (rule lookup_plan_sequential [OF plan wf])
  obtain st where inv: "loop_inv lookup n prompt raw (length raw) st" and fin: "finish_lookup raw st = Inr p"
    and tot: "\<forall>i<length raw. \<exists>r. outcome lookup n prompt (raw ! i) = Inr r"
    by (rule lookup_plan_Inr [OF plan wf])
  have wf': "\<forall>c\<in>set raw. wf_lmcache_candidate c" using wf(2) by (simp add: list_all_iff)
  let ?ps = "ll_potentials st" and ?ix = "\<lambda>k. pc_raw_index (ll_potentials st ! k)"
  define K where "K = {k. k < length ?ps \<and> ?ix k \<in> J}"
  have ok: "potentials_ok lookup n prompt raw (length raw) ?ps" using inv by (simp add: loop_inv_def)
  have cand: "pc_candidate (?ps ! k) = raw ! ?ix k" if "k \<in> K" for k
    using ok that by (auto simp: potentials_ok_def K_def)
  have inj: "inj_on ?ix K" using ok by (auto simp: potentials_ok_def K_def inj_on_def distinct_conv_nth)
  have img: "?ix ` K = J"
  proof
    show "J \<subseteq> ?ix ` K"
    proof
      fix i assume i: "i \<in> J"
      then have "i < length raw" "bindable lookup n prompt (raw ! i)" using J by auto
      then have "\<exists>v. outcome lookup n prompt (raw ! i) = Inr (True, Inr v)"
        using tot outcome_bindable [OF wf(1) _ _ \<open>bindable lookup n prompt (raw ! i)\<close>] outcome_in_bounds wf' by (metis nth_mem)
      then have "i \<in> pc_raw_index ` set ?ps" using inv \<open>i < length raw\<close> by (auto simp: loop_inv_def)
      then show "i \<in> ?ix ` K" using i by (auto simp: K_def in_set_conv_nth image_iff)
    qed
  qed (auto simp: K_def)
  have "K \<subseteq> {..<length ?ps}" by (auto simp: K_def)
  moreover have "\<forall>i\<in>K. \<forall>j\<in>K. i \<noteq> j \<longrightarrow> \<not> overlaps (lc_target_range (pc_candidate (?ps ! i))) (lc_target_range (pc_candidate (?ps ! j)))"
    using J(3) cand inj img by (metis image_eqI inj_onD)
  ultimately have "(\<Sum>k\<in>K. candidate_tokens (pc_candidate (?ps ! k))) \<le>
      (\<Sum>i\<in>set (select_potentials ?ps). candidate_tokens (pc_candidate (?ps ! i)))"
    using potential_jobs.select_intervals_best(4) [OF loop_potentials_wf [OF inv wf']] by (simp add: select_potentials_def)
  moreover have "(\<Sum>k\<in>K. candidate_tokens (pc_candidate (?ps ! k))) = (\<Sum>i\<in>J. candidate_tokens (raw ! i))"
    unfolding img [symmetric] using inj cand by (simp add: sum.reindex)
  moreover have "verified_candidate_tokens (lp_counters p) =
      (\<Sum>i\<in>set (select_potentials ?ps). candidate_tokens (pc_candidate (?ps ! i)))"
    by (rule finish_lookup_Inr [OF inv wf']) (use fin in auto)
  ultimately show "(\<Sum>i\<in>J. candidate_tokens (raw ! i)) \<le> verified_candidate_tokens (lp_counters p)" by simp
qed

theorem lookup_plan_optimal_witness:
  "\<exists>p. lookup_plan example_sidecar (map PInt [5, 6, 9]) example_namespace (map Some [example_raw]) = Inr p \<and>
     2 \<le> verified_candidate_tokens (lp_counters p)"
proof -
  obtain p where p: "lookup_plan example_sidecar (map PInt [5, 6, 9]) example_namespace (map Some [example_raw]) = Inr p"
    using example_lookup_plan by blast
  have "candidate_tokens example_raw = 2" by (simp add: example_raw_def range_len_def)
  then show ?thesis using lookup_plan_optimal [OF p example_raw_wf, of "{0}"] p example_bindable by simp
qed

text \<open>
  C14. Accounting: every raw candidate is in the plan exactly once, verified or rejected; a rejection
  gives the reason its own examination found, or says that an exact candidate lost to the selection,
  as a duplicate of a selected one or because it overlaps one.  The positions the plan reports as
  found are distinct prompt positions, at least as many as it verifies.
\<close>

theorem lookup_plan_accounts:
  assumes plan: "lookup_plan lookup (map PInt prompt) n (map Some raw) = Inr p"
    and wf: "wf_tokens prompt" "list_all wf_lmcache_candidate raw"
  shows "mset raw = mset (map vc_candidate (lp_verified p)) + mset (map rl_candidate (lp_rejected p)) \<and>
    list_all (\<lambda>r. if rl_reason r \<in> {DUPLICATE_CANDIDATE, OVERLAPS_SELECTED_CANDIDATE}
        then bindable lookup n prompt (rl_candidate r) \<and>
          (rl_reason r = DUPLICATE_CANDIDATE \<longleftrightarrow> rl_candidate r \<in> vc_candidate ` set (lp_verified p))
        else \<exists>found. outcome lookup n prompt (rl_candidate r) = Inr (found, Inl (rl_reason r))) (lp_rejected p) \<and>
    verified_candidate_tokens (lp_counters p) \<le> found_target_token_count p \<and>
    found_target_token_count p \<le> int (length prompt)"
proof (intro conjI)
  obtain st where inv: "loop_inv lookup n prompt raw (length raw) st" and fin: "finish_lookup raw st = Inr p"
    and tot: "\<forall>i<length raw. \<exists>r. outcome lookup n prompt (raw ! i) = Inr r"
    by (rule lookup_plan_Inr [OF plan wf])
  have wf': "\<forall>c\<in>set raw. wf_lmcache_candidate c" using wf(2) by (simp add: list_all_iff)
  show all: "mset raw = mset (map vc_candidate (lp_verified p)) + mset (map rl_candidate (lp_rejected p))"
    by (rule lookup_plan_partition [OF plan wf])
  then have sub: "vc_candidate ` set (lp_verified p) \<union> rl_candidate ` set (lp_rejected p) = set raw"
    using arg_cong [OF all, of set_mset] by (metis set_image_mset set_mset_mset set_mset_union mset_map)
  show "list_all (\<lambda>r. if rl_reason r \<in> {DUPLICATE_CANDIDATE, OVERLAPS_SELECTED_CANDIDATE}
        then bindable lookup n prompt (rl_candidate r) \<and>
          (rl_reason r = DUPLICATE_CANDIDATE \<longleftrightarrow> rl_candidate r \<in> vc_candidate ` set (lp_verified p))
        else \<exists>found. outcome lookup n prompt (rl_candidate r) = Inr (found, Inl (rl_reason r))) (lp_rejected p)"
    unfolding list_all_iff
  proof
    fix r assume r: "r \<in> set (lp_rejected p)"
    then have w: "wf_lmcache_candidate (rl_candidate r)" using wf' sub by blast
    show "if rl_reason r \<in> {DUPLICATE_CANDIDATE, OVERLAPS_SELECTED_CANDIDATE}
        then bindable lookup n prompt (rl_candidate r) \<and>
          (rl_reason r = DUPLICATE_CANDIDATE \<longleftrightarrow> rl_candidate r \<in> vc_candidate ` set (lp_verified p))
        else \<exists>found. outcome lookup n prompt (rl_candidate r) = Inr (found, Inl (rl_reason r))"
      using lookup_plan_rejected [OF plan wf r] outcome_rejected [OF wf(1) w, of lookup n]
        outcome_verified_bindable [OF wf(1) w, of lookup n] by (auto split: if_splits)
  qed
  show "verified_candidate_tokens (lp_counters p) \<le> found_target_token_count p"
    "found_target_token_count p \<le> int (length prompt)"
    using lookup_plan_found [OF plan wf] sub by simp_all
qed


theorem lookup_plan_accounts_witness:
  "\<exists>p. lookup_plan example_sidecar (map PInt [5, 6, 9]) example_namespace (map Some [example_raw]) = Inr p \<and>
     found_target_token_count p \<le> 3 \<and>
     mset [example_raw] = mset (map vc_candidate (lp_verified p)) + mset (map rl_candidate (lp_rejected p))"
proof -
  obtain p where p: "lookup_plan example_sidecar (map PInt [5, 6, 9]) example_namespace (map Some [example_raw]) = Inr p"
    using example_lookup_plan by blast
  then show ?thesis using lookup_plan_accounts [OF p example_raw_wf] by simp
qed

end
