(* ===== verification/SchedulerRuntime.thy ===== *)
theory SchedulerRuntime
  imports ControlPlane Layout Lookup
begin

text \<open>
  \<^verbatim>\<open>vllm_compat/v0_19_1/scheduler_runtime.py\<close>: the scheduler's half of the connector.  The
  runtime owns one candidate transport and the immutable lookup result of every live request; it
  reports no external tokens, degrades on an unavailable server and stays fatal after any protocol
  drift.  The injected collaborators (the transport, its replacement factory and the lookup
  coordinator) are the functions of an \<open>Environment\<close> over an arbitrary world state \<open>'w\<close>: each call
  may raise and may change the world, so nothing is assumed of them.  A method returns its result or
  exception together with the runtime and the world it leaves behind, because the runtime keeps the
  assignments made before a raise.
\<close>

section \<open>Codes, states and statuses\<close>

datatype SchedulerRuntimeErrorCode = INVALID_CONFIG | INVALID_INPUT | INVALID_METADATA | CLOSE_FAILED

text \<open>What a call may raise: the runtime's own error, or one of the control plane's constructors.\<close>

datatype scheduler_error = SchedulerRuntimeError SchedulerRuntimeErrorCode | PlanError ControlPlaneErrorCode

datatype SchedulerRuntimeState = CREATED | READY | DEGRADED | FATAL | CLOSED

datatype SchedulerLookupStatus =
  TRANSFER_READY | FULL_PREFILL_MISS | FULL_PREFILL_TRANSPORT_ERROR | FULL_PREFILL_SIDECAR_ERROR
| FULL_PREFILL_SEQUENCE_INELIGIBLE | FULL_PREFILL_STEP_INELIGIBLE | FULL_PREFILL_PROMPT_TOO_LARGE
| FATAL_NONZERO_EXTERNAL_TOKENS | FATAL_PROTOCOL_DRIFT | FATAL_TRANSPORT_CLEANUP
| FATAL_SIDECAR_CORRUPTION | FATAL_DUPLICATE_CONFLICT | FATAL_RUNTIME_CLOSED

fun status_value :: "SchedulerLookupStatus \<Rightarrow> string" where
  "status_value TRANSFER_READY = ''transfer_ready''"
| "status_value FULL_PREFILL_MISS = ''full_prefill_miss''"
| "status_value FULL_PREFILL_TRANSPORT_ERROR = ''full_prefill_transport_error''"
| "status_value FULL_PREFILL_SIDECAR_ERROR = ''full_prefill_sidecar_error''"
| "status_value FULL_PREFILL_SEQUENCE_INELIGIBLE = ''full_prefill_sequence_ineligible''"
| "status_value FULL_PREFILL_STEP_INELIGIBLE = ''full_prefill_step_ineligible''"
| "status_value FULL_PREFILL_PROMPT_TOO_LARGE = ''full_prefill_prompt_too_large''"
| "status_value FATAL_NONZERO_EXTERNAL_TOKENS = ''fatal_nonzero_external_tokens''"
| "status_value FATAL_PROTOCOL_DRIFT = ''fatal_protocol_drift''"
| "status_value FATAL_TRANSPORT_CLEANUP = ''fatal_transport_cleanup''"
| "status_value FATAL_SIDECAR_CORRUPTION = ''fatal_sidecar_corruption''"
| "status_value FATAL_DUPLICATE_CONFLICT = ''fatal_duplicate_conflict''"
| "status_value FATAL_RUNTIME_CLOSED = ''fatal_runtime_closed''"

definition is_fatal :: "SchedulerLookupStatus \<Rightarrow> bool" where
  "is_fatal s \<longleftrightarrow> take 6 (status_value s) = ''fatal_''"

definition status_requires_full_prefill :: "SchedulerLookupStatus \<Rightarrow> bool" where
  "status_requires_full_prefill s \<longleftrightarrow> s \<noteq> TRANSFER_READY"

section \<open>Requests and metadata\<close>

record SchedulerLookupRequest =
  rq_request_id :: string
  rq_prompt_token_ids :: "int list"
  rq_sequence_count :: int
  rq_scheduler_step_index :: int
  rq_num_computed_tokens :: int
  rq_num_external_tokens :: int
  rq_preemption_count :: int

definition SchedulerLookupRequest_init ::
    "string \<Rightarrow> pyval list \<Rightarrow> pyval \<Rightarrow> pyval \<Rightarrow> pyval \<Rightarrow> pyval \<Rightarrow> pyval \<Rightarrow> scheduler_error + SchedulerLookupRequest" where
  "SchedulerLookupRequest_init request_id prompt_token_ids sequence_count step computed ext preemptions =
     (if request_id = [] \<or> length request_id > MAX_REQUEST_ID_BYTES then Inl (SchedulerRuntimeError INVALID_INPUT)
      else case normalize_token_ids prompt_token_ids of
        Inl _ \<Rightarrow> Inl (SchedulerRuntimeError INVALID_INPUT)
      | Inr prompt \<Rightarrow>
          if prompt = [] \<or> int (length prompt) > GPT_OSS_MAX_CONTEXT_TOKENS then Inl (SchedulerRuntimeError INVALID_INPUT)
          else if \<not> list_all nonneg_int [sequence_count, step, computed, ext, preemptions]
          then Inl (SchedulerRuntimeError INVALID_INPUT)
          else if the_int sequence_count < 1 \<or> the_int computed > int (length prompt)
          then Inl (SchedulerRuntimeError INVALID_INPUT)
          else Inr \<lparr>rq_request_id = request_id, rq_prompt_token_ids = prompt,
                    rq_sequence_count = the_int sequence_count, rq_scheduler_step_index = the_int step,
                    rq_num_computed_tokens = the_int computed, rq_num_external_tokens = the_int ext,
                    rq_preemption_count = the_int preemptions\<rparr>)"

text \<open>\<^verbatim>\<open>dataclasses.replace(request, preemption_count=k)\<close> validates again.\<close>

definition replace_preemption_count :: "SchedulerLookupRequest \<Rightarrow> int \<Rightarrow> scheduler_error + SchedulerLookupRequest" where
  "replace_preemption_count r k =
     SchedulerLookupRequest_init (rq_request_id r) (map PInt (rq_prompt_token_ids r)) (PInt (rq_sequence_count r))
       (PInt (rq_scheduler_step_index r)) (PInt (rq_num_computed_tokens r)) (PInt (rq_num_external_tokens r)) (PInt k)"

record SchedulerLookupMetadata =
  md_schema_version :: int
  md_request_plan :: RequestPlan
  md_prompt_token_ids :: "int list"
  md_query_windows :: "TokenRange list"
  md_lookup_plan :: LmcacheLookupPlan
  md_status :: SchedulerLookupStatus
  md_preemption_count :: int
  md_allocation_generation :: int
  md_external_scheduler_tokens :: int
  md_load_kv_async :: bool

definition SchedulerLookupMetadata_init :: "SchedulerLookupMetadata \<Rightarrow> scheduler_error + SchedulerLookupMetadata" where
  "SchedulerLookupMetadata_init m =
     (if md_schema_version m \<noteq> METADATA_SCHEMA_VERSION then Inl (SchedulerRuntimeError INVALID_METADATA)
      else case normalize_token_ids (map PInt (md_prompt_token_ids m)) of
        Inl _ \<Rightarrow> Inl (SchedulerRuntimeError INVALID_METADATA)
      | Inr prompt \<Rightarrow>
          if prompt = [] \<or> rp_prompt_tokens (md_request_plan m) \<noteq> int (length prompt)
          then Inl (SchedulerRuntimeError INVALID_METADATA)
          else if \<exists>w\<in>set (md_query_windows m). range_len w \<noteq> LMCACHE_CHUNK_SIZE \<or> tr_end w > int (length prompt)
          then Inl (SchedulerRuntimeError INVALID_METADATA)
          else
            let expected_window_count = max 0 (int (length prompt) - LMCACHE_CHUNK_SIZE + 1);
                windows_required = md_status m \<in> {TRANSFER_READY, FULL_PREFILL_MISS, FULL_PREFILL_TRANSPORT_ERROR,
                  FULL_PREFILL_SIDECAR_ERROR};
                expected_matches = map vc_match (lp_verified (md_lookup_plan m))
            in if windows_required \<and> int (length (md_query_windows m)) \<noteq> expected_window_count
               then Inl (SchedulerRuntimeError INVALID_METADATA)
               else if \<exists>(start, w)\<in>set (List.enumerate 0 (md_query_windows m)).
                   tr_start w \<noteq> int start \<or> tr_end w \<noteq> int start + LMCACHE_CHUNK_SIZE
               then Inl (SchedulerRuntimeError INVALID_METADATA)
               else if md_preemption_count m < 0 \<or> md_allocation_generation m < 0
               then Inl (SchedulerRuntimeError INVALID_METADATA)
               else if md_external_scheduler_tokens m \<noteq> FULL_RECOMPUTE_EXTERNAL_TOKENS \<or> md_load_kv_async m
               then Inl (SchedulerRuntimeError INVALID_METADATA)
               else if matches (rp_match_plan (md_request_plan m)) \<noteq> expected_matches
               then Inl (SchedulerRuntimeError INVALID_METADATA)
               else if md_status m = TRANSFER_READY
               then (if expected_matches = [] \<or> md_query_windows m = [] then Inl (SchedulerRuntimeError INVALID_METADATA)
                     else Inr (m\<lparr>md_prompt_token_ids := prompt\<rparr>))
               else if expected_matches \<noteq> [] then Inl (SchedulerRuntimeError INVALID_METADATA)
               else Inr (m\<lparr>md_prompt_token_ids := prompt\<rparr>))"

definition should_transfer :: "SchedulerLookupMetadata \<Rightarrow> bool" where
  "should_transfer m \<longleftrightarrow> md_status m = TRANSFER_READY"

record StoredRequest =
  so_request :: SchedulerLookupRequest
  so_metadata :: SchedulerLookupMetadata

definition empty_lookup_plan :: LmcacheLookupPlan where
  "empty_lookup_plan = \<lparr>lp_verified = [], lp_rejected = [], lp_counters =
     \<lparr>raw_candidates = 0, raw_candidate_tokens = 0, found_candidates = 0, found_candidate_tokens = 0,
      verified_candidates = 0, verified_candidate_tokens = 0, rejected_candidates_count = 0,
      rejected_candidate_tokens = 0\<rparr>\<rparr>"

definition request_plan_of :: "SchedulerLookupRequest \<Rightarrow> LmcacheLookupPlan \<Rightarrow> scheduler_error + RequestPlan" where
  "request_plan_of request lplan =
     (let ms = map vc_match (lp_verified lplan); segments = map vm_target ms in
      case RequestPlan_init (rq_request_id request) (int (length (rq_prompt_token_ids request))) segments
          \<lparr>matches = ms, rejected_candidates = [], requested_tokens = sum_list (map segment_len segments)\<rparr> of
        Inl e \<Rightarrow> Inl (PlanError e) | Inr p \<Rightarrow> Inr p)"

definition query_windows :: "int \<Rightarrow> TokenRange list" where
  "query_windows prompt_tokens =
     (if prompt_tokens < LMCACHE_CHUNK_SIZE then []
      else map (\<lambda>s. \<lparr>tr_start = s, tr_end = s + LMCACHE_CHUNK_SIZE\<rparr>) [0..prompt_tokens - LMCACHE_CHUNK_SIZE])"

text \<open>An exception with its chain of causes, outermost first.\<close>

datatype exception_kind = SidecarCorruptionError | SidecarSchemaError | OtherException

fun sidecar_corruption :: "exception_kind list \<Rightarrow> bool" where
  "sidecar_corruption [] = False"
| "sidecar_corruption (cause # causes) =
     (if cause \<in> {SidecarCorruptionError, SidecarSchemaError} then True else sidecar_corruption causes)"

section \<open>The environment and the runtime\<close>

datatype transport_exn = LmcacheOperationError | LmcacheProtocolFailure | OtherTransportError | ForeignException

datatype coordinator_exn =
  CoordinatorLookupError LmcacheLookupErrorCode "exception_kind list"
| CoordinatorSidecarError
| CoordinatorOther

text \<open>
  Transports are identified by a number, so that \<^verbatim>\<open>replacement is self._transport\<close> is equality.
  \<open>None\<close> stands for a value of the wrong class.
\<close>

record 'w Environment =
  env_config :: "nat \<Rightarrow> 'w \<Rightarrow> (transport_exn + LmcacheBlendTransportConfig option) \<times> 'w"
  env_open :: "nat \<Rightarrow> 'w \<Rightarrow> (transport_exn + unit) \<times> 'w"
  env_lookup_candidates :: "nat \<Rightarrow> int list \<Rightarrow> string \<Rightarrow> 'w \<Rightarrow> (transport_exn + LmcacheCandidate option list option) \<times> 'w"
  env_close :: "nat \<Rightarrow> 'w \<Rightarrow> (transport_exn + unit) \<times> 'w"
  env_factory :: "'w \<Rightarrow> (transport_exn + nat) \<times> 'w"
  env_plan :: "int list \<Rightarrow> CacheNamespace \<Rightarrow> LmcacheCandidate list \<Rightarrow> 'w \<Rightarrow> (coordinator_exn + LmcacheLookupPlan option) \<times> 'w"

text \<open>The two fields of \<^verbatim>\<open>Transfer100PctConfig\<close> that the runtime reads.\<close>

record SchedulerConfig =
  sc_namespace :: CacheNamespace
  sc_staging_token_capacity :: int

record SchedulerLookupRuntime =
  sl_config :: SchedulerConfig
  sl_transport :: nat
  sl_transport_config :: LmcacheBlendTransportConfig
  sl_transport_needs_close :: bool
  sl_state :: SchedulerRuntimeState
  sl_fatal_status :: "SchedulerLookupStatus option"
  sl_requests :: "string \<rightharpoonup> StoredRequest"

definition SchedulerLookupRuntime_init ::
    "'w Environment \<Rightarrow> SchedulerConfig \<Rightarrow> nat \<Rightarrow> 'w \<Rightarrow> (scheduler_error + SchedulerLookupRuntime) \<times> 'w" where
  "SchedulerLookupRuntime_init env config transport w =
     (case env_config env transport w of
        (Inr (Some tc), w) \<Rightarrow>
          (if cf_namespace tc \<noteq> sc_namespace config \<or> cf_chunk_size tc \<noteq> LMCACHE_CHUNK_SIZE
           then Inl (SchedulerRuntimeError INVALID_CONFIG)
           else Inr \<lparr>sl_config = config, sl_transport = transport, sl_transport_config = tc,
                     sl_transport_needs_close = True, sl_state = CREATED, sl_fatal_status = None,
                     sl_requests = Map.empty\<rparr>, w)
      | (_, w) \<Rightarrow> (Inl (SchedulerRuntimeError INVALID_CONFIG), w))"

definition active_request_count :: "SchedulerLookupRuntime \<Rightarrow> nat" where
  "active_request_count rt = card (dom (sl_requests rt))"

definition mark_fatal :: "SchedulerLookupStatus \<Rightarrow> SchedulerLookupRuntime \<Rightarrow> scheduler_error + SchedulerLookupRuntime" where
  "mark_fatal status rt =
     (if \<not> is_fatal status then Inl (SchedulerRuntimeError INVALID_METADATA)
      else Inr (rt\<lparr>sl_fatal_status := Some status, sl_requests := Map.empty, sl_state := FATAL\<rparr>))"

text \<open>\<open>mark_fatal\<close> at a call that passes one of the fatal statuses, where it cannot raise.\<close>

definition marked :: "SchedulerLookupStatus \<Rightarrow> SchedulerLookupRuntime \<Rightarrow> SchedulerLookupRuntime" where
  "marked status rt = (case mark_fatal status rt of Inl _ \<Rightarrow> rt | Inr rt \<Rightarrow> rt)"

definition open_transport ::
    "'w Environment \<Rightarrow> SchedulerLookupRuntime \<Rightarrow> 'w \<Rightarrow>
     (scheduler_error + SchedulerRuntimeState) \<times> SchedulerLookupRuntime \<times> 'w" where
  "open_transport env rt w =
     (if sl_state rt \<in> {READY, DEGRADED, FATAL} then (Inr (sl_state rt), rt, w)
      else if sl_state rt = CLOSED then (Inl (SchedulerRuntimeError INVALID_INPUT), rt, w)
      else
        let (result, w) = env_open env (sl_transport rt) w;
            rt = (case result of
                    Inr _ \<Rightarrow> rt\<lparr>sl_state := READY\<rparr>
                  | Inl LmcacheOperationError \<Rightarrow> rt\<lparr>sl_state := DEGRADED\<rparr>
                  | Inl _ \<Rightarrow> marked FATAL_PROTOCOL_DRIFT rt)
        in (Inr (sl_state rt), rt, w))"

definition retry_degraded_transport_once ::
    "'w Environment \<Rightarrow> SchedulerLookupRuntime \<Rightarrow> 'w \<Rightarrow>
     (scheduler_error + SchedulerRuntimeState) \<times> SchedulerLookupRuntime \<times> 'w" where
  "retry_degraded_transport_once env rt w =
     (let (closed, w) = (if sl_transport_needs_close rt then env_close env (sl_transport rt) w else (Inr (), w)) in
      if (case closed of Inl _ \<Rightarrow> True | Inr _ \<Rightarrow> False)
      then (Inr FATAL, marked FATAL_TRANSPORT_CLEANUP rt, w)
      else
        let rt = rt\<lparr>sl_transport_needs_close := False\<rparr>;
            (made, w) = env_factory env w
        in case made of
             Inl LmcacheOperationError \<Rightarrow> (Inr DEGRADED, rt\<lparr>sl_state := DEGRADED\<rparr>, w)
           | Inl _ \<Rightarrow> (Inr FATAL, marked FATAL_PROTOCOL_DRIFT rt, w)
           | Inr replacement \<Rightarrow>
               if replacement = sl_transport rt then (Inr FATAL, marked FATAL_PROTOCOL_DRIFT rt, w)
               else
                 let (config, w) = env_config env replacement w;
                     valid_config = (case config of
                         Inr (Some tc) \<Rightarrow> tc = sl_transport_config rt \<and> cf_namespace tc = sc_namespace (sl_config rt) \<and>
                           cf_chunk_size tc = LMCACHE_CHUNK_SIZE
                       | _ \<Rightarrow> False)
                 in if \<not> valid_config
                    then (let (closed, w) = env_close env replacement w in
                          case closed of
                            Inl _ \<Rightarrow> (Inr FATAL, marked FATAL_TRANSPORT_CLEANUP rt, w)
                          | Inr _ \<Rightarrow> (Inr FATAL, marked FATAL_PROTOCOL_DRIFT rt, w))
                    else open_transport env
                      (rt\<lparr>sl_transport := replacement, sl_transport_needs_close := True, sl_state := CREATED\<rparr>) w)"

definition eligibility_status ::
    "SchedulerLookupRequest \<Rightarrow> SchedulerLookupRuntime \<Rightarrow> SchedulerLookupStatus option \<times> SchedulerLookupRuntime" where
  "eligibility_status request rt =
     (if rq_num_external_tokens request \<noteq> FULL_RECOMPUTE_EXTERNAL_TOKENS
      then (Some FATAL_NONZERO_EXTERNAL_TOKENS, marked FATAL_NONZERO_EXTERNAL_TOKENS rt)
      else if rq_sequence_count request \<noteq> 1 then (Some FULL_PREFILL_SEQUENCE_INELIGIBLE, rt)
      else if rq_scheduler_step_index request \<noteq> 0 \<or> rq_num_computed_tokens request \<noteq> 0
      then (Some FULL_PREFILL_STEP_INELIGIBLE, rt)
      else if int (length (rq_prompt_token_ids request)) > sc_staging_token_capacity (sl_config rt)
      then (Some FULL_PREFILL_PROMPT_TOO_LARGE, rt)
      else (None, rt))"

definition verify_candidates ::
    "'w Environment \<Rightarrow> SchedulerLookupRequest \<Rightarrow> LmcacheCandidate option list option \<Rightarrow> nat \<Rightarrow>
     SchedulerLookupRuntime \<Rightarrow> 'w \<Rightarrow> (SchedulerLookupStatus \<times> LmcacheLookupPlan) \<times> SchedulerLookupRuntime \<times> 'w" where
  "verify_candidates env request candidates query_window_count rt w =
     (case candidates of
        None \<Rightarrow> ((FATAL_PROTOCOL_DRIFT, empty_lookup_plan), marked FATAL_PROTOCOL_DRIFT rt, w)
      | Some cs \<Rightarrow>
          if None \<in> set cs then ((FATAL_PROTOCOL_DRIFT, empty_lookup_plan), marked FATAL_PROTOCOL_DRIFT rt, w)
          else if \<exists>c\<in>set (map the cs). range_len (lc_source_relative_range c) \<noteq> LMCACHE_CHUNK_SIZE \<or>
              range_len (lc_target_range c) \<noteq> LMCACHE_CHUNK_SIZE
          then ((FATAL_PROTOCOL_DRIFT, empty_lookup_plan), marked FATAL_PROTOCOL_DRIFT rt, w)
          else if length cs > query_window_count
          then ((FATAL_PROTOCOL_DRIFT, empty_lookup_plan), marked FATAL_PROTOCOL_DRIFT rt, w)
          else
            let (result, w) = env_plan env (rq_prompt_token_ids request) (sc_namespace (sl_config rt)) (map the cs) w in
            case result of
              Inl (CoordinatorLookupError code causes) \<Rightarrow>
                if sidecar_corruption (OtherException # causes)
                then ((FATAL_SIDECAR_CORRUPTION, empty_lookup_plan), marked FATAL_SIDECAR_CORRUPTION rt, w)
                else if code = SIDECAR_LOOKUP_FAILED then ((FULL_PREFILL_SIDECAR_ERROR, empty_lookup_plan), rt, w)
                else ((FATAL_PROTOCOL_DRIFT, empty_lookup_plan), marked FATAL_PROTOCOL_DRIFT rt, w)
            | Inl CoordinatorSidecarError \<Rightarrow>
                ((FATAL_SIDECAR_CORRUPTION, empty_lookup_plan), marked FATAL_SIDECAR_CORRUPTION rt, w)
            | Inl CoordinatorOther \<Rightarrow> ((FATAL_PROTOCOL_DRIFT, empty_lookup_plan), marked FATAL_PROTOCOL_DRIFT rt, w)
            | Inr None \<Rightarrow> ((FATAL_PROTOCOL_DRIFT, empty_lookup_plan), marked FATAL_PROTOCOL_DRIFT rt, w)
            | Inr (Some lplan) \<Rightarrow>
                if lp_verified lplan \<noteq> [] then ((TRANSFER_READY, lplan), rt, w) else ((FULL_PREFILL_MISS, lplan), rt, w))"

definition build_metadata ::
    "SchedulerLookupRequest \<Rightarrow> SchedulerLookupStatus \<Rightarrow> LmcacheLookupPlan \<Rightarrow> TokenRange list \<Rightarrow> int \<Rightarrow>
     scheduler_error + SchedulerLookupMetadata" where
  "build_metadata request status lplan windows allocation_generation =
     rbind (request_plan_of request lplan) (\<lambda>rp.
       SchedulerLookupMetadata_init
         \<lparr>md_schema_version = METADATA_SCHEMA_VERSION, md_request_plan = rp,
          md_prompt_token_ids = rq_prompt_token_ids request, md_query_windows = windows, md_lookup_plan = lplan,
          md_status = status, md_preemption_count = rq_preemption_count request,
          md_allocation_generation = allocation_generation,
          md_external_scheduler_tokens = FULL_RECOMPUTE_EXTERNAL_TOKENS, md_load_kv_async = False\<rparr>)"

text \<open>Building the metadata and retaining it when its status is not fatal.\<close>

definition retain ::
    "SchedulerLookupRequest \<Rightarrow> SchedulerLookupStatus \<Rightarrow> scheduler_error + SchedulerLookupMetadata \<Rightarrow>
     SchedulerLookupRuntime \<Rightarrow> 'w \<Rightarrow> (scheduler_error + SchedulerLookupMetadata) \<times> SchedulerLookupRuntime \<times> 'w" where
  "retain request status built rt w =
     (case built of
        Inl e \<Rightarrow> (Inl e, rt, w)
      | Inr m \<Rightarrow>
          (Inr m,
           if is_fatal status then rt
           else rt\<lparr>sl_requests := (sl_requests rt)(rq_request_id request \<mapsto> \<lparr>so_request = request, so_metadata = m\<rparr>)\<rparr>, w))"

definition repeat_or_preempt ::
    "StoredRequest \<Rightarrow> SchedulerLookupRequest \<Rightarrow> SchedulerLookupRuntime \<Rightarrow>
     (scheduler_error + SchedulerLookupMetadata) \<times> SchedulerLookupRuntime" where
  "repeat_or_preempt existing request rt =
     (let previous = so_request existing; old = so_metadata existing in
      if request = previous then (Inr old, rt)
      else
        let replaced = (if rq_preemption_count request \<noteq> rq_preemption_count previous + 1 then Inr False
              else rbind (replace_preemption_count request (rq_preemption_count previous)) (\<lambda>r. Inr (r = previous)))
        in case replaced of
             Inl e \<Rightarrow> (Inl e, rt)
           | Inr same \<Rightarrow>
               if \<not> same
               then (build_metadata request FATAL_DUPLICATE_CONFLICT empty_lookup_plan [] (md_allocation_generation old),
                     marked FATAL_DUPLICATE_CONFLICT rt)
               else case SchedulerLookupMetadata_init
                   (old\<lparr>md_preemption_count := rq_preemption_count request,
                        md_allocation_generation := md_allocation_generation old + 1\<rparr>) of
                   Inl e \<Rightarrow> (Inl e, rt)
                 | Inr m \<Rightarrow> (Inr m, rt\<lparr>sl_requests := (sl_requests rt)(rq_request_id request \<mapsto>
                     \<lparr>so_request = request, so_metadata = m\<rparr>)\<rparr>))"

text \<open>The second half of \<^verbatim>\<open>lookup\<close>, once the transport is ready.\<close>

definition lookup_on_transport ::
    "'w Environment \<Rightarrow> SchedulerLookupRequest \<Rightarrow> SchedulerLookupRuntime \<Rightarrow> 'w \<Rightarrow>
     (scheduler_error + SchedulerLookupMetadata) \<times> SchedulerLookupRuntime \<times> 'w" where
  "lookup_on_transport env request rt w =
     (let windows = query_windows (int (length (rq_prompt_token_ids request)));
          (response, w) = env_lookup_candidates env (sl_transport rt) (rq_prompt_token_ids request) (rq_request_id request) w;
          ((status, lplan), rt, w) =
            (case response of
               Inl LmcacheOperationError \<Rightarrow>
                 ((FULL_PREFILL_TRANSPORT_ERROR, empty_lookup_plan), rt\<lparr>sl_state := DEGRADED\<rparr>, w)
             | Inl _ \<Rightarrow> ((FATAL_PROTOCOL_DRIFT, empty_lookup_plan), marked FATAL_PROTOCOL_DRIFT rt, w)
             | Inr candidates \<Rightarrow> verify_candidates env request candidates (length windows) rt w)
      in retain request status (build_metadata request status lplan windows 0) rt w)"

text \<open>Opening or replacing the transport for a new request.\<close>

definition prepare_transport ::
    "'w Environment \<Rightarrow> SchedulerLookupRuntime \<Rightarrow> 'w \<Rightarrow> (scheduler_error + SchedulerRuntimeState) \<times> SchedulerLookupRuntime \<times> 'w" where
  "prepare_transport env rt w =
     (if sl_state rt = CREATED then open_transport env rt w
      else if sl_state rt = DEGRADED then retry_degraded_transport_once env rt w
      else (Inr (sl_state rt), rt, w))"

definition scheduler_lookup ::
    "'w Environment \<Rightarrow> SchedulerLookupRequest \<Rightarrow> SchedulerLookupRuntime \<Rightarrow> 'w \<Rightarrow>
     (scheduler_error + SchedulerLookupMetadata) \<times> SchedulerLookupRuntime \<times> 'w" where
  "scheduler_lookup env request rt w =
     (if sl_state rt = CLOSED
      then (build_metadata request FATAL_RUNTIME_CLOSED empty_lookup_plan [] (rq_preemption_count request), rt, w)
      else if sl_state rt = FATAL
      then (build_metadata request (case sl_fatal_status rt of None \<Rightarrow> FATAL_PROTOCOL_DRIFT | Some s \<Rightarrow> s)
              empty_lookup_plan [] (rq_preemption_count request), rt, w)
      else case sl_requests rt (rq_request_id request) of
        Some existing \<Rightarrow> (let (result, rt) = repeat_or_preempt existing request rt in (result, rt, w))
      | None \<Rightarrow>
          case eligibility_status request rt of
            (Some status, rt) \<Rightarrow> retain request status (build_metadata request status empty_lookup_plan [] 0) rt w
          | (None, rt) \<Rightarrow>
              let (opened, rt, w) = prepare_transport env rt w;
                  windows = query_windows (int (length (rq_prompt_token_ids request)))
              in case opened of
                   Inl e \<Rightarrow> (Inl e, rt, w)
                 | Inr DEGRADED \<Rightarrow>
                     retain request FULL_PREFILL_TRANSPORT_ERROR
                       (build_metadata request FULL_PREFILL_TRANSPORT_ERROR empty_lookup_plan windows 0) rt w
                 | Inr FATAL \<Rightarrow>
                     (build_metadata request (case sl_fatal_status rt of None \<Rightarrow> FATAL_PROTOCOL_DRIFT | Some s \<Rightarrow> s)
                        empty_lookup_plan windows 0, rt, w)
                 | Inr _ \<Rightarrow> lookup_on_transport env request rt w)"

definition scheduler_discard ::
    "string \<Rightarrow> SchedulerLookupRuntime \<Rightarrow> SchedulerLookupMetadata option \<times> SchedulerLookupRuntime" where
  "scheduler_discard request_id rt =
     (map_option so_metadata (sl_requests rt request_id), rt\<lparr>sl_requests := (sl_requests rt)(request_id := None)\<rparr>)"

definition scheduler_close ::
    "'w Environment \<Rightarrow> SchedulerLookupRuntime \<Rightarrow> 'w \<Rightarrow> (scheduler_error + unit) \<times> SchedulerLookupRuntime \<times> 'w" where
  "scheduler_close env rt w =
     (if sl_state rt = CLOSED then (Inr (), rt, w)
      else
        let rt = rt\<lparr>sl_requests := Map.empty\<rparr> in
        if \<not> sl_transport_needs_close rt then (Inr (), rt\<lparr>sl_state := CLOSED\<rparr>, w)
        else
          let (result, w) = env_close env (sl_transport rt) w in
          case result of
            Inl _ \<Rightarrow> (Inl (SchedulerRuntimeError CLOSE_FAILED),
              rt\<lparr>sl_state := FATAL, sl_fatal_status := Some FATAL_TRANSPORT_CLEANUP\<rparr>, w)
          | Inr _ \<Rightarrow> (Inr (), rt\<lparr>sl_transport_needs_close := False, sl_state := CLOSED\<rparr>, w))"


section \<open>Operations as steps\<close>

text \<open>A constructed request.\<close>

definition wf_request :: "SchedulerLookupRequest \<Rightarrow> bool" where
  [wf_simps]: "wf_request r \<longleftrightarrow> rq_request_id r \<noteq> [] \<and> length (rq_request_id r) \<le> MAX_REQUEST_ID_BYTES \<and>
     wf_tokens (rq_prompt_token_ids r) \<and> rq_prompt_token_ids r \<noteq> [] \<and>
     int (length (rq_prompt_token_ids r)) \<le> GPT_OSS_MAX_CONTEXT_TOKENS \<and> 1 \<le> rq_sequence_count r \<and>
     0 \<le> rq_scheduler_step_index r \<and> 0 \<le> rq_num_computed_tokens r \<and> 0 \<le> rq_num_external_tokens r \<and>
     0 \<le> rq_preemption_count r \<and> rq_num_computed_tokens r \<le> int (length (rq_prompt_token_ids r))"

inductive scheduler_step ::
    "'w Environment \<Rightarrow> SchedulerLookupRuntime \<times> 'w \<Rightarrow> SchedulerLookupRuntime \<times> 'w \<Rightarrow> bool" for env where
  step_open: "open_transport env rt w = (r, rt', w') \<Longrightarrow> scheduler_step env (rt, w) (rt', w')"
| step_lookup: "wf_request request \<Longrightarrow> scheduler_lookup env request rt w = (r, rt', w') \<Longrightarrow> scheduler_step env (rt, w) (rt', w')"
| step_discard: "scheduler_discard i rt = (r, rt') \<Longrightarrow> scheduler_step env (rt, w) (rt', w)"
| step_close: "scheduler_close env rt w = (r, rt', w') \<Longrightarrow> scheduler_step env (rt, w) (rt', w')"

inductive scheduler_reachable :: "'w Environment \<Rightarrow> SchedulerLookupRuntime \<times> 'w \<Rightarrow> bool" for env where
  reach_init: "SchedulerLookupRuntime_init env config t w = (Inr rt, w') \<Longrightarrow> scheduler_reachable env (rt, w')"
| reach_step: "scheduler_reachable env s \<Longrightarrow> scheduler_step env s s' \<Longrightarrow> scheduler_reachable env s'"

inductive_cases scheduler_stepE: "scheduler_step env s s'"

section \<open>Invariants\<close>

definition valid_metadata :: "SchedulerLookupMetadata \<Rightarrow> bool" where
  "valid_metadata m \<longleftrightarrow> md_schema_version m = METADATA_SCHEMA_VERSION \<and> wf_tokens (md_prompt_token_ids m) \<and>
     md_prompt_token_ids m \<noteq> [] \<and> rp_prompt_tokens (md_request_plan m) = int (length (md_prompt_token_ids m)) \<and>
     md_query_windows m = take (length (md_query_windows m)) (query_windows (int (length (md_prompt_token_ids m)))) \<and>
     (md_status m \<in> {TRANSFER_READY, FULL_PREFILL_MISS, FULL_PREFILL_TRANSPORT_ERROR, FULL_PREFILL_SIDECAR_ERROR} \<longrightarrow>
        md_query_windows m = query_windows (int (length (md_prompt_token_ids m)))) \<and>
     0 \<le> md_preemption_count m \<and> 0 \<le> md_allocation_generation m \<and>
     md_external_scheduler_tokens m = 0 \<and> \<not> md_load_kv_async m \<and>
     matches (rp_match_plan (md_request_plan m)) = map vc_match (lp_verified (md_lookup_plan m)) \<and>
     (md_status m = TRANSFER_READY \<longleftrightarrow> lp_verified (md_lookup_plan m) \<noteq> []) \<and>
     (md_status m = TRANSFER_READY \<longrightarrow> md_query_windows m \<noteq> [])"

definition stored_ok :: "string \<Rightarrow> StoredRequest \<Rightarrow> bool" where
  "stored_ok i so \<longleftrightarrow> wf_request (so_request so) \<and> rq_request_id (so_request so) = i \<and>
     valid_metadata (so_metadata so) \<and> \<not> is_fatal (md_status (so_metadata so)) \<and>
     md_prompt_token_ids (so_metadata so) = rq_prompt_token_ids (so_request so) \<and>
     md_preemption_count (so_metadata so) = rq_preemption_count (so_request so) \<and>
     rp_request_id (md_request_plan (so_metadata so)) = i"

definition scheduler_inv :: "SchedulerLookupRuntime \<Rightarrow> bool" where
  "scheduler_inv rt \<longleftrightarrow>
     (sl_state rt = FATAL \<longrightarrow> (\<exists>s. sl_fatal_status rt = Some s \<and> is_fatal s)) \<and>
     (sl_state rt \<in> {FATAL, CLOSED} \<longrightarrow> sl_requests rt = Map.empty) \<and>
     (\<forall>i so. sl_requests rt i = Some so \<longrightarrow> stored_ok i so)"

text \<open>What an internal call may do to the runtime: nothing to the requests, or become fatal.\<close>

definition stays :: "SchedulerLookupRuntime \<Rightarrow> SchedulerLookupRuntime \<Rightarrow> bool" where
  "stays rt rt' \<longleftrightarrow> sl_config rt' = sl_config rt \<and> sl_transport_config rt' = sl_transport_config rt \<and>
     (sl_state rt' = FATAL \<and> sl_requests rt' = Map.empty \<and> (\<exists>s. sl_fatal_status rt' = Some s \<and> is_fatal s) \<or>
      sl_state rt' \<in> {CREATED, READY, DEGRADED} \<and> sl_requests rt' = sl_requests rt)"

section \<open>Lemmas\<close>

lemma is_fatal_simps [simp]:
  "is_fatal s \<longleftrightarrow> s \<in> {FATAL_NONZERO_EXTERNAL_TOKENS, FATAL_PROTOCOL_DRIFT, FATAL_TRANSPORT_CLEANUP,
     FATAL_SIDECAR_CORRUPTION, FATAL_DUPLICATE_CONFLICT, FATAL_RUNTIME_CLOSED}"
  by (cases s) (simp_all add: is_fatal_def)

lemma mark_fatal_marked: "is_fatal s \<Longrightarrow> mark_fatal s rt = Inr (marked s rt)"
  by (simp add: marked_def mark_fatal_def del: is_fatal_simps)

lemma marked_eq: "is_fatal s \<Longrightarrow>
    marked s rt = rt\<lparr>sl_fatal_status := Some s, sl_requests := Map.empty, sl_state := FATAL\<rparr>"
  by (simp add: marked_def mark_fatal_def del: is_fatal_simps)

lemma stays_marked: "is_fatal s \<Longrightarrow> stays rt (marked s rt)"
  by (simp add: stays_def marked_eq del: is_fatal_simps)

lemma length_query_windows: "int (length (query_windows n)) = max 0 (n - LMCACHE_CHUNK_SIZE + 1)"
  by (auto simp: query_windows_def LMCACHE_CHUNK_SIZE_def)

lemma nth_query_windows:
  "k < length (query_windows n) \<Longrightarrow> query_windows n ! k = \<lparr>tr_start = int k, tr_end = int k + LMCACHE_CHUNK_SIZE\<rparr>"
  by (auto simp: query_windows_def LMCACHE_CHUNK_SIZE_def split: if_splits)

text \<open>The checks on the windows admit exactly the initial segments of the full sliding-window search.\<close>

lemma windows_checked:
  "(\<forall>w\<in>set ws. range_len w = LMCACHE_CHUNK_SIZE \<and> tr_end w \<le> n) \<and>
   (\<forall>(k, w)\<in>set (List.enumerate 0 ws). tr_start w = int k \<and> tr_end w = int k + LMCACHE_CHUNK_SIZE) \<longleftrightarrow>
   ws = take (length ws) (query_windows n)" (is "?checked \<longleftrightarrow> ?prefix")
proof
  assume c: ?checked
  then have w: "ws ! k = \<lparr>tr_start = int k, tr_end = int k + LMCACHE_CHUNK_SIZE\<rparr> \<and> int k + LMCACHE_CHUNK_SIZE \<le> n"
    if k: "k < length ws" for k
  proof -
    have "(k, ws ! k) \<in> set (List.enumerate 0 ws)" "ws ! k \<in> set ws" using k by (simp_all add: in_set_enumerate_eq)
    then have "tr_start (ws ! k) = int k" "tr_end (ws ! k) = int k + LMCACHE_CHUNK_SIZE" "tr_end (ws ! k) \<le> n"
      using c by blast+
    then show ?thesis by (cases "ws ! k") auto
  qed
  have "length ws \<le> length (query_windows n)"
  proof (cases "ws = []")
    case False
    then have "int (length ws) - 1 + LMCACHE_CHUNK_SIZE \<le> n" using w [of "length ws - 1"] by (cases ws) auto
    then show ?thesis using length_query_windows [of n] by (simp add: LMCACHE_CHUNK_SIZE_def)
  qed simp
  then show ?prefix using w by (intro nth_equalityI) (auto simp: nth_query_windows)
next
  assume p: ?prefix
  then have "length ws \<le> length (query_windows n)" by (metis length_take min.cobounded1 min.absorb_iff2 nat_le_linear)
  then have w: "ws ! k = \<lparr>tr_start = int k, tr_end = int k + LMCACHE_CHUNK_SIZE\<rparr> \<and> k < length (query_windows n)"
    if "k < length ws" for k using that p nth_query_windows [of k n] by (metis nth_take order_less_le_trans)
  have "tr_end (ws ! k) \<le> n \<and> range_len (ws ! k) = LMCACHE_CHUNK_SIZE" if "k < length ws" for k
    using w [OF that] length_query_windows [of n] by (auto simp: LMCACHE_CHUNK_SIZE_def range_len_def)
  then have "\<forall>w\<in>set ws. range_len w = LMCACHE_CHUNK_SIZE \<and> tr_end w \<le> n" by (auto simp: in_set_conv_nth)
  moreover have "\<forall>(k, w)\<in>set (List.enumerate 0 ws). tr_start w = int k \<and> tr_end w = int k + LMCACHE_CHUNK_SIZE"
    using w by (auto simp: in_set_enumerate_eq)
  ultimately show ?checked by blast
qed

lemma full_windows:
  "ws = take (length ws) (query_windows n) \<Longrightarrow>
     int (length ws) = max 0 (n - LMCACHE_CHUNK_SIZE + 1) \<longleftrightarrow> ws = query_windows n"
  by (metis length_query_windows of_nat_eq_iff order_refl take_all)

lemma SchedulerLookupMetadata_init_Inr: "SchedulerLookupMetadata_init m = Inr m' \<longleftrightarrow> m' = m \<and> valid_metadata m"
proof (cases "wf_tokens (md_prompt_token_ids m)")
  case False
  then have "\<nexists>ts. normalize_token_ids (map PInt (md_prompt_token_ids m)) = Inr ts"
    by (auto simp: normalize_token_ids_Inr inj_map_eq_map inj_def)
  then show ?thesis using False
    by (cases "normalize_token_ids (map PInt (md_prompt_token_ids m))") (auto simp: SchedulerLookupMetadata_init_def valid_metadata_def)
next
  case True
  let ?n = "int (length (md_prompt_token_ids m))" and ?ws = "md_query_windows m"
  have checked: "(\<nexists>w. w \<in> set ?ws \<and> (range_len w \<noteq> LMCACHE_CHUNK_SIZE \<or> tr_end w > ?n)) \<and>
      (\<not> (\<exists>(start, w)\<in>set (List.enumerate 0 ?ws). tr_start w \<noteq> int start \<or> tr_end w \<noteq> int start + LMCACHE_CHUNK_SIZE)) \<longleftrightarrow>
      ?ws = take (length ?ws) (query_windows ?n)"
    unfolding windows_checked [symmetric] by (auto simp: not_less)
  have "SchedulerLookupMetadata_init m = Inr m' \<longleftrightarrow> m' = m \<and> md_schema_version m = METADATA_SCHEMA_VERSION \<and>
      md_prompt_token_ids m \<noteq> [] \<and> rp_prompt_tokens (md_request_plan m) = ?n \<and>
      (\<nexists>w. w \<in> set ?ws \<and> (range_len w \<noteq> LMCACHE_CHUNK_SIZE \<or> tr_end w > ?n)) \<and>
      (md_status m \<in> {TRANSFER_READY, FULL_PREFILL_MISS, FULL_PREFILL_TRANSPORT_ERROR, FULL_PREFILL_SIDECAR_ERROR} \<longrightarrow>
        int (length ?ws) = max 0 (?n - LMCACHE_CHUNK_SIZE + 1)) \<and>
      (\<not> (\<exists>(start, w)\<in>set (List.enumerate 0 ?ws). tr_start w \<noteq> int start \<or> tr_end w \<noteq> int start + LMCACHE_CHUNK_SIZE)) \<and>
      0 \<le> md_preemption_count m \<and> 0 \<le> md_allocation_generation m \<and>
      md_external_scheduler_tokens m = FULL_RECOMPUTE_EXTERNAL_TOKENS \<and> \<not> md_load_kv_async m \<and>
      matches (rp_match_plan (md_request_plan m)) = map vc_match (lp_verified (md_lookup_plan m)) \<and>
      (md_status m = TRANSFER_READY \<longleftrightarrow> lp_verified (md_lookup_plan m) \<noteq> []) \<and>
      (md_status m = TRANSFER_READY \<longrightarrow> ?ws \<noteq> [])"
    using True by (auto simp: SchedulerLookupMetadata_init_def Let_def not_less Bex_def)
  also have "\<dots> \<longleftrightarrow> m' = m \<and> valid_metadata m"
  proof (cases "?ws = take (length ?ws) (query_windows ?n)")
    case prefix: True
    then show ?thesis
      unfolding valid_metadata_def full_windows [OF prefix] using True checked
      by (simp only: FULL_RECOMPUTE_EXTERNAL_TOKENS_def) blast
  next
    case False
    then show ?thesis unfolding valid_metadata_def using checked by blast
  qed
  finally show ?thesis .
qed


lemma build_metadata_Inr:
  assumes "build_metadata r s lplan ws g = Inr m"
  shows "valid_metadata m \<and> md_status m = s \<and> md_lookup_plan m = lplan \<and> md_query_windows m = ws \<and>
    md_prompt_token_ids m = rq_prompt_token_ids r \<and> md_preemption_count m = rq_preemption_count r \<and>
    md_allocation_generation m = g \<and> rp_request_id (md_request_plan m) = rq_request_id r"
proof -
  obtain rp where rp: "request_plan_of r lplan = Inr rp"
    and m: "SchedulerLookupMetadata_init
         \<lparr>md_schema_version = METADATA_SCHEMA_VERSION, md_request_plan = rp,
          md_prompt_token_ids = rq_prompt_token_ids r, md_query_windows = ws, md_lookup_plan = lplan,
          md_status = s, md_preemption_count = rq_preemption_count r, md_allocation_generation = g,
          md_external_scheduler_tokens = FULL_RECOMPUTE_EXTERNAL_TOKENS, md_load_kv_async = False\<rparr> = Inr m"
    using assms by (auto simp: build_metadata_def result_simps)
  have "rp_request_id rp = rq_request_id r"
    using rp by (auto simp: request_plan_of_def RequestPlan_init_def Let_def result_simps split: sum.splits if_splits)
  then show ?thesis using m unfolding SchedulerLookupMetadata_init_Inr by auto
qed

lemma stays_open:
  assumes "open_transport env rt w = (r, rt', w')" "sl_state rt \<in> {CREATED, READY, DEGRADED}"
  shows "stays rt rt'"
proof (cases "sl_state rt = CREATED")
  case True
  obtain res w2 where o: "env_open env (sl_transport rt) w = (res, w2)" by (cases "env_open env (sl_transport rt) w")
  have s: "stays rt (rt\<lparr>sl_state := READY\<rparr>)" "stays rt (rt\<lparr>sl_state := DEGRADED\<rparr>)"
    "stays rt (marked FATAL_PROTOCOL_DRIFT rt)" by (simp_all add: stays_def marked_eq)
  have "rt' = (case res of Inr _ \<Rightarrow> rt\<lparr>sl_state := READY\<rparr> | Inl LmcacheOperationError \<Rightarrow> rt\<lparr>sl_state := DEGRADED\<rparr>
      | Inl _ \<Rightarrow> marked FATAL_PROTOCOL_DRIFT rt)"
    using assms(1) True o by (simp add: open_transport_def Let_def)
  then show ?thesis using s by (simp split: sum.splits transport_exn.splits)
next
  case False
  then have "rt' = rt" using assms by (auto simp: open_transport_def)
  then show ?thesis using assms(2) by (simp add: stays_def)
qed

lemma open_result:
  "open_transport env rt w = (r, rt', w') \<Longrightarrow> sl_state rt \<noteq> CLOSED \<Longrightarrow> r = Inr (sl_state rt')"
  by (auto simp: open_transport_def Let_def split: prod.splits if_splits)

lemma stays_trans: "stays a b \<Longrightarrow> sl_requests b = sl_requests a \<or> sl_requests b = Map.empty"
  by (auto simp: stays_def)

lemma retry_result:
  assumes "retry_degraded_transport_once env rt w = (r, rt', w')"
  shows "stays (rt\<lparr>sl_state := DEGRADED\<rparr>) rt' \<and> r = Inr (sl_state rt')"
proof -
  have o: "stays (rt\<lparr>sl_state := DEGRADED\<rparr>) rt2 \<and> r2 = Inr (sl_state rt2)"
    if "open_transport env (rt\<lparr>sl_transport := t, sl_transport_needs_close := True, sl_state := CREATED\<rparr>) w2 = (r2, rt2, w3)"
    for t w2 r2 rt2 w3
    using stays_open [OF that] open_result [OF that] by (simp add: stays_def)
  have f: "stays (rt\<lparr>sl_state := DEGRADED\<rparr>) (marked s (rt\<lparr>sl_transport_needs_close := b\<rparr>))" "sl_state (marked s rt1) = FATAL"
    "stays (rt\<lparr>sl_state := DEGRADED\<rparr>) (marked s rt)"
    if "is_fatal s" for s b rt1 using that by (simp_all add: stays_def marked_eq del: is_fatal_simps)
  have d: "stays (rt\<lparr>sl_state := DEGRADED\<rparr>) (rt\<lparr>sl_transport_needs_close := b, sl_state := DEGRADED\<rparr>)" for b
    by (simp add: stays_def)
  show ?thesis using assms unfolding retry_degraded_transport_once_def
    by (auto simp: Let_def f d dest!: o split: prod.splits sum.splits transport_exn.splits if_splits)
qed


lemma SchedulerLookupRequest_init_Inr [init_simps]:
  "SchedulerLookupRequest_init i ps a b c d e = Inr r \<longleftrightarrow> wf_request r \<and> i = rq_request_id r \<and>
     ps = map PInt (rq_prompt_token_ids r) \<and> a = PInt (rq_sequence_count r) \<and> b = PInt (rq_scheduler_step_index r) \<and>
     c = PInt (rq_num_computed_tokens r) \<and> d = PInt (rq_num_external_tokens r) \<and> e = PInt (rq_preemption_count r)"
proof (cases "normalize_token_ids ps")
  case (Inl x)
  have "\<not> (ps = map PInt (rq_prompt_token_ids r) \<and> wf_tokens (rq_prompt_token_ids r))"
    using Inl normalize_token_ids_PInt by auto
  then show ?thesis using Inl by (auto simp: SchedulerLookupRequest_init_def wf_request_def)
next
  case (Inr ts)
  then have ps: "ps = map PInt ts" "wf_tokens ts" by (auto simp: normalize_token_ids_Inr)
  then show ?thesis
    by (cases r) (auto simp: SchedulerLookupRequest_init_def wf_request_def nonneg_int_iff inj_map_eq_map inj_def not_less)
qed

lemma replace_preemption_count_eq:
  "wf_request r \<Longrightarrow> 0 \<le> k \<Longrightarrow> replace_preemption_count r k = Inr (r\<lparr>rq_preemption_count := k\<rparr>)"
  by (simp add: replace_preemption_count_def SchedulerLookupRequest_init_Inr wf_request_def)

text \<open>A plan that reaches the metadata is empty, or what the coordinator made of a transport response.\<close>

definition plan_source :: "'w Environment \<Rightarrow> SchedulerLookupRequest \<Rightarrow> CacheNamespace \<Rightarrow> LmcacheLookupPlan \<Rightarrow> bool" where
  "plan_source env r n lplan \<longleftrightarrow> lplan = empty_lookup_plan \<or>
     (\<exists>cs t w1 w2 w3 w4. env_lookup_candidates env t (rq_prompt_token_ids r) (rq_request_id r) w1 = (Inr (Some (map Some cs)), w2) \<and>
        env_plan env (rq_prompt_token_ids r) n cs w3 = (Inr (Some lplan), w4) \<and>
        list_all (\<lambda>c. range_len (lc_target_range c) = LMCACHE_CHUNK_SIZE) cs)"

lemma verify_candidates_result:
  assumes "verify_candidates env r cs k rt w = ((s, lplan), rt', w')"
    "env_lookup_candidates env t (rq_prompt_token_ids r) (rq_request_id r) w0 = (Inr cs, w1)"
  shows "((is_fatal s \<and> rt' = marked s rt \<and> lplan = empty_lookup_plan) \<or>
    (s \<in> {TRANSFER_READY, FULL_PREFILL_MISS, FULL_PREFILL_SIDECAR_ERROR} \<and> rt' = rt)) \<and>
    plan_source env r (sc_namespace (sl_config rt)) lplan \<and> (s = TRANSFER_READY \<longleftrightarrow> lp_verified lplan \<noteq> [])"
proof (cases cs)
  case (Some cs')
  have e: "plan_source env r n empty_lookup_plan" "lp_verified empty_lookup_plan = []" for n
    by (simp_all add: plan_source_def empty_lookup_plan_def)
  show ?thesis
  proof (cases "env_plan env (rq_prompt_token_ids r) (sc_namespace (sl_config rt)) (map the cs') w")
    case (Pair res w2)
    show ?thesis
    proof (cases "\<exists>p. res = Inr (Some p) \<and> None \<notin> set cs' \<and>
        (\<forall>c\<in>set (map the cs'). range_len (lc_source_relative_range c) = LMCACHE_CHUNK_SIZE \<and> range_len (lc_target_range c) = LMCACHE_CHUNK_SIZE) \<and>
        length cs' \<le> k")
      case True
      then obtain p where p: "res = Inr (Some p)" "None \<notin> set cs'" "length cs' \<le> k"
        and c: "\<forall>c\<in>set (map the cs'). range_len (lc_source_relative_range c) = LMCACHE_CHUNK_SIZE \<and> range_len (lc_target_range c) = LMCACHE_CHUNK_SIZE"
        by blast
      have "map Some (map the cs') = cs'" using p(2) by (induction cs') auto
      then have "plan_source env r (sc_namespace (sl_config rt)) p"
        using assms(2) Pair Some p(1) c unfolding plan_source_def list_all_iff by metis
      moreover have "verify_candidates env r cs k rt w =
          (if lp_verified p \<noteq> [] then ((TRANSFER_READY, p), rt, w2) else ((FULL_PREFILL_MISS, p), rt, w2))"
        using p c Pair Some by (auto simp: verify_candidates_def)
      ultimately show ?thesis using assms(1) by (auto split: if_splits)
    next
      case False
      then show ?thesis using assms(1) Pair Some e
        by (auto simp: verify_candidates_def not_less split: if_splits sum.splits option.splits coordinator_exn.splits)
    qed
  qed
qed (use assms in \<open>auto simp: verify_candidates_def plan_source_def empty_lookup_plan_def\<close>)

lemma retain_inv:
  assumes "retain r s (build_metadata r s lplan ws g) rt w = (res, rt', w')" "wf_request r" "scheduler_inv rt"
    "\<not> is_fatal s \<Longrightarrow> sl_state rt \<notin> {FATAL, CLOSED}"
  shows "scheduler_inv rt'"
proof (cases "build_metadata r s lplan ws g")
  case (Inr m)
  have "stored_ok (rq_request_id r) \<lparr>so_request = r, so_metadata = m\<rparr>" if "\<not> is_fatal s"
    using build_metadata_Inr [OF Inr] assms(2) that by (simp add: stored_ok_def del: is_fatal_simps)
  then show ?thesis using assms Inr
    by (auto simp: retain_def scheduler_inv_def simp del: is_fatal_simps split: if_splits)
qed (use assms in \<open>auto simp: retain_def\<close>)

lemma stays_inv: "stays rt rt' \<Longrightarrow> scheduler_inv rt \<Longrightarrow> scheduler_inv rt'"
  by (auto simp: stays_def scheduler_inv_def simp del: is_fatal_simps)

lemma marked_inv: "is_fatal s \<Longrightarrow> scheduler_inv (marked s rt)"
  by (simp add: scheduler_inv_def marked_eq del: is_fatal_simps)


text \<open>The transport lookup ends in \<open>retain\<close>, from a runtime that is fatal exactly with a fatal status.\<close>

lemma lookup_on_transport_cases:
  assumes "lookup_on_transport env r rt w = res"
  obtains s lplan rt1 w1 where
    "res = retain r s (build_metadata r s lplan (query_windows (int (length (rq_prompt_token_ids r)))) 0) rt1 w1"
    "is_fatal s \<and> rt1 = marked s rt \<and> lplan = empty_lookup_plan \<or>
     s \<in> {TRANSFER_READY, FULL_PREFILL_MISS, FULL_PREFILL_SIDECAR_ERROR} \<and> rt1 = rt \<or>
     s = FULL_PREFILL_TRANSPORT_ERROR \<and> rt1 = rt\<lparr>sl_state := DEGRADED\<rparr> \<and> lplan = empty_lookup_plan"
    "plan_source env r (sc_namespace (sl_config rt)) lplan" "s = TRANSFER_READY \<longleftrightarrow> lp_verified lplan \<noteq> []"
proof -
  have e: "plan_source env r n empty_lookup_plan" "lp_verified empty_lookup_plan = []" for n
    by (simp_all add: plan_source_def empty_lookup_plan_def)
  let ?ws = "query_windows (int (length (rq_prompt_token_ids r)))"
  obtain resp w1 where c: "env_lookup_candidates env (sl_transport rt) (rq_prompt_token_ids r) (rq_request_id r) w = (resp, w1)"
    by (cases "env_lookup_candidates env (sl_transport rt) (rq_prompt_token_ids r) (rq_request_id r) w")
  show thesis
  proof (cases resp)
    case (Inl e)
    have "res = (if e = LmcacheOperationError
        then retain r FULL_PREFILL_TRANSPORT_ERROR (build_metadata r FULL_PREFILL_TRANSPORT_ERROR empty_lookup_plan ?ws 0) (rt\<lparr>sl_state := DEGRADED\<rparr>) w1
        else retain r FATAL_PROTOCOL_DRIFT (build_metadata r FATAL_PROTOCOL_DRIFT empty_lookup_plan ?ws 0) (marked FATAL_PROTOCOL_DRIFT rt) w1)"
      using assms c Inl by (cases e) (simp_all add: lookup_on_transport_def)
    then show thesis using that [of FULL_PREFILL_TRANSPORT_ERROR empty_lookup_plan _ w1] that [of FATAL_PROTOCOL_DRIFT empty_lookup_plan _ w1] e
      by (cases "e = LmcacheOperationError") simp_all
  next
    case (Inr cs)
    obtain s lplan rt1 w2 where v: "verify_candidates env r cs (length ?ws) rt w1 = ((s, lplan), rt1, w2)"
      by (metis prod.exhaust_sel)
    then have "res = retain r s (build_metadata r s lplan ?ws 0) rt1 w2"
      using assms c Inr by (simp add: lookup_on_transport_def)
    then show thesis using that verify_candidates_result [OF v] c Inr by blast
  qed
qed

lemma lookup_on_transport_inv:
  assumes "lookup_on_transport env r rt w = (res, rt', w')" "wf_request r" "scheduler_inv rt" "sl_state rt \<in> {CREATED, READY}"
  shows "scheduler_inv rt'"
proof -
  obtain s lplan rt1 w1 where l: "(res, rt', w') = retain r s (build_metadata r s lplan (query_windows (int (length (rq_prompt_token_ids r)))) 0) rt1 w1"
    and c: "is_fatal s \<and> rt1 = marked s rt \<and> lplan = empty_lookup_plan \<or>
     s \<in> {TRANSFER_READY, FULL_PREFILL_MISS, FULL_PREFILL_SIDECAR_ERROR} \<and> rt1 = rt \<or>
     s = FULL_PREFILL_TRANSPORT_ERROR \<and> rt1 = rt\<lparr>sl_state := DEGRADED\<rparr> \<and> lplan = empty_lookup_plan"
    by (rule lookup_on_transport_cases [OF assms(1)])
  have "scheduler_inv (rt\<lparr>sl_state := DEGRADED\<rparr>)" using assms(3,4) by (auto simp: scheduler_inv_def)
  then have "scheduler_inv rt1" "\<not> is_fatal s \<Longrightarrow> sl_state rt1 \<notin> {FATAL, CLOSED}"
    using c marked_inv [of s rt] assms(3,4) by auto
  then show ?thesis using retain_inv [OF l [symmetric] assms(2)] by blast
qed

lemma repeat_or_preempt_inv:
  assumes "repeat_or_preempt so r rt = (res, rt')" "stored_ok (rq_request_id r) so" "wf_request r" "scheduler_inv rt"
    "sl_state rt \<notin> {FATAL, CLOSED}"
  shows "scheduler_inv rt'"
proof -
  let ?m = "(so_metadata so)\<lparr>md_preemption_count := rq_preemption_count r,
     md_allocation_generation := md_allocation_generation (so_metadata so) + 1\<rparr>"
  have "stored_ok (rq_request_id r) \<lparr>so_request = r, so_metadata = ?m\<rparr>" if "valid_metadata ?m" "rq_prompt_token_ids r = rq_prompt_token_ids (so_request so)"
    using assms(2,3) that by (simp add: stored_ok_def del: is_fatal_simps)
  moreover have "rq_prompt_token_ids r = rq_prompt_token_ids (so_request so)"
    if "replace_preemption_count r (rq_preemption_count (so_request so)) = Inr (so_request so)"
    using that by (auto simp: replace_preemption_count_def SchedulerLookupRequest_init_Inr inj_map_eq_map inj_def)
  ultimately show ?thesis
    using assms(1,4,5) marked_inv [of FATAL_DUPLICATE_CONFLICT rt] unfolding repeat_or_preempt_def Let_def
    by (auto simp: SchedulerLookupMetadata_init_Inr result_simps scheduler_inv_def split: if_splits sum.splits)
qed

lemma eligibility_cases:
  "eligibility_status r rt = (st, rt1) \<Longrightarrow>
     st = Some FATAL_NONZERO_EXTERNAL_TOKENS \<and> rt1 = marked FATAL_NONZERO_EXTERNAL_TOKENS rt \<or>
     rt1 = rt \<and> (st = None \<or> st \<in> Some ` {FULL_PREFILL_SEQUENCE_INELIGIBLE, FULL_PREFILL_STEP_INELIGIBLE, FULL_PREFILL_PROMPT_TOO_LARGE})"
  by (auto simp: eligibility_status_def split: if_splits)


lemma retain_fatal: "is_fatal s \<Longrightarrow> retain r s built rt w = (built, rt, w)"
  by (simp add: retain_def del: is_fatal_simps split: sum.splits)

lemma prepare_transport_result:
  assumes "prepare_transport env rt w = (r, rt', w')" "sl_state rt \<in> {CREATED, READY, DEGRADED}"
  shows "stays rt rt' \<and> r = Inr (sl_state rt')"
proof -
  consider "sl_state rt = CREATED" | "sl_state rt = READY" | "sl_state rt = DEGRADED" using assms(2) by auto
  then show ?thesis
  proof cases
    case 1
    then show ?thesis using assms stays_open [of env rt w r rt' w'] open_result [of env rt w r rt' w'] by (auto simp: prepare_transport_def)
  next
    case 2
    then show ?thesis using assms by (auto simp: prepare_transport_def stays_def)
  next
    case 3
    then show ?thesis using assms retry_result [of env rt w r rt' w'] by (simp add: prepare_transport_def stays_def)
  qed
qed

text \<open>A request that is new to a live runtime: every path ends in \<open>retain\<close>.\<close>

lemma scheduler_lookup_new:
  assumes l: "scheduler_lookup env r rt w = res" and inv: "scheduler_inv rt"
    and live: "sl_state rt \<notin> {FATAL, CLOSED}" and new: "sl_requests rt (rq_request_id r) = None"
  obtains s lplan ws rt1 w1 where "res = retain r s (build_metadata r s lplan ws 0) rt1 w1" "scheduler_inv rt1"
    "sl_state rt1 = FATAL \<longleftrightarrow> is_fatal s" "sl_state rt1 \<noteq> CLOSED"
    "sl_config rt1 = sl_config rt" "sl_requests rt1 = sl_requests rt \<or> sl_requests rt1 = Map.empty"
    "plan_source env r (sc_namespace (sl_config rt)) lplan"
    "s = TRANSFER_READY \<longleftrightarrow> lp_verified lplan \<noteq> []"
    "ws = query_windows (int (length (rq_prompt_token_ids r))) \<or>
     ws = [] \<and> s \<notin> {TRANSFER_READY, FULL_PREFILL_MISS, FULL_PREFILL_TRANSPORT_ERROR, FULL_PREFILL_SIDECAR_ERROR}"
proof -
  have emp: "plan_source env r n empty_lookup_plan" "lp_verified empty_lookup_plan = []" for n
    by (simp_all add: plan_source_def empty_lookup_plan_def)
  obtain st rt1 where e: "eligibility_status r rt = (st, rt1)" by (cases "eligibility_status r rt")
  have live': "sl_state rt \<in> {CREATED, READY, DEGRADED}" using live by (cases "sl_state rt") auto
  consider "st = Some FATAL_NONZERO_EXTERNAL_TOKENS" "rt1 = marked FATAL_NONZERO_EXTERNAL_TOKENS rt" | s where "st = Some s" "s \<in> {FULL_PREFILL_SEQUENCE_INELIGIBLE, FULL_PREFILL_STEP_INELIGIBLE, FULL_PREFILL_PROMPT_TOO_LARGE}" "rt1 = rt" | "st = None" "rt1 = rt"
    using eligibility_cases [OF e] by fastforce
  then show thesis
  proof cases
    case 1
    let ?s = FATAL_NONZERO_EXTERNAL_TOKENS
    have "res = retain r ?s (build_metadata r ?s empty_lookup_plan [] 0) (marked ?s rt) w"
      using 1 l e live new by (simp add: scheduler_lookup_def)
    then show thesis using that [of ?s empty_lookup_plan "[]" "marked ?s rt" w] marked_inv [of ?s rt] emp
      by (simp add: marked_eq)
  next
    case 2
    then have "res = retain r s (build_metadata r s empty_lookup_plan [] 0) rt w"
      using l e live new by (simp add: scheduler_lookup_def del: is_fatal_simps)
    then show thesis using that [of s empty_lookup_plan "[]" rt w] 2 inv live emp by auto
  next
    case 3
    obtain o2 rt2 w2 where p: "prepare_transport env rt w = (o2, rt2, w2)" by (cases "prepare_transport env rt w") auto
    have st: "stays rt rt2" "o2 = Inr (sl_state rt2)" using prepare_transport_result [OF p live'] by simp_all
    then have inv2: "scheduler_inv rt2" using stays_inv inv by blast
    have cfg: "sl_config rt2 = sl_config rt" "sl_requests rt2 = sl_requests rt \<or> sl_requests rt2 = Map.empty"
      using st(1) by (auto simp: stays_def)
    let ?ws = "query_windows (int (length (rq_prompt_token_ids r)))"
    have res: "res = (case o2 of
           Inl e \<Rightarrow> (Inl e, rt2, w2)
         | Inr DEGRADED \<Rightarrow> retain r FULL_PREFILL_TRANSPORT_ERROR
             (build_metadata r FULL_PREFILL_TRANSPORT_ERROR empty_lookup_plan ?ws 0) rt2 w2
         | Inr FATAL \<Rightarrow> (build_metadata r (case sl_fatal_status rt2 of None \<Rightarrow> FATAL_PROTOCOL_DRIFT | Some s \<Rightarrow> s)
             empty_lookup_plan ?ws 0, rt2, w2)
         | Inr _ \<Rightarrow> lookup_on_transport env r rt2 w2)"
      using l [symmetric] e live new 3 p by (simp add: scheduler_lookup_def Let_def)
    consider "sl_state rt2 = DEGRADED" | "sl_state rt2 = FATAL" | "sl_state rt2 \<in> {CREATED, READY}"
      using st(1) by (auto simp: stays_def)
    then show thesis
    proof cases
      case 1
      then show thesis using that [of FULL_PREFILL_TRANSPORT_ERROR empty_lookup_plan ?ws rt2 w2] res st(2) inv2 cfg emp by simp
    next
      case 2
      then obtain f where f: "sl_fatal_status rt2 = Some f" "is_fatal f" using inv2 by (auto simp: scheduler_inv_def)
      then have "res = retain r f (build_metadata r f empty_lookup_plan ?ws 0) rt2 w2"
        using res st(2) 2 by (simp add: retain_fatal del: is_fatal_simps)
      then show thesis using that [of f empty_lookup_plan ?ws rt2 w2] f 2 inv2 cfg emp by auto
    next
      case 3
      then have "lookup_on_transport env r rt2 w2 = res" using res st(2) by auto
      then obtain s lplan rt3 w3 where r3: "res = retain r s (build_metadata r s lplan ?ws 0) rt3 w3"
        and c: "is_fatal s \<and> rt3 = marked s rt2 \<and> lplan = empty_lookup_plan \<or>
          s \<in> {TRANSFER_READY, FULL_PREFILL_MISS, FULL_PREFILL_SIDECAR_ERROR} \<and> rt3 = rt2 \<or>
          s = FULL_PREFILL_TRANSPORT_ERROR \<and> rt3 = rt2\<lparr>sl_state := DEGRADED\<rparr> \<and> lplan = empty_lookup_plan"
        and src: "plan_source env r (sc_namespace (sl_config rt2)) lplan" "s = TRANSFER_READY \<longleftrightarrow> lp_verified lplan \<noteq> []"
        by (rule lookup_on_transport_cases)
      have "scheduler_inv (rt2\<lparr>sl_state := DEGRADED\<rparr>)" using inv2 3 by (auto simp: scheduler_inv_def)
      then show thesis using that [OF r3] c 3 inv2 marked_inv [of s rt2] cfg src
        by (auto simp: marked_eq)
    qed
  qed
qed

lemma scheduler_lookup_inv:
  assumes "scheduler_lookup env r rt w = (res, rt', w')" "scheduler_inv rt" "wf_request r"
  shows "scheduler_inv rt'"
proof (cases "sl_state rt \<in> {FATAL, CLOSED}")
  case True
  then have "rt' = rt" using assms(1) by (auto simp: scheduler_lookup_def split: if_splits)
  then show ?thesis using assms(2) by simp
next
  case False
  show ?thesis
  proof (cases "sl_requests rt (rq_request_id r)")
    case None
    obtain s lplan ws rt1 w1 where "(res, rt', w') = retain r s (build_metadata r s lplan ws 0) rt1 w1" "scheduler_inv rt1"
      "sl_state rt1 = FATAL \<longleftrightarrow> is_fatal s" "sl_state rt1 \<noteq> CLOSED"
      by (rule scheduler_lookup_new [OF assms(1,2) False None])
    then show ?thesis using retain_inv [of r s lplan ws 0 rt1 w1 res rt' w'] assms(3) by auto
  next
    case (Some so)
    then have "repeat_or_preempt so r rt = (res, rt')"
      using assms(1) False by (auto simp: scheduler_lookup_def split: prod.splits)
    moreover have "stored_ok (rq_request_id r) so" using assms(2) Some by (simp add: scheduler_inv_def)
    ultimately show ?thesis using repeat_or_preempt_inv assms(2,3) False by blast
  qed
qed


lemma scheduler_close_inv: "scheduler_close env rt w = (res, rt', w') \<Longrightarrow> scheduler_inv rt \<Longrightarrow> scheduler_inv rt'"
  by (auto simp: scheduler_close_def Let_def scheduler_inv_def split: if_splits prod.splits sum.splits)

lemma scheduler_open_inv:
  assumes "open_transport env rt w = (res, rt', w')" "scheduler_inv rt"
  shows "scheduler_inv rt'"
proof (cases "sl_state rt \<in> {CREATED, READY, DEGRADED}")
  case True
  then show ?thesis using stays_inv [OF stays_open [OF assms(1)] assms(2)] by blast
next
  case False
  then have "rt' = rt" using assms(1) by (cases "sl_state rt") (auto simp: open_transport_def)
  then show ?thesis using assms(2) by simp
qed

lemma scheduler_step_inv: "scheduler_step env s s' \<Longrightarrow> scheduler_inv (fst s) \<Longrightarrow> scheduler_inv (fst s')"
  by (induction rule: scheduler_step.induct)
    (auto dest: scheduler_lookup_inv scheduler_close_inv scheduler_open_inv,
      auto simp: scheduler_discard_def scheduler_inv_def)

lemma scheduler_reachable_inv: "scheduler_reachable env s \<Longrightarrow> scheduler_inv (fst s)"
proof (induction rule: scheduler_reachable.induct)
  case (reach_init config t w rt w')
  then show ?case
    by (auto simp: SchedulerLookupRuntime_init_def scheduler_inv_def split: prod.splits sum.splits option.splits if_splits)
qed (auto dest: scheduler_step_inv)

text \<open>A call for a stored request, without the constructors: a repeat, the next preemption, or a conflict.\<close>

abbreviation next_metadata :: "SchedulerLookupMetadata \<Rightarrow> SchedulerLookupMetadata" where
  "next_metadata m \<equiv> m\<lparr>md_preemption_count := md_preemption_count m + 1,
     md_allocation_generation := md_allocation_generation m + 1\<rparr>"

lemma valid_next_metadata:
  assumes "valid_metadata m"
  shows "valid_metadata (next_metadata m)"
proof (cases m)
  case (fields v rp ts ws lplan st p g e a)
  then have "0 \<le> p + 1" "0 \<le> g + 1" using assms by (simp_all add: valid_metadata_def)
  then show ?thesis using assms unfolding fields valid_metadata_def
    by (simp only: SchedulerLookupMetadata.select_convs SchedulerLookupMetadata.update_convs) blast
qed

lemma repeat_or_preempt_eq:
  assumes r: "wf_request r" and so: "stored_ok (rq_request_id r) so"
  shows "repeat_or_preempt so r rt =
    (if r = so_request so then (Inr (so_metadata so), rt)
     else if r = (so_request so)\<lparr>rq_preemption_count := rq_preemption_count (so_request so) + 1\<rparr>
     then (Inr (next_metadata (so_metadata so)), rt\<lparr>sl_requests := (sl_requests rt)(rq_request_id r \<mapsto>
       \<lparr>so_request = r, so_metadata = next_metadata (so_metadata so)\<rparr>)\<rparr>)
     else (build_metadata r FATAL_DUPLICATE_CONFLICT empty_lookup_plan [] (md_allocation_generation (so_metadata so)),
       marked FATAL_DUPLICATE_CONFLICT rt))"
proof -
  let ?p = "so_request so" and ?m = "so_metadata so"
  have k: "0 \<le> rq_preemption_count ?p" and pm: "md_preemption_count ?m = rq_preemption_count ?p"
    using so by (simp_all add: stored_ok_def wf_request_def)
  have same: "rq_preemption_count r = rq_preemption_count ?p + 1 \<and> r\<lparr>rq_preemption_count := rq_preemption_count ?p\<rparr> = ?p \<longleftrightarrow>
      r = ?p\<lparr>rq_preemption_count := rq_preemption_count ?p + 1\<rparr>"
    by (cases r; cases ?p) auto
  have "valid_metadata (next_metadata ?m)" using so by (intro valid_next_metadata) (simp add: stored_ok_def)
  then have v: "SchedulerLookupMetadata_init (next_metadata ?m) = Inr (next_metadata ?m)"
    by (simp add: SchedulerLookupMetadata_init_Inr)
  show ?thesis
  proof (cases "r = ?p\<lparr>rq_preemption_count := rq_preemption_count ?p + 1\<rparr>")
    case True
    then show ?thesis using v pm k replace_preemption_count_eq [OF r k] same
      by (simp add: repeat_or_preempt_def Let_def)
  next
    case False
    then show ?thesis using replace_preemption_count_eq [OF r k] same
      by (auto simp: repeat_or_preempt_def Let_def)
  qed
qed

lemma stopped_lookup_eq:
  assumes "scheduler_inv rt" "sl_state rt \<in> {FATAL, CLOSED}"
  obtains s where "scheduler_lookup env r rt w = (build_metadata r s empty_lookup_plan [] (rq_preemption_count r), rt, w)" "is_fatal s"
proof (cases "sl_state rt = CLOSED")
  case True
  then show thesis using that [of FATAL_RUNTIME_CLOSED] by (simp add: scheduler_lookup_def)
next
  case False
  then obtain f where "sl_state rt = FATAL" "sl_fatal_status rt = Some f" "is_fatal f"
    using assms by (auto simp: scheduler_inv_def)
  then show thesis using that [of f] by (simp add: scheduler_lookup_def del: is_fatal_simps)
qed

text \<open>What a lookup returns, in every state.\<close>

lemma scheduler_lookup_valid:
  assumes l: "scheduler_lookup env r rt w = (Inr m, rt', w')" and inv: "scheduler_inv rt" and wf: "wf_request r"
  shows "valid_metadata m \<and> md_prompt_token_ids m = rq_prompt_token_ids r \<and> md_preemption_count m = rq_preemption_count r \<and>
    rp_request_id (md_request_plan m) = rq_request_id r \<and>
    (if is_fatal (md_status m) then sl_state rt' \<in> {FATAL, CLOSED} \<and> sl_requests rt' = Map.empty
     else sl_requests rt' (rq_request_id r) = Some \<lparr>so_request = r, so_metadata = m\<rparr> \<and> sl_state rt' \<notin> {FATAL, CLOSED})"
proof (cases "sl_state rt \<in> {FATAL, CLOSED}")
  case True
  then obtain s where s: "build_metadata r s empty_lookup_plan [] (rq_preemption_count r) = Inr m" "is_fatal s" "rt' = rt"
    using stopped_lookup_eq [OF inv True, of env r w] l by (metis prod.inject)
  then show ?thesis using build_metadata_Inr [OF s(1)] True inv by (auto simp: scheduler_inv_def simp del: is_fatal_simps)
next
  case live: False
  show ?thesis
  proof (cases "sl_requests rt (rq_request_id r)")
    case None
    obtain s lplan ws rt1 w1 where rt: "(Inr m, rt', w') = retain r s (build_metadata r s lplan ws 0) rt1 w1" "scheduler_inv rt1"
      "sl_state rt1 = FATAL \<longleftrightarrow> is_fatal s" "sl_state rt1 \<noteq> CLOSED"
      by (rule scheduler_lookup_new [OF l inv live None])
    then have b: "build_metadata r s lplan ws 0 = Inr m" by (auto simp: retain_def split: sum.splits)
    show ?thesis using rt build_metadata_Inr [OF b] b
      by (auto simp: retain_def scheduler_inv_def simp del: is_fatal_simps split: if_splits)
  next
    case (Some so)
    then have rp: "repeat_or_preempt so r rt = (Inr m, rt')"
      using l live by (auto simp: scheduler_lookup_def split: prod.splits)
    have ok: "stored_ok (rq_request_id r) so" using inv Some by (simp add: scheduler_inv_def)
    show ?thesis
    proof (cases "r = so_request so")
      case True
      then have "m = so_metadata so" "rt' = rt" using rp unfolding repeat_or_preempt_eq [OF wf ok] by auto
      then show ?thesis using True Some ok live by (cases so) (simp add: stored_ok_def del: is_fatal_simps)
    next
      case new: False
      show ?thesis
      proof (cases "r = (so_request so)\<lparr>rq_preemption_count := rq_preemption_count (so_request so) + 1\<rparr>")
        case True
        then have m: "m = next_metadata (so_metadata so)" "rt' = rt\<lparr>sl_requests := (sl_requests rt)(rq_request_id r \<mapsto>
            \<lparr>so_request = r, so_metadata = m\<rparr>)\<rparr>" using rp new unfolding repeat_or_preempt_eq [OF wf ok] by auto
        moreover have "valid_metadata m" unfolding m(1) using ok by (intro valid_next_metadata) (simp add: stored_ok_def)
        moreover have "rq_prompt_token_ids r = rq_prompt_token_ids (so_request so)" "rq_preemption_count r = rq_preemption_count (so_request so) + 1"
          using True by (metis SchedulerLookupRequest.select_convs(2) SchedulerLookupRequest.surjective SchedulerLookupRequest.update_convs(7),
            metis SchedulerLookupRequest.select_convs(7) SchedulerLookupRequest.surjective SchedulerLookupRequest.update_convs(7))
        ultimately show ?thesis using ok live by (simp add: stored_ok_def del: is_fatal_simps)
      next
        case False
        then have b: "build_metadata r FATAL_DUPLICATE_CONFLICT empty_lookup_plan [] (md_allocation_generation (so_metadata so)) = Inr m"
        "rt' = marked FATAL_DUPLICATE_CONFLICT rt" using rp new unfolding repeat_or_preempt_eq [OF wf ok] by auto
        then show ?thesis using build_metadata_Inr [OF b(1)] by (simp add: marked_eq)
      qed
    qed
  qed
qed


section \<open>Composition with the lookup coordinator\<close>

text \<open>Matches that follow one another inside the prompt pass every check of \<^verbatim>\<open>RequestPlan\<close>.\<close>

lemma sequential_plan_accepted:
  assumes seq: "sorted_wrt (\<lambda>a b. tr_end (token_range (vm_target a)) \<le> tr_start (token_range (vm_target b))) ms"
    and m: "\<forall>m\<in>set ms. wf_segment (vm_target m) \<and> tr_end (token_range (vm_target m)) \<le> n \<and>
      token_ids (vm_target m) = rec_token_ids (vm_record m) \<and> query_fingerprint (vm_candidate m) = rec_fingerprint (vm_record m)"
    and i: "i \<noteq> []" "0 \<le> n"
  shows "RequestPlan_init i n (map vm_target ms) \<lparr>matches = ms, rejected_candidates = [],
      requested_tokens = sum_list (map segment_len (map vm_target ms))\<rparr> =
    Inr \<lparr>rp_request_id = i, rp_prompt_tokens = n, rp_query_segments = map vm_target ms,
      rp_match_plan = \<lparr>matches = ms, rejected_candidates = [], requested_tokens = sum_list (map segment_len (map vm_target ms))\<rparr>\<rparr>"
proof -
  let ?mp = "\<lparr>matches = ms, rejected_candidates = [], requested_tokens = sum_list (map segment_len (map vm_target ms))\<rparr>"
  have ne: "\<forall>m\<in>set ms. tr_start (token_range (vm_target m)) < tr_end (token_range (vm_target m))"
    using m wf_segment_nonempty by blast
  have lt: "sorted_wrt (\<lambda>a b. segment_sort_key (vm_target a) < segment_sort_key (vm_target b)) ms"
    using seq by (rule sorted_wrt_mono_rel [rotated]) (use ne in \<open>fastforce simp: segment_sort_key_def\<close>)
  have sorted: "sorted (map (\<lambda>m. segment_sort_key (vm_target m)) ms)"
    unfolding sorted_map using lt by (rule sorted_wrt_mono_rel [rotated]) (auto intro: less_imp_le)
  have "distinct (map (\<lambda>m. segment_sort_key (vm_target m)) ms)"
    using lt by (induction ms) auto
  then have dist: "distinct (map vm_target ms)" by (auto simp: distinct_map inj_on_def)
  have id: "sort_key segment_sort_key (map vm_target ms) = map vm_target ms"
    using sorted by (intro sort_key_id_if_sorted) (simp add: o_def)
  have nov: "sorted_wrt (\<lambda>a b. \<not> overlaps (token_range (vm_target b)) (token_range (vm_target a))) ms"
    using seq by (rule sorted_wrt_mono_rel [rotated]) (auto simp: overlaps_def)
  have sum: "sum_list (map (\<lambda>m. segment_len (vm_target m)) ms) =
      int (card (\<Union>m\<in>set ms. range_set (token_range (vm_target m))))" by (rule matched_card [OF nov]) (use m in auto)
  then have "requested_tokens ?mp = covered_token_count (map vm_target ms)"
    using covered_token_count_card [of "map vm_target ms"] m by (simp add: o_def)
  moreover have "check_matches (map vm_target ms) [] None ms = Inr ()"
    unfolding check_matches_Inr using m nov sorted by simp
  ultimately show ?thesis using i dist id m sum
    by (auto simp: RequestPlan_init_def Let_def matched_tokens_def o_def not_less)
qed

text \<open>
  What the runtime relies on: the coordinator is the sidecar lookup (whose sidecar may depend on the
  world), and the candidates a transport returns are constructed values.
\<close>

definition coordinated :: "'w Environment \<Rightarrow> ('w \<Rightarrow> 'e sidecar) \<Rightarrow> bool" where
  "coordinated env sidecar \<longleftrightarrow>
     (\<forall>ts n cs w p w'. env_plan env ts n cs w = (Inr (Some p), w') \<longrightarrow>
        lookup_plan (sidecar w) (map PInt ts) n (map Some cs) = Inr p) \<and>
     (\<forall>t ts i w cs w'. env_lookup_candidates env t ts i w = (Inr (Some (map Some cs)), w') \<longrightarrow>
        list_all wf_lmcache_candidate cs)"

text \<open>Every match is an exact piece of the prompt, in the configured namespace.\<close>

definition exact_match :: "CacheNamespace \<Rightarrow> int list \<Rightarrow> VerifiedMatch \<Rightarrow> bool" where
  "exact_match n prompt m \<longleftrightarrow> wf_segment (vm_target m) \<and>
     tr_end (token_range (vm_target m)) \<le> int (length prompt) \<and>
     token_ids (vm_target m) = prompt_slice prompt (token_range (vm_target m)) \<and>
     rec_token_ids (vm_record m) = token_ids (vm_target m) \<and> rec_namespace (vm_record m) = n \<and>
     query_fingerprint (vm_candidate m) = rec_fingerprint (vm_record m) \<and>
     rec_fingerprint (vm_record m) = SHA256_FINGERPRINTER n (token_ids (vm_target m))"

text \<open>
  What the worker may rely on: every candidate is bound to an exact match at its own target chunk,
  with the record's key and the digest of this prompt, and the chunks follow each other.
\<close>

definition exact_candidate :: "CacheNamespace \<Rightarrow> int list \<Rightarrow> VerifiedLmcacheCandidate \<Rightarrow> bool" where
  "exact_candidate n prompt v \<longleftrightarrow> exact_match n prompt (vc_match v) \<and>
     lc_target_range (vc_candidate v) = token_range (vm_target (vc_match v)) \<and>
     range_len (lc_target_range (vc_candidate v)) = LMCACHE_CHUNK_SIZE \<and>
     lc_cache_key (vc_candidate v) = cache_key (vm_record (vc_match v)) \<and> fresh prompt (vc_candidate v)"

definition exact_verified :: "CacheNamespace \<Rightarrow> int list \<Rightarrow> VerifiedLmcacheCandidate list \<Rightarrow> bool" where
  "exact_verified n prompt vs \<longleftrightarrow> list_all (exact_candidate n prompt) vs \<and>
     sorted_wrt (\<lambda>a b. tr_end (lc_target_range (vc_candidate a)) \<le> tr_start (lc_target_range (vc_candidate b))) vs"

lemma exact_verified_Nil [simp]: "exact_verified n prompt []"
  by (simp add: exact_verified_def)

lemma plan_source_exact:
  assumes src: "plan_source env r n lplan" and co: "coordinated env sidecar" and wf: "wf_request r"
  shows "exact_verified n (rq_prompt_token_ids r) (lp_verified lplan)"
proof (cases "lplan = empty_lookup_plan")
  case True
  then show ?thesis by (simp add: empty_lookup_plan_def)
next
  case False
  let ?ts = "rq_prompt_token_ids r"
  obtain cs w3 where p: "lookup_plan (sidecar w3) (map PInt ?ts) n (map Some cs) = Inr lplan"
    and cs: "list_all wf_lmcache_candidate cs" "list_all (\<lambda>c. range_len (lc_target_range c) = LMCACHE_CHUNK_SIZE) cs"
    using src False co unfolding plan_source_def coordinated_def by blast
  have ts: "wf_tokens ?ts" using wf by (simp add: wf_request_def)
  have v: "exact_candidate n ?ts v" if v: "v \<in> set (lp_verified lplan)" for v
  proof -
    have o: "vc_candidate v \<in> set cs" "outcome (sidecar w3) n ?ts (vc_candidate v) = Inr (True, Inr v)"
      using lookup_plan_verified [OF p ts cs(1) v] by simp_all
    have w: "wf_lmcache_candidate (vc_candidate v)" and len: "range_len (lc_target_range (vc_candidate v)) = LMCACHE_CHUNK_SIZE"
      using o(1) cs by (simp_all add: list_all_iff)
    note ver = outcome_verified [OF ts w o(2)] and b = outcome_in_bounds [OF o(2)]
    have "wf_segment (vm_target (vc_match v))"
      using ver w b length_prompt_slice [of "lc_target_range (vc_candidate v)" ?ts] wf_prompt_slice [OF ts]
      by (auto simp: wf_segment_def wf_lmcache_candidate_def)
    then show ?thesis using ver b len by (auto simp: exact_candidate_def exact_match_def exact_records_def)
  qed
  then show ?thesis using lookup_plan_sequential [OF p ts cs(1)] by (simp add: exact_verified_def list_all_iff)
qed

lemma exact_verified_matches:
  assumes "exact_verified n prompt vs"
  shows "list_all (\<lambda>v. exact_match n prompt (vc_match v)) vs"
    "sorted_wrt (\<lambda>a b. tr_end (token_range (vm_target a)) \<le> tr_start (token_range (vm_target b))) (map vc_match vs)"
    "list_all (\<lambda>v. range_len (token_range (vm_target (vc_match v))) = LMCACHE_CHUNK_SIZE) vs"
proof -
  have v: "exact_match n prompt (vc_match v) \<and> lc_target_range (vc_candidate v) = token_range (vm_target (vc_match v)) \<and>
      range_len (token_range (vm_target (vc_match v))) = LMCACHE_CHUNK_SIZE" if "v \<in> set vs" for v
    using assms that by (auto simp: exact_verified_def exact_candidate_def list_all_iff)
  have "sorted_wrt (\<lambda>a b. tr_end (token_range (vm_target (vc_match a))) \<le> tr_start (token_range (vm_target (vc_match b)))) vs"
    using assms [unfolded exact_verified_def, THEN conjunct2] by (rule sorted_wrt_mono_rel [rotated]) (use v in auto)
  then show "list_all (\<lambda>v. exact_match n prompt (vc_match v)) vs"
    "sorted_wrt (\<lambda>a b. tr_end (token_range (vm_target a)) \<le> tr_start (token_range (vm_target b))) (map vc_match vs)"
    "list_all (\<lambda>v. range_len (token_range (vm_target (vc_match v))) = LMCACHE_CHUNK_SIZE) vs"
    using v by (auto simp: list_all_iff sorted_wrt_map)
qed

lemma build_metadata_total:
  assumes wf: "wf_request r" and g: "0 \<le> g"
    and ex: "list_all (\<lambda>v. exact_match n (rq_prompt_token_ids r) (vc_match v)) (lp_verified lplan)"
    and seq: "sorted_wrt (\<lambda>a b. tr_end (token_range (vm_target a)) \<le> tr_start (token_range (vm_target b))) (map vc_match (lp_verified lplan))"
    and chunk: "list_all (\<lambda>v. range_len (token_range (vm_target (vc_match v))) = LMCACHE_CHUNK_SIZE) (lp_verified lplan)"
    and st: "s = TRANSFER_READY \<longleftrightarrow> lp_verified lplan \<noteq> []"
    and ws: "ws = query_windows (int (length (rq_prompt_token_ids r))) \<or>
     ws = [] \<and> s \<notin> {TRANSFER_READY, FULL_PREFILL_MISS, FULL_PREFILL_TRANSPORT_ERROR, FULL_PREFILL_SIDECAR_ERROR}"
  shows "\<exists>m. build_metadata r s lplan ws g = Inr m"
proof -
  let ?n = "int (length (rq_prompt_token_ids r))" and ?ms = "map vc_match (lp_verified lplan)"
  have m: "\<forall>m\<in>set ?ms. wf_segment (vm_target m) \<and> tr_end (token_range (vm_target m)) \<le> ?n \<and>
      token_ids (vm_target m) = rec_token_ids (vm_record m) \<and> query_fingerprint (vm_candidate m) = rec_fingerprint (vm_record m)"
    using ex by (auto simp: list_all_iff exact_match_def)
  have i: "rq_request_id r \<noteq> []" using wf by (simp add: wf_request_def)
  obtain rp where rp: "request_plan_of r lplan = Inr rp" "rp_prompt_tokens rp = ?n" "matches (rp_match_plan rp) = ?ms"
    using sequential_plan_accepted [OF seq m i] by (simp add: request_plan_of_def Let_def o_assoc)
  have nonempty: "ws \<noteq> []" if "s = TRANSFER_READY"
  proof -
    from that st obtain v where v: "v \<in> set (lp_verified lplan)" by (cases "lp_verified lplan") auto
    let ?r = "token_range (vm_target (vc_match v))"
    have "range_len ?r = LMCACHE_CHUNK_SIZE" "tr_end ?r \<le> ?n" "0 \<le> tr_start ?r"
      using v ex chunk by (auto simp: list_all_iff exact_match_def wf_segment_def wf_range_def)
    then have "LMCACHE_CHUNK_SIZE \<le> ?n" by (simp add: range_len_def)
    then have "0 < int (length (query_windows ?n))" unfolding length_query_windows by linarith
    then show ?thesis using ws that by auto
  qed
  have "ws = take (length ws) (query_windows ?n)" using ws by auto
  then show ?thesis using rp wf g st nonempty ws
    by (auto simp: build_metadata_def SchedulerLookupMetadata_init_Inr valid_metadata_def wf_request_def
        FULL_RECOMPUTE_EXTERNAL_TOKENS_def)
qed

lemma build_empty_total:
  assumes "wf_request r" "0 \<le> g" "is_fatal s"
  shows "\<exists>m. build_metadata r s empty_lookup_plan [] g = Inr m"
  using assms by (intro build_metadata_total) (auto simp: empty_lookup_plan_def)

definition scheduler_sound :: "SchedulerLookupRuntime \<Rightarrow> bool" where
  "scheduler_sound rt \<longleftrightarrow> (\<forall>i so. sl_requests rt i = Some so \<longrightarrow>
     exact_verified (sc_namespace (sl_config rt)) (md_prompt_token_ids (so_metadata so)) (lp_verified (md_lookup_plan (so_metadata so))))"

text \<open>A lookup returns metadata whose matches are exact, and keeps those it stored.\<close>

lemma scheduler_lookup_sound:
  assumes l: "scheduler_lookup env r rt w = (res, rt', w')" and inv: "scheduler_inv rt" and sound: "scheduler_sound rt"
    and wf: "wf_request r" and co: "coordinated env sidecar"
  shows "\<exists>m. res = Inr m \<and> scheduler_sound rt' \<and> sl_config rt' = sl_config rt \<and>
    exact_verified (sc_namespace (sl_config rt)) (rq_prompt_token_ids r) (lp_verified (md_lookup_plan m))"
proof -
  have none: "exact_verified n (rq_prompt_token_ids r) (lp_verified (md_lookup_plan m))"
    if "build_metadata r s empty_lookup_plan ws g = Inr m" for n s ws g m
    using build_metadata_Inr [OF that] by (simp add: empty_lookup_plan_def)
  have pre: "0 \<le> rq_preemption_count r" using wf by (simp add: wf_request_def)
  show ?thesis
  proof (cases "sl_state rt \<in> {FATAL, CLOSED}")
    case True
    then obtain s where "res = build_metadata r s empty_lookup_plan [] (rq_preemption_count r)" "is_fatal s" "rt' = rt"
      using stopped_lookup_eq [OF inv True, of env r w] l by (metis prod.inject)
    then show ?thesis using build_empty_total [OF wf pre, of s] none sound by metis
  next
    case live: False
    show ?thesis
    proof (cases "sl_requests rt (rq_request_id r)")
      case None
      obtain s lplan ws rt1 w1 where rt: "(res, rt', w') = retain r s (build_metadata r s lplan ws 0) rt1 w1"
        "sl_config rt1 = sl_config rt" "sl_requests rt1 = sl_requests rt \<or> sl_requests rt1 = Map.empty"
        and src: "plan_source env r (sc_namespace (sl_config rt)) lplan" "s = TRANSFER_READY \<longleftrightarrow> lp_verified lplan \<noteq> []"
        and ws: "ws = query_windows (int (length (rq_prompt_token_ids r))) \<or>
          ws = [] \<and> s \<notin> {TRANSFER_READY, FULL_PREFILL_MISS, FULL_PREFILL_TRANSPORT_ERROR, FULL_PREFILL_SIDECAR_ERROR}"
        by (rule scheduler_lookup_new [OF l inv live None])
      note ex = plan_source_exact [OF src(1) co wf]
      then obtain m where m: "build_metadata r s lplan ws 0 = Inr m"
        using build_metadata_total [OF wf order.refl exact_verified_matches src(2) ws] by blast
      have "exact_verified (sc_namespace (sl_config rt)) (rq_prompt_token_ids r) (lp_verified (md_lookup_plan m))"
        "md_prompt_token_ids m = rq_prompt_token_ids r"
        using build_metadata_Inr [OF m] ex by auto
      then show ?thesis using rt m sound by (auto simp: retain_def scheduler_sound_def split: if_splits)
    next
      case (Some so)
      then have rp: "repeat_or_preempt so r rt = (res, rt')" using l live by (auto simp: scheduler_lookup_def split: prod.splits)
      have ok: "stored_ok (rq_request_id r) so" using inv Some by (simp add: scheduler_inv_def)
      have gen: "0 \<le> md_allocation_generation (so_metadata so)" using ok by (simp add: stored_ok_def valid_metadata_def)
      have tok: "md_prompt_token_ids (so_metadata so) = rq_prompt_token_ids (so_request so)"
        using ok by (simp add: stored_ok_def)
      have so: "exact_verified (sc_namespace (sl_config rt)) (rq_prompt_token_ids (so_request so))
          (lp_verified (md_lookup_plan (so_metadata so)))"
        using sound Some unfolding scheduler_sound_def tok [symmetric] by blast
      obtain mf where mf: "build_metadata r FATAL_DUPLICATE_CONFLICT empty_lookup_plan [] (md_allocation_generation (so_metadata so)) = Inr mf"
        using build_empty_total [OF wf gen, of FATAL_DUPLICATE_CONFLICT] by auto
      show ?thesis using rp so tok none [OF mf] sound unfolding repeat_or_preempt_eq [OF wf ok] mf
        by (auto simp: scheduler_sound_def marked_eq split: if_splits)
    qed
  qed
qed


lemma scheduler_config_step: "scheduler_step env s s' \<Longrightarrow> coordinated env sidecar \<Longrightarrow> scheduler_inv (fst s) \<Longrightarrow>
    scheduler_sound (fst s) \<Longrightarrow> scheduler_sound (fst s') \<and> sl_config (fst s') = sl_config (fst s)"
proof (induction rule: scheduler_step.induct)
  case (step_open rt w r rt' w')
  show ?case
  proof (cases "sl_state rt \<in> {CREATED, READY, DEGRADED}")
    case True
    then show ?thesis using stays_open [OF step_open(1)] step_open by (auto simp: stays_def scheduler_sound_def)
  next
    case False
    then have "rt' = rt" using step_open(1) by (cases "sl_state rt") (auto simp: open_transport_def)
    then show ?thesis using step_open by simp
  qed
next
  case (step_lookup request rt w r rt' w')
  then show ?case using scheduler_lookup_sound [OF step_lookup(2)] by auto
next
  case (step_discard i rt r rt' w)
  then show ?case by (auto simp: scheduler_discard_def scheduler_sound_def split: if_splits)
next
  case (step_close rt w r rt' w')
  then show ?case
    by (auto simp: scheduler_close_def Let_def scheduler_sound_def split: if_splits prod.splits sum.splits)
qed

lemma scheduler_reachable_sound:
  "scheduler_reachable env s \<Longrightarrow> coordinated env sidecar \<Longrightarrow> scheduler_sound (fst s)"
proof (induction rule: scheduler_reachable.induct)
  case (reach_init config t w rt w')
  then show ?case
    by (auto simp: SchedulerLookupRuntime_init_def scheduler_sound_def split: prod.splits sum.splits option.splits if_splits)
next
  case (reach_step s s')
  then show ?case using scheduler_config_step scheduler_reachable_inv by blast
qed

text \<open>A runtime that is fatal or closed never becomes live again.\<close>

lemma fatal_step:
  assumes "scheduler_step env s s'" "sl_state (fst s) \<in> {FATAL, CLOSED}"
  shows "sl_state (fst s') \<in> {FATAL, CLOSED}"
  using assms
  by (induction rule: scheduler_step.induct)
    (auto simp: open_transport_def scheduler_lookup_def scheduler_discard_def scheduler_close_def Let_def
      split: if_splits prod.splits sum.splits)

lemma fatal_steps: "(scheduler_step env)\<^sup>*\<^sup>* s s' \<Longrightarrow> sl_state (fst s) \<in> {FATAL, CLOSED} \<Longrightarrow> sl_state (fst s') \<in> {FATAL, CLOSED}"
  by (induction rule: rtranclp_induct) (auto dest: fatal_step)

lemma steps_reachable: "(scheduler_step env)\<^sup>*\<^sup>* s s' \<Longrightarrow> scheduler_reachable env s \<Longrightarrow> scheduler_reachable env s'"
  by (induction rule: rtranclp_induct) (auto intro: reach_step)

lemma stopped_lookup:
  assumes "scheduler_inv rt" "sl_state rt \<in> {FATAL, CLOSED}" "wf_request r"
  shows "\<exists>m. scheduler_lookup env r rt w = (Inr m, rt, w) \<and> is_fatal (md_status m) \<and> lp_verified (md_lookup_plan m) = []"
proof -
  obtain s where s: "scheduler_lookup env r rt w = (build_metadata r s empty_lookup_plan [] (rq_preemption_count r), rt, w)" "is_fatal s"
    by (rule stopped_lookup_eq [OF assms(1,2)])
  moreover have "0 \<le> rq_preemption_count r" using assms(3) by (simp add: wf_request_def)
  ultimately obtain m where m: "build_metadata r s empty_lookup_plan [] (rq_preemption_count r) = Inr m"
    using build_empty_total [OF assms(3)] by blast
  then show ?thesis using s build_metadata_Inr [OF m] by (simp add: empty_lookup_plan_def del: is_fatal_simps)
qed


section \<open>A concrete environment\<close>

text \<open>A server that opens, knows no candidate and cannot be replaced; its coordinator is the sidecar lookup.\<close>

definition example_transport_config :: LmcacheBlendTransportConfig where
  "example_transport_config = \<lparr>cf_namespace = example_namespace, cf_server_attestation = example_attestation,
     cf_world_size = 1, cf_worker_id = 0, cf_chunk_size = 256, cf_request_timeout_seconds = Finite 10\<rparr>"

definition example_env :: "unit Environment" where
  "example_env = \<lparr>env_config = (\<lambda>t w. (Inr (Some example_transport_config), w)), env_open = (\<lambda>t w. (Inr (), w)),
     env_lookup_candidates = (\<lambda>t ts i w. (Inr (Some []), w)), env_close = (\<lambda>t w. (Inr (), w)),
     env_factory = (\<lambda>w. (Inl LmcacheOperationError, w)),
     env_plan = (\<lambda>ts n cs w. (case lookup_plan example_sidecar (map PInt ts) n (map Some cs) of
        Inl e \<Rightarrow> Inl CoordinatorOther | Inr p \<Rightarrow> Inr (Some p), w))\<rparr>"

definition example_runtime :: SchedulerLookupRuntime where
  "example_runtime = \<lparr>sl_config = \<lparr>sc_namespace = example_namespace, sc_staging_token_capacity = 256\<rparr>, sl_transport = 0,
     sl_transport_config = example_transport_config, sl_transport_needs_close = True, sl_state = CREATED,
     sl_fatal_status = None, sl_requests = Map.empty\<rparr>"

definition example_lookup_request :: SchedulerLookupRequest where
  "example_lookup_request = \<lparr>rq_request_id = ''r'', rq_prompt_token_ids = [5, 6, 9], rq_sequence_count = 1,
     rq_scheduler_step_index = 0, rq_num_computed_tokens = 0, rq_num_external_tokens = 0, rq_preemption_count = 0\<rparr>"

lemma wf_example_lookup_request: "wf_request example_lookup_request"
  by (simp add: example_lookup_request_def wf_request_def MAX_REQUEST_ID_BYTES_def GPT_OSS_MAX_CONTEXT_TOKENS_def
      wf_tokens_def MAX_TOKEN_ID_def)

lemma example_runtime_reachable: "scheduler_reachable example_env (example_runtime, ())"
proof (rule reach_init)
  show "SchedulerLookupRuntime_init example_env (sl_config example_runtime) 0 () = (Inr example_runtime, ())"
    by (simp add: SchedulerLookupRuntime_init_def example_env_def example_runtime_def example_transport_config_def
        LMCACHE_CHUNK_SIZE_def)
qed

lemma example_coordinated: "coordinated example_env (\<lambda>_. example_sidecar)"
  by (auto simp: coordinated_def example_env_def split: sum.splits)

lemma empty_lookup: "wf_tokens ts \<Longrightarrow> lookup_plan sidecar (map PInt ts) n [] = Inr empty_lookup_plan"
  using lookup_plan_eq [of ts sidecar n "[]"]
  by (simp add: finish_lookup_def select_potentials_def select_intervals_def order_indexes_def selection_solutions_def
      select_verified_def unselected_rejections_def order_rejections_def LmcacheLookupCounters_init_def empty_lookup_plan_def Let_def)

lemma example_scheduler_lookup:
  "\<exists>m rt. scheduler_lookup example_env example_lookup_request example_runtime () = (Inr m, rt, ()) \<and>
     md_status m = FULL_PREFILL_MISS"
proof -
  have "verify_candidates example_env example_lookup_request (Some []) k rt () = ((FULL_PREFILL_MISS, empty_lookup_plan), rt, ())" for k rt
  proof -
    have "wf_tokens (rq_prompt_token_ids example_lookup_request)" using wf_example_lookup_request by (simp add: wf_request_def)
    from empty_lookup [OF this, of example_sidecar "sc_namespace (sl_config rt)"]
    have "env_plan example_env (rq_prompt_token_ids example_lookup_request) (sc_namespace (sl_config rt)) [] () =
        (Inr (Some empty_lookup_plan), ())" by (simp add: example_env_def)
    moreover have "lp_verified empty_lookup_plan = []" by (simp add: empty_lookup_plan_def)
    ultimately show ?thesis by (simp add: verify_candidates_def)
  qed
  moreover have "env_open example_env t () = (Inr (), ())" "env_lookup_candidates example_env t ts i () = (Inr (Some []), ())" for t ts i
    by (simp_all add: example_env_def)
  moreover have "rq_num_external_tokens example_lookup_request = 0" "rq_sequence_count example_lookup_request = 1"
    "rq_scheduler_step_index example_lookup_request = 0" "rq_num_computed_tokens example_lookup_request = 0"
    "length (rq_prompt_token_ids example_lookup_request) = 3" by (simp_all add: example_lookup_request_def)
  ultimately have "scheduler_lookup example_env example_lookup_request example_runtime () =
      retain example_lookup_request FULL_PREFILL_MISS (build_metadata example_lookup_request FULL_PREFILL_MISS empty_lookup_plan
        (query_windows 3) 0) (example_runtime\<lparr>sl_state := READY\<rparr>) ()"
    by (simp add: scheduler_lookup_def eligibility_status_def prepare_transport_def open_transport_def lookup_on_transport_def
        example_runtime_def FULL_RECOMPUTE_EXTERNAL_TOKENS_def Let_def)
  moreover obtain m where m: "build_metadata example_lookup_request FULL_PREFILL_MISS empty_lookup_plan (query_windows 3) 0 = Inr m"
    using build_metadata_total [OF wf_example_lookup_request, of 0 example_namespace empty_lookup_plan FULL_PREFILL_MISS "query_windows 3"]
    by (auto simp: empty_lookup_plan_def example_lookup_request_def)
  ultimately show ?thesis using build_metadata_Inr [OF m] by (simp add: retain_def)
qed

section \<open>Properties\<close>

text \<open>
  C16. Scheduler credit: whatever the transports and the coordinator do, a lookup that returns reports
  zero external tokens and no asynchronous load, for the very request it was asked about; a transfer
  is announced exactly when verified candidates exist; a fatal status leaves no request behind in a
  stopped runtime, any other status leaves the returned value stored for this request.
\<close>

theorem scheduler_credits_nothing:
  assumes "scheduler_reachable env (rt, w)" "wf_request r" "scheduler_lookup env r rt w = (Inr m, rt', w')"
  shows "md_external_scheduler_tokens m = 0 \<and> \<not> md_load_kv_async m \<and> rp_request_id (md_request_plan m) = rq_request_id r \<and>
    md_prompt_token_ids m = rq_prompt_token_ids r \<and>
    (should_transfer m \<longleftrightarrow> lp_verified (md_lookup_plan m) \<noteq> []) \<and>
    (if is_fatal (md_status m) then sl_state rt' \<in> {FATAL, CLOSED} \<and> sl_requests rt' = Map.empty
     else sl_requests rt' (rq_request_id r) = Some \<lparr>so_request = r, so_metadata = m\<rparr> \<and> sl_state rt' \<notin> {FATAL, CLOSED})"
proof -
  have "scheduler_inv rt" using scheduler_reachable_inv [OF assms(1)] by simp
  from scheduler_lookup_valid [OF assms(3) this assms(2)] show ?thesis
    unfolding should_transfer_def valid_metadata_def by blast
qed

theorem scheduler_credits_nothing_witness:
  "\<exists>m rt. scheduler_lookup example_env example_lookup_request example_runtime () = (Inr m, rt, ()) \<and>
     md_external_scheduler_tokens m = 0 \<and> \<not> should_transfer m"
proof -
  obtain m rt where m: "scheduler_lookup example_env example_lookup_request example_runtime () = (Inr m, rt, ())"
    "md_status m = FULL_PREFILL_MISS" using example_scheduler_lookup by blast
  then show ?thesis
    using scheduler_credits_nothing [OF example_runtime_reachable wf_example_lookup_request m(1)] by (auto simp: should_transfer_def)
qed

text \<open>
  C17. Fatal is absorbing: once a runtime is fatal or closed, no sequence of calls makes it live again,
  and every later lookup answers at once with a fatal status and no match, without touching a
  transport, the coordinator or its own state.
\<close>

theorem fatal_is_absorbing:
  assumes "scheduler_reachable env s" "sl_state (fst s) \<in> {FATAL, CLOSED}" "(scheduler_step env)\<^sup>*\<^sup>* s (rt, w)" "wf_request r"
  shows "sl_state rt \<in> {FATAL, CLOSED} \<and>
    (\<exists>m. scheduler_lookup env r rt w = (Inr m, rt, w) \<and> is_fatal (md_status m) \<and> lp_verified (md_lookup_plan m) = [])"
proof -
  have st: "sl_state rt \<in> {FATAL, CLOSED}" using fatal_steps [OF assms(3,2)] by simp
  have "scheduler_inv rt" using scheduler_reachable_inv [OF steps_reachable [OF assms(3,1)]] by simp
  from stopped_lookup [OF this st assms(4), of env w] show ?thesis using st by (rule conjI [rotated])
qed

theorem fatal_is_absorbing_witness:
  "\<exists>m. scheduler_lookup example_env example_lookup_request (example_runtime\<lparr>sl_transport_needs_close := False, sl_state := CLOSED\<rparr>) () =
     (Inr m, example_runtime\<lparr>sl_transport_needs_close := False, sl_state := CLOSED\<rparr>, ()) \<and> is_fatal (md_status m)"
proof -
  let ?rt = "example_runtime\<lparr>sl_transport_needs_close := False, sl_state := CLOSED\<rparr>"
  have "scheduler_close example_env example_runtime () = (Inr (), ?rt, ())"
    by (simp add: scheduler_close_def example_env_def example_runtime_def)
  then have "scheduler_reachable example_env (?rt, ())"
    by (rule reach_step [OF example_runtime_reachable step_close])
  from fatal_is_absorbing [OF this _ _ wf_example_lookup_request, of ?rt "()"] show ?thesis by auto
qed

text \<open>
  C18. Repetition and preemption: after a lookup that was stored, asking again returns the same value
  and changes nothing; the same request after one more preemption keeps its plan and status and
  advances the allocation generation by one; any other request under the same identifier is a fatal
  conflict that forgets every request.  None of the three calls the environment.
\<close>

theorem lookup_replay:
  assumes "scheduler_reachable env (rt, w)" "wf_request r" "scheduler_lookup env r rt w = (Inr m, rt', w')"
    "\<not> is_fatal (md_status m)"
  shows "scheduler_lookup env' r rt' wx = (Inr m, rt', wx) \<and>
    (\<exists>rt2. scheduler_lookup env' (r\<lparr>rq_preemption_count := rq_preemption_count r + 1\<rparr>) rt' wx = (Inr (next_metadata m), rt2, wx)) \<and>
    (wf_request other \<and> rq_request_id other = rq_request_id r \<and> other \<noteq> r \<and> other \<noteq> r\<lparr>rq_preemption_count := rq_preemption_count r + 1\<rparr> \<longrightarrow>
      (\<exists>f rt2. scheduler_lookup env' other rt' wx = (Inr f, rt2, wx) \<and> md_status f = FATAL_DUPLICATE_CONFLICT \<and>
        sl_state rt2 = FATAL \<and> sl_requests rt2 = Map.empty))"
proof -
  let ?so = "\<lparr>so_request = r, so_metadata = m\<rparr>" and ?next = "r\<lparr>rq_preemption_count := rq_preemption_count r + 1\<rparr>"
  have inv: "scheduler_inv rt" using scheduler_reachable_inv [OF assms(1)] by simp
  have v: "sl_requests rt' (rq_request_id r) = Some ?so" "sl_state rt' \<notin> {FATAL, CLOSED}"
    using scheduler_lookup_valid [OF assms(3) inv assms(2)] assms(4) by (simp_all del: is_fatal_simps)
  have ok: "stored_ok (rq_request_id r) ?so"
    using scheduler_lookup_inv [OF assms(3) inv assms(2)] v(1) by (simp add: scheduler_inv_def)
  have l: "scheduler_lookup env' q rt' wx = (let (res, rt2) = repeat_or_preempt ?so q rt' in (res, rt2, wx))"
    if "rq_request_id q = rq_request_id r" for q using v that by (simp add: scheduler_lookup_def)
  have "wf_request ?next" using assms(2) by (simp add: wf_request_def)
  moreover have "?next \<noteq> r" by (cases r) simp
  ultimately have two: "\<exists>rt2. scheduler_lookup env' ?next rt' wx = (Inr (next_metadata m), rt2, wx)"
    using ok by (simp add: l repeat_or_preempt_eq)
  have one: "scheduler_lookup env' r rt' wx = (Inr m, rt', wx)" using ok assms(2) by (simp add: l repeat_or_preempt_eq)
  have "\<exists>f rt2. scheduler_lookup env' other rt' wx = (Inr f, rt2, wx) \<and> md_status f = FATAL_DUPLICATE_CONFLICT \<and>
        sl_state rt2 = FATAL \<and> sl_requests rt2 = Map.empty"
    if q: "wf_request other" "rq_request_id other = rq_request_id r" "other \<noteq> r" "other \<noteq> ?next"
  proof -
    have g: "0 \<le> md_allocation_generation m" using ok by (simp add: stored_ok_def valid_metadata_def)
    obtain f where f: "build_metadata other FATAL_DUPLICATE_CONFLICT empty_lookup_plan [] (md_allocation_generation m) = Inr f"
      using build_empty_total [OF q(1) g, of FATAL_DUPLICATE_CONFLICT] by auto
    have "stored_ok (rq_request_id other) ?so" using ok q(2) by simp
    then show ?thesis using q f build_metadata_Inr [OF f] by (simp add: l repeat_or_preempt_eq marked_eq)
  qed
  then show ?thesis using one two by blast
qed

theorem lookup_replay_witness:
  "\<exists>m rt. scheduler_lookup example_env example_lookup_request example_runtime () = (Inr m, rt, ()) \<and>
     scheduler_lookup example_env example_lookup_request rt () = (Inr m, rt, ())"
proof -
  obtain m rt where m: "scheduler_lookup example_env example_lookup_request example_runtime () = (Inr m, rt, ())"
    "md_status m = FULL_PREFILL_MISS" using example_scheduler_lookup by blast
  then show ?thesis using lookup_replay [OF example_runtime_reachable wf_example_lookup_request m(1),
      where env' = example_env and wx = "()" and other = example_lookup_request] by simp
qed

text \<open>
  C15. Composition: when the coordinator is the sidecar lookup and the transport returns constructed
  candidates, every lookup returns metadata and never raises.  The candidates it announces are bound
  to exact pieces of the current prompt in the configured namespace, one chunk each and in sequence,
  and the control plane is handed exactly their matches, whatever calls, failures and replacements
  came before.
\<close>

theorem scheduler_lookup_exact:
  assumes "scheduler_reachable env (rt, w)" "coordinated env sidecar" "wf_request r"
  shows "\<exists>m rt' w'. scheduler_lookup env r rt w = (Inr m, rt', w') \<and>
    exact_verified (sc_namespace (sl_config rt)) (rq_prompt_token_ids r) (lp_verified (md_lookup_plan m)) \<and>
    matches (rp_match_plan (md_request_plan m)) = map vc_match (lp_verified (md_lookup_plan m))"
proof -
  obtain res rt' w' where l: "scheduler_lookup env r rt w = (res, rt', w')" by (metis prod.exhaust)
  have inv: "scheduler_inv rt" "scheduler_sound rt"
    using scheduler_reachable_inv [OF assms(1)] scheduler_reachable_sound [OF assms(1,2)] by simp_all
  obtain m where m: "res = Inr m"
    "exact_verified (sc_namespace (sl_config rt)) (rq_prompt_token_ids r) (lp_verified (md_lookup_plan m))"
    using scheduler_lookup_sound [OF l inv assms(3,2)] by blast
  then have "valid_metadata m" using scheduler_lookup_valid [of env r rt w m rt' w'] l inv(1) assms(3) by blast
  then have "matches (rp_match_plan (md_request_plan m)) = map vc_match (lp_verified (md_lookup_plan m))"
    by (simp add: valid_metadata_def)
  then show ?thesis using l m by blast
qed

theorem scheduler_lookup_exact_witness:
  "\<exists>m rt' w'. scheduler_lookup example_env example_lookup_request example_runtime () = (Inr m, rt', w')"
  using scheduler_lookup_exact [OF example_runtime_reachable example_coordinated wf_example_lookup_request] by blast

end
