(* ===== verification/TransferRuntime.thy ===== *)
theory TransferRuntime
  imports SchedulerRuntime
begin

text \<open>
  \<^verbatim>\<open>vllm_compat/v0_19_1/transfer_runtime.py\<close>: the worker's half of the full-recompute milestone.
  Scheduler metadata is checked against the prompt, the handoff and the verified candidates; before
  the forward pass the retrieved KV is scattered as instrumentation only, after it the complete
  chunks are gathered, stored and published.  The injected storage and data plane are the functions
  of a \<open>WorkerEnvironment\<close> over an arbitrary world \<open>'w\<close>: every call may raise and may change the
  world.  A planning loop that would not return is \<open>None\<close>; the lemmas show that none does.
\<close>

section \<open>Errors and states\<close>

datatype TransferRuntimeErrorCode =
    INVALID_METADATA | NONZERO_EXTERNAL_TOKENS | NOT_INITIAL_PREFILL | INCOMPLETE_FULL_PROMPT_STEP
  | NAMESPACE_MISMATCH | CANDIDATE_MISMATCH | CANDIDATE_CHUNK_MISMATCH | CANDIDATE_OVERLAP
  | INVALID_OUTCOME | INVALID_FORWARD_COMPLETION

text \<open>
  What a method may raise: the runtime's own error, an error of the scatter planner (of which
  \<open>LayoutError\<close> is the \<^verbatim>\<open>HybridLayoutError\<close>), a built-in exception, or what a collaborator raised,
  of class \<^verbatim>\<open>Exception\<close> or outside it.
\<close>

datatype transfer_exn =
    TransferRuntimeError TransferRuntimeErrorCode | PlannerRaise scatter_error | BuiltinRaise py_error
  | CollaboratorRaise | Interrupted

datatype TransferAttemptState = NOT_ELIGIBLE | SUCCEEDED | FULL_PREFILL_FALLBACK

datatype TransferFallbackCode =
    LOAD_PLAN_REJECTED | LOAD_PREFLIGHT_FAILED | RETRIEVE_FAILED | RETRIEVE_RECEIPT_INVALID | SCATTER_FAILED
  | STORE_PLAN_REJECTED | STORE_PREFLIGHT_FAILED | GATHER_FAILED | STORE_FAILED | STORE_RECEIPT_INVALID
  | SIDECAR_PUBLISH_FAILED

section \<open>Scheduler metadata\<close>

record SchedulerTransferMetadata =
  tm_cache_namespace :: CacheNamespace
  tm_prompt_token_ids :: "int list"
  tm_verified_candidates :: "VerifiedLmcacheCandidate list"
  tm_handoff :: RequestHandoffMetadata
  tm_num_computed_tokens_before_step :: int
  tm_scheduled_token_count :: int
  tm_transfer_eligible :: bool
  tm_store_eligible :: bool

text \<open>The loop over the candidates, with their position and the end of the previous target.\<close>

fun check_transfer_candidates ::
    "CacheNamespace \<Rightarrow> int list \<Rightarrow> byte list \<Rightarrow> nat \<Rightarrow> int \<Rightarrow> VerifiedLmcacheCandidate list \<Rightarrow>
     TransferRuntimeErrorCode + unit" where
  "check_transfer_candidates ns prompt expected_digest index previous_end [] = Inr ()"
| "check_transfer_candidates ns prompt expected_digest index previous_end (verified # rest) =
     (let candidate = vc_candidate verified; match = vc_match verified;
          target = lc_target_range candidate; record = vm_record match in
      if range_len target \<noteq> LMCACHE_CHUNK_SIZE then Inl CANDIDATE_CHUNK_MISMATCH
      else if tr_end target > int (length prompt) then Inl CANDIDATE_MISMATCH
      else if index > 0 \<and> tr_start target < previous_end then Inl CANDIDATE_OVERLAP
      else if lc_query_digest candidate \<noteq> expected_digest then Inl CANDIDATE_MISMATCH
      else if target \<noteq> token_range (vm_target match) \<or> lc_cache_key candidate \<noteq> cache_key record \<or>
          rec_namespace record \<noteq> ns \<or> token_ids (vm_target match) \<noteq> prompt_slice prompt target \<or>
          rec_token_ids record \<noteq> token_ids (vm_target match) \<or>
          rec_fingerprint record \<noteq> SHA256_FINGERPRINTER ns (rec_token_ids record)
      then Inl (if rec_namespace record \<noteq> ns then NAMESPACE_MISMATCH else CANDIDATE_MISMATCH)
      else check_transfer_candidates ns prompt expected_digest (Suc index) (tr_end target) rest)"

definition SchedulerTransferMetadata_init ::
    "CacheNamespace \<Rightarrow> pyval list \<Rightarrow> VerifiedLmcacheCandidate list \<Rightarrow> RequestHandoffMetadata \<Rightarrow> pyval \<Rightarrow> pyval \<Rightarrow>
     bool \<Rightarrow> bool \<Rightarrow> transfer_exn + SchedulerTransferMetadata" where
  "SchedulerTransferMetadata_init ns prompt_token_ids candidates handoff computed scheduled transfer_eligible store_eligible =
     (case normalize_token_ids prompt_token_ids of
        Inl _ \<Rightarrow> Inl (TransferRuntimeError INVALID_METADATA)
      | Inr prompt \<Rightarrow>
          if prompt = [] \<or> int (length prompt) > GPT_OSS_MAX_CONTEXT_TOKENS then Inl (TransferRuntimeError INVALID_METADATA)
          else if plan_external_scheduler_tokens (hm_plan handoff) \<noteq> FULL_RECOMPUTE_EXTERNAL_TOKENS \<or>
              al_external_scheduler_tokens (hm_allocation handoff) \<noteq> FULL_RECOMPUTE_EXTERNAL_TOKENS
          then Inl (TransferRuntimeError NONZERO_EXTERNAL_TOKENS)
          else if \<not> is_plain_int computed \<or> the_int computed \<noteq> 0 then Inl (TransferRuntimeError NOT_INITIAL_PREFILL)
          else if \<not> is_plain_int scheduled \<or> the_int scheduled \<noteq> int (length prompt) \<or>
              rp_prompt_tokens (hm_plan handoff) \<noteq> int (length prompt)
          then Inl (TransferRuntimeError INCOMPLETE_FULL_PROMPT_STEP)
          else if transfer_eligible \<and> candidates = [] then Inl (TransferRuntimeError INVALID_METADATA)
          else if store_eligible \<and> int (length prompt) < LMCACHE_CHUNK_SIZE then Inl (TransferRuntimeError INVALID_METADATA)
          else case query_digest (map PInt prompt) of
            Inl e \<Rightarrow> Inl (BuiltinRaise e)
          | Inr expected_digest \<Rightarrow>
              if map vc_match candidates \<noteq> matches (rp_match_plan (hm_plan handoff))
              then Inl (TransferRuntimeError CANDIDATE_MISMATCH)
              else case check_transfer_candidates ns prompt expected_digest 0 0 candidates of
                Inl code \<Rightarrow> Inl (TransferRuntimeError code)
              | Inr _ \<Rightarrow> Inr \<lparr>tm_cache_namespace = ns, tm_prompt_token_ids = prompt, tm_verified_candidates = candidates,
                  tm_handoff = handoff, tm_num_computed_tokens_before_step = the_int computed,
                  tm_scheduled_token_count = the_int scheduled, tm_transfer_eligible = transfer_eligible,
                  tm_store_eligible = store_eligible\<rparr>)"

definition tm_request_id :: "SchedulerTransferMetadata \<Rightarrow> string" where
  "tm_request_id m = rp_request_id (hm_plan (tm_handoff m))"

definition prompt_token_count :: "SchedulerTransferMetadata \<Rightarrow> int" where
  "prompt_token_count m = int (length (tm_prompt_token_ids m))"

definition complete_store_token_count :: "SchedulerTransferMetadata \<Rightarrow> int" where
  "complete_store_token_count m = (prompt_token_count m div LMCACHE_CHUNK_SIZE) * LMCACHE_CHUNK_SIZE"

section \<open>Load and store plans\<close>

record AdaptedKvCacheBlocks =
  ab_grouped_allocation :: GroupedBlockAllocation
  ab_group_block_tables :: "GroupBlockTable list"

record CandidateScatterWork =
  cw_candidate_index :: int
  cw_verified_candidate :: VerifiedLmcacheCandidate
  cw_scatter_plan :: TokenScatterPlan

record WorkerLoadPlan =
  wl_metadata :: SchedulerTransferMetadata
  wl_adapted_blocks :: AdaptedKvCacheBlocks
  wl_candidates :: "CandidateScatterWork list"

definition load_expected_tokens :: "WorkerLoadPlan \<Rightarrow> int" where
  "load_expected_tokens p =
     sum_list (map (\<lambda>c. range_len (lc_target_range (vc_candidate (cw_verified_candidate c)))) (wl_candidates p))"

definition load_expected_chunks :: "WorkerLoadPlan \<Rightarrow> int" where
  "load_expected_chunks p = int (length (wl_candidates p))"

record StoreChunkWork =
  sw_chunk_index :: int
  sw_token_range :: TokenRange
  sw_token_ids :: "int list"
  sw_gather_plan :: TokenScatterPlan

record WorkerStorePlan =
  wp_metadata :: SchedulerTransferMetadata
  wp_adapted_blocks :: AdaptedKvCacheBlocks
  wp_chunks :: "StoreChunkWork list"

definition store_expected_tokens :: "WorkerStorePlan \<Rightarrow> int" where
  "store_expected_tokens p = int (length (wp_chunks p)) * LMCACHE_CHUNK_SIZE"

definition store_expected_chunks :: "WorkerStorePlan \<Rightarrow> int" where
  "store_expected_chunks p = int (length (wp_chunks p))"

definition store_token_ids :: "WorkerStorePlan \<Rightarrow> int list" where
  "store_token_ids p = take (nat (store_expected_tokens p)) (tm_prompt_token_ids (wp_metadata p))"

definition store_source_range :: "WorkerStorePlan \<Rightarrow> TokenRange" where
  "store_source_range p = \<lparr>tr_start = 0, tr_end = store_expected_tokens p\<rparr>"

text \<open>Running a planner over a list, stopping at the first exception (or at one that does not return).\<close>

fun plan_map :: "('a \<Rightarrow> ('e + 'b) option) \<Rightarrow> 'a list \<Rightarrow> ('e + 'b list) option" where
  "plan_map f [] = Some (Inr [])"
| "plan_map f (x # xs) =
     (case f x of
        None \<Rightarrow> None
      | Some (Inl e) \<Rightarrow> Some (Inl e)
      | Some (Inr y) \<Rightarrow>
          (case plan_map f xs of
             None \<Rightarrow> None
           | Some (Inl e) \<Rightarrow> Some (Inl e)
           | Some (Inr ys) \<Rightarrow> Some (Inr (y # ys))))"

text \<open>\<^verbatim>\<open>plan_token_scatter(layout, tables, TokenTransfer(source, target))\<close>\<close>

definition plan_transfer ::
    "GptOssHybridCacheLayout \<Rightarrow> GroupBlockTable list \<Rightarrow> TokenRange \<Rightarrow> TokenRange \<Rightarrow> (transfer_exn + TokenScatterPlan) option" where
  "plan_transfer layout tables source target =
     (case TokenTransfer_init source target of
        Inl c \<Rightarrow> Some (Inl (PlannerRaise (LayoutError c)))
      | Inr transfer \<Rightarrow>
          (case plan_token_scatter layout tables transfer of
             None \<Rightarrow> None
           | Some (Inl e) \<Rightarrow> Some (Inl (PlannerRaise e))
           | Some (Inr p) \<Rightarrow> Some (Inr p)))"

definition validate_allocation :: "SchedulerTransferMetadata \<Rightarrow> AdaptedKvCacheBlocks \<Rightarrow> transfer_exn + unit" where
  "validate_allocation metadata adapted_blocks =
     (if ab_grouped_allocation adapted_blocks \<noteq> al_grouped_blocks (hm_allocation (tm_handoff metadata))
      then Inl (TransferRuntimeError INVALID_METADATA) else Inr ())"

definition build_load_plan ::
    "GptOssHybridCacheLayout \<Rightarrow> SchedulerTransferMetadata \<Rightarrow> AdaptedKvCacheBlocks \<Rightarrow> (transfer_exn + WorkerLoadPlan) option" where
  "build_load_plan layout metadata adapted_blocks =
     (case validate_allocation metadata adapted_blocks of
        Inl e \<Rightarrow> Some (Inl e)
      | Inr _ \<Rightarrow>
          (case plan_map (\<lambda>(index, verified).
              map_option (map_sum id (\<lambda>p. \<lparr>cw_candidate_index = int index, cw_verified_candidate = verified, cw_scatter_plan = p\<rparr>))
                (plan_transfer layout (ab_group_block_tables adapted_blocks) (source_range (vm_record (vc_match verified)))
                  (lc_target_range (vc_candidate verified))))
              (List.enumerate 0 (tm_verified_candidates metadata)) of
             None \<Rightarrow> None
           | Some (Inl e) \<Rightarrow> Some (Inl e)
           | Some (Inr candidates) \<Rightarrow>
               Some (Inr \<lparr>wl_metadata = metadata, wl_adapted_blocks = adapted_blocks, wl_candidates = candidates\<rparr>)))"

text \<open>\<^verbatim>\<open>range(0, stop, step)\<close> for a positive step.\<close>

definition py_range_from_zero :: "int \<Rightarrow> int \<Rightarrow> int list" where
  "py_range_from_zero stop step = map (\<lambda>k. k * step) [0..(stop + step - 1) div step - 1]"

definition store_chunk ::
    "GptOssHybridCacheLayout \<Rightarrow> SchedulerTransferMetadata \<Rightarrow> AdaptedKvCacheBlocks \<Rightarrow> int \<Rightarrow> (transfer_exn + StoreChunkWork) option" where
  "store_chunk layout metadata adapted_blocks start =
     (let token_range = \<lparr>tr_start = start, tr_end = start + LMCACHE_CHUNK_SIZE\<rparr> in
      map_option (map_sum id (\<lambda>p. \<lparr>sw_chunk_index = start div LMCACHE_CHUNK_SIZE, sw_token_range = token_range,
          sw_token_ids = prompt_slice (tm_prompt_token_ids metadata) token_range, sw_gather_plan = p\<rparr>))
        (plan_transfer layout (ab_group_block_tables adapted_blocks) token_range token_range))"

definition build_store_plan ::
    "GptOssHybridCacheLayout \<Rightarrow> SchedulerTransferMetadata \<Rightarrow> AdaptedKvCacheBlocks \<Rightarrow> (transfer_exn + WorkerStorePlan) option" where
  "build_store_plan layout metadata adapted_blocks =
     (case validate_allocation metadata adapted_blocks of
        Inl e \<Rightarrow> Some (Inl e)
      | Inr _ \<Rightarrow>
          (case plan_map (store_chunk layout metadata adapted_blocks)
              (py_range_from_zero (complete_store_token_count metadata) LMCACHE_CHUNK_SIZE) of
             None \<Rightarrow> None
           | Some (Inl e) \<Rightarrow> Some (Inl e)
           | Some (Inr chunks) \<Rightarrow>
               Some (if chunks = [] then Inl (TransferRuntimeError INVALID_METADATA)
                     else Inr \<lparr>wp_metadata = metadata, wp_adapted_blocks = adapted_blocks, wp_chunks = chunks\<rparr>)))"

section \<open>Outcomes\<close>

record PreForwardOutcome =
  pf_metadata :: SchedulerTransferMetadata
  pf_state :: TransferAttemptState
  pf_failure_code :: "TransferFallbackCode option"
  pf_loaded_candidate_indexes :: "int list"
  pf_rejected_candidate_indexes :: "int list"
  pf_loaded_kv_tokens :: int
  pf_tokens_to_recompute :: int
  pf_external_scheduler_tokens :: int
  pf_prefill_tokens_avoided :: int
  pf_position_correction_latency_seconds :: pyval

text \<open>
  A number that is finite and not negative; \<^verbatim>\<open>isfinite\<close> converts an integer to a double and raises
  \<^verbatim>\<open>OverflowError\<close> when it is too large.
\<close>

definition finite_nonnegative :: "pyval \<Rightarrow> py_error + bool" where
  "finite_nonnegative v =
     (case v of
        PInt _ \<Rightarrow> rbind (py_float v) (\<lambda>f. Inr (float_finite f \<and> \<not> float_negative f))
      | PFloat f \<Rightarrow> Inr (float_finite f \<and> \<not> float_negative f)
      | _ \<Rightarrow> Inr False)"

definition PreForwardOutcome_init ::
    "SchedulerTransferMetadata \<Rightarrow> TransferAttemptState \<Rightarrow> TransferFallbackCode option \<Rightarrow> pyval list \<Rightarrow> pyval list \<Rightarrow>
     pyval \<Rightarrow> pyval \<Rightarrow> pyval \<Rightarrow> pyval \<Rightarrow> pyval \<Rightarrow> transfer_exn + PreForwardOutcome" where
  "PreForwardOutcome_init metadata state failure_code loaded rejected loaded_kv_tokens tokens_to_recompute external_tokens
     avoided latency =
     (let expected_indexes = [0..int (length (tm_verified_candidates metadata)) - 1] in
      if (\<exists>index\<in>set (loaded @ rejected). \<not> is_plain_int index) \<or>
         (\<exists>value\<in>set [loaded_kv_tokens, tokens_to_recompute, external_tokens, avoided]. \<not> is_plain_int value) \<or>
         \<not> distinct loaded \<or> \<not> distinct rejected \<or> set loaded \<inter> set rejected \<noteq> {} \<or>
         sort (map the_int (loaded @ rejected)) \<noteq> expected_indexes \<or>
         the_int tokens_to_recompute \<noteq> prompt_token_count metadata \<or>
         the_int external_tokens \<noteq> FULL_RECOMPUTE_EXTERNAL_TOKENS \<or> the_int avoided \<noteq> 0
      then Inl (TransferRuntimeError INVALID_OUTCOME)
      else case finite_nonnegative latency of
        Inl e \<Rightarrow> Inl (BuiltinRaise e)
      | Inr False \<Rightarrow> Inl (TransferRuntimeError INVALID_OUTCOME)
      | Inr True \<Rightarrow>
          let expected_loaded_tokens = sum_list (map (\<lambda>index. range_len (lc_target_range (vc_candidate
                (tm_verified_candidates metadata ! nat (the_int index))))) loaded) in
          if (if state = SUCCEEDED
              then \<not> tm_transfer_eligible metadata \<or> failure_code \<noteq> None \<or> map the_int loaded \<noteq> expected_indexes \<or>
                   rejected \<noteq> [] \<or> the_int loaded_kv_tokens \<noteq> expected_loaded_tokens
              else loaded \<noteq> [] \<or> map the_int rejected \<noteq> expected_indexes \<or> the_int loaded_kv_tokens \<noteq> 0 \<or>
                   (state = NOT_ELIGIBLE \<and> (tm_transfer_eligible metadata \<or> failure_code \<noteq> None)) \<or>
                   (state = FULL_PREFILL_FALLBACK \<and> failure_code = None))
          then Inl (TransferRuntimeError INVALID_OUTCOME)
          else Inr \<lparr>pf_metadata = metadata, pf_state = state, pf_failure_code = failure_code,
                    pf_loaded_candidate_indexes = map the_int loaded, pf_rejected_candidate_indexes = map the_int rejected,
                    pf_loaded_kv_tokens = the_int loaded_kv_tokens, pf_tokens_to_recompute = the_int tokens_to_recompute,
                    pf_external_scheduler_tokens = the_int external_tokens, pf_prefill_tokens_avoided = the_int avoided,
                    pf_position_correction_latency_seconds = latency\<rparr>)"

definition to_worker_validation_receipt :: "PreForwardOutcome \<Rightarrow> ControlPlaneErrorCode + WorkerValidationReceipt" where
  "to_worker_validation_receipt pre =
     WorkerValidationReceipt_init (tm_request_id (pf_metadata pre)) (hm_allocation (tm_handoff (pf_metadata pre)))
       (map PInt (pf_loaded_candidate_indexes pre)) (map PInt (pf_rejected_candidate_indexes pre))"

record FullPrefillCompletion =
  fc_pre_forward :: PreForwardOutcome
  fc_recomputed_token_count :: int

definition FullPrefillCompletion_init :: "PreForwardOutcome \<Rightarrow> pyval \<Rightarrow> transfer_exn + FullPrefillCompletion" where
  "FullPrefillCompletion_init pre_forward recomputed =
     (if \<not> is_plain_int recomputed \<or> the_int recomputed \<noteq> prompt_token_count (pf_metadata pre_forward) \<or>
         the_int recomputed \<noteq> pf_tokens_to_recompute pre_forward
      then Inl (TransferRuntimeError INVALID_FORWARD_COMPLETION)
      else Inr \<lparr>fc_pre_forward = pre_forward, fc_recomputed_token_count = the_int recomputed\<rparr>)"

record PostForwardOutcome =
  po_completion :: FullPrefillCompletion
  po_state :: TransferAttemptState
  po_failure_code :: "TransferFallbackCode option"
  po_eligible_store_tokens :: int
  po_stored_tokens :: int
  po_stored_chunks :: int
  po_sidecar_records_available :: int
  po_sidecar_records_inserted :: int
  po_prefill_tokens_avoided :: int

definition eligible_store_tokens :: "SchedulerTransferMetadata \<Rightarrow> int" where
  "eligible_store_tokens m = (if tm_store_eligible m then complete_store_token_count m else 0)"

definition PostForwardOutcome_init ::
    "FullPrefillCompletion \<Rightarrow> TransferAttemptState \<Rightarrow> TransferFallbackCode option \<Rightarrow> pyval \<Rightarrow> pyval \<Rightarrow> pyval \<Rightarrow> pyval \<Rightarrow>
     pyval \<Rightarrow> pyval \<Rightarrow> transfer_exn + PostForwardOutcome" where
  "PostForwardOutcome_init completion state failure_code eligible stored_tokens stored_chunks available inserted avoided =
     (let metadata = pf_metadata (fc_pre_forward completion);
          expected_eligible = eligible_store_tokens metadata;
          expected_chunks = expected_eligible div LMCACHE_CHUNK_SIZE in
      if \<exists>value\<in>set [eligible, stored_tokens, stored_chunks, available, inserted, avoided]. \<not> nonneg_int value
      then Inl (TransferRuntimeError INVALID_OUTCOME)
      else if the_int eligible \<noteq> expected_eligible then Inl (TransferRuntimeError INVALID_OUTCOME)
      else if (if state = SUCCEEDED
               then \<not> tm_store_eligible metadata \<or> failure_code \<noteq> None \<or> the_int stored_tokens \<noteq> expected_eligible \<or>
                    the_int stored_chunks \<noteq> expected_chunks \<or> the_int available \<noteq> expected_chunks \<or>
                    the_int inserted > expected_chunks \<or> the_int avoided \<noteq> 0
               else (\<exists>value\<in>set [stored_tokens, stored_chunks, available, inserted, avoided]. the_int value \<noteq> 0) \<or>
                    (state = NOT_ELIGIBLE \<and> (tm_store_eligible metadata \<or> failure_code \<noteq> None)) \<or>
                    (state = FULL_PREFILL_FALLBACK \<and> failure_code = None))
      then Inl (TransferRuntimeError INVALID_OUTCOME)
      else Inr \<lparr>po_completion = completion, po_state = state, po_failure_code = failure_code,
                po_eligible_store_tokens = the_int eligible, po_stored_tokens = the_int stored_tokens,
                po_stored_chunks = the_int stored_chunks, po_sidecar_records_available = the_int available,
                po_sidecar_records_inserted = the_int inserted, po_prefill_tokens_avoided = the_int avoided\<rparr>)"

section \<open>The collaborators\<close>

text \<open>An exception of class \<^verbatim>\<open>Exception\<close>, or one outside it such as an interrupt.\<close>

datatype worker_exn = WorkerException | WorkerInterrupt

text \<open>
  \<^verbatim>\<open>WorkerStorage\<close> and \<^verbatim>\<open>WorkerDataPlane\<close>.  A receipt of the wrong class is \<open>None\<close>, as is an absent
  latency attribute.
\<close>

record 'w WorkerEnvironment =
  we_preflight_retrieve :: "WorkerLoadPlan \<Rightarrow> 'w \<Rightarrow> (worker_exn + unit) \<times> 'w"
  we_retrieve_verified :: "WorkerLoadPlan \<Rightarrow> 'w \<Rightarrow> (worker_exn + LmcacheRetrieveReceipt option) \<times> 'w"
  we_preflight_store :: "WorkerStorePlan \<Rightarrow> 'w \<Rightarrow> (worker_exn + unit) \<times> 'w"
  we_store_precomputed :: "WorkerStorePlan \<Rightarrow> 'w \<Rightarrow> (worker_exn + LmcacheStoreReceipt option) \<times> 'w"
  we_publish_sidecar_records :: "CacheRecord list \<Rightarrow> 'w \<Rightarrow> (worker_exn + pyval) \<times> 'w"
  we_preflight_scatter :: "WorkerLoadPlan \<Rightarrow> 'w \<Rightarrow> (worker_exn + unit) \<times> 'w"
  we_scatter_retrieved :: "WorkerLoadPlan \<Rightarrow> 'w \<Rightarrow> (worker_exn + unit) \<times> 'w"
  we_preflight_gather :: "WorkerStorePlan \<Rightarrow> 'w \<Rightarrow> (worker_exn + unit) \<times> 'w"
  we_gather_recomputed :: "WorkerStorePlan \<Rightarrow> 'w \<Rightarrow> (worker_exn + unit) \<times> 'w"
  we_position_correction_latency :: "'w \<Rightarrow> (worker_exn + pyval option) \<times> 'w"

text \<open>\<^verbatim>\<open>try: x = call() except Exception: return fallback\<close>, and then the rest of the method.\<close>

definition attempt ::
    "('w \<Rightarrow> (worker_exn + 'a) \<times> 'w) \<Rightarrow> transfer_exn + 'b \<Rightarrow> ('a \<Rightarrow> 'w \<Rightarrow> (transfer_exn + 'b) \<times> 'w) \<Rightarrow> 'w \<Rightarrow>
     (transfer_exn + 'b) \<times> 'w" where
  "attempt call fallback rest w =
     (case call w of
        (Inr x, w) \<Rightarrow> rest x w
      | (Inl WorkerException, w) \<Rightarrow> (fallback, w)
      | (Inl WorkerInterrupt, w) \<Rightarrow> (Inl Interrupted, w))"

section \<open>Before the forward pass\<close>

definition all_indexes :: "SchedulerTransferMetadata \<Rightarrow> pyval list" where
  "all_indexes m = map PInt [0..int (length (tm_verified_candidates m)) - 1]"

definition load_fallback :: "SchedulerTransferMetadata \<Rightarrow> TransferFallbackCode \<Rightarrow> transfer_exn + PreForwardOutcome" where
  "load_fallback metadata failure_code =
     PreForwardOutcome_init metadata FULL_PREFILL_FALLBACK (Some failure_code) [] (all_indexes metadata) (PInt 0)
       (PInt (prompt_token_count metadata)) (PInt FULL_RECOMPUTE_EXTERNAL_TOKENS) (PInt 0) (PFloat (Finite 0))"

definition valid_retrieve_receipt :: "LmcacheRetrieveReceipt option \<Rightarrow> WorkerLoadPlan \<Rightarrow> bool" where
  "valid_retrieve_receipt receipt work =
     (case receipt of
        None \<Rightarrow> False
      | Some r \<Rightarrow> rr_retrieved_tokens r = load_expected_tokens work \<and> rr_retrieved_chunks r = load_expected_chunks work)"

definition read_position_correction_latency ::
    "'w WorkerEnvironment \<Rightarrow> 'w \<Rightarrow> (transfer_exn + pyval) \<times> 'w" where
  "read_position_correction_latency env w =
     (case we_position_correction_latency env w of
        (Inl WorkerException, w) \<Rightarrow> (Inl CollaboratorRaise, w)
      | (Inl WorkerInterrupt, w) \<Rightarrow> (Inl Interrupted, w)
      | (Inr value, w) \<Rightarrow>
          (let v = (case value of None \<Rightarrow> PFloat (Finite 0) | Some v \<Rightarrow> v) in
           case finite_nonnegative v of
             Inl e \<Rightarrow> Inl (BuiltinRaise e)
           | Inr False \<Rightarrow> Inr (PFloat (Finite 0))
           | Inr True \<Rightarrow> (case py_float v of Inl e \<Rightarrow> Inl (BuiltinRaise e) | Inr f \<Rightarrow> Inr (PFloat f)), w))"

definition load_succeeded ::
    "'w WorkerEnvironment \<Rightarrow> WorkerLoadPlan \<Rightarrow> SchedulerTransferMetadata \<Rightarrow> 'w \<Rightarrow> (transfer_exn + PreForwardOutcome) \<times> 'w" where
  "load_succeeded env work metadata w =
     (case read_position_correction_latency env w of
        (Inl e, w) \<Rightarrow> (Inl e, w)
      | (Inr latency, w) \<Rightarrow>
          (PreForwardOutcome_init metadata SUCCEEDED None (all_indexes metadata) [] (PInt (load_expected_tokens work))
             (PInt (prompt_token_count metadata)) (PInt FULL_RECOMPUTE_EXTERNAL_TOKENS) (PInt 0) latency, w))"

text \<open>The calls of an eligible load, in the order of the source.\<close>

definition run_load ::
    "'w WorkerEnvironment \<Rightarrow> WorkerLoadPlan \<Rightarrow> SchedulerTransferMetadata \<Rightarrow> 'w \<Rightarrow> (transfer_exn + PreForwardOutcome) \<times> 'w" where
  "run_load env work metadata =
     attempt (we_preflight_retrieve env work) (load_fallback metadata LOAD_PREFLIGHT_FAILED) (\<lambda>_.
     attempt (we_preflight_scatter env work) (load_fallback metadata LOAD_PREFLIGHT_FAILED) (\<lambda>_.
     attempt (we_retrieve_verified env work) (load_fallback metadata RETRIEVE_FAILED) (\<lambda>receipt w.
       if \<not> valid_retrieve_receipt receipt work then (load_fallback metadata RETRIEVE_RECEIPT_INVALID, w)
       else attempt (we_scatter_retrieved env work) (load_fallback metadata SCATTER_FAILED) (\<lambda>_.
         load_succeeded env work metadata) w)))"

definition before_forward ::
    "GptOssHybridCacheLayout \<Rightarrow> 'w WorkerEnvironment \<Rightarrow> SchedulerTransferMetadata \<Rightarrow> AdaptedKvCacheBlocks \<Rightarrow> 'w \<Rightarrow>
     ((transfer_exn + PreForwardOutcome) \<times> 'w) option" where
  "before_forward layout env metadata adapted_blocks w =
     (case build_load_plan layout metadata adapted_blocks of
        None \<Rightarrow> None
      | Some (Inl (TransferRuntimeError _)) \<Rightarrow> Some (load_fallback metadata LOAD_PLAN_REJECTED, w)
      | Some (Inl (PlannerRaise (LayoutError _))) \<Rightarrow> Some (load_fallback metadata LOAD_PLAN_REJECTED, w)
      | Some (Inl e) \<Rightarrow> Some (Inl e, w)
      | Some (Inr work) \<Rightarrow>
          Some (if \<not> tm_transfer_eligible metadata
                then (PreForwardOutcome_init metadata NOT_ELIGIBLE None [] (all_indexes metadata) (PInt 0)
                        (PInt (prompt_token_count metadata)) (PInt FULL_RECOMPUTE_EXTERNAL_TOKENS) (PInt 0)
                        (PFloat (Finite 0)), w)
                else run_load env work metadata w))"

definition mark_full_prefill_complete :: "PreForwardOutcome \<Rightarrow> pyval \<Rightarrow> transfer_exn + FullPrefillCompletion" where
  "mark_full_prefill_complete pre_forward recomputed_token_count = FullPrefillCompletion_init pre_forward recomputed_token_count"

section \<open>After the forward pass\<close>

definition store_outcome ::
    "FullPrefillCompletion \<Rightarrow> TransferAttemptState \<Rightarrow> TransferFallbackCode option \<Rightarrow> int \<Rightarrow> transfer_exn + PostForwardOutcome" where
  "store_outcome completion state failure_code eligible_tokens =
     PostForwardOutcome_init completion state failure_code (PInt eligible_tokens) (PInt 0) (PInt 0) (PInt 0) (PInt 0) (PInt 0)"

definition removeprefix :: "string \<Rightarrow> string \<Rightarrow> string" where
  "removeprefix s p = (if take (length p) s = p then drop (length p) s else s)"

definition lower_hex :: string where
  "lower_hex = ''0123456789abcdef''"

definition valid_store_record :: "WorkerStorePlan \<Rightarrow> StoreChunkWork \<Rightarrow> CacheRecord \<Rightarrow> bool" where
  "valid_store_record work chunk record \<longleftrightarrow>
     (let suffix = removeprefix (cache_key record) LMCACHE_CACHE_KEY_PREFIX in
      \<not> (rec_namespace record \<noteq> tm_cache_namespace (wp_metadata work) \<or>
         rec_token_ids record \<noteq> sw_token_ids chunk \<or> source_range record \<noteq> sw_token_range chunk \<or>
         rec_fingerprint record \<noteq> SHA256_FINGERPRINTER (tm_cache_namespace (wp_metadata work)) (sw_token_ids chunk) \<or>
         take (length LMCACHE_CACHE_KEY_PREFIX) (cache_key record) \<noteq> LMCACHE_CACHE_KEY_PREFIX \<or>
         length suffix \<noteq> 64 \<or> (\<exists>character\<in>set suffix. character \<notin> set lower_hex)))"

definition valid_store_receipt :: "LmcacheStoreReceipt option \<Rightarrow> WorkerStorePlan \<Rightarrow> bool" where
  "valid_store_receipt receipt work =
     (case receipt of
        None \<Rightarrow> False
      | Some r \<Rightarrow>
          if rc_stored_tokens r \<noteq> store_expected_tokens work \<or> rc_stored_chunks r \<noteq> store_expected_chunks work \<or>
             \<not> rc_candidate_lookup_required r \<or> int (length (rc_sidecar_records r)) \<noteq> store_expected_chunks work
          then False
          else \<forall>(chunk, record)\<in>set (zip (wp_chunks work) (rc_sidecar_records r)). valid_store_record work chunk record)"

definition publish_stored ::
    "'w WorkerEnvironment \<Rightarrow> FullPrefillCompletion \<Rightarrow> int \<Rightarrow> LmcacheStoreReceipt \<Rightarrow> 'w \<Rightarrow> (transfer_exn + PostForwardOutcome) \<times> 'w" where
  "publish_stored env completion eligible receipt =
     (let failed = store_outcome completion FULL_PREFILL_FALLBACK (Some SIDECAR_PUBLISH_FAILED) eligible in
      attempt (we_publish_sidecar_records env (rc_sidecar_records receipt)) failed (\<lambda>inserted w.
        if \<not> nonneg_int inserted \<or> the_int inserted > int (length (rc_sidecar_records receipt)) then (failed, w)
        else (PostForwardOutcome_init completion SUCCEEDED None (PInt eligible) (PInt (rc_stored_tokens receipt))
                (PInt (rc_stored_chunks receipt)) (PInt (int (length (rc_sidecar_records receipt)))) inserted (PInt 0), w)))"

definition run_store ::
    "'w WorkerEnvironment \<Rightarrow> WorkerStorePlan \<Rightarrow> FullPrefillCompletion \<Rightarrow> int \<Rightarrow> 'w \<Rightarrow> (transfer_exn + PostForwardOutcome) \<times> 'w" where
  "run_store env work completion eligible =
     (let failed = (\<lambda>code. store_outcome completion FULL_PREFILL_FALLBACK (Some code) eligible) in
      attempt (we_preflight_gather env work) (failed STORE_PREFLIGHT_FAILED) (\<lambda>_.
      attempt (we_preflight_store env work) (failed STORE_PREFLIGHT_FAILED) (\<lambda>_.
      attempt (we_gather_recomputed env work) (failed GATHER_FAILED) (\<lambda>_.
      attempt (we_store_precomputed env work) (failed STORE_FAILED) (\<lambda>receipt w.
        if \<not> valid_store_receipt receipt work then (failed STORE_RECEIPT_INVALID, w)
        else publish_stored env completion eligible (the receipt) w)))))"

definition after_forward ::
    "GptOssHybridCacheLayout \<Rightarrow> 'w WorkerEnvironment \<Rightarrow> FullPrefillCompletion \<Rightarrow> AdaptedKvCacheBlocks \<Rightarrow> 'w \<Rightarrow>
     ((transfer_exn + PostForwardOutcome) \<times> 'w) option" where
  "after_forward layout env completion adapted_blocks w =
     (let metadata = pf_metadata (fc_pre_forward completion); eligible = eligible_store_tokens metadata in
      if \<not> tm_store_eligible metadata then Some (store_outcome completion NOT_ELIGIBLE None eligible, w)
      else
        let rejected = store_outcome completion FULL_PREFILL_FALLBACK (Some STORE_PLAN_REJECTED) eligible in
        case build_store_plan layout metadata adapted_blocks of
          None \<Rightarrow> None
        | Some (Inl (TransferRuntimeError _)) \<Rightarrow> Some (rejected, w)
        | Some (Inl (PlannerRaise (LayoutError _))) \<Rightarrow> Some (rejected, w)
        | Some (Inl e) \<Rightarrow> Some (Inl e, w)
        | Some (Inr work) \<Rightarrow> Some (run_store env work completion eligible w))"

section \<open>Constructed metadata\<close>

text \<open>What the worker requires of one candidate, and that the targets follow each other.\<close>

definition worker_accepts :: "CacheNamespace \<Rightarrow> int list \<Rightarrow> VerifiedLmcacheCandidate \<Rightarrow> bool" where
  "worker_accepts ns prompt v \<longleftrightarrow>
     (let c = vc_candidate v; t = vm_target (vc_match v); r = vm_record (vc_match v) in
      range_len (lc_target_range c) = LMCACHE_CHUNK_SIZE \<and> tr_end (lc_target_range c) \<le> int (length prompt) \<and>
      fresh prompt c \<and> token_range t = lc_target_range c \<and> cache_key r = lc_cache_key c \<and>
      rec_namespace r = ns \<and> token_ids t = prompt_slice prompt (lc_target_range c) \<and>
      rec_token_ids r = token_ids t \<and> rec_fingerprint r = SHA256_FINGERPRINTER ns (token_ids t))"

abbreviation targets_in_order :: "VerifiedLmcacheCandidate list \<Rightarrow> bool" where
  "targets_in_order \<equiv>
     sorted_wrt (\<lambda>a b. tr_end (lc_target_range (vc_candidate a)) \<le> tr_start (lc_target_range (vc_candidate b)))"

definition wf_transfer_metadata :: "SchedulerTransferMetadata \<Rightarrow> bool" where
  [wf_simps]: "wf_transfer_metadata m \<longleftrightarrow>
     wf_tokens (tm_prompt_token_ids m) \<and> tm_prompt_token_ids m \<noteq> [] \<and> prompt_token_count m \<le> GPT_OSS_MAX_CONTEXT_TOKENS \<and>
     al_external_scheduler_tokens (hm_allocation (tm_handoff m)) = 0 \<and>
     tm_num_computed_tokens_before_step m = 0 \<and> tm_scheduled_token_count m = prompt_token_count m \<and>
     rp_prompt_tokens (hm_plan (tm_handoff m)) = prompt_token_count m \<and>
     (tm_transfer_eligible m \<longrightarrow> tm_verified_candidates m \<noteq> []) \<and>
     (tm_store_eligible m \<longrightarrow> LMCACHE_CHUNK_SIZE \<le> prompt_token_count m) \<and>
     matches (rp_match_plan (hm_plan (tm_handoff m))) = map vc_match (tm_verified_candidates m) \<and>
     list_all (worker_accepts (tm_cache_namespace m) (tm_prompt_token_ids m)) (tm_verified_candidates m) \<and>
     targets_in_order (tm_verified_candidates m)"

lemma check_transfer_candidates_Inr:
  "check_transfer_candidates ns prompt (sha256 (query_preimage prompt)) k e vs = Inr () \<longleftrightarrow>
     list_all (worker_accepts ns prompt) vs \<and> targets_in_order vs \<and>
     (k > 0 \<longrightarrow> list_all (\<lambda>v. e \<le> tr_start (lc_target_range (vc_candidate v))) vs)"
proof (induction vs arbitrary: k e)
  case (Cons v vs)
  let ?r = "lc_target_range (vc_candidate v)"
  show ?case
  proof (cases "worker_accepts ns prompt v \<and> (k > 0 \<longrightarrow> e \<le> tr_start ?r)")
    case True
    then have "check_transfer_candidates ns prompt (sha256 (query_preimage prompt)) k e (v # vs) =
        check_transfer_candidates ns prompt (sha256 (query_preimage prompt)) (Suc k) (tr_end ?r) vs"
      by (auto simp: worker_accepts_def Let_def)
    moreover have "tr_start ?r \<le> tr_end ?r"
      using True by (simp add: worker_accepts_def Let_def range_len_def LMCACHE_CHUNK_SIZE_def)
    ultimately show ?thesis using True Cons.IH by (auto simp: list_all_iff)
  next
    case False
    then show ?thesis by (auto simp: worker_accepts_def Let_def)
  qed
qed simp

lemma query_digest_wf: "wf_tokens ts \<Longrightarrow> query_digest (map PInt ts) = Inr (sha256 (query_preimage ts))"
  by (simp add: query_digest_def normalize_token_ids_PInt)

lemma SchedulerTransferMetadata_init_Inr [init_simps]:
  "SchedulerTransferMetadata_init ns ps vs h computed scheduled te se = Inr m \<longleftrightarrow>
     ps = map PInt (tm_prompt_token_ids m) \<and> computed = PInt (tm_num_computed_tokens_before_step m) \<and>
     scheduled = PInt (tm_scheduled_token_count m) \<and> tm_cache_namespace m = ns \<and> tm_verified_candidates m = vs \<and>
     tm_handoff m = h \<and> tm_transfer_eligible m = te \<and> tm_store_eligible m = se \<and> wf_transfer_metadata m"
proof (cases "normalize_token_ids ps")
  case (Inl e)
  then have "\<not> (ps = map PInt (tm_prompt_token_ids m) \<and> wf_tokens (tm_prompt_token_ids m))"
    using normalize_token_ids_PInt by auto
  then show ?thesis using Inl by (auto simp: SchedulerTransferMetadata_init_def wf_transfer_metadata_def)
next
  case (Inr ts)
  then have ps: "ps = map PInt ts" "wf_tokens ts" by (auto simp: normalize_token_ids_Inr)
  show ?thesis
  proof (cases "\<exists>a b. computed = PInt a \<and> scheduled = PInt b")
    case True
    then obtain a b where ab: "computed = PInt a" "scheduled = PInt b" by blast
    let ?m = "\<lparr>tm_cache_namespace = ns, tm_prompt_token_ids = ts, tm_verified_candidates = vs, tm_handoff = h,
      tm_num_computed_tokens_before_step = a, tm_scheduled_token_count = b, tm_transfer_eligible = te, tm_store_eligible = se\<rparr>"
    have unit: "(case x of Inl c \<Rightarrow> Inl (g c) | Inr _ \<Rightarrow> Inr y) = Inr z \<longleftrightarrow> x = Inr () \<and> z = y" for x :: "'x + unit" and g y z
      by (cases x) auto
    have "SchedulerTransferMetadata_init ns ps vs h computed scheduled te se = Inr m \<longleftrightarrow> m = ?m \<and> wf_transfer_metadata ?m"
      unfolding SchedulerTransferMetadata_init_def Inr ab sum.case query_digest_wf [OF ps(2)] if_Inl_eq_Inr unit
        check_transfer_candidates_Inr wf_transfer_metadata_def FULL_RECOMPUTE_EXTERNAL_TOKENS_def
        plan_external_scheduler_tokens_def prompt_token_count_def
      using ps(2) by (auto simp: not_less eq_commute [of "map vc_match vs"])
    then show ?thesis using ps ab by (cases m) (auto simp: inj_map_eq_map inj_def)
  next
    case False
    then show ?thesis using Inr by (cases computed; cases scheduled) (auto simp: SchedulerTransferMetadata_init_def)
  qed
qed

section \<open>Plans\<close>

lemma plan_map_total:
  assumes "\<And>x. x \<in> set xs \<Longrightarrow> f x \<noteq> None"
  shows "plan_map f xs = Some (rmap (\<lambda>x. the (f x)) xs)"
  using assms
proof (induction xs)
  case (Cons x xs)
  then obtain y where "f x = Some y" by force
  then show ?case using Cons by (cases y; cases "rmap (\<lambda>x. the (f x)) xs") auto
qed simp

text \<open>The two ways planning a transfer ends.\<close>

lemma plan_transfer_cases:
  assumes "wf_layout layout" "list_all wf_group (hl_groups layout)" "wf_range src" "wf_range tgt"
  obtains (rejected) c where "plan_transfer layout tables src tgt = Some (Inl (PlannerRaise (LayoutError c)))"
  | (planned) p t where "plan_transfer layout tables src tgt = Some (Inr p)"
      "TokenTransfer_init src tgt = Inr t" "plan_token_scatter layout tables t = Some (Inr p)"
      "list_all (layer_spans_correct layout tables t p) (hl_layers layout)"
proof (cases "TokenTransfer_init src tgt")
  case (Inl c)
  then show ?thesis using rejected by (simp add: plan_transfer_def)
next
  case (Inr t)
  then have wf: "wf_transfer t" using assms(3,4) by (rule TokenTransfer_init_wf)
  show ?thesis
  proof (cases "validated_tables layout tables t")
    case (Inl c)
    then have "plan_token_scatter layout tables t = Some (Inl (LayoutError c))" by (simp add: plan_token_scatter_def)
    then show ?thesis using Inr rejected by (simp add: plan_transfer_def)
  next
    case ok: (Inr ordered)
    then obtain p where p: "plan_token_scatter layout tables t = Some (Inr p)"
      "list_all (layer_spans_correct layout tables t p) (hl_layers layout)"
      using plan_token_scatter_layers [OF assms(1,2) wf ok] by blast
    then have "plan_transfer layout tables src tgt = Some (Inr p)" using Inr by (simp add: plan_transfer_def)
    from this Inr p show ?thesis by (rule planned)
  qed
qed

text \<open>Ranges are constructed values.\<close>

definition constructed_ranges :: "SchedulerTransferMetadata \<Rightarrow> bool" where
  "constructed_ranges m \<longleftrightarrow>
     list_all (\<lambda>v. wf_range (lc_target_range (vc_candidate v)) \<and> wf_range (source_range (vm_record (vc_match v))))
       (tm_verified_candidates m)"

text \<open>A transfer plan that implements the reference writes in every layer.\<close>

definition transfer_exact ::
    "GptOssHybridCacheLayout \<Rightarrow> GroupBlockTable list \<Rightarrow> TokenRange \<Rightarrow> TokenRange \<Rightarrow> TokenScatterPlan \<Rightarrow> bool" where
  "transfer_exact layout tables src tgt p \<longleftrightarrow> sp_transfer p = \<lparr>tt_source_range = src, tt_target_range = tgt\<rparr> \<and>
     list_all (layer_spans_correct layout tables \<lparr>tt_source_range = src, tt_target_range = tgt\<rparr> p) (hl_layers layout)"

definition load_work_exact ::
    "GptOssHybridCacheLayout \<Rightarrow> GroupBlockTable list \<Rightarrow> nat \<times> VerifiedLmcacheCandidate \<Rightarrow> CandidateScatterWork \<Rightarrow> bool" where
  "load_work_exact layout tables iv work \<longleftrightarrow> cw_candidate_index work = int (fst iv) \<and> cw_verified_candidate work = snd iv \<and>
     transfer_exact layout tables (source_range (vm_record (vc_match (snd iv)))) (lc_target_range (vc_candidate (snd iv)))
       (cw_scatter_plan work)"

definition load_plan_exact ::
    "GptOssHybridCacheLayout \<Rightarrow> SchedulerTransferMetadata \<Rightarrow> AdaptedKvCacheBlocks \<Rightarrow> WorkerLoadPlan \<Rightarrow> bool" where
  "load_plan_exact layout m blocks p \<longleftrightarrow> wl_metadata p = m \<and> wl_adapted_blocks p = blocks \<and>
     ab_grouped_allocation blocks = al_grouped_blocks (hm_allocation (tm_handoff m)) \<and>
     list_all2 (load_work_exact layout (ab_group_block_tables blocks)) (List.enumerate 0 (tm_verified_candidates m)) (wl_candidates p)"

text \<open>The exceptions that \<^verbatim>\<open>except (TransferRuntimeError, HybridLayoutError)\<close> catches.\<close>

fun plan_rejection :: "transfer_exn \<Rightarrow> bool" where
  "plan_rejection (TransferRuntimeError _) = True"
| "plan_rejection (PlannerRaise (LayoutError _)) = True"
| "plan_rejection _ = False"

lemma plan_rejection_cases:
  assumes "plan_rejection e"
  shows "(\<exists>c. e = TransferRuntimeError c) \<or> (\<exists>c. e = PlannerRaise (LayoutError c))"
  using assms by (cases e rule: plan_rejection.cases) auto

lemma plan_transfer_result:
  assumes "wf_layout layout" "list_all wf_group (hl_groups layout)" "wf_range src" "wf_range tgt"
  obtains r where "plan_transfer layout tables src tgt = Some r" "\<And>e. r = Inl e \<Longrightarrow> plan_rejection e"
    "\<And>p. r = Inr p \<Longrightarrow> transfer_exact layout tables src tgt p"
  using assms
proof (cases rule: plan_transfer_cases [where tables = tables])
  case (rejected c)
  then show ?thesis using that by auto
next
  case (planned p t)
  have t: "t = \<lparr>tt_source_range = src, tt_target_range = tgt\<rparr>"
    using planned(2) by (auto simp: TokenTransfer_init_def split: if_splits)
  moreover have "sp_transfer p = t"
    using planned(3) by (auto simp: plan_token_scatter_def split: sum.splits option.splits)
  ultimately have "transfer_exact layout tables src tgt p" using planned(4) by (simp add: transfer_exact_def)
  then show ?thesis using that [of "Inr p"] planned(1) by simp
qed

lemma rmap_Inl: "rmap f xs = Inl e \<Longrightarrow> \<exists>x\<in>set xs. f x = Inl e"
  by (induction xs) (auto simp: result_simps)

text \<open>Planning a list of transfers: either a rejection, or exact work for every element.\<close>

lemma plan_map_transfers:
  assumes l: "wf_layout layout" "list_all wf_group (hl_groups layout)"
    and f: "\<And>x. x \<in> set xs \<Longrightarrow> f x = map_option (map_sum id (g x)) (plan_transfer layout tables (src x) (tgt x))"
    and wf: "\<And>x. x \<in> set xs \<Longrightarrow> wf_range (src x) \<and> wf_range (tgt x)"
  obtains e where "plan_map f xs = Some (Inl e)" "plan_rejection e"
  | ys where "plan_map f xs = Some (Inr ys)"
      "list_all2 (\<lambda>x y. \<exists>p. y = g x p \<and> transfer_exact layout tables (src x) (tgt x) p) xs ys"
proof -
  have r: "\<exists>r. f x = Some r \<and> (\<forall>e. r = Inl e \<longrightarrow> plan_rejection e) \<and>
      (\<forall>y. r = Inr y \<longrightarrow> (\<exists>p. y = g x p \<and> transfer_exact layout tables (src x) (tgt x) p))" if x: "x \<in> set xs" for x
  proof -
    from wf [OF x] have w: "wf_range (src x)" "wf_range (tgt x)" by simp_all
    obtain r where r: "plan_transfer layout tables (src x) (tgt x) = Some r" "\<And>e. r = Inl e \<Longrightarrow> plan_rejection e"
      "\<And>p. r = Inr p \<Longrightarrow> transfer_exact layout tables (src x) (tgt x) p"
      by (rule plan_transfer_result [OF l w, of tables]) blast
    then show ?thesis using f [OF x] by (cases r) auto
  qed
  have "f x \<noteq> None" if "x \<in> set xs" for x using r [OF that] by auto
  then have t: "plan_map f xs = Some (rmap (\<lambda>x. the (f x)) xs)" by (rule plan_map_total)
  show thesis
  proof (cases "rmap (\<lambda>x. the (f x)) xs")
    case (Inl e)
    then obtain x where "x \<in> set xs" "the (f x) = Inl e" using rmap_Inl [OF Inl] by blast
    then have "plan_rejection e" using r [of x] by auto
    then show ?thesis using that(1) t Inl by simp
  next
    case (Inr ys)
    then have "list_all2 (\<lambda>x y. the (f x) = Inr y) xs ys" by (simp add: rmap_Inr)
    then have "list_all2 (\<lambda>x y. \<exists>p. y = g x p \<and> transfer_exact layout tables (src x) (tgt x) p) xs ys"
    proof (rule list.rel_mono_strong)
      fix x y
      assume "x \<in> set xs" "the (f x) = Inr y"
      then show "\<exists>p. y = g x p \<and> transfer_exact layout tables (src x) (tgt x) p" using r [of x] by auto
    qed
    then show ?thesis using that(2) t Inr by simp
  qed
qed

lemma build_load_plan_cases:
  assumes "wf_layout layout" "list_all wf_group (hl_groups layout)" "constructed_ranges m"
  obtains (rejected) e where "build_load_plan layout m blocks = Some (Inl e)" "plan_rejection e"
  | (planned) p where "build_load_plan layout m blocks = Some (Inr p)" "load_plan_exact layout m blocks p"
proof (cases "validate_allocation m blocks")
  case (Inl e)
  then have "plan_rejection e" by (auto simp: validate_allocation_def split: if_splits)
  then show ?thesis using rejected Inl by (simp add: build_load_plan_def)
next
  case (Inr u)
  then have a: "ab_grouped_allocation blocks = al_grouped_blocks (hm_allocation (tm_handoff m))"
    by (simp add: validate_allocation_def split: if_splits)
  let ?xs = "List.enumerate 0 (tm_verified_candidates m)" and ?tables = "ab_group_block_tables blocks"
  let ?g = "\<lambda>(x :: nat \<times> VerifiedLmcacheCandidate) p.
    \<lparr>cw_candidate_index = int (fst x), cw_verified_candidate = snd x, cw_scatter_plan = p\<rparr>"
  let ?f = "\<lambda>(index, verified). map_option (map_sum id (?g (index, verified)))
      (plan_transfer layout ?tables (source_range (vm_record (vc_match verified))) (lc_target_range (vc_candidate verified)))"
  have wf: "wf_range (source_range (vm_record (vc_match (snd x)))) \<and> wf_range (lc_target_range (vc_candidate (snd x)))"
    if "x \<in> set ?xs" for x
    using assms(3) that nth_mem [of "fst x" "tm_verified_candidates m"]
    by (simp add: constructed_ranges_def list_all_iff in_set_enumerate_eq)
  have b: "build_load_plan layout m blocks = (case plan_map ?f ?xs of
       None \<Rightarrow> None | Some (Inl e) \<Rightarrow> Some (Inl e)
     | Some (Inr cs) \<Rightarrow> Some (Inr \<lparr>wl_metadata = m, wl_adapted_blocks = blocks, wl_candidates = cs\<rparr>))"
    using Inr by (simp add: build_load_plan_def)
  show ?thesis
  proof (rule plan_map_transfers [OF assms(1,2), of ?xs ?f ?g ?tables
        "\<lambda>x. source_range (vm_record (vc_match (snd x)))" "\<lambda>x. lc_target_range (vc_candidate (snd x))"])
    fix e
    assume "plan_map ?f ?xs = Some (Inl e)" "plan_rejection e"
    then show ?thesis using rejected b by simp
  next
    fix ys
    assume y: "plan_map ?f ?xs = Some (Inr ys)"
      "list_all2 (\<lambda>x y. \<exists>p. y = ?g x p \<and> transfer_exact layout ?tables (source_range (vm_record (vc_match (snd x))))
        (lc_target_range (vc_candidate (snd x))) p) ?xs ys"
    have "list_all2 (load_work_exact layout ?tables) ?xs ys"
      using y(2) by (rule list.rel_mono_strong) (auto simp: load_work_exact_def)
    then show ?thesis using planned b y(1) a by (simp add: load_plan_exact_def)
  qed (use wf in auto)
qed

text \<open>The complete chunks of a prompt.\<close>

definition chunk_range :: "int \<Rightarrow> TokenRange" where
  "chunk_range k = \<lparr>tr_start = k * LMCACHE_CHUNK_SIZE, tr_end = k * LMCACHE_CHUNK_SIZE + LMCACHE_CHUNK_SIZE\<rparr>"

definition store_chunk_exact ::
    "GptOssHybridCacheLayout \<Rightarrow> GroupBlockTable list \<Rightarrow> int list \<Rightarrow> int \<Rightarrow> StoreChunkWork \<Rightarrow> bool" where
  "store_chunk_exact layout tables prompt k chunk \<longleftrightarrow> sw_chunk_index chunk = k \<and> sw_token_range chunk = chunk_range k \<and>
     sw_token_ids chunk = prompt_slice prompt (chunk_range k) \<and>
     transfer_exact layout tables (chunk_range k) (chunk_range k) (sw_gather_plan chunk)"

definition store_plan_exact ::
    "GptOssHybridCacheLayout \<Rightarrow> SchedulerTransferMetadata \<Rightarrow> AdaptedKvCacheBlocks \<Rightarrow> WorkerStorePlan \<Rightarrow> bool" where
  "store_plan_exact layout m blocks p \<longleftrightarrow> wp_metadata p = m \<and> wp_adapted_blocks p = blocks \<and> wp_chunks p \<noteq> [] \<and>
     ab_grouped_allocation blocks = al_grouped_blocks (hm_allocation (tm_handoff m)) \<and>
     list_all2 (store_chunk_exact layout (ab_group_block_tables blocks) (tm_prompt_token_ids m))
       [0..prompt_token_count m div LMCACHE_CHUNK_SIZE - 1] (wp_chunks p)"

lemma store_starts:
  "py_range_from_zero (complete_store_token_count m) LMCACHE_CHUNK_SIZE =
     map (\<lambda>k. k * LMCACHE_CHUNK_SIZE) [0..prompt_token_count m div LMCACHE_CHUNK_SIZE - 1]"
proof -
  have "(n * LMCACHE_CHUNK_SIZE + LMCACHE_CHUNK_SIZE - 1) div LMCACHE_CHUNK_SIZE = n" for n
    by (simp add: LMCACHE_CHUNK_SIZE_def)
  then show ?thesis by (simp add: py_range_from_zero_def complete_store_token_count_def)
qed

lemma plan_map_map: "plan_map f (map h xs) = plan_map (\<lambda>x. f (h x)) xs"
  by (induction xs) (simp_all split: option.split sum.split)

lemma build_store_plan_cases:
  assumes "wf_layout layout" "list_all wf_group (hl_groups layout)"
  obtains (rejected) e where "build_store_plan layout m blocks = Some (Inl e)" "plan_rejection e"
  | (planned) p where "build_store_plan layout m blocks = Some (Inr p)" "store_plan_exact layout m blocks p"
proof (cases "validate_allocation m blocks")
  case (Inl e)
  then have "plan_rejection e" by (auto simp: validate_allocation_def split: if_splits)
  then show ?thesis using rejected Inl by (simp add: build_store_plan_def)
next
  case (Inr u)
  then have a: "ab_grouped_allocation blocks = al_grouped_blocks (hm_allocation (tm_handoff m))"
    by (simp add: validate_allocation_def split: if_splits)
  let ?xs = "[0..prompt_token_count m div LMCACHE_CHUNK_SIZE - 1]" and ?tables = "ab_group_block_tables blocks"
  let ?f = "\<lambda>k. store_chunk layout m blocks (k * LMCACHE_CHUNK_SIZE)"
  let ?g = "\<lambda>k p. \<lparr>sw_chunk_index = k, sw_token_range = chunk_range k,
      sw_token_ids = prompt_slice (tm_prompt_token_ids m) (chunk_range k), sw_gather_plan = p\<rparr>"
  have g: "?f k = map_option (map_sum id (?g k)) (plan_transfer layout ?tables (chunk_range k) (chunk_range k))" for k
    by (simp add: store_chunk_def chunk_range_def LMCACHE_CHUNK_SIZE_def Let_def)
  have wf: "wf_range (chunk_range k)" if "k \<in> set ?xs" for k
    using that by (simp add: chunk_range_def wf_range_def LMCACHE_CHUNK_SIZE_def)
  have b: "build_store_plan layout m blocks = (case plan_map ?f ?xs of
       None \<Rightarrow> None | Some (Inl e) \<Rightarrow> Some (Inl e)
     | Some (Inr cs) \<Rightarrow> Some (if cs = [] then Inl (TransferRuntimeError INVALID_METADATA)
         else Inr \<lparr>wp_metadata = m, wp_adapted_blocks = blocks, wp_chunks = cs\<rparr>))"
    using Inr by (simp add: build_store_plan_def store_starts plan_map_map)
  show ?thesis
  proof (rule plan_map_transfers [OF assms, of ?xs ?f ?g ?tables chunk_range chunk_range])
    fix e
    assume "plan_map ?f ?xs = Some (Inl e)" "plan_rejection e"
    then show ?thesis using rejected b by simp
  next
    fix ys
    assume y: "plan_map ?f ?xs = Some (Inr ys)"
      "list_all2 (\<lambda>k y. \<exists>p. y = ?g k p \<and> transfer_exact layout ?tables (chunk_range k) (chunk_range k) p) ?xs ys"
    have l: "list_all2 (store_chunk_exact layout ?tables (tm_prompt_token_ids m)) ?xs ys"
      using y(2) by (rule list.rel_mono_strong) (auto simp: store_chunk_exact_def)
    show ?thesis
    proof (cases "ys = []")
      case True
      then show ?thesis using rejected [of "TransferRuntimeError INVALID_METADATA"] b y(1) by simp
    next
      case False
      then show ?thesis using planned b y(1) a l by (simp add: store_plan_exact_def)
    qed
  qed (use wf g in auto)
qed

section \<open>Outcomes always construct\<close>

text \<open>The outcome of a load: everything loaded or everything rejected, and the whole prompt recomputed.\<close>

definition load_result ::
    "SchedulerTransferMetadata \<Rightarrow> TransferAttemptState \<Rightarrow> TransferFallbackCode option \<Rightarrow> pyval \<Rightarrow> PreForwardOutcome" where
  "load_result m state code latency =
     (let all = [0..int (length (tm_verified_candidates m)) - 1]; ok = (state = SUCCEEDED) in
      \<lparr>pf_metadata = m, pf_state = state, pf_failure_code = code,
       pf_loaded_candidate_indexes = (if ok then all else []), pf_rejected_candidate_indexes = (if ok then [] else all),
       pf_loaded_kv_tokens = (if ok then sum_list (map (\<lambda>v. range_len (lc_target_range (vc_candidate v))) (tm_verified_candidates m)) else 0),
       pf_tokens_to_recompute = prompt_token_count m, pf_external_scheduler_tokens = 0, pf_prefill_tokens_avoided = 0,
       pf_position_correction_latency_seconds = latency\<rparr>)"

definition zero_seconds :: pyval where
  "zero_seconds = PFloat (Finite 0)"

lemma the_int_PInt [simp]: "the_int \<circ> PInt = id"
  by (simp add: fun_eq_iff)

lemma sort_upto [simp]: "sort [a..b] = [a..b :: int]"
  by (rule sorted_sort_id) simp

lemma all_indexes_facts [simp]:
  "distinct (all_indexes m)" "map the_int (all_indexes m) = [0..int (length (tm_verified_candidates m)) - 1]"
  "v \<in> set (all_indexes m) \<Longrightarrow> is_plain_int v"
  by (auto simp: all_indexes_def distinct_map inj_on_def)

lemma load_fallback_eq: "load_fallback m code = Inr (load_result m FULL_PREFILL_FALLBACK (Some code) zero_seconds)"
  by (simp add: load_fallback_def PreForwardOutcome_init_def load_result_def zero_seconds_def Let_def
      finite_nonnegative_def FULL_RECOMPUTE_EXTERNAL_TOKENS_def)

lemma not_eligible_eq:
  "\<not> tm_transfer_eligible m \<Longrightarrow>
   PreForwardOutcome_init m NOT_ELIGIBLE None [] (all_indexes m) (PInt 0) (PInt (prompt_token_count m))
     (PInt FULL_RECOMPUTE_EXTERNAL_TOKENS) (PInt 0) (PFloat (Finite 0)) = Inr (load_result m NOT_ELIGIBLE None zero_seconds)"
  by (simp add: PreForwardOutcome_init_def load_result_def zero_seconds_def Let_def
      finite_nonnegative_def FULL_RECOMPUTE_EXTERNAL_TOKENS_def)

lemma map_nth_upto: "map (\<lambda>k. f (xs ! nat k)) [0..int (length xs) - 1] = map f xs"
  by (rule nth_equalityI) auto

lemma succeeded_eq:
  assumes "tm_transfer_eligible m" "finite_nonnegative latency = Inr True"
    "tokens = sum_list (map (\<lambda>v. range_len (lc_target_range (vc_candidate v))) (tm_verified_candidates m))"
  shows "PreForwardOutcome_init m SUCCEEDED None (all_indexes m) [] (PInt tokens) (PInt (prompt_token_count m))
     (PInt FULL_RECOMPUTE_EXTERNAL_TOKENS) (PInt 0) latency = Inr (load_result m SUCCEEDED None latency)"
proof -
  have "map (\<lambda>v. range_len (lc_target_range (vc_candidate (tm_verified_candidates m ! nat (the_int v))))) (all_indexes m) =
      map (\<lambda>v. range_len (lc_target_range (vc_candidate v))) (tm_verified_candidates m)"
    using map_nth_upto [of "\<lambda>v. range_len (lc_target_range (vc_candidate v))"] by (simp add: all_indexes_def o_def)
  then show ?thesis using assms
    by (simp add: PreForwardOutcome_init_def load_result_def Let_def FULL_RECOMPUTE_EXTERNAL_TOKENS_def)
qed

lemma load_plan_tokens:
  assumes "load_plan_exact layout m blocks p"
  shows "load_expected_tokens p = sum_list (map (\<lambda>v. range_len (lc_target_range (vc_candidate v))) (tm_verified_candidates m))"
    "load_expected_chunks p = int (length (tm_verified_candidates m))"
proof -
  have l: "list_all2 (load_work_exact layout (ab_group_block_tables blocks)) (List.enumerate 0 (tm_verified_candidates m)) (wl_candidates p)"
    using assms by (simp add: load_plan_exact_def)
  then have "map cw_verified_candidate (wl_candidates p) = map snd (List.enumerate 0 (tm_verified_candidates m))"
    by (auto simp: list_all2_conv_all_nth load_work_exact_def nth_enumerate0 intro!: nth_equalityI)
  then have "map cw_verified_candidate (wl_candidates p) = tm_verified_candidates m" by simp
  then show "load_expected_tokens p = sum_list (map (\<lambda>v. range_len (lc_target_range (vc_candidate v))) (tm_verified_candidates m))"
    "load_expected_chunks p = int (length (tm_verified_candidates m))"
    by (auto simp: load_expected_tokens_def load_expected_chunks_def o_def dest!: sym [where t = "tm_verified_candidates m"])
qed

section \<open>Observing the calls\<close>

text \<open>
  The environment with a journal: every call is appended to a log that the environment cannot see.
  It is how the properties speak about which calls were made, in which order and with what.
\<close>

datatype worker_call =
    PreflightRetrieve WorkerLoadPlan | PreflightScatter WorkerLoadPlan | RetrieveVerified WorkerLoadPlan
  | ScatterRetrieved WorkerLoadPlan | ReadLatency | PreflightGather WorkerStorePlan | PreflightStore WorkerStorePlan
  | GatherRecomputed WorkerStorePlan | StorePrecomputed WorkerStorePlan | PublishRecords "CacheRecord list"

definition log_call :: "worker_call \<Rightarrow> ('w \<Rightarrow> 'r \<times> 'w) \<Rightarrow> 'w \<times> worker_call list \<Rightarrow> 'r \<times> 'w \<times> worker_call list" where
  "log_call c f s = (let (r, w) = f (fst s) in (r, w, snd s @ [c]))"

definition logged :: "'w WorkerEnvironment \<Rightarrow> ('w \<times> worker_call list) WorkerEnvironment" where
  "logged env =
     \<lparr>we_preflight_retrieve = (\<lambda>p. log_call (PreflightRetrieve p) (we_preflight_retrieve env p)),
      we_retrieve_verified = (\<lambda>p. log_call (RetrieveVerified p) (we_retrieve_verified env p)),
      we_preflight_store = (\<lambda>p. log_call (PreflightStore p) (we_preflight_store env p)),
      we_store_precomputed = (\<lambda>p. log_call (StorePrecomputed p) (we_store_precomputed env p)),
      we_publish_sidecar_records = (\<lambda>rs. log_call (PublishRecords rs) (we_publish_sidecar_records env rs)),
      we_preflight_scatter = (\<lambda>p. log_call (PreflightScatter p) (we_preflight_scatter env p)),
      we_scatter_retrieved = (\<lambda>p. log_call (ScatterRetrieved p) (we_scatter_retrieved env p)),
      we_preflight_gather = (\<lambda>p. log_call (PreflightGather p) (we_preflight_gather env p)),
      we_gather_recomputed = (\<lambda>p. log_call (GatherRecomputed p) (we_gather_recomputed env p)),
      we_position_correction_latency = log_call ReadLatency (we_position_correction_latency env)\<rparr>"

text \<open>Collaborators that raise nothing outside \<^verbatim>\<open>Exception\<close>, and a latency attribute that can be read.\<close>

definition uninterrupted :: "'w WorkerEnvironment \<Rightarrow> bool" where
  "uninterrupted env \<longleftrightarrow>
     (\<forall>w lp sp rs. fst (we_preflight_retrieve env lp w) \<noteq> Inl WorkerInterrupt \<and>
        fst (we_retrieve_verified env lp w) \<noteq> Inl WorkerInterrupt \<and> fst (we_preflight_store env sp w) \<noteq> Inl WorkerInterrupt \<and>
        fst (we_store_precomputed env sp w) \<noteq> Inl WorkerInterrupt \<and>
        fst (we_publish_sidecar_records env rs w) \<noteq> Inl WorkerInterrupt \<and>
        fst (we_preflight_scatter env lp w) \<noteq> Inl WorkerInterrupt \<and> fst (we_scatter_retrieved env lp w) \<noteq> Inl WorkerInterrupt \<and>
        fst (we_preflight_gather env sp w) \<noteq> Inl WorkerInterrupt \<and> fst (we_gather_recomputed env sp w) \<noteq> Inl WorkerInterrupt)"

definition readable_latency :: "'w WorkerEnvironment \<Rightarrow> bool" where
  "readable_latency env \<longleftrightarrow>
     (\<forall>w. case fst (we_position_correction_latency env w) of
            Inl _ \<Rightarrow> False
          | Inr (Some (PInt n)) \<Rightarrow> \<bar>n\<bar> < 2 ^ 1024 - 2 ^ 970
          | Inr _ \<Rightarrow> True)"

lemma logged_simps:
  "we_preflight_retrieve (logged env) p = log_call (PreflightRetrieve p) (we_preflight_retrieve env p)"
  "we_retrieve_verified (logged env) p = log_call (RetrieveVerified p) (we_retrieve_verified env p)"
  "we_preflight_store (logged env) sp = log_call (PreflightStore sp) (we_preflight_store env sp)"
  "we_store_precomputed (logged env) sp = log_call (StorePrecomputed sp) (we_store_precomputed env sp)"
  "we_publish_sidecar_records (logged env) rs = log_call (PublishRecords rs) (we_publish_sidecar_records env rs)"
  "we_preflight_scatter (logged env) p = log_call (PreflightScatter p) (we_preflight_scatter env p)"
  "we_scatter_retrieved (logged env) p = log_call (ScatterRetrieved p) (we_scatter_retrieved env p)"
  "we_preflight_gather (logged env) sp = log_call (PreflightGather sp) (we_preflight_gather env sp)"
  "we_gather_recomputed (logged env) sp = log_call (GatherRecomputed sp) (we_gather_recomputed env sp)"
  "we_position_correction_latency (logged env) = log_call ReadLatency (we_position_correction_latency env)"
  by (simp_all add: logged_def)

lemmas call_simps = attempt_def log_call_def logged_simps

lemma attempt_cases:
  assumes "fst r \<noteq> Inl WorkerInterrupt"
  obtains (failed) w' where "r = (Inl WorkerException, w')" | (returned) x w' where "r = (Inr x, w')"
proof (cases r)
  case (Pair a w')
  show ?thesis
  proof (cases a)
    case (Inl e)
    then show ?thesis using assms Pair failed by (cases e) auto
  qed (use Pair returned in auto)
qed

text \<open>What reading the latency can give: a usable number, or one of three exceptions.\<close>

lemma usable_latency:
  assumes "finite_nonnegative v = Inr True"
  shows "\<exists>f. py_float v = Inr f \<and> finite_nonnegative (PFloat f) = Inr True"
proof (cases v)
  case (PInt n)
  then show ?thesis using assms by (auto simp: finite_nonnegative_def rbind_def split: sum.splits)
qed (use assms in \<open>auto simp: finite_nonnegative_def py_float_def\<close>)

lemma unusable_latency:
  assumes "finite_nonnegative v = Inl e"
  shows "e = OverflowError \<and> (\<exists>n. v = PInt n \<and> \<not> \<bar>n\<bar> < 2 ^ 1024 - 2 ^ 970)"
  using assms by (auto simp: finite_nonnegative_def py_float_def rbind_def not_less split: pyval.splits if_splits)

definition latency_answer :: "(transfer_exn + pyval) \<Rightarrow> bool \<Rightarrow> bool" where
  "latency_answer r readable \<longleftrightarrow>
     (case r of
        Inr v \<Rightarrow> finite_nonnegative v = Inr True
      | Inl e \<Rightarrow> e \<in> {Interrupted, CollaboratorRaise, BuiltinRaise OverflowError} \<and> \<not> readable)"

lemma read_latency_answer:
  "latency_answer (fst (read_position_correction_latency env w)) (readable_latency env)"
proof (cases "we_position_correction_latency env w")
  case (Pair a w')
  have unread: "\<not> readable_latency env" if "(case a of Inl _ \<Rightarrow> False | Inr (Some (PInt n)) \<Rightarrow> \<bar>n\<bar> < 2 ^ 1024 - 2 ^ 970 | Inr _ \<Rightarrow> True) = False"
    using that Pair unfolding readable_latency_def by (metis fst_conv)
  show ?thesis
  proof (cases a)
    case (Inl e)
    then show ?thesis using Pair unread by (cases e) (simp_all add: read_position_correction_latency_def latency_answer_def)
  next
    case (Inr x)
    define v where "v = (case x of None \<Rightarrow> PFloat (Finite 0) | Some v \<Rightarrow> v)"
    have r: "fst (read_position_correction_latency env w) =
        (case finite_nonnegative v of Inl e \<Rightarrow> Inl (BuiltinRaise e) | Inr False \<Rightarrow> Inr (PFloat (Finite 0))
         | Inr True \<Rightarrow> (case py_float v of Inl e \<Rightarrow> Inl (BuiltinRaise e) | Inr f \<Rightarrow> Inr (PFloat f)))"
      using Pair Inr by (simp add: read_position_correction_latency_def Let_def flip: v_def)
    show ?thesis
    proof (cases "finite_nonnegative v")
      case (Inl e)
      obtain n where n: "e = OverflowError" "v = PInt n" "\<not> \<bar>n\<bar> < 2 ^ 1024 - 2 ^ 970" using unusable_latency [OF Inl] by blast
      then have "x = Some (PInt n)" by (cases x) (simp_all add: v_def)
      then have "\<not> readable_latency env" using unread n(3) \<open>a = Inr x\<close> by simp
      then show ?thesis unfolding r latency_answer_def using Inl n(1) by simp
    next
      case (Inr b)
      then show ?thesis unfolding r latency_answer_def using usable_latency [of v]
        by (cases b) (auto simp: finite_nonnegative_def)
    qed
  qed
qed

lemma latency_cases:
  obtains r w' where "read_position_correction_latency env w = (r, w')"
    "read_position_correction_latency (logged env) (w, l) = (r, w', l @ [ReadLatency])" "latency_answer r (readable_latency env)"
proof -
  obtain r w' where r: "read_position_correction_latency env w = (r, w')" by (cases "read_position_correction_latency env w")
  moreover have "read_position_correction_latency (logged env) (w, l) = (r, w', l @ [ReadLatency])"
    using r by (cases "we_position_correction_latency env w")
      (auto simp: read_position_correction_latency_def Let_def call_simps split: sum.splits worker_exn.splits)
  ultimately show thesis using that read_latency_answer [of env w] by simp
qed

text \<open>
  A program and its journaled copy: they return the same result and world.  \<open>V\<close> relates the calls that
  were made to the outcome, \<open>X\<close> relates them to the exception that left the program.
\<close>

definition journaled ::
    "(worker_call list \<Rightarrow> 'o \<Rightarrow> bool) \<Rightarrow> (worker_call list \<Rightarrow> transfer_exn \<Rightarrow> bool) \<Rightarrow> ('w \<Rightarrow> (transfer_exn + 'o) \<times> 'w) \<Rightarrow>
     ('w \<times> worker_call list \<Rightarrow> (transfer_exn + 'o) \<times> 'w \<times> worker_call list) \<Rightarrow> bool" where
  "journaled V X k k' \<longleftrightarrow>
     (\<forall>w l. \<exists>r w' log. (case r of Inr out \<Rightarrow> V log out | Inl e \<Rightarrow> X log e) \<and> k w = (r, w') \<and> k' (w, l) = (r, w', l @ log))"

abbreviation no_exception :: "worker_call list \<Rightarrow> transfer_exn \<Rightarrow> bool" where
  "no_exception \<equiv> \<lambda>_ _. False"

lemma journaled_attempt:
  assumes "\<And>w. fst (f w) = Inl WorkerInterrupt \<Longrightarrow> X [c] Interrupted" "V [c] out"
    "\<And>x w w'. f w = (Inr x, w') \<Longrightarrow> journaled (\<lambda>log. V (c # log)) (\<lambda>log. X (c # log)) (k x) (k' x)"
  shows "journaled V X (attempt f (Inr out) k) (attempt (log_call c f) (Inr out) k')"
  unfolding journaled_def
proof (intro allI)
  fix w l
  obtain a w1 where a: "f w = (a, w1)" by (cases "f w")
  show "\<exists>r w' log. (case r of Inr out \<Rightarrow> V log out | Inl e \<Rightarrow> X log e) \<and> attempt f (Inr out) k w = (r, w') \<and>
      attempt (log_call c f) (Inr out) k' (w, l) = (r, w', l @ log)"
  proof (cases a)
    case (Inl e)
    then show ?thesis using a assms(1) [of w] assms(2)
      by (intro exI [of _ "case e of WorkerException \<Rightarrow> Inr out | WorkerInterrupt \<Rightarrow> Inl Interrupted"] exI [of _ w1]
          exI [of _ "[c]"]) (cases e, simp_all add: attempt_def log_call_def)
  next
    case (Inr x)
    obtain r w' log where k: "case r of Inr out \<Rightarrow> V (c # log) out | Inl e \<Rightarrow> X (c # log) e" "k x w1 = (r, w')"
      "k' x (w1, l @ [c]) = (r, w', (l @ [c]) @ log)"
      using assms(3) [of w x w1] a Inr unfolding journaled_def by blast
    then show ?thesis using a Inr
      by (intro exI [of _ r] exI [of _ w'] exI [of _ "c # log"]) (simp add: attempt_def log_call_def)
  qed
qed

lemma journaled_return: "V [] out \<Longrightarrow> journaled V X (Pair (Inr out)) (Pair (Inr out))"
  unfolding journaled_def by (metis append_Nil2 old.sum.simps(6))

lemma journaled_if:
  "(b \<Longrightarrow> journaled V X h h') \<Longrightarrow> (\<not> b \<Longrightarrow> journaled V X k k') \<Longrightarrow>
   journaled V X (\<lambda>w. if b then h w else k w) (\<lambda>s. if b then h' s else k' s)"
  by (cases b) simp_all

section \<open>Loading\<close>

text \<open>Which calls a load makes, and what its outcome says about the last of them.\<close>

definition load_calls :: "WorkerLoadPlan \<Rightarrow> worker_call list" where
  "load_calls p = [PreflightRetrieve p, PreflightScatter p, RetrieveVerified p, ScatterRetrieved p, ReadLatency]"

definition load_verdicts :: "nat \<Rightarrow> (TransferAttemptState \<times> TransferFallbackCode option) set" where
  "load_verdicts n =
     (if n = 5 then {(SUCCEEDED, None)}
      else (\<lambda>c. (FULL_PREFILL_FALLBACK, Some c)) ` (if n \<le> 2 then {LOAD_PREFLIGHT_FAILED}
        else if n = 3 then {RETRIEVE_FAILED, RETRIEVE_RECEIPT_INVALID} else {SCATTER_FAILED}))"

definition load_explained :: "WorkerLoadPlan \<Rightarrow> SchedulerTransferMetadata \<Rightarrow> worker_call list \<Rightarrow> PreForwardOutcome \<Rightarrow> bool" where
  "load_explained p m journal out \<longleftrightarrow> journal \<noteq> [] \<and> journal = take (length journal) (load_calls p) \<and>
     (pf_state out, pf_failure_code out) \<in> load_verdicts (length journal) \<and>
     out = load_result m (pf_state out) (pf_failure_code out) (pf_position_correction_latency_seconds out)"

text \<open>
  When a load ends with an exception: one of the first four calls was interrupted, or after the scatter
  the latency could not be read.
\<close>

definition load_abandoned :: "'w WorkerEnvironment \<Rightarrow> WorkerLoadPlan \<Rightarrow> worker_call list \<Rightarrow> transfer_exn \<Rightarrow> bool" where
  "load_abandoned env p journal e \<longleftrightarrow> journal \<noteq> [] \<and> journal = take (length journal) (load_calls p) \<and>
     (if length journal < 5 then e = Interrupted \<and> \<not> uninterrupted env
      else e \<in> {Interrupted, CollaboratorRaise, BuiltinRaise OverflowError} \<and> \<not> readable_latency env)"

text \<open>KV is scattered only on a plan for which the storage gave a receipt of the planned tokens and chunks.\<close>

definition validly_retrieved :: "'w WorkerEnvironment \<Rightarrow> worker_call list \<Rightarrow> bool" where
  "validly_retrieved env journal \<longleftrightarrow>
     (\<forall>p. ScatterRetrieved p \<in> set journal \<longrightarrow>
        (\<exists>w r w'. we_retrieve_verified env p w = (Inr (Some r), w') \<and>
           rr_retrieved_tokens r = load_expected_tokens p \<and> rr_retrieved_chunks r = load_expected_chunks p))"

lemma valid_receipt_retrieved:
  assumes "we_retrieve_verified env p w = (Inr x, w')" "valid_retrieve_receipt x p"
  shows "\<exists>w r w'. we_retrieve_verified env p w = (Inr (Some r), w') \<and>
     rr_retrieved_tokens r = load_expected_tokens p \<and> rr_retrieved_chunks r = load_expected_chunks p"
  using assms by (cases x) (auto simp: valid_retrieve_receipt_def)

lemma load_explained_result:
  "load_explained p m journal (load_result m state code latency) \<longleftrightarrow>
     journal \<noteq> [] \<and> journal = take (length journal) (load_calls p) \<and> (state, code) \<in> load_verdicts (length journal)"
  by (auto simp: load_explained_def load_result_def Let_def)

lemmas load_stage_simps = load_explained_result load_abandoned_def load_calls_def load_verdicts_def

lemma load_succeeded_journaled:
  assumes "tm_transfer_eligible m" "load_plan_exact layout m blocks p"
    "\<And>latency. V [ReadLatency] (load_result m SUCCEEDED None latency)"
    "\<And>e. e \<in> {Interrupted, CollaboratorRaise, BuiltinRaise OverflowError} \<Longrightarrow> \<not> readable_latency env \<Longrightarrow> X [ReadLatency] e"
  shows "journaled V X (load_succeeded env p m) (load_succeeded (logged env) p m)"
  unfolding journaled_def
proof (intro allI)
  fix w l
  obtain r w' where r: "read_position_correction_latency env w = (r, w')"
    "read_position_correction_latency (logged env) (w, l) = (r, w', l @ [ReadLatency])" "latency_answer r (readable_latency env)"
    by (rule latency_cases)
  show "\<exists>r w' journal. (case r of Inr out \<Rightarrow> V journal out | Inl e \<Rightarrow> X journal e) \<and> load_succeeded env p m w = (r, w') \<and>
      load_succeeded (logged env) p m (w, l) = (r, w', l @ journal)"
  proof (cases r)
    case (Inl e)
    then have "X [ReadLatency] e" using r(3) assms(4) by (simp add: latency_answer_def)
    then show ?thesis using r Inl
      by (intro exI [of _ "Inl e"] exI [of _ w'] exI [of _ "[ReadLatency]"]) (simp add: load_succeeded_def)
  next
    case (Inr v)
    then have v: "finite_nonnegative v = Inr True" using r(3) by (simp add: latency_answer_def)
    note s = succeeded_eq [OF assms(1) v load_plan_tokens(1) [OF assms(2)]]
    show ?thesis
      by (intro exI [of _ "Inr (load_result m SUCCEEDED None v)"] exI [of _ w'] exI [of _ "[ReadLatency]"])
        (simp add: load_succeeded_def r Inr s assms(3))
  qed
qed

lemma run_load_journaled:
  assumes e: "tm_transfer_eligible m" and p: "load_plan_exact layout m blocks p"
  shows "journaled (\<lambda>log out. load_explained p m log out \<and> validly_retrieved env log)
    (\<lambda>log x. load_abandoned env p log x \<and> validly_retrieved env log) (run_load env p m) (run_load (logged env) p m)"
  unfolding run_load_def load_fallback_eq logged_simps
  by (intro journaled_attempt journaled_if journaled_return load_succeeded_journaled [OF e p])
    (auto simp: load_stage_simps uninterrupted_def validly_retrieved_def; meson valid_receipt_retrieved)+

text \<open>What a load did, in full: the rejected plan, the ineligible request, or the calls it made.\<close>

definition load_account ::
    "GptOssHybridCacheLayout \<Rightarrow> SchedulerTransferMetadata \<Rightarrow> AdaptedKvCacheBlocks \<Rightarrow> worker_call list \<Rightarrow> PreForwardOutcome \<Rightarrow> bool" where
  "load_account layout m blocks journal out \<longleftrightarrow>
     (case build_load_plan layout m blocks of
        Some (Inr p) \<Rightarrow> load_plan_exact layout m blocks p \<and>
          (if tm_transfer_eligible m then load_explained p m journal out
           else journal = [] \<and> out = load_result m NOT_ELIGIBLE None zero_seconds)
      | _ \<Rightarrow> journal = [] \<and> out = load_result m FULL_PREFILL_FALLBACK (Some LOAD_PLAN_REJECTED) zero_seconds)"

text \<open>The same for a load that an exception left.\<close>

definition load_exception ::
    "GptOssHybridCacheLayout \<Rightarrow> 'w WorkerEnvironment \<Rightarrow> SchedulerTransferMetadata \<Rightarrow> AdaptedKvCacheBlocks \<Rightarrow>
     worker_call list \<Rightarrow> transfer_exn \<Rightarrow> bool" where
  "load_exception layout env m blocks journal e \<longleftrightarrow> tm_transfer_eligible m \<and>
     (\<exists>p. build_load_plan layout m blocks = Some (Inr p) \<and> load_plan_exact layout m blocks p \<and> load_abandoned env p journal e)"

lemma before_forward_accounted:
  assumes l: "wf_layout layout" "list_all wf_group (hl_groups layout)" and m: "constructed_ranges m"
  shows "\<exists>r w' journal. before_forward layout env m blocks w = Some (r, w') \<and>
    before_forward layout (logged env) m blocks (w, []) = Some (r, w', journal) \<and>
    (case r of Inr out \<Rightarrow> load_account layout m blocks journal out | Inl e \<Rightarrow> load_exception layout env m blocks journal e) \<and>
    validly_retrieved env journal"
  using l m
proof (cases rule: build_load_plan_cases [where blocks = blocks])
  case (rejected e)
  then show ?thesis using plan_rejection_cases [OF rejected(2)]
    by (auto simp: before_forward_def load_fallback_eq load_account_def validly_retrieved_def intro!: exI [of _ "Inr out" for out])
next
  case (planned p)
  show ?thesis
  proof (cases "tm_transfer_eligible m")
    case True
    then obtain r w' journal where j: "case r of Inr out \<Rightarrow> load_explained p m journal out \<and> validly_retrieved env journal
        | Inl e \<Rightarrow> load_abandoned env p journal e \<and> validly_retrieved env journal"
      "run_load env p m w = (r, w')" "run_load (logged env) p m (w, []) = (r, w', [] @ journal)"
      using run_load_journaled [OF True planned(2), of env, unfolded journaled_def, rule_format, of w "[]"] by blast
    then show ?thesis using planned True
      by (intro exI [of _ r] exI [of _ w'] exI [of _ journal])
        (simp add: before_forward_def load_account_def load_exception_def split: sum.splits)
  next
    case False
    then show ?thesis using planned
      by (intro exI [of _ "Inr (load_result m NOT_ELIGIBLE None zero_seconds)"])
        (simp add: before_forward_def load_account_def not_eligible_eq validly_retrieved_def)
  qed
qed

lemma load_account_outcome:
  assumes "load_account layout m blocks journal out"
  shows "pf_tokens_to_recompute out = prompt_token_count m" "pf_external_scheduler_tokens out = 0"
    "pf_prefill_tokens_avoided out = 0" "pf_state out = SUCCEEDED \<longleftrightarrow> length journal = 5"
proof -
  have o: "out = load_result m (pf_state out) (pf_failure_code out) (pf_position_correction_latency_seconds out) \<and>
      (pf_state out = SUCCEEDED \<longleftrightarrow> length journal = 5)"
    using assms by (auto simp: load_account_def load_explained_def load_verdicts_def load_result_def Let_def
        split: option.splits sum.splits if_splits)
  then show "pf_state out = SUCCEEDED \<longleftrightarrow> length journal = 5" by simp
  from o show "pf_tokens_to_recompute out = prompt_token_count m" "pf_external_scheduler_tokens out = 0"
    "pf_prefill_tokens_avoided out = 0"
    by (metis (no_types, lifting) PreForwardOutcome.select_convs(7,8,9) load_result_def)+
qed

section \<open>Storing\<close>

definition store_result ::
    "FullPrefillCompletion \<Rightarrow> TransferAttemptState \<Rightarrow> TransferFallbackCode option \<Rightarrow> int \<Rightarrow> PostForwardOutcome" where
  "store_result c state code inserted =
     (let e = eligible_store_tokens (pf_metadata (fc_pre_forward c)); ok = (state = SUCCEEDED) in
      \<lparr>po_completion = c, po_state = state, po_failure_code = code, po_eligible_store_tokens = e,
       po_stored_tokens = (if ok then e else 0), po_stored_chunks = (if ok then e div LMCACHE_CHUNK_SIZE else 0),
       po_sidecar_records_available = (if ok then e div LMCACHE_CHUNK_SIZE else 0),
       po_sidecar_records_inserted = (if ok then inserted else 0), po_prefill_tokens_avoided = 0\<rparr>)"

lemma eligible_store_tokens_facts:
  "0 \<le> eligible_store_tokens m" "tm_store_eligible m \<Longrightarrow> eligible_store_tokens m div LMCACHE_CHUNK_SIZE = prompt_token_count m div LMCACHE_CHUNK_SIZE"
  "tm_store_eligible m \<Longrightarrow> eligible_store_tokens m = prompt_token_count m div LMCACHE_CHUNK_SIZE * LMCACHE_CHUNK_SIZE"
  by (simp_all add: eligible_store_tokens_def complete_store_token_count_def prompt_token_count_def LMCACHE_CHUNK_SIZE_def)

lemma store_outcome_eq:
  assumes "state \<noteq> SUCCEEDED" "state = NOT_ELIGIBLE \<Longrightarrow> \<not> tm_store_eligible (pf_metadata (fc_pre_forward c)) \<and> code = None"
    "state = FULL_PREFILL_FALLBACK \<Longrightarrow> code \<noteq> None"
  shows "store_outcome c state code (eligible_store_tokens (pf_metadata (fc_pre_forward c))) = Inr (store_result c state code 0)"
  using assms eligible_store_tokens_facts(1) [of "pf_metadata (fc_pre_forward c)"]
  by (auto simp: store_outcome_def PostForwardOutcome_init_def store_result_def Let_def)

lemma hex_surj:
  assumes "length s = 2 * n" "set s \<subseteq> set lower_hex"
  shows "\<exists>d. length d = n \<and> hex d = s"
  using assms
proof (induction n arbitrary: s)
  case (Suc n)
  obtain a b t where s: "s = a # b # t" using Suc.prems(1) by (cases s; cases "tl s") auto
  obtain d where d: "length d = n" "hex d = t" using Suc.IH [of t] Suc.prems s by auto
  have digit: "\<exists>i<16. x = hex_digit i" if x: "x \<in> set lower_hex" for x
  proof -
    obtain i where "i < length lower_hex" "lower_hex ! i = x" using x by (auto simp: in_set_conv_nth)
    moreover have "length lower_hex = 16" by (simp add: lower_hex_def)
    ultimately show ?thesis unfolding hex_digit_def lower_hex_def [symmetric] by auto
  qed
  obtain i where i: "i < 16" "a = hex_digit i" using digit [of a] Suc.prems(2) s by auto
  obtain j where j: "j < 16" "b = hex_digit j" using digit [of b] Suc.prems(2) s by auto
  note ij = i(1) j(1) i(2) j(2)
  have "unat (word_of_nat k :: byte) = k" if "k < 256" for k using that by (simp add: unsigned_of_nat take_bit_nat_eq_self)
  from this [of "16 * i + j"] obtain w :: byte where "unat w = 16 * i + j" using ij(1,2) by fastforce
  then have "hex (w # d) = s" using ij d s by (simp add: hex_def)
  then show ?case using d by (metis length_Cons)
qed (simp add: hex_def)

text \<open>A record that describes exactly one complete chunk of the prompt, under a storage key.\<close>

definition exact_chunk_record :: "CacheNamespace \<Rightarrow> int list \<Rightarrow> int \<Rightarrow> CacheRecord \<Rightarrow> bool" where
  "exact_chunk_record ns prompt k r \<longleftrightarrow> rec_namespace r = ns \<and> source_range r = chunk_range k \<and>
     rec_token_ids r = prompt_slice prompt (chunk_range k) \<and> rec_fingerprint r = SHA256_FINGERPRINTER ns (rec_token_ids r) \<and>
     (\<exists>d. length d = 32 \<and> cache_key r = LMCACHE_CACHE_KEY_PREFIX @ hex d)"

definition published_exact :: "SchedulerTransferMetadata \<Rightarrow> CacheRecord list \<Rightarrow> bool" where
  "published_exact m rs \<longleftrightarrow>
     list_all2 (exact_chunk_record (tm_cache_namespace m) (tm_prompt_token_ids m))
       [0..prompt_token_count m div LMCACHE_CHUNK_SIZE - 1] rs"

lemma valid_store_record_exact:
  assumes "valid_store_record p chunk r" "store_chunk_exact layout tables prompt k chunk"
  shows "exact_chunk_record (tm_cache_namespace (wp_metadata p)) prompt k r"
proof -
  let ?suffix = "drop (length LMCACHE_CACHE_KEY_PREFIX) (cache_key r)"
  have v: "rec_namespace r = tm_cache_namespace (wp_metadata p)" "rec_token_ids r = sw_token_ids chunk"
    "source_range r = sw_token_range chunk"
    "rec_fingerprint r = SHA256_FINGERPRINTER (tm_cache_namespace (wp_metadata p)) (sw_token_ids chunk)"
    and k: "take (length LMCACHE_CACHE_KEY_PREFIX) (cache_key r) = LMCACHE_CACHE_KEY_PREFIX" "length ?suffix = 2 * 32"
    "set ?suffix \<subseteq> set lower_hex"
    using assms(1) by (auto simp: valid_store_record_def removeprefix_def Let_def)
  obtain d where "length d = 32" "hex d = ?suffix" using hex_surj [OF k(2,3)] by blast
  moreover have "cache_key r = LMCACHE_CACHE_KEY_PREFIX @ ?suffix" using k(1) by (metis append_take_drop_id)
  ultimately show ?thesis using v assms(2) by (auto simp: exact_chunk_record_def store_chunk_exact_def)
qed

lemma store_plan_chunks:
  assumes "store_plan_exact layout m blocks p"
  shows "int (length (wp_chunks p)) = prompt_token_count m div LMCACHE_CHUNK_SIZE"
proof -
  have "length (wp_chunks p) = length [0..prompt_token_count m div LMCACHE_CHUNK_SIZE - 1]"
    using assms by (auto simp: store_plan_exact_def dest: list_all2_lengthD)
  moreover have "0 \<le> prompt_token_count m div LMCACHE_CHUNK_SIZE"
    by (simp add: prompt_token_count_def LMCACHE_CHUNK_SIZE_def)
  ultimately show ?thesis by simp
qed

lemma valid_store_receipt_exact:
  assumes "valid_store_receipt receipt p" "store_plan_exact layout m blocks p"
  obtains r where "receipt = Some r" "published_exact m (rc_sidecar_records r)"
    "rc_stored_chunks r = prompt_token_count m div LMCACHE_CHUNK_SIZE"
    "rc_stored_tokens r = prompt_token_count m div LMCACHE_CHUNK_SIZE * LMCACHE_CHUNK_SIZE"
    "int (length (rc_sidecar_records r)) = prompt_token_count m div LMCACHE_CHUNK_SIZE"
proof -
  note n = store_plan_chunks [OF assms(2)]
  obtain r where r: "receipt = Some r" "rc_stored_tokens r = store_expected_tokens p" "rc_stored_chunks r = store_expected_chunks p"
    "int (length (rc_sidecar_records r)) = store_expected_chunks p"
    and v: "\<forall>(chunk, record)\<in>set (zip (wp_chunks p) (rc_sidecar_records r)). valid_store_record p chunk record"
    using assms(1) by (auto simp: valid_store_receipt_def split: option.splits if_splits)
  have len: "length (wp_chunks p) = length (rc_sidecar_records r)" using r(4) by (simp add: store_expected_chunks_def)
  have c: "list_all2 (store_chunk_exact layout (ab_group_block_tables blocks) (tm_prompt_token_ids m))
       [0..prompt_token_count m div LMCACHE_CHUNK_SIZE - 1] (wp_chunks p)" and m: "wp_metadata p = m"
    using assms(2) by (simp_all add: store_plan_exact_def)
  have "list_all2 (valid_store_record p) (wp_chunks p) (rc_sidecar_records r)"
    using v len by (auto simp: list_all2_iff)
  from list_all2_trans [OF _ c this] have "published_exact m (rc_sidecar_records r)"
    using valid_store_record_exact m unfolding published_exact_def by blast
  then show thesis using that r n by (simp add: store_expected_tokens_def store_expected_chunks_def)
qed

definition store_calls :: "WorkerStorePlan \<Rightarrow> CacheRecord list \<Rightarrow> worker_call list" where
  "store_calls p rs = [PreflightGather p, PreflightStore p, GatherRecomputed p, StorePrecomputed p, PublishRecords rs]"

definition store_verdicts :: "nat \<Rightarrow> (TransferAttemptState \<times> TransferFallbackCode option) set" where
  "store_verdicts n =
     (\<lambda>c. (FULL_PREFILL_FALLBACK, Some c)) ` (if n \<le> 2 then {STORE_PREFLIGHT_FAILED} else if n = 3 then {GATHER_FAILED}
        else if n = 4 then {STORE_FAILED, STORE_RECEIPT_INVALID} else {SIDECAR_PUBLISH_FAILED}) \<union>
     (if n = 5 then {(SUCCEEDED, None)} else {})"

text \<open>The calls of a store: a prefix of the five, and a publication only of exact records.\<close>

definition store_explained :: "WorkerStorePlan \<Rightarrow> FullPrefillCompletion \<Rightarrow> worker_call list \<Rightarrow> PostForwardOutcome \<Rightarrow> bool" where
  "store_explained p c journal out \<longleftrightarrow> journal \<noteq> [] \<and>
     (\<exists>rs. journal = take (length journal) (store_calls p rs) \<and> (length journal = 5 \<longrightarrow> published_exact (wp_metadata p) rs)) \<and>
     (po_state out, po_failure_code out) \<in> store_verdicts (length journal) \<and>
     0 \<le> po_sidecar_records_inserted out \<and> po_sidecar_records_inserted out \<le> po_stored_chunks out \<and>
     out = store_result c (po_state out) (po_failure_code out) (po_sidecar_records_inserted out)"

lemma store_explained_result:
  "store_explained p c journal (store_result c state code inserted) \<longleftrightarrow> journal \<noteq> [] \<and>
     (\<exists>rs. journal = take (length journal) (store_calls p rs) \<and> (length journal = 5 \<longrightarrow> published_exact (wp_metadata p) rs)) \<and>
     (state, code) \<in> store_verdicts (length journal) \<and>
     (state = SUCCEEDED \<longrightarrow> 0 \<le> inserted \<and> inserted \<le> eligible_store_tokens (pf_metadata (fc_pre_forward c)) div LMCACHE_CHUNK_SIZE)"
  by (auto simp: store_explained_def store_result_def Let_def)

lemmas store_stage_simps = store_explained_result store_calls_def store_verdicts_def

lemma publish_stored_journaled:
  assumes u: "uninterrupted env" and p: "store_plan_exact layout m blocks p" "valid_store_receipt (Some r) p"
    and c: "m = pf_metadata (fc_pre_forward c)" "tm_store_eligible m"
    and V: "\<And>code. V [PublishRecords (rc_sidecar_records r)] (store_result c FULL_PREFILL_FALLBACK (Some SIDECAR_PUBLISH_FAILED) 0)"
      "\<And>n. 0 \<le> n \<Longrightarrow> n \<le> prompt_token_count m div LMCACHE_CHUNK_SIZE \<Longrightarrow>
         V [PublishRecords (rc_sidecar_records r)] (store_result c SUCCEEDED None n)"
  shows "journaled V no_exception (publish_stored env c (eligible_store_tokens m) r) (publish_stored (logged env) c (eligible_store_tokens m) r)"
proof -
  obtain r': "rc_stored_chunks r = prompt_token_count m div LMCACHE_CHUNK_SIZE"
    "rc_stored_tokens r = prompt_token_count m div LMCACHE_CHUNK_SIZE * LMCACHE_CHUNK_SIZE"
    "int (length (rc_sidecar_records r)) = prompt_token_count m div LMCACHE_CHUNK_SIZE"
    using valid_store_receipt_exact [OF p(2,1)] by blast
  have failed: "store_outcome c FULL_PREFILL_FALLBACK (Some SIDECAR_PUBLISH_FAILED) (eligible_store_tokens m) =
      Inr (store_result c FULL_PREFILL_FALLBACK (Some SIDECAR_PUBLISH_FAILED) 0)"
    unfolding c(1) by (rule store_outcome_eq) simp_all
  have "PostForwardOutcome_init c SUCCEEDED None (PInt (eligible_store_tokens m)) (PInt (rc_stored_tokens r))
      (PInt (rc_stored_chunks r)) (PInt (int (length (rc_sidecar_records r)))) (PInt n) (PInt 0) = Inr (store_result c SUCCEEDED None n)"
    if "0 \<le> n" "n \<le> int (length (rc_sidecar_records r))" for n
    using that r' c eligible_store_tokens_facts [of m] by (simp add: PostForwardOutcome_init_def store_result_def Let_def)
  note succeeded = this
  show ?thesis
    unfolding publish_stored_def Let_def failed logged_simps
  proof (intro journaled_attempt journaled_if journaled_return)
    fix x
    assume "\<not> (\<not> nonneg_int x \<or> int (length (rc_sidecar_records r)) < the_int x)"
    then obtain n where n: "x = PInt n" "0 \<le> n" "n \<le> int (length (rc_sidecar_records r))" by (auto simp: nonneg_int_iff)
    then show "journaled (\<lambda>log. V (PublishRecords (rc_sidecar_records r) # log)) no_exception
        (Pair (PostForwardOutcome_init c SUCCEEDED None (PInt (eligible_store_tokens m)) (PInt (rc_stored_tokens r))
          (PInt (rc_stored_chunks r)) (PInt (int (length (rc_sidecar_records r)))) x (PInt 0)))
        (Pair (PostForwardOutcome_init c SUCCEEDED None (PInt (eligible_store_tokens m)) (PInt (rc_stored_tokens r))
          (PInt (rc_stored_chunks r)) (PInt (int (length (rc_sidecar_records r)))) x (PInt 0)))"
      using succeeded V(2) r'(3) by (simp add: journaled_return)
  qed (use u V(1) in \<open>auto simp: uninterrupted_def\<close>)
qed

lemma run_store_journaled:
  assumes u: "uninterrupted env" and p: "store_plan_exact layout m blocks p"
    and c: "m = pf_metadata (fc_pre_forward c)" "tm_store_eligible m"
  shows "journaled (store_explained p c) no_exception (run_store env p c (eligible_store_tokens m)) (run_store (logged env) p c (eligible_store_tokens m))"
proof -
  have failed: "store_outcome c FULL_PREFILL_FALLBACK (Some code) (eligible_store_tokens m) =
      Inr (store_result c FULL_PREFILL_FALLBACK (Some code) 0)" for code
    unfolding c(1) by (rule store_outcome_eq) simp_all
  have m: "wp_metadata p = m" using p by (simp add: store_plan_exact_def)
  have last: "journaled (\<lambda>log. store_explained p c (PreflightGather p # PreflightStore p # GatherRecomputed p # StorePrecomputed p # log)) no_exception
      (publish_stored env c (eligible_store_tokens m) (the x)) (publish_stored (logged env) c (eligible_store_tokens m) (the x))"
    if v: "valid_store_receipt x p" for x
  proof -
    obtain r where r: "x = Some r" "published_exact m (rc_sidecar_records r)"
      by (rule valid_store_receipt_exact [OF v p])
    show ?thesis unfolding r(1) option.sel
      by (rule publish_stored_journaled [OF u p v [unfolded r(1)] c])
        (use r(2) c eligible_store_tokens_facts(2) [of m] m in \<open>auto simp: store_stage_simps\<close>)
  qed
  show ?thesis
    unfolding run_store_def Let_def failed logged_simps
    by (intro journaled_attempt journaled_if journaled_return last)
      (use u in \<open>auto simp: store_stage_simps uninterrupted_def\<close>)
qed

definition store_account ::
    "GptOssHybridCacheLayout \<Rightarrow> FullPrefillCompletion \<Rightarrow> AdaptedKvCacheBlocks \<Rightarrow> worker_call list \<Rightarrow> PostForwardOutcome \<Rightarrow> bool" where
  "store_account layout c blocks journal out \<longleftrightarrow>
     (let m = pf_metadata (fc_pre_forward c) in
      if \<not> tm_store_eligible m then journal = [] \<and> out = store_result c NOT_ELIGIBLE None 0
      else case build_store_plan layout m blocks of
        Some (Inr p) \<Rightarrow> store_plan_exact layout m blocks p \<and> store_explained p c journal out
      | _ \<Rightarrow> journal = [] \<and> out = store_result c FULL_PREFILL_FALLBACK (Some STORE_PLAN_REJECTED) 0)"

lemma after_forward_total:
  assumes l: "wf_layout layout" "list_all wf_group (hl_groups layout)" and u: "uninterrupted env"
  shows "\<exists>out w' journal. after_forward layout env c blocks w = Some (Inr out, w') \<and>
    after_forward layout (logged env) c blocks (w, []) = Some (Inr out, w', journal) \<and> store_account layout c blocks journal out"
proof (cases "tm_store_eligible (pf_metadata (fc_pre_forward c))")
  case False
  then have "store_outcome c NOT_ELIGIBLE None (eligible_store_tokens (pf_metadata (fc_pre_forward c))) =
      Inr (store_result c NOT_ELIGIBLE None 0)" by (intro store_outcome_eq) simp_all
  then show ?thesis using False by (simp add: after_forward_def store_account_def)
next
  case True
  have r: "store_outcome c FULL_PREFILL_FALLBACK (Some STORE_PLAN_REJECTED) (eligible_store_tokens (pf_metadata (fc_pre_forward c))) =
      Inr (store_result c FULL_PREFILL_FALLBACK (Some STORE_PLAN_REJECTED) 0)" by (rule store_outcome_eq) simp_all
  show ?thesis using l
  proof (cases rule: build_store_plan_cases [where blocks = blocks and m = "pf_metadata (fc_pre_forward c)"])
    case (rejected e)
    then show ?thesis using plan_rejection_cases [OF rejected(2)] True r
      by (auto simp: after_forward_def store_account_def)
  next
    case (planned p)
    obtain r w' journal where j: "case r of Inr out \<Rightarrow> store_explained p c journal out | Inl e \<Rightarrow> False"
      "run_store env p c (eligible_store_tokens (pf_metadata (fc_pre_forward c))) w = (r, w')"
      "run_store (logged env) p c (eligible_store_tokens (pf_metadata (fc_pre_forward c))) (w, []) = (r, w', [] @ journal)"
      using run_store_journaled [OF u planned(2) refl True, unfolded journaled_def, rule_format, of w "[]"] by blast
    then show ?thesis using planned True by (cases r) (simp_all add: after_forward_def store_account_def)
  qed
qed

section \<open>Receipts\<close>

text \<open>Every constructed outcome is one of the two forms: all candidates loaded, or none.\<close>

lemma PreForwardOutcome_init_result:
  assumes "PreForwardOutcome_init m state code loaded rejected kv recompute ext avoided latency = Inr out"
  shows "out = load_result m state code latency"
proof -
  let ?all = "[0..int (length (tm_verified_candidates m)) - 1]"
  have i: "\<forall>v\<in>set [kv, recompute, ext, avoided]. is_plain_int v" and n: "the_int recompute = prompt_token_count m" "the_int ext = 0"
    "the_int avoided = 0" and o: "out = \<lparr>pf_metadata = m, pf_state = state, pf_failure_code = code,
                    pf_loaded_candidate_indexes = map the_int loaded, pf_rejected_candidate_indexes = map the_int rejected,
                    pf_loaded_kv_tokens = the_int kv, pf_tokens_to_recompute = the_int recompute,
                    pf_external_scheduler_tokens = the_int ext, pf_prefill_tokens_avoided = the_int avoided,
                    pf_position_correction_latency_seconds = latency\<rparr>"
    and s: "if state = SUCCEEDED then map the_int loaded = ?all \<and> rejected = [] \<and>
        the_int kv = sum_list (map (\<lambda>index. range_len (lc_target_range (vc_candidate (tm_verified_candidates m ! nat (the_int index))))) loaded)
      else loaded = [] \<and> map the_int rejected = ?all \<and> the_int kv = 0"
    using assms unfolding PreForwardOutcome_init_def Let_def FULL_RECOMPUTE_EXTERNAL_TOKENS_def
    by (auto split: if_splits sum.splits bool.splits)
  let ?f = "\<lambda>v. range_len (lc_target_range (vc_candidate v))"
  have "map (\<lambda>index. ?f (tm_verified_candidates m ! nat (the_int index))) loaded = map ?f (tm_verified_candidates m)"
    if "map the_int loaded = ?all"
  proof -
    have "map (\<lambda>index. ?f (tm_verified_candidates m ! nat (the_int index))) loaded =
        map (\<lambda>k. ?f (tm_verified_candidates m ! nat k)) (map the_int loaded)" by simp
    also have "\<dots> = map ?f (tm_verified_candidates m)" unfolding that by (rule map_nth_upto)
    finally show ?thesis .
  qed
  then show ?thesis using s n o by (cases "state = SUCCEEDED") (simp_all add: load_result_def Let_def)
qed

lemma load_receipt_eq:
  assumes "al_request_id (hm_allocation (tm_handoff m)) = tm_request_id m"
  shows "to_worker_validation_receipt (load_result m state code latency) =
    Inr \<lparr>wr_request_id = tm_request_id m, wr_allocation = hm_allocation (tm_handoff m),
      wr_loaded = pf_loaded_candidate_indexes (load_result m state code latency),
      wr_rejected = pf_rejected_candidate_indexes (load_result m state code latency)\<rparr>"
proof -
  let ?o = "load_result m state code latency"
  let ?l = "pf_loaded_candidate_indexes ?o" and ?r = "pf_rejected_candidate_indexes ?o"
  have "distinct (?l @ ?r)" "\<forall>k\<in>set (?l @ ?r). 0 \<le> k" "sort ?l = ?l" "sort ?r = ?r" "pf_metadata ?o = m"
    by (simp_all add: load_result_def Let_def)
  then show ?thesis using WorkerValidationReceipt_init_ints [of ?l ?r "hm_allocation (tm_handoff m)"] assms
    by (simp add: to_worker_validation_receipt_def)
qed

lemma load_receipt_applied:
  assumes s: "wf_lifecycle s" "ls_phase s = HANDED_OFF" "ls_handoff s = Some (tm_handoff m)" and m: "wf_transfer_metadata m"
    and out_def: "out = load_result m state code latency"
  obtains receipt where "to_worker_validation_receipt out = Inr receipt" "wr_request_id receipt = rp_request_id (ls_plan s)"
    "state_apply_worker_validation s receipt = Inr (s\<lparr>ls_phase := WORKER_VALIDATED, ls_worker := Some receipt\<rparr>)"
    "wr_loaded receipt = pf_loaded_candidate_indexes out"
proof -
  let ?h = "tm_handoff m"
  have h: "hm_plan ?h = ls_plan s" "ls_allocation s = Some (hm_allocation ?h)" "wf_handoff ?h"
    "al_generation (hm_allocation ?h) = ls_generation s" "phase_consistent s"
    using s by (auto simp: wf_lifecycle_def phase_consistent_def)
  then have i: "al_request_id (hm_allocation ?h) = tm_request_id m" "tm_request_id m = rp_request_id (ls_plan s)"
    by (simp_all add: wf_handoff_def tm_request_id_def)
  let ?w = "\<lparr>wr_request_id = tm_request_id m, wr_allocation = hm_allocation ?h,
      wr_loaded = pf_loaded_candidate_indexes out, wr_rejected = pf_rejected_candidate_indexes out\<rparr>"
  have n: "length (matches (rp_match_plan (ls_plan s))) = length (tm_verified_candidates m)"
    using m h(1) by (simp add: wf_transfer_metadata_def)
  have "set [0..int k - 1] = set (map int [0..<k])" for k
    by (auto simp: image_iff) (metis atLeastLessThan_iff nat_0_le nat_less_iff zero_le)
  then have c: "set (wr_loaded ?w) \<union> set (wr_rejected ?w) = set (map int [0..<length (matches (rp_match_plan (ls_plan s)))])"
    unfolding n by (simp add: out_def load_result_def Let_def)
  have "state_apply_worker_validation s ?w = Inr (s\<lparr>ls_phase := WORKER_VALIDATED, ls_worker := Some ?w\<rparr>)"
    using h i c s(2) by (auto simp: state_apply_worker_validation_def init_simps phase_consistent_def)
  then show thesis using that [of ?w] load_receipt_eq [OF i(1), of state code latency] i(2) by (simp add: out_def)
qed

lemma concat_prompt_chunks: "concat (map (\<lambda>k. take c (drop (k * c) xs)) [0..<n]) = take (n * c) xs"
proof (induction n)
  case (Suc n)
  then show ?case using take_add [of "n * c" c xs] by (simp add: add.commute)
qed simp

lemma published_tokens:
  assumes "published_exact m rs"
  shows "concat (map rec_token_ids rs) = take (256 * (length (tm_prompt_token_ids m) div 256)) (tm_prompt_token_ids m)"
proof -
  let ?p = "tm_prompt_token_ids m"
  let ?n = "length ?p div 256"
  have n: "prompt_token_count m div LMCACHE_CHUNK_SIZE = int ?n"
    by (simp add: prompt_token_count_def LMCACHE_CHUNK_SIZE_def zdiv_int)
  have "map rec_token_ids rs = map (\<lambda>k. prompt_slice ?p (chunk_range k)) [0..int ?n - 1]"
    using assms unfolding published_exact_def n exact_chunk_record_def
    by (auto simp: list_all2_conv_all_nth intro!: nth_equalityI)
  also have "\<dots> = map (\<lambda>k. take 256 (drop (k * 256) ?p)) [0..<?n]"
    by (rule nth_equalityI) (auto simp: prompt_slice_def chunk_range_def LMCACHE_CHUNK_SIZE_def nat_add_distrib nat_mult_distrib)
  finally show ?thesis using concat_prompt_chunks [of 256 ?p ?n] by (simp add: mult.commute)
qed

lemma lookup_accepted_by_worker:
  assumes "valid_metadata md" "exact_verified ns (md_prompt_token_ids md) (lp_verified (md_lookup_plan md))"
    "int (length (md_prompt_token_ids md)) \<le> GPT_OSS_MAX_CONTEXT_TOKENS"
    "RequestHandoffMetadata_init METADATA_SCHEMA_VERSION (md_request_plan md) a = Inr h"
  shows "\<exists>m. SchedulerTransferMetadata_init ns (map PInt (md_prompt_token_ids md)) (lp_verified (md_lookup_plan md)) h (PInt 0)
      (PInt (int (length (md_prompt_token_ids md)))) (should_transfer md)
      (LMCACHE_CHUNK_SIZE \<le> int (length (md_prompt_token_ids md))) = Inr m \<and> tm_handoff m = h"
proof -
  let ?m = "\<lparr>tm_cache_namespace = ns, tm_prompt_token_ids = md_prompt_token_ids md,
    tm_verified_candidates = lp_verified (md_lookup_plan md), tm_handoff = h, tm_num_computed_tokens_before_step = 0,
    tm_scheduled_token_count = int (length (md_prompt_token_ids md)), tm_transfer_eligible = should_transfer md,
    tm_store_eligible = (LMCACHE_CHUNK_SIZE \<le> int (length (md_prompt_token_ids md)))\<rparr>"
  have h: "hm_plan h = md_request_plan md" "al_external_scheduler_tokens (hm_allocation h) = 0"
    using assms(4) by (auto simp: RequestHandoffMetadata_init_def plan_external_scheduler_tokens_def
        FULL_RECOMPUTE_EXTERNAL_TOKENS_def split: if_splits)
  have "list_all (worker_accepts ns (md_prompt_token_ids md)) (lp_verified (md_lookup_plan md))"
    using assms(2) by (auto simp: exact_verified_def exact_candidate_def exact_match_def worker_accepts_def Let_def list_all_iff)
  then have "wf_transfer_metadata ?m"
    using assms(1,2,3) h
    by (simp add: wf_transfer_metadata_def valid_metadata_def exact_verified_def should_transfer_def prompt_token_count_def)
  then show ?thesis by (intro exI [of _ ?m]) (simp add: SchedulerTransferMetadata_init_Inr)
qed

lemma store_account_stages:
  assumes "store_account layout c blocks journal out"
  defines "m \<equiv> pf_metadata (fc_pre_forward c)"
  shows "po_prefill_tokens_avoided out = 0 \<and> (\<forall>rs. PublishRecords rs \<in> set journal \<longrightarrow> published_exact m rs) \<and>
    (po_state out = SUCCEEDED \<longrightarrow> (\<exists>rs. PublishRecords rs \<in> set journal \<and> po_stored_chunks out = int (length rs)))"
proof (cases "\<exists>p. build_store_plan layout m blocks = Some (Inr p) \<and> tm_store_eligible m")
  case True
  then obtain p where p: "build_store_plan layout m blocks = Some (Inr p)" "tm_store_eligible m" by blast
  then have x: "store_plan_exact layout m blocks p" "store_explained p c journal out"
    using assms by (simp_all add: store_account_def)
  have pm: "wp_metadata p = m" using x(1) by (simp add: store_plan_exact_def)
  obtain rs where rs: "journal = take (length journal) (store_calls p rs)" "length journal = 5 \<longrightarrow> published_exact m rs"
    and v: "(po_state out, po_failure_code out) \<in> store_verdicts (length journal)"
    and o: "out = store_result c (po_state out) (po_failure_code out) (po_sidecar_records_inserted out)"
    using x(2) pm by (auto simp: store_explained_def)
  have five: "length journal = 5" if "PublishRecords rs' \<in> set journal \<or> po_state out = SUCCEEDED" for rs'
  proof -
    have "length journal \<le> 5" using arg_cong [OF rs(1), of length] by (simp add: store_calls_def)
    moreover have "PublishRecords rs' \<notin> set (take k (store_calls p rs))" if "k < 5" for k
      using that by (auto simp: store_calls_def less_Suc_eq numeral_eq_Suc)
    ultimately have "length journal < 5 \<Longrightarrow> PublishRecords rs' \<notin> set journal" using rs(1) by metis
    moreover have "length journal < 5 \<Longrightarrow> po_state out \<noteq> SUCCEEDED" using v by (auto simp: store_verdicts_def)
    ultimately show ?thesis using that \<open>length journal \<le> 5\<close> by linarith
  qed
  then have j: "journal = store_calls p rs" "published_exact m rs"
    if "PublishRecords rs' \<in> set journal \<or> po_state out = SUCCEEDED" for rs'
    using that rs by (auto simp: store_calls_def)
  have len: "int (length rs) = prompt_token_count m div LMCACHE_CHUNK_SIZE" if "published_exact m rs"
    using list_all2_lengthD [OF that [unfolded published_exact_def]]
    by (simp add: prompt_token_count_def LMCACHE_CHUNK_SIZE_def)
  have "po_prefill_tokens_avoided out = 0" by (subst o) (simp add: store_result_def Let_def)
  moreover have "po_stored_chunks out = prompt_token_count m div LMCACHE_CHUNK_SIZE" if "po_state out = SUCCEEDED"
    by (subst o) (use that p(2) eligible_store_tokens_facts(2) [of m] in \<open>simp add: store_result_def Let_def m_def\<close>)
  moreover have "published_exact m rs'" if "PublishRecords rs' \<in> set journal" for rs'
  proof -
    have "PublishRecords rs' \<in> set (store_calls p rs)" using j(1) [of rs'] that by simp
    then have "rs' = rs" by (simp add: store_calls_def)
    then show ?thesis using j(2) [of rs'] that by simp
  qed
  moreover have "PublishRecords rs \<in> set journal \<and> int (length rs) = prompt_token_count m div LMCACHE_CHUNK_SIZE"
    if "po_state out = SUCCEEDED" using j that len by (simp add: store_calls_def)
  ultimately show ?thesis by metis
next
  case False
  then show ?thesis using assms by (auto simp: store_account_def store_result_def Let_def split: option.splits sum.splits if_splits)
qed

section \<open>A concrete transfer\<close>

definition example_chunk_prompt :: "int list" where
  "example_chunk_prompt = replicate 256 7"

definition example_transfer_candidate :: VerifiedLmcacheCandidate where
  "example_transfer_candidate =
     (let t = \<lparr>token_range = \<lparr>tr_start = 0, tr_end = 256\<rparr>, token_ids = example_chunk_prompt\<rparr>;
          f = SHA256_FINGERPRINTER example_namespace example_chunk_prompt; hash = replicate 32 (0 :: byte) in
      \<lparr>vc_candidate = \<lparr>lc_source_relative_range = \<lparr>tr_start = 0, tr_end = 256\<rparr>, lc_target_range = \<lparr>tr_start = 0, tr_end = 256\<rparr>,
         lc_storage_hash = hash, lc_storage_model_name = ''m'',
         lc_query_digest = sha256 (query_preimage example_chunk_prompt)\<rparr>,
       vc_match = \<lparr>vm_candidate = \<lparr>target_segment = t, query_fingerprint = f,
         cm_record = \<lparr>rec_namespace = example_namespace, rec_fingerprint = f, rec_token_ids = example_chunk_prompt,
           source_range = \<lparr>tr_start = 512, tr_end = 768\<rparr>, cache_key = LMCACHE_CACHE_KEY_PREFIX @ hex hash\<rparr>\<rparr>\<rparr>\<rparr>)"

definition example_transfer_plan :: RequestPlan where
  "example_transfer_plan = \<lparr>rp_request_id = ''r'', rp_prompt_tokens = 256,
     rp_query_segments = [vm_target (vc_match example_transfer_candidate)],
     rp_match_plan = \<lparr>matches = [vc_match example_transfer_candidate], rejected_candidates = [], requested_tokens = 256\<rparr>\<rparr>"

definition example_transfer_metadata :: SchedulerTransferMetadata where
  "example_transfer_metadata = \<lparr>tm_cache_namespace = example_namespace, tm_prompt_token_ids = example_chunk_prompt,
     tm_verified_candidates = [example_transfer_candidate],
     tm_handoff = the (ls_handoff (handed_off_state example_transfer_plan example_allocation)),
     tm_num_computed_tokens_before_step = 0, tm_scheduled_token_count = 256, tm_transfer_eligible = True,
     tm_store_eligible = True\<rparr>"

lemma example_transfer_init:
  "SchedulerTransferMetadata_init example_namespace (map PInt example_chunk_prompt) [example_transfer_candidate]
     (the (ls_handoff (handed_off_state example_transfer_plan example_allocation))) (PInt 0) (PInt 256) True True =
   Inr example_transfer_metadata"
proof -
  have "wf_tokens example_chunk_prompt" "length example_chunk_prompt = 256" "example_chunk_prompt \<noteq> []"
    by (simp_all add: example_chunk_prompt_def wf_tokens_def MAX_TOKEN_ID_def)
  moreover from this have "prompt_slice example_chunk_prompt \<lparr>tr_start = 0, tr_end = 256\<rparr> = example_chunk_prompt"
    by (simp add: prompt_slice_def)
  ultimately show ?thesis
    by (simp add: SchedulerTransferMetadata_init_Inr example_transfer_metadata_def wf_transfer_metadata_def
        prompt_token_count_def worker_accepts_def example_transfer_candidate_def Let_def range_len_def
        LMCACHE_CHUNK_SIZE_def GPT_OSS_MAX_CONTEXT_TOKENS_def lc_cache_key_def handed_off_state_def allocated_state_def
        looked_up_state_def example_transfer_plan_def)
qed

lemma example_transfer_ranges: "constructed_ranges example_transfer_metadata"
  by (simp add: constructed_ranges_def example_transfer_metadata_def example_transfer_candidate_def Let_def wf_range_def)

lemma example_transfer_reachable:
  "cp_reachable example_layout (example_cp (handed_off_state example_transfer_plan example_allocation))"
proof -
  let ?p = example_transfer_plan and ?q = "[vm_target (vc_match example_transfer_candidate)]" and ?mp = "rp_match_plan example_transfer_plan"
  have wf: "wf_segment (vm_target (vc_match example_transfer_candidate))"
    by (simp add: example_transfer_candidate_def Let_def wf_segment_def wf_range_def wf_tokens_def range_len_def
        example_chunk_prompt_def MAX_TOKEN_ID_def)
  have "RequestPlan_init ''r'' 256 ?q ?mp = Inr ?p"
    using sequential_plan_accepted [of "[vc_match example_transfer_candidate]" 256 "''r''"] wf
    by (simp add: example_transfer_plan_def) (simp add: example_transfer_candidate_def Let_def segment_len_def example_chunk_prompt_def)
  then have "cp_lookup (RequestControlPlane_init example_layout) ''r'' 256 ?q ?mp = Inr (example_cp (looked_up_state ?p), looked_up_state ?p)"
    by (simp add: cp_lookup_def RequestControlPlane_init_def RequestLifecycleState_init_def looked_up_state_def)
  then have "cp_reachable example_layout (example_cp (looked_up_state ?p))"
    using wf by (intro cp_reachable.step [OF cp_reachable.start cp_step.lookup]) auto
  moreover have i: "rp_request_id ?p = ''r''" by (simp add: example_transfer_plan_def)
  then have "cp_allocate (example_cp (looked_up_state ?p)) ''r'' example_blocks (PInt 0) =
      Inr (example_cp (allocated_state ?p example_allocation), allocated_state ?p example_allocation)"
    by (subst cp_allocate_looked_up [where p = ?p and g = example_allocation]) (simp_all add: example_capture)
  moreover have "cp_handoff (example_cp (allocated_state ?p example_allocation)) ''r'' =
      Inr (example_cp (handed_off_state ?p example_allocation), the (ls_handoff (handed_off_state ?p example_allocation)))"
    using i by (subst cp_handoff_allocated [where p = ?p and g = example_allocation]) simp_all
  ultimately show ?thesis using cp_reachable.step cp_step.allocate cp_step.handoff by blast
qed

text \<open>Collaborators that refuse every preflight: a complete environment in which nothing is interrupted.\<close>

definition example_worker :: "unit WorkerEnvironment" where
  "example_worker =
     \<lparr>we_preflight_retrieve = (\<lambda>_ w. (Inl WorkerException, w)), we_retrieve_verified = (\<lambda>_ w. (Inr None, w)),
      we_preflight_store = (\<lambda>_ w. (Inr (), w)), we_store_precomputed = (\<lambda>_ w. (Inr None, w)),
      we_publish_sidecar_records = (\<lambda>_ w. (Inr (PInt 0), w)), we_preflight_scatter = (\<lambda>_ w. (Inr (), w)),
      we_scatter_retrieved = (\<lambda>_ w. (Inr (), w)), we_preflight_gather = (\<lambda>_ w. (Inr (), w)),
      we_gather_recomputed = (\<lambda>_ w. (Inr (), w)), we_position_correction_latency = (\<lambda>w. (Inr None, w))\<rparr>"

lemma example_worker_ok: "uninterrupted example_worker" "readable_latency example_worker"
  by (simp_all add: uninterrupted_def readable_latency_def example_worker_def)

lemma derive_loaded:
  "derive_metric_counters s = Inr c \<Longrightarrow> ls_worker s = Some w \<Longrightarrow>
   mc_kv_tokens_loaded c = PInt (sum_list (map (\<lambda>i. segment_len (vm_target (matches (rp_match_plan (ls_plan s)) ! nat i))) (wr_loaded w)))"
  by (auto simp: derive_metric_counters_def Let_def int_counters_def split: if_splits bool.splits)

lemma load_result_tokens:
  assumes m: "wf_transfer_metadata m" and p: "wf_request_plan (hm_plan (tm_handoff m))"
  shows "sum_list (map (\<lambda>i. segment_len (vm_target (matches (rp_match_plan (hm_plan (tm_handoff m))) ! nat i)))
      (pf_loaded_candidate_indexes (load_result m state code latency))) = pf_loaded_kv_tokens (load_result m state code latency)"
proof -
  let ?vs = "tm_verified_candidates m" and ?ms = "matches (rp_match_plan (hm_plan (tm_handoff m)))"
  have ms: "?ms = map vc_match ?vs" using m by (simp add: wf_transfer_metadata_def)
  have len: "segment_len (vm_target (vc_match v)) = range_len (lc_target_range (vc_candidate v))" if v: "v \<in> set ?vs" for v
  proof -
    have "vc_match v \<in> set ?ms" using v ms by simp
    then have "wf_segment (vm_target (vc_match v))" using p by (auto simp: wf_request_plan_def)
    moreover have "token_range (vm_target (vc_match v)) = lc_target_range (vc_candidate v)"
      using m v by (auto simp: wf_transfer_metadata_def worker_accepts_def Let_def list_all_iff)
    ultimately show ?thesis by (simp add: wf_segment_def segment_len_def)
  qed
  have "map (\<lambda>i. segment_len (vm_target (?ms ! nat i))) [0..int (length ?vs) - 1] =
      map (\<lambda>v. range_len (lc_target_range (vc_candidate v))) ?vs"
    using map_nth_upto [of "\<lambda>m. segment_len (vm_target m)" ?ms] len by (simp add: ms)
  then show ?thesis by (simp add: load_result_def Let_def)
qed

text \<open>
  An integer latency beyond the range of a double is not ignored like other unusable values: reading it
  raises, after the KV was scattered.
\<close>

lemma huge_latency_raises:
  assumes "we_position_correction_latency env w = (Inr (Some (PInt n)), w')" "2 ^ 1024 - 2 ^ 970 \<le> n"
  shows "load_succeeded env work m w = (Inl (BuiltinRaise OverflowError), w')"
  using assms(1) py_float_huge [OF assms(2)]
  by (simp add: load_succeeded_def read_position_correction_latency_def finite_nonnegative_def)

section \<open>Properties\<close>

text \<open>
  C19. Scheduler to worker: whatever a scheduler lookup returned for a prompt, the metadata the connector
  then builds for the worker from it, from its handoff and from a complete prefill step is accepted;
  no candidate the scheduler verified is refused on the worker's side.
\<close>

theorem worker_accepts_lookup:
  assumes "scheduler_reachable env (rt, w)" "coordinated env sidecar" "wf_request r"
    "scheduler_lookup env r rt w = (Inr md, rt', w')"
    "RequestHandoffMetadata_init METADATA_SCHEMA_VERSION (md_request_plan md) a = Inr h"
  shows "\<exists>m. SchedulerTransferMetadata_init (sc_namespace (sl_config rt)) (map PInt (rq_prompt_token_ids r))
      (lp_verified (md_lookup_plan md)) h (PInt 0) (PInt (int (length (rq_prompt_token_ids r)))) (should_transfer md)
      (LMCACHE_CHUNK_SIZE \<le> int (length (rq_prompt_token_ids r))) = Inr m \<and> tm_handoff m = h"
proof -
  have inv: "scheduler_inv rt" "scheduler_sound rt"
    using scheduler_reachable_inv [OF assms(1)] scheduler_reachable_sound [OF assms(1,2)] by simp_all
  have v: "valid_metadata md" "md_prompt_token_ids md = rq_prompt_token_ids r"
    using scheduler_lookup_valid [OF assms(4) inv(1) assms(3)] by blast+
  have "exact_verified (sc_namespace (sl_config rt)) (rq_prompt_token_ids r) (lp_verified (md_lookup_plan md))"
    using scheduler_lookup_sound [OF assms(4) inv assms(3,2)] by auto
  moreover have "int (length (rq_prompt_token_ids r)) \<le> GPT_OSS_MAX_CONTEXT_TOKENS" using assms(3) by (simp add: wf_request_def)
  ultimately show ?thesis using lookup_accepted_by_worker [OF v(1) _ _ assms(5)] unfolding v(2) by blast
qed

theorem worker_accepts_lookup_witness:
  "\<exists>md rt' h m. scheduler_lookup example_env example_lookup_request example_runtime () = (Inr md, rt', ()) \<and>
     SchedulerTransferMetadata_init (sc_namespace (sl_config example_runtime)) (map PInt (rq_prompt_token_ids example_lookup_request))
       (lp_verified (md_lookup_plan md)) h (PInt 0) (PInt (int (length (rq_prompt_token_ids example_lookup_request))))
       (should_transfer md) (LMCACHE_CHUNK_SIZE \<le> int (length (rq_prompt_token_ids example_lookup_request))) = Inr m"
proof -
  obtain md rt' where md: "scheduler_lookup example_env example_lookup_request example_runtime () = (Inr md, rt', ())"
    using example_scheduler_lookup by blast
  let ?a = "\<lparr>al_request_id = rp_request_id (md_request_plan md), al_generation = 0, al_grouped_blocks = example_allocation,
    al_external_scheduler_tokens = 0\<rparr>"
  obtain h where "RequestHandoffMetadata_init METADATA_SCHEMA_VERSION (md_request_plan md) ?a = Inr h"
    by (simp add: RequestHandoffMetadata_init_def plan_external_scheduler_tokens_def FULL_RECOMPUTE_EXTERNAL_TOKENS_def)
  from worker_accepts_lookup [OF example_runtime_reachable example_coordinated wf_example_lookup_request md this] md
  show ?thesis by blast
qed

text \<open>
  C20. Loading never changes what is computed.  For every constructed metadata and whatever the storage
  and the data plane answer, raise or interrupt, the call ends, and the calls it made are a nonempty
  prefix of preflight retrieve, preflight scatter, retrieve, scatter and telemetry (none, when the plan
  is rejected or the request is not eligible), on a plan whose writes are the reference writes of every
  candidate; the scatter is only called for a plan whose retrieve gave the expected numbers of tokens and
  chunks.  If it returns, its outcome recomputes the whole prompt and credits nothing; all five calls
  are made exactly when the load succeeded, and otherwise the failure code names the call that stopped
  it.  It raises only when one of the first four calls was interrupted, and then passes the interrupt on
  after that call, or after all five when the latency could not be read; so when nothing is interrupted
  and the latency is readable, it always returns.
\<close>

theorem load_is_accounted:
  assumes "GptOssHybridCacheLayout_init groups = Inr layout" "list_all wf_group groups"
    "SchedulerTransferMetadata_init ns ps vs h computed scheduled te se = Inr m" "constructed_ranges m"
  shows "\<exists>r w' journal. before_forward layout env m blocks w = Some (r, w') \<and>
    before_forward layout (logged env) m blocks (w, []) = Some (r, w', journal) \<and>
    (case r of
       Inr out \<Rightarrow> load_account layout m blocks journal out \<and> pf_tokens_to_recompute out = int (length ps) \<and>
         pf_external_scheduler_tokens out = 0 \<and> pf_prefill_tokens_avoided out = 0 \<and>
         (pf_state out = SUCCEEDED \<longleftrightarrow> length journal = 5)
     | Inl e \<Rightarrow> load_exception layout env m blocks journal e) \<and>
    validly_retrieved env journal \<and>
    (uninterrupted env \<and> readable_latency env \<longrightarrow> (\<exists>out. r = Inr out))"
proof -
  note wf = GptOssHybridCacheLayout_init_wf [OF assms(1)]
  have ps: "ps = map PInt (tm_prompt_token_ids m)" using assms(3) by (simp add: SchedulerTransferMetadata_init_Inr)
  obtain r w' journal where o: "before_forward layout env m blocks w = Some (r, w')"
    "before_forward layout (logged env) m blocks (w, []) = Some (r, w', journal)"
    and a: "case r of Inr out \<Rightarrow> load_account layout m blocks journal out | Inl e \<Rightarrow> load_exception layout env m blocks journal e"
    and v: "validly_retrieved env journal"
    using before_forward_accounted [of layout m env blocks w] wf assms(2,4) by auto
  have "case r of
       Inr out \<Rightarrow> load_account layout m blocks journal out \<and> pf_tokens_to_recompute out = int (length ps) \<and>
         pf_external_scheduler_tokens out = 0 \<and> pf_prefill_tokens_avoided out = 0 \<and>
         (pf_state out = SUCCEEDED \<longleftrightarrow> length journal = 5)
     | Inl e \<Rightarrow> load_exception layout env m blocks journal e"
    using a load_account_outcome ps by (cases r) (auto simp: prompt_token_count_def)
  moreover have "\<exists>out. r = Inr out" if "uninterrupted env \<and> readable_latency env"
    using a that by (cases r) (auto simp: load_exception_def load_abandoned_def split: if_splits)
  ultimately show ?thesis using o v by blast
qed

theorem load_is_accounted_witness:
  "\<exists>layout out journal. before_forward layout (logged example_worker) example_transfer_metadata
      \<lparr>ab_grouped_allocation = example_allocation, ab_group_block_tables = example_tables\<rparr> ((), []) = Some (Inr out, (), journal) \<and>
     pf_tokens_to_recompute out = 256"
proof -
  obtain layout where l: "GptOssHybridCacheLayout_init example_groups = Inr layout" using example_layout_exists by blast
  from load_is_accounted [OF l example_groups_wf example_transfer_init example_transfer_ranges,
      of example_worker "\<lparr>ab_grouped_allocation = example_allocation, ab_group_block_tables = example_tables\<rparr>" "()"]
    example_worker_ok
  show ?thesis by (fastforce simp: example_chunk_prompt_def)
qed

text \<open>
  C21. Only the prompt is published: whatever the collaborators answer or raise, short of an interrupt
  outside the exceptions the worker catches, the call after the forward pass
  returns an outcome that credits nothing, and if it publishes records at all, it does so once, after
  gathering and storing, with one record per complete chunk that carries the configured namespace,
  the chunk's position, tokens and fingerprint and a storage key; together the published tokens are
  exactly the complete chunks of the prompt.  A success means that this publication was made.
\<close>

theorem publication_is_exact:
  assumes "GptOssHybridCacheLayout_init groups = Inr layout" "list_all wf_group groups" "uninterrupted env"
    "FullPrefillCompletion_init pre recomputed = Inr c"
  shows "\<exists>out w' journal. after_forward layout env c blocks w = Some (Inr out, w') \<and>
    after_forward layout (logged env) c blocks (w, []) = Some (Inr out, w', journal) \<and>
    store_account layout c blocks journal out \<and> po_prefill_tokens_avoided out = 0 \<and>
    (\<forall>rs. PublishRecords rs \<in> set journal \<longrightarrow> published_exact (pf_metadata pre) rs \<and>
       concat (map rec_token_ids rs) =
         take (256 * (length (tm_prompt_token_ids (pf_metadata pre)) div 256)) (tm_prompt_token_ids (pf_metadata pre))) \<and>
    (po_state out = SUCCEEDED \<longrightarrow> (\<exists>rs. PublishRecords rs \<in> set journal \<and> po_stored_chunks out = int (length rs)))"
proof -
  note wf = GptOssHybridCacheLayout_init_wf [OF assms(1)]
  have pre: "fc_pre_forward c = pre" using assms(4) by (auto simp: FullPrefillCompletion_init_def split: if_splits)
  obtain out w' journal where o: "after_forward layout env c blocks w = Some (Inr out, w')"
    "after_forward layout (logged env) c blocks (w, []) = Some (Inr out, w', journal)" and a: "store_account layout c blocks journal out"
    using after_forward_total [of layout env c blocks w] wf assms(2,3) by auto
  note s = store_account_stages [OF a, unfolded pre]
  then show ?thesis using o a published_tokens by blast
qed

theorem publication_is_exact_witness:
  "\<exists>layout c out journal. FullPrefillCompletion_init (load_result example_transfer_metadata NOT_ELIGIBLE None zero_seconds) (PInt 256) = Inr c \<and>
     after_forward layout (logged example_worker) c
       \<lparr>ab_grouped_allocation = example_allocation, ab_group_block_tables = example_tables\<rparr> ((), []) = Some (Inr out, (), journal) \<and>
     po_prefill_tokens_avoided out = 0"
proof -
  obtain layout where l: "GptOssHybridCacheLayout_init example_groups = Inr layout" using example_layout_exists by blast
  have "\<exists>c. FullPrefillCompletion_init (load_result example_transfer_metadata NOT_ELIGIBLE None zero_seconds) (PInt 256) = Inr c"
    by (simp add: FullPrefillCompletion_init_def load_result_def Let_def prompt_token_count_def
        example_transfer_metadata_def example_chunk_prompt_def)
  then obtain c where c: "FullPrefillCompletion_init (load_result example_transfer_metadata NOT_ELIGIBLE None zero_seconds) (PInt 256) = Inr c" ..
  from publication_is_exact [OF l example_groups_wf example_worker_ok(1) c,
      of "\<lparr>ab_grouped_allocation = example_allocation, ab_group_block_tables = example_tables\<rparr>" "()"]
  obtain out w' journal where "after_forward layout (logged example_worker) c
       \<lparr>ab_grouped_allocation = example_allocation, ab_group_block_tables = example_tables\<rparr> ((), []) = Some (Inr out, w', journal)"
     "po_prefill_tokens_avoided out = 0" by blast
  then show ?thesis using c by (cases w') blast
qed

text \<open>
  C22. The worker's report fits the control plane: every outcome the worker can construct for a
  request that is handed off becomes a receipt that the control plane accepts, and the metrics
  derived afterwards repeat the outcome's loaded and recomputed tokens and claim no saved prefill.
\<close>

theorem load_receipt_round_trip:
  assumes "cp_reachable glayout cp" "cp_states cp i = Some s" "ls_phase s = HANDED_OFF" "ls_handoff s = Some h"
    "SchedulerTransferMetadata_init ns ps vs h computed scheduled te se = Inr m"
    "PreForwardOutcome_init m state code loaded rejected kv recompute ext avoided latency = Inr out"
  shows "\<exists>receipt cp' t c. to_worker_validation_receipt out = Inr receipt \<and>
    cp_apply_worker_validation cp receipt = Inr (cp', t) \<and> ls_phase t = WORKER_VALIDATED \<and>
    derive_metric_counters t = Inr c \<and> mc_kv_tokens_loaded c = PInt (pf_loaded_kv_tokens out) \<and>
    mc_tokens_recomputed c = PInt (pf_tokens_to_recompute out) \<and> mc_prefill_tokens_avoided c = PInt 0"
proof -
  have m: "wf_transfer_metadata m" "tm_handoff m = h" using assms(5) by (simp_all add: SchedulerTransferMetadata_init_Inr)
  note out = PreForwardOutcome_init_result [OF assms(6)]
  have s: "wf_lifecycle s" "rp_request_id (ls_plan s) = i"
    using cp_reachable_inv [OF assms(1)] assms(2) by (auto simp: cp_inv_def)
  then have h: "hm_plan h = ls_plan s" "wf_request_plan (ls_plan s)"
    using assms(3,4) by (auto simp: wf_lifecycle_def phase_consistent_def)
  obtain receipt where r: "to_worker_validation_receipt out = Inr receipt" "wr_request_id receipt = rp_request_id (ls_plan s)"
    "state_apply_worker_validation s receipt = Inr (s\<lparr>ls_phase := WORKER_VALIDATED, ls_worker := Some receipt\<rparr>)"
    "wr_loaded receipt = pf_loaded_candidate_indexes out"
    using load_receipt_applied [OF s(1) assms(3) _ m(1) out] assms(4) m(2) by auto
  let ?t = "s\<lparr>ls_phase := WORKER_VALIDATED, ls_worker := Some receipt\<rparr>"
  have app: "cp_apply_worker_validation cp receipt = Inr (store_state cp i ?t, ?t)"
    using assms(2) s r by (simp add: cp_apply_worker_validation_def require_state_def)
  have "wf_receipt receipt" using r(1) WorkerValidationReceipt_init_Inr unfolding to_worker_validation_receipt_def by blast
  then have "cp_inv (store_state cp i ?t)"
    using cp_step_inv [OF cp_step.apply_receipt [OF _ app]] cp_reachable_inv [OF assms(1)] by blast
  then have "wf_lifecycle ?t" using cp_inv_stored by blast
  then obtain c where c: "derive_metric_counters ?t = Inr c"
    "mc_tokens_recomputed c = PInt (rp_prompt_tokens (ls_plan s))" "mc_prefill_tokens_avoided c = PInt 0"
    by (rule derive_metric_counters_ok) (simp_all add: int_counters_def)
  have "mc_kv_tokens_loaded c = PInt (pf_loaded_kv_tokens out)"
    using derive_loaded [OF c(1), of receipt] load_result_tokens [OF m(1)] h m(2) r(4) out by simp
  moreover have "rp_prompt_tokens (ls_plan s) = pf_tokens_to_recompute out"
    using m h(1) unfolding out by (simp add: wf_transfer_metadata_def load_result_def Let_def)
  ultimately show ?thesis using r(1) app c
    by (intro exI [of _ receipt] exI [of _ "store_state cp i ?t"] exI [of _ ?t] exI [of _ c]) simp
qed

theorem load_receipt_round_trip_witness:
  "\<exists>receipt cp' t. to_worker_validation_receipt (load_result example_transfer_metadata SUCCEEDED None zero_seconds) = Inr receipt \<and>
     cp_apply_worker_validation (example_cp (handed_off_state example_transfer_plan example_allocation)) receipt = Inr (cp', t) \<and>
     ls_phase t = WORKER_VALIDATED"
proof -
  have "PreForwardOutcome_init example_transfer_metadata SUCCEEDED None (all_indexes example_transfer_metadata) [] (PInt 256)
      (PInt (prompt_token_count example_transfer_metadata)) (PInt FULL_RECOMPUTE_EXTERNAL_TOKENS) (PInt 0) zero_seconds =
      Inr (load_result example_transfer_metadata SUCCEEDED None zero_seconds)"
    by (rule succeeded_eq) (simp_all add: example_transfer_metadata_def example_transfer_candidate_def Let_def
        range_len_def zero_seconds_def finite_nonnegative_def)
  moreover have "ls_phase (handed_off_state example_transfer_plan example_allocation) = HANDED_OFF"
    "\<exists>h. ls_handoff (handed_off_state example_transfer_plan example_allocation) = Some h"
    by (simp_all add: handed_off_state_def)
  ultimately show ?thesis
    using load_receipt_round_trip [OF example_transfer_reachable _ _ _ example_transfer_init, of "''r''"
        "handed_off_state example_transfer_plan example_allocation"] by fastforce
qed

end
