(* ===== verification/Publication.thy ===== *)
theory Publication
  imports Sidecar TransferRuntime
begin

text \<open>
  The worker's publication and the scheduler's lookup meet in the sidecar: the records of a published
  prompt are a valid batch, and a later prompt that contains one of its chunks gets the chunk's
  candidate verified against them.
\<close>

text \<open>The sidecar as the scheduler's lookup coordinator sees it: one bucket per call, or an exception.\<close>

definition sidecar_of :: "(nat \<Rightarrow> sqlite_fault option) \<Rightarrow> SqliteSidecarIndex \<Rightarrow> sidecar_exn sidecar" where
  "sidecar_of faults idx n f = map_sum id (map Some) (fst (Sidecar.lookup faults n f idx))"

section \<open>Published records are valid\<close>

lemma set_hex: "set (hex d) \<subseteq> set lower_hex"
proof -
  have "hex_digit k \<in> set lower_hex" if "k < 16" for k
    using that unfolding hex_digit_def lower_hex_def [symmetric] by (intro nth_mem) (simp add: lower_hex_def)
  moreover have "unat b div 16 < 16" for b :: byte
  proof -
    have "unat b < 2 ^ LENGTH(8)" by (rule unsigned_less)
    then show ?thesis by (simp add: less_mult_imp_div_less)
  qed
  ultimately show ?thesis by (auto simp: hex_def)
qed

lemma length_hex: "length (hex d) = 2 * length d"
  by (induction d) (simp_all add: hex_def)

lemma storage_key_valid:
  assumes "length d = 32" "key = LMCACHE_CACHE_KEY_PREFIX @ hex d"
  shows "key \<noteq> []" "\<not> has_NUL key" "length key \<le> MAX_CACHE_KEY_BYTES"
proof -
  have "CHR 0x00 \<notin> set (hex d)" using set_hex [of d] by (auto simp: lower_hex_def)
  then show "\<not> has_NUL key" "key \<noteq> []" by (simp_all add: assms(2) has_NUL_def LMCACHE_CACHE_KEY_PREFIX_def)
  show "length key \<le> MAX_CACHE_KEY_BYTES"
    by (simp add: assms length_hex MAX_CACHE_KEY_BYTES_def LMCACHE_CACHE_KEY_PREFIX_def)
qed

lemma chunk_inside:
  assumes "0 \<le> k" "k < prompt_token_count m div LMCACHE_CHUNK_SIZE"
  shows "k * 256 + 256 \<le> prompt_token_count m" "length (prompt_slice (tm_prompt_token_ids m) (chunk_range k)) = 256"
proof -
  have "k + 1 \<le> prompt_token_count m div 256" using assms(2) by (simp add: LMCACHE_CHUNK_SIZE_def)
  then have "(k + 1) * 256 \<le> prompt_token_count m div 256 * 256" by (intro mult_right_mono) simp_all
  then show le: "k * 256 + 256 \<le> prompt_token_count m" by (simp add: algebra_simps)
  have "nat (k * 256 + 256) - nat (k * 256) = 256" using assms(1) by simp
  then show "length (prompt_slice (tm_prompt_token_ids m) (chunk_range k)) = 256"
    using le assms(1) by (simp add: prompt_slice_def chunk_range_def LMCACHE_CHUNK_SIZE_def prompt_token_count_def min_def) linarith
qed

lemma published_record_valid:
  assumes "wf_transfer_metadata m" "bounded_namespace (tm_cache_namespace m)"
    "exact_chunk_record (tm_cache_namespace m) (tm_prompt_token_ids m) k r" "0 \<le> k" "k < prompt_token_count m div LMCACHE_CHUNK_SIZE"
  shows "valid_sidecar_record r" "length (rec_token_ids r) = 256"
proof -
  have r: "rec_namespace r = tm_cache_namespace m" "source_range r = chunk_range k"
    "rec_token_ids r = prompt_slice (tm_prompt_token_ids m) (chunk_range k)"
    "rec_fingerprint r = SHA256_FINGERPRINTER (tm_cache_namespace m) (rec_token_ids r)"
    using assms(3) by (auto simp: exact_chunk_record_def)
  obtain d where d: "length d = 32" "cache_key r = LMCACHE_CACHE_KEY_PREFIX @ hex d" using assms(3) by (auto simp: exact_chunk_record_def)
  note inside = chunk_inside [OF assms(4,5)]
  show len: "length (rec_token_ids r) = 256" using inside(2) by (simp add: r)
  have "wf_tokens (rec_token_ids r)"
    using assms(1) unfolding r(3) by (auto simp: wf_transfer_metadata_def wf_tokens_def prompt_slice_def dest!: in_set_takeD in_set_dropD)
  moreover have "wf_fingerprint (rec_fingerprint r)" by (simp add: r(4) sha_fp.fp_wf)
  moreover have "tr_end (source_range r) \<le> MAX_TOKEN_POSITION"
    using inside(1) assms(1) by (simp add: r(2) chunk_range_def LMCACHE_CHUNK_SIZE_def MAX_TOKEN_POSITION_def wf_transfer_metadata_def
        GPT_OSS_MAX_CONTEXT_TOKENS_def)
  ultimately show "valid_sidecar_record r"
    using assms(2,4) storage_key_valid [OF d] len
    by (simp add: valid_sidecar_record_def r(1,2) chunk_range_def LMCACHE_CHUNK_SIZE_def range_len_def MAX_TOKENS_PER_RECORD_def)
qed

lemma published_batch_valid:
  assumes "wf_transfer_metadata m" "bounded_namespace (tm_cache_namespace m)" "published_exact m rs"
  shows "valid_batch rs"
proof -
  let ?n = "prompt_token_count m div LMCACHE_CHUNK_SIZE"
  have l2: "list_all2 (exact_chunk_record (tm_cache_namespace m) (tm_prompt_token_ids m)) [0..?n - 1] rs"
    using assms(3) by (simp add: published_exact_def)
  have each: "valid_sidecar_record r \<and> length (rec_token_ids r) = 256" if mem: "r \<in> set rs" for r
  proof -
    obtain i where i: "i < length rs" "r = rs ! i" using mem by (auto simp: in_set_conv_nth)
    then have "exact_chunk_record (tm_cache_namespace m) (tm_prompt_token_ids m) ([0..?n - 1] ! i) r" "i < length [0..?n - 1]"
      using l2 by (auto simp: list_all2_conv_all_nth)
    then show ?thesis using published_record_valid [OF assms(1,2), of "int i" r] by (auto simp: nth_upto)
  qed
  have "prompt_token_count m \<le> 131072" "0 \<le> prompt_token_count m"
    using assms(1) by (simp_all add: wf_transfer_metadata_def GPT_OSS_MAX_CONTEXT_TOKENS_def prompt_token_count_def)
  then have "?n \<le> 512" "0 \<le> ?n" by (simp_all add: LMCACHE_CHUNK_SIZE_def)
  moreover have "length rs = nat ?n" using list_all2_lengthD [OF l2] by simp
  ultimately have len: "length rs \<le> 512" by simp
  have "sum_list (map (\<lambda>r. length (rec_token_ids r)) rs) = sum_list (map (\<lambda>r. 256) rs)"
    using each by (intro arg_cong [of _ _ sum_list] map_cong) auto
  then show ?thesis using each len
    by (simp add: valid_batch_def list_all_iff sum_list_triv MAX_RECORDS_PER_TRANSACTION_def MAX_TOKENS_PER_TRANSACTION_def)
qed

section \<open>Properties\<close>

text \<open>
  A bucket that can be read: no other stored namespace shares the namespace key, and the bucket is not
  over its limit.
\<close>

definition readable_bucket :: "CacheRecord set \<Rightarrow> CacheNamespace \<Rightarrow> SegmentFingerprint \<Rightarrow> bool" where
  "readable_bucket A n f \<longleftrightarrow>
     (\<forall>s\<in>A. namespace_key (rec_namespace s) = namespace_key n \<longrightarrow> namespace_key_preimage (rec_namespace s) = namespace_key_preimage n) \<and>
     card {s \<in> A. rec_namespace s = n \<and> rec_fingerprint s = f} \<le> 1024"

text \<open>
  A retrieval of a published chunk \<open>r\<close> out of the stored records \<open>A\<close>: the candidate is of this prompt and
  carries the storage key of \<open>r\<close>, its piece of the prompt has the tokens of \<open>r\<close>, the bucket can be read, and
  no record with the same key and tokens was stored from another source position.
\<close>

definition retrieves :: "CacheRecord set \<Rightarrow> CacheNamespace \<Rightarrow> int list \<Rightarrow> LmcacheCandidate \<Rightarrow> CacheRecord \<Rightarrow> bool" where
  "retrieves A n prompt c r \<longleftrightarrow>
     wf_lmcache_candidate c \<and> tr_end (lc_target_range c) \<le> int (length prompt) \<and> fresh prompt c \<and>
     prompt_slice prompt (lc_target_range c) = rec_token_ids r \<and> lc_cache_key c = cache_key r \<and>
     readable_bucket A n (rec_fingerprint r) \<and>
     (\<forall>s\<in>A. rec_namespace s = n \<and> cache_key s = cache_key r \<and> rec_token_ids s = rec_token_ids r \<longrightarrow> source_range s = source_range r)"

text \<open>A verified candidate is bound to a record of the chunk.\<close>

definition bound_to :: "VerifiedLmcacheCandidate \<Rightarrow> CacheRecord \<Rightarrow> bool" where
  "bound_to v r \<longleftrightarrow> rec_token_ids (vm_record (vc_match v)) = rec_token_ids r \<and> source_range (vm_record (vc_match v)) = source_range r"

lemma retrieved_bindable:
  assumes reader: "ready reader" "contents (stored_table reader) = A" and n: "bounded_namespace n"
    and r: "r \<in> A" "valid_sidecar_record r" "rec_namespace r = n" "rec_fingerprint r = SHA256_FINGERPRINTER n (rec_token_ids r)"
    and c: "retrieves A n prompt c r"
  shows "\<exists>found. slice_lookup (sidecar_of no_faults reader) n prompt c = Inr (map Some found) \<and>
    source_range ` exact_records n prompt c (map Some found) = {source_range r}"
proof -
  obtain found reader' where l: "Sidecar.lookup no_faults n (rec_fingerprint r) reader = (Inr found, reader')"
    using lookup_total [OF reader(1) n, of "rec_fingerprint r"] r(2) c reader(2)
    by (auto simp: valid_sidecar_record_def retrieves_def readable_bucket_def MAX_COLLISION_BUCKET_RECORDS_def)
  have "table_ok (stored_table reader)" using reader(1) by (simp add: ready_def)
  from sqlite_store.fetch_returns [OF this l]
  have found: "set found = {s \<in> A. rec_namespace s = n \<and> rec_fingerprint s = rec_fingerprint r}" using reader(2) by simp
  have side: "slice_lookup (sidecar_of no_faults reader) n prompt c = Inr (map Some found)"
    using l r(4) c by (simp add: sidecar_of_def retrieves_def)
  have exact: "exact_records n prompt c (map Some found) =
      {s \<in> A. rec_namespace s = n \<and> cache_key s = cache_key r \<and> rec_token_ids s = rec_token_ids r \<and> rec_fingerprint s = rec_fingerprint r}"
    using found r(4) c by (auto simp: exact_records_def retrieves_def)
  have "\<forall>s\<in>exact_records n prompt c (map Some found). source_range s = source_range r"
    using c unfolding exact retrieves_def by blast
  moreover have "r \<in> exact_records n prompt c (map Some found)" using r(1,3) unfolding exact by simp
  ultimately have "source_range ` exact_records n prompt c (map Some found) = {source_range r}" by blast
  then show ?thesis using side by blast
qed

lemma retrieved_outcome:
  assumes reader: "ready reader" "contents (stored_table reader) = A" and n: "bounded_namespace n"
    and r: "r \<in> A" "valid_sidecar_record r" "rec_namespace r = n" "rec_fingerprint r = SHA256_FINGERPRINTER n (rec_token_ids r)"
    and c: "retrieves A n prompt c r" and w: "wf_tokens prompt"
  shows "bindable (sidecar_of no_faults reader) n prompt c"
    "\<exists>v. outcome (sidecar_of no_faults reader) n prompt c = Inr (True, Inr v) \<and> vc_candidate v = c \<and> bound_to v r"
proof -
  let ?side = "sidecar_of no_faults reader"
  obtain found where side: "slice_lookup ?side n prompt c = Inr (map Some found)"
    and src: "source_range ` exact_records n prompt c (map Some found) = {source_range r}"
    using retrieved_bindable [OF assms(1-8)] by blast
  have c': "wf_lmcache_candidate c" "tr_end (lc_target_range c) \<le> int (length prompt)" "fresh prompt c"
    "prompt_slice prompt (lc_target_range c) = rec_token_ids r" using c by (simp_all add: retrieves_def)
  show b: "bindable ?side n prompt c" using side src c'(3) unfolding bindable_def by blast
  obtain v where v: "outcome ?side n prompt c = Inr (True, Inr v)" using outcome_bindable [OF w c'(1,2) b]
    outcome_total [OF w c'(1), of ?side n] c'(2) side by auto
  from outcome_verified [OF w c'(1) v] side have
    "vc_candidate v = c" "vm_record (vc_match v) \<in> exact_records n prompt c (map Some found)" by auto
  moreover from this(2) src have "source_range (vm_record (vc_match v)) = source_range r" by blast
  ultimately show "\<exists>v. outcome ?side n prompt c = Inr (True, Inr v) \<and> vc_candidate v = c \<and> bound_to v r"
    using v c'(4) by (auto simp: bound_to_def exact_records_def)
qed

text \<open>Alone, such a candidate is planned and verified.\<close>

lemma retrieved_alone:
  assumes reader: "ready reader" "contents (stored_table reader) = A" and n: "bounded_namespace n"
    and r: "r \<in> A" "valid_sidecar_record r" "rec_namespace r = n" "rec_fingerprint r = SHA256_FINGERPRINTER n (rec_token_ids r)"
    and c: "retrieves A n prompt c r" and w: "wf_tokens prompt"
  shows "\<exists>p v. lookup_plan (sidecar_of no_faults reader) (map PInt prompt) n [Some c] = Inr p \<and>
    lp_verified p = [v] \<and> lp_rejected p = [] \<and> vc_candidate v = c \<and> bound_to v r"
proof -
  let ?side = "sidecar_of no_faults reader"
  note out = retrieved_outcome [OF assms]
  have wf: "list_all wf_lmcache_candidate [c]" using c by (simp add: retrieves_def)
  obtain found where "slice_lookup ?side n prompt c = Inr (map Some found)"
    using retrieved_bindable [OF assms(1-8)] by blast
  then have "\<exists>p. lookup_plan ?side (map PInt prompt) n (map Some [c]) = Inr p"
    using c by (intro lookup_plan_returns [OF w wf]) (simp add: retrieves_def)
  then obtain p where p: "lookup_plan ?side (map PInt prompt) n (map Some [c]) = Inr p" ..
  have "c \<in> set [c]" by simp
  from lookup_plan_maximal [OF p w wf this out(1)] obtain v where v: "v \<in> set (lp_verified p)" by blast
  have "mset [c] = mset (map vc_candidate (lp_verified p)) + mset (map rl_candidate (lp_rejected p))"
    by (rule lookup_plan_partition [OF p w wf])
  then have "1 = length (lp_verified p) + length (lp_rejected p)" by (metis length_Cons list.size(3) length_map One_nat_def size_mset size_union)
  then have "lp_verified p = [v]" "lp_rejected p = []" using v by (cases "lp_verified p"; auto)+
  moreover have "vc_candidate v = c \<and> outcome ?side n prompt c = Inr (True, Inr v)"
    using lookup_plan_verified [OF p w wf v] by auto
  ultimately show ?thesis using p out(2) by auto
qed

text \<open>
  C23. What one request computed, a later one finds, provided no SHA-256 collision occurs among the stored
  checksums and namespace keys, the engine raises no fault, the bucket is within its limit and no record
  with the same key and tokens was stored from another position (a chunk published at two positions is
  ambiguous and stays unused).  Under these conditions, which \<open>retrieves\<close> and the hypotheses state, the
  publication of a prompt's chunks, under a namespace within the sidecar's size limits and into an open
  writable sidecar, succeeds, and on any open reader of the table it leaves, for a later prompt that
  contains the tokens of one of them, at whatever position, and any candidates among which is one of this prompt for
  this piece with the storage key of the chunk: every plan the scheduler makes verifies a candidate that
  overlaps the piece, this one or one the selection preferred to it; it refuses this candidate for no other
  reason than this preference; and where it verifies it, it binds it to a record with the tokens and the
  source position of the published chunk.  When it is the only candidate, the plan exists and verifies it.
\<close>

theorem published_chunks_are_reused:
  assumes "SchedulerTransferMetadata_init ns ps vs h computed scheduled te se = Inr m" "bounded_namespace ns" "published_exact m rs"
    "ready idx" "si_mode idx = WORKER_READ_WRITE" "A = contents (stored_table idx) \<union> set rs" "checksums_separate A"
    "wf_tokens prompt" "r \<in> set rs" "retrieves A ns prompt c r"
  shows "\<exists>k idx'. add_many no_faults rs idx = (Inr k, idx') \<and>
    (\<forall>reader. ready reader \<and> stored_table reader = stored_table idx' \<longrightarrow>
      (\<forall>raw p. list_all wf_lmcache_candidate raw \<and> c \<in> set raw \<and>
         lookup_plan (sidecar_of no_faults reader) (map PInt prompt) ns (map Some raw) = Inr p \<longrightarrow>
         (\<exists>v\<in>set (lp_verified p). overlaps (lc_target_range (vc_candidate v)) (lc_target_range c)) \<and>
         (\<forall>v\<in>set (lp_verified p). vc_candidate v = c \<longrightarrow> bound_to v r) \<and>
         (\<forall>x\<in>set (lp_rejected p). rl_candidate x = c \<longrightarrow>
            rl_reason x = (if c \<in> vc_candidate ` set (lp_verified p) then DUPLICATE_CANDIDATE else OVERLAPS_SELECTED_CANDIDATE))) \<and>
      (\<exists>p v. lookup_plan (sidecar_of no_faults reader) (map PInt prompt) ns [Some c] = Inr p \<and>
         lp_verified p = [v] \<and> lp_rejected p = [] \<and> vc_candidate v = c \<and> bound_to v r))"
proof -
  have m: "wf_transfer_metadata m" "tm_cache_namespace m = ns" using assms(1) by (simp_all add: SchedulerTransferMetadata_init_Inr)
  have batch: "valid_batch rs" using published_batch_valid [OF m(1) _ assms(3)] m(2) assms(2) by simp
  have sep: "checksums_separate (set rs \<union> contents (stored_table idx))" using assms(6,7) by (simp add: Un_commute)
  obtain k idx' where a: "add_many no_faults rs idx = (Inr k, idx')" using add_many_total [OF assms(4,5) batch sep] by blast
  have "table_ok (stored_table idx)" using assms(4) by (simp add: ready_def)
  then have stored: "contents (stored_table idx') = A" using sqlite_store.put_returns [OF _ a] assms(6) by blast
  have r: "r \<in> A" "valid_sidecar_record r" using batch assms(6,9) by (simp_all add: valid_batch_def list_all_iff)
  have rn: "rec_namespace r = ns" "rec_fingerprint r = SHA256_FINGERPRINTER ns (rec_token_ids r)"
    using assms(3,9) m(2) by (auto simp: published_exact_def exact_chunk_record_def list_all2_conv_all_nth in_set_conv_nth)
  show ?thesis
  proof (intro exI [of _ k] exI [of _ idx'] conjI allI impI, rule a)
    fix reader raw p
    assume "ready reader \<and> stored_table reader = stored_table idx'"
    then have reader: "ready reader" "contents (stored_table reader) = A" using stored by simp_all
    note out = retrieved_outcome [OF reader assms(2) r rn assms(10,8)]
    assume "list_all wf_lmcache_candidate raw \<and> c \<in> set raw \<and>
         lookup_plan (sidecar_of no_faults reader) (map PInt prompt) ns (map Some raw) = Inr p"
    then have raw: "list_all wf_lmcache_candidate raw" "c \<in> set raw"
      and p: "lookup_plan (sidecar_of no_faults reader) (map PInt prompt) ns (map Some raw) = Inr p" by simp_all
    show "\<exists>v\<in>set (lp_verified p). overlaps (lc_target_range (vc_candidate v)) (lc_target_range c)"
      by (rule lookup_plan_maximal [OF p assms(8) raw out(1)])
    show "\<forall>v\<in>set (lp_verified p). vc_candidate v = c \<longrightarrow> bound_to v r"
    proof (intro ballI impI)
      fix v
      assume v: "v \<in> set (lp_verified p)" "vc_candidate v = c"
      have "outcome (sidecar_of no_faults reader) ns prompt c = Inr (True, Inr v)"
        using lookup_plan_verified [OF p assms(8) raw(1) v(1)] v(2) by simp
      then show "bound_to v r" using out(2) by auto
    qed
    show "\<forall>x\<in>set (lp_rejected p). rl_candidate x = c \<longrightarrow>
        rl_reason x = (if c \<in> vc_candidate ` set (lp_verified p) then DUPLICATE_CANDIDATE else OVERLAPS_SELECTED_CANDIDATE)"
    proof (intro ballI impI)
      fix x
      assume x: "x \<in> set (lp_rejected p)" "rl_candidate x = c"
      obtain v where "outcome (sidecar_of no_faults reader) ns prompt c = Inr (True, Inr v)" using out(2) by blast
      then show "rl_reason x = (if c \<in> vc_candidate ` set (lp_verified p) then DUPLICATE_CANDIDATE else OVERLAPS_SELECTED_CANDIDATE)"
        using lookup_plan_rejected [OF p assms(8) raw(1) x(1)] unfolding x(2) by auto
    qed
  next
    fix reader
    assume "ready reader \<and> stored_table reader = stored_table idx'"
    then have reader: "ready reader" "contents (stored_table reader) = A" using stored by simp_all
    show "\<exists>p v. lookup_plan (sidecar_of no_faults reader) (map PInt prompt) ns [Some c] = Inr p \<and>
         lp_verified p = [v] \<and> lp_rejected p = [] \<and> vc_candidate v = c \<and> bound_to v r"
      by (rule retrieved_alone [OF reader assms(2) r rn assms(10,8)])
  qed
qed

definition example_published_record :: CacheRecord where
  "example_published_record = (vm_record (vc_match example_transfer_candidate))\<lparr>source_range := \<lparr>tr_start = 0, tr_end = 256\<rparr>\<rparr>"

lemma example_published:
  defines "c \<equiv> vc_candidate example_transfer_candidate"
  shows "published_exact example_transfer_metadata [example_published_record]" "wf_lmcache_candidate c"
    "tr_end (lc_target_range c) \<le> int (length example_chunk_prompt)" "fresh example_chunk_prompt c"
    "prompt_slice example_chunk_prompt (lc_target_range c) = rec_token_ids example_published_record"
    "lc_cache_key c = cache_key example_published_record" "wf_tokens example_chunk_prompt"
proof -
  have p: "length example_chunk_prompt = 256" by (simp add: example_chunk_prompt_def)
  then have slice: "prompt_slice example_chunk_prompt \<lparr>tr_start = 0, tr_end = 256\<rparr> = example_chunk_prompt" by (simp add: prompt_slice_def)
  show "wf_tokens example_chunk_prompt" by (simp add: example_chunk_prompt_def wf_tokens_def MAX_TOKEN_ID_def)
  show "wf_lmcache_candidate c" "tr_end (lc_target_range c) \<le> int (length example_chunk_prompt)" "fresh example_chunk_prompt c"
    "prompt_slice example_chunk_prompt (lc_target_range c) = rec_token_ids example_published_record"
    "lc_cache_key c = cache_key example_published_record"
    using p slice by (simp_all add: c_def example_transfer_candidate_def Let_def wf_lmcache_candidate_def wf_range_def range_len_def
        example_published_record_def lc_cache_key_def)
  have "\<exists>d :: byte list. length d = 32 \<and> LMCACHE_CACHE_KEY_PREFIX @ hex (replicate 32 0) = LMCACHE_CACHE_KEY_PREFIX @ hex d"
    by (intro exI [of _ "replicate 32 0"]) simp
  then show "published_exact example_transfer_metadata [example_published_record]"
    using p slice
    by (simp add: published_exact_def example_transfer_metadata_def prompt_token_count_def LMCACHE_CHUNK_SIZE_def exact_chunk_record_def
        example_published_record_def example_transfer_candidate_def Let_def chunk_range_def)
qed

theorem published_chunks_are_reused_witness:
  "\<exists>k idx'. add_many no_faults [example_published_record] empty_worker_index = (Inr k, idx') \<and>
     (\<forall>reader. ready reader \<and> stored_table reader = stored_table idx' \<longrightarrow>
       (\<exists>p v. lookup_plan (sidecar_of no_faults reader) (map PInt example_chunk_prompt) example_namespace
            [Some (vc_candidate example_transfer_candidate)] = Inr p \<and>
          lp_verified p = [v] \<and> vc_candidate v = vc_candidate example_transfer_candidate))"
proof -
  let ?r = example_published_record
  have A: "{?r} = contents (stored_table empty_worker_index) \<union> set [?r]" by (simp add: example_index)
  have sep: "checksums_separate {?r}" by (simp add: checksums_separate_def)
  have ns: "rec_namespace ?r = example_namespace"
    by (simp add: example_published_record_def example_transfer_candidate_def Let_def)
  have "card {s \<in> {?r}. rec_namespace s = example_namespace \<and> rec_fingerprint s = rec_fingerprint ?r} \<le> card {?r}"
    by (rule card_mono) auto
  then have read: "readable_bucket {?r} example_namespace (rec_fingerprint ?r)" using ns by (simp add: readable_bucket_def)
  have mem: "?r \<in> set [?r]" by simp
  have "retrieves {?r} example_namespace example_chunk_prompt (vc_candidate example_transfer_candidate) ?r"
    using example_published(2-6) read by (simp add: retrieves_def)
  from published_chunks_are_reused [OF example_transfer_init example_bounded_namespace example_published(1) example_index(1,2) A sep
        example_published(7) mem this]
  show ?thesis by blast
qed

end
