(* ===== verification/Effects.thy ===== *)
theory Effects
  imports Prelude
begin

text \<open>
  Stateful code that may raise, as functions from a state to a result and a new state.  There is one
  combinator per construct the worker-side classes use: sequencing, \<^verbatim>\<open>raise\<close>, \<^verbatim>\<open>try ... except\<close>,
  \<^verbatim>\<open>try ... finally\<close>, a loop, an attribute update and a call to an injected collaborator.  The state is
  the object and the world of its collaborators.  \<open>wp m Q E s\<close> says that running \<open>m\<close> in \<open>s\<close> ends in
  \<open>Q\<close> when it returns and in \<open>E\<close> when it raises; the collection \<open>wp_simps\<close> has one rule per construct.
\<close>

type_synonym ('s, 'e, 'a) prog = "'s \<Rightarrow> ('e + 'a) \<times> 's"

section \<open>Constructs\<close>

definition eret :: "'a \<Rightarrow> ('s, 'e, 'a) prog" where
  "eret x s = (Inr x, s)"

definition eraise :: "'e \<Rightarrow> ('s, 'e, 'a) prog" where
  "eraise e s = (Inl e, s)"

definition of_result :: "'e + 'a \<Rightarrow> ('s, 'e, 'a) prog" where
  "of_result r s = (r, s)"

definition ebind :: "('s, 'e, 'a) prog \<Rightarrow> ('a \<Rightarrow> ('s, 'e, 'b) prog) \<Rightarrow> ('s, 'e, 'b) prog" where
  "ebind m f s = (case m s of (Inl e, t) \<Rightarrow> (Inl e, t) | (Inr x, t) \<Rightarrow> f x t)"

definition ethen :: "('s, 'e, 'a) prog \<Rightarrow> ('s, 'e, 'b) prog \<Rightarrow> ('s, 'e, 'b) prog" where
  "ethen m k = ebind m (\<lambda>_. k)"

definition etry :: "('s, 'e, 'a) prog \<Rightarrow> ('e \<Rightarrow> ('s, 'e, 'a) prog) \<Rightarrow> ('s, 'e, 'a) prog" where
  "etry m h s = (case m s of (Inl e, t) \<Rightarrow> h e t | (Inr x, t) \<Rightarrow> (Inr x, t))"

definition efinally :: "('s, 'e, 'a) prog \<Rightarrow> ('s \<Rightarrow> 's) \<Rightarrow> ('s, 'e, 'a) prog" where
  "efinally m f s = (case m s of (r, t) \<Rightarrow> (r, f t))"

definition echeck :: "bool \<Rightarrow> 'e \<Rightarrow> ('s, 'e, unit) prog" where
  "echeck b e = (if b then eret () else eraise e)"

fun for_each :: "('a \<Rightarrow> ('s, 'e, unit) prog) \<Rightarrow> 'a list \<Rightarrow> ('s, 'e, unit) prog" where
  "for_each f [] = eret ()"
| "for_each f (x # xs) = ethen (f x) (for_each f xs)"

text \<open>Reading and updating the object, and calling into the world.\<close>

definition asks :: "('o \<Rightarrow> 'a) \<Rightarrow> ('o \<times> 'w, 'e, 'a) prog" where
  "asks f = (\<lambda>(ob, w). (Inr (f ob), ob, w))"

definition update :: "('o \<Rightarrow> 'o) \<Rightarrow> ('o \<times> 'w, 'e, unit) prog" where
  "update f = (\<lambda>(ob, w). (Inr (), f ob, w))"

definition on_world :: "('w \<Rightarrow> ('e + 'a) \<times> 'w) \<Rightarrow> ('o \<times> 'w, 'e, 'a) prog" where
  "on_world f = (\<lambda>(ob, w). case f w of (r, w') \<Rightarrow> (r, ob, w'))"

text \<open>A call that is written to a journal together with what it returned.\<close>

definition recorded :: "('r \<Rightarrow> 'ev) \<Rightarrow> ('w \<Rightarrow> 'r \<times> 'w) \<Rightarrow> 'w \<times> 'ev list \<Rightarrow> 'r \<times> 'w \<times> 'ev list" where
  "recorded event f = (\<lambda>(w, journal). case f w of (r, w') \<Rightarrow> (r, w', journal @ [event r]))"

definition unrecorded :: "('w \<Rightarrow> 'r \<times> 'w) \<Rightarrow> 'w \<times> 'ev list \<Rightarrow> 'r \<times> 'w \<times> 'ev list" where
  "unrecorded f = (\<lambda>(w, journal). case f w of (r, w') \<Rightarrow> (r, w', journal))"

section \<open>Weakest preconditions\<close>

definition wp :: "('s, 'e, 'a) prog \<Rightarrow> ('a \<Rightarrow> 's \<Rightarrow> bool) \<Rightarrow> ('e \<Rightarrow> 's \<Rightarrow> bool) \<Rightarrow> 's \<Rightarrow> bool" where
  "wp m Q E s \<longleftrightarrow> (case m s of (Inl e, t) \<Rightarrow> E e t | (Inr x, t) \<Rightarrow> Q x t)"

named_theorems wp_simps \<open>weakest preconditions of the program constructs\<close>

lemma wp_eret [wp_simps]: "wp (eret x) Q E s \<longleftrightarrow> Q x s"
  by (simp add: wp_def eret_def)

lemma wp_eraise [wp_simps]: "wp (eraise e) Q E s \<longleftrightarrow> E e s"
  by (simp add: wp_def eraise_def)

lemma wp_of_result [wp_simps]: "wp (of_result r) Q E s \<longleftrightarrow> (case r of Inl e \<Rightarrow> E e s | Inr x \<Rightarrow> Q x s)"
  by (simp add: wp_def of_result_def)

lemma wp_ebind [wp_simps]: "wp (ebind m f) Q E s \<longleftrightarrow> wp m (\<lambda>x. wp (f x) Q E) E s"
  by (simp add: wp_def ebind_def split: prod.splits sum.splits)

lemma wp_ethen [wp_simps]: "wp (ethen m k) Q E s \<longleftrightarrow> wp m (\<lambda>_. wp k Q E) E s"
  by (simp add: ethen_def wp_ebind)

lemma wp_etry [wp_simps]: "wp (etry m h) Q E s \<longleftrightarrow> wp m Q (\<lambda>e. wp (h e) Q E) s"
  by (simp add: wp_def etry_def split: prod.splits sum.splits)

lemma wp_efinally [wp_simps]: "wp (efinally m f) Q E s \<longleftrightarrow> wp m (\<lambda>x t. Q x (f t)) (\<lambda>e t. E e (f t)) s"
  by (simp add: wp_def efinally_def split: prod.splits sum.splits)

lemma wp_echeck [wp_simps]: "wp (echeck b e) Q E s \<longleftrightarrow> (if b then Q () s else E e s)"
  by (simp add: echeck_def wp_simps)

lemma wp_asks [wp_simps]: "wp (asks f) Q E (ob, w) \<longleftrightarrow> Q (f ob) (ob, w)"
  by (simp add: wp_def asks_def)

lemma wp_update [wp_simps]: "wp (update f) Q E (ob, w) \<longleftrightarrow> Q () (f ob, w)"
  by (simp add: wp_def update_def)

lemma wp_on_world:
  "wp (on_world f) Q E (ob, w) \<longleftrightarrow> (case f w of (Inl e, w') \<Rightarrow> E e (ob, w') | (Inr x, w') \<Rightarrow> Q x (ob, w'))"
  by (simp add: wp_def on_world_def split: prod.splits sum.splits)

lemma wp_if [wp_simps]: "wp (if b then m else k) Q E s \<longleftrightarrow> (if b then wp m Q E s else wp k Q E s)"
  by simp

lemma wp_mono:
  assumes "wp m Q E s" "\<And>x t. Q x t \<Longrightarrow> Q' x t" "\<And>e t. E e t \<Longrightarrow> E' e t"
  shows "wp m Q' E' s"
  using assms unfolding wp_def by (auto split: prod.splits sum.splits)

lemma wp_conj: "wp m Q E s \<Longrightarrow> wp m Q' E' s \<Longrightarrow> wp m (\<lambda>x t. Q x t \<and> Q' x t) (\<lambda>e t. E e t \<and> E' e t) s"
  by (auto simp: wp_def split: prod.splits sum.splits)

lemma wp_result: "m s = (r, t) \<Longrightarrow> wp m Q E s \<Longrightarrow> (case r of Inl e \<Rightarrow> E e t | Inr x \<Rightarrow> Q x t)"
  by (simp add: wp_def)

lemma wp_state: "m s = (r, t) \<Longrightarrow> wp m (\<lambda>_. I) (\<lambda>_. I) s \<Longrightarrow> I t"
  by (auto simp: wp_def split: sum.splits)

lemma wp_returns: "wp m Q (\<lambda>_ _. False) s \<Longrightarrow> \<exists>x t. m s = (Inr x, t) \<and> Q x t"
  by (auto simp: wp_def split: prod.splits sum.splits)

text \<open>A loop keeps an invariant that its body keeps at every element.\<close>

lemma wp_for_each:
  assumes "I xs s" "\<And>x rest t. I (x # rest) t \<Longrightarrow> wp (f x) (\<lambda>_. I rest) E t"
  shows "wp (for_each f xs) (\<lambda>_. I []) E s"
  using assms(1)
proof (induction xs arbitrary: s)
  case (Cons x xs)
  show ?case using wp_mono [OF assms(2) [OF Cons.prems], of "\<lambda>_. wp (for_each f xs) (\<lambda>_. I []) E" E] Cons.IH
    by (simp add: wp_simps)
qed (simp add: wp_simps)

section \<open>Programs that leave the journal alone\<close>

definition keeps :: "('o \<times> 'w \<times> 'ev list, 'e, 'a) prog \<Rightarrow> bool" where
  "keeps m \<longleftrightarrow> (\<forall>ob w j. snd (snd (snd (m (ob, w, j)))) = j)"

named_theorems keeps_intros \<open>programs that leave the journal alone\<close>

lemma keeps_constructs [keeps_intros]:
  "keeps (eret x)" "keeps (eraise e)" "keeps (of_result r)" "keeps (echeck b e)" "keeps (asks f)" "keeps (update g)"
  "keeps (on_world (unrecorded h))"
  by (auto simp: keeps_def eret_def eraise_def of_result_def echeck_def asks_def update_def on_world_def unrecorded_def
      split: prod.splits)

lemma keeps_ebind [keeps_intros]: "keeps m \<Longrightarrow> (\<And>x. keeps (f x)) \<Longrightarrow> keeps (ebind m f)"
  by (auto simp: keeps_def ebind_def split: prod.splits sum.splits) (metis snd_conv)+

lemma keeps_ethen [keeps_intros]: "keeps m \<Longrightarrow> keeps k \<Longrightarrow> keeps (ethen m k)"
  by (simp add: ethen_def keeps_ebind)

lemma keeps_etry [keeps_intros]: "keeps m \<Longrightarrow> (\<And>e. keeps (h e)) \<Longrightarrow> keeps (etry m h)"
  by (auto simp: keeps_def etry_def split: prod.splits sum.splits) (metis snd_conv)+

lemma keeps_if [keeps_intros]: "keeps m \<Longrightarrow> keeps k \<Longrightarrow> keeps (if b then m else k)"
  by simp

lemma keeps_option [keeps_intros]: "keeps m \<Longrightarrow> (\<And>x. keeps (f x)) \<Longrightarrow> keeps (case v of None \<Rightarrow> m | Some x \<Rightarrow> f x)"
  by (cases v) simp_all

lemma wp_keeps:
  assumes "keeps m" "\<And>x ob w. Q x (ob, w, j)" "\<And>e ob w. E e (ob, w, j)"
  shows "wp m Q E (ob, w, j)"
proof (cases "m (ob, w, j)")
  case (fields r ob' w' j')
  then have "j' = j" using assms(1) unfolding keeps_def by (metis snd_conv)
  then show ?thesis using fields assms(2,3) by (cases r) (simp_all add: wp_def)
qed

section \<open>Calls that return\<close>

definition succeeds :: "('w \<Rightarrow> ('e + 'a) \<times> 'w) \<Rightarrow> ('a \<Rightarrow> bool) \<Rightarrow> bool" where
  "succeeds f P \<longleftrightarrow> (\<forall>w. \<exists>x w'. f w = (Inr x, w') \<and> P x)"

lemma wp_succeeds:
  assumes "succeeds f P" "\<And>x w'. P x \<Longrightarrow> Q x (ob, w')"
  shows "wp (on_world f) Q E (ob, w)"
proof -
  obtain x w' where "f w = (Inr x, w')" "P x" using assms(1) unfolding succeeds_def by blast
  then show ?thesis using assms(2) by (simp add: wp_on_world)
qed

end
