(* ===== verification/Staging.thy ===== *)
theory Staging
  imports Effects LmcacheTypes Layout
begin

text \<open>
  \<^verbatim>\<open>vllm_compat/v0_19_1/staging.py\<close>: the life cycle of the one staging buffer that is shared with LMCache.
  The CUDA primitives and the LMCache transport are injected in the source; here they are the
  functions of a \<open>StagingEnvironment\<close> over an arbitrary world, each of which may raise a
  \<^verbatim>\<open>StagingError\<close>, another \<^verbatim>\<open>Exception\<close>, or something outside \<^verbatim>\<open>Exception\<close> such as an interrupt.
\<close>

section \<open>Configuration\<close>

datatype StagingState = CREATED | REGISTERED | TRANSFER_ACTIVE | FAILED | CLOSED

datatype StagingTransferDirection = STORE | RETRIEVE

datatype StagingErrorCode =
    INVALID_CONFIG | INVALID_STATE | DEPENDENCY_MISSING | TORCH_VERSION_MISMATCH | LMCACHE_VERSION_MISMATCH
  | CUDA_VERSION_MISMATCH | CUDA_DEVICE_UNAVAILABLE | GPU_MISMATCH | ALLOCATION_FAILED | INVALID_TENSOR
  | EVENT_FAILED | IPC_WRAPPER_FAILED | REGISTRATION_FAILED | SYNCHRONIZATION_FAILED | TRANSFER_FAILED
  | UNREGISTER_FAILED

datatype staging_exn = StagingError StagingErrorCode | OtherException | Interrupt

definition STAGING_COMPONENTS :: int where
  "STAGING_COMPONENTS = 2"

definition STAGING_LAYERS :: int where
  "STAGING_LAYERS = 24"

definition STAGING_KV_WIDTH :: int where
  "STAGING_KV_WIDTH = 512"

definition STAGING_DTYPE :: string where
  "STAGING_DTYPE = ''torch.bfloat16''"

definition staging_require_plain_int :: "pyval \<Rightarrow> int \<Rightarrow> staging_exn + unit" where
  "staging_require_plain_int v minimum =
     (if is_plain_int v \<and> minimum \<le> the_int v then Inr () else Inl (StagingError INVALID_CONFIG))"

text \<open>
  The characters that \<^verbatim>\<open>str.isdigit\<close> accepts besides the decimal digits: superscripts, circled digits
  and the like, on which \<^verbatim>\<open>int\<close> raises \<^verbatim>\<open>ValueError\<close>.
\<close>

definition digit_forms :: "(nat \<times> nat) list" where
  "digit_forms =
    [(0xb2, 0xb3), (0xb9, 0xb9), (0x1369, 0x1371), (0x19da, 0x19da), (0x2070, 0x2070), (0x2074, 0x2079),
     (0x2080, 0x2089), (0x2460, 0x2468), (0x2474, 0x247c), (0x2488, 0x2490), (0x24ea, 0x24ea), (0x24f5, 0x24fd),
     (0x24ff, 0x24ff), (0x2776, 0x277e), (0x2780, 0x2788), (0x278a, 0x2792), (0x10a40, 0x10a43),
     (0x10e60, 0x10e68), (0x11052, 0x1105a), (0x1f100, 0x1f10a)]"

definition isdigit :: "pystr \<Rightarrow> bool" where
  "isdigit s \<longleftrightarrow> s \<noteq> [] \<and> list_all (\<lambda>c. digit_value c \<noteq> None \<or> list_ex (\<lambda>(a, b). a \<le> c \<and> c \<le> b) digit_forms) s"

definition py_int_of_digits :: "pystr \<Rightarrow> int option" where
  "py_int_of_digits s = (if list_all (\<lambda>c. digit_value c \<noteq> None) s then Some (parse_digits s) else None)"

definition cuda_prefix :: pystr where
  "cuda_prefix = code_points ''cuda:''"

definition parse_indexed_cuda_device :: "pystr \<Rightarrow> staging_exn + int" where
  "parse_indexed_cuda_device device =
     (if take (length cuda_prefix) device \<noteq> cuda_prefix then Inl (StagingError INVALID_CONFIG)
      else
        let suffix = drop (length cuda_prefix) device in
        if \<not> isdigit suffix \<or> length suffix > 6 then Inl (StagingError INVALID_CONFIG)
        else case py_int_of_digits suffix of
          None \<Rightarrow> Inl OtherException
        | Some n \<Rightarrow> if code_points (py_str_int n) \<noteq> suffix then Inl (StagingError INVALID_CONFIG) else Inr n)"

record StagingConfig =
  sgc_instance_id :: int
  sgc_token_capacity :: int
  sgc_device :: pystr

definition StagingConfig_init :: "pyval \<Rightarrow> pyval \<Rightarrow> pystr \<Rightarrow> staging_exn + StagingConfig" where
  "StagingConfig_init instance_id token_capacity device =
     rbind (staging_require_plain_int instance_id 0) (\<lambda>_.
     rbind (staging_require_plain_int token_capacity LMCACHE_CHUNK_SIZE) (\<lambda>_.
       if the_int token_capacity mod LMCACHE_CHUNK_SIZE \<noteq> 0 then Inl (StagingError INVALID_CONFIG)
       else if the_int token_capacity > GPT_OSS_MAX_CONTEXT_TOKENS then Inl (StagingError INVALID_CONFIG)
       else rbind (parse_indexed_cuda_device device) (\<lambda>_.
         Inr \<lparr>sgc_instance_id = the_int instance_id, sgc_token_capacity = the_int token_capacity, sgc_device = device\<rparr>)))"

definition staging_config_shape :: "StagingConfig \<Rightarrow> int list" where
  "staging_config_shape c = [STAGING_COMPONENTS, STAGING_LAYERS, sgc_token_capacity c, STAGING_KV_WIDTH]"

definition device_index :: "StagingConfig \<Rightarrow> staging_exn + int" where
  "device_index c = parse_indexed_cuda_device (sgc_device c)"

text \<open>The loop of \<^verbatim>\<open>_contiguous_stride\<close> from the last dimension to the first.\<close>

fun strides_from :: "int \<Rightarrow> int list \<Rightarrow> int list" where
  "strides_from stride [] = []"
| "strides_from stride (d # ds) = stride # strides_from (stride * d) ds"

definition contiguous_stride :: "int list \<Rightarrow> int list" where
  "contiguous_stride shape = rev (strides_from 1 (rev shape))"

section \<open>Leases\<close>

record StagingTransferLease =
  le_direction :: StagingTransferDirection
  le_buffer_offset :: int
  le_token_extent :: int
  le_capacity :: int
  le_event_ipc_handle :: "byte list"

definition checked_event_handle :: "byte list option \<Rightarrow> staging_exn + byte list" where
  "checked_event_handle h =
     (case h of
        None \<Rightarrow> Inl OtherException
      | Some bytes \<Rightarrow> (case validate_event_handle bytes of Inl _ \<Rightarrow> Inl OtherException | Inr _ \<Rightarrow> Inr bytes))"

definition StagingTransferLease_init ::
    "StagingTransferDirection \<Rightarrow> pyval \<Rightarrow> pyval \<Rightarrow> pyval \<Rightarrow> byte list \<Rightarrow> staging_exn + StagingTransferLease" where
  "StagingTransferLease_init direction buffer_offset token_extent capacity event_ipc_handle =
     rbind (staging_require_plain_int buffer_offset 0) (\<lambda>_.
     rbind (staging_require_plain_int token_extent 1) (\<lambda>_.
     rbind (staging_require_plain_int capacity 1) (\<lambda>_.
       if the_int buffer_offset + the_int token_extent > the_int capacity then Inl (StagingError INVALID_CONFIG)
       else rbind (checked_event_handle (Some event_ipc_handle)) (\<lambda>_.
         Inr \<lparr>le_direction = direction, le_buffer_offset = the_int buffer_offset, le_token_extent = the_int token_extent,
              le_capacity = the_int capacity, le_event_ipc_handle = event_ipc_handle\<rparr>))))"

definition end_offset :: "StagingTransferLease \<Rightarrow> int" where
  "end_offset l = le_buffer_offset l + le_token_extent l"

definition staging_position :: "StagingTransferLease \<Rightarrow> pyval \<Rightarrow> staging_exn + int" where
  "staging_position l relative_position =
     rbind (staging_require_plain_int relative_position 0) (\<lambda>_.
       if the_int relative_position \<ge> le_token_extent l then Inl (StagingError INVALID_CONFIG)
       else Inr (le_buffer_offset l + the_int relative_position))"

section \<open>The runtime\<close>

text \<open>
  \<^verbatim>\<open>StagingBackend\<close> and \<^verbatim>\<open>StagingTransport\<close>: tensors, wrappers and events are opaque objects.  An exported
  handle that is not a byte string is \<open>None\<close>.
\<close>

record ('o, 'w) StagingEnvironment =
  sb_torch_version :: "'w \<Rightarrow> (staging_exn + string) \<times> 'w"
  sb_cuda_runtime :: "'w \<Rightarrow> (staging_exn + string) \<times> 'w"
  sb_lmcache_version :: "'w \<Rightarrow> (staging_exn + string) \<times> 'w"
  sb_validate_device :: "int \<Rightarrow> string \<Rightarrow> 'w \<Rightarrow> (staging_exn + unit) \<times> 'w"
  sb_device_uuid :: "int \<Rightarrow> 'w \<Rightarrow> (staging_exn + string) \<times> 'w"
  sb_allocate :: "int list \<Rightarrow> string \<Rightarrow> pystr \<Rightarrow> 'w \<Rightarrow> (staging_exn + 'o) \<times> 'w"
  sb_tensor_shape :: "'o \<Rightarrow> 'w \<Rightarrow> (staging_exn + int list) \<times> 'w"
  sb_tensor_dtype_name :: "'o \<Rightarrow> 'w \<Rightarrow> (staging_exn + string) \<times> 'w"
  sb_tensor_device_name :: "'o \<Rightarrow> 'w \<Rightarrow> (staging_exn + pystr) \<times> 'w"
  sb_tensor_is_contiguous :: "'o \<Rightarrow> 'w \<Rightarrow> (staging_exn + pyval) \<times> 'w"
  sb_tensor_storage_offset :: "'o \<Rightarrow> 'w \<Rightarrow> (staging_exn + pyval) \<times> 'w"
  sb_make_cuda_ipc_wrapper :: "'o \<Rightarrow> 'w \<Rightarrow> (staging_exn + 'o) \<times> 'w"
  sb_wrapper_shape :: "'o \<Rightarrow> 'w \<Rightarrow> (staging_exn + int list) \<times> 'w"
  sb_wrapper_dtype_name :: "'o \<Rightarrow> 'w \<Rightarrow> (staging_exn + string) \<times> 'w"
  sb_wrapper_storage_offset :: "'o \<Rightarrow> 'w \<Rightarrow> (staging_exn + pyval) \<times> 'w"
  sb_wrapper_stride :: "'o \<Rightarrow> 'w \<Rightarrow> (staging_exn + int list) \<times> 'w"
  sb_wrapper_device_uuid :: "'o \<Rightarrow> 'w \<Rightarrow> (staging_exn + string) \<times> 'w"
  sb_wrapper_has_handle :: "'o \<Rightarrow> 'w \<Rightarrow> (staging_exn + pyval) \<times> 'w"
  sb_create_interprocess_event :: "int \<Rightarrow> 'w \<Rightarrow> (staging_exn + 'o) \<times> 'w"
  sb_synchronize_device :: "int \<Rightarrow> 'w \<Rightarrow> (staging_exn + unit) \<times> 'w"
  sb_record_event :: "'o \<Rightarrow> int \<Rightarrow> 'w \<Rightarrow> (staging_exn + unit) \<times> 'w"
  sb_synchronize_event :: "'o \<Rightarrow> 'w \<Rightarrow> (staging_exn + unit) \<times> 'w"
  sb_event_ipc_handle :: "'o \<Rightarrow> 'w \<Rightarrow> (staging_exn + byte list option) \<times> 'w"
  sb_register_staging_buffer :: "'o LmcacheStagingRegistration \<Rightarrow> 'w \<Rightarrow> (staging_exn + unit) \<times> 'w"
  sb_unregister_staging_buffer :: "'w \<Rightarrow> (staging_exn + unit) \<times> 'w"

record 'o StagingRuntime =
  sg_config :: StagingConfig
  sg_state :: StagingState
  sg_tensor :: "'o option"
  sg_wrapper :: "'o option"
  sg_event :: "'o option"
  sg_event_handle :: "byte list option"
  sg_registration_may_exist :: bool

type_synonym ('o, 'w, 'a) staging_prog = "('o StagingRuntime \<times> 'w, staging_exn, 'a) prog"

text \<open>\<^verbatim>\<open>except Exception\<close>: everything but an interrupt.\<close>

definition except_exception :: "('s, staging_exn, 'a) prog \<Rightarrow> ('s, staging_exn, 'a) prog \<Rightarrow> ('s, staging_exn, 'a) prog" where
  "except_exception m handler = etry m (\<lambda>e. if e = Interrupt then eraise e else handler)"

definition except_staging_error ::
    "('s, staging_exn, 'a) prog \<Rightarrow> (staging_exn \<Rightarrow> ('s, staging_exn, 'a) prog) \<Rightarrow> ('s, staging_exn, 'a) prog" where
  "except_staging_error m handler = etry m (\<lambda>e. case e of StagingError _ \<Rightarrow> handler e | _ \<Rightarrow> eraise e)"

definition staging_validate_versions :: "('o, 'w) StagingEnvironment \<Rightarrow> ('w, staging_exn, unit) prog" where
  "staging_validate_versions env =
     ebind (except_exception
         (ebind (sb_torch_version env) (\<lambda>torch. ebind (sb_cuda_runtime env) (\<lambda>cuda.
          ebind (sb_lmcache_version env) (\<lambda>lmcache. eret (torch, cuda, lmcache)))))
         (eraise (StagingError DEPENDENCY_MISSING)))
       (\<lambda>(torch, cuda, lmcache).
         ethen (echeck (torch = rt_torch_version PINNED_TARGET) (StagingError TORCH_VERSION_MISMATCH))
        (ethen (echeck (cuda = rt_cuda_runtime PINNED_TARGET) (StagingError CUDA_VERSION_MISMATCH))
               (echeck (lmcache = LMCACHE_VERSION) (StagingError LMCACHE_VERSION_MISMATCH))))"

definition StagingRuntime_init :: "('o, 'w) StagingEnvironment \<Rightarrow> StagingConfig \<Rightarrow> ('w, staging_exn, 'o StagingRuntime) prog" where
  "StagingRuntime_init env config =
     ethen (staging_validate_versions env)
       (eret \<lparr>sg_config = config, sg_state = CREATED, sg_tensor = None, sg_wrapper = None, sg_event = None,
              sg_event_handle = None, sg_registration_may_exist = False\<rparr>)"

definition staging_mark_failed :: "'o StagingRuntime \<Rightarrow> 'o StagingRuntime" where
  "staging_mark_failed rt = (if sg_state rt \<noteq> CLOSED then rt\<lparr>sg_state := FAILED\<rparr> else rt)"

definition staging_fail :: "StagingErrorCode \<Rightarrow> ('o, 'w, 'a) staging_prog" where
  "staging_fail code = ethen (update staging_mark_failed) (eraise (StagingError code))"

definition staging_require_state :: "StagingState \<Rightarrow> ('o, 'w, unit) staging_prog" where
  "staging_require_state expected = ebind (asks sg_state) (\<lambda>state. echeck (state = expected) (StagingError INVALID_STATE))"

definition staging_tensor :: "('o, 'w, 'o) staging_prog" where
  "staging_tensor =
     ethen (staging_require_state REGISTERED)
       (ebind (asks sg_tensor) (\<lambda>tensor. case tensor of None \<Rightarrow> staging_fail INVALID_STATE | Some t \<Rightarrow> eret t))"

definition staging_device_index :: "('o, 'w, int) staging_prog" where
  "staging_device_index = ebind (asks sg_config) (\<lambda>config. of_result (device_index config))"

definition validate_tensor :: "('o, 'w) StagingEnvironment \<Rightarrow> 'o \<Rightarrow> ('o, 'w, unit) staging_prog" where
  "validate_tensor env tensor =
     ebind (asks sg_config) (\<lambda>config.
     ebind (except_exception
         (ebind (on_world (sb_tensor_shape env tensor)) (\<lambda>shape.
          ebind (on_world (sb_tensor_dtype_name env tensor)) (\<lambda>dtype_name.
          ebind (on_world (sb_tensor_device_name env tensor)) (\<lambda>device_name.
          ebind (on_world (sb_tensor_is_contiguous env tensor)) (\<lambda>contiguous.
          ebind (on_world (sb_tensor_storage_offset env tensor)) (\<lambda>storage_offset.
            eret (shape = staging_config_shape config \<and> dtype_name = STAGING_DTYPE \<and> device_name = sgc_device config \<and>
                  contiguous = PBool True \<and> storage_offset = PInt 0)))))))
         (staging_fail INVALID_TENSOR))
       (\<lambda>valid. if valid then eret () else staging_fail INVALID_TENSOR))"

definition validate_wrapper :: "('o, 'w) StagingEnvironment \<Rightarrow> 'o \<Rightarrow> ('o, 'w, unit) staging_prog" where
  "validate_wrapper env wrapper =
     ebind (asks sg_config) (\<lambda>config.
     ebind (except_exception
         (ebind (on_world (sb_wrapper_shape env wrapper)) (\<lambda>shape.
          ebind (on_world (sb_wrapper_dtype_name env wrapper)) (\<lambda>dtype_name.
          ebind (on_world (sb_wrapper_storage_offset env wrapper)) (\<lambda>storage_offset.
          ebind (on_world (sb_wrapper_stride env wrapper)) (\<lambda>stride.
          ebind (on_world (sb_wrapper_device_uuid env wrapper)) (\<lambda>uuid.
          ebind staging_device_index (\<lambda>index.
          ebind (on_world (sb_device_uuid env index)) (\<lambda>expected_uuid.
          ebind (on_world (sb_wrapper_has_handle env wrapper)) (\<lambda>has_handle.
            eret (shape = staging_config_shape config \<and> dtype_name = STAGING_DTYPE \<and> storage_offset = PInt 0 \<and>
                  stride = contiguous_stride (staging_config_shape config) \<and> uuid \<noteq> [] \<and> uuid = expected_uuid \<and>
                  has_handle = PBool True))))))))))
         (staging_fail IPC_WRAPPER_FAILED))
       (\<lambda>valid. if valid then eret () else staging_fail IPC_WRAPPER_FAILED))"

definition staging_synchronize_device :: "('o, 'w) StagingEnvironment \<Rightarrow> ('o, 'w, unit) staging_prog" where
  "staging_synchronize_device env =
     except_exception (ebind staging_device_index (\<lambda>index. on_world (sb_synchronize_device env index)))
       (eraise (StagingError SYNCHRONIZATION_FAILED))"

definition best_effort_synchronize :: "('o, 'w) StagingEnvironment \<Rightarrow> ('o, 'w, unit) staging_prog" where
  "best_effort_synchronize env =
     except_exception (ebind staging_device_index (\<lambda>index. on_world (sb_synchronize_device env index))) (eret ())"

definition record_and_export_event :: "('o, 'w) StagingEnvironment \<Rightarrow> byte list option \<Rightarrow> ('o, 'w, byte list) staging_prog" where
  "record_and_export_event env expected_handle =
     ebind (asks sg_event) (\<lambda>event.
     case event of
       None \<Rightarrow> staging_fail EVENT_FAILED
     | Some event \<Rightarrow>
         ethen (except_staging_error (staging_synchronize_device env) (\<lambda>e. ethen (update staging_mark_failed) (eraise e)))
        (ebind (except_exception
             (ebind staging_device_index (\<lambda>index.
              ethen (on_world (sb_record_event env event index))
             (ethen (on_world (sb_synchronize_event env event))
             (ebind (on_world (sb_event_ipc_handle env event)) (\<lambda>handle. of_result (checked_event_handle handle))))))
             (staging_fail EVENT_FAILED))
           (\<lambda>handle. if expected_handle \<noteq> None \<and> Some handle \<noteq> expected_handle then staging_fail EVENT_FAILED
             else eret handle)))"

text \<open>The declarations of the LMCache boundary; their errors are not staging errors.\<close>

definition staging_registration :: "StagingConfig \<Rightarrow> 'o \<Rightarrow> staging_exn + 'o LmcacheStagingRegistration" where
  "staging_registration config wrapper =
     (case rbind (LmcacheStagingLayout_init (PInt STAGING_LAYERS) (PInt (sgc_token_capacity config)) (PInt STAGING_KV_WIDTH)
          STAGING_DTYPE) (LmcacheStagingRegistration_init (PInt (sgc_instance_id config)) [wrapper]) of
        Inl _ \<Rightarrow> Inl OtherException
      | Inr registration \<Rightarrow> Inr registration)"

definition staging_open :: "('o, 'w) StagingEnvironment \<Rightarrow> ('o, 'w, 'o) staging_prog" where
  "staging_open env =
     ethen (staging_require_state CREATED)
    (ebind (asks sg_config) (\<lambda>config.
     ethen (etry (ebind staging_device_index (\<lambda>index. on_world (sb_validate_device env index (rt_gpu_name PINNED_TARGET))))
         (\<lambda>e. case e of StagingError _ \<Rightarrow> ethen (update staging_mark_failed) (eraise e)
            | OtherException \<Rightarrow> staging_fail CUDA_DEVICE_UNAVAILABLE | Interrupt \<Rightarrow> eraise e))
    (ebind (except_exception (on_world (sb_allocate env (staging_config_shape config) STAGING_DTYPE (sgc_device config)))
         (staging_fail ALLOCATION_FAILED)) (\<lambda>tensor.
     ethen (update (sg_tensor_update (\<lambda>_. Some tensor)))
    (ethen (validate_tensor env tensor)
    (ebind (except_exception (ebind staging_device_index (\<lambda>index. on_world (sb_create_interprocess_event env index)))
         (staging_fail EVENT_FAILED)) (\<lambda>event.
     ethen (update (sg_event_update (\<lambda>_. Some event)))
    (ebind (record_and_export_event env None) (\<lambda>handle.
     ethen (update (sg_event_handle_update (\<lambda>_. Some handle)))
    (ebind (except_exception (on_world (sb_make_cuda_ipc_wrapper env tensor)) (staging_fail IPC_WRAPPER_FAILED)) (\<lambda>wrapper.
     ethen (update (sg_wrapper_update (\<lambda>_. Some wrapper)))
    (ethen (validate_wrapper env wrapper)
    (ebind (of_result (staging_registration config wrapper)) (\<lambda>registration.
     ethen (update (sg_registration_may_exist_update (\<lambda>_. True)))
    (ethen (except_exception (on_world (sb_register_staging_buffer env registration)) (staging_fail REGISTRATION_FAILED))
    (ethen (update (sg_state_update (\<lambda>_. REGISTERED)))
           (eret tensor)))))))))))))))))"

definition synchronous_transfer ::
    "('o, 'w) StagingEnvironment \<Rightarrow> StagingTransferDirection \<Rightarrow> pyval \<Rightarrow> pyval \<Rightarrow>
     (StagingTransferLease \<Rightarrow> 'w \<Rightarrow> (staging_exn + 'a) \<times> 'w) \<Rightarrow> ('o, 'w, 'a) staging_prog" where
  "synchronous_transfer env direction buffer_offset token_extent body =
     ethen (staging_require_state REGISTERED)
    (ethen (of_result (staging_require_plain_int buffer_offset 0))
    (ethen (of_result (staging_require_plain_int token_extent 1))
    (ebind (asks sg_config) (\<lambda>config.
     ethen (echeck (the_int buffer_offset + the_int token_extent \<le> sgc_token_capacity config) (StagingError INVALID_CONFIG))
    (ethen (echeck (direction = STORE \<longrightarrow> the_int token_extent mod LMCACHE_CHUNK_SIZE = 0) (StagingError INVALID_CONFIG))
    (ebind (asks sg_event_handle) (\<lambda>expected.
     ebind (record_and_export_event env expected) (\<lambda>handle.
     ebind (of_result (StagingTransferLease_init direction buffer_offset token_extent (PInt (sgc_token_capacity config)) handle)) (\<lambda>lease.
     ethen (update (sg_state_update (\<lambda>_. TRANSFER_ACTIVE)))
    (ebind (etry (on_world (body lease))
         (\<lambda>e. ethen (best_effort_synchronize env) (ethen (update staging_mark_failed)
            (eraise (if e = Interrupt then e else StagingError TRANSFER_FAILED))))) (\<lambda>result.
     ethen (except_staging_error (staging_synchronize_device env) (\<lambda>e. ethen (update staging_mark_failed) (eraise e)))
    (ethen (update (sg_state_update (\<lambda>_. REGISTERED)))
           (eret result)))))))))))))"

definition staging_close :: "('o, 'w) StagingEnvironment \<Rightarrow> ('o, 'w, unit) staging_prog" where
  "staging_close env =
     ebind (asks sg_state) (\<lambda>state.
     if state = CLOSED then eret ()
     else
       ethen (echeck (state \<noteq> TRANSFER_ACTIVE) (StagingError INVALID_STATE))
      (ethen (ebind (asks sg_registration_may_exist) (\<lambda>may_exist.
           if may_exist
           then ethen (except_exception (on_world (sb_unregister_staging_buffer env)) (staging_fail UNREGISTER_FAILED))
                      (update (sg_registration_may_exist_update (\<lambda>_. False)))
           else eret ()))
         (update (\<lambda>rt. rt\<lparr>sg_tensor := None, sg_wrapper := None, sg_event := None, sg_event_handle := None,
            sg_state := CLOSED\<rparr>))))"

section \<open>Constructed configurations\<close>

definition wf_staging_config :: "StagingConfig \<Rightarrow> bool" where
  "wf_staging_config c \<longleftrightarrow>
     0 \<le> sgc_instance_id c \<and> LMCACHE_CHUNK_SIZE \<le> sgc_token_capacity c \<and> sgc_token_capacity c \<le> GPT_OSS_MAX_CONTEXT_TOKENS \<and>
     sgc_token_capacity c mod LMCACHE_CHUNK_SIZE = 0 \<and> (\<exists>i. device_index c = Inr i)"

lemma staging_require_plain_int_Inr: "staging_require_plain_int v m = Inr () \<longleftrightarrow> (\<exists>n. v = PInt n \<and> m \<le> n)"
  by (cases v) (auto simp: staging_require_plain_int_def)

lemma staging_require_PInt [simp]:
  "staging_require_plain_int (PInt n) m = (if m \<le> n then Inr () else Inl (StagingError INVALID_CONFIG))"
  by (simp add: staging_require_plain_int_def)

lemma StagingConfig_init_Inr:
  "StagingConfig_init i t d = Inr c \<longleftrightarrow>
     i = PInt (sgc_instance_id c) \<and> t = PInt (sgc_token_capacity c) \<and> d = sgc_device c \<and> wf_staging_config c"
  by (cases c)
    (auto simp: StagingConfig_init_def wf_staging_config_def device_index_def staging_require_plain_int_Inr
      result_simps)

lemma parse_indexed_cuda_device_canonical:
  assumes "parse_indexed_cuda_device d = Inr n"
  shows "d = cuda_prefix @ code_points (py_str_int n)"
proof -
  have "take (length cuda_prefix) d = cuda_prefix" "code_points (py_str_int n) = drop (length cuda_prefix) d"
    using assms by (auto simp: parse_indexed_cuda_device_def Let_def split: if_splits option.splits)
  then show ?thesis by (metis append_take_drop_id)
qed

lemma staging_registration_wf:
  assumes "wf_staging_config c"
  shows "staging_registration c wrapper = Inr \<lparr>sr_instance_id = sgc_instance_id c, sr_kv_cache_payload = [wrapper],
    sr_layout = \<lparr>st_layer_count = 24, st_token_capacity = sgc_token_capacity c, st_kv_width = 512, st_dtype_name = STAGING_DTYPE\<rparr>\<rparr>"
  using assms
  by (simp add: staging_registration_def LmcacheStagingLayout_init_def LmcacheStagingRegistration_init_def
      require_plain_int_def STAGING_LAYERS_def STAGING_KV_WIDTH_def STAGING_DTYPE_def wf_staging_config_def
      has_NUL_def LMCACHE_CHUNK_SIZE_def)

lemma checked_event_handle_Inr: "checked_event_handle h = Inr b \<longleftrightarrow> h = Some b \<and> validate_event_handle b = Inr ()"
  by (auto simp: checked_event_handle_def split: option.splits sum.splits)

lemma checked_event_handle_Exception [simp]: "checked_event_handle h \<noteq> Inl Interrupt"
  by (auto simp: checked_event_handle_def split: option.splits sum.splits)

lemma StagingTransferLease_init_Inr:
  "StagingTransferLease_init d b t c h = Inr l \<longleftrightarrow>
     b = PInt (le_buffer_offset l) \<and> t = PInt (le_token_extent l) \<and> c = PInt (le_capacity l) \<and> le_direction l = d \<and>
     le_event_ipc_handle l = h \<and> validate_event_handle h = Inr () \<and>
     0 \<le> le_buffer_offset l \<and> 1 \<le> le_token_extent l \<and> end_offset l \<le> le_capacity l"
  by (cases l) (auto simp: StagingTransferLease_init_def staging_require_plain_int_Inr result_simps checked_event_handle_Inr
      end_offset_def)

section \<open>Observing the backend\<close>

text \<open>
  The calls whose order matters, as they are written to a journal: a transfer body with its lease and
  whether it returned, a registration attempt with its declaration, an unregistration with its success.
\<close>

datatype 'o staging_event =
    DeviceSynchronized | EventRecorded | EventSynchronized | HandleExported "byte list option"
  | Registering "'o LmcacheStagingRegistration" | Unregistered bool | Transferred StagingTransferLease bool

definition returned :: "'e + 'a \<Rightarrow> bool" where
  "returned r \<longleftrightarrow> (case r of Inl _ \<Rightarrow> False | Inr _ \<Rightarrow> True)"

lemma returned_simps [simp]: "returned (Inr x)" "\<not> returned (Inl e)"
  by (simp_all add: returned_def)

text \<open>The environment over a world with a journal that no call writes to, and with one that has the calls above.\<close>

definition silent_backend :: "('o, 'w) StagingEnvironment \<Rightarrow> ('o, 'w \<times> 'ev list) StagingEnvironment" where
  "silent_backend env =
     \<lparr>sb_torch_version = unrecorded (sb_torch_version env),
      sb_cuda_runtime = unrecorded (sb_cuda_runtime env),
      sb_lmcache_version = unrecorded (sb_lmcache_version env),
      sb_validate_device = (\<lambda>i n. unrecorded (sb_validate_device env i n)),
      sb_device_uuid = (\<lambda>i. unrecorded (sb_device_uuid env i)),
      sb_allocate = (\<lambda>s d v. unrecorded (sb_allocate env s d v)),
      sb_tensor_shape = (\<lambda>t. unrecorded (sb_tensor_shape env t)),
      sb_tensor_dtype_name = (\<lambda>t. unrecorded (sb_tensor_dtype_name env t)),
      sb_tensor_device_name = (\<lambda>t. unrecorded (sb_tensor_device_name env t)),
      sb_tensor_is_contiguous = (\<lambda>t. unrecorded (sb_tensor_is_contiguous env t)),
      sb_tensor_storage_offset = (\<lambda>t. unrecorded (sb_tensor_storage_offset env t)),
      sb_make_cuda_ipc_wrapper = (\<lambda>t. unrecorded (sb_make_cuda_ipc_wrapper env t)),
      sb_wrapper_shape = (\<lambda>t. unrecorded (sb_wrapper_shape env t)),
      sb_wrapper_dtype_name = (\<lambda>t. unrecorded (sb_wrapper_dtype_name env t)),
      sb_wrapper_storage_offset = (\<lambda>t. unrecorded (sb_wrapper_storage_offset env t)),
      sb_wrapper_stride = (\<lambda>t. unrecorded (sb_wrapper_stride env t)),
      sb_wrapper_device_uuid = (\<lambda>t. unrecorded (sb_wrapper_device_uuid env t)),
      sb_wrapper_has_handle = (\<lambda>t. unrecorded (sb_wrapper_has_handle env t)),
      sb_create_interprocess_event = (\<lambda>i. unrecorded (sb_create_interprocess_event env i)),
      sb_synchronize_device = (\<lambda>i. unrecorded (sb_synchronize_device env i)),
      sb_record_event = (\<lambda>v i. unrecorded (sb_record_event env v i)),
      sb_synchronize_event = (\<lambda>v. unrecorded (sb_synchronize_event env v)),
      sb_event_ipc_handle = (\<lambda>v. unrecorded (sb_event_ipc_handle env v)),
      sb_register_staging_buffer = (\<lambda>r. unrecorded (sb_register_staging_buffer env r)),
      sb_unregister_staging_buffer = unrecorded (sb_unregister_staging_buffer env)\<rparr>"

definition observed :: "('o, 'w) StagingEnvironment \<Rightarrow> ('o, 'w \<times> 'o staging_event list) StagingEnvironment" where
  "observed env =
     (silent_backend env)
       \<lparr>sb_synchronize_device := (\<lambda>i. recorded (\<lambda>_. DeviceSynchronized) (sb_synchronize_device env i)),
        sb_record_event := (\<lambda>v i. recorded (\<lambda>_. EventRecorded) (sb_record_event env v i)),
        sb_synchronize_event := (\<lambda>v. recorded (\<lambda>_. EventSynchronized) (sb_synchronize_event env v)),
        sb_event_ipc_handle := (\<lambda>v. recorded (\<lambda>r. HandleExported (case r of Inr h \<Rightarrow> h | Inl _ \<Rightarrow> None)) (sb_event_ipc_handle env v)),
        sb_register_staging_buffer := (\<lambda>r. recorded (\<lambda>_. Registering r) (sb_register_staging_buffer env r)),
        sb_unregister_staging_buffer := recorded (\<lambda>r. Unregistered (returned r)) (sb_unregister_staging_buffer env)\<rparr>"

lemma silent_simps:
  "sb_torch_version (silent_backend env) = unrecorded (sb_torch_version env)"
  "sb_cuda_runtime (silent_backend env) = unrecorded (sb_cuda_runtime env)"
  "sb_lmcache_version (silent_backend env) = unrecorded (sb_lmcache_version env)"
  "sb_validate_device (silent_backend env) = (\<lambda>i n. unrecorded (sb_validate_device env i n))"
  "sb_device_uuid (silent_backend env) = (\<lambda>i. unrecorded (sb_device_uuid env i))"
  "sb_allocate (silent_backend env) = (\<lambda>s d v. unrecorded (sb_allocate env s d v))"
  "sb_tensor_shape (silent_backend env) = (\<lambda>t. unrecorded (sb_tensor_shape env t))"
  "sb_tensor_dtype_name (silent_backend env) = (\<lambda>t. unrecorded (sb_tensor_dtype_name env t))"
  "sb_tensor_device_name (silent_backend env) = (\<lambda>t. unrecorded (sb_tensor_device_name env t))"
  "sb_tensor_is_contiguous (silent_backend env) = (\<lambda>t. unrecorded (sb_tensor_is_contiguous env t))"
  "sb_tensor_storage_offset (silent_backend env) = (\<lambda>t. unrecorded (sb_tensor_storage_offset env t))"
  "sb_make_cuda_ipc_wrapper (silent_backend env) = (\<lambda>t. unrecorded (sb_make_cuda_ipc_wrapper env t))"
  "sb_wrapper_shape (silent_backend env) = (\<lambda>t. unrecorded (sb_wrapper_shape env t))"
  "sb_wrapper_dtype_name (silent_backend env) = (\<lambda>t. unrecorded (sb_wrapper_dtype_name env t))"
  "sb_wrapper_storage_offset (silent_backend env) = (\<lambda>t. unrecorded (sb_wrapper_storage_offset env t))"
  "sb_wrapper_stride (silent_backend env) = (\<lambda>t. unrecorded (sb_wrapper_stride env t))"
  "sb_wrapper_device_uuid (silent_backend env) = (\<lambda>t. unrecorded (sb_wrapper_device_uuid env t))"
  "sb_wrapper_has_handle (silent_backend env) = (\<lambda>t. unrecorded (sb_wrapper_has_handle env t))"
  "sb_create_interprocess_event (silent_backend env) = (\<lambda>i. unrecorded (sb_create_interprocess_event env i))"
  "sb_synchronize_device (silent_backend env) = (\<lambda>i. unrecorded (sb_synchronize_device env i))"
  "sb_record_event (silent_backend env) = (\<lambda>v i. unrecorded (sb_record_event env v i))"
  "sb_synchronize_event (silent_backend env) = (\<lambda>v. unrecorded (sb_synchronize_event env v))"
  "sb_event_ipc_handle (silent_backend env) = (\<lambda>v. unrecorded (sb_event_ipc_handle env v))"
  "sb_register_staging_buffer (silent_backend env) = (\<lambda>r. unrecorded (sb_register_staging_buffer env r))"
  "sb_unregister_staging_buffer (silent_backend env) = unrecorded (sb_unregister_staging_buffer env)"
  by (simp_all add: silent_backend_def)

lemma observed_simps:
  "sb_torch_version (observed env) = unrecorded (sb_torch_version env)"
  "sb_cuda_runtime (observed env) = unrecorded (sb_cuda_runtime env)"
  "sb_lmcache_version (observed env) = unrecorded (sb_lmcache_version env)"
  "sb_validate_device (observed env) = (\<lambda>i n. unrecorded (sb_validate_device env i n))"
  "sb_device_uuid (observed env) = (\<lambda>i. unrecorded (sb_device_uuid env i))"
  "sb_allocate (observed env) = (\<lambda>s d v. unrecorded (sb_allocate env s d v))"
  "sb_tensor_shape (observed env) = (\<lambda>t. unrecorded (sb_tensor_shape env t))"
  "sb_tensor_dtype_name (observed env) = (\<lambda>t. unrecorded (sb_tensor_dtype_name env t))"
  "sb_tensor_device_name (observed env) = (\<lambda>t. unrecorded (sb_tensor_device_name env t))"
  "sb_tensor_is_contiguous (observed env) = (\<lambda>t. unrecorded (sb_tensor_is_contiguous env t))"
  "sb_tensor_storage_offset (observed env) = (\<lambda>t. unrecorded (sb_tensor_storage_offset env t))"
  "sb_make_cuda_ipc_wrapper (observed env) = (\<lambda>t. unrecorded (sb_make_cuda_ipc_wrapper env t))"
  "sb_wrapper_shape (observed env) = (\<lambda>t. unrecorded (sb_wrapper_shape env t))"
  "sb_wrapper_dtype_name (observed env) = (\<lambda>t. unrecorded (sb_wrapper_dtype_name env t))"
  "sb_wrapper_storage_offset (observed env) = (\<lambda>t. unrecorded (sb_wrapper_storage_offset env t))"
  "sb_wrapper_stride (observed env) = (\<lambda>t. unrecorded (sb_wrapper_stride env t))"
  "sb_wrapper_device_uuid (observed env) = (\<lambda>t. unrecorded (sb_wrapper_device_uuid env t))"
  "sb_wrapper_has_handle (observed env) = (\<lambda>t. unrecorded (sb_wrapper_has_handle env t))"
  "sb_create_interprocess_event (observed env) = (\<lambda>i. unrecorded (sb_create_interprocess_event env i))"
  "sb_synchronize_device (observed env) = (\<lambda>i. recorded (\<lambda>_. DeviceSynchronized) (sb_synchronize_device env i))"
  "sb_record_event (observed env) = (\<lambda>v i. recorded (\<lambda>_. EventRecorded) (sb_record_event env v i))"
  "sb_synchronize_event (observed env) = (\<lambda>v. recorded (\<lambda>_. EventSynchronized) (sb_synchronize_event env v))"
  "sb_event_ipc_handle (observed env) = (\<lambda>v. recorded (\<lambda>r. HandleExported (case r of Inr h \<Rightarrow> h | Inl _ \<Rightarrow> None)) (sb_event_ipc_handle env v))"
  "sb_register_staging_buffer (observed env) = (\<lambda>r. recorded (\<lambda>_. Registering r) (sb_register_staging_buffer env r))"
  "sb_unregister_staging_buffer (observed env) = recorded (\<lambda>r. Unregistered (returned r)) (sb_unregister_staging_buffer env)"
  by (simp_all add: observed_def silent_simps)

text \<open>The registration the server may still hold.\<close>

fun outstanding :: "'o staging_event list \<Rightarrow> 'o LmcacheStagingRegistration option \<Rightarrow> 'o LmcacheStagingRegistration option" where
  "outstanding [] r = r"
| "outstanding (Registering q # j) r = outstanding j (Some q)"
| "outstanding (Unregistered True # j) r = outstanding j None"
| "outstanding (_ # j) r = outstanding j r"

lemma outstanding_append: "outstanding (i @ j) r = outstanding j (outstanding i r)"
  by (induction i r rule: outstanding.induct) simp_all

definition may_be_registered :: "'o staging_event list \<Rightarrow> 'o LmcacheStagingRegistration option" where
  "may_be_registered j = outstanding j None"

text \<open>
  The required order around each transfer: the device was synchronized and the event recorded,
  synchronized and exported immediately before, with the lease's handle; the buffer was registered; the
  lease lies in the buffer; the device is synchronized immediately after; and nothing is transferred
  after a failure.
\<close>

definition transfer_in_order ::
    "StagingConfig \<Rightarrow> 'o staging_event list \<Rightarrow> StagingTransferLease \<Rightarrow> bool \<Rightarrow> 'o staging_event list \<Rightarrow> bool" where
  "transfer_in_order config before lease ok later \<longleftrightarrow>
     (\<exists>first. before = first @ [DeviceSynchronized, EventRecorded, EventSynchronized, HandleExported (Some (le_event_ipc_handle lease))]) \<and>
     may_be_registered before \<noteq> None \<and>
     0 \<le> le_buffer_offset lease \<and> 1 \<le> le_token_extent lease \<and> end_offset lease \<le> sgc_token_capacity config \<and>
     (le_direction lease = STORE \<longrightarrow> le_token_extent lease mod LMCACHE_CHUNK_SIZE = 0) \<and>
     (\<exists>rest. later = DeviceSynchronized # rest) \<and>
     (\<not> ok \<longrightarrow> (\<forall>l k. Transferred l k \<notin> set later))"

definition transfers_in_order :: "StagingConfig \<Rightarrow> 'o staging_event list \<Rightarrow> bool" where
  "transfers_in_order config j \<longleftrightarrow>
     (\<forall>before lease ok later. j = before @ Transferred lease ok # later \<longrightarrow> transfer_in_order config before lease ok later)"

text \<open>No interrupt reaches the runtime from its backend.\<close>

definition quiet :: "('w \<Rightarrow> (staging_exn + 'a) \<times> 'w) \<Rightarrow> bool" where
  "quiet f \<longleftrightarrow> (\<forall>w. fst (f w) \<noteq> Inl Interrupt)"

definition uninterrupted_backend :: "('o, 'w) StagingEnvironment \<Rightarrow> bool" where
  "uninterrupted_backend env \<longleftrightarrow>
     quiet (sb_torch_version env) \<and> quiet (sb_cuda_runtime env) \<and> quiet (sb_lmcache_version env) \<and>
     (\<forall>i n. quiet (sb_validate_device env i n)) \<and> (\<forall>i. quiet (sb_device_uuid env i)) \<and>
     (\<forall>s d v. quiet (sb_allocate env s d v)) \<and>
     (\<forall>t. quiet (sb_tensor_shape env t) \<and> quiet (sb_tensor_dtype_name env t) \<and> quiet (sb_tensor_device_name env t) \<and>
        quiet (sb_tensor_is_contiguous env t) \<and> quiet (sb_tensor_storage_offset env t) \<and>
        quiet (sb_make_cuda_ipc_wrapper env t) \<and> quiet (sb_wrapper_shape env t) \<and> quiet (sb_wrapper_dtype_name env t) \<and>
        quiet (sb_wrapper_storage_offset env t) \<and> quiet (sb_wrapper_stride env t) \<and> quiet (sb_wrapper_device_uuid env t) \<and>
        quiet (sb_wrapper_has_handle env t)) \<and>
     (\<forall>i. quiet (sb_create_interprocess_event env i) \<and> quiet (sb_synchronize_device env i)) \<and>
     (\<forall>v i. quiet (sb_record_event env v i)) \<and> (\<forall>v. quiet (sb_synchronize_event env v) \<and> quiet (sb_event_ipc_handle env v)) \<and>
     (\<forall>r. quiet (sb_register_staging_buffer env r)) \<and> quiet (sb_unregister_staging_buffer env)"

text \<open>
  Everything the owner of a runtime can do with it, between arbitrary changes of the world; the body of
  a transfer is arbitrary.
\<close>

inductive staging_reachable ::
    "('o, 'w) StagingEnvironment \<Rightarrow> StagingConfig \<Rightarrow> 'o StagingRuntime \<times> 'w \<times> 'o staging_event list \<Rightarrow> bool"
  for env :: "('o, 'w) StagingEnvironment" and config where
  staging_created: "StagingRuntime_init (observed env) config (w, []) = (Inr rt, w', j) \<Longrightarrow> staging_reachable env config (rt, w', j)"
| staging_opened: "staging_reachable env config s \<Longrightarrow> staging_open (observed env) s = (r, s') \<Longrightarrow> staging_reachable env config s'"
| staging_read: "staging_reachable env config s \<Longrightarrow> staging_tensor s = (r, s') \<Longrightarrow> staging_reachable env config s'"
| staging_transferred: "staging_reachable env config s \<Longrightarrow>
    synchronous_transfer (observed env) d b t (\<lambda>lease. recorded (\<lambda>r. Transferred lease (returned r)) (body lease)) s =
      (r :: staging_exn + pyval, s') \<Longrightarrow>
    staging_reachable env config s'"
| staging_closed: "staging_reachable env config s \<Longrightarrow> staging_close (observed env) s = (r, s') \<Longrightarrow> staging_reachable env config s'"
| staging_world: "staging_reachable env config (rt, w, j) \<Longrightarrow> staging_reachable env config (rt, w', j)"

section \<open>The life cycle\<close>

lemma wp_recorded:
  assumes "quiet f" "\<And>x w'. Q x (ob, w', j @ [event (Inr x)])" "\<And>e w'. e \<noteq> Interrupt \<Longrightarrow> E e (ob, w', j @ [event (Inl e)])"
  shows "wp (on_world (recorded event f)) Q E (ob, w, j)"
proof (cases "f w")
  case (Pair r w')
  then have "r \<noteq> Inl Interrupt" using assms(1) unfolding quiet_def by (metis fst_conv)
  then show ?thesis using Pair assms(2,3) by (cases r) (auto simp: wp_on_world recorded_def)
qed

lemma wp_unrecorded:
  assumes "quiet f" "\<And>x w'. Q x (ob, w', j)" "\<And>e w'. e \<noteq> Interrupt \<Longrightarrow> E e (ob, w', j)"
  shows "wp (on_world (unrecorded f)) Q E (ob, w, j)"
proof (cases "f w")
  case (Pair r w')
  then have "r \<noteq> Inl Interrupt" using assms(1) unfolding quiet_def by (metis fst_conv)
  then show ?thesis using Pair assms(2,3) by (cases r) (auto simp: wp_on_world unrecorded_def)
qed

lemma wp_except_exception:
  "wp (except_exception m h) Q E s \<longleftrightarrow> wp m Q (\<lambda>e t. if e = Interrupt then E e t else wp h Q E t) s"
  by (auto simp: except_exception_def wp_def etry_def eraise_def split: prod.splits sum.splits)

lemma wp_staging_fail [wp_simps]: "wp (staging_fail c) Q E (rt, w) \<longleftrightarrow> E (StagingError c) (staging_mark_failed rt, w)"
  by (simp add: staging_fail_def wp_simps)

lemma wp_device_index:
  "device_index (sg_config rt) = Inr i \<Longrightarrow> wp staging_device_index Q E (rt, w) \<longleftrightarrow> Q i (rt, w)"
  by (simp add: staging_device_index_def wp_simps)

lemmas backend_calls = uninterrupted_backend_def observed_simps

lemma wp_validate_tensor:
  assumes "uninterrupted_backend env" "\<And>w'. Q () (rt, w', j)"
    "\<And>w'. E (StagingError INVALID_TENSOR) (staging_mark_failed rt, w', j)"
  shows "wp (validate_tensor (observed env) t) Q E (rt, w, j)"
  unfolding validate_tensor_def wp_simps wp_except_exception
  using assms
  by (auto simp: backend_calls wp_simps intro!: wp_unrecorded)

lemma wf_device_index:
  assumes "wf_staging_config c"
  obtains i where "device_index c = Inr i"
  using assms by (auto simp: wf_staging_config_def)

lemma wp_validate_wrapper:
  assumes "uninterrupted_backend env" "wf_staging_config (sg_config rt)" "\<And>w'. Q () (rt, w', j)"
    "\<And>w'. E (StagingError IPC_WRAPPER_FAILED) (staging_mark_failed rt, w', j)"
  shows "wp (validate_wrapper (observed env) t) Q E (rt, w, j)"
  unfolding validate_wrapper_def wp_simps wp_except_exception
  using assms
  by (auto elim!: wf_device_index simp: backend_calls wp_simps wp_device_index intro!: wp_unrecorded)

text \<open>A backend call whose failure marks the runtime as failed.\<close>

lemma wp_guarded:
  assumes "quiet f" "\<And>x w'. Q x (rt, w', j)" "\<And>w'. E (StagingError c) (staging_mark_failed rt, w', j)"
  shows "wp (except_exception (on_world (unrecorded f)) (staging_fail c)) Q E (rt, w, j)"
  unfolding wp_except_exception using assms by (auto simp: wp_simps intro!: wp_unrecorded)

definition inert :: "'o staging_event list \<Rightarrow> bool" where
  "inert js \<longleftrightarrow> (\<forall>e\<in>set js. e \<in> {DeviceSynchronized, EventRecorded, EventSynchronized} \<union> range HandleExported)"

definition exported :: "byte list \<Rightarrow> 'o staging_event list" where
  "exported h = [DeviceSynchronized, EventRecorded, EventSynchronized, HandleExported (Some h)]"

lemma inert_simps [simp]:
  "inert []" "inert (DeviceSynchronized # js) \<longleftrightarrow> inert js" "inert (EventRecorded # js) \<longleftrightarrow> inert js"
  "inert (EventSynchronized # js) \<longleftrightarrow> inert js" "inert (HandleExported h # js) \<longleftrightarrow> inert js" "inert (exported k)"
  by (auto simp: inert_def exported_def)

lemma wp_record_and_export:
  assumes "uninterrupted_backend env" "wf_staging_config (sg_config rt)" "sg_event rt \<noteq> None"
    and ok: "\<And>h w'. validate_event_handle h = Inr () \<Longrightarrow> expected = None \<or> expected = Some h \<Longrightarrow> Q h (rt, w', j @ exported h)"
    and failed: "\<And>c w' js. inert js \<Longrightarrow> E (StagingError c) (staging_mark_failed rt, w', j @ js)"
  shows "wp (record_and_export_event (observed env) expected) Q E (rt, w, j)"
proof -
  have h: "Q h (rt, w', j @ [DeviceSynchronized, EventRecorded, EventSynchronized, HandleExported (Some h)])"
    if "validate_event_handle h = Inr ()" "expected = None \<or> expected = Some h" for h w'
    using ok [OF that] by (simp add: exported_def)
  obtain i v where "device_index (sg_config rt) = Inr i" "sg_event rt = Some v"
    using assms(2,3) wf_device_index by blast
  then show ?thesis
    unfolding record_and_export_event_def wp_simps wp_except_exception except_staging_error_def staging_synchronize_device_def
    using assms(1)
    by (auto simp: backend_calls wp_simps wp_device_index wp_except_exception checked_event_handle_Inr
        intro!: wp_recorded h failed split: sum.split)
qed

text \<open>
  The invariant: while the server may hold the buffer the runtime owns the tensor, the event and the
  very wrapper that was declared; a registered runtime can transfer and nothing failed before.
\<close>

definition no_owners :: "'o StagingRuntime \<Rightarrow> bool" where
  "no_owners rt \<longleftrightarrow> sg_tensor rt = None \<and> sg_wrapper rt = None \<and> sg_event rt = None \<and> sg_event_handle rt = None \<and>
     \<not> sg_registration_may_exist rt"

definition owners_held :: "'o StagingRuntime \<Rightarrow> 'o staging_event list \<Rightarrow> bool" where
  "owners_held rt j \<longleftrightarrow>
     (\<forall>reg. may_be_registered j = Some reg \<longrightarrow>
        sg_registration_may_exist rt \<and> sg_tensor rt \<noteq> None \<and> sg_event rt \<noteq> None \<and> sg_event_handle rt \<noteq> None \<and>
        (\<exists>wrapper. sg_wrapper rt = Some wrapper \<and> sr_kv_cache_payload reg = [wrapper]))"

definition no_failed_transfer :: "'o staging_event list \<Rightarrow> bool" where
  "no_failed_transfer j \<longleftrightarrow> (\<forall>l. Transferred l False \<notin> set j)"

definition staging_inv :: "StagingConfig \<Rightarrow> 'o StagingRuntime \<times> 'w \<times> 'o staging_event list \<Rightarrow> bool" where
  "staging_inv config = (\<lambda>(rt, w, j).
     sg_config rt = config \<and> transfers_in_order config j \<and> owners_held rt j \<and>
     (case sg_state rt of
        CREATED \<Rightarrow> no_owners rt \<and> may_be_registered j = None \<and> no_failed_transfer j
      | REGISTERED \<Rightarrow> may_be_registered j \<noteq> None \<and> no_failed_transfer j
      | TRANSFER_ACTIVE \<Rightarrow> False
      | FAILED \<Rightarrow> True
      | CLOSED \<Rightarrow> no_owners rt \<and> may_be_registered j = None))"

lemma may_be_registered_append [simp]:
  "may_be_registered (j @ [Registering reg]) = Some reg" "may_be_registered (j @ [Unregistered True]) = None"
  "may_be_registered (j @ [Unregistered False]) = may_be_registered j"
  "may_be_registered (j @ [Transferred l ok]) = may_be_registered j"
  by (simp_all add: may_be_registered_def outstanding_append)

lemma outstanding_inert: "inert js \<Longrightarrow> outstanding js r = r"
proof (induction js)
  case (Cons e js)
  then have "inert js" "e \<in> {DeviceSynchronized, EventRecorded, EventSynchronized} \<union> range HandleExported" by (auto simp: inert_def)
  then show ?case using Cons.IH by auto
qed simp

lemma inert_append [simp]: "inert js \<Longrightarrow> may_be_registered (j @ js) = may_be_registered j"
  by (simp add: may_be_registered_def outstanding_append outstanding_inert)

lemma transfers_in_order_append:
  assumes "transfers_in_order c j" "\<forall>l k. Transferred l k \<notin> set js"
  shows "transfers_in_order c (j @ js)"
  unfolding transfers_in_order_def
proof (intro allI impI)
  fix before l ok later
  assume e: "j @ js = before @ Transferred l ok # later"
  moreover have "Transferred l ok \<notin> set js" using assms(2) by blast
  ultimately obtain later' where "j = before @ Transferred l ok # later'" "later = later' @ js"
    by (auto simp: append_eq_append_conv2 Cons_eq_append_conv append_eq_Cons_conv)
  then have "transfer_in_order c before l ok later'" "later = later' @ js" using assms(1) unfolding transfers_in_order_def by blast+
  then show "transfer_in_order c before l ok later" using assms(2) by (auto simp: transfer_in_order_def)
qed

lemma inert_no_transfer: "inert js \<Longrightarrow> \<forall>l k. Transferred l k \<notin> set js"
  by (auto simp: inert_def)

lemma transfers_in_order_inert: "inert js \<Longrightarrow> transfers_in_order c j \<Longrightarrow> transfers_in_order c (j @ js)"
  using transfers_in_order_append inert_no_transfer by blast

text \<open>A complete transfer keeps the order.\<close>

lemma transfers_in_order_transfer:
  assumes "transfers_in_order c j" "no_failed_transfer j" "may_be_registered j \<noteq> None"
    "StagingTransferLease_init d b t (PInt (sgc_token_capacity c)) h = Inr lease"
    "d = STORE \<longrightarrow> the_int t mod LMCACHE_CHUNK_SIZE = 0"
  shows "transfers_in_order c (j @ exported h @ [Transferred lease ok, DeviceSynchronized])"
  unfolding transfers_in_order_def
proof (intro allI impI)
  fix before l k later
  assume e: "j @ exported h @ [Transferred lease ok, DeviceSynchronized] = before @ Transferred l k # later"
  have l: "le_event_ipc_handle lease = h" "0 \<le> le_buffer_offset lease" "1 \<le> le_token_extent lease"
    "end_offset lease \<le> sgc_token_capacity c" "le_direction lease = STORE \<longrightarrow> le_token_extent lease mod LMCACHE_CHUNK_SIZE = 0"
    using assms(4,5) by (auto simp: StagingTransferLease_init_Inr)
  consider (old) later' where "j = before @ Transferred l k # later'" "later = later' @ exported h @ [Transferred lease ok, DeviceSynchronized]"
    | (new) "before = j @ exported h" "l = lease" "k = ok" "later = [DeviceSynchronized]"
    using e by (auto simp: append_eq_append_conv2 Cons_eq_append_conv append_eq_Cons_conv exported_def)
  then show "transfer_in_order c before l k later"
  proof cases
    case old
    then have "transfer_in_order c before l k later'" "k" using assms(1,2) unfolding transfers_in_order_def no_failed_transfer_def by auto
    then show ?thesis using old(2) by (auto simp: transfer_in_order_def)
  next
    case new
    then show ?thesis using l assms(3) by (auto simp: transfer_in_order_def exported_def may_be_registered_def outstanding_append)
  qed
qed

lemma staging_mark_failed_simps [simp]:
  "sg_state rt \<noteq> CLOSED \<Longrightarrow> staging_mark_failed rt = rt\<lparr>sg_state := FAILED\<rparr>"
  by (simp add: staging_mark_failed_def)

lemma staging_failed_inv:
  assumes "sg_config rt = config" "transfers_in_order config j" "owners_held rt j"
  shows "staging_inv config (rt\<lparr>sg_state := FAILED\<rparr>, w, j)"
  using assms by (simp add: staging_inv_def owners_held_def)

lemma staging_open_inv:
  assumes env: "uninterrupted_backend env" and config: "wf_staging_config config" and inv: "staging_inv config (rt, w, j)"
  shows "wp (staging_open (observed env)) (\<lambda>_ t. staging_inv config t \<and> sg_state (fst t) = REGISTERED)
    (\<lambda>e t. staging_inv config t \<and> e \<noteq> Interrupt) (rt, w, j)"
proof (cases "sg_state rt = CREATED")
  case False
  then show ?thesis using inv by (simp add: staging_open_def staging_require_state_def wp_simps)
next
  case True
  obtain i where i: "device_index config = Inr i" using config by (auto simp: wf_staging_config_def)
  have s: "sg_config rt = config" "transfers_in_order config j" "may_be_registered j = None" "no_failed_transfer j"
    using inv True by (auto simp: staging_inv_def)
  have held: "owners_held rt' j'" if "may_be_registered j' = None" for rt' :: "'a StagingRuntime" and j'
    using that by (simp add: owners_held_def)
  let ?rt = "\<lambda>x v h t. rt\<lparr>sg_tensor := Some x, sg_event := Some v, sg_event_handle := Some h, sg_wrapper := Some t,
    sg_registration_may_exist := True\<rparr>"
  let ?reg = "\<lambda>t. \<lparr>sr_instance_id = sgc_instance_id config, sr_kv_cache_payload = [t],
    sr_layout = \<lparr>st_layer_count = 24, st_token_capacity = sgc_token_capacity config, st_kv_width = 512, st_dtype_name = STAGING_DTYPE\<rparr>\<rparr>"
  have registered: "staging_inv config ((?rt x v h t)\<lparr>sg_state := st\<rparr>, w', j @ exported h @ [Registering (?reg t)])"
    if "st \<in> {REGISTERED, FAILED}" for x v h t w' st
    using that s transfers_in_order_append [OF s(2), of "exported h @ [Registering (?reg t)]"]
      may_be_registered_append(1) [of "j @ exported h" "?reg t"]
    by (auto simp: staging_inv_def owners_held_def exported_def no_failed_transfer_def)
  have c: "config = sg_config rt" using s(1) by simp
  note facts = s(2,3) registered staging_registration_wf [OF config]
  show ?thesis
    unfolding staging_open_def staging_require_state_def c
    using True i env config s(2,3) unfolding c
    by (auto simp: wp_simps backend_calls wp_device_index wp_except_exception facts(4) [unfolded c]
       intro!: wp_unrecorded wp_recorded wp_guarded wp_validate_tensor [OF env] wp_record_and_export [OF env] wp_validate_wrapper [OF env]
         staging_failed_inv facts(3) [unfolded c] held transfers_in_order_inert split: staging_exn.split)
qed

lemma staging_tensor_inv:
  assumes "staging_inv config (rt, w, j)"
  shows "wp staging_tensor (\<lambda>x t. t = (rt, w, j) \<and> sg_state rt = REGISTERED \<and> sg_tensor rt = Some x)
    (\<lambda>e t. t = (rt, w, j) \<and> sg_state rt \<noteq> REGISTERED \<and> e = StagingError INVALID_STATE) (rt, w, j)"
  using assms
  by (auto simp: staging_tensor_def staging_require_state_def wp_simps staging_inv_def owners_held_def)

lemma staging_close_inv:
  assumes env: "uninterrupted_backend env" and inv: "staging_inv config (rt, w, j)"
  shows "wp (staging_close (observed env)) (\<lambda>_ t. staging_inv config t \<and> sg_state (fst t) = CLOSED)
    (\<lambda>e t. staging_inv config t \<and> e \<noteq> Interrupt) (rt, w, j)"
proof -
  have s: "sg_config rt = config" "transfers_in_order config j" "owners_held rt j" "sg_state rt \<noteq> TRANSFER_ACTIVE"
    using inv by (auto simp: staging_inv_def)
  have held: "owners_held rt (j @ [Unregistered False])" using s(3) by (simp add: owners_held_def)
  show ?thesis
    unfolding staging_close_def using env s inv
    by (auto simp: wp_simps backend_calls wp_except_exception staging_inv_def no_owners_def owners_held_def
        intro!: wp_recorded staging_failed_inv transfers_in_order_append held)
qed

lemma wp_transfer_body:
  assumes "\<And>x w'. Q x (ob, w', j @ [Transferred lease True])" "\<And>e w'. E e (ob, w', j @ [Transferred lease False])"
  shows "wp (on_world (recorded (\<lambda>r. Transferred lease (returned r)) f)) Q E (ob, w, j)"
  using assms by (cases "f w"; cases "fst (f w)") (auto simp: wp_on_world recorded_def)

text \<open>What a transfer does: it either changes nothing, or fails, or runs its body exactly once.\<close>

lemma synchronous_transfer_inv:
  fixes env :: "('o, 'w) StagingEnvironment"
  assumes env: "uninterrupted_backend env" and config: "wf_staging_config config" and inv: "staging_inv config (rt, w, j)"
  shows "wp (synchronous_transfer (observed env) d b t (\<lambda>lease. recorded (\<lambda>r. Transferred lease (returned r)) (body lease)))
    (\<lambda>_ s. staging_inv config s \<and> sg_state (fst s) = REGISTERED) (\<lambda>_. staging_inv config) (rt, w, j)"
proof (cases "sg_state rt = REGISTERED \<and> staging_require_plain_int b 0 = Inr () \<and> staging_require_plain_int t 1 = Inr ()")
  case False
  then show ?thesis using inv
    by (auto simp: synchronous_transfer_def staging_require_state_def wp_simps split: sum.splits)
next
  case True
  have c: "config = sg_config rt" using inv by (auto simp: staging_inv_def)
  have s: "transfers_in_order (sg_config rt) j" "owners_held rt j" "may_be_registered j \<noteq> None" "no_failed_transfer j"
    using inv True by (auto simp: staging_inv_def)
  then have event: "sg_event rt \<noteq> None" by (auto simp: owners_held_def)
  have idle: "staging_inv (sg_config rt) (rt, w', j @ exported h)" for w' :: 'w and h
    using s True transfers_in_order_inert [of "exported h"]
    by (simp add: staging_inv_def owners_held_def no_failed_transfer_def exported_def)
  have failed: "staging_inv (sg_config rt) (rt\<lparr>sg_state := FAILED\<rparr>, w', j @ js)" if "inert js" for w' :: 'w and js
    using s that by (intro staging_failed_inv) (auto simp: owners_held_def intro: transfers_in_order_inert)
  have moved: "staging_inv (sg_config rt) (rt\<lparr>sg_state := st\<rparr>, w', j @ exported h @ [Transferred lease ok, DeviceSynchronized])"
    if "StagingTransferLease_init d b t (PInt (sgc_token_capacity (sg_config rt))) h = Inr lease"
      "d = STORE \<longrightarrow> the_int t mod LMCACHE_CHUNK_SIZE = 0" "st = FAILED \<or> st = REGISTERED \<and> ok" for st h lease ok and w' :: 'w
  proof -
    have "may_be_registered (j @ exported h @ [Transferred lease ok, DeviceSynchronized]) = may_be_registered j"
      by (simp add: may_be_registered_def outstanding_append exported_def)
    then show ?thesis using s that(3) transfers_in_order_transfer [OF s(1,4,3) that(1,2), of ok]
      by (auto simp: staging_inv_def owners_held_def no_failed_transfer_def exported_def)
  qed
  have wf: "wf_staging_config (sg_config rt)" using config c by simp
  then obtain i where i: "device_index (sg_config rt) = Inr i" by (rule wf_device_index)
  show ?thesis
    unfolding synchronous_transfer_def staging_require_state_def c except_staging_error_def staging_synchronize_device_def
      best_effort_synchronize_def
    using True env i event inv unfolding c
    by (auto simp: wp_simps backend_calls wp_except_exception wp_device_index
        intro!: wp_recorded wp_transfer_body wp_record_and_export [OF env wf] idle moved split: sum.split)
      (auto intro!: failed)
qed

lemma StagingRuntime_init_Inr:
  assumes "StagingRuntime_init env config w = (Inr rt, w')"
  shows "sg_config rt = config" "sg_state rt = CREATED" "no_owners rt"
  using assms
  by (auto simp: StagingRuntime_init_def ethen_def ebind_def eret_def no_owners_def split: prod.splits sum.splits)

lemma wp_silent:
  "(\<And>x w'. Q x (w', j)) \<Longrightarrow> (\<And>e w'. E e (w', j)) \<Longrightarrow> wp (unrecorded f) Q E (w, j)"
  by (cases "f w"; cases "fst (f w)") (auto simp: wp_def unrecorded_def)

lemma StagingRuntime_init_observed:
  assumes "StagingRuntime_init (observed env) config (w, j) = (r, w', j')"
  shows "j' = j"
proof -
  have "wp (StagingRuntime_init (observed env) config) (\<lambda>_ (w', j'). j' = j) (\<lambda>_ (w', j'). j' = j) (w, j)"
    unfolding StagingRuntime_init_def staging_validate_versions_def
    by (auto simp: wp_simps wp_except_exception observed_simps intro!: wp_silent)
  then show ?thesis using assms by (auto simp: wp_def split: sum.splits)
qed

lemma staging_reachable_inv:
  assumes "staging_reachable env config s" "uninterrupted_backend env" "wf_staging_config config"
  shows "staging_inv config s"
  using assms(1)
proof (induction rule: staging_reachable.induct)
  case (staging_created w rt w' j)
  then show ?case using StagingRuntime_init_Inr [OF staging_created] StagingRuntime_init_observed [OF staging_created]
    by (simp add: staging_inv_def owners_held_def transfers_in_order_def may_be_registered_def no_failed_transfer_def)
next
  case (staging_opened s r s')
  then show ?case using staging_open_inv [OF assms(2,3), of "fst s" "fst (snd s)" "snd (snd s)"]
    by (auto dest: wp_result split: sum.splits)
next
  case (staging_read s r s')
  then show ?case using staging_tensor_inv [of config "fst s" "fst (snd s)" "snd (snd s)"]
    by (auto dest: wp_result split: sum.splits)
next
  case (staging_transferred s d b t body r s')
  then show ?case using synchronous_transfer_inv [OF assms(2,3), of "fst s" "fst (snd s)" "snd (snd s)" d b t body]
    by (auto dest: wp_result split: sum.splits)
next
  case (staging_closed s r s')
  then show ?case using staging_close_inv [OF assms(2), of config "fst s" "fst (snd s)" "snd (snd s)"]
    by (auto dest: wp_result split: sum.splits)
next
  case (staging_world rt w j w')
  then show ?case by (simp add: staging_inv_def)
qed

text \<open>
  An interrupt while the device is synchronized after a transfer leaves the runtime in the middle of it:
  no operation leaves that state again, not even \<^verbatim>\<open>close\<close>.
\<close>

lemma interrupted_transfer_stays:
  assumes "sg_state rt = TRANSFER_ACTIVE"
  shows "staging_close env (rt, w) = (Inl (StagingError INVALID_STATE), rt, w)"
    "staging_open env (rt, w) = (Inl (StagingError INVALID_STATE), rt, w)"
    "synchronous_transfer env d b t body (rt, w) = (Inl (StagingError INVALID_STATE), rt, w)"
  using assms
  by (simp_all add: staging_close_def staging_open_def synchronous_transfer_def staging_require_state_def ethen_def ebind_def
      asks_def echeck_def eraise_def)

text \<open>\<^verbatim>\<open>isdigit\<close> accepts a superscript, \<^verbatim>\<open>int\<close> does not.\<close>

lemma superscript_device_raises:
  "StagingConfig_init (PInt 0) (PInt 256) (cuda_prefix @ [0xb2]) = Inl OtherException"
  by (simp add: StagingConfig_init_def parse_indexed_cuda_device_def cuda_prefix_def isdigit_def digit_forms_def
      py_int_of_digits_def digit_value_def unicode_zeros_def LMCACHE_CHUNK_SIZE_def GPT_OSS_MAX_CONTEXT_TOKENS_def
      code_points_def)

section \<open>Frames\<close>

text \<open>
  Over a backend that does not write to the journal, only the body of a transfer does; it runs at most
  once, on a lease of the requested placement, and what it returns is returned.
\<close>

lemma keeps_exn [keeps_intros]:
  "(\<And>c. keeps (m c)) \<Longrightarrow> keeps k \<Longrightarrow> keeps l \<Longrightarrow>
     keeps (case e of StagingError c \<Rightarrow> m c | OtherException \<Rightarrow> k | Interrupt \<Rightarrow> l)"
  by (cases e) simp_all

lemmas staging_parts = except_exception_def except_staging_error_def staging_fail_def staging_require_state_def
  staging_device_index_def staging_synchronize_device_def best_effort_synchronize_def

lemma keeps_parts [keeps_intros]:
  "keeps (staging_tensor :: ('o, 'w \<times> 'ev list, 'o) staging_prog)" "keeps (validate_tensor (silent_backend env) t)"
  "keeps (validate_wrapper (silent_backend env) t)" "keeps (record_and_export_event (silent_backend env) h)"
  "keeps (best_effort_synchronize (silent_backend env))" "keeps (staging_synchronize_device (silent_backend env))"
  unfolding staging_tensor_def validate_tensor_def validate_wrapper_def record_and_export_event_def staging_parts silent_simps
  by (intro keeps_intros; fail)+

lemma silent_open: "keeps (staging_open (silent_backend env))"
  unfolding staging_open_def staging_parts silent_simps by (intro keeps_intros)

lemma silent_close: "keeps (staging_close (silent_backend env))"
  unfolding staging_close_def staging_parts silent_simps by (intro keeps_intros)

definition lease_of :: "StagingTransferDirection \<Rightarrow> int \<Rightarrow> int \<Rightarrow> StagingTransferLease \<Rightarrow> bool" where
  "lease_of d b t lease \<longleftrightarrow> le_direction lease = d \<and> le_buffer_offset lease = b \<and> le_token_extent lease = t"

lemma silent_transfer:
  "wp (synchronous_transfer (silent_backend env) d (PInt b) (PInt t) body)
     (\<lambda>x (rt', w', j'). \<exists>lease w1 w2. lease_of d b t lease \<and> body lease (w1, j) = (Inr x, w2, j'))
     (\<lambda>e (rt', w', j'). j' = j \<or> (\<exists>lease w1 r w2. lease_of d b t lease \<and> body lease (w1, j) = (r, w2, j')))
     (rt, w, j)"
proof -
  have parts: "keeps (record_and_export_event (silent_backend env) h)" "keeps (best_effort_synchronize (silent_backend env))"
    "keeps (except_staging_error (staging_synchronize_device (silent_backend env)) (\<lambda>e. ethen (update staging_mark_failed) (eraise e)))"
    for h unfolding except_staging_error_def by (intro keeps_intros)+
  show ?thesis
    unfolding synchronous_transfer_def staging_require_state_def
    by (auto simp: wp_simps StagingTransferLease_init_Inr lease_of_def wp_on_world intro!: wp_keeps [OF parts(1)] wp_keeps [OF parts(2)]
        wp_keeps [OF parts(3)] split: sum.split prod.split) (blast+)
qed

text \<open>Over a backend that answers, a registered runtime completes every transfer that fits and is itself again.\<close>

definition answering_backend :: "('o, 'w) StagingEnvironment \<Rightarrow> byte list \<Rightarrow> bool" where
  "answering_backend env h \<longleftrightarrow>
     (\<forall>i. succeeds (sb_synchronize_device env i) (\<lambda>_. True)) \<and> (\<forall>v i. succeeds (sb_record_event env v i) (\<lambda>_. True)) \<and>
     (\<forall>v. succeeds (sb_synchronize_event env v) (\<lambda>_. True)) \<and> (\<forall>v. succeeds (sb_event_ipc_handle env v) (\<lambda>x. x = Some h))"

definition staging_ready :: "'o StagingRuntime \<Rightarrow> byte list \<Rightarrow> bool" where
  "staging_ready rt h \<longleftrightarrow> wf_staging_config (sg_config rt) \<and> sg_state rt = REGISTERED \<and> sg_tensor rt \<noteq> None \<and>
     sg_event rt \<noteq> None \<and> sg_event_handle rt = Some h \<and> validate_event_handle h = Inr ()"

lemma answered_export:
  assumes "answering_backend env h" "staging_ready rt h" "\<And>w'. Q h (rt\<lparr>sg_state := st\<rparr>, w')"
  shows "wp (record_and_export_event env (Some h)) Q E (rt\<lparr>sg_state := st\<rparr>, w)"
proof -
  obtain i v where "device_index (sg_config rt) = Inr i" "sg_event rt = Some v"
    using assms(2) by (auto simp: staging_ready_def elim!: wf_device_index)
  moreover have "checked_event_handle (Some h) = Inr h" using assms(2) by (simp add: checked_event_handle_Inr staging_ready_def)
  ultimately show ?thesis
    using assms
    by (auto simp: record_and_export_event_def staging_synchronize_device_def except_staging_error_def wp_simps
        wp_except_exception wp_device_index answering_backend_def
        intro!: wp_succeeds [where P = "\<lambda>_. True"] wp_succeeds [where P = "\<lambda>x. x = Some h"])
qed

lemma answered_transfer:
  assumes "answering_backend env h" "staging_ready rt h" "0 \<le> b" "1 \<le> t" "b + t \<le> sgc_token_capacity (sg_config rt)"
    "d = STORE \<longrightarrow> t mod LMCACHE_CHUNK_SIZE = 0" "\<And>lease. lease_of d b t lease \<Longrightarrow> succeeds (body lease) P"
  shows "wp (synchronous_transfer env d (PInt b) (PInt t) body) (\<lambda>x (rt', w'). rt' = rt \<and> P x) (\<lambda>_ _. False) (rt, w)"
proof -
  have r: "sg_state rt = REGISTERED" "sg_event_handle rt = Some h" "rt\<lparr>sg_state := REGISTERED\<rparr> = rt"
    using assms(2) by (simp_all add: staging_ready_def)
  obtain i where i: "device_index (sg_config rt) = Inr i" using assms(2) by (auto simp: staging_ready_def elim!: wf_device_index)
  have sync: "succeeds (sb_synchronize_device env i) (\<lambda>_. True)" using assms(1) by (simp add: answering_backend_def)
  let ?l = "\<lparr>le_direction = d, le_buffer_offset = b, le_token_extent = t, le_capacity = sgc_token_capacity (sg_config rt),
    le_event_ipc_handle = h\<rparr>"
  have l: "StagingTransferLease_init d (PInt b) (PInt t) (PInt (sgc_token_capacity (sg_config rt))) h = Inr ?l"
    using assms(2-5) by (simp add: StagingTransferLease_init_Inr end_offset_def staging_ready_def)
  have body: "succeeds (body ?l) P" using assms(7) by (simp add: lease_of_def)
  have export: "wp (record_and_export_event env (Some h)) Q E (rt, w)" if "\<And>w'. Q h (rt, w')" for Q E w
    using answered_export [OF assms(1,2), where st = REGISTERED] that r(3) by metis
  show ?thesis
    unfolding synchronous_transfer_def staging_require_state_def
    using assms(3-6) r i l
    by (auto simp: wp_simps staging_synchronize_device_def wp_device_index except_staging_error_def wp_except_exception
        intro!: export wp_succeeds [OF body] wp_succeeds [OF sync])
qed

section \<open>A concrete backend\<close>

definition example_staging_config :: StagingConfig where
  "example_staging_config = \<lparr>sgc_instance_id = 0, sgc_token_capacity = 512, sgc_device = cuda_prefix @ [0x30]\<rparr>"

definition example_backend :: "(unit, unit) StagingEnvironment" where
  "example_backend =
     \<lparr>sb_torch_version = (\<lambda>w. (Inr (rt_torch_version PINNED_TARGET), w)), sb_cuda_runtime = (\<lambda>w. (Inr (rt_cuda_runtime PINNED_TARGET), w)),
      sb_lmcache_version = (\<lambda>w. (Inr LMCACHE_VERSION, w)), sb_validate_device = (\<lambda>_ _ w. (Inr (), w)),
      sb_device_uuid = (\<lambda>_ w. (Inr ''gpu'', w)), sb_allocate = (\<lambda>_ _ _ w. (Inr (), w)),
      sb_tensor_shape = (\<lambda>_ w. (Inr (staging_config_shape example_staging_config), w)),
      sb_tensor_dtype_name = (\<lambda>_ w. (Inr STAGING_DTYPE, w)),
      sb_tensor_device_name = (\<lambda>_ w. (Inr (sgc_device example_staging_config), w)),
      sb_tensor_is_contiguous = (\<lambda>_ w. (Inr (PBool True), w)), sb_tensor_storage_offset = (\<lambda>_ w. (Inr (PInt 0), w)),
      sb_make_cuda_ipc_wrapper = (\<lambda>_ w. (Inr (), w)),
      sb_wrapper_shape = (\<lambda>_ w. (Inr (staging_config_shape example_staging_config), w)),
      sb_wrapper_dtype_name = (\<lambda>_ w. (Inr STAGING_DTYPE, w)), sb_wrapper_storage_offset = (\<lambda>_ w. (Inr (PInt 0), w)),
      sb_wrapper_stride = (\<lambda>_ w. (Inr (contiguous_stride (staging_config_shape example_staging_config)), w)),
      sb_wrapper_device_uuid = (\<lambda>_ w. (Inr ''gpu'', w)), sb_wrapper_has_handle = (\<lambda>_ w. (Inr (PBool True), w)),
      sb_create_interprocess_event = (\<lambda>_ w. (Inr (), w)), sb_synchronize_device = (\<lambda>_ w. (Inr (), w)),
      sb_record_event = (\<lambda>_ _ w. (Inr (), w)), sb_synchronize_event = (\<lambda>_ w. (Inr (), w)),
      sb_event_ipc_handle = (\<lambda>_ w. (Inr (Some [1]), w)), sb_register_staging_buffer = (\<lambda>_ w. (Inr (), w)),
      sb_unregister_staging_buffer = (\<lambda>w. (Inr (), w))\<rparr>"

lemma example_backend_simps:
  "sb_torch_version example_backend = (\<lambda>w. (Inr (rt_torch_version PINNED_TARGET), w))"
  "sb_cuda_runtime example_backend = (\<lambda>w. (Inr (rt_cuda_runtime PINNED_TARGET), w))"
  "sb_lmcache_version example_backend = (\<lambda>w. (Inr LMCACHE_VERSION, w))"
  "sb_validate_device example_backend = (\<lambda>_ _ w. (Inr (), w))"
  "sb_device_uuid example_backend = (\<lambda>_ w. (Inr ''gpu'', w))"
  "sb_allocate example_backend = (\<lambda>_ _ _ w. (Inr (), w))"
  "sb_tensor_shape example_backend = (\<lambda>_ w. (Inr (staging_config_shape example_staging_config), w))"
  "sb_tensor_dtype_name example_backend = (\<lambda>_ w. (Inr STAGING_DTYPE, w))"
  "sb_tensor_device_name example_backend = (\<lambda>_ w. (Inr (sgc_device example_staging_config), w))"
  "sb_tensor_is_contiguous example_backend = (\<lambda>_ w. (Inr (PBool True), w))"
  "sb_tensor_storage_offset example_backend = (\<lambda>_ w. (Inr (PInt 0), w))"
  "sb_make_cuda_ipc_wrapper example_backend = (\<lambda>_ w. (Inr (), w))"
  "sb_wrapper_shape example_backend = (\<lambda>_ w. (Inr (staging_config_shape example_staging_config), w))"
  "sb_wrapper_dtype_name example_backend = (\<lambda>_ w. (Inr STAGING_DTYPE, w))"
  "sb_wrapper_storage_offset example_backend = (\<lambda>_ w. (Inr (PInt 0), w))"
  "sb_wrapper_stride example_backend = (\<lambda>_ w. (Inr (contiguous_stride (staging_config_shape example_staging_config)), w))"
  "sb_wrapper_device_uuid example_backend = (\<lambda>_ w. (Inr ''gpu'', w))"
  "sb_wrapper_has_handle example_backend = (\<lambda>_ w. (Inr (PBool True), w))"
  "sb_create_interprocess_event example_backend = (\<lambda>_ w. (Inr (), w))"
  "sb_synchronize_device example_backend = (\<lambda>_ w. (Inr (), w))"
  "sb_record_event example_backend = (\<lambda>_ _ w. (Inr (), w))"
  "sb_synchronize_event example_backend = (\<lambda>_ w. (Inr (), w))"
  "sb_event_ipc_handle example_backend = (\<lambda>_ w. (Inr (Some [1]), w))"
  "sb_register_staging_buffer example_backend = (\<lambda>_ w. (Inr (), w))"
  "sb_unregister_staging_buffer example_backend = (\<lambda>w. (Inr (), w))"
  by (simp_all add: example_backend_def)

lemma example_staging_config_wf: "wf_staging_config example_staging_config"
  by (simp add: wf_staging_config_def example_staging_config_def device_index_def parse_indexed_cuda_device_def cuda_prefix_def
      isdigit_def py_int_of_digits_def digit_value_def unicode_zeros_def LMCACHE_CHUNK_SIZE_def GPT_OSS_MAX_CONTEXT_TOKENS_def
      code_points_def parse_digits_def py_str_int_def nat_decimal.simps decimal_digit_def)

lemma example_backend_quiet: "uninterrupted_backend example_backend"
  by (simp add: uninterrupted_backend_def quiet_def example_backend_def)

definition example_registered :: "unit StagingRuntime" where
  "example_registered =
     \<lparr>sg_config = example_staging_config, sg_state = REGISTERED, sg_tensor = Some (), sg_wrapper = Some (), sg_event = Some (),
      sg_event_handle = Some [1], sg_registration_may_exist = True\<rparr>"

definition example_registration :: "unit LmcacheStagingRegistration" where
  "example_registration = \<lparr>sr_instance_id = 0, sr_kv_cache_payload = [()],
     sr_layout = \<lparr>st_layer_count = 24, st_token_capacity = 512, st_kv_width = 512, st_dtype_name = STAGING_DTYPE\<rparr>\<rparr>"

definition example_lease :: StagingTransferLease where
  "example_lease = \<lparr>le_direction = STORE, le_buffer_offset = 0, le_token_extent = 256, le_capacity = 512, le_event_ipc_handle = [1]\<rparr>"

lemmas run_simps = ethen_def ebind_def etry_def eret_def eraise_def echeck_def asks_def update_def on_world_def of_result_def
  except_exception_def except_staging_error_def staging_device_index_def

lemma example_device_index: "device_index example_staging_config = Inr 0"
  by (simp add: example_staging_config_def device_index_def parse_indexed_cuda_device_def cuda_prefix_def
      isdigit_def py_int_of_digits_def digit_value_def unicode_zeros_def code_points_def parse_digits_def py_str_int_def
      nat_decimal.simps decimal_digit_def)

lemma example_handle: "checked_event_handle (Some [1]) = Inr [1]"
  by (simp add: checked_event_handle_def validate_event_handle_def MAX_EVENT_HANDLE_BYTES_def)

lemma example_export:
  assumes "sg_event rt = Some ()" "sg_config rt = example_staging_config" "x = None \<or> x = Some [1]"
  shows "record_and_export_event (observed example_backend) x (rt, (), j) = (Inr [1], rt, (), j @ exported [1])"
  using assms
  by (auto simp: record_and_export_event_def staging_synchronize_device_def run_simps observed_simps recorded_def
      example_backend_simps example_device_index example_handle exported_def)

lemma example_validated:
  assumes "sg_config rt = example_staging_config"
  shows "validate_tensor (observed example_backend) t (rt, (), j) = (Inr (), rt, (), j)"
    "validate_wrapper (observed example_backend) t (rt, (), j) = (Inr (), rt, (), j)"
  using assms
  by (simp_all add: validate_tensor_def validate_wrapper_def run_simps observed_simps unrecorded_def example_backend_simps
      example_device_index)

lemma example_created: "staging_reachable example_backend example_staging_config
  (\<lparr>sg_config = example_staging_config, sg_state = CREATED, sg_tensor = None, sg_wrapper = None, sg_event = None,
    sg_event_handle = None, sg_registration_may_exist = False\<rparr>, (), [])"
  by (rule staging_created [of _ _ "()"])
    (simp add: StagingRuntime_init_def staging_validate_versions_def run_simps observed_simps unrecorded_def example_backend_simps)

lemma example_opened:
  "staging_reachable example_backend example_staging_config (example_registered, (), exported [1] @ [Registering example_registration])"
proof (rule staging_opened [OF example_created])
  show "staging_open (observed example_backend)
      (\<lparr>sg_config = example_staging_config, sg_state = CREATED, sg_tensor = None, sg_wrapper = None, sg_event = None,
        sg_event_handle = None, sg_registration_may_exist = False\<rparr>, (), []) =
      (Inr (), example_registered, (), exported [1] @ [Registering example_registration])"
    by (simp add: staging_open_def staging_require_state_def run_simps observed_simps unrecorded_def recorded_def
        example_backend_simps example_export example_validated example_device_index
        staging_registration_wf [OF example_staging_config_wf])
      (simp add: example_registered_def example_registration_def example_staging_config_def)
qed

lemma example_transferred:
  "staging_reachable example_backend example_staging_config
     (example_registered, (), exported [1] @ [Registering example_registration] @ exported [1] @
        [Transferred example_lease True, DeviceSynchronized])"
proof (rule staging_transferred [OF example_opened])
  show "synchronous_transfer (observed example_backend) STORE (PInt 0) (PInt 256)
      (\<lambda>lease. recorded (\<lambda>r. Transferred lease (returned r)) (\<lambda>w. (Inr PNone, w)))
      (example_registered, (), exported [1] @ [Registering example_registration]) =
      (Inr PNone, example_registered, (), exported [1] @ [Registering example_registration] @ exported [1] @
        [Transferred example_lease True, DeviceSynchronized])"
    by (simp add: synchronous_transfer_def staging_require_state_def run_simps example_registered_def example_export
        StagingTransferLease_init_def example_handle example_lease_def staging_synchronize_device_def recorded_def observed_simps
        example_device_index example_backend_simps)
      (simp add: example_staging_config_def LMCACHE_CHUNK_SIZE_def)
qed

text \<open>
  The exclusion of interrupts is needed for ownership.  An interrupt out of the registration call leaves
  the runtime in the state \<^verbatim>\<open>CREATED\<close>, although the server may hold the registration; \<^verbatim>\<open>open\<close> may then be
  called again, and the new allocation replaces the tensor the registration declared.
\<close>

lemma interrupted_registration_stays_created:
  "staging_open (observed (example_backend\<lparr>sb_register_staging_buffer := \<lambda>_ w. (Inl Interrupt, w)\<rparr>))
     (\<lparr>sg_config = example_staging_config, sg_state = CREATED, sg_tensor = None, sg_wrapper = None, sg_event = None,
       sg_event_handle = None, sg_registration_may_exist = False\<rparr>, (), []) =
   (Inl Interrupt, example_registered\<lparr>sg_state := CREATED\<rparr>, (), exported [1] @ [Registering example_registration])"
proof -
  let ?env = "example_backend\<lparr>sb_register_staging_buffer := \<lambda>_ w. (Inl Interrupt, w)\<rparr>"
  have export: "record_and_export_event (observed ?env) None (rt, (), j) = (Inr [1], rt, (), j @ exported [1])"
    if "sg_event rt = Some ()" "sg_config rt = example_staging_config" for rt j
    using that
    by (simp add: record_and_export_event_def staging_synchronize_device_def run_simps observed_simps recorded_def
        example_backend_simps example_device_index example_handle exported_def)
  have valid: "validate_tensor (observed ?env) t (rt, (), j) = (Inr (), rt, (), j)"
    "validate_wrapper (observed ?env) t (rt, (), j) = (Inr (), rt, (), j)"
    if "sg_config rt = example_staging_config" for rt t j
    using that
    by (simp_all add: validate_tensor_def validate_wrapper_def run_simps observed_simps unrecorded_def example_backend_simps
        example_device_index)
  show ?thesis
    by (simp add: staging_open_def staging_require_state_def run_simps observed_simps unrecorded_def recorded_def
        example_backend_simps export valid example_device_index staging_registration_wf [OF example_staging_config_wf])
      (simp add: example_registered_def example_registration_def example_staging_config_def)
qed

lemma reopened_tensor_lost:
  assumes "sg_state rt = CREATED" "device_index (sg_config rt) = Inr i"
    "sb_validate_device env i (rt_gpu_name PINNED_TARGET) w = (Inr (), w')"
    "sb_allocate env (staging_config_shape (sg_config rt)) STAGING_DTYPE (sgc_device (sg_config rt)) w' = (Inr new, u)"
    "sb_tensor_shape env new u = (Inl OtherException, u')"
  shows "staging_open env (rt, w) =
    (Inl (StagingError INVALID_TENSOR), rt\<lparr>sg_tensor := Some new, sg_state := FAILED\<rparr>, u')"
  using assms
  by (simp add: staging_open_def staging_require_state_def validate_tensor_def staging_fail_def run_simps staging_mark_failed_def)

section \<open>Properties\<close>

text \<open>
  C33. As long as no backend call is interrupted, the shared buffer is not released while the server may
  hold it: after any sequence of calls, in which every backend call may fail with an exception and a
  transfer body may also be interrupted, a registration that was attempted and not successfully revoked
  finds the tensor, the event and the very wrapper it declared still owned by the runtime; a closed
  runtime has no registration left, and no call leaves a transfer open.  (Interrupted backend calls break
  this, as the lemmas before this section show.)
\<close>

theorem staging_owners_retained:
  assumes "StagingConfig_init i t d = Inr config" "uninterrupted_backend env" "staging_reachable env config (rt, w, j)"
  shows "(\<forall>reg. may_be_registered j = Some reg \<longrightarrow>
      sg_registration_may_exist rt \<and> sg_tensor rt \<noteq> None \<and> sg_event rt \<noteq> None \<and>
      (\<exists>wrapper. sg_wrapper rt = Some wrapper \<and> sr_kv_cache_payload reg = [wrapper])) \<and>
    (sg_state rt = REGISTERED \<longrightarrow> may_be_registered j \<noteq> None) \<and>
    (sg_state rt = CREATED \<or> sg_state rt = CLOSED \<longrightarrow> may_be_registered j = None \<and> no_owners rt) \<and>
    sg_state rt \<noteq> TRANSFER_ACTIVE"
proof -
  have "wf_staging_config config" using assms(1) by (simp add: StagingConfig_init_Inr)
  then have "staging_inv config (rt, w, j)" using staging_reachable_inv assms(2,3) by blast
  then show ?thesis by (auto simp: staging_inv_def owners_held_def)
qed

theorem staging_owners_retained_witness:
  "\<exists>reg. may_be_registered (exported [1] @ [Registering example_registration]) = Some reg \<and>
     sg_tensor example_registered \<noteq> None \<and> sg_wrapper example_registered = Some (hd (sr_kv_cache_payload reg))"
proof -
  have c: "StagingConfig_init (PInt 0) (PInt 512) (cuda_prefix @ [0x30]) = Inr example_staging_config"
    using example_staging_config_wf by (simp add: StagingConfig_init_Inr) (simp add: example_staging_config_def)
  from staging_owners_retained [OF this example_backend_quiet example_opened]
  show ?thesis by (simp add: may_be_registered_def outstanding_append exported_def example_registered_def)
qed

text \<open>
  C34. Every LMCache transfer is bracketed: whatever the caller does and whatever exceptions the backend
  raises, short of an interrupt, each transfer runs while the buffer is registered, inside its capacity, right after the device was synchronized and the
  event recorded, synchronized and exported with the lease's handle, and is followed by another device
  synchronization; a store moves complete chunks, and once a transfer failed there is never another.
\<close>

theorem staging_transfers_ordered:
  assumes "StagingConfig_init i t d = Inr config" "uninterrupted_backend env" "staging_reachable env config (rt, w, j)"
    "j = before @ Transferred lease ok # later"
  shows "transfer_in_order config before lease ok later"
proof -
  have "wf_staging_config config" using assms(1) by (simp add: StagingConfig_init_Inr)
  then have "staging_inv config (rt, w, j)" using staging_reachable_inv assms(2,3) by blast
  then show ?thesis using assms(4) by (auto simp: staging_inv_def transfers_in_order_def)
qed

theorem staging_transfers_ordered_witness:
  "transfer_in_order example_staging_config (exported [1] @ [Registering example_registration] @ exported [1]) example_lease True
     [DeviceSynchronized]"
proof -
  have c: "StagingConfig_init (PInt 0) (PInt 512) (cuda_prefix @ [0x30]) = Inr example_staging_config"
    using example_staging_config_wf by (simp add: StagingConfig_init_Inr) (simp add: example_staging_config_def)
  show ?thesis by (rule staging_transfers_ordered [OF c example_backend_quiet example_transferred]) simp
qed

end
