(* ===== verification/DataPlane.thy ===== *)
theory DataPlane
  imports Effects Layout
begin

text \<open>
  \<^verbatim>\<open>vllm_compat/v0_19_1/data_plane.py\<close>: the copies between the staging buffer and the paged caches.  Tensors
  are opaque objects; every operation on them, the key correction and the clock are functions of an
  environment that may raise and change the world.
\<close>

section \<open>Errors and receipts\<close>

datatype DataPlaneErrorCode =
    EMPTY_SPANS | LAYER_SET_MISMATCH | INVALID_LAYER | INVALID_ATTENTION_PATTERN | INVALID_GROUP_LAYOUT | INVALID_SPAN
  | RANGE_COVERAGE_MISMATCH | OVERLAPPING_WRITE | PAGED_CACHE_SET_MISMATCH | INVALID_PAGED_CACHE_SHAPE
  | INVALID_STAGING_SHAPE | PAGED_RANGE_OUT_OF_BOUNDS | STAGING_RANGE_OUT_OF_BOUNDS | DTYPE_MISMATCH | DEVICE_MISMATCH
  | INVALID_DEVICE | POSITION_CORRECTION_FAILED | INVALID_CORRECTED_KEY | TENSOR_VIEW_FAILED | MUTATION_FAILED
  | TORCH_DEPENDENCY_MISSING | TORCH_VERSION_MISMATCH | TORCH_CUDA_MISMATCH

datatype data_exn = DataPlaneError DataPlaneErrorCode | DataException | DataInterrupt

datatype TransferDirection = LOAD_FROM_STAGING | STORE_TO_STAGING

definition GPT_OSS_NUM_KV_HEADS :: int where
  "GPT_OSS_NUM_KV_HEADS = 8"

definition GPT_OSS_HEAD_DIM :: int where
  "GPT_OSS_HEAD_DIM = 64"

definition GPT_OSS_KV_WIDTH :: int where
  "GPT_OSS_KV_WIDTH = GPT_OSS_NUM_KV_HEADS * GPT_OSS_HEAD_DIM"

definition KV_COMPONENTS :: int where
  "KV_COMPONENTS = 2"

definition KEY_COMPONENT :: int where
  "KEY_COMPONENT = 0"

definition VALUE_COMPONENT :: int where
  "VALUE_COMPONENT = 1"

record DataPlaneReceipt =
  dr_direction :: TransferDirection
  dr_logical_tokens :: int
  dr_layer_token_rows :: int
  dr_span_count :: int
  dr_corrected_key_rows :: int
  dr_copied_key_rows :: int
  dr_copied_value_rows :: int
  dr_sinks_touched :: bool
  dr_position_correction_latency_seconds :: pyfloat

text \<open>The constructor, on a receipt with its fields set.\<close>

definition DataPlaneReceipt_init :: "DataPlaneReceipt \<Rightarrow> data_exn + DataPlaneReceipt" where
  "DataPlaneReceipt_init r =
     (if dr_sinks_touched r then Inl (DataPlaneError INVALID_SPAN)
      else case dr_position_correction_latency_seconds r of
        Finite latency \<Rightarrow> if latency < 0 then Inl (DataPlaneError INVALID_SPAN) else Inr r
      | _ \<Rightarrow> Inl (DataPlaneError INVALID_SPAN))"

text \<open>\<^verbatim>\<open>x + y\<close> of doubles: the exact sum rounded, infinite beyond the largest double.\<close>

fun float_add :: "pyfloat \<Rightarrow> pyfloat \<Rightarrow> pyfloat" where
  "float_add (Finite a) (Finite b) =
     (let s = round_double (a + b) in if s \<ge> 2 ^ 1024 then PosInf else if s \<le> - (2 ^ 1024) then NegInf else Finite s)"
| "float_add NaN _ = NaN"
| "float_add _ NaN = NaN"
| "float_add PosInf NegInf = NaN"
| "float_add NegInf PosInf = NaN"
| "float_add PosInf _ = PosInf"
| "float_add _ PosInf = PosInf"
| "float_add NegInf _ = NegInf"
| "float_add _ NegInf = NegInf"

fun float_minus :: "pyfloat \<Rightarrow> pyfloat" where
  "float_minus (Finite a) = Finite (- a)"
| "float_minus NaN = NaN"
| "float_minus PosInf = NegInf"
| "float_minus NegInf = PosInf"

definition float_sub :: "pyfloat \<Rightarrow> pyfloat \<Rightarrow> pyfloat" where
  "float_sub x y = float_add x (float_minus y)"

section \<open>Validating the spans\<close>

abbreviation lspan_target :: "LayerTokenScatterSpan \<Rightarrow> TokenRange" where
  "lspan_target s \<equiv> gs_target_range (lspan_group_span s)"

abbreviation lspan_source :: "LayerTokenScatterSpan \<Rightarrow> TokenRange" where
  "lspan_source s \<equiv> gs_source_range (lspan_group_span s)"

abbreviation lspan_count :: "LayerTokenScatterSpan \<Rightarrow> int" where
  "lspan_count s \<equiv> span_token_count (lspan_group_span s)"

abbreviation lspan_slot :: "LayerTokenScatterSpan \<Rightarrow> int" where
  "lspan_slot s \<equiv> gs_physical_slot_start (lspan_group_span s)"

definition valid_span_fields :: "GroupTokenScatterSpan \<Rightarrow> bool" where
  "valid_span_fields g \<longleftrightarrow>
     (gs_group_id g = 0 \<or> gs_group_id g = 1) \<and> 0 \<le> gs_logical_block_index g \<and> 0 \<le> gs_block_id g \<and> 0 < gs_block_size g \<and>
     0 \<le> gs_block_offset g \<and> 0 \<le> gs_physical_slot_start g \<and> range_len (gs_source_range g) \<noteq> 0 \<and>
     range_len (gs_source_range g) = range_len (gs_target_range g) \<and>
     tr_end (gs_source_range g) \<le> GPT_OSS_MAX_CONTEXT_TOKENS \<and> tr_end (gs_target_range g) \<le> GPT_OSS_MAX_CONTEXT_TOKENS"

text \<open>The attention kind and block size each group id was first seen with.\<close>

record SpanScan =
  ss_group_kind :: "int \<rightharpoonup> AttentionKind"
  ss_group_block_size :: "int \<rightharpoonup> int"

definition setdefault :: "('k \<rightharpoonup> 'v) \<Rightarrow> 'k \<Rightarrow> 'v \<Rightarrow> ('k \<rightharpoonup> 'v)" where
  "setdefault m k v = (if m k = None then m(k \<mapsto> v) else m)"

definition scan_span :: "SpanScan \<Rightarrow> LayerTokenScatterSpan \<Rightarrow> DataPlaneErrorCode + SpanScan" where
  "scan_span scan sp =
     (let g = lspan_group_span sp;
          kinds = setdefault (ss_group_kind scan) (gs_group_id g) (gs_attention_kind g);
          sizes = setdefault (ss_group_block_size scan) (gs_group_id g) (gs_block_size g)
      in if \<not> valid_span_fields g then Inl INVALID_SPAN
         else if lspan_layer_name sp \<noteq> ascii_layer_name (lspan_layer_index sp) \<or>
             \<not> (0 \<le> lspan_layer_index sp \<and> lspan_layer_index sp < GPT_OSS_NUM_LAYERS) then Inl INVALID_LAYER
         else if gs_attention_kind g \<noteq> expected_kind (lspan_layer_index sp) then Inl INVALID_ATTENTION_PATTERN
         else if kinds (gs_group_id g) \<noteq> Some (gs_attention_kind g) then Inl INVALID_GROUP_LAYOUT
         else if sizes (gs_group_id g) \<noteq> Some (gs_block_size g) then Inl INVALID_GROUP_LAYOUT
         else if span_token_count g \<le> 0 \<or> range_len (gs_source_range g) \<noteq> span_token_count g \<or>
             gs_block_offset g + span_token_count g > gs_block_size g \<or>
             gs_physical_slot_start g \<noteq> gs_block_id g * gs_block_size g + gs_block_offset g then Inl INVALID_SPAN
         else Inr \<lparr>ss_group_kind = kinds, ss_group_block_size = sizes\<rparr>)"

fun scan_spans :: "SpanScan \<Rightarrow> LayerTokenScatterSpan list \<Rightarrow> DataPlaneErrorCode + SpanScan" where
  "scan_spans scan [] = Inr scan"
| "scan_spans scan (sp # rest) = rbind (scan_span scan sp) (\<lambda>scan'. scan_spans scan' rest)"

text \<open>\<^verbatim>\<open>by_layer[layer_index]\<close> and its ordering.\<close>

definition spans_of_layer :: "LayerTokenScatterSpan list \<Rightarrow> int \<Rightarrow> LayerTokenScatterSpan list" where
  "spans_of_layer spans layer_index = filter (\<lambda>s. lspan_layer_index s = layer_index) spans"

definition ordered_layer :: "LayerTokenScatterSpan list \<Rightarrow> int \<Rightarrow> LayerTokenScatterSpan list" where
  "ordered_layer spans layer_index = sort_key (\<lambda>s. tr_start (lspan_target s)) (spans_of_layer spans layer_index)"

text \<open>The spans of one layer follow each other without gaps and write disjoint slots.\<close>

fun cover_layer :: "int \<Rightarrow> int \<Rightarrow> int \<Rightarrow> TokenRange list \<Rightarrow> LayerTokenScatterSpan list \<Rightarrow> DataPlaneErrorCode + int \<times> int" where
  "cover_layer delta source_cursor target_cursor physical_ranges [] = Inr (source_cursor, target_cursor)"
| "cover_layer delta source_cursor target_cursor physical_ranges (sp # rest) =
     (if tr_start (lspan_source sp) \<noteq> source_cursor \<or> tr_start (lspan_target sp) \<noteq> target_cursor
      then Inl RANGE_COVERAGE_MISMATCH
      else if tr_start (lspan_target sp) - tr_start (lspan_source sp) \<noteq> delta then Inl RANGE_COVERAGE_MISMATCH
      else
        let physical_range = \<lparr>tr_start = lspan_slot sp, tr_end = lspan_slot sp + lspan_count sp\<rparr> in
        if \<exists>existing\<in>set physical_ranges. overlaps physical_range existing then Inl OVERLAPPING_WRITE
        else cover_layer delta (tr_end (lspan_source sp)) (tr_end (lspan_target sp)) (physical_ranges @ [physical_range]) rest)"

definition layer_ranges :: "LayerTokenScatterSpan list \<Rightarrow> DataPlaneErrorCode + TokenRange \<times> TokenRange" where
  "layer_ranges ordered =
     (let source_start = tr_start (lspan_source (hd ordered)); target_start = tr_start (lspan_target (hd ordered)) in
      rbind (cover_layer (target_start - source_start) source_start target_start [] ordered) (\<lambda>(source_cursor, target_cursor).
        Inr (\<lparr>tr_start = source_start, tr_end = source_cursor\<rparr>, \<lparr>tr_start = target_start, tr_end = target_cursor\<rparr>)))"

text \<open>The loop over the layers: all cover the ranges of the first.\<close>

fun canonical_ranges ::
    "LayerTokenScatterSpan list \<Rightarrow> (TokenRange \<times> TokenRange) option \<Rightarrow> int list \<Rightarrow>
     DataPlaneErrorCode + (TokenRange \<times> TokenRange) option" where
  "canonical_ranges spans canonical [] = Inr canonical"
| "canonical_ranges spans canonical (layer_index # rest) =
     rbind (layer_ranges (ordered_layer spans layer_index)) (\<lambda>ranges.
       if canonical \<noteq> None \<and> canonical \<noteq> Some ranges then Inl RANGE_COVERAGE_MISMATCH
       else canonical_ranges spans (Some ranges) rest)"

record ValidatedSpans =
  vs_spans :: "LayerTokenScatterSpan list"
  vs_source_range :: TokenRange
  vs_target_range :: TokenRange
  vs_layer_names :: "pystr list"

definition logical_tokens :: "ValidatedSpans \<Rightarrow> int" where
  "logical_tokens v = range_len (vs_target_range v)"

definition layer_token_rows :: "ValidatedSpans \<Rightarrow> int" where
  "layer_token_rows v = logical_tokens v * GPT_OSS_NUM_LAYERS"

definition all_layers :: "int list" where
  "all_layers = [0..GPT_OSS_NUM_LAYERS - 1]"

definition validate_spans :: "LayerTokenScatterSpan list \<Rightarrow> DataPlaneErrorCode + ValidatedSpans" where
  "validate_spans spans =
     (if spans = [] then Inl EMPTY_SPANS
      else rbind (scan_spans \<lparr>ss_group_kind = Map.empty, ss_group_block_size = Map.empty\<rparr> spans) (\<lambda>scan.
        if set (map lspan_layer_index spans) \<noteq> set all_layers then Inl LAYER_SET_MISMATCH
        else if ss_group_kind scan 0 = None \<or> ss_group_kind scan 1 = None \<or>
            {the (ss_group_kind scan 0), the (ss_group_kind scan 1)} \<noteq> {SLIDING, FULL} then Inl INVALID_GROUP_LAYOUT
        else rbind (canonical_ranges spans None all_layers) (\<lambda>canonical.
          Inr \<lparr>vs_spans = concat (map (ordered_layer spans) all_layers), vs_source_range = fst (the canonical),
               vs_target_range = snd (the canonical),
               vs_layer_names = map (\<lambda>i. lspan_layer_name (last (spans_of_layer spans i))) all_layers\<rparr>)))"

section \<open>The collaborators\<close>

text \<open>
  \<^verbatim>\<open>TensorOps\<close>, \<^verbatim>\<open>KeyPositionCorrector\<close> and \<^verbatim>\<open>perf_counter\<close>.  Views take the component, the block or layer,
  the first row and the number of rows.
\<close>

record ('o, 'w) DataEnvironment =
  de_shape :: "'o \<Rightarrow> 'w \<Rightarrow> (data_exn + pyval list) \<times> 'w"
  de_dtype_name :: "'o \<Rightarrow> 'w \<Rightarrow> (data_exn + string) \<times> 'w"
  de_device_name :: "'o \<Rightarrow> 'w \<Rightarrow> (data_exn + string) \<times> 'w"
  de_paged_rows :: "'o \<Rightarrow> int \<Rightarrow> int \<Rightarrow> int \<Rightarrow> int \<Rightarrow> 'w \<Rightarrow> (data_exn + 'o) \<times> 'w"
  de_staging_rows :: "'o \<Rightarrow> int \<Rightarrow> int \<Rightarrow> int \<Rightarrow> int \<Rightarrow> 'w \<Rightarrow> (data_exn + 'o) \<times> 'w"
  de_reshape :: "'o \<Rightarrow> int list \<Rightarrow> 'w \<Rightarrow> (data_exn + 'o) \<times> 'w"
  de_copy :: "'o \<Rightarrow> 'o \<Rightarrow> 'w \<Rightarrow> (data_exn + unit) \<times> 'w"
  de_synchronize :: "'o \<Rightarrow> 'w \<Rightarrow> (data_exn + unit) \<times> 'w"
  de_correct_key_positions :: "'o \<Rightarrow> int list \<Rightarrow> int list \<Rightarrow> int \<Rightarrow> 'w \<Rightarrow> (data_exn + 'o) \<times> 'w"
  de_perf_counter :: "'w \<Rightarrow> pyfloat \<times> 'w"

text \<open>\<^verbatim>\<open>_ReadOnlyTensorOps\<close> of the worker bridge: everything is delegated but the copy.\<close>

definition read_only :: "('o, 'w) DataEnvironment \<Rightarrow> ('o, 'w) DataEnvironment" where
  "read_only env = env\<lparr>de_copy := (\<lambda>_ _ w. (Inr (), w))\<rparr>"

type_synonym ('w, 'a) data_prog = "('w, data_exn, 'a) prog"

text \<open>\<^verbatim>\<open>except Exception\<close>, re-raised under a code.\<close>

definition except_data :: "('w, 'a) data_prog \<Rightarrow> DataPlaneErrorCode \<Rightarrow> ('w, 'a) data_prog" where
  "except_data m code = etry m (\<lambda>e. if e = DataInterrupt then eraise e else eraise (DataPlaneError code))"

definition require :: "bool \<Rightarrow> DataPlaneErrorCode \<Rightarrow> ('w, unit) data_prog" where
  "require ok code = echeck ok (DataPlaneError code)"

definition clock :: "('o, 'w) DataEnvironment \<Rightarrow> ('w, pyfloat) data_prog" where
  "clock env = (\<lambda>w. case de_perf_counter env w of (t, w') \<Rightarrow> (Inr t, w'))"

definition safe_shape :: "('o, 'w) DataEnvironment \<Rightarrow> 'o \<Rightarrow> ('w, int list) data_prog" where
  "safe_shape env t =
     ebind (except_data (de_shape env t) TENSOR_VIEW_FAILED) (\<lambda>shape.
     ethen (require (\<forall>dim\<in>set shape. nonneg_int dim) TENSOR_VIEW_FAILED)
           (eret (map the_int shape)))"

definition safe_dtype :: "('o, 'w) DataEnvironment \<Rightarrow> 'o \<Rightarrow> ('w, string) data_prog" where
  "safe_dtype env t =
     ebind (except_data (de_dtype_name env t) TENSOR_VIEW_FAILED) (\<lambda>dtype.
     ethen (require (dtype \<noteq> []) TENSOR_VIEW_FAILED) (eret dtype))"

definition safe_device :: "('o, 'w) DataEnvironment \<Rightarrow> 'o \<Rightarrow> ('w, string) data_prog" where
  "safe_device env t =
     ebind (except_data (de_device_name env t) TENSOR_VIEW_FAILED) (\<lambda>device.
     ethen (require (device \<noteq> []) TENSOR_VIEW_FAILED) (eret device))"

definition validate_view :: "('o, 'w) DataEnvironment \<Rightarrow> 'o \<Rightarrow> int list \<Rightarrow> 'o \<Rightarrow> ('w, unit) data_prog" where
  "validate_view env view expected_shape owner =
     ebind (safe_shape env view) (\<lambda>shape.
     ethen (require (shape = expected_shape) TENSOR_VIEW_FAILED)
    (ebind (safe_dtype env view) (\<lambda>view_dtype. ebind (safe_dtype env owner) (\<lambda>owner_dtype.
     ethen (require (view_dtype = owner_dtype) DTYPE_MISMATCH)
    (ebind (safe_device env view) (\<lambda>view_device. ebind (safe_device env owner) (\<lambda>owner_device.
       require (view_device = owner_device) DEVICE_MISMATCH)))))))"

section \<open>Common checks\<close>

type_synonym 'o caches = "(pystr \<times> 'o) list"

definition paged_cache :: "'o caches \<Rightarrow> pystr \<Rightarrow> ('w, 'o) data_prog" where
  "paged_cache caches name = (case map_of caches name of None \<Rightarrow> eraise DataException | Some cache \<Rightarrow> eret cache)"

text \<open>The checks of one layer's cache against the spans of the layer.\<close>

definition check_cache ::
    "('o, 'w) DataEnvironment \<Rightarrow> string \<Rightarrow> string \<Rightarrow> LayerTokenScatterSpan list \<Rightarrow> 'o \<Rightarrow> ('w, unit) data_prog" where
  "check_cache env staging_dtype staging_device spans cache =
     (let block_size = gs_block_size (lspan_group_span (hd spans)) in
      ebind (safe_shape env cache) (\<lambda>shape.
      ethen (require (card (set (map (gs_block_size \<circ> lspan_group_span) spans)) = 1) INVALID_GROUP_LAYOUT)
     (ethen (require (length shape = 5 \<and> 0 < shape ! 0 \<and> shape ! 1 = KV_COMPONENTS \<and> shape ! 2 = block_size \<and>
          shape ! 3 = GPT_OSS_NUM_KV_HEADS \<and> shape ! 4 = GPT_OSS_HEAD_DIM) INVALID_PAGED_CACHE_SHAPE)
     (ethen (require (block_size mod 16 = 0) INVALID_PAGED_CACHE_SHAPE)
     (ebind (safe_dtype env cache) (\<lambda>dtype.
      ethen (require (dtype = staging_dtype) DTYPE_MISMATCH)
     (ebind (safe_device env cache) (\<lambda>device.
      ethen (require (device = staging_device) DEVICE_MISMATCH)
            (for_each (\<lambda>sp.
               ethen (require (gs_block_id (lspan_group_span sp) < shape ! 0) PAGED_RANGE_OUT_OF_BOUNDS)
                     (require (gs_block_offset (lspan_group_span sp) + lspan_count sp \<le> shape ! 2) PAGED_RANGE_OUT_OF_BOUNDS))
               spans)))))))))"

definition preflight_common ::
    "('o, 'w) DataEnvironment \<Rightarrow> 'o \<Rightarrow> 'o caches \<Rightarrow> LayerTokenScatterSpan list \<Rightarrow> ('w, ValidatedSpans) data_prog" where
  "preflight_common env staging caches layer_spans =
     ebind (of_result (map_sum DataPlaneError id (validate_spans layer_spans))) (\<lambda>validated.
     ethen (require (set (map fst caches) = set (vs_layer_names validated)) PAGED_CACHE_SET_MISMATCH)
    (ebind (safe_shape env staging) (\<lambda>shape.
     ethen (require (length shape = 4 \<and> shape ! 0 = KV_COMPONENTS \<and> shape ! 1 = GPT_OSS_NUM_LAYERS \<and> 0 < shape ! 2 \<and>
         shape ! 3 = GPT_OSS_KV_WIDTH) INVALID_STAGING_SHAPE)
    (ebind (safe_dtype env staging) (\<lambda>dtype. ebind (safe_device env staging) (\<lambda>device.
     ethen (require (take 5 device = ''cuda:'') INVALID_DEVICE)
    (ethen (for_each (\<lambda>name. ebind (paged_cache caches name)
         (check_cache env dtype device (filter (\<lambda>s. lspan_layer_name s = name) (vs_spans validated))))
         (vs_layer_names validated))
           (eret validated))))))))"

text \<open>\<^verbatim>\<open>_require_plain_int\<close>\<close>

definition data_require_plain_int :: "pyval \<Rightarrow> int \<Rightarrow> ('w, unit) data_prog" where
  "data_require_plain_int v minimum = require (is_plain_int v \<and> minimum \<le> the_int v) INVALID_SPAN"

section \<open>Preparing and applying the copies\<close>

definition positions :: "TokenRange \<Rightarrow> int list" where
  "positions r = [tr_start r..tr_end r - 1]"

definition prepare_scatter_span ::
    "('o, 'w) DataEnvironment \<Rightarrow> 'o \<Rightarrow> 'o \<Rightarrow> LayerTokenScatterSpan \<Rightarrow> int \<Rightarrow> ('w, ('o \<times> 'o) list \<times> pyfloat) data_prog" where
  "prepare_scatter_span env staging paged sp staging_start =
     (let token_count = lspan_count sp; g = lspan_group_span sp;
          expected_shape = [token_count, GPT_OSS_NUM_KV_HEADS, GPT_OSS_HEAD_DIM] in
      ebind (except_data
        (ebind (de_staging_rows env staging KEY_COMPONENT (lspan_layer_index sp) staging_start token_count) (\<lambda>staged_key.
         ebind (de_staging_rows env staging VALUE_COMPONENT (lspan_layer_index sp) staging_start token_count) (\<lambda>staged_value.
         ebind (de_reshape env staged_key expected_shape) (\<lambda>key_rows.
         ebind (de_reshape env staged_value expected_shape) (\<lambda>value_rows.
         ebind (de_paged_rows env paged KEY_COMPONENT (gs_block_id g) (gs_block_offset g) token_count) (\<lambda>key_destination.
         ebind (de_paged_rows env paged VALUE_COMPONENT (gs_block_id g) (gs_block_offset g) token_count) (\<lambda>value_destination.
           eret (key_rows, value_rows, key_destination, value_destination))))))))
        TENSOR_VIEW_FAILED) (\<lambda>(key_rows, value_rows, key_destination, value_destination).
      ethen (validate_view env key_rows expected_shape staging)
     (ethen (validate_view env value_rows expected_shape staging)
     (ethen (validate_view env key_destination expected_shape paged)
     (ethen (validate_view env value_destination expected_shape paged)
     (ebind (clock env) (\<lambda>started_at.
      ebind (except_data (de_correct_key_positions env key_rows (positions (lspan_source sp)) (positions (lspan_target sp))
          (lspan_layer_index sp)) POSITION_CORRECTION_FAILED) (\<lambda>corrected_key.
      ebind (clock env) (\<lambda>ended_at.
      ethen (etry (validate_view env corrected_key expected_shape staging)
          (\<lambda>e. case e of DataPlaneError _ \<Rightarrow> eraise (DataPlaneError INVALID_CORRECTED_KEY) | _ \<Rightarrow> eraise e))
            (eret ([(key_destination, corrected_key), (value_destination, value_rows)], float_sub ended_at started_at)))))))))))"

definition prepare_gather_span ::
    "('o, 'w) DataEnvironment \<Rightarrow> 'o \<Rightarrow> 'o \<Rightarrow> LayerTokenScatterSpan \<Rightarrow> int \<Rightarrow> ('w, ('o \<times> 'o) list) data_prog" where
  "prepare_gather_span env paged staging sp staging_start =
     (let token_count = lspan_count sp; g = lspan_group_span sp;
          paged_shape = [token_count, GPT_OSS_NUM_KV_HEADS, GPT_OSS_HEAD_DIM];
          staging_shape = [token_count, GPT_OSS_KV_WIDTH] in
      ebind (except_data
        (ebind (de_paged_rows env paged KEY_COMPONENT (gs_block_id g) (gs_block_offset g) token_count) (\<lambda>paged_key.
         ebind (de_paged_rows env paged VALUE_COMPONENT (gs_block_id g) (gs_block_offset g) token_count) (\<lambda>paged_value.
         ebind (de_staging_rows env staging KEY_COMPONENT (lspan_layer_index sp) staging_start token_count) (\<lambda>staging_key.
         ebind (de_staging_rows env staging VALUE_COMPONENT (lspan_layer_index sp) staging_start token_count) (\<lambda>staging_value.
         ebind (de_reshape env paged_key staging_shape) (\<lambda>flat_key.
         ebind (de_reshape env paged_value staging_shape) (\<lambda>flat_value.
           eret (paged_key, paged_value, staging_key, staging_value, flat_key, flat_value))))))))
        TENSOR_VIEW_FAILED) (\<lambda>(paged_key, paged_value, staging_key, staging_value, flat_key, flat_value).
      ethen (validate_view env paged_key paged_shape paged)
     (ethen (validate_view env paged_value paged_shape paged)
     (ethen (validate_view env flat_key staging_shape paged)
     (ethen (validate_view env flat_value staging_shape paged)
     (ethen (validate_view env staging_key staging_shape staging)
     (ethen (validate_view env staging_value staging_shape staging)
            (eret [(staging_key, flat_key), (staging_value, flat_value)]))))))))"

definition apply_copies :: "('o, 'w) DataEnvironment \<Rightarrow> ('o \<times> 'o) list \<Rightarrow> 'o \<Rightarrow> ('w, unit) data_prog" where
  "apply_copies env prepared sync_tensor =
     except_data (ethen (for_each (\<lambda>(destination, source). de_copy env destination source) prepared)
       (de_synchronize env sync_tensor)) MUTATION_FAILED"

fun prepare_scatter ::
    "('o, 'w) DataEnvironment \<Rightarrow> 'o \<Rightarrow> 'o caches \<Rightarrow> int \<Rightarrow> ('o \<times> 'o) list \<Rightarrow> pyfloat \<Rightarrow> LayerTokenScatterSpan list \<Rightarrow>
     ('w, ('o \<times> 'o) list \<times> pyfloat) data_prog" where
  "prepare_scatter env staging caches offset prepared latency [] = eret (prepared, latency)"
| "prepare_scatter env staging caches offset prepared latency (sp # rest) =
     ebind (paged_cache caches (lspan_layer_name sp)) (\<lambda>paged.
     ebind (prepare_scatter_span env staging paged sp (offset + tr_start (lspan_target sp))) (\<lambda>(copies, span_latency).
       prepare_scatter env staging caches offset (prepared @ copies) (float_add latency span_latency) rest))"

fun prepare_gather ::
    "('o, 'w) DataEnvironment \<Rightarrow> 'o \<Rightarrow> 'o caches \<Rightarrow> int \<Rightarrow> int \<Rightarrow> ('o \<times> 'o) list \<Rightarrow> LayerTokenScatterSpan list \<Rightarrow>
     ('w, ('o \<times> 'o) list) data_prog" where
  "prepare_gather env staging caches document_start offset prepared [] = eret prepared"
| "prepare_gather env staging caches document_start offset prepared (sp # rest) =
     ebind (paged_cache caches (lspan_layer_name sp)) (\<lambda>paged.
     ebind (prepare_gather_span env paged staging sp (offset + (tr_start (lspan_target sp) - document_start))) (\<lambda>copies.
       prepare_gather env staging caches document_start offset (prepared @ copies) rest))"

definition load_receipt :: "ValidatedSpans \<Rightarrow> pyfloat \<Rightarrow> DataPlaneReceipt" where
  "load_receipt v latency =
     \<lparr>dr_direction = LOAD_FROM_STAGING, dr_logical_tokens = logical_tokens v, dr_layer_token_rows = layer_token_rows v,
      dr_span_count = int (length (vs_spans v)), dr_corrected_key_rows = layer_token_rows v,
      dr_copied_key_rows = layer_token_rows v, dr_copied_value_rows = layer_token_rows v, dr_sinks_touched = False,
      dr_position_correction_latency_seconds = latency\<rparr>"

definition store_receipt :: "ValidatedSpans \<Rightarrow> DataPlaneReceipt" where
  "store_receipt v =
     \<lparr>dr_direction = STORE_TO_STAGING, dr_logical_tokens = logical_tokens v, dr_layer_token_rows = layer_token_rows v,
      dr_span_count = int (length (vs_spans v)), dr_corrected_key_rows = 0,
      dr_copied_key_rows = layer_token_rows v, dr_copied_value_rows = layer_token_rows v, dr_sinks_touched = False,
      dr_position_correction_latency_seconds = Finite 0\<rparr>"

definition scatter_retrieved_kv ::
    "('o, 'w) DataEnvironment \<Rightarrow> 'o \<Rightarrow> 'o caches \<Rightarrow> LayerTokenScatterSpan list \<Rightarrow> pyval \<Rightarrow> pyval \<Rightarrow> ('w, DataPlaneReceipt) data_prog" where
  "scatter_retrieved_kv env staging caches layer_spans retrieval_buffer_offset query_token_count =
     ebind (preflight_common env staging caches layer_spans) (\<lambda>validated.
     ethen (data_require_plain_int retrieval_buffer_offset 0)
    (ethen (data_require_plain_int query_token_count 1)
    (ethen (require (the_int query_token_count \<le> GPT_OSS_MAX_CONTEXT_TOKENS) STAGING_RANGE_OUT_OF_BOUNDS)
    (ethen (require (tr_end (vs_target_range validated) \<le> the_int query_token_count) STAGING_RANGE_OUT_OF_BOUNDS)
    (ebind (safe_shape env staging) (\<lambda>shape.
     ethen (require (the_int retrieval_buffer_offset + the_int query_token_count \<le> shape ! 2) STAGING_RANGE_OUT_OF_BOUNDS)
    (ebind (prepare_scatter env staging caches (the_int retrieval_buffer_offset) [] (Finite 0) (vs_spans validated))
       (\<lambda>(prepared, latency).
     ethen (apply_copies env prepared (snd (hd caches)))
           (of_result (DataPlaneReceipt_init (load_receipt validated latency)))))))))))"

definition gather_precomputed_kv ::
    "('o, 'w) DataEnvironment \<Rightarrow> 'o \<Rightarrow> 'o caches \<Rightarrow> LayerTokenScatterSpan list \<Rightarrow> TokenRange \<Rightarrow> pyval \<Rightarrow> ('w, DataPlaneReceipt) data_prog" where
  "gather_precomputed_kv env staging caches layer_spans document_target_range store_buffer_offset =
     ebind (preflight_common env staging caches layer_spans) (\<lambda>validated.
     ethen (require (document_target_range = vs_target_range validated) RANGE_COVERAGE_MISMATCH)
    (ethen (data_require_plain_int store_buffer_offset 0)
    (ebind (safe_shape env staging) (\<lambda>shape.
     ethen (require (the_int store_buffer_offset + range_len document_target_range \<le> shape ! 2) STAGING_RANGE_OUT_OF_BOUNDS)
    (ebind (prepare_gather env staging caches (tr_start document_target_range) (the_int store_buffer_offset) [] (vs_spans validated))
       (\<lambda>prepared.
     ethen (apply_copies env prepared staging)
           (of_result (DataPlaneReceipt_init (store_receipt validated)))))))))"

end
