(* ===== verification/WorkerBridge.thy ===== *)
theory WorkerBridge
  imports TransferRuntime Staging DataPlane
begin

text \<open>
  \<^verbatim>\<open>vllm_compat/v0_19_1/worker_bridge.py\<close>: the storage and data plane that the transfer runtime calls, over
  one staging runtime, one LMCache transport, one sidecar and one data plane.  The bridge decides which
  calls may follow which: nothing is retrieved, scattered, gathered or stored without the dry runs and
  the earlier steps of the very same plan object.  A plan object is a reference: an identity with its
  value, and \<^verbatim>\<open>is\<close> compares identities.
\<close>

section \<open>Errors, configuration and collaborators\<close>

datatype WorkerBridgeErrorCode =
    INVALID_CONFIG | INVALID_STATE | INVALID_PLAN | PLAN_ORDER_MISMATCH | STAGING_RANGE_OUT_OF_BOUNDS
  | TRANSPORT_CONFIG_MISMATCH | RECEIPT_MISMATCH | OPEN_FAILED | CLOSE_FAILED

text \<open>The bridge's own error, or what a collaborator raised.\<close>

datatype bridge_exn = WorkerBridgeError WorkerBridgeErrorCode | BridgeRaise staging_exn

datatype WorkerBridgeState = CREATED | READY | FAILED | CLOSED

record WorkerBridgeBufferConfig =
  bc_retrieval_buffer_offset :: int
  bc_store_buffer_offset :: int

definition WorkerBridgeBufferConfig_init :: "pyval \<Rightarrow> pyval \<Rightarrow> bridge_exn + WorkerBridgeBufferConfig" where
  "WorkerBridgeBufferConfig_init retrieval store =
     (if \<not> is_plain_int retrieval \<or> the_int retrieval < 0 \<or> \<not> is_plain_int store \<or> the_int store < 0
      then Inl (WorkerBridgeError INVALID_CONFIG)
      else Inr \<lparr>bc_retrieval_buffer_offset = the_int retrieval, bc_store_buffer_offset = the_int store\<rparr>)"

definition MAX_LMCACHE_TOKEN_ID :: int where
  "MAX_LMCACHE_TOKEN_ID = 2 ^ 32 - 1"

type_synonym 'p plan_ref = "nat \<times> 'p"




record 'o GptOssWorkerBridge =
  br_buffer_config :: WorkerBridgeBufferConfig
  br_staging :: "'o StagingRuntime"
  br_state :: WorkerBridgeState
  br_load_storage_preflight :: "WorkerLoadPlan plan_ref option"
  br_load_data_preflight :: "WorkerLoadPlan plan_ref option"
  br_retrieved_plan :: "WorkerLoadPlan plan_ref option"
  br_position_correction_latency_seconds :: pyfloat
  br_gather_preflight :: "WorkerStorePlan plan_ref option"
  br_store_preflight :: "WorkerStorePlan plan_ref option"
  br_gathered_plan :: "WorkerStorePlan plan_ref option"

type_synonym ('o, 'w, 'a) bridge_prog = "('o GptOssWorkerBridge \<times> 'w, bridge_exn, 'a) prog"

definition bridge_fail :: "WorkerBridgeErrorCode \<Rightarrow> ('o, 'w, 'a) bridge_prog" where
  "bridge_fail code = eraise (WorkerBridgeError code)"



definition except_bridge_exception :: "('s, bridge_exn, 'a) prog \<Rightarrow> ('s, bridge_exn, 'a) prog \<Rightarrow> ('s, bridge_exn, 'a) prog" where
  "except_bridge_exception m handler = etry m (\<lambda>e. if e = BridgeRaise Interrupt then eraise e else handler)"

text \<open>\<^verbatim>\<open>except Exception: update; raise\<close>\<close>

definition except_reraise ::
    "('o, 'w, 'a) bridge_prog \<Rightarrow> ('o GptOssWorkerBridge \<Rightarrow> 'o GptOssWorkerBridge) \<Rightarrow> ('o, 'w, 'a) bridge_prog" where
  "except_reraise m change = etry m (\<lambda>e. if e = BridgeRaise Interrupt then eraise e else ethen (update change) (eraise e))"

text \<open>\<^verbatim>\<open>finally: update\<close>\<close>

definition finally_update ::
    "('o, 'w, 'a) bridge_prog \<Rightarrow> ('o GptOssWorkerBridge \<Rightarrow> 'o GptOssWorkerBridge) \<Rightarrow> ('o, 'w, 'a) bridge_prog" where
  "finally_update m change = efinally m (\<lambda>(br, w). (change br, w))"


section \<open>Validation\<close>

definition check_that :: "bool \<Rightarrow> WorkerBridgeErrorCode \<Rightarrow> bridge_exn + unit" where
  "check_that ok code = (if ok then Inr () else Inl (WorkerBridgeError code))"

definition validate_request_tokens :: "int list \<Rightarrow> bridge_exn + unit" where
  "validate_request_tokens tokens =
     check_that (tokens \<noteq> [] \<and> (\<forall>t\<in>set tokens. 0 \<le> t \<and> t \<le> MAX_LMCACHE_TOKEN_ID)) INVALID_PLAN"

text \<open>\<^verbatim>\<open>validate_request_id\<close> raises an error of the LMCache boundary.\<close>

definition bridge_request_id :: "string \<Rightarrow> bridge_exn + unit" where
  "bridge_request_id i = (case validate_request_id i of Inl _ \<Rightarrow> Inl (BridgeRaise OtherException) | Inr _ \<Rightarrow> Inr ())"

definition load_work_valid :: "WorkerLoadPlan \<Rightarrow> nat \<times> CandidateScatterWork \<Rightarrow> bool" where
  "load_work_valid work = (\<lambda>(index, candidate).
     (let verified = tm_verified_candidates (wl_metadata work) ! index in
      cw_candidate_index candidate = int index \<and> cw_verified_candidate candidate = verified \<and>
      tt_source_range (sp_transfer (cw_scatter_plan candidate)) = source_range (vm_record (vc_match verified)) \<and>
      tt_target_range (sp_transfer (cw_scatter_plan candidate)) = lc_target_range (vc_candidate verified)))"

definition validate_load_plan :: "WorkerLoadPlan \<Rightarrow> bridge_exn + unit" where
  "validate_load_plan work =
     rbind (check_that (tm_transfer_eligible (wl_metadata work) \<and> wl_candidates work \<noteq> [] \<and>
         length (wl_candidates work) = length (tm_verified_candidates (wl_metadata work)) \<and>
         load_expected_tokens work = int (length (wl_candidates work)) * LMCACHE_CHUNK_SIZE) INVALID_PLAN) (\<lambda>_.
     rbind (check_that (list_all (load_work_valid work) (List.enumerate 0 (wl_candidates work))) INVALID_PLAN) (\<lambda>_.
     rbind (validate_request_tokens (tm_prompt_token_ids (wl_metadata work))) (\<lambda>_.
       bridge_request_id (tm_request_id (wl_metadata work)))))"

definition store_chunk_valid :: "WorkerStorePlan \<Rightarrow> nat \<times> StoreChunkWork \<Rightarrow> bool" where
  "store_chunk_valid work = (\<lambda>(index, chunk).
     (let expected_range = \<lparr>tr_start = int index * LMCACHE_CHUNK_SIZE, tr_end = (int index + 1) * LMCACHE_CHUNK_SIZE\<rparr> in
      sw_chunk_index chunk = int index \<and> sw_token_range chunk = expected_range \<and>
      sw_token_ids chunk = prompt_slice (tm_prompt_token_ids (wp_metadata work)) expected_range \<and>
      tt_source_range (sp_transfer (sw_gather_plan chunk)) = expected_range \<and>
      tt_target_range (sp_transfer (sw_gather_plan chunk)) = expected_range))"

definition validate_store_plan :: "WorkerStorePlan \<Rightarrow> bridge_exn + unit" where
  "validate_store_plan work =
     rbind (check_that (tm_store_eligible (wp_metadata work) \<and> wp_chunks work \<noteq> [] \<and>
         store_expected_tokens work = int (length (wp_chunks work)) * LMCACHE_CHUNK_SIZE \<and>
         store_expected_tokens work = complete_store_token_count (wp_metadata work) \<and>
         store_token_ids work = take (nat (store_expected_tokens work)) (tm_prompt_token_ids (wp_metadata work)) \<and>
         store_source_range work = \<lparr>tr_start = 0, tr_end = store_expected_tokens work\<rparr>) INVALID_PLAN) (\<lambda>_.
     rbind (check_that (list_all (store_chunk_valid work) (List.enumerate 0 (wp_chunks work))) INVALID_PLAN) (\<lambda>_.
     rbind (validate_request_tokens (store_token_ids work)) (\<lambda>_.
       bridge_request_id (tm_request_id (wp_metadata work)))))"


definition bridge_require_ready :: "('o, 'w, unit) bridge_prog" where
  "bridge_require_ready =
     ebind (asks (\<lambda>br. br_state br \<noteq> READY \<or> sg_state (br_staging br) \<noteq> REGISTERED)) (\<lambda>unready.
     if unready
     then ethen (update (\<lambda>br. if br_state br = READY then br\<lparr>br_state := FAILED\<rparr> else br)) (bridge_fail INVALID_STATE)
     else eret ())"




definition bridge_valid_record :: "CacheRecord \<Rightarrow> CacheNamespace \<Rightarrow> int list \<Rightarrow> TokenRange \<Rightarrow> bool" where
  "bridge_valid_record record ns tokens source \<longleftrightarrow>
     (let suffix = removeprefix (cache_key record) LMCACHE_CACHE_KEY_PREFIX in
      rec_namespace record = ns \<and> rec_token_ids record = tokens \<and> source_range record = source \<and>
      rec_fingerprint record = SHA256_FINGERPRINTER ns tokens \<and>
      take (length LMCACHE_CACHE_KEY_PREFIX) (cache_key record) = LMCACHE_CACHE_KEY_PREFIX \<and>
      length suffix = 64 \<and> (\<forall>character\<in>set suffix. character \<in> set lower_hex))"


text \<open>The loop of \<^verbatim>\<open>_valid_record_batch\<close>, with the namespace of the first record and the previous end.\<close>

fun valid_record_run :: "CacheNamespace \<Rightarrow> int \<Rightarrow> CacheRecord list \<Rightarrow> bool" where
  "valid_record_run ns previous_end [] \<longleftrightarrow> True"
| "valid_record_run ns previous_end (record # rest) \<longleftrightarrow>
     \<not> (rec_namespace record \<noteq> ns \<or> int (length (rec_token_ids record)) \<noteq> LMCACHE_CHUNK_SIZE \<or>
        tr_start (source_range record) \<noteq> previous_end \<or>
        \<not> bridge_valid_record record (rec_namespace record) (rec_token_ids record) (source_range record)) \<and>
     valid_record_run ns (tr_end (source_range record)) rest"

definition valid_record_batch :: "CacheRecord list \<Rightarrow> bool" where
  "valid_record_batch records \<longleftrightarrow> records \<noteq> [] \<and> valid_record_run (rec_namespace (hd records)) 0 records"

definition valid_data_receipt :: "DataPlaneReceipt option \<Rightarrow> TransferDirection \<Rightarrow> int \<Rightarrow> int \<Rightarrow> bool" where
  "valid_data_receipt receipt direction tokens span_count =
     (let expected_rows = tokens * GPT_OSS_NUM_LAYERS in
      case receipt of
        None \<Rightarrow> False
      | Some r \<Rightarrow> dr_direction r = direction \<and> dr_logical_tokens r = tokens \<and> dr_layer_token_rows r = expected_rows \<and>
          dr_span_count r = span_count \<and> dr_copied_key_rows r = expected_rows \<and> dr_copied_value_rows r = expected_rows \<and>
          \<not> dr_sinks_touched r \<and> (direction = LOAD_FROM_STAGING \<longrightarrow> dr_corrected_key_rows r = expected_rows) \<and>
          (direction = STORE_TO_STAGING \<longrightarrow> dr_corrected_key_rows r = 0))"



section \<open>Life cycle\<close>







section \<open>Loading\<close>










section \<open>Storing\<close>

definition chunk_store_offset :: "WorkerBridgeBufferConfig \<Rightarrow> int \<Rightarrow> int" where
  "chunk_store_offset config chunk_index = bc_store_buffer_offset config + chunk_index * LMCACHE_CHUNK_SIZE"







section \<open>Observing the bridge\<close>

text \<open>
  What the bridge asks of the data plane, the transport and the sidecar, with the receipt it got: a
  scatter or gather (dry or real), a retrieval, a store, a published batch.
\<close>

datatype bridge_event =
    Scattered bool "LayerTokenScatterSpan list" int int "DataPlaneReceipt option"
  | Gathered bool "LayerTokenScatterSpan list" TokenRange int "DataPlaneReceipt option"
  | Retrieved "int list" "VerifiedLmcacheCandidate list" int string "LmcacheRetrieveReceipt option"
  | Stored "int list" CacheNamespace TokenRange int string
  | Published "CacheRecord list"




text \<open>The steps of one plan, as they appear in the journal.\<close>

abbreviation cw_spans :: "CandidateScatterWork \<Rightarrow> LayerTokenScatterSpan list" where
  "cw_spans c \<equiv> sp_layer_spans (cw_scatter_plan c)"

abbreviation sw_spans :: "StoreChunkWork \<Rightarrow> LayerTokenScatterSpan list" where
  "sw_spans c \<equiv> sp_layer_spans (sw_gather_plan c)"

definition candidate_scattered :: "WorkerBridgeBufferConfig \<Rightarrow> bridge_event list \<Rightarrow> bool \<Rightarrow> WorkerLoadPlan \<Rightarrow> CandidateScatterWork \<Rightarrow> bool" where
  "candidate_scattered config j dry p c \<longleftrightarrow>
     (\<exists>r. Scattered dry (cw_spans c) (bc_retrieval_buffer_offset config) (prompt_token_count (wl_metadata p)) (Some r) \<in> set j \<and>
        valid_data_receipt (Some r) LOAD_FROM_STAGING LMCACHE_CHUNK_SIZE (int (length (cw_spans c))))"

definition dry_run_done :: "WorkerBridgeBufferConfig \<Rightarrow> bridge_event list \<Rightarrow> WorkerLoadPlan \<Rightarrow> bool" where
  "dry_run_done config j p \<longleftrightarrow> (\<forall>c\<in>set (wl_candidates p). candidate_scattered config j True p c)"

definition retrieve_event :: "WorkerBridgeBufferConfig \<Rightarrow> WorkerLoadPlan \<Rightarrow> LmcacheRetrieveReceipt option \<Rightarrow> bridge_event" where
  "retrieve_event config p r = Retrieved (tm_prompt_token_ids (wl_metadata p)) (map cw_verified_candidate (wl_candidates p))
     (bc_retrieval_buffer_offset config) (tm_request_id (wl_metadata p)) r"

definition retrieval_done :: "WorkerBridgeBufferConfig \<Rightarrow> bridge_event list \<Rightarrow> WorkerLoadPlan \<Rightarrow> bool" where
  "retrieval_done config j p \<longleftrightarrow>
     (\<exists>r. retrieve_event config p (Some r) \<in> set j \<and> valid_retrieve_receipt (Some r) p)"

definition gathers_done :: "WorkerBridgeBufferConfig \<Rightarrow> bridge_event list \<Rightarrow> bool \<Rightarrow> WorkerStorePlan \<Rightarrow> bool" where
  "gathers_done config j dry p \<longleftrightarrow>
     (\<forall>c\<in>set (wp_chunks p). \<exists>r. Gathered dry (sw_spans c) (sw_token_range c) (chunk_store_offset config (sw_chunk_index c)) (Some r) \<in> set j \<and>
        valid_data_receipt (Some r) STORE_TO_STAGING LMCACHE_CHUNK_SIZE (int (length (sw_spans c))))"

text \<open>When a call may be made, given the calls before it.\<close>

fun justified_event :: "WorkerBridgeBufferConfig \<Rightarrow> bridge_event list \<Rightarrow> bridge_event \<Rightarrow> bool" where
  "justified_event config before (Scattered dry spans offset n r) \<longleftrightarrow> dry \<or>
     (\<exists>p c. validate_load_plan p = Inr () \<and> c \<in> set (wl_candidates p) \<and> spans = cw_spans c \<and>
        offset = bc_retrieval_buffer_offset config \<and> n = prompt_token_count (wl_metadata p) \<and>
        dry_run_done config before p \<and> retrieval_done config before p)"
| "justified_event config before (Retrieved tokens candidates offset request r) \<longleftrightarrow>
     (\<exists>p. validate_load_plan p = Inr () \<and> Retrieved tokens candidates offset request r = retrieve_event config p r \<and>
        dry_run_done config before p)"
| "justified_event config before (Gathered dry spans extent offset r) \<longleftrightarrow> dry \<or>
     (\<exists>p c. validate_store_plan p = Inr () \<and> c \<in> set (wp_chunks p) \<and> spans = sw_spans c \<and> extent = sw_token_range c \<and>
        offset = chunk_store_offset config (sw_chunk_index c) \<and> gathers_done config before True p)"
| "justified_event config before (Stored tokens ns extent offset request) \<longleftrightarrow>
     (\<exists>p. validate_store_plan p = Inr () \<and> tokens = store_token_ids p \<and> ns = tm_cache_namespace (wp_metadata p) \<and>
        extent = store_source_range p \<and> offset = bc_store_buffer_offset config \<and> request = tm_request_id (wp_metadata p) \<and>
        gathers_done config before True p \<and> gathers_done config before False p)"
| "justified_event config before (Published records) \<longleftrightarrow> valid_record_batch records"

definition justified :: "WorkerBridgeBufferConfig \<Rightarrow> bridge_event list \<Rightarrow> bool" where
  "justified config j \<longleftrightarrow> (\<forall>before e later. j = before @ e # later \<longrightarrow> justified_event config before e)"




section \<open>The protocol\<close>

definition slot_holds :: "(nat \<Rightarrow> 'p) \<Rightarrow> ('p \<Rightarrow> bool) \<Rightarrow> 'p plan_ref option \<Rightarrow> bool" where
  "slot_holds value P slot \<longleftrightarrow> (\<forall>i v. slot = Some (i, v) \<longrightarrow> v = value i \<and> P v)"

lemma slot_holds_simps [simp]:
  "slot_holds value P None" "slot_holds value P (Some (i, value i)) \<longleftrightarrow> P (value i)"
  by (auto simp: slot_holds_def)



definition bridge_inv ::
    "(nat \<Rightarrow> WorkerLoadPlan) \<Rightarrow> (nat \<Rightarrow> WorkerStorePlan) \<Rightarrow> WorkerBridgeBufferConfig \<Rightarrow> 'o GptOssWorkerBridge \<Rightarrow> bridge_event list \<Rightarrow> bool" where
  "bridge_inv lv sv config br j \<longleftrightarrow>
     br_buffer_config br = config \<and> justified config j \<and>
     slot_holds lv (\<lambda>p. validate_load_plan p = Inr ()) (br_load_storage_preflight br) \<and>
     slot_holds lv (dry_run_done config j) (br_load_data_preflight br) \<and>
     slot_holds lv (\<lambda>p. validate_load_plan p = Inr () \<and> dry_run_done config j p \<and> retrieval_done config j p) (br_retrieved_plan br) \<and>
     slot_holds sv (\<lambda>p. validate_store_plan p = Inr () \<and> gathers_done config j True p) (br_gather_preflight br) \<and>
     slot_holds sv (\<lambda>_. True) (br_store_preflight br) \<and>
     slot_holds sv (\<lambda>p. validate_store_plan p = Inr () \<and> gathers_done config j True p \<and> gathers_done config j False p) (br_gathered_plan br)"







lemma bridge_inv_frame [simp]:
  "bridge_inv lv sv config (br\<lparr>br_staging := sg\<rparr>) j = bridge_inv lv sv config br j"
  "bridge_inv lv sv config (br\<lparr>br_state := st\<rparr>) j = bridge_inv lv sv config br j"
  "bridge_inv lv sv config (br\<lparr>br_position_correction_latency_seconds := x\<rparr>) j = bridge_inv lv sv config br j"
  by (simp_all add: bridge_inv_def)





lemma wp_except_bridge [wp_simps]:
  "wp (except_bridge_exception m h) Q E s \<longleftrightarrow> wp m Q (\<lambda>e t. if e = BridgeRaise Interrupt then E e t else wp h Q E t) s"
  by (auto simp: except_bridge_exception_def wp_def etry_def eraise_def split: prod.splits sum.splits)

lemma wp_except_reraise [wp_simps]:
  "wp (except_reraise m f) Q E s \<longleftrightarrow>
     wp m Q (\<lambda>e (br, w). if e = BridgeRaise Interrupt then E e (br, w) else E e (f br, w)) s"
  by (auto simp: except_reraise_def wp_def etry_def eraise_def ethen_def ebind_def update_def split: prod.splits sum.splits)

lemma wp_finally_update [wp_simps]:
  "wp (finally_update m f) Q E s \<longleftrightarrow> wp m (\<lambda>x (br, w). Q x (f br, w)) (\<lambda>e (br, w). E e (f br, w)) s"
  by (auto simp: finally_update_def wp_def efinally_def split: prod.splits sum.splits)

lemma wp_bridge_fail [wp_simps]: "wp (bridge_fail c) Q E s \<longleftrightarrow> E (WorkerBridgeError c) s"
  by (simp add: bridge_fail_def wp_simps)


abbreviation keeps_inv ::
    "(nat \<Rightarrow> WorkerLoadPlan) \<Rightarrow> (nat \<Rightarrow> WorkerStorePlan) \<Rightarrow> WorkerBridgeBufferConfig \<Rightarrow> ('o, 'w \<times> bridge_event list, 'a) bridge_prog \<Rightarrow> bool" where
  "keeps_inv lv sv config m \<equiv>
     \<forall>br w j. bridge_inv lv sv config br j \<longrightarrow>
       wp m (\<lambda>_ (br, w, j). bridge_inv lv sv config br j) (\<lambda>_ (br, w, j). bridge_inv lv sv config br j) (br, w, j)"


lemma require_ready_inv: "keeps_inv lv sv config bridge_require_ready"
  by (auto simp: bridge_require_ready_def wp_simps)







lemma bridge_same [simp]:
  "br\<lparr>br_staging := br_staging br, br_state := st\<rparr> = br\<lparr>br_state := st\<rparr>" "br\<lparr>br_state := br_state br\<rparr> = br"
  by simp_all





























section \<open>A concrete bridge\<close>














section \<open>Properties\<close>



end
