(* ===== verification/DataTransfer.thy ===== *)
theory DataTransfer
  imports DataPlane
begin

text \<open>
  What the data plane guarantees: which spans it accepts, which planned scatters are among them, that
  nothing is written before everything was checked and that a dry run predicts the real one.
\<close>

section \<open>Accepted spans\<close>

definition good_span :: "LayerTokenScatterSpan \<Rightarrow> bool" where
  "good_span s \<longleftrightarrow>
     (let g = lspan_group_span s in
      valid_span_fields g \<and> lspan_layer_name s = ascii_layer_name (lspan_layer_index s) \<and> 0 \<le> lspan_layer_index s \<and>
      lspan_layer_index s < GPT_OSS_NUM_LAYERS \<and> gs_attention_kind g = expected_kind (lspan_layer_index s) \<and>
      0 < span_token_count g \<and> range_len (gs_source_range g) = span_token_count g \<and>
      gs_block_offset g + span_token_count g \<le> gs_block_size g \<and>
      gs_physical_slot_start g = gs_block_id g * gs_block_size g + gs_block_offset g)"

lemma scan_span_Inr:
  "scan_span scan s = Inr scan' \<longleftrightarrow>
     good_span s \<and> ss_group_kind scan' = setdefault (ss_group_kind scan) (gs_group_id (lspan_group_span s)) (gs_attention_kind (lspan_group_span s)) \<and>
     ss_group_block_size scan' = setdefault (ss_group_block_size scan) (gs_group_id (lspan_group_span s)) (gs_block_size (lspan_group_span s)) \<and>
     ss_group_kind scan' (gs_group_id (lspan_group_span s)) = Some (gs_attention_kind (lspan_group_span s)) \<and>
     ss_group_block_size scan' (gs_group_id (lspan_group_span s)) = Some (gs_block_size (lspan_group_span s))"
  by (cases scan') (auto simp: scan_span_def good_span_def Let_def)

lemma setdefault_simps [simp]:
  "m k = None \<Longrightarrow> setdefault m k v = m(k \<mapsto> v)" "m k = Some u \<Longrightarrow> setdefault m k v = m"
  by (simp_all add: setdefault_def)

lemma setdefault_keeps: "m i = Some x \<Longrightarrow> setdefault m k v i = Some x"
  by (auto simp: setdefault_def)

lemma scan_spans_keeps:
  assumes "scan_spans scan spans = Inr scan'"
  shows "(ss_group_kind scan i = Some x \<longrightarrow> ss_group_kind scan' i = Some x) \<and>
    (ss_group_block_size scan i = Some b \<longrightarrow> ss_group_block_size scan' i = Some b)"
  using assms by (induction scan spans rule: scan_spans.induct) (auto simp: result_simps scan_span_Inr setdefault_keeps)

lemma scan_spans_sound:
  assumes "scan_spans scan spans = Inr scan'" "s \<in> set spans"
  shows "good_span s \<and> ss_group_kind scan' (gs_group_id (lspan_group_span s)) = Some (gs_attention_kind (lspan_group_span s)) \<and>
    ss_group_block_size scan' (gs_group_id (lspan_group_span s)) = Some (gs_block_size (lspan_group_span s))"
  using assms
proof (induction scan spans rule: scan_spans.induct)
  case (2 scan t rest)
  from "2.prems"(1) obtain scan1 where s1: "scan_span scan t = Inr scan1" "scan_spans scan1 rest = Inr scan'" by (auto simp: result_simps)
  show ?case
  proof (cases "s = t")
    case True
    have "good_span t" "ss_group_kind scan1 (gs_group_id (lspan_group_span t)) = Some (gs_attention_kind (lspan_group_span t))"
      "ss_group_block_size scan1 (gs_group_id (lspan_group_span t)) = Some (gs_block_size (lspan_group_span t))"
      using s1(1) unfolding scan_span_Inr by blast+
    then show ?thesis using scan_spans_keeps [OF s1(2)] True by blast
  next
    case False
    then show ?thesis using "2.IH" [OF s1(2)] "2.prems"(2) by simp
  qed
qed simp

text \<open>Spans whose groups agree on a kind and a block size pass the scan.\<close>

lemma scan_spans_complete:
  assumes "\<forall>s\<in>set spans. good_span s \<and> gs_attention_kind (lspan_group_span s) = K (gs_group_id (lspan_group_span s)) \<and>
      gs_block_size (lspan_group_span s) = B (gs_group_id (lspan_group_span s))"
    "\<forall>i x. ss_group_kind scan i = Some x \<longrightarrow> x = K i" "\<forall>i x. ss_group_block_size scan i = Some x \<longrightarrow> x = B i"
  shows "\<exists>scan'. scan_spans scan spans = Inr scan' \<and>
    (\<forall>i. ss_group_kind scan' i = (if i \<in> (gs_group_id \<circ> lspan_group_span) ` set spans then Some (K i) else ss_group_kind scan i))"
  using assms
proof (induction spans arbitrary: scan)
  case (Cons s rest)
  let ?i = "gs_group_id (lspan_group_span s)"
  define scan1 where "scan1 = \<lparr>ss_group_kind = setdefault (ss_group_kind scan) ?i (K ?i), ss_group_block_size = setdefault (ss_group_block_size scan) ?i (B ?i)\<rparr>"
  have old: "ss_group_kind scan ?i = None \<or> ss_group_kind scan ?i = Some (K ?i)"
    "ss_group_block_size scan ?i = None \<or> ss_group_block_size scan ?i = Some (B ?i)"
    using Cons.prems(2,3) by (cases "ss_group_kind scan ?i"; auto) (use Cons.prems(3) in \<open>cases "ss_group_block_size scan ?i"; auto\<close>)
  then have at: "setdefault (ss_group_kind scan) ?i (K ?i) ?i = Some (K ?i)"
    "setdefault (ss_group_block_size scan) ?i (B ?i) ?i = Some (B ?i)" by (auto simp: setdefault_def)
  have step: "scan_span scan s = Inr scan1" using Cons.prems(1) at by (simp add: scan_span_Inr scan1_def)
  have ok: "\<forall>i x. ss_group_kind scan1 i = Some x \<longrightarrow> x = K i"
    "\<forall>i x. ss_group_block_size scan1 i = Some x \<longrightarrow> x = B i" "ss_group_kind scan1 ?i = Some (K ?i)"
    "\<And>i. i \<noteq> ?i \<Longrightarrow> ss_group_kind scan1 i = ss_group_kind scan i"
    using Cons.prems(2,3) at by (auto simp: setdefault_def scan1_def)
  obtain scan' where r: "scan_spans scan1 rest = Inr scan'"
    "\<forall>i. ss_group_kind scan' i = (if i \<in> (gs_group_id \<circ> lspan_group_span) ` set rest then Some (K i) else ss_group_kind scan1 i)"
    using Cons.IH [OF _ ok(1,2)] Cons.prems(1) by (meson list.set_intros(2))
  have "ss_group_kind scan' i = (if i \<in> (gs_group_id \<circ> lspan_group_span) ` set (s # rest) then Some (K i) else ss_group_kind scan i)" for i
    using r(2) ok(3) ok(4) [of i] by (cases "i = ?i") simp_all
  then show ?case using r(1) step by (intro exI [of _ scan']) (simp add: result_simps)
qed simp

section \<open>Coverage\<close>

abbreviation lspan_writes :: "LayerTokenScatterSpan \<Rightarrow> (int \<times> int \<times> int) list" where
  "lspan_writes s \<equiv> span_writes (lspan_group_span s)"

abbreviation write_target :: "int \<times> int \<times> int \<Rightarrow> int" where
  "write_target x \<equiv> fst (snd x)"

abbreviation write_slot :: "int \<times> int \<times> int \<Rightarrow> int" where
  "write_slot x \<equiv> snd (snd x)"

definition layer_writes :: "LayerTokenScatterSpan list \<Rightarrow> (int \<times> int \<times> int) list" where
  "layer_writes spans = concat (map lspan_writes spans)"

lemma layer_writes_simps [simp]: "layer_writes [] = []" "layer_writes (s # ss) = lspan_writes s @ layer_writes ss"
  by (simp_all add: layer_writes_def)

lemma upto_append: "a \<le> b \<Longrightarrow> b \<le> c \<Longrightarrow> [a..b - 1] @ [b..c - 1] = [a..c - 1]" for a b c :: int
  using upto_split1 [of a b "c - 1"] by (cases "b \<le> c - 1") auto

lemma good_span_ranges:
  assumes "good_span s"
  shows "0 < lspan_count s" "tr_end (lspan_target s) = tr_start (lspan_target s) + lspan_count s"
    "tr_end (lspan_source s) = tr_start (lspan_source s) + lspan_count s"
  using assms by (auto simp: good_span_def Let_def span_token_count_def range_len_def)

lemma lspan_writes_positions:
  assumes "good_span s"
  shows "map fst (lspan_writes s) = [tr_start (lspan_source s)..tr_end (lspan_source s) - 1]"
    "map write_target (lspan_writes s) = [tr_start (lspan_target s)..tr_end (lspan_target s) - 1]"
    "map write_slot (lspan_writes s) = [lspan_slot s..lspan_slot s + lspan_count s - 1]"
  using good_span_ranges [OF assms]
  by (simp_all add: span_writes_def comp_def upto_shift [of "tr_start (lspan_source s)"]
      upto_shift [of "tr_start (lspan_target s)"] upto_shift [of "lspan_slot s"])

text \<open>
  What the coverage loop accepts: the writes of the layer are the consecutive positions from the cursors
  on, and all slots differ from each other and from the earlier ranges.
\<close>

lemma cover_layer_sound:
  assumes "cover_layer delta sc tc phys spans = Inr (sc', tc')" "\<forall>s\<in>set spans. good_span s" "tc - sc = delta"
  shows "map fst (layer_writes spans) = [sc..sc' - 1] \<and> map write_target (layer_writes spans) = [tc..tc' - 1] \<and>
    sc \<le> sc' \<and> tc \<le> tc' \<and> tc' - sc' = delta \<and> distinct (map write_slot (layer_writes spans)) \<and>
    (\<forall>r\<in>set phys. set (map write_slot (layer_writes spans)) \<inter> {tr_start r..<tr_end r} = {})"
  using assms
proof (induction delta sc tc phys spans rule: cover_layer.induct)
  case (2 delta sc tc phys s rest)
  let ?r = "\<lparr>tr_start = lspan_slot s, tr_end = lspan_slot s + lspan_count s\<rparr>"
  note g = good_span_ranges [of s] lspan_writes_positions [of s]
  have s: "good_span s" using "2.prems"(2) by simp
  have c: "tr_start (lspan_source s) = sc" "tr_start (lspan_target s) = tc" "\<forall>r\<in>set phys. \<not> overlaps ?r r"
    and rest: "cover_layer delta (tr_end (lspan_source s)) (tr_end (lspan_target s)) (phys @ [?r]) rest = Inr (sc', tc')"
    using "2.prems"(1) by (auto simp: Let_def split: if_splits)
  have IH: "map fst (layer_writes rest) = [tr_end (lspan_source s)..sc' - 1]"
    "map write_target (layer_writes rest) = [tr_end (lspan_target s)..tc' - 1]"
    "tr_end (lspan_source s) \<le> sc'" "tr_end (lspan_target s) \<le> tc'" "tc' - sc' = delta"
    "distinct (map write_slot (layer_writes rest))"
    "\<forall>r\<in>set (phys @ [?r]). set (map write_slot (layer_writes rest)) \<inter> {tr_start r..<tr_end r} = {}"
    using "2.IH" [OF _ _ refl _ rest] "2.prems" c g [OF s] by (auto simp: Let_def)
  have slots: "set (map write_slot (lspan_writes s)) = {tr_start ?r..<tr_end ?r}" using g(6) [OF s] by auto
  have "set (map write_slot (lspan_writes s)) \<inter> {tr_start r..<tr_end r} = {}" if "r \<in> set phys" for r
    using c(3) that g(1) [OF s] unfolding slots by (fastforce simp: overlaps_def)
  moreover have "set (map write_slot (lspan_writes s)) \<inter> set (map write_slot (layer_writes rest)) = {}"
    using IH(7) unfolding slots by auto
  moreover have "distinct (map write_slot (lspan_writes s))" using g(6) [OF s] by simp
  ultimately have slots': "distinct (map write_slot (layer_writes (s # rest)))"
    "\<forall>r\<in>set phys. set (map write_slot (layer_writes (s # rest))) \<inter> {tr_start r..<tr_end r} = {}"
    using IH(6,7) by (simp_all add: Int_Un_distrib2)
  have "map fst (layer_writes (s # rest)) = [sc..sc' - 1]" "map write_target (layer_writes (s # rest)) = [tc..tc' - 1]"
    using g(1-5) [OF s] IH(1-4) c(1,2) upto_append [of sc "tr_end (lspan_source s)" sc'] upto_append [of tc "tr_end (lspan_target s)" tc']
    by simp_all
  then show ?case using slots' IH(3-5) g(1-3) [OF s] c(1,2) by simp
qed simp

lemma layer_ranges_sound:
  assumes "layer_ranges spans = Inr (src, tgt)" "\<forall>s\<in>set spans. good_span s"
  shows "map fst (layer_writes spans) = positions src \<and> map write_target (layer_writes spans) = positions tgt \<and>
    tr_end tgt - tr_end src = tr_start tgt - tr_start src \<and> distinct (map write_slot (layer_writes spans))"
proof -
  let ?sc = "tr_start (lspan_source (hd spans))" let ?tc = "tr_start (lspan_target (hd spans))"
  obtain sc' tc' where c: "cover_layer (?tc - ?sc) ?sc ?tc [] spans = Inr (sc', tc')" "src = \<lparr>tr_start = ?sc, tr_end = sc'\<rparr>"
    "tgt = \<lparr>tr_start = ?tc, tr_end = tc'\<rparr>"
    using assms(1) by (auto simp: layer_ranges_def Let_def result_simps)
  from cover_layer_sound [OF c(1) assms(2) refl] show ?thesis unfolding c(2,3) positions_def by simp
qed

lemma canonical_ranges_sound:
  assumes "canonical_ranges spans canonical is = Inr result" "is \<noteq> [] \<or> canonical \<noteq> None"
  shows "\<exists>r. result = Some r \<and> (canonical \<noteq> None \<longrightarrow> canonical = Some r) \<and> (\<forall>i\<in>set is. layer_ranges (ordered_layer spans i) = Inr r)"
  using assms
proof (induction spans canonical "is" rule: canonical_ranges.induct)
  case (2 spans canonical i rest)
  from "2.prems"(1) obtain r where r: "layer_ranges (ordered_layer spans i) = Inr r"
    "\<not> (canonical \<noteq> None \<and> canonical \<noteq> Some r)" "canonical_ranges spans (Some r) rest = Inr result"
    by (simp add: rbind_eq_Inr del: split_paired_All split_paired_Ex split: if_splits) blast
  show ?case using "2.IH" [OF r(2,3)] r(1,2) by auto
qed auto

lemma canonical_ranges_complete:
  assumes "\<forall>i\<in>set is. layer_ranges (ordered_layer spans i) = Inr r" "canonical = None \<or> canonical = Some r"
  shows "canonical_ranges spans canonical is = Inr (if is = [] then canonical else Some r)"
  using assms by (induction "is" arbitrary: canonical) (auto simp: result_simps)

text \<open>Every layer writes the positions of the whole transfer, each to a slot of its own.\<close>

definition covers :: "ValidatedSpans \<Rightarrow> LayerTokenScatterSpan list \<Rightarrow> int \<Rightarrow> bool" where
  "covers v spans i \<longleftrightarrow> ordered_layer spans i \<noteq> [] \<and>
     map fst (layer_writes (ordered_layer spans i)) = positions (vs_source_range v) \<and>
     map write_target (layer_writes (ordered_layer spans i)) = positions (vs_target_range v) \<and>
     distinct (map write_slot (layer_writes (ordered_layer spans i)))"

lemma set_ordered_layer [simp]: "set (ordered_layer spans i) = {s \<in> set spans. lspan_layer_index s = i}"
  by (simp add: ordered_layer_def spans_of_layer_def)

lemma ordered_layer_empty: "ordered_layer spans i = [] \<longleftrightarrow> i \<notin> set (map lspan_layer_index spans)"
proof -
  have "ordered_layer spans i = [] \<longleftrightarrow> set (ordered_layer spans i) = {}" by (rule set_empty [symmetric])
  then show ?thesis by auto
qed

lemma validate_spans_Inr:
  assumes "validate_spans spans = Inr v"
  shows "\<forall>s\<in>set spans. good_span s" "vs_spans v = concat (map (ordered_layer spans) all_layers)"
    "set (vs_spans v) = set spans" "vs_layer_names v = map ascii_layer_name all_layers"
    "\<forall>i\<in>set all_layers. covers v spans i"
    "tr_end (vs_target_range v) - tr_end (vs_source_range v) = tr_start (vs_target_range v) - tr_start (vs_source_range v)"
    "tr_start (vs_target_range v) < tr_end (vs_target_range v)"
proof -
  obtain scan canonical where r: "scan_spans \<lparr>ss_group_kind = Map.empty, ss_group_block_size = Map.empty\<rparr> spans = Inr scan"
    "set (map lspan_layer_index spans) = set all_layers" "canonical_ranges spans None all_layers = Inr canonical"
    and v: "v = \<lparr>vs_spans = concat (map (ordered_layer spans) all_layers), vs_source_range = fst (the canonical),
               vs_target_range = snd (the canonical),
               vs_layer_names = map (\<lambda>i. lspan_layer_name (last (spans_of_layer spans i))) all_layers\<rparr>"
    using assms by (auto simp: validate_spans_def result_simps split: if_splits)
  have zero: "0 \<in> set all_layers" by (simp add: all_layers_def GPT_OSS_NUM_LAYERS_def)
  then have "all_layers \<noteq> []" by auto
  then obtain ranges where ranges: "canonical = Some ranges" "\<forall>i\<in>set all_layers. layer_ranges (ordered_layer spans i) = Inr ranges"
    using canonical_ranges_sound [OF r(3)] by auto
  show good: "\<forall>s\<in>set spans. good_span s" using scan_spans_sound [OF r(1)] by blast
  show "vs_spans v = concat (map (ordered_layer spans) all_layers)" by (simp add: v)
  show "set (vs_spans v) = set spans" using r(2) by (force simp: v)
  have "lspan_layer_name (last (spans_of_layer spans i)) = ascii_layer_name i" if "i \<in> set all_layers" for i
  proof -
    have "i \<in> lspan_layer_index ` set spans" using r(2) that by simp
    then have "spans_of_layer spans i \<noteq> []" by (auto simp: spans_of_layer_def filter_empty_conv)
    then have "last (spans_of_layer spans i) \<in> {s \<in> set spans. lspan_layer_index s = i}"
      using last_in_set [of "spans_of_layer spans i"] by (simp add: spans_of_layer_def)
    then show ?thesis using good by (auto simp: good_span_def Let_def)
  qed
  then show "vs_layer_names v = map ascii_layer_name all_layers" by (simp add: v)
  have sound: "map fst (layer_writes (ordered_layer spans i)) = positions (vs_source_range v) \<and>
      map write_target (layer_writes (ordered_layer spans i)) = positions (vs_target_range v) \<and>
      tr_end (vs_target_range v) - tr_end (vs_source_range v) = tr_start (vs_target_range v) - tr_start (vs_source_range v) \<and>
      distinct (map write_slot (layer_writes (ordered_layer spans i)))" if "i \<in> set all_layers" for i
    using layer_ranges_sound [of "ordered_layer spans i" "fst ranges" "snd ranges"] ranges that good by (simp add: v)
  then show "\<forall>i\<in>set all_layers. covers v spans i"
    using r(2) by (auto simp: covers_def ordered_layer_empty)
  show "tr_end (vs_target_range v) - tr_end (vs_source_range v) = tr_start (vs_target_range v) - tr_start (vs_source_range v)"
    using sound [OF zero] by blast
  have "0 \<in> lspan_layer_index ` set spans" using zero r(2) by simp
  then obtain s where s: "s \<in> set (ordered_layer spans 0)" "good_span s" using good by auto
  then have "lspan_writes s \<noteq> []" using good_span_ranges [of s] by (simp add: span_writes_def)
  then have "layer_writes (ordered_layer spans 0) \<noteq> []" using s(1) by (auto simp: layer_writes_def simp del: set_ordered_layer)
  then have "positions (vs_target_range v) \<noteq> []" using sound [OF zero] by (metis map_is_Nil_conv)
  then show "tr_start (vs_target_range v) < tr_end (vs_target_range v)" by (simp add: positions_def)
qed

section \<open>Planned scatters are accepted\<close>

lemma cover_step:
  assumes "good_span s" "lspan_writes s @ ws = map (\<lambda>t. (t - d, t, slot t)) [tc..e - 1]"
  shows "tr_start (lspan_target s) = tc" "tr_start (lspan_source s) = tc - d" "tc + lspan_count s \<le> e"
    "lspan_writes s = map (\<lambda>t. (t - d, t, slot t)) [tc..tc + lspan_count s - 1]"
    "ws = map (\<lambda>t. (t - d, t, slot t)) [tc + lspan_count s..e - 1]"
proof -
  let ?n = "lspan_count s" let ?f = "\<lambda>t. (t - d, t, slot t)"
  have n: "0 < ?n" using good_span_ranges [OF assms(1)] by simp
  have len: "length (lspan_writes s) = nat ?n" by (simp add: span_writes_def)
  have "length (lspan_writes s) + length ws = nat (e - tc)" using arg_cong [OF assms(2), of length] by simp
  then show le: "tc + ?n \<le> e" using len n by simp
  then have "lspan_writes s @ ws = map ?f [tc..tc + ?n - 1] @ map ?f [tc + ?n..e - 1]"
    using assms(2) upto_append [of tc "tc + ?n" e, symmetric] n by simp
  moreover have "length (lspan_writes s) = length (map ?f [tc..tc + ?n - 1])" using len by simp
  ultimately show w: "lspan_writes s = map ?f [tc..tc + ?n - 1]" "ws = map ?f [tc + ?n..e - 1]" by simp_all
  have "lspan_writes s ! 0 = (tr_start (lspan_source s), tr_start (lspan_target s), lspan_slot s)"
    using n by (simp add: span_writes_def nth_upto)
  moreover have "map ?f [tc..tc + ?n - 1] ! 0 = ?f tc" using n by (simp add: nth_upto)
  ultimately show "tr_start (lspan_target s) = tc" "tr_start (lspan_source s) = tc - d" using w(1) by simp_all
qed

lemma cover_layer_complete:
  assumes "\<forall>s\<in>set spans. good_span s" "layer_writes spans = map (\<lambda>t. (t - d, t, slot t)) [tc..e - 1]" "tc \<le> e"
    "distinct (map write_slot (layer_writes spans))"
    "\<forall>r\<in>set phys. tr_start r < tr_end r \<and> set (map write_slot (layer_writes spans)) \<inter> {tr_start r..<tr_end r} = {}"
  shows "cover_layer d (tc - d) tc phys spans = Inr (e - d, e)"
  using assms
proof (induction spans arbitrary: tc phys)
  case Nil
  then show ?case by simp
next
  case (Cons s rest)
  let ?r = "\<lparr>tr_start = lspan_slot s, tr_end = lspan_slot s + lspan_count s\<rparr>"
  have g: "good_span s" using Cons.prems(1) by simp
  note step = cover_step [OF g, of "layer_writes rest" d slot tc e] and ranges = good_span_ranges [OF g]
  have w: "lspan_writes s @ layer_writes rest = map (\<lambda>t. (t - d, t, slot t)) [tc..e - 1]" using Cons.prems(2) by simp
  have slots: "set (map write_slot (lspan_writes s)) = {lspan_slot s..<lspan_slot s + lspan_count s}"
    using lspan_writes_positions(3) [OF g] by auto
  have disjoint: "{lspan_slot s..<lspan_slot s + lspan_count s} \<inter> {tr_start r..<tr_end r} = {}" if "r \<in> set phys" for r
  proof -
    have "set (map write_slot (layer_writes (s # rest))) \<inter> {tr_start r..<tr_end r} = {}" using Cons.prems(5) that by blast
    moreover have "set (map write_slot (layer_writes (s # rest))) =
        {lspan_slot s..<lspan_slot s + lspan_count s} \<union> set (map write_slot (layer_writes rest))"
      using slots by simp
    ultimately show ?thesis by blast
  qed
  have "\<not> overlaps ?r r" if "r \<in> set phys" for r
  proof
    assume "overlaps ?r r"
    then have "max (lspan_slot s) (tr_start r) \<in> {lspan_slot s..<lspan_slot s + lspan_count s} \<inter> {tr_start r..<tr_end r}"
      using Cons.prems(5) that ranges(1) by (auto simp: overlaps_def)
    then show False using disjoint [OF that] by auto
  qed
  moreover have "cover_layer d (tc + lspan_count s - d) (tc + lspan_count s) (phys @ [?r]) rest = Inr (e - d, e)"
  proof (rule Cons.IH)
    show "\<forall>r\<in>set (phys @ [?r]). tr_start r < tr_end r \<and> set (map write_slot (layer_writes rest)) \<inter> {tr_start r..<tr_end r} = {}"
      using Cons.prems(4,5) slots ranges(1) by auto
  qed (use Cons.prems(1,4) step [OF w] in auto)
  ultimately show ?case using step [OF w] ranges by (simp add: Let_def diff_add_eq)
qed

lemma cover_sorted:
  assumes "\<forall>s\<in>set spans. good_span s" "layer_writes spans = map (\<lambda>t. (t - d, t, slot t)) [tc..e - 1]"
  shows "sorted (map (\<lambda>s. tr_start (lspan_target s)) spans) \<and> (\<forall>s\<in>set spans. tc \<le> tr_start (lspan_target s))"
  using assms
proof (induction spans arbitrary: tc)
  case (Cons s rest)
  have g: "good_span s" using Cons.prems(1) by simp
  have w: "lspan_writes s @ layer_writes rest = map (\<lambda>t. (t - d, t, slot t)) [tc..e - 1]" using Cons.prems(2) by simp
  note step = cover_step [OF g w]
  show ?case using Cons.IH [OF _ step(5)] Cons.prems(1) step(1) good_span_ranges(1) [OF g] by force
qed simp

lemma planned_span_good:
  assumes "span_in_block g table (lspan_group_span s)" "set (lspan_writes s) \<subseteq> set (reference_writes table transfer)"
    "wf_group g" "wf_table table" "wf_transfer transfer" "cg_group_id g = 0 \<or> cg_group_id g = 1"
    "lspan_layer_name s = ascii_layer_name (lspan_layer_index s)" "lspan_layer_index s \<in> set all_layers"
    "cg_attention_kind g = expected_kind (lspan_layer_index s)"
  shows "good_span s"
proof -
  let ?s = "lspan_group_span s" let ?n = "lspan_count s" let ?d = "transfer_position_delta transfer"
  have b: "0 < ?n" "range_len (gs_source_range ?s) = ?n" "gs_group_id ?s = cg_group_id g" "gs_block_size ?s = cg_block_size g"
    "gs_physical_slot_start ?s = gs_block_id ?s * gs_block_size ?s + gs_block_offset ?s" "0 \<le> gs_block_offset ?s"
    "0 \<le> gs_logical_block_index ?s" "gs_block_offset ?s + ?n \<le> cg_block_size g" "gs_attention_kind ?s = cg_attention_kind g"
    "Some (gs_block_id ?s) \<in> set (bt_block_ids table)"
    using assms(1) by (auto simp: span_in_block_def) (metis nat_less_iff nth_mem)
  then have "0 \<le> gs_block_id ?s" "0 < gs_block_size ?s" using assms(3,4) by (auto simp: wf_table_def wf_group_def)
  moreover from this have "0 \<le> gs_physical_slot_start ?s" using b(5,6) by simp
  moreover have "(tr_start (gs_source_range ?s) + (?n - 1), tr_start (gs_target_range ?s) + (?n - 1), lspan_slot s + (?n - 1)) \<in> set (lspan_writes s)"
    using b(1) by (auto simp: span_writes_def)
  then have "tr_start (gs_target_range ?s) + (?n - 1) \<le> tr_end (tt_target_range transfer) - 1"
    "tr_start (gs_source_range ?s) + (?n - 1) = tr_start (gs_target_range ?s) + (?n - 1) - ?d"
    using assms(2) by (auto simp: reference_writes_def)
  then have "tr_end (gs_target_range ?s) \<le> GPT_OSS_MAX_CONTEXT_TOKENS" "tr_end (gs_source_range ?s) \<le> GPT_OSS_MAX_CONTEXT_TOKENS"
    using b(1,2) assms(5) by (auto simp: span_token_count_def range_len_def wf_transfer_def transfer_position_delta_def)
  ultimately show ?thesis
    using b assms(6-9) by (auto simp: good_span_def valid_span_fields_def span_token_count_def all_layers_def)
qed

text \<open>One layer of a plan: its spans pass the coverage check with the ranges of the transfer.\<close>

lemma planned_layer_ranges:
  assumes "\<forall>s\<in>set ss. good_span s" "layer_writes ss = reference_writes table transfer"
    "distinct (map write_slot (reference_writes table transfer))" "wf_transfer transfer"
  shows "sort_key (\<lambda>s. tr_start (lspan_target s)) ss = ss" "layer_ranges ss = Inr (tt_source_range transfer, tt_target_range transfer)"
proof -
  let ?d = "transfer_position_delta transfer" let ?t = "tt_target_range transfer"
  have w: "layer_writes ss = map (\<lambda>t. (t - ?d, t, slot_of table t)) [tr_start ?t..tr_end ?t - 1]"
    using assms(2) by (simp add: reference_writes_def)
  show "sort_key (\<lambda>s. tr_start (lspan_target s)) ss = ss"
    using cover_sorted [OF assms(1) w] by (simp add: sort_key_id_if_sorted)
  have len: "tr_start ?t < tr_end ?t" using assms(4) by (simp add: wf_transfer_def range_len_def)
  then obtain s rest where s: "ss = s # rest" using w by (cases ss) (auto simp: upto_rec1)
  then have first: "tr_start (lspan_target s) = tr_start ?t" "tr_start (lspan_source s) = tr_start ?t - ?d"
    using cover_step [of s "layer_writes rest" ?d "slot_of table" "tr_start ?t" "tr_end ?t"] assms(1) w by simp_all
  have "cover_layer ?d (tr_start ?t - ?d) (tr_start ?t) [] ss = Inr (tr_end ?t - ?d, tr_end ?t)"
    using cover_layer_complete [OF assms(1) w] len assms(2,3) by simp
  then show "layer_ranges ss = Inr (tt_source_range transfer, ?t)"
    using s first assms(4) by (cases "tt_source_range transfer"; cases ?t)
      (simp add: layer_ranges_def Let_def transfer_position_delta_def wf_transfer_def range_len_def)
qed

text \<open>The spans a plan gives to a layer, and what holds of them.\<close>

definition planned_layer :: "(int \<times> GroupTokenScatterSpan list) list \<Rightarrow> AttentionLayerLayout \<Rightarrow> LayerTokenScatterSpan list" where
  "planned_layer ss l =
     map (\<lambda>s. \<lparr>lspan_layer_name = ly_layer_name l, lspan_layer_index = ly_layer_index l, lspan_group_span = s\<rparr>)
       (the (map_of ss (ly_group_id l)))"

definition group_kind :: "GptOssHybridCacheLayout \<Rightarrow> int \<Rightarrow> AttentionKind" where
  "group_kind layout i = cg_attention_kind (projr (layout_group layout i))"

definition group_size :: "GptOssHybridCacheLayout \<Rightarrow> int \<Rightarrow> int" where
  "group_size layout i = cg_block_size (projr (layout_group layout i))"

lemma planned_layer_members:
  "s \<in> set (planned_layer ss l) \<Longrightarrow>
     lspan_layer_name s = ly_layer_name l \<and> lspan_layer_index s = ly_layer_index l \<and>
     lspan_group_span s \<in> set (the (map_of ss (ly_group_id l)))"
  by (auto simp: planned_layer_def)

text \<open>A layer of a validated layout belongs to one group, whose table fits the transfer.\<close>

lemma layer_group_table:
  assumes "wf_layout layout" "list_all wf_group (hl_groups layout)" "wf_transfer transfer"
    "validated_tables layout tables transfer = Inr ordered" "l \<in> set (hl_layers layout)" "g \<in> set (hl_groups layout)"
    "cg_group_id g = ly_group_id l"
  shows "cg_attention_kind g = expected_kind (ly_layer_index l)" "projr (layout_group layout (ly_group_id l)) = g"
    "layer_table tables l \<in> set tables" "table_fits transfer g (layer_table tables l)"
    "extract_gpt_oss_layer_index (ly_layer_name l) = Inr (ly_layer_index l)" "ly_group_id l = 0 \<or> ly_group_id l = 1"
proof -
  have lay: "extract_gpt_oss_layer_index (ly_layer_name l) = Inr (ly_layer_index l)" "ly_attention_kind l = expected_kind (ly_layer_index l)"
    "\<exists>h\<in>set (hl_groups layout). l = layer_of h (ly_layer_name l) (ly_layer_index l)"
    using assms(1,5) by (auto simp: wf_layout_def list_all_iff)
  then obtain h where h: "h \<in> set (hl_groups layout)" "cg_group_id h = ly_group_id l" "cg_attention_kind h = ly_attention_kind l"
    by (metis AttentionLayerLayout.select_convs(3,4) layer_of_def)
  have "inj_on cg_group_id (set (hl_groups layout))" using assms(1) by (simp add: wf_layout_def distinct_map)
  then have "h = g" using h(1,2) assms(6,7) by (metis inj_onD)
  then show "cg_attention_kind g = expected_kind (ly_layer_index l)" using h(3) lay(2) by simp
  show "projr (layout_group layout (ly_group_id l)) = g"
    using layout_group_unique [OF _ assms(6)] assms(1,7) by (simp add: wf_layout_def)
  have "\<exists>t\<in>set tables. table_fits transfer g t" and d: "distinct (map bt_group_id tables)"
    using validated_tables_iff [of layout transfer tables] assms(1-4,6) by (auto simp: list_all_iff)
  then obtain t where t: "t \<in> set tables" "table_fits transfer g t" by blast
  then have "layer_table tables l = t" using find_unique_id [OF d t(1)] assms(7) by (simp add: layer_table_def table_fits_def)
  then show "layer_table tables l \<in> set tables" "table_fits transfer g (layer_table tables l)" using t by simp_all
  show "extract_gpt_oss_layer_index (ly_layer_name l) = Inr (ly_layer_index l)" by (rule lay(1))
  have "cg_group_id g \<in> {0, 1}" using assms(1,6) unfolding wf_layout_def by (metis image_eqI list.set_map)
  then show "ly_group_id l = 0 \<or> ly_group_id l = 1" using assms(7) by auto
qed

text \<open>
  A layer the data plane can write: its name is the canonical one, in ASCII digits, and the reference
  writes of the transfer go to slots that differ.
\<close>

definition writable_layer :: "GroupBlockTable list \<Rightarrow> TokenTransfer \<Rightarrow> AttentionLayerLayout \<Rightarrow> bool" where
  "writable_layer tables transfer l \<longleftrightarrow> ly_layer_name l = ascii_layer_name (ly_layer_index l) \<and>
     distinct (map write_slot (reference_writes (layer_table tables l) transfer))"

lemma layer_index_member:
  assumes "wf_layout layout" "l \<in> set (hl_layers layout)"
  shows "ly_layer_index l \<in> set all_layers"
proof -
  have "set (map ly_layer_index (hl_layers layout)) = set all_layers" using assms(1) by (simp only: wf_layout_def all_layers_def)
  then show ?thesis using assms(2) by auto
qed

lemma planned_layer_accepted:
  assumes "wf_layout layout" "list_all wf_group (hl_groups layout)" "list_all wf_table tables" "wf_transfer transfer"
    "validated_tables layout tables transfer = Inr ordered" "l \<in> set (hl_layers layout)" "writable_layer tables transfer l"
    "g \<in> set (hl_groups layout)" "cg_group_id g = ly_group_id l" "map_of ss (ly_group_id l) = Some spans" "spans \<noteq> []"
    "concat (map span_writes spans) = reference_writes (layer_table tables l) transfer"
    "list_all (span_in_block g (layer_table tables l)) spans"
  shows "\<forall>s\<in>set (planned_layer ss l). good_span s \<and> gs_group_id (lspan_group_span s) = ly_group_id l \<and>
      gs_attention_kind (lspan_group_span s) = group_kind layout (ly_group_id l) \<and>
      gs_block_size (lspan_group_span s) = group_size layout (ly_group_id l)"
    "group_kind layout (ly_group_id l) = expected_kind (ly_layer_index l)"
    "sort_key (\<lambda>s. tr_start (lspan_target s)) (planned_layer ss l) = planned_layer ss l" "planned_layer ss l \<noteq> []"
    "layer_ranges (planned_layer ss l) = Inr (tt_source_range transfer, tt_target_range transfer)"
proof -
  let ?t = "layer_table tables l"
  note lay = layer_group_table [OF assms(1,2,4,5,6,8,9)]
  have gw: "wf_group g" using assms(2,8) by (simp add: list_all_iff)
  have name: "ly_layer_name l = ascii_layer_name (ly_layer_index l)" "ly_layer_index l \<in> set all_layers"
    using assms(7) layer_index_member [OF assms(1,6)] by (simp_all add: writable_layer_def)
  have id: "cg_group_id g = 0 \<or> cg_group_id g = 1" using lay(6) assms(9) by simp
  have writes: "layer_writes (planned_layer ss l) = reference_writes ?t transfer"
    using assms(10,12) by (simp add: layer_writes_def planned_layer_def o_def)
  have wt: "wf_table ?t" using lay(3) assms(3) by (simp add: list_all_iff)
  show good: "\<forall>s\<in>set (planned_layer ss l). good_span s \<and> gs_group_id (lspan_group_span s) = ly_group_id l \<and>
      gs_attention_kind (lspan_group_span s) = group_kind layout (ly_group_id l) \<and>
      gs_block_size (lspan_group_span s) = group_size layout (ly_group_id l)"
  proof
    fix s
    assume s: "s \<in> set (planned_layer ss l)"
    note m = planned_layer_members [OF s]
    then have b: "span_in_block g ?t (lspan_group_span s)" using assms(10,13) by (auto simp: list_all_iff)
    have "set (lspan_writes s) \<subseteq> set (layer_writes (planned_layer ss l))" using s by (auto simp: layer_writes_def)
    then have "good_span s" using planned_span_good [OF b _ gw wt assms(4) id] writes name m lay(1) by simp
    then show "good_span s \<and> gs_group_id (lspan_group_span s) = ly_group_id l \<and>
      gs_attention_kind (lspan_group_span s) = group_kind layout (ly_group_id l) \<and>
      gs_block_size (lspan_group_span s) = group_size layout (ly_group_id l)"
      using b assms(9) by (simp add: span_in_block_def group_kind_def group_size_def lay(2))
  qed
  show "group_kind layout (ly_group_id l) = expected_kind (ly_layer_index l)" by (simp add: group_kind_def lay(1,2))
  have "distinct (map write_slot (reference_writes ?t transfer))" using assms(7) by (simp add: writable_layer_def)
  from planned_layer_ranges [OF _ writes this assms(4)] good
  show "sort_key (\<lambda>s. tr_start (lspan_target s)) (planned_layer ss l) = planned_layer ss l"
    "layer_ranges (planned_layer ss l) = Inr (tt_source_range transfer, tt_target_range transfer)" by blast+
  show "planned_layer ss l \<noteq> []" using assms(10,11) by (simp add: planned_layer_def)
qed

lemma expected_kind_layers: "expected_kind 0 = SLIDING" "expected_kind 1 = FULL"
  by (simp_all add: expected_kind_def)

text \<open>Layers in order, each with accepted spans: the whole list is accepted and kept as it is.\<close>

lemma layered_spans_accepted:
  assumes "map idx layers = all_layers" "\<And>l. l \<in> set layers \<Longrightarrow> spans_of_layer spans (idx l) = h l" "spans = concat (map h layers)"
    "\<And>l. l \<in> set layers \<Longrightarrow> h l \<noteq> [] \<and> sort_key (\<lambda>s. tr_start (lspan_target s)) (h l) = h l \<and> layer_ranges (h l) = Inr (src, tgt) \<and>
       K (gid l) = expected_kind (idx l) \<and> (gid l = 0 \<or> gid l = 1)"
    "\<And>l. l \<in> set layers \<Longrightarrow> \<forall>s\<in>set (h l). good_span s \<and> gs_group_id (lspan_group_span s) = gid l \<and>
       gs_attention_kind (lspan_group_span s) = K (gid l) \<and> gs_block_size (lspan_group_span s) = B (gid l)"
  shows "\<exists>v. validate_spans spans = Inr v \<and> vs_spans v = spans \<and> vs_source_range v = src \<and> vs_target_range v = tgt"
proof -
  let ?gid = "gs_group_id \<circ> lspan_group_span"
  have members: "\<exists>l\<in>set layers. s \<in> set (h l)" if "s \<in> set spans" for s using that by (simp add: assms(3))
  obtain scan where scan: "scan_spans \<lparr>ss_group_kind = Map.empty, ss_group_block_size = Map.empty\<rparr> spans = Inr scan"
    "\<forall>i. ss_group_kind scan i = (if i \<in> ?gid ` set spans then Some (K i) else None)"
    using scan_spans_complete [of spans K B "\<lparr>ss_group_kind = Map.empty, ss_group_block_size = Map.empty\<rparr>"] members assms(5)
    by (metis (no_types, lifting) SpanScan.select_convs(1,2) option.distinct(1))
  have index: "\<exists>l\<in>set layers. idx l = i" if "i \<in> set all_layers" for i using that unfolding assms(1) [symmetric] by auto
  obtain l0 l1 where l01: "l0 \<in> set layers" "idx l0 = 0" "l1 \<in> set layers" "idx l1 = 1"
    using index [of 0] index [of 1] by (auto simp: all_layers_def GPT_OSS_NUM_LAYERS_def)
  have gid: "gid l \<in> ?gid ` set spans" if "l \<in> set layers" for l
  proof -
    have s: "last (h l) \<in> set (h l)" using assms(4) [OF that] by simp
    then have "last (h l) \<in> set spans" using that by (auto simp: assms(3))
    moreover have "gid l = ?gid (last (h l))" using assms(5) [OF that] s by simp
    ultimately show ?thesis by (rule image_eqI [rotated])
  qed
  have kinds: "K (gid l0) = SLIDING" "K (gid l1) = FULL"
    using assms(4) [OF l01(1)] assms(4) [OF l01(3)] l01(2,4) expected_kind_layers by simp_all
  then have ids: "{gid l0, gid l1} = {0, 1}" using assms(4) [OF l01(1)] assms(4) [OF l01(3)] by auto
  then have groups: "ss_group_kind scan 0 = Some (K 0)" "ss_group_kind scan 1 = Some (K 1)" "{K 0, K 1} = {SLIDING, FULL}"
    using gid [OF l01(1)] gid [OF l01(3)] kinds scan(2) by (auto simp: doubleton_eq_iff)
  have of_layer: "s \<in> set (h l) \<longleftrightarrow> s \<in> set spans \<and> lspan_layer_index s = idx l" if "l \<in> set layers" for l s
    by (simp add: assms(2) [OF that, symmetric] spans_of_layer_def)
  have "lspan_layer_index s \<in> set all_layers" if "s \<in> set spans" for s
    using members [OF that] of_layer by (metis assms(1) image_eqI list.set_map)
  moreover have "i \<in> set (map lspan_layer_index spans)" if "i \<in> set all_layers" for i
    using index [OF that] assms(4) of_layer by (metis image_eqI last_in_set list.set_map)
  ultimately have "set (map lspan_layer_index spans) = set all_layers" by auto
  moreover have ordered: "ordered_layer spans (idx l) = h l" if "l \<in> set layers" for l
    using assms(2,4) [OF that] by (simp add: ordered_layer_def)
  have "canonical_ranges spans None all_layers = Inr (Some (src, tgt))"
  proof -
    have "layer_ranges (ordered_layer spans i) = Inr (src, tgt)" if "i \<in> set all_layers" for i
      using index [OF that] ordered assms(4) by auto
    then show ?thesis using canonical_ranges_complete [of all_layers spans "(src, tgt)" None]
      by (simp add: all_layers_def GPT_OSS_NUM_LAYERS_def)
  qed
  moreover have "concat (map (ordered_layer spans) all_layers) = spans"
    using ordered by (simp add: assms(1) [symmetric] o_def assms(3) cong: map_cong)
  moreover have "spans \<noteq> []" using gid [OF l01(1)] by auto
  ultimately show ?thesis using scan(1) groups by (simp add: validate_spans_def)
qed

lemma ascii_layer_names:
  assumes "0 \<le> i" "i < 24"
  shows "list_all (\<lambda>c. c < 128) (ascii_layer_name i)"
  by (rule canonical_digits [of i])
    (use assms in \<open>auto simp: GPT_OSS_NUM_LAYERS_def ascii_layer_name_def layer_prefix_def layer_suffix_def code_points_def\<close>)

lemma example_layer_ascii:
  assumes "wf_layout layout" "hl_groups layout = example_groups" "a \<in> set (hl_layers layout)"
  shows "list_all (\<lambda>c. c < 128) (ly_layer_name a)"
proof -
  obtain g where "g \<in> set example_groups" "ly_layer_name a \<in> set (cg_layer_names g)"
    using assms unfolding wf_layout_def list_all_iff by auto
  then show ?thesis by (auto simp: example_groups_def intro!: ascii_layer_names)
qed

text \<open>A planned scatter, layer by layer.\<close>

lemma planned_scatter_layers:
  assumes "wf_layout layout" "list_all wf_group (hl_groups layout)" "wf_transfer transfer"
    "plan_token_scatter layout tables transfer = Some (Inr p)"
  obtains ordered ss where "validated_tables layout tables transfer = Inr ordered"
    "sp_layer_spans p = concat (map (planned_layer ss) (hl_layers layout))"
    "\<And>l. l \<in> set (hl_layers layout) \<Longrightarrow> spans_of_layer (sp_layer_spans p) (ly_layer_index l) = planned_layer ss l"
    "\<And>l. l \<in> set (hl_layers layout) \<Longrightarrow> \<exists>g\<in>set (hl_groups layout). \<exists>spans. cg_group_id g = ly_group_id l \<and>
       map_of ss (ly_group_id l) = Some spans \<and> spans \<noteq> [] \<and>
       concat (map span_writes spans) = reference_writes (layer_table tables l) transfer \<and>
       list_all (span_in_block g (layer_table tables l)) spans"
proof -
  obtain ordered where ordered: "validated_tables layout tables transfer = Inr ordered"
    using assms(4) by (auto simp: plan_token_scatter_def split: sum.splits)
  from validated_scatter [OF assms(1,2,3) ordered] obtain ss where
    ss: "scatter_tables layout transfer ordered = Some (Inr ss)" and
    l: "\<And>l. l \<in> set (hl_layers layout) \<Longrightarrow> \<exists>g\<in>set (hl_groups layout). \<exists>spans. cg_group_id g = ly_group_id l \<and>
       map_of ss (ly_group_id l) = Some spans \<and> spans \<noteq> [] \<and>
       concat (map span_writes spans) = reference_writes (layer_table tables l) transfer \<and>
       list_all (span_in_block g (layer_table tables l)) spans" by blast
  have p: "sp_layer_spans p = concat (map (planned_layer ss) (hl_layers layout))"
    using assms(4) ordered ss by (auto simp: plan_token_scatter_def planned_layer_def [abs_def])
  have "spans_of_layer (sp_layer_spans p) (ly_layer_index l) = planned_layer ss l" if "l \<in> set (hl_layers layout)" for l
    unfolding spans_of_layer_def p using that assms(1)
    by (intro filter_concat_name) (auto simp: wf_layout_def dest: planned_layer_members)
  then show thesis using that [OF ordered p] l by blast
qed

lemma layer_writes_sort: "mset (layer_writes (sort_key k xs)) = mset (layer_writes xs)"
proof -
  have "sum_list (map (\<lambda>s. mset (lspan_writes s)) ys) = sum_mset (image_mset (\<lambda>s. mset (lspan_writes s)) (mset ys))" for ys
    by (simp flip: sum_mset_sum_list)
  then show ?thesis by (simp add: layer_writes_def mset_concat o_def)
qed

lemma planned_scatter_writable:
  assumes "wf_layout layout" "list_all wf_group (hl_groups layout)" "wf_transfer transfer"
    "plan_token_scatter layout tables transfer = Some (Inr p)" "validate_spans (sp_layer_spans p) = Inr v"
    "l \<in> set (hl_layers layout)"
  shows "writable_layer tables transfer l"
proof -
  obtain ordered ss where
    of_layer: "spans_of_layer (sp_layer_spans p) (ly_layer_index l) = planned_layer ss l" and
    g: "\<exists>g\<in>set (hl_groups layout). \<exists>spans. cg_group_id g = ly_group_id l \<and>
       map_of ss (ly_group_id l) = Some spans \<and> spans \<noteq> [] \<and>
       concat (map span_writes spans) = reference_writes (layer_table tables l) transfer \<and>
       list_all (span_in_block g (layer_table tables l)) spans"
    using planned_scatter_layers [OF assms(1-4)] assms(6) by metis
  then obtain spans where spans: "map_of ss (ly_group_id l) = Some spans" "spans \<noteq> []"
    "concat (map span_writes spans) = reference_writes (layer_table tables l) transfer" by blast
  have writes: "layer_writes (planned_layer ss l) = reference_writes (layer_table tables l) transfer"
    using spans(1,3) by (simp add: layer_writes_def planned_layer_def o_def)
  have "planned_layer ss l \<noteq> []" using spans(1,2) by (simp add: planned_layer_def)
  then obtain x where x: "x \<in> set (planned_layer ss l)" by (cases "planned_layer ss l") auto
  then have "x \<in> set (sp_layer_spans p)" unfolding of_layer [symmetric] by (simp add: spans_of_layer_def)
  then have "good_span x" using validate_spans_Inr(1) [OF assms(5)] by blast
  then have name: "ly_layer_name l = ascii_layer_name (ly_layer_index l)"
    using planned_layer_members [OF x] by (simp add: good_span_def Let_def)
  have d: "distinct (map write_slot (layer_writes (ordered_layer (sp_layer_spans p) (ly_layer_index l))))"
    using validate_spans_Inr(5) [OF assms(5)] layer_index_member [OF assms(1,6)] by (simp add: covers_def)
  have "mset (layer_writes (ordered_layer (sp_layer_spans p) (ly_layer_index l))) = mset (layer_writes (planned_layer ss l))"
    unfolding ordered_layer_def of_layer by (rule layer_writes_sort)
  then have "mset (map write_slot (layer_writes (ordered_layer (sp_layer_spans p) (ly_layer_index l)))) =
      mset (map write_slot (reference_writes (layer_table tables l) transfer))" unfolding writes by simp
  then show ?thesis using d name mset_eq_imp_distinct_iff unfolding writable_layer_def by blast
qed

lemma writable_scatter_accepted:
  assumes "wf_layout layout" "list_all wf_group (hl_groups layout)" "list_all wf_table tables" "wf_transfer transfer"
    "plan_token_scatter layout tables transfer = Some (Inr p)" "\<forall>l\<in>set (hl_layers layout). writable_layer tables transfer l"
  shows "\<exists>v. validate_spans (sp_layer_spans p) = Inr v \<and> vs_spans v = sp_layer_spans p \<and>
    vs_source_range v = tt_source_range transfer \<and> vs_target_range v = tt_target_range transfer"
proof -
  let ?layers = "hl_layers layout"
  obtain ordered ss where ordered: "validated_tables layout tables transfer = Inr ordered"
    and p: "sp_layer_spans p = concat (map (planned_layer ss) ?layers)"
    and of_layer: "\<And>l. l \<in> set ?layers \<Longrightarrow> spans_of_layer (sp_layer_spans p) (ly_layer_index l) = planned_layer ss l"
    and l: "\<And>l. l \<in> set ?layers \<Longrightarrow> \<exists>g\<in>set (hl_groups layout). \<exists>spans. cg_group_id g = ly_group_id l \<and>
       map_of ss (ly_group_id l) = Some spans \<and> spans \<noteq> [] \<and>
       concat (map span_writes spans) = reference_writes (layer_table tables l) transfer \<and>
       list_all (span_in_block g (layer_table tables l)) spans"
    using planned_scatter_layers [OF assms(1,2,4,5)] by blast
  have facts: "(planned_layer ss l \<noteq> [] \<and> sort_key (\<lambda>s. tr_start (lspan_target s)) (planned_layer ss l) = planned_layer ss l \<and>
      layer_ranges (planned_layer ss l) = Inr (tt_source_range transfer, tt_target_range transfer) \<and>
      group_kind layout (ly_group_id l) = expected_kind (ly_layer_index l) \<and> (ly_group_id l = 0 \<or> ly_group_id l = 1)) \<and>
    (\<forall>s\<in>set (planned_layer ss l). good_span s \<and> gs_group_id (lspan_group_span s) = ly_group_id l \<and>
      gs_attention_kind (lspan_group_span s) = group_kind layout (ly_group_id l) \<and>
      gs_block_size (lspan_group_span s) = group_size layout (ly_group_id l))" if lm: "l \<in> set ?layers" for l
  proof -
    obtain g spans where g: "g \<in> set (hl_groups layout)" "cg_group_id g = ly_group_id l" "map_of ss (ly_group_id l) = Some spans"
      "spans \<noteq> []" "concat (map span_writes spans) = reference_writes (layer_table tables l) transfer"
      "list_all (span_in_block g (layer_table tables l)) spans"
      using l [OF lm] by blast
    have "writable_layer tables transfer l" using assms(6) lm by blast
    note acc = planned_layer_accepted [OF assms(1-4) ordered lm this g]
    show ?thesis using acc layer_group_table(6) [OF assms(1,2,4) ordered lm g(1,2)] by blast
  qed
  show ?thesis
    using facts of_layer assms(1) p
    by (intro layered_spans_accepted [where idx = ly_layer_index and layers = ?layers and h = "planned_layer ss" and gid = ly_group_id
          and K = "group_kind layout" and B = "group_size layout"]) (auto simp: wf_layout_def all_layers_def)
qed

lemma plain_tables_writable:
  assumes "wf_layout layout" "list_all wf_group (hl_groups layout)" "wf_transfer transfer"
    "plan_token_scatter layout tables transfer = Some (Inr p)" "l \<in> set (hl_layers layout)"
    "list_all (\<lambda>c. c < 128) (ly_layer_name l)" "\<forall>t\<in>set tables. distinct (filter (\<lambda>b. b \<noteq> None) (bt_block_ids t))"
  shows "writable_layer tables transfer l"
proof -
  obtain ordered ss g where ordered: "validated_tables layout tables transfer = Inr ordered"
    and g: "g \<in> set (hl_groups layout)" "cg_group_id g = ly_group_id l"
    using planned_scatter_layers [OF assms(1-4)] assms(5) by metis
  note lay = layer_group_table [OF assms(1-3) ordered assms(5) g]
  have gw: "wf_group g" using assms(2) g(1) by (simp add: list_all_iff)
  have "distinct (map write_slot (reference_writes (layer_table tables l) transfer))"
    using distinct_reference_slots [OF lay(4)] assms(3,7) gw lay(3) by (simp add: wf_group_def wf_transfer_def comp_def)
  moreover have "ly_layer_name l = ascii_layer_name (ly_layer_index l)"
    using lay(5) assms(6) by (simp add: extract_canonical)
  ultimately show ?thesis by (simp add: writable_layer_def)
qed

text \<open>
  C35. The scatter planner and the data plane agree on what can be written: the spans planned for a
  validated layout are accepted exactly when every layer has its canonical name (a name with other than
  ASCII digits has not) and the slots its block table gives to the transferred positions all differ;
  so they always are when the layer names are ASCII and no block table lists a block twice.  Accepted
  spans are kept as they are, with the ranges of the transfer, and every layer writes each target
  position exactly once, in order, from its source position.
\<close>

theorem planned_scatter_accepted:
  assumes "wf_layout layout" "list_all wf_group (hl_groups layout)" "list_all wf_table tables" "wf_transfer transfer"
    "plan_token_scatter layout tables transfer = Some (Inr p)"
  shows "((\<exists>v. validate_spans (sp_layer_spans p) = Inr v) \<longleftrightarrow>
      (\<forall>l\<in>set (hl_layers layout). ly_layer_name l = ascii_layer_name (ly_layer_index l) \<and>
         distinct (map write_slot (reference_writes (layer_table tables l) transfer)))) \<and>
    ((\<forall>l\<in>set (hl_layers layout). list_all (\<lambda>c. c < 128) (ly_layer_name l)) \<and>
       (\<forall>t\<in>set tables. distinct (filter (\<lambda>b. b \<noteq> None) (bt_block_ids t))) \<longrightarrow>
     (\<exists>v. validate_spans (sp_layer_spans p) = Inr v)) \<and>
    (\<forall>v. validate_spans (sp_layer_spans p) = Inr v \<longrightarrow> vs_spans v = sp_layer_spans p \<and>
       vs_source_range v = tt_source_range transfer \<and> vs_target_range v = tt_target_range transfer \<and>
       (\<forall>i\<in>set all_layers. covers v (sp_layer_spans p) i))"
proof -
  let ?ok = "\<exists>v. validate_spans (sp_layer_spans p) = Inr v"
  let ?writable = "\<forall>l\<in>set (hl_layers layout). writable_layer tables transfer l"
  note accepted = writable_scatter_accepted [OF assms]
  note writable = planned_scatter_writable [OF assms(1,2,4,5)]
  have iff: "?ok \<longleftrightarrow> ?writable" using accepted writable by blast
  moreover have "?ok" if "(\<forall>l\<in>set (hl_layers layout). list_all (\<lambda>c. c < 128) (ly_layer_name l)) \<and>
       (\<forall>t\<in>set tables. distinct (filter (\<lambda>b. b \<noteq> None) (bt_block_ids t)))"
    using that plain_tables_writable [OF assms(1,2,4,5)] iff by blast
  moreover have "vs_spans v = sp_layer_spans p \<and> vs_source_range v = tt_source_range transfer \<and>
      vs_target_range v = tt_target_range transfer \<and> (\<forall>i\<in>set all_layers. covers v (sp_layer_spans p) i)"
    if v: "validate_spans (sp_layer_spans p) = Inr v" for v
  proof -
    have "?writable" using writable [OF v] by blast
    then show ?thesis using accepted v validate_spans_Inr(5) [OF v] by auto
  qed
  ultimately show ?thesis by (simp only: writable_layer_def) blast
qed

theorem planned_scatter_accepted_witness:
  "\<exists>layout p v. GptOssHybridCacheLayout_init example_groups = Inr layout \<and>
     plan_token_scatter layout example_tables example_transfer = Some (Inr p) \<and> validate_spans (sp_layer_spans p) = Inr v \<and>
     positions (vs_source_range v) = [0, 1, 2] \<and> positions (vs_target_range v) = [2, 3, 4]"
proof -
  obtain layout where l: "GptOssHybridCacheLayout_init example_groups = Inr layout" using example_layout_exists by blast
  note wf = GptOssHybridCacheLayout_init_wf [OF l]
  obtain ordered where ordered: "validated_tables layout example_tables example_transfer = Inr ordered"
    using example_tables_valid wf by blast
  obtain p where p: "plan_token_scatter layout example_tables example_transfer = Some (Inr p)"
    using plan_token_scatter_layers [OF _ _ example_transfer_wf ordered] wf example_groups_wf by auto
  have "list_all (\<lambda>c. c < 128) (ly_layer_name a)" if "a \<in> set (hl_layers layout)" for a
    using example_layer_ascii wf that by blast
  moreover have "list_all wf_table example_tables" "\<forall>t\<in>set example_tables. distinct (filter (\<lambda>b. b \<noteq> None) (bt_block_ids t))"
    by (auto simp: example_tables_def wf_table_def MAX_VLLM_BLOCK_ID_def)
  ultimately obtain v where "validate_spans (sp_layer_spans p) = Inr v" "vs_source_range v = tt_source_range example_transfer"
    "vs_target_range v = tt_target_range example_transfer"
    using planned_scatter_accepted [OF _ _ _ example_transfer_wf p, of] wf example_groups_wf by metis
  then show ?thesis using l p by (intro exI [of _ layout] exI [of _ p] exI [of _ v]) (simp add: example_transfer_def positions_def upto_rec1)
qed

section \<open>Nothing is written before everything was checked\<close>

text \<open>
  The journal of a call: every correction with its layer, positions and whether it returned, every copy and
  every synchronization with whether it returned.  Inspections and views are not recorded.
\<close>

datatype data_event = Corrected int "int list" "int list" bool | Copied bool | Synchronized bool

fun is_correction :: "data_event \<Rightarrow> bool" where
  "is_correction (Corrected _ _ _ _) = True"
| "is_correction _ = False"

definition call_returned :: "'e + 'a \<Rightarrow> bool" where
  "call_returned r = (case r of Inl _ \<Rightarrow> False | Inr _ \<Rightarrow> True)"

lemma call_returned_simps [simp]: "call_returned (Inl e) = False" "call_returned (Inr x) = True"
  by (simp_all add: call_returned_def)

definition data_observed :: "('o, 'w) DataEnvironment \<Rightarrow> ('o, 'w \<times> data_event list) DataEnvironment" where
  "data_observed env =
     \<lparr>de_shape = (\<lambda>t. unrecorded (de_shape env t)), de_dtype_name = (\<lambda>t. unrecorded (de_dtype_name env t)),
      de_device_name = (\<lambda>t. unrecorded (de_device_name env t)),
      de_paged_rows = (\<lambda>t c b a n. unrecorded (de_paged_rows env t c b a n)),
      de_staging_rows = (\<lambda>t c l a n. unrecorded (de_staging_rows env t c l a n)),
      de_reshape = (\<lambda>t s. unrecorded (de_reshape env t s)),
      de_copy = (\<lambda>d s. recorded (\<lambda>r. Copied (call_returned r)) (de_copy env d s)),
      de_synchronize = (\<lambda>t. recorded (\<lambda>r. Synchronized (call_returned r)) (de_synchronize env t)),
      de_correct_key_positions = (\<lambda>k a b l. recorded (\<lambda>r. Corrected l a b (call_returned r)) (de_correct_key_positions env k a b l)),
      de_perf_counter = unrecorded (de_perf_counter env)\<rparr>"

lemma data_observed_simps:
  "de_shape (data_observed env) = (\<lambda>t. unrecorded (de_shape env t))"
  "de_dtype_name (data_observed env) = (\<lambda>t. unrecorded (de_dtype_name env t))"
  "de_device_name (data_observed env) = (\<lambda>t. unrecorded (de_device_name env t))"
  "de_paged_rows (data_observed env) = (\<lambda>t c b a n. unrecorded (de_paged_rows env t c b a n))"
  "de_staging_rows (data_observed env) = (\<lambda>t c l a n. unrecorded (de_staging_rows env t c l a n))"
  "de_reshape (data_observed env) = (\<lambda>t s. unrecorded (de_reshape env t s))"
  "de_copy (data_observed env) = (\<lambda>d s. recorded (\<lambda>r. Copied (call_returned r)) (de_copy env d s))"
  "de_synchronize (data_observed env) = (\<lambda>t. recorded (\<lambda>r. Synchronized (call_returned r)) (de_synchronize env t))"
  "de_correct_key_positions (data_observed env) =
     (\<lambda>k a b l. recorded (\<lambda>r. Corrected l a b (call_returned r)) (de_correct_key_positions env k a b l))"
  "de_perf_counter (data_observed env) = unrecorded (de_perf_counter env)"
  by (simp_all add: data_observed_def)

text \<open>Programs that leave this journal alone.\<close>

definition leaves :: "('w \<times> 'ev list, 'e, 'a) prog \<Rightarrow> bool" where
  "leaves m \<longleftrightarrow> (\<forall>w j. snd (snd (m (w, j))) = j)"

named_theorems leaves_intros \<open>programs that leave the journal alone\<close>

lemma leaves_constructs [leaves_intros]:
  "leaves (eret x)" "leaves (eraise e)" "leaves (of_result r)" "leaves (echeck b e)" "leaves (unrecorded h)"
  by (auto simp: leaves_def eret_def eraise_def of_result_def echeck_def unrecorded_def split: prod.splits)

lemma leaves_ebind [leaves_intros]: "leaves m \<Longrightarrow> (\<And>x. leaves (f x)) \<Longrightarrow> leaves (ebind m f)"
  by (auto simp: leaves_def ebind_def split: prod.splits sum.splits) (metis snd_conv)+

lemma leaves_ethen [leaves_intros]: "leaves m \<Longrightarrow> leaves k \<Longrightarrow> leaves (ethen m k)"
  by (simp add: ethen_def leaves_ebind)

lemma leaves_etry [leaves_intros]: "leaves m \<Longrightarrow> (\<And>e. leaves (h e)) \<Longrightarrow> leaves (etry m h)"
  by (auto simp: leaves_def etry_def split: prod.splits sum.splits) (metis snd_conv)+

lemma leaves_if [leaves_intros]: "leaves m \<Longrightarrow> leaves k \<Longrightarrow> leaves (if b then m else k)"
  by simp

lemma leaves_for_each [leaves_intros]: "(\<And>x. leaves (f x)) \<Longrightarrow> leaves (for_each f xs)"
  by (induction xs) (auto intro!: leaves_intros)

lemma wp_leaves:
  assumes "leaves m" "\<And>x w. Q x (w, j)" "\<And>e w. E e (w, j)"
  shows "wp m Q E (w, j)"
proof (cases "m (w, j)")
  case (fields r w' j')
  then have "j' = j" using assms(1) unfolding leaves_def by (metis snd_conv)
  then show ?thesis using fields assms(2,3) by (cases r) (simp_all add: wp_def)
qed

lemma wp_recorded_call:
  "(\<And>x w'. Q x (w', j @ [event (Inr x)])) \<Longrightarrow> (\<And>e w'. E e (w', j @ [event (Inl e)])) \<Longrightarrow> wp (recorded event f) Q E (w, j)"
  by (cases "f w"; cases "fst (f w)") (auto simp: wp_def recorded_def)

lemma wp_except_data [wp_simps]:
  "wp (except_data m c) Q E s \<longleftrightarrow> wp m Q (\<lambda>e t. if e = DataInterrupt then E e t else E (DataPlaneError c) t) s"
  by (auto simp: except_data_def wp_def etry_def eraise_def split: prod.splits sum.splits)

lemma wp_require [wp_simps]: "wp (require b c) Q E s \<longleftrightarrow> (if b then Q () s else E (DataPlaneError c) s)"
  by (simp add: require_def wp_simps)

lemma leaves_inspections [leaves_intros]:
  "leaves (except_data m c)" if "leaves m" for m :: "('w \<times> 'ev list, data_exn, 'a) prog"
  unfolding except_data_def by (intro leaves_intros that)

lemma leaves_require [leaves_intros]: "leaves (require b c)"
  unfolding require_def by (intro leaves_intros)

lemma leaves_clock [leaves_intros]: "leaves (clock (data_observed env))"
  by (auto simp: leaves_def clock_def data_observed_simps unrecorded_def split: prod.splits)

lemma leaves_safe [leaves_intros]:
  "leaves (safe_shape (data_observed env) t)" "leaves (safe_dtype (data_observed env) t)" "leaves (safe_device (data_observed env) t)"
  unfolding safe_shape_def safe_dtype_def safe_device_def data_observed_simps by (intro leaves_intros)+

lemma leaves_view [leaves_intros]: "leaves (validate_view (data_observed env) v s t)"
  unfolding validate_view_def by (intro leaves_intros)

lemma leaves_paged_cache [leaves_intros]: "leaves (paged_cache caches n)"
  unfolding paged_cache_def by (cases "map_of caches n") (auto intro: leaves_intros)

lemma leaves_preflight [leaves_intros]: "leaves (preflight_common (data_observed env) staging caches spans)"
  unfolding preflight_common_def check_cache_def Let_def by (intro leaves_intros)

lemma leaves_require_int [leaves_intros]: "leaves (data_require_plain_int v m)"
  unfolding data_require_plain_int_def by (intro leaves_intros)

lemma leaves_prepare_gather_span [leaves_intros]: "leaves (prepare_gather_span (data_observed env) paged staging s a)"
  unfolding prepare_gather_span_def Let_def data_observed_simps
  by (auto intro!: leaves_intros simp: data_observed_simps [symmetric] split: prod.splits)

lemma wp_any: "(\<And>x w'. Q x w') \<Longrightarrow> (\<And>e w'. E e w') \<Longrightarrow> wp m Q E w"
  by (auto simp: wp_def split: prod.splits sum.splits)

definition correction :: "LayerTokenScatterSpan \<Rightarrow> data_event" where
  "correction s = Corrected (lspan_layer_index s) (positions (lspan_source s)) (positions (lspan_target s)) True"

lemma wp_silent_data:
  assumes "\<And>x w. Q x (w, j)" "\<And>e w. E e (w, j)"
  shows "wp (unrecorded f) Q E (w, j)"
  using assms by (auto intro!: wp_leaves leaves_intros)

lemma wp_silent_view:
  assumes "\<And>w. Q () (w, j)" "\<And>e w. E e (w, j)"
  shows "wp (validate_view (data_observed env) v sh t) Q E (w, j)"
  using assms by (auto intro!: wp_leaves leaves_intros)

lemma wp_silent_clock:
  assumes "\<And>x w. Q x (w, j)" "\<And>e w. E e (w, j)"
  shows "wp (clock (data_observed env)) Q E (w, j)"
  using assms by (auto intro!: wp_leaves leaves_intros)

lemma prepare_scatter_span_journal:
  "wp (prepare_scatter_span (data_observed env) staging paged s a)
     (\<lambda>(copies, _) (w', j'). j' = j @ [correction s] \<and> length copies = 2)
     (\<lambda>_ (w', j'). \<exists>cs. j' = j @ cs \<and> list_all is_correction cs) (w, j)"
  unfolding prepare_scatter_span_def Let_def
  by (auto simp: wp_simps data_observed_simps(4,5,6,9) correction_def
      intro!: wp_silent_data wp_silent_view wp_silent_clock wp_recorded_call split: data_exn.split)

lemma prepare_scatter_journal:
  "wp (prepare_scatter (data_observed env) staging caches offset prepared latency spans)
     (\<lambda>(copies, _) (w', j'). j' = j @ map correction spans \<and> length copies = length prepared + 2 * length spans)
     (\<lambda>_ (w', j'). \<exists>cs. j' = j @ cs \<and> list_all is_correction cs) (w, j)"
proof (induction spans arbitrary: prepared latency w j)
  case (Cons s rest)
  have cache: "wp (paged_cache caches n) Q E (w, j)" if "\<And>x. Q x (w, j)" "\<And>e. E e (w, j)" for n Q E and w :: 'a and j
    using that by (auto simp: paged_cache_def wp_simps split: option.split)
  have tail: "wp (prepare_scatter (data_observed env) staging caches offset (prepared @ copies) l rest)
      (\<lambda>(copies, _) (w', j'). j' = j @ correction s # map correction rest \<and> length copies = Suc (Suc (length prepared + 2 * length rest)))
      (\<lambda>_ (w', j'). \<exists>cs. j' = j @ cs \<and> list_all is_correction cs) (w', j @ [correction s])"
    if "length copies = 2" for copies l and w' :: 'a
    by (rule wp_mono [OF Cons.IH]) (use that in \<open>auto simp: correction_def\<close>)
  show ?case
    by (auto simp: wp_simps intro!: cache wp_mono [OF prepare_scatter_span_journal] tail)
qed (simp add: wp_simps)

lemma prepare_gather_journal:
  "wp (prepare_gather (data_observed env) staging caches start offset prepared spans)
     (\<lambda>copies (w', j'). j' = j \<and> length copies = length prepared + 2 * length spans) (\<lambda>_ (w', j'). j' = j) (w, j)"
proof (induction spans arbitrary: prepared w)
  case (Cons s rest)
  have cache: "wp (paged_cache caches n) Q E (w, j)" if "\<And>x. Q x (w, j)" "\<And>e. E e (w, j)" for n Q E and w :: 'a
    using that by (auto simp: paged_cache_def wp_simps split: option.split)
  have one: "wp (prepare_gather_span (data_observed env) paged staging s a) (\<lambda>copies (w', j'). j' = j \<and> length copies = 2)
      (\<lambda>_ (w', j'). j' = j) (w, j)" for paged a and w :: 'a
    unfolding prepare_gather_span_def Let_def
    by (auto simp: wp_simps data_observed_simps(4,5,6) intro!: wp_silent_data wp_silent_view)
  have tail: "wp (prepare_gather (data_observed env) staging caches start offset (prepared @ copies) rest)
      (\<lambda>copies (w', j'). j' = j \<and> length copies = Suc (Suc (length prepared + 2 * length rest))) (\<lambda>_ (w', j'). j' = j) (w', j)"
    if "length copies = 2" for copies and w' :: 'a
    by (rule wp_mono [OF Cons.IH]) (use that in auto)
  show ?case by (auto simp: wp_simps intro!: cache wp_mono [OF one] tail)
qed (simp add: wp_simps)

text \<open>What applying the copies adds to the journal.\<close>

definition copying :: "nat \<Rightarrow> data_event list" where
  "copying n = replicate n (Copied True) @ [Synchronized True]"

definition copying_failed :: "data_exn \<Rightarrow> bool" where
  "copying_failed e \<longleftrightarrow> e = DataPlaneError MUTATION_FAILED \<or> e = DataInterrupt"

lemma apply_copies_journal:
  "wp (apply_copies (data_observed env) prepared t)
     (\<lambda>_ (w', j'). j' = j @ copying (length prepared))
     (\<lambda>e (w', j'). copying_failed e \<and> (\<exists>cs. j' = j @ cs \<and> list_all (\<lambda>c. \<not> is_correction c) cs)) (w, j)"
proof -
  let ?E = "\<lambda>_ (w' :: 'a, j'). \<exists>cs. j' = j @ cs \<and> list_all (\<lambda>c. \<not> is_correction c) cs"
  have loop: "wp (for_each (\<lambda>(d, s). de_copy (data_observed env) d s) prepared)
      (\<lambda>_ (w', j'). j' = j @ replicate (length prepared) (Copied True)) ?E (w, j)"
    for prepared :: "('b \<times> 'b) list" and w
  proof (induction prepared arbitrary: w j)
    case (Cons x rest)
    obtain d s where x: "x = (d, s)" by (cases x)
    have tail: "wp (for_each (\<lambda>(d, s). de_copy (data_observed env) d s) rest)
        (\<lambda>_ (w', j'). j' = j @ Copied True # replicate (length rest) (Copied True))
        (\<lambda>_ (w', j'). \<exists>cs. j' = j @ cs \<and> list_all (\<lambda>c. \<not> is_correction c) cs) (w', j @ [Copied True])" for w' :: 'a
      by (rule wp_mono [OF Cons.IH]) auto
    show ?case
      using tail by (auto simp: wp_simps x data_observed_simps(7) intro!: wp_recorded_call)
  qed (simp add: wp_simps)
  show ?thesis
    unfolding apply_copies_def copying_def copying_failed_def
    by (auto simp: wp_simps data_observed_simps(8) list_all_iff intro!: wp_mono [OF loop] wp_recorded_call)
qed

lemma leaves_check_cache [leaves_intros]: "leaves (check_cache (data_observed env) d v spans cache)"
  unfolding check_cache_def Let_def by (intro leaves_intros)

lemma wp_silent_inspections:
  assumes "\<And>x w. Q x (w, j)" "\<And>e w. E e (w, j)"
  shows "wp (safe_device (data_observed env) t) Q E (w, j)" "wp (safe_dtype (data_observed env) t) Q E (w, j)"
  using assms by (auto intro!: wp_leaves leaves_intros)

lemma wp_silent_shape:
  assumes "\<And>x w. Q x (w, j)" "\<And>e w. E e (w, j)"
  shows "wp (safe_shape (data_observed env) t) Q E (w, j)"
  using assms by (auto intro!: wp_leaves leaves_intros)

lemma wp_silent_loop:
  assumes "\<And>x. leaves (f x)" "\<And>w. Q () (w, j)" "\<And>e w. E e (w, j)"
  shows "wp (for_each f xs) Q E (w, j)"
  using assms by (auto intro!: wp_leaves leaves_intros)

lemma preflight_validates:
  "wp (preflight_common (data_observed env) staging caches spans) (\<lambda>v (w', j'). validate_spans spans = Inr v \<and> j' = j) (\<lambda>_ (w', j'). j' = j) (w, j)"
  unfolding preflight_common_def
  by (cases "validate_spans spans")
    (auto simp: wp_simps intro!: wp_silent_inspections wp_silent_shape wp_silent_loop leaves_ebind leaves_paged_cache leaves_check_cache)

definition written_last :: "ValidatedSpans \<Rightarrow> data_event list \<Rightarrow> data_event list \<Rightarrow> data_exn + DataPlaneReceipt \<Rightarrow> (pyfloat \<Rightarrow> DataPlaneReceipt) \<Rightarrow> bool" where
  "written_last v corrections j r receipt \<longleftrightarrow> (\<exists>copies. j = corrections @ copies \<and> list_all (\<lambda>e. \<not> is_correction e) copies \<and>
     ((\<exists>e. r = Inl e \<and> copying_failed e) \<or>
      copies = copying (2 * length (vs_spans v)) \<and> (\<exists>latency. r = DataPlaneReceipt_init (receipt latency))))"

lemma copying_no_correction: "list_all (\<lambda>e. \<not> is_correction e) (copying n)"
  by (simp add: copying_def list_all_iff)

lemma apply_written_last:
  assumes "length prepared = 2 * length (vs_spans v)"
  shows "wp (ethen (apply_copies (data_observed env) prepared t) (of_result (DataPlaneReceipt_init (receipt latency))))
     (\<lambda>x (w', j'). written_last v j j' (Inr x) receipt) (\<lambda>e (w', j'). written_last v j j' (Inl e) receipt) (w, j)"
  unfolding wp_ethen
proof (rule wp_mono [OF apply_copies_journal])
  fix t and x :: unit
  assume "case t of (w', j') \<Rightarrow> j' = j @ copying (length prepared)"
  then have "written_last v j (snd t) (DataPlaneReceipt_init (receipt latency)) receipt"
    using assms copying_no_correction unfolding written_last_def by fastforce
  then show "wp (of_result (DataPlaneReceipt_init (receipt latency))) (\<lambda>x (w', j'). written_last v j j' (Inr x) receipt)
      (\<lambda>e (w', j'). written_last v j j' (Inl e) receipt) t"
    by (cases t) (auto simp: wp_of_result split: sum.split)
qed (auto simp: written_last_def)

lemma scatter_written_last:
  "wp (scatter_retrieved_kv (data_observed env) staging caches spans offset n)
     (\<lambda>x (w', j). \<exists>v. validate_spans spans = Inr v \<and> written_last v (map correction (vs_spans v)) j (Inr x) (load_receipt v))
     (\<lambda>e (w', j). list_all is_correction j \<or>
        (\<exists>v. validate_spans spans = Inr v \<and> written_last v (map correction (vs_spans v)) j (Inl e) (load_receipt v))) (w, [])"
proof -
  have rest: "wp (ebind (prepare_scatter (data_observed env) staging caches a [] (Finite 0) (vs_spans v)) (\<lambda>(prepared, latency).
        ethen (apply_copies (data_observed env) prepared t) (of_result (DataPlaneReceipt_init (load_receipt v latency)))))
      (\<lambda>x (w', j). \<exists>v. validate_spans spans = Inr v \<and> written_last v (map correction (vs_spans v)) j (Inr x) (load_receipt v))
      (\<lambda>e (w', j). list_all is_correction j \<or>
        (\<exists>v. validate_spans spans = Inr v \<and> written_last v (map correction (vs_spans v)) j (Inl e) (load_receipt v))) (w, [])"
    if "validate_spans spans = Inr v" for v a t w
  proof -
    have "wp (ethen (apply_copies (data_observed env) prepared t) (of_result (DataPlaneReceipt_init (load_receipt v latency))))
      (\<lambda>x (w', j). \<exists>v. validate_spans spans = Inr v \<and> written_last v (map correction (vs_spans v)) j (Inr x) (load_receipt v))
      (\<lambda>e (w', j). list_all is_correction j \<or>
        (\<exists>v. validate_spans spans = Inr v \<and> written_last v (map correction (vs_spans v)) j (Inl e) (load_receipt v))) (w', map correction (vs_spans v))"
      if "length prepared = 2 * length (vs_spans v)" for prepared latency w'
      by (rule wp_mono [OF apply_written_last [OF that]]) (use \<open>validate_spans spans = Inr v\<close> in auto)
    then show ?thesis unfolding wp_ebind by (intro wp_mono [OF prepare_scatter_journal [of _ _ _ _ _ _ _ "[]"]]) auto
  qed
  show ?thesis
    unfolding scatter_retrieved_kv_def wp_ebind [of "preflight_common _ _ _ _"]
    by (rule wp_mono [OF preflight_validates])
      (auto simp: data_require_plain_int_def wp_ethen wp_require wp_ebind [of "safe_shape _ _"] simp del: wp_ebind
        intro!: wp_silent_shape wp_mono [OF rest])
qed

lemma gather_written_last:
  "wp (gather_precomputed_kv (data_observed env) staging caches spans document offset)
     (\<lambda>x (w', j). \<exists>v. validate_spans spans = Inr v \<and> written_last v [] j (Inr x) (\<lambda>_. store_receipt v))
     (\<lambda>e (w', j). j = [] \<or> (\<exists>v. validate_spans spans = Inr v \<and> written_last v [] j (Inl e) (\<lambda>_. store_receipt v))) (w, [])"
proof -
  have rest: "wp (ebind (prepare_gather (data_observed env) staging caches start a [] (vs_spans v)) (\<lambda>prepared.
        ethen (apply_copies (data_observed env) prepared t) (of_result (DataPlaneReceipt_init (store_receipt v)))))
      (\<lambda>x (w', j). \<exists>v. validate_spans spans = Inr v \<and> written_last v [] j (Inr x) (\<lambda>_. store_receipt v))
      (\<lambda>e (w', j). j = [] \<or> (\<exists>v. validate_spans spans = Inr v \<and> written_last v [] j (Inl e) (\<lambda>_. store_receipt v))) (w, [])"
    if "validate_spans spans = Inr v" for v start a t w
  proof -
    have "wp (ethen (apply_copies (data_observed env) prepared t) (of_result (DataPlaneReceipt_init (store_receipt v))))
      (\<lambda>x (w', j). \<exists>v. validate_spans spans = Inr v \<and> written_last v [] j (Inr x) (\<lambda>_. store_receipt v))
      (\<lambda>e (w', j). j = [] \<or> (\<exists>v. validate_spans spans = Inr v \<and> written_last v [] j (Inl e) (\<lambda>_. store_receipt v))) (w', [])"
      if "length prepared = 2 * length (vs_spans v)" for prepared w'
      by (rule wp_mono [OF apply_written_last [OF that, where receipt = "\<lambda>_. store_receipt v"]])
        (use \<open>validate_spans spans = Inr v\<close> in auto)
    then show ?thesis unfolding wp_ebind by (intro wp_mono [OF prepare_gather_journal]) auto
  qed
  show ?thesis
    unfolding gather_precomputed_kv_def wp_ebind [of "preflight_common _ _ _ _"]
    by (rule wp_mono [OF preflight_validates])
      (auto simp: data_require_plain_int_def wp_ethen wp_require wp_ebind [of "safe_shape _ _"] simp del: wp_ebind
        intro!: wp_silent_shape wp_mono [OF rest])
qed

text \<open>A dry run differs from a real one in the copies alone, and makes none.\<close>

lemma read_only_simps:
  "de_shape (read_only env) = de_shape env" "de_dtype_name (read_only env) = de_dtype_name env"
  "de_device_name (read_only env) = de_device_name env" "de_paged_rows (read_only env) = de_paged_rows env"
  "de_staging_rows (read_only env) = de_staging_rows env" "de_reshape (read_only env) = de_reshape env"
  "de_copy (read_only env) = (\<lambda>_ _ w. (Inr (), w))" "de_synchronize (read_only env) = de_synchronize env"
  "de_correct_key_positions (read_only env) = de_correct_key_positions env" "de_perf_counter (read_only env) = de_perf_counter env"
  by (simp_all add: read_only_def)

lemma read_only_checks:
  "safe_shape (read_only env) = safe_shape env" "safe_dtype (read_only env) = safe_dtype env"
  "safe_device (read_only env) = safe_device env" "clock (read_only env) = clock env"
  by (intro ext; simp add: safe_shape_def safe_dtype_def safe_device_def clock_def read_only_simps)+

lemma read_only_prepares:
  "validate_view (read_only env) = validate_view env" "preflight_common (read_only env) = preflight_common env"
  "prepare_scatter_span (read_only env) = prepare_scatter_span env" "prepare_gather_span (read_only env) = prepare_gather_span env"
proof -
  show v: "validate_view (read_only env) = validate_view env" by (intro ext) (simp add: validate_view_def read_only_checks)
  have "check_cache (read_only env) = check_cache env" by (intro ext) (simp add: check_cache_def read_only_checks)
  then show "preflight_common (read_only env) = preflight_common env" by (intro ext) (simp add: preflight_common_def read_only_checks)
  show "prepare_scatter_span (read_only env) = prepare_scatter_span env" "prepare_gather_span (read_only env) = prepare_gather_span env"
    by (intro ext; simp add: prepare_scatter_span_def prepare_gather_span_def read_only_checks read_only_simps v)+
qed

lemma read_only_prepare_all:
  "prepare_scatter (read_only env) staging caches offset prepared latency spans = prepare_scatter env staging caches offset prepared latency spans"
  "prepare_gather (read_only env) staging caches start offset prepared spans = prepare_gather env staging caches start offset prepared spans"
  by (induction spans arbitrary: prepared latency) (simp_all add: read_only_prepares)

text \<open>
  What a dry run tells about the real one.  Either both fail alike before any copy, with the same exception,
  world and journal; or both reach the copying after the same corrections.  Then the dry run synchronizes,
  copies nothing, and returns the result \<open>x\<close> that the real run returns unless its copying fails.
\<close>

definition predicted ::
    "data_event list \<Rightarrow> (data_exn + 'a) \<times> 'w \<times> data_event list \<Rightarrow> (data_exn + 'a) \<times> 'w \<times> data_event list \<Rightarrow> bool" where
  "predicted j0 dry actual \<longleftrightarrow> (\<exists>cs. list_all is_correction cs \<and>
     ((\<exists>e w. dry = (Inl e, w, j0 @ cs) \<and> actual = dry) \<or>
      (\<exists>x ok r w r' w' copies. dry = (r, w, j0 @ cs @ [Synchronized ok]) \<and> actual = (r', w', j0 @ cs @ copies) \<and>
         list_all (\<lambda>e. \<not> is_correction e) copies \<and> (if ok then r = x else \<exists>e. r = Inl e \<and> copying_failed e) \<and>
         (r' = x \<or> (\<exists>e. r' = Inl e \<and> copying_failed e)))))"

definition foretells :: "('w \<times> data_event list, data_exn, 'a) prog \<Rightarrow> ('w \<times> data_event list, data_exn, 'a) prog \<Rightarrow> bool" where
  "foretells m m' \<longleftrightarrow> (\<forall>w j. predicted j (m (w, j)) (m' (w, j)))"

text \<open>Programs that add corrections to the journal and nothing else.\<close>

definition corrects :: "('w \<times> data_event list, data_exn, 'a) prog \<Rightarrow> bool" where
  "corrects m \<longleftrightarrow> (\<forall>w j. \<exists>cs. list_all is_correction cs \<and> snd (snd (m (w, j))) = j @ cs)"

lemma leaves_corrects: "leaves m \<Longrightarrow> corrects m"
  unfolding leaves_def corrects_def by (intro allI exI [of _ "[]"]) simp

lemma predicted_longer:
  assumes "predicted (j @ cs) dry actual" "list_all is_correction cs"
  shows "predicted j dry actual"
proof -
  obtain ds where ds: "list_all is_correction ds" and
    c: "(\<exists>e w. dry = (Inl e, w, (j @ cs) @ ds) \<and> actual = dry) \<or>
      (\<exists>x ok r w r' w' copies. dry = (r, w, (j @ cs) @ ds @ [Synchronized ok]) \<and> actual = (r', w', (j @ cs) @ ds @ copies) \<and>
         list_all (\<lambda>e. \<not> is_correction e) copies \<and> (if ok then r = x else \<exists>e. r = Inl e \<and> copying_failed e) \<and>
         (r' = x \<or> (\<exists>e. r' = Inl e \<and> copying_failed e)))"
    using assms(1) unfolding predicted_def by blast
  have "list_all is_correction (cs @ ds)" using ds assms(2) by simp
  then show ?thesis using c unfolding predicted_def append_assoc by (intro exI [of _ "cs @ ds"]) simp
qed

lemma foretells_ebind:
  assumes "corrects m" "\<And>x. foretells (k x) (k' x)"
  shows "foretells (ebind m k) (ebind m k')"
  unfolding foretells_def
proof (intro allI)
  fix w j
  obtain r w1 j1 where m: "m (w, j) = (r, w1, j1)" by (metis prod.collapse)
  then obtain cs where cs: "list_all is_correction cs" "j1 = j @ cs" using assms(1) unfolding corrects_def by (metis snd_conv)
  show "predicted j (ebind m k (w, j)) (ebind m k' (w, j))"
  proof (cases r)
    case (Inl e)
    then show ?thesis using m cs by (auto simp: ebind_def predicted_def)
  next
    case (Inr x)
    have "predicted (j @ cs) (k x (w1, j @ cs)) (k' x (w1, j @ cs))" using assms(2) by (simp add: foretells_def)
    from predicted_longer [OF this cs(1)] show ?thesis using m cs(2) Inr by (simp add: ebind_def)
  qed
qed

lemma foretells_ethen: "corrects m \<Longrightarrow> foretells k k' \<Longrightarrow> foretells (ethen m k) (ethen m k')"
  by (simp add: ethen_def foretells_ebind)

lemma skipped_copies: "for_each (\<lambda>(d, s). Pair (Inr ())) xs t = (Inr (), t)"
  by (induction xs arbitrary: t) (auto simp: eret_def ethen_def ebind_def)

lemma dry_apply:
  "\<exists>r w'. apply_copies (read_only (data_observed env)) prepared t (w, j) = (r, w', j @ [Synchronized (call_returned r)]) \<and>
     (case r of Inr _ \<Rightarrow> True | Inl e \<Rightarrow> copying_failed e)"
proof -
  obtain r w' where "de_synchronize env t w = (r, w')" by (cases "de_synchronize env t w")
  then show ?thesis
    by (cases r)
      (auto simp: apply_copies_def except_data_def etry_def eraise_def ethen_def ebind_def read_only_simps skipped_copies
        data_observed_simps(8) recorded_def copying_failed_def)
qed

lemma predicted_copying:
  assumes "dry = (r, w, j @ [Synchronized ok])" "actual = (r', w', j @ copies)"
    "if ok then r = x else \<exists>e. r = Inl e \<and> copying_failed e" "r' = x \<or> (\<exists>e. r' = Inl e \<and> copying_failed e)"
    "list_all (\<lambda>e. \<not> is_correction e) copies"
  shows "predicted j dry actual"
  unfolding predicted_def
proof (rule exI [of _ "[]"], rule conjI [OF _ disjI2], simp, intro exI conjI)
  show "dry = (r, w, j @ [] @ [Synchronized ok])" "actual = (r', w', j @ [] @ copies)" using assms(1,2) by simp_all
qed (fact assms)+

lemma foretells_apply:
  "foretells (ethen (apply_copies (read_only (data_observed env)) prepared t) (of_result x))
     (ethen (apply_copies (data_observed env) prepared t) (of_result x))"
  unfolding foretells_def
proof (intro allI)
  fix w j
  obtain r w' where dry: "apply_copies (read_only (data_observed env)) prepared t (w, j) = (r, w', j @ [Synchronized (call_returned r)])"
    "case r of Inr _ \<Rightarrow> True | Inl e \<Rightarrow> copying_failed e"
    using dry_apply [of env prepared t w j] by blast
  obtain r' w1 j1 where real: "apply_copies (data_observed env) prepared t (w, j) = (r', w1, j1)" by (metis prod.collapse)
  have "case r' of Inr _ \<Rightarrow> j1 = j @ copying (length prepared)
      | Inl e \<Rightarrow> copying_failed e \<and> (\<exists>cs. j1 = j @ cs \<and> list_all (\<lambda>c. \<not> is_correction c) cs)"
    using wp_result [OF real apply_copies_journal] by (auto split: sum.splits)
  then obtain copies where copies: "j1 = j @ copies" "list_all (\<lambda>c. \<not> is_correction c) copies"
    "case r' of Inr _ \<Rightarrow> True | Inl e \<Rightarrow> copying_failed e"
    using copying_no_correction by (cases r') auto
  let ?res = "\<lambda>r. case r of Inr _ \<Rightarrow> x | Inl e \<Rightarrow> Inl e"
  have "ethen (apply_copies (read_only (data_observed env)) prepared t) (of_result x) (w, j) =
      (?res r, w', j @ [Synchronized (call_returned r)])"
    using dry(1) by (cases r) (simp_all add: ethen_def ebind_def of_result_def)
  moreover have "ethen (apply_copies (data_observed env) prepared t) (of_result x) (w, j) = (?res r', w1, j @ copies)"
    using real copies(1) by (cases r') (simp_all add: ethen_def ebind_def of_result_def)
  moreover have "if call_returned r then ?res r = x else \<exists>e. ?res r = Inl e \<and> copying_failed e"
    using dry(2) by (cases r) simp_all
  moreover have "?res r' = x \<or> (\<exists>e. ?res r' = Inl e \<and> copying_failed e)" using copies(3) by (cases r') simp_all
  ultimately show "predicted j (ethen (apply_copies (read_only (data_observed env)) prepared t) (of_result x) (w, j))
      (ethen (apply_copies (data_observed env) prepared t) (of_result x) (w, j))"
    using copies(2) by (rule predicted_copying)
qed

lemma corrects_prepare:
  "corrects (prepare_scatter (data_observed env) staging caches offset prepared latency spans)"
  "corrects (prepare_gather (data_observed env) staging caches start offset prepared spans)"
proof -
  have "\<exists>cs. list_all is_correction cs \<and> snd (snd (prepare_scatter (data_observed env) staging caches offset prepared latency spans (w, j))) = j @ cs" for w j
  proof -
    obtain r w1 j1 where m: "prepare_scatter (data_observed env) staging caches offset prepared latency spans (w, j) = (r, w1, j1)"
      by (metis prod.collapse)
    have "list_all is_correction (map correction spans)" by (simp add: correction_def list_all_iff)
    then show ?thesis using wp_result [OF m prepare_scatter_journal] m by (cases r) auto
  qed
  then show "corrects (prepare_scatter (data_observed env) staging caches offset prepared latency spans)" by (simp add: corrects_def)
  have "\<exists>cs. list_all is_correction cs \<and> snd (snd (prepare_gather (data_observed env) staging caches start offset prepared spans (w, j))) = j @ cs" for w j
  proof -
    obtain r w1 j1 where m: "prepare_gather (data_observed env) staging caches start offset prepared spans (w, j) = (r, w1, j1)"
      by (metis prod.collapse)
    then show ?thesis using wp_result [OF m prepare_gather_journal] by (cases r) (auto intro!: exI [of _ "[]"])
  qed
  then show "corrects (prepare_gather (data_observed env) staging caches start offset prepared spans)" by (simp add: corrects_def)
qed

lemma dry_transfers_foretell:
  "foretells (scatter_retrieved_kv (read_only (data_observed env)) staging caches spans offset n)
     (scatter_retrieved_kv (data_observed env) staging caches spans offset n)"
  "foretells (gather_precomputed_kv (read_only (data_observed env)) staging caches spans document offset)
     (gather_precomputed_kv (data_observed env) staging caches spans document offset)"
  unfolding scatter_retrieved_kv_def gather_precomputed_kv_def read_only_prepares read_only_checks read_only_prepare_all
  by (auto intro!: foretells_ebind foretells_ethen foretells_apply corrects_prepare leaves_corrects leaves_intros split: prod.split)

section \<open>Order of effects\<close>

text \<open>
  What a journal may look like: corrections only, when the call failed before copying; else the corrections of
  all accepted spans in order, and after them copies and one synchronization.
\<close>

definition mutated_last ::
    "LayerTokenScatterSpan list \<Rightarrow> (ValidatedSpans \<Rightarrow> data_event list) \<Rightarrow> (ValidatedSpans \<Rightarrow> pyfloat \<Rightarrow> DataPlaneReceipt) \<Rightarrow>
     (data_exn + DataPlaneReceipt) \<times> 'w \<times> data_event list \<Rightarrow> bool" where
  "mutated_last spans corrections receipt = (\<lambda>(r, w, j).
     (list_all is_correction j \<and> \<not> call_returned r) \<or>
     (\<exists>v. validate_spans spans = Inr v \<and> written_last v (corrections v) j r (receipt v)))"

text \<open>
  C36. A transfer writes nothing before every span was validated, viewed and corrected.  Whatever the tensors,
  the correction and the clock do: a scatter that fails before copying leaves only corrections in the journal, a
  gather leaves nothing; one that starts copying has corrected every accepted span, in order (a gather corrects
  none), and then copies keys and values of every span and synchronizes once, or fails with
  \<open>MUTATION_FAILED\<close> or the interrupt itself.
\<close>

theorem transfers_mutate_last:
  "mutated_last spans (\<lambda>v. map correction (vs_spans v)) load_receipt
     (scatter_retrieved_kv (data_observed env) staging caches spans offset n (w, [])) \<and>
   mutated_last spans (\<lambda>_. []) (\<lambda>v _. store_receipt v)
     (gather_precomputed_kv (data_observed env) staging caches spans document store_offset (w, []))"
proof -
  obtain r w1 j where s: "scatter_retrieved_kv (data_observed env) staging caches spans offset n (w, []) = (r, w1, j)" by (metis prod.collapse)
  obtain r' w2 j' where g: "gather_precomputed_kv (data_observed env) staging caches spans document store_offset (w, []) = (r', w2, j')"
    by (metis prod.collapse)
  show ?thesis
    using wp_result [OF s scatter_written_last] wp_result [OF g gather_written_last] unfolding s g mutated_last_def
    by (cases r; cases r') auto
qed

text \<open>
  C37. A dry run tells what the real run will do.  With the copy replaced as \<open>_ReadOnlyTensorOps\<close> does, a
  scatter or a gather over any tensor operations either fails before the copying, and then the real run from
  the same state fails with the same exception, world and journal, having copied nothing; or it reaches the
  copying after exactly the corrections the real run makes.  Then it synchronizes without copying, and when
  the synchronization succeeds it ends with the very result of the real run, unless the real copying fails
  with \<open>MUTATION_FAILED\<close> or the interrupt.  So after a dry run that returned a receipt, the real run returns
  the same receipt or fails in the copying, never in a check.
\<close>

theorem dry_run_predicts:
  "predicted [] (scatter_retrieved_kv (read_only (data_observed env)) staging caches spans offset n (w, []))
     (scatter_retrieved_kv (data_observed env) staging caches spans offset n (w, [])) \<and>
   predicted [] (gather_precomputed_kv (read_only (data_observed env)) staging caches spans document store_offset (w, []))
     (gather_precomputed_kv (data_observed env) staging caches spans document store_offset (w, []))"
  by (rule conjI; rule dry_transfers_foretell [unfolded foretells_def, rule_format])

end
