(* ===== verification/TensorMemory.thy ===== *)
theory TensorMemory
  imports DataTransfer
begin

text \<open>
  Where the rows end up.  The interface \<open>tensor_memory\<close> states what the data plane relies on: views address
  rows of a memory, inspections and corrections leave the memory alone, a copy overwrites the rows of its
  destination.  Over any such tensors a scatter and a gather move every row to its place and touch no other.
\<close>

section \<open>The interface\<close>

text \<open>
  \<open>undisturbed\<close>: the stored rows are the same and every object still has its rows.  \<open>overwrite\<close>: the rows of
  the listed cells replaced.
\<close>

definition undisturbed :: "('w \<Rightarrow> 'c \<Rightarrow> 'v) \<Rightarrow> ('w \<Rightarrow> 'o \<Rightarrow> 'v list \<Rightarrow> bool) \<Rightarrow> 'w \<Rightarrow> 'w \<Rightarrow> bool" where
  "undisturbed store holds w w' \<longleftrightarrow> store w' = store w \<and> (\<forall>v rows. holds w v rows \<longrightarrow> holds w' v rows)"

definition overwrite :: "('c \<Rightarrow> 'v) \<Rightarrow> 'c list \<times> 'v list \<Rightarrow> 'c \<Rightarrow> 'v" where
  "overwrite f writes c = (case map_of (zip (fst writes) (snd writes)) c of None \<Rightarrow> f c | Some row \<Rightarrow> row)"

definition rotate_rows :: "(int \<Rightarrow> int \<Rightarrow> int \<Rightarrow> 'v \<Rightarrow> 'v) \<Rightarrow> int \<Rightarrow> int list \<Rightarrow> int list \<Rightarrow> 'v list \<Rightarrow> 'v list" where
  "rotate_rows turn layer src tgt rows = map (\<lambda>((s, t), row). turn layer s t row) (zip (zip src tgt) rows)"

definition row_run :: "int \<Rightarrow> int \<Rightarrow> int list" where
  "row_run a n = [a..a + n - 1]"

text \<open>Writing lists of cells one after the other.\<close>

lemma overwrite_other: "c \<notin> set (fst x) \<Longrightarrow> overwrite f x c = f c"
  by (auto simp: overwrite_def split: option.split dest!: map_of_SomeD set_zip_leftD)

lemma overwrite_at:
  assumes "distinct cs" "length rows = length cs" "i < length cs"
  shows "overwrite f (cs, rows) (cs ! i) = rows ! i"
proof -
  have "map_of (zip cs rows) (cs ! i) = Some (rows ! i)"
    using assms by (simp add: map_of_zip_nth)
  then show ?thesis by (simp add: overwrite_def)
qed

lemma overwrites_other: "c \<notin> set (concat (map fst targets)) \<Longrightarrow> foldl overwrite f targets c = f c"
  by (induction targets arbitrary: f) (auto simp: overwrite_other)

lemma overwrites_at:
  assumes "distinct (concat (map fst targets))" "(cs, rows) \<in> set targets" "length rows = length cs" "i < length cs"
  shows "foldl overwrite f targets (cs ! i) = rows ! i"
  using assms
proof (induction targets arbitrary: f)
  case (Cons x targets)
  have d: "distinct (fst x)" "distinct (concat (map fst targets))" "set (fst x) \<inter> set (concat (map fst targets)) = {}"
    using Cons.prems(1) by auto
  show ?case
  proof (cases "x = (cs, rows)")
    case True
    then have "cs ! i \<notin> set (concat (map fst targets))" using d(3) nth_mem [OF Cons.prems(4)] by (metis disjoint_iff fst_conv)
    from overwrites_other [OF this] show ?thesis using True d(1) overwrite_at [OF _ Cons.prems(3,4)] by simp
  next
    case False
    then have "(cs, rows) \<in> set targets" using Cons.prems(2) by auto
    from Cons.IH [OF d(2) this Cons.prems(3,4)] show ?thesis by simp
  qed
qed simp

text \<open>Which span and which of its rows a position or slot of a layer belongs to.\<close>

lemma distinct_rows_unique:
  assumes "distinct (map f (concat (map g xs)))" "x \<in> set xs" "y \<in> set xs" "u \<in> set (g x)" "v \<in> set (g y)" "f u = f v"
  shows "x = y \<and> u = v"
  using assms
proof (induction xs)
  case (Cons z xs)
  have d: "inj_on f (set (g z))" "\<And>u v a. u \<in> set (g z) \<Longrightarrow> a \<in> set xs \<Longrightarrow> v \<in> set (g a) \<Longrightarrow> f u \<noteq> f v"
    "distinct (map f (concat (map g xs)))"
    using Cons.prems(1) by (auto simp: distinct_map)
  consider "x = z" "y = z" | "x = z" "y \<in> set xs" | "y = z" "x \<in> set xs" | "x \<in> set xs" "y \<in> set xs" using Cons.prems(2,3) by auto
  then show ?case
  proof cases
    case 1 then show ?thesis using d(1) Cons.prems(4-6) by (simp add: inj_on_eq_iff)
  next
    case 2 then show ?thesis using d(2) [of u y v] Cons.prems(4-6) by simp
  next
    case 3 then show ?thesis using d(2) [of v x u] Cons.prems(4-6) by simp
  next
    case 4 then show ?thesis using Cons.IH [OF d(3)] Cons.prems(4-6) by blast
  qed
qed simp

lemma distinct_concat_map:
  assumes "distinct xs" "\<And>x. x \<in> set xs \<Longrightarrow> distinct (F x)" "\<And>x y. x \<in> set xs \<Longrightarrow> y \<in> set xs \<Longrightarrow> x \<noteq> y \<Longrightarrow> set (F x) \<inter> set (F y) = {}"
  shows "distinct (concat (map F xs))"
  using assms
proof (induction xs)
  case (Cons x xs)
  have "set (F x) \<inter> set (concat (map F xs)) = {}" using Cons.prems(1,3) by fastforce
  then show ?case using Cons by auto
qed simp

lemma distinct_of_rows: "distinct (map f (concat (map g xs))) \<Longrightarrow> (\<And>x. x \<in> set xs \<Longrightarrow> g x \<noteq> []) \<Longrightarrow> distinct xs"
proof (induction xs)
  case (Cons x xs)
  have "x \<notin> set xs"
  proof
    assume "x \<in> set xs"
    moreover have "hd (g x) \<in> set (g x)" using Cons.prems(2) by simp
    ultimately show False using Cons.prems(1) by auto
  qed
  then show ?case using Cons by simp
qed simp

locale tensor_memory =
  fixes env :: "('o, 'w) DataEnvironment"
    and view :: "'o \<Rightarrow> 'c list \<Rightarrow> bool"
    and holds :: "'w \<Rightarrow> 'o \<Rightarrow> 'v list \<Rightarrow> bool"
    and depends :: "'o \<Rightarrow> 'c set"
    and store :: "'w \<Rightarrow> 'c \<Rightarrow> 'v"
    and staged :: "'o \<Rightarrow> int \<Rightarrow> int \<Rightarrow> int \<Rightarrow> 'c"
    and paged :: "'o \<Rightarrow> int \<Rightarrow> int \<Rightarrow> int \<Rightarrow> 'c"
    and turn :: "int \<Rightarrow> int \<Rightarrow> int \<Rightarrow> 'v \<Rightarrow> 'v"
  assumes inspections: "de_shape env t w = (r1, w') \<Longrightarrow> undisturbed store holds w w'"
      "de_dtype_name env t w = (r2, w') \<Longrightarrow> undisturbed store holds w w'"
      "de_device_name env t w = (r2, w') \<Longrightarrow> undisturbed store holds w w'"
      "de_perf_counter env w = (r3, w') \<Longrightarrow> undisturbed store holds w w'"
      "de_synchronize env t w = (r4, w') \<Longrightarrow> undisturbed store holds w w'"
    and views: "de_paged_rows env t c b a n w = (r, w') \<Longrightarrow> undisturbed store holds w w'"
      "de_staging_rows env t c l a n w = (r, w') \<Longrightarrow> undisturbed store holds w w'"
      "de_reshape env t sh w = (r, w') \<Longrightarrow> undisturbed store holds w w'"
    and corrections: "de_correct_key_positions env k src tgt l w = (r, w') \<Longrightarrow> undisturbed store holds w w'"
    and paged_view: "de_paged_rows env t c b a n w = (Inr v, w') \<Longrightarrow> view v (map (paged t c b) (row_run a n))"
    and staged_view: "de_staging_rows env t c l a n w = (Inr v, w') \<Longrightarrow> view v (map (staged t c l) (row_run a n))"
    and reshape_view: "de_reshape env t sh w = (Inr v, w') \<Longrightarrow> view t cs \<Longrightarrow> view v cs"
    and view_holds: "view v cs \<Longrightarrow> holds w v (map (store w) cs)"
    and view_depends: "view v cs \<Longrightarrow> depends v \<subseteq> set cs"
    and corrected: "de_correct_key_positions env k src tgt l w = (Inr v, w') \<Longrightarrow> view k cs \<Longrightarrow> length src = length cs \<Longrightarrow>
      length tgt = length cs \<Longrightarrow> holds w' v (rotate_rows turn l src tgt (map (store w) cs)) \<and> depends v \<subseteq> set cs"
    and copied: "de_copy env d s w = (Inr (), w') \<Longrightarrow> view d cs \<Longrightarrow> distinct cs \<Longrightarrow> holds w s rows \<Longrightarrow> length rows = length cs \<Longrightarrow>
      store w' = overwrite (store w) (cs, rows)"
    and copy_keeps: "de_copy env d s w = (Inr (), w') \<Longrightarrow> view d cs \<Longrightarrow> holds w v rows \<Longrightarrow> depends v \<inter> set cs = {} \<Longrightarrow> holds w' v rows"
begin

abbreviation same :: "'w \<Rightarrow> 'w \<Rightarrow> bool" where
  "same \<equiv> undisturbed store holds"

lemma same_refl [simp]: "same w w"
  by (simp add: undisturbed_def)

lemma same_trans: "same w w' \<Longrightarrow> same w' w'' \<Longrightarrow> same w w''"
  by (simp add: undisturbed_def)

lemma same_store: "same w w' \<Longrightarrow> store w' = store w"
  by (simp add: undisturbed_def)

text \<open>Calls that leave the memory alone, with what their results are.\<close>

definition harmless :: "('w \<Rightarrow> (data_exn + 'a) \<times> 'w) \<Rightarrow> bool" where
  "harmless m \<longleftrightarrow> (\<forall>w. same w (snd (m w)))"

lemma harmless_calls:
  "harmless (de_shape env t)" "harmless (de_dtype_name env t)" "harmless (de_device_name env t)" "harmless (de_synchronize env t)"
  "harmless (de_paged_rows env t c b a n)" "harmless (de_staging_rows env t c l a n)" "harmless (de_reshape env t s)"
  "harmless (de_correct_key_positions env k src tgt l)" "harmless (clock env)"
  using inspections views corrections
  by (auto simp: harmless_def clock_def split: prod.splits) (metis prod.collapse)+

lemma harmless_constructs:
  "harmless (eret x)" "harmless (eraise e)" "harmless (of_result r)" "harmless (echeck b e)" "harmless (require b c)"
  "harmless (data_require_plain_int v n)"
  by (auto simp: harmless_def eret_def eraise_def of_result_def echeck_def require_def data_require_plain_int_def)

lemma harmless_ebind: "harmless m \<Longrightarrow> (\<And>x. harmless (f x)) \<Longrightarrow> harmless (ebind m f)"
  unfolding harmless_def ebind_def by (auto split: prod.splits sum.splits) (metis same_trans snd_conv)+

lemma harmless_ethen: "harmless m \<Longrightarrow> harmless k \<Longrightarrow> harmless (ethen m k)"
  by (simp add: ethen_def harmless_ebind)

lemma harmless_etry: "harmless m \<Longrightarrow> (\<And>e. harmless (h e)) \<Longrightarrow> harmless (etry m h)"
  unfolding harmless_def etry_def by (auto split: prod.splits sum.splits) (metis same_trans snd_conv)+

lemma harmless_if: "harmless m \<Longrightarrow> harmless k \<Longrightarrow> harmless (if b then m else k)"
  by simp

lemma harmless_for_each: "(\<And>x. harmless (f x)) \<Longrightarrow> harmless (for_each f xs)"
  by (induction xs) (auto intro!: harmless_constructs harmless_ethen)

lemmas harmless_intros = harmless_calls harmless_constructs harmless_ebind harmless_ethen harmless_etry harmless_if harmless_for_each

lemma harmless_except_data: "harmless m \<Longrightarrow> harmless (except_data m c)"
  unfolding except_data_def by (intro harmless_intros)

lemma harmless_checks:
  "harmless (safe_shape env t)" "harmless (safe_dtype env t)" "harmless (safe_device env t)" "harmless (validate_view env v s t)"
  unfolding validate_view_def safe_shape_def safe_dtype_def safe_device_def
  by (intro harmless_intros harmless_except_data)+

lemma harmless_paged_cache: "harmless (paged_cache caches n)"
  unfolding paged_cache_def by (cases "map_of caches n") (auto intro: harmless_intros)

lemma harmless_preflight: "harmless (preflight_common env staging caches spans)"
  unfolding preflight_common_def check_cache_def Let_def by (intro harmless_intros harmless_checks harmless_paged_cache)

lemma wp_harmless:
  assumes "harmless m" "\<And>x w'. same w w' \<Longrightarrow> Q x w'" "\<And>e w'. same w w' \<Longrightarrow> E e w'"
  shows "wp m Q E w"
  using assms unfolding harmless_def wp_def by (metis (no_types, lifting) case_prod_beta sum.case_eq_if)

text \<open>The calls of a preparation, relative to the world \<open>base\<close> it started in.\<close>

lemma wp_views:
  "same base w \<Longrightarrow> (\<And>v w'. same base w' \<Longrightarrow> view v (map (staged t c l) (row_run a n)) \<Longrightarrow> Q v w') \<Longrightarrow> (\<And>e w'. E e w') \<Longrightarrow>
     wp (de_staging_rows env t c l a n) Q E w"
  "same base w \<Longrightarrow> (\<And>v w'. same base w' \<Longrightarrow> view v (map (paged t c b) (row_run a n)) \<Longrightarrow> Q v w') \<Longrightarrow> (\<And>e w'. E e w') \<Longrightarrow>
     wp (de_paged_rows env t c b a n) Q E w"
  "same base w \<Longrightarrow> (\<And>v w'. same base w' \<Longrightarrow> (\<And>cs. view t cs \<Longrightarrow> view v cs) \<Longrightarrow> Q v w') \<Longrightarrow> (\<And>e w'. E e w') \<Longrightarrow>
     wp (de_reshape env t sh) Q E w"
  using views staged_view paged_view reshape_view same_trans
  by (auto simp: wp_def split: prod.splits sum.splits)

lemma wp_correct:
  assumes "same base w" "\<And>v w'. same base w' \<Longrightarrow> (\<And>cs. view k cs \<Longrightarrow> length src = length cs \<Longrightarrow> length tgt = length cs \<Longrightarrow>
      holds w' v (rotate_rows turn l src tgt (map (store base) cs)) \<and> depends v \<subseteq> set cs) \<Longrightarrow> Q v w'" "\<And>e w'. E e w'"
  shows "wp (de_correct_key_positions env k src tgt l) Q E w"
proof (cases "de_correct_key_positions env k src tgt l w")
  case (Pair r w')
  then have "same base w'" using corrections assms(1) same_trans by blast
  then show ?thesis using Pair corrected [of k src tgt l w _ w'] same_store [OF assms(1)] assms(2,3)
    by (cases r) (auto simp: wp_def)
qed

lemma wp_view_checked:
  assumes "same base w" "\<And>w'. same base w' \<Longrightarrow> same w w' \<Longrightarrow> Q () w'" "\<And>e w'. E e w'"
  shows "wp (validate_view env v sh t) Q E w"
  by (rule wp_harmless [OF harmless_checks(4)]) (use assms same_trans in auto)

lemma wp_clock:
  assumes "same base w" "\<And>x w'. same base w' \<Longrightarrow> same w w' \<Longrightarrow> Q x w'" "\<And>e w'. E e w'"
  shows "wp (clock env) Q E w"
  by (rule wp_harmless [OF harmless_calls(9)]) (use assms same_trans in auto)

text \<open>Copies that wait to be applied, with the cells and rows they stand for.\<close>

definition pending :: "'w \<Rightarrow> 'c set \<Rightarrow> ('o \<times> 'o) list \<Rightarrow> ('c list \<times> 'v list) list \<Rightarrow> bool" where
  "pending w sources copies targets \<longleftrightarrow>
     list_all2 (\<lambda>(d, s) (cs, rows). view d cs \<and> holds w s rows \<and> depends s \<subseteq> sources \<and> length rows = length cs) copies targets"

lemma pending_simps [simp]:
  "pending w sources [] targets \<longleftrightarrow> targets = []"
  "pending w sources ((d, s) # copies) ((cs, rows) # targets) \<longleftrightarrow>
     view d cs \<and> holds w s rows \<and> depends s \<subseteq> sources \<and> length rows = length cs \<and> pending w sources copies targets"
  by (simp_all add: pending_def)

lemma pending_same: "pending w sources copies targets \<Longrightarrow> same w w' \<Longrightarrow> pending w' sources copies targets"
  unfolding pending_def by (erule list_all2_mono) (auto simp: undisturbed_def)

lemma pending_append:
  "pending w sources copies targets \<Longrightarrow> pending w sources copies' targets' \<Longrightarrow> pending w sources (copies @ copies') (targets @ targets')"
  by (simp add: pending_def list_all2_appendI)

definition staged_cells :: "'o \<Rightarrow> 'c set" where
  "staged_cells staging = {c. \<exists>k l r. c = staged staging k l r}"

definition scatter_targets :: "('c \<Rightarrow> 'v) \<Rightarrow> 'o \<Rightarrow> 'o \<Rightarrow> LayerTokenScatterSpan \<Rightarrow> int \<Rightarrow> ('c list \<times> 'v list) list" where
  "scatter_targets f staging cache s a =
     (let g = lspan_group_span s; n = lspan_count s; l = lspan_layer_index s in
      [(map (paged cache KEY_COMPONENT (gs_block_id g)) (row_run (gs_block_offset g) n),
        rotate_rows turn l (positions (lspan_source s)) (positions (lspan_target s)) (map (f \<circ> staged staging KEY_COMPONENT l) (row_run a n))),
       (map (paged cache VALUE_COMPONENT (gs_block_id g)) (row_run (gs_block_offset g) n),
        map (f \<circ> staged staging VALUE_COMPONENT l) (row_run a n))])"

lemma length_row_run [simp]: "length (row_run a n) = nat n"
  by (simp add: row_run_def)

lemma prepare_scatter_span_rows:
  assumes "good_span s"
  shows "wp (prepare_scatter_span env staging cache s a)
     (\<lambda>(copies, _) w'. same w w' \<and> pending w' (staged_cells staging) copies (scatter_targets (store w) staging cache s a)) (\<lambda>_ _. True) w"
proof -
  have len: "length (positions (lspan_source s)) = nat (lspan_count s)" "length (positions (lspan_target s)) = nat (lspan_count s)"
    using good_span_ranges [OF assms] by (simp_all add: positions_def)
  let ?l = "lspan_layer_index s" let ?rows = "row_run a (lspan_count s)"
  let ?dst = "\<lambda>c. map (paged cache c (gs_block_id (lspan_group_span s))) (row_run (gs_block_offset (lspan_group_span s)) (lspan_count s))"
  have sources: "set (map (staged staging c l) rs) \<subseteq> staged_cells staging" for c l rs by (auto simp: staged_cells_def)
  have pair: "pending w3 (staged_cells staging) [(kd, ck), (vd, vr)] (scatter_targets (store w) staging cache s a)"
    if "view kd (?dst KEY_COMPONENT)" "view vd (?dst VALUE_COMPONENT)" "view sk (map (staged staging KEY_COMPONENT ?l) ?rows)"
      "view sv (map (staged staging VALUE_COMPONENT ?l) ?rows)" "\<forall>cs. view sk cs \<longrightarrow> view kr cs" "\<forall>cs. view sv cs \<longrightarrow> view vr cs"
      "\<forall>cs. view kr cs \<longrightarrow> length (positions (lspan_source s)) = length cs \<longrightarrow> length (positions (lspan_target s)) = length cs \<longrightarrow>
         holds w1 ck (rotate_rows turn ?l (positions (lspan_source s)) (positions (lspan_target s)) (map (store w) cs)) \<and> depends ck \<subseteq> set cs"
      "same w w3" "same w1 w2" "same w2 w3" for kd ck vd vr sk sv kr w1 w2 w3
  proof -
    let ?ks = "map (staged staging KEY_COMPONENT ?l) ?rows" let ?vs = "map (staged staging VALUE_COMPONENT ?l) ?rows"
    have k: "view kr ?ks" "view vr ?vs" using that(3-6) by blast+
    have c: "holds w1 ck (rotate_rows turn ?l (positions (lspan_source s)) (positions (lspan_target s)) (map (store w) ?ks)) \<and> depends ck \<subseteq> set ?ks"
      using that(7) [rule_format, OF k(1)] len by simp
    then have "depends ck \<subseteq> staged_cells staging" using sources by blast
    moreover have "holds w3 vr (map (store w) ?vs)" using view_holds [OF k(2)] that(8) by (metis undisturbed_def)
    moreover have "depends vr \<subseteq> staged_cells staging" using view_depends [OF k(2)] sources by blast
    moreover have "length (rotate_rows turn ?l (positions (lspan_source s)) (positions (lspan_target s)) (map (store w) ?ks)) = nat (lspan_count s)"
      using len by (simp add: rotate_rows_def)
    ultimately show ?thesis
      using c that(1,2,9,10) unfolding scatter_targets_def Let_def
      by (auto simp: undisturbed_def)
  qed
  show ?thesis
    unfolding prepare_scatter_span_def Let_def
    by (auto simp: wp_simps intro!: wp_views [where base = w] wp_correct [where base = w] wp_view_checked [where base = w]
        wp_clock [where base = w] split: data_exn.split) (rule pair, assumption+)
qed

definition paged_cells :: "'o set \<Rightarrow> 'c set" where
  "paged_cells caches = {c. \<exists>cache\<in>caches. \<exists>k b r. c = paged cache k b r}"

definition gather_targets :: "('c \<Rightarrow> 'v) \<Rightarrow> 'o \<Rightarrow> 'o \<Rightarrow> LayerTokenScatterSpan \<Rightarrow> int \<Rightarrow> ('c list \<times> 'v list) list" where
  "gather_targets f staging cache s a =
     (let g = lspan_group_span s; n = lspan_count s; l = lspan_layer_index s; rows = row_run (gs_block_offset g) n in
      [(map (staged staging KEY_COMPONENT l) (row_run a n), map (f \<circ> paged cache KEY_COMPONENT (gs_block_id g)) rows),
       (map (staged staging VALUE_COMPONENT l) (row_run a n), map (f \<circ> paged cache VALUE_COMPONENT (gs_block_id g)) rows)])"

lemma prepare_gather_span_rows:
  assumes "cache \<in> caches"
  shows "wp (prepare_gather_span env cache staging s a)
     (\<lambda>copies w'. same w w' \<and> pending w' (paged_cells caches) copies (gather_targets (store w) staging cache s a)) (\<lambda>_ _. True) w"
proof -
  let ?g = "lspan_group_span s" let ?l = "lspan_layer_index s" let ?rows = "row_run (gs_block_offset ?g) (lspan_count s)"
  let ?src = "\<lambda>c. map (paged cache c (gs_block_id ?g)) ?rows" let ?dst = "\<lambda>c. map (staged staging c ?l) (row_run a (lspan_count s))"
  have sources: "set (map (paged cache c b) rs) \<subseteq> paged_cells caches" for c b rs using assms by (auto simp: paged_cells_def)
  have one: "holds w3 f (map (store w \<circ> paged cache c (gs_block_id ?g)) ?rows) \<and> depends f \<subseteq> paged_cells caches"
    if "view f (?src c)" "same w w3" for f c w3
    using view_holds [OF that(1), of w3] subset_trans [OF view_depends [OF that(1)] sources] same_store [OF that(2)] by simp
  have pair: "pending w3 (paged_cells caches) [(sk, fk), (sv, fv)] (gather_targets (store w) staging cache s a)"
    if "view sk (?dst KEY_COMPONENT)" "view sv (?dst VALUE_COMPONENT)" "view pk (?src KEY_COMPONENT)" "view pv (?src VALUE_COMPONENT)"
      "\<forall>cs. view pk cs \<longrightarrow> view fk cs" "\<forall>cs. view pv cs \<longrightarrow> view fv cs" "same w w3" for sk sv pk pv fk fv w3
    using that(1,2,7) one [of fk KEY_COMPONENT w3] one [of fv VALUE_COMPONENT w3] that(3-6)
    unfolding gather_targets_def Let_def by auto
  show ?thesis
    unfolding prepare_gather_span_def Let_def
    by (auto simp: wp_simps intro!: wp_views [where base = w] wp_view_checked [where base = w]) (rule pair, assumption+)
qed

text \<open>All spans, one after the other.\<close>

lemma prepare_scatter_rows:
  assumes "\<forall>s\<in>set spans. good_span s" "same base w" "pending w (staged_cells staging) prepared targets"
  shows "wp (prepare_scatter env staging caches offset prepared latency spans)
     (\<lambda>(copies, _) w'. same base w' \<and> pending w' (staged_cells staging) copies
        (targets @ concat (map (\<lambda>s. scatter_targets (store base) staging (the (map_of caches (lspan_layer_name s))) s
           (offset + tr_start (lspan_target s))) spans))) (\<lambda>_ _. True) w"
  using assms
proof (induction spans arbitrary: w prepared latency targets)
  case (Cons s rest)
  have good: "good_span s" using Cons.prems(1) by simp
  have tail: "wp (prepare_scatter env staging caches offset (prepared @ copies) l rest)
      (\<lambda>(copies, _) w'. same base w' \<and> pending w' (staged_cells staging) copies (targets @
         scatter_targets (store base) staging cache s (offset + tr_start (lspan_target s)) @
         concat (map (\<lambda>s. scatter_targets (store base) staging (the (map_of caches (lspan_layer_name s))) s
           (offset + tr_start (lspan_target s))) rest))) (\<lambda>_ _. True) w'"
    if "same w w'" "pending w' (staged_cells staging) copies (scatter_targets (store w) staging cache s (offset + tr_start (lspan_target s)))"
    for cache copies l w'
    using Cons.IH [of w' "prepared @ copies" _ l] Cons.prems that pending_append [OF pending_same [OF Cons.prems(3) that(1)] that(2)]
      same_store [OF Cons.prems(2)] same_trans [OF Cons.prems(2) that(1)] by fastforce
  show ?case
    by (auto simp: wp_simps paged_cache_def split: option.split
        intro!: wp_mono [OF prepare_scatter_span_rows [OF good]] tail)
qed (auto simp: wp_simps)

lemma prepare_gather_rows:
  assumes "same base w" "pending w (paged_cells (snd ` set caches)) prepared targets"
  shows "wp (prepare_gather env staging caches start offset prepared spans)
     (\<lambda>copies w'. same base w' \<and> pending w' (paged_cells (snd ` set caches)) copies
        (targets @ concat (map (\<lambda>s. gather_targets (store base) staging (the (map_of caches (lspan_layer_name s))) s
           (offset + (tr_start (lspan_target s) - start))) spans))) (\<lambda>_ _. True) w"
  using assms
proof (induction spans arbitrary: w prepared targets)
  case (Cons s rest)
  let ?S = "paged_cells (snd ` set caches)"
  have tail: "wp (prepare_gather env staging caches start offset (prepared @ copies) rest)
      (\<lambda>copies w'. same base w' \<and> pending w' ?S copies (targets @
         gather_targets (store base) staging cache s (offset + (tr_start (lspan_target s) - start)) @
         concat (map (\<lambda>s. gather_targets (store base) staging (the (map_of caches (lspan_layer_name s))) s
           (offset + (tr_start (lspan_target s) - start))) rest))) (\<lambda>_ _. True) w'"
    if "same w w'" "pending w' ?S copies (gather_targets (store w) staging cache s (offset + (tr_start (lspan_target s) - start)))"
    for cache copies w'
    using Cons.IH [of w' "prepared @ copies"] Cons.prems that pending_append [OF pending_same [OF Cons.prems(2) that(1)] that(2)]
      same_store [OF Cons.prems(1)] same_trans [OF Cons.prems(1) that(1)] by fastforce
  have cache: "cache \<in> snd ` set caches" if "map_of caches n = Some cache" for n cache
    using map_of_SomeD [OF that] by force
  show ?case
    by (auto simp: wp_simps paged_cache_def split: option.split
        intro!: wp_mono [OF prepare_gather_span_rows [OF cache]] tail)
qed (auto simp: wp_simps)

lemma apply_copies_rows:
  assumes "pending w sources copies targets" "distinct (concat (map fst targets))" "sources \<inter> set (concat (map fst targets)) = {}"
  shows "wp (apply_copies env copies t) (\<lambda>_ w'. store w' = foldl overwrite (store w) targets) (\<lambda>_ _. True) w"
proof -
  have loop: "wp (for_each (\<lambda>(d, s). de_copy env d s) copies) (\<lambda>_ w'. store w' = foldl overwrite (store w) targets) (\<lambda>_ _. True) w"
    using assms
  proof (induction copies arbitrary: w targets)
    case (Cons x copies)
    obtain d s where x: "x = (d, s)" by (cases x)
    obtain cs rows targets' where t: "targets = (cs, rows) # targets'" "view d cs" "holds w s rows" "length rows = length cs"
      "pending w sources copies targets'"
      using Cons.prems(1) x by (auto simp: pending_def list_all2_Cons1)
    have d: "distinct cs" "distinct (concat (map fst targets'))" "sources \<inter> set cs = {}" "sources \<inter> set (concat (map fst targets')) = {}"
      using Cons.prems(2,3) t(1) by auto
    have step: "wp (de_copy env d s) (\<lambda>_ w'. store w' = overwrite (store w) (cs, rows) \<and> pending w' sources copies targets') (\<lambda>_ _. True) w"
    proof (cases "de_copy env d s w")
      case (Pair r w')
      show ?thesis
      proof (cases r)
        case (Inr u)
        then have c: "de_copy env d s w = (Inr (), w')" using Pair by simp
        have "pending w' sources copies targets'"
          using t(5) unfolding pending_def
          by (rule list_all2_mono) (use copy_keeps [OF c t(2)] d(3) in \<open>auto; blast\<close>)
        then show ?thesis using copied [OF c t(2) d(1) t(3,4)] c by (simp add: wp_def)
      qed (simp add: wp_def Pair)
    qed
    have "wp (for_each (\<lambda>(d, s). de_copy env d s) copies) (\<lambda>_ w''. store w'' = foldl overwrite (store w) targets) (\<lambda>_ _. True) w'"
      if "store w' = overwrite (store w) (cs, rows) \<and> pending w' sources copies targets'" for w'
      using Cons.IH [of w' targets'] that d(2,4) t(1) by simp
    then show ?case using x by (auto simp: wp_simps intro!: wp_mono [OF step])
  qed (simp add: wp_simps)
  show ?thesis
    unfolding apply_copies_def
    by (auto simp: wp_simps intro!: wp_mono [OF loop] wp_harmless harmless_calls dest: same_store)
qed

lemma preflight_rows:
  "wp (preflight_common env staging caches spans) (\<lambda>v w'. validate_spans spans = Inr v \<and> same w w') (\<lambda>_ _. True) w"
proof -
  have v: "wp (preflight_common env staging caches spans) (\<lambda>v _. validate_spans spans = Inr v) (\<lambda>_ _. True) w"
    unfolding preflight_common_def
    by (cases "validate_spans spans")
      (auto simp: wp_simps intro!: wp_any [of _ _ "safe_shape env staging"] wp_any [of _ _ "safe_dtype env staging"]
        wp_any [of _ _ "safe_device env staging"] wp_any [of _ _ "for_each f xs" for f xs])
  have s: "wp (preflight_common env staging caches spans) (\<lambda>_ w'. same w w') (\<lambda>_ w'. same w w') w"
    by (rule wp_harmless [OF harmless_preflight])
  show ?thesis by (rule wp_mono [OF wp_conj [OF v s]]) auto
qed

end

end
