(* ===== verification/FakeTensors.thy ===== *)
theory FakeTensors
  imports TensorMemory
begin

text \<open>
  The tensors and the key correction of \<^verbatim>\<open>tests/unit/test_vllm_data_plane.py\<close>, the one implementation of
  the data plane's collaborators whose rows can be read without Torch, and the interpretation of
  \<open>tensor_memory\<close> on them.  A tensor is identified by \<open>ft_id\<close>; \<open>NoRow\<close> is a row that was never set.
\<close>

section \<open>Objects\<close>

type_synonym fake_ref = "int \<times> int \<times> int"

datatype fake_row = NoRow | SeededRow string int int | CorrectedKey fake_row int int int

record FakeTensor =
  ft_id :: nat
  ft_shape :: "int list"
  ft_dtype :: string
  ft_device :: string

record FakeView =
  fv_owner :: FakeTensor
  fv_refs :: "fake_ref list"
  fv_shape :: "int list"

record FakeValue =
  fu_rows :: "fake_row list"
  fu_shape :: "int list"
  fu_dtype :: string
  fu_device :: string

datatype fake_object = TensorObject FakeTensor | ViewObject FakeView | ValueObject FakeValue

text \<open>The rows of all tensors, the counters of \<^verbatim>\<open>FakeTensorOps\<close> and the calls of \<^verbatim>\<open>RecordingCorrector\<close>.\<close>

record FakeWorld =
  fw_rows :: "nat \<times> fake_ref \<Rightarrow> fake_row"
  fw_copy_count :: nat
  fw_synchronizations :: "FakeTensor list"
  fw_staging_reads :: "(int \<times> int \<times> int \<times> int) list"
  fw_calls :: "(int list \<times> int list \<times> int) list"

section \<open>Operations\<close>

fun fake_shape :: "fake_object \<Rightarrow> int list" where
  "fake_shape (TensorObject t) = ft_shape t"
| "fake_shape (ViewObject v) = fv_shape v"
| "fake_shape (ValueObject u) = fu_shape u"

fun fake_dtype :: "fake_object \<Rightarrow> string" where
  "fake_dtype (TensorObject t) = ft_dtype t"
| "fake_dtype (ViewObject v) = ft_dtype (fv_owner v)"
| "fake_dtype (ValueObject u) = fu_dtype u"

fun fake_device :: "fake_object \<Rightarrow> string" where
  "fake_device (TensorObject t) = ft_device t"
| "fake_device (ViewObject v) = ft_device (fv_owner v)"
| "fake_device (ValueObject u) = fu_device u"

fun fake_paged_rows :: "fake_object \<Rightarrow> int \<Rightarrow> int \<Rightarrow> int \<Rightarrow> int \<Rightarrow> (FakeWorld, data_exn, fake_object) prog" where
  "fake_paged_rows (TensorObject t) c block_id block_offset token_count =
     eret (ViewObject \<lparr>fv_owner = t, fv_refs = map (\<lambda>i. (block_id, c, block_offset + i)) [0..token_count - 1],
       fv_shape = [token_count, 8, 64]\<rparr>)"
| "fake_paged_rows _ c block_id block_offset token_count = eraise DataException"

fun fake_staging_rows :: "fake_object \<Rightarrow> int \<Rightarrow> int \<Rightarrow> int \<Rightarrow> int \<Rightarrow> (FakeWorld, data_exn, fake_object) prog" where
  "fake_staging_rows (TensorObject t) c layer_index token_start token_count = (\<lambda>w.
     (Inr (ViewObject \<lparr>fv_owner = t, fv_refs = map (\<lambda>i. (c, layer_index, token_start + i)) [0..token_count - 1],
        fv_shape = [token_count, 512]\<rparr>),
      w\<lparr>fw_staging_reads := fw_staging_reads w @ [(c, layer_index, token_start, token_count)]\<rparr>))"
| "fake_staging_rows _ c layer_index token_start token_count = eraise DataException"

text \<open>\<^verbatim>\<open>_product\<close> and \<^verbatim>\<open>_rows\<close>\<close>

definition fake_product :: "int list \<Rightarrow> int" where
  "fake_product shape = foldl (*) 1 shape"

definition view_cells :: "FakeView \<Rightarrow> (nat \<times> fake_ref) list" where
  "view_cells v = map (Pair (ft_id (fv_owner v))) (fv_refs v)"

fun fake_rows :: "FakeWorld \<Rightarrow> fake_object \<Rightarrow> fake_row list option" where
  "fake_rows w (TensorObject t) = None"
| "fake_rows w (ViewObject v) = Some (map (fw_rows w) (view_cells v))"
| "fake_rows w (ValueObject u) = Some (fu_rows u)"

fun fake_reshape :: "fake_object \<Rightarrow> int list \<Rightarrow> (FakeWorld, data_exn, fake_object) prog" where
  "fake_reshape (TensorObject t) shape = eraise DataException"
| "fake_reshape (ViewObject v) shape =
     (if fake_product (fv_shape v) = fake_product shape then eret (ViewObject (v\<lparr>fv_shape := shape\<rparr>)) else eraise DataException)"
| "fake_reshape (ValueObject u) shape =
     (if fake_product (fu_shape u) = fake_product shape then eret (ValueObject (u\<lparr>fu_shape := shape\<rparr>)) else eraise DataException)"

fun fake_copy :: "fake_object \<Rightarrow> fake_object \<Rightarrow> (FakeWorld, data_exn, unit) prog" where
  "fake_copy (ViewObject d) source w =
     (case fake_rows w source of
        None \<Rightarrow> (Inl DataException, w)
      | Some rows \<Rightarrow>
          if fv_shape d \<noteq> fake_shape source \<or> length (fv_refs d) \<noteq> length rows then (Inl DataException, w)
          else (Inr (), w\<lparr>fw_rows := foldl (\<lambda>f (cell, row). f(cell := row)) (fw_rows w) (zip (view_cells d) rows),
                          fw_copy_count := fw_copy_count w + 1\<rparr>))"
| "fake_copy _ source w = (Inl DataException, w)"

fun fake_synchronize :: "fake_object \<Rightarrow> (FakeWorld, data_exn, unit) prog" where
  "fake_synchronize (TensorObject t) w = (Inr (), w\<lparr>fw_synchronizations := fw_synchronizations w @ [t]\<rparr>)"
| "fake_synchronize _ w = (Inl DataException, w)"

text \<open>\<^verbatim>\<open>RecordingCorrector.__call__\<close>; the strict zip raises on different lengths.\<close>

definition recording_corrector ::
    "int option \<Rightarrow> fake_object \<Rightarrow> int list \<Rightarrow> int list \<Rightarrow> int \<Rightarrow> (FakeWorld, data_exn, fake_object) prog" where
  "recording_corrector fail_layer key_rows source_positions target_positions layer_index w =
     (if fail_layer = Some layer_index then (Inl DataException, w)
      else case fake_rows w key_rows of
        None \<Rightarrow> (Inl DataException, w)
      | Some rows \<Rightarrow>
          (let called = w\<lparr>fw_calls := fw_calls w @ [(source_positions, target_positions, layer_index)]\<rparr> in
           if length rows \<noteq> length source_positions \<or> length rows \<noteq> length target_positions then (Inl DataException, called)
           else (Inr (ValueObject
                  \<lparr>fu_rows = map (\<lambda>(row, source, target). CorrectedKey row source target layer_index)
                     (zip rows (zip source_positions target_positions)),
                   fu_shape = fake_shape key_rows, fu_dtype = fake_dtype key_rows, fu_device = fake_device key_rows\<rparr>), called)))"

text \<open>The environment, with the clock as a parameter.\<close>

definition fake_env :: "(FakeWorld \<Rightarrow> pyfloat) \<Rightarrow> int option \<Rightarrow> (fake_object, FakeWorld) DataEnvironment" where
  "fake_env now fail_layer =
     \<lparr>de_shape = (\<lambda>t. eret (map PInt (fake_shape t))), de_dtype_name = (\<lambda>t. eret (fake_dtype t)),
      de_device_name = (\<lambda>t. eret (fake_device t)), de_paged_rows = fake_paged_rows, de_staging_rows = fake_staging_rows,
      de_reshape = fake_reshape, de_copy = fake_copy, de_synchronize = fake_synchronize,
      de_correct_key_positions = recording_corrector fail_layer, de_perf_counter = (\<lambda>w. (now w, w))\<rparr>"

lemma fake_env_simps:
  "de_shape (fake_env now f) = (\<lambda>t. eret (map PInt (fake_shape t)))" "de_dtype_name (fake_env now f) = (\<lambda>t. eret (fake_dtype t))"
  "de_device_name (fake_env now f) = (\<lambda>t. eret (fake_device t))" "de_paged_rows (fake_env now f) = fake_paged_rows"
  "de_staging_rows (fake_env now f) = fake_staging_rows" "de_reshape (fake_env now f) = fake_reshape"
  "de_copy (fake_env now f) = fake_copy" "de_synchronize (fake_env now f) = fake_synchronize"
  "de_correct_key_positions (fake_env now f) = recording_corrector f" "de_perf_counter (fake_env now f) = (\<lambda>w. (now w, w))"
  by (simp_all add: fake_env_def)

section \<open>The interface\<close>

definition fake_view :: "fake_object \<Rightarrow> (nat \<times> fake_ref) list \<Rightarrow> bool" where
  "fake_view v cells \<longleftrightarrow> (case v of ViewObject x \<Rightarrow> cells = view_cells x | _ \<Rightarrow> False)"

definition fake_holds :: "FakeWorld \<Rightarrow> fake_object \<Rightarrow> fake_row list \<Rightarrow> bool" where
  "fake_holds w v rows \<longleftrightarrow> fake_rows w v = Some rows"

definition fake_depends :: "fake_object \<Rightarrow> (nat \<times> fake_ref) set" where
  "fake_depends v = (case v of ViewObject x \<Rightarrow> set (view_cells x) | _ \<Rightarrow> {})"

definition fake_id :: "fake_object \<Rightarrow> nat" where
  "fake_id v = (case v of TensorObject t \<Rightarrow> ft_id t | _ \<Rightarrow> 0)"

definition fake_staged :: "fake_object \<Rightarrow> int \<Rightarrow> int \<Rightarrow> int \<Rightarrow> nat \<times> fake_ref" where
  "fake_staged t c layer_index row = (fake_id t, c, layer_index, row)"

definition fake_paged :: "fake_object \<Rightarrow> int \<Rightarrow> int \<Rightarrow> int \<Rightarrow> nat \<times> fake_ref" where
  "fake_paged t c block_id row = (fake_id t, block_id, c, row)"

definition fake_turn :: "int \<Rightarrow> int \<Rightarrow> int \<Rightarrow> fake_row \<Rightarrow> fake_row" where
  "fake_turn layer_index source target row = CorrectedKey row source target layer_index"

lemma row_run_shift: "row_run a n = map (\<lambda>i. a + i) [0..n - 1]"
  using upto_shift [of a "a + n - 1"] by (simp add: row_run_def)

lemma foldl_updates: "c \<notin> set cs \<Longrightarrow> foldl (\<lambda>f (c, r). f(c := r)) f (zip cs rows) c = f c"
proof (induction cs arbitrary: f rows)
  case (Cons d cs)
  then show ?case by (cases rows) auto
qed simp

lemma foldl_overwrite:
  assumes "distinct cs" "length rows = length cs"
  shows "foldl (\<lambda>f (c, r). f(c := r)) f (zip cs rows) = overwrite f (cs, rows)"
  using assms
proof (induction cs arbitrary: f rows)
  case Nil
  then show ?case by (simp add: overwrite_def fun_eq_iff)
next
  case (Cons d cs)
  then obtain r rs where r: "rows = r # rs" "length rs = length cs" by (cases rows) auto
  show ?case
    using Cons.IH [of rs "f(d := r)"] Cons.prems r map_of_zip_is_None [of cs rs d]
    by (auto simp: overwrite_def fun_eq_iff split: option.split dest!: map_of_SomeD dest: set_zip_leftD)
qed

lemma fake_views:
  "fake_paged_rows t c b a n w = (Inr v, w') \<Longrightarrow> fake_view v (map (fake_paged t c b) (row_run a n)) \<and> w' = w"
  "fake_staging_rows t c l a n w = (Inr v, w') \<Longrightarrow> fake_view v (map (fake_staged t c l) (row_run a n))"
  "fake_reshape t sh w = (Inr v, w') \<Longrightarrow> fake_view t cs \<Longrightarrow> fake_view v cs"
  by (cases t; auto simp: eret_def eraise_def fake_view_def view_cells_def fake_paged_def fake_staged_def fake_id_def
      row_run_shift split: if_splits)+

lemma fake_undisturbed:
  "fw_rows w' = fw_rows w \<Longrightarrow> undisturbed fw_rows fake_holds w w'"
proof -
  assume eq: "fw_rows w' = fw_rows w"
  have "fake_rows w' v = fake_rows w v" for v by (cases v) (simp_all add: eq)
  then show ?thesis by (simp add: undisturbed_def eq fake_holds_def)
qed

lemma fake_calls_undisturbed:
  "fake_paged_rows t c b a n w = (r, w') \<Longrightarrow> fw_rows w' = fw_rows w"
  "fake_staging_rows t c l a n w = (r, w') \<Longrightarrow> fw_rows w' = fw_rows w"
  "fake_reshape t sh w = (r, w') \<Longrightarrow> fw_rows w' = fw_rows w"
  "fake_synchronize t w = (u, w') \<Longrightarrow> fw_rows w' = fw_rows w"
  "recording_corrector fail t src tgt l w = (r, w') \<Longrightarrow> fw_rows w' = fw_rows w"
  by (cases t; auto simp: eret_def eraise_def recording_corrector_def Let_def split: if_splits)+

lemma fake_corrected:
  assumes "recording_corrector fail k src tgt l w = (Inr v, w')" "fake_view k cs"
  shows "fake_holds w' v (rotate_rows fake_turn l src tgt (map (fw_rows w) cs)) \<and> fake_depends v \<subseteq> set cs"
proof -
  have zip: "map (\<lambda>(row, s, t). CorrectedKey row s t l) (zip rows (zip src tgt)) = rotate_rows fake_turn l src tgt rows" for rows
    by (rule nth_equalityI) (auto simp: rotate_rows_def fake_turn_def)
  from assms show ?thesis
    by (cases k) (auto simp: recording_corrector_def Let_def fake_view_def fake_holds_def fake_depends_def zip split: if_splits)
qed

lemma fake_copied:
  assumes "fake_copy d s w = (Inr (), w')" "fake_view d cs" "distinct cs" "fake_holds w s rows" "length rows = length cs"
  shows "fw_rows w' = overwrite (fw_rows w) (cs, rows)"
  using assms foldl_overwrite [OF assms(3,5)]
  by (cases d) (auto simp: fake_view_def fake_holds_def split: if_splits)

lemma fake_copy_keeps:
  assumes "fake_copy d s w = (Inr (), w')" "fake_view d cs" "fake_holds w v rows" "fake_depends v \<inter> set cs = {}"
  shows "fake_holds w' v rows"
proof -
  have keep: "fw_rows w' c = fw_rows w c" if "c \<notin> set cs" for c
    using assms(1,2) foldl_updates [OF that]
    by (cases d) (auto simp: fake_view_def split: if_splits option.splits)
  have same: "map (fw_rows w') cells = map (fw_rows w) cells" if "set cells \<inter> set cs = {}" for cells
    by (rule map_cong [OF refl keep]) (use that in blast)
  show ?thesis using assms(3,4) same
    by (cases v) (auto simp: fake_holds_def fake_depends_def simp del: map_eq_conv)
qed

lemma fake_view_rows: "fake_view v cs \<Longrightarrow> fake_holds w v (map (fw_rows w) cs)" "fake_view v cs \<Longrightarrow> fake_depends v \<subseteq> set cs"
  by (cases v; simp add: fake_view_def fake_holds_def fake_depends_def)+

interpretation fake: tensor_memory "fake_env now fail_layer" fake_view fake_holds fake_depends fw_rows fake_staged fake_paged fake_turn
  for now fail_layer
  by (unfold_locales; (unfold fake_env_simps)?;
      (rule fake_corrected, assumption, assumption | rule fake_view_rows, assumption |
       auto simp: eret_def intro: fake_undisturbed fake_calls_undisturbed fake_copied fake_copy_keeps dest: fake_views))

section \<open>Runs that return\<close>

text \<open>\<^verbatim>\<open>paged_caches()\<close> and \<^verbatim>\<open>staging()\<close> of the test.\<close>

definition fake_cache :: "int \<Rightarrow> fake_object" where
  "fake_cache i = TensorObject \<lparr>ft_id = Suc (nat i), ft_shape = [6, 2, 16, 8, 64], ft_dtype = ''torch.bfloat16'', ft_device = ''cuda:0''\<rparr>"

definition fake_caches :: "fake_object caches" where
  "fake_caches = map (\<lambda>i. (ascii_layer_name i, fake_cache i)) all_layers"

definition fake_staging :: fake_object where
  "fake_staging = TensorObject \<lparr>ft_id = 0, ft_shape = [2, 24, 64, 512], ft_dtype = ''torch.bfloat16'', ft_device = ''cuda:0''\<rparr>"

lemma fake_caches_of: "i \<in> set all_layers \<Longrightarrow> map_of fake_caches (ascii_layer_name i) = Some (fake_cache i)"
proof -
  assume i: "i \<in> set all_layers"
  have "inj_on ascii_layer_name (set all_layers)" by (rule inj_onI) (auto simp: all_layers_def intro: ascii_layer_name_inj)
  then have "distinct (map fst fake_caches)" by (simp add: fake_caches_def o_def distinct_map) (simp add: all_layers_def)
  then show ?thesis using i by (intro map_of_is_SomeI) (auto simp: fake_caches_def)
qed

text \<open>Spans the fake caches have blocks for.\<close>

definition fake_span_fits :: "LayerTokenScatterSpan \<Rightarrow> bool" where
  "fake_span_fits s \<longleftrightarrow> gs_block_size (lspan_group_span s) = 16 \<and> gs_block_id (lspan_group_span s) < 6"

lemma wp_fake_inspections [wp_simps]:
  "wp (safe_shape (fake_env now f) t) Q E w \<longleftrightarrow>
     (if \<forall>d\<in>set (fake_shape t). 0 \<le> d then Q (fake_shape t) w else E (DataPlaneError TENSOR_VIEW_FAILED) w)"
  "wp (safe_dtype (fake_env now f) t) R E w \<longleftrightarrow> (if fake_dtype t \<noteq> [] then R (fake_dtype t) w else E (DataPlaneError TENSOR_VIEW_FAILED) w)"
  "wp (safe_device (fake_env now f) t) R E w \<longleftrightarrow> (if fake_device t \<noteq> [] then R (fake_device t) w else E (DataPlaneError TENSOR_VIEW_FAILED) w)"
  "wp (clock (fake_env now f)) S E w \<longleftrightarrow> S (now w) w"
  by (simp_all add: safe_shape_def safe_dtype_def safe_device_def fake_env_simps wp_simps o_def)
    (simp add: clock_def fake_env_simps wp_def)

lemma wp_fake_views:
  "wp (fake_paged_rows (TensorObject t) c b a n) Q E w \<longleftrightarrow>
     Q (ViewObject \<lparr>fv_owner = t, fv_refs = map (\<lambda>i. (b, c, a + i)) [0..n - 1], fv_shape = [n, 8, 64]\<rparr>) w"
  "wp (fake_staging_rows (TensorObject t) c l a n) Q E w \<longleftrightarrow>
     Q (ViewObject \<lparr>fv_owner = t, fv_refs = map (\<lambda>i. (c, l, a + i)) [0..n - 1], fv_shape = [n, 512]\<rparr>)
       (w\<lparr>fw_staging_reads := fw_staging_reads w @ [(c, l, a, n)]\<rparr>)"
  "fake_product (fv_shape v) = fake_product sh \<Longrightarrow> wp (fake_reshape (ViewObject v) sh) Q E w \<longleftrightarrow> Q (ViewObject (v\<lparr>fv_shape := sh\<rparr>)) w"
  by (simp_all add: wp_simps) (simp add: wp_def)

text \<open>Copies that go through: a view, and rows of the same shape and number.\<close>

fun fake_row_count :: "fake_object \<Rightarrow> nat option" where
  "fake_row_count (TensorObject t) = None"
| "fake_row_count (ViewObject v) = Some (length (fv_refs v))"
| "fake_row_count (ValueObject u) = Some (length (fu_rows u))"

fun fake_copyable :: "fake_object \<times> fake_object \<Rightarrow> bool" where
  "fake_copyable (ViewObject v, s) \<longleftrightarrow> fv_shape v = fake_shape s \<and> fake_row_count s = Some (length (fv_refs v))"
| "fake_copyable _ \<longleftrightarrow> False"

lemma fake_copyable_returns: "fake_copyable (d, s) \<Longrightarrow> \<exists>w'. fake_copy d s w = (Inr (), w')"
  by (cases d; cases s) (auto simp: view_cells_def)

lemma fake_apply_returns:
  assumes "list_all fake_copyable copies"
  shows "wp (apply_copies (fake_env now f) copies (TensorObject t)) (\<lambda>_ _. True) (\<lambda>_ _. False) w"
proof -
  have "wp (for_each (\<lambda>(d, s). fake_copy d s) xs) (\<lambda>_ _. True) (\<lambda>_ _. False) w" if "list_all fake_copyable xs" for xs w
    using that
  proof (induction xs arbitrary: w)
    case (Cons p ps t)
    obtain d s where p: "p = (d, s)" by (cases p)
    obtain w' where "fake_copy d s t = (Inr (), w')" using fake_copyable_returns [of d s t] Cons.prems p by auto
    then have "wp (fake_copy d s) (\<lambda>_ u. u = w') (\<lambda>_ _. False) t" by (simp add: wp_def)
    then show ?case using Cons p by (auto simp: wp_simps elim!: wp_mono)
  qed (simp add: wp_simps)
  from this [OF assms] show ?thesis
    unfolding apply_copies_def fake_env_simps wp_except_data wp_ethen by (rule wp_mono) (simp_all add: wp_def)
qed

lemma wp_fake_corrector:
  "wp (recording_corrector None (ViewObject v) src tgt l) Q E w \<longleftrightarrow>
     (let called = w\<lparr>fw_calls := fw_calls w @ [(src, tgt, l)]\<rparr> in
      if length (fv_refs v) \<noteq> length src \<or> length (fv_refs v) \<noteq> length tgt then E DataException called
      else Q (ValueObject \<lparr>fu_rows = map (\<lambda>(row, s, t). CorrectedKey row s t l) (zip (map (fw_rows w) (view_cells v)) (zip src tgt)),
          fu_shape = fv_shape v, fu_dtype = ft_dtype (fv_owner v), fu_device = ft_device (fv_owner v)\<rparr>) called)"
  by (auto simp: wp_def recording_corrector_def Let_def view_cells_def)

declare fake_paged_rows.simps [simp del] fake_staging_rows.simps [simp del] fake_reshape.simps [simp del]

lemma float_zero: "float_add (Finite 0) (Finite 0) = Finite 0" "float_sub (Finite 0) (Finite 0) = Finite 0"
  by (simp_all add: float_sub_def Let_def round_double_def)

declare float_add.simps(1) [simp del]

lemma fake_prepare_scatter_span:
  assumes "good_span s"
  shows "wp (prepare_scatter_span (fake_env (\<lambda>_. Finite 0) None) fake_staging (fake_cache l) s a)
     (\<lambda>(copies, t) _. t = Finite 0 \<and> list_all fake_copyable copies) (\<lambda>_ _. False) w"
  using good_span_ranges [OF assms]
  unfolding prepare_scatter_span_def Let_def fake_env_simps fake_staging_def fake_cache_def GPT_OSS_NUM_KV_HEADS_def GPT_OSS_HEAD_DIM_def
  by (simp add: wp_simps wp_fake_views fake_product_def validate_view_def wp_fake_corrector view_cells_def float_zero positions_def)

lemma fake_prepare_gather_span:
  assumes "good_span s"
  shows "wp (prepare_gather_span (fake_env now f) (fake_cache l) fake_staging s a)
     (\<lambda>copies _. list_all fake_copyable copies) (\<lambda>_ _. False) w"
  using good_span_ranges [OF assms]
  unfolding prepare_gather_span_def Let_def fake_env_simps fake_staging_def fake_cache_def GPT_OSS_NUM_KV_HEADS_def GPT_OSS_HEAD_DIM_def
    GPT_OSS_KV_WIDTH_def
  by (simp add: wp_simps wp_fake_views fake_product_def validate_view_def)

lemma fake_paged_cache:
  "good_span s \<Longrightarrow> paged_cache fake_caches (lspan_layer_name s) = eret (fake_cache (lspan_layer_index s))"
  using fake_caches_of [of "lspan_layer_index s"] by (simp add: good_span_def Let_def all_layers_def paged_cache_def)

lemma fake_prepare_scatter:
  assumes "\<forall>s\<in>set spans. good_span s" "list_all fake_copyable prepared"
  shows "wp (prepare_scatter (fake_env (\<lambda>_. Finite 0) None) fake_staging fake_caches offset prepared (Finite 0) spans)
     (\<lambda>(copies, t) _. t = Finite 0 \<and> list_all fake_copyable copies) (\<lambda>_ _. False) w"
  using assms
proof (induction spans arbitrary: prepared w)
  case (Cons s spans)
  then show ?case
    by (auto simp: wp_simps fake_paged_cache float_zero intro!: wp_mono [OF fake_prepare_scatter_span])
qed (simp add: wp_simps)

lemma fake_prepare_gather:
  assumes "\<forall>s\<in>set spans. good_span s" "list_all fake_copyable prepared"
  shows "wp (prepare_gather (fake_env now f) fake_staging fake_caches start offset prepared spans)
     (\<lambda>copies _. list_all fake_copyable copies) (\<lambda>_ _. False) w"
  using assms
proof (induction spans arbitrary: prepared w)
  case (Cons s spans)
  then show ?case
    by (auto simp: wp_simps fake_paged_cache intro!: wp_mono [OF fake_prepare_gather_span])
qed (simp add: wp_simps)

lemma fake_preflight:
  assumes "validate_spans spans = Inr v" "\<forall>s\<in>set spans. fake_span_fits s"
  shows "wp (preflight_common (fake_env now f) fake_staging fake_caches spans) (\<lambda>v' _. v' = v) (\<lambda>_ _. False) w"
proof -
  note v = validate_spans_Inr [OF assms(1)]
  have check: "wp (check_cache (fake_env now f) ''torch.bfloat16'' ''cuda:0'' (filter (\<lambda>s. lspan_layer_name s = ascii_layer_name i) (vs_spans v)) (fake_cache i))
      (\<lambda>_ _. True) (\<lambda>_ _. False) w" if i: "i \<in> set all_layers" for i w
  proof -
    let ?ss = "filter (\<lambda>s. lspan_layer_name s = ascii_layer_name i) (vs_spans v)"
    have "ordered_layer spans i \<noteq> []" using v(5) i by (simp add: covers_def)
    then obtain s where "s \<in> set (ordered_layer spans i)" using last_in_set by blast
    then have "s \<in> set ?ss" using v(1,3) by (auto simp: good_span_def Let_def)
    moreover have fit: "\<forall>s\<in>set ?ss. gs_block_size (lspan_group_span s) = 16 \<and> gs_block_id (lspan_group_span s) < 6 \<and> good_span s"
      using assms(2) v(1,3) by (auto simp: fake_span_fits_def)
    ultimately have ss: "?ss \<noteq> []" "set (map (gs_block_size \<circ> lspan_group_span) ?ss) = {16}" by (force simp del: set_filter)+
    then have first: "gs_block_size (lspan_group_span (hd ?ss)) = 16" using fit hd_in_set by blast
    have bounds: "\<forall>s\<in>set ?ss. gs_block_id (lspan_group_span s) < 6 \<and> gs_block_offset (lspan_group_span s) + lspan_count s \<le> 16"
      using fit by (auto simp: good_span_def Let_def)
    have loop: "wp (for_each (\<lambda>sp. ethen (require (gs_block_id (lspan_group_span sp) < 6) PAGED_RANGE_OUT_OF_BOUNDS)
          (require (gs_block_offset (lspan_group_span sp) + lspan_count sp \<le> 16) PAGED_RANGE_OUT_OF_BOUNDS)) ss) (\<lambda>_ _. True) (\<lambda>_ _. False) w"
      if "\<forall>s\<in>set ss. gs_block_id (lspan_group_span s) < 6 \<and> gs_block_offset (lspan_group_span s) + lspan_count s \<le> 16" for ss w
      using that by (induction ss arbitrary: w) (auto simp: wp_simps)
    show ?thesis using ss first loop [OF bounds]
      by (simp add: check_cache_def Let_def wp_simps fake_cache_def KV_COMPONENTS_def GPT_OSS_NUM_KV_HEADS_def GPT_OSS_HEAD_DIM_def)
  qed
  have loop: "wp (for_each (\<lambda>name. ebind (paged_cache fake_caches name) (check_cache (fake_env now f) ''torch.bfloat16'' ''cuda:0''
      (filter (\<lambda>s. lspan_layer_name s = name) (vs_spans v)))) (map ascii_layer_name is)) (\<lambda>_ _. True) (\<lambda>_ _. False) w"
    if "set is \<subseteq> set all_layers" for "is" w
    using that
  proof (induction "is" arbitrary: w)
    case (Cons i "is")
    then show ?case
      by (auto simp: wp_simps paged_cache_def fake_caches_of intro!: wp_mono [OF check])
  qed (simp add: wp_simps)
  have names: "set (map fst fake_caches) = set (vs_layer_names v)" by (simp add: v(4) fake_caches_def image_image)
  show ?thesis
    using names
    by (auto simp: preflight_common_def assms(1) wp_simps fake_staging_def KV_COMPONENTS_def GPT_OSS_NUM_LAYERS_def GPT_OSS_KV_WIDTH_def
        GPT_OSS_NUM_KV_HEADS_def GPT_OSS_HEAD_DIM_def v(4) intro!: wp_mono [OF loop [of all_layers]])
qed

text \<open>A scatter and a gather of accepted spans that fit the tensors of the test return a receipt.\<close>

lemma fake_scatter_returns:
  assumes "validate_spans spans = Inr v" "\<forall>s\<in>set spans. fake_span_fits s" "0 \<le> a" "tr_end (vs_target_range v) \<le> n" "1 \<le> n"
    "a + n \<le> 64"
  shows "\<exists>receipt w'. scatter_retrieved_kv (fake_env (\<lambda>_. Finite 0) None) fake_staging fake_caches spans (PInt a) (PInt n) w = (Inr receipt, w')"
proof -
  have good: "\<forall>s\<in>set (vs_spans v). good_span s" using validate_spans_Inr(1,3) [OF assms(1)] by simp
  have cache: "snd (hd fake_caches) = fake_cache 0"
    by (simp add: fake_caches_def all_layers_def GPT_OSS_NUM_LAYERS_def upto_rec1)
  have "wp (scatter_retrieved_kv (fake_env (\<lambda>_. Finite 0) None) fake_staging fake_caches spans (PInt a) (PInt n)) (\<lambda>_ _. True) (\<lambda>_ _. False) w"
    using assms
    by (auto simp: scatter_retrieved_kv_def wp_simps data_require_plain_int_def fake_staging_def [symmetric] GPT_OSS_MAX_CONTEXT_TOKENS_def cache
        DataPlaneReceipt_init_def load_receipt_def fake_cache_def [of 0]
        intro!: wp_mono [OF fake_preflight [OF assms(1,2)]] wp_mono [OF fake_prepare_scatter [OF good]] wp_mono [OF fake_apply_returns])
      (auto simp: fake_staging_def)
  from wp_returns [OF this] show ?thesis by blast
qed

lemma fake_gather_returns:
  assumes "validate_spans spans = Inr v" "\<forall>s\<in>set spans. fake_span_fits s" "0 \<le> a" "a + range_len (vs_target_range v) \<le> 64"
  shows "\<exists>receipt w'. gather_precomputed_kv (fake_env now f) fake_staging fake_caches spans (vs_target_range v) (PInt a) w = (Inr receipt, w')"
proof -
  have good: "\<forall>s\<in>set (vs_spans v). good_span s" using validate_spans_Inr(1,3) [OF assms(1)] by simp
  have "wp (gather_precomputed_kv (fake_env now f) fake_staging fake_caches spans (vs_target_range v) (PInt a)) (\<lambda>_ _. True) (\<lambda>_ _. False) w"
    using assms
    by (auto simp: gather_precomputed_kv_def wp_simps data_require_plain_int_def DataPlaneReceipt_init_def store_receipt_def
        intro!: wp_mono [OF fake_preflight [OF assms(1,2)]] wp_mono [OF fake_prepare_gather [OF good]])
      (auto simp: fake_staging_def wp_simps intro!: wp_mono [OF fake_apply_returns])
  from wp_returns [OF this] show ?thesis by blast
qed

end
