(* ===== verification/RowPlacement.thy ===== *)
theory RowPlacement
  imports FakeTensors
begin

text \<open>
  A scatter and a gather over tensors whose rows do not alias: every row arrives at its place, keys turned to
  their new positions, and no other row changes.  The interface is interpreted on the tensors of
  \<^verbatim>\<open>tests/unit/test_vllm_data_plane.py\<close>.
\<close>

section \<open>The rows of accepted spans\<close>

lemma accepted_block_size:
  assumes "validate_spans spans = Inr v" "s \<in> set spans" "t \<in> set spans" "lspan_layer_index s = lspan_layer_index t"
  shows "gs_block_size (lspan_group_span s) = gs_block_size (lspan_group_span t)"
proof -
  obtain scan where r: "scan_spans \<lparr>ss_group_kind = Map.empty, ss_group_block_size = Map.empty\<rparr> spans = Inr scan"
    "{the (ss_group_kind scan 0), the (ss_group_kind scan 1)} = {SLIDING, FULL}"
    using assms(1) by (auto simp: validate_spans_def result_simps split: if_splits)
  note s = scan_spans_sound [OF r(1) assms(2)] and t = scan_spans_sound [OF r(1) assms(3)]
  have "the (ss_group_kind scan 0) \<noteq> the (ss_group_kind scan 1)" using r(2) by (auto simp: doubleton_eq_iff)
  moreover have "the (ss_group_kind scan (gs_group_id (lspan_group_span s))) = the (ss_group_kind scan (gs_group_id (lspan_group_span t)))"
    using s t assms(4) by (simp add: good_span_def Let_def)
  ultimately have "gs_group_id (lspan_group_span s) = gs_group_id (lspan_group_span t)"
    using s t unfolding good_span_def Let_def valid_span_fields_def by metis
  then show ?thesis using s t by simp
qed

lemma span_row_write:
  "0 \<le> k \<Longrightarrow> k < lspan_count s \<Longrightarrow> (tr_start (lspan_source s) + k, tr_start (lspan_target s) + k, lspan_slot s + k) \<in> set (lspan_writes s)"
  by (auto simp: span_writes_def)

lemma accepted_rows_unique:
  assumes "validate_spans spans = Inr v" "s \<in> set spans" "t \<in> set spans" "lspan_layer_index s = lspan_layer_index t"
    "0 \<le> k" "k < lspan_count s" "0 \<le> m" "m < lspan_count t"
  shows "tr_start (lspan_target s) + k = tr_start (lspan_target t) + m \<Longrightarrow> s = t \<and> k = m"
    "lspan_slot s + k = lspan_slot t + m \<Longrightarrow> s = t \<and> k = m"
proof -
  let ?ss = "ordered_layer spans (lspan_layer_index s)"
  have "good_span s" using validate_spans_Inr(1) [OF assms(1)] assms(2) by blast
  then have "lspan_layer_index s \<in> set all_layers" by (auto simp: good_span_def Let_def all_layers_def)
  then have "covers v spans (lspan_layer_index s)" using validate_spans_Inr(5) [OF assms(1)] by blast
  then have d: "distinct (map write_target (concat (map lspan_writes ?ss)))" "distinct (map write_slot (concat (map lspan_writes ?ss)))"
    by (simp_all add: covers_def layer_writes_def positions_def)
  have m: "s \<in> set ?ss" "t \<in> set ?ss" using assms(2-4) by simp_all
  note u = distinct_rows_unique [OF _ m span_row_write [OF assms(5,6)] span_row_write [OF assms(7,8)]]
  show "tr_start (lspan_target s) + k = tr_start (lspan_target t) + m \<Longrightarrow> s = t \<and> k = m"
    using u [where f = write_target, OF d(1)] by auto
  show "lspan_slot s + k = lspan_slot t + m \<Longrightarrow> s = t \<and> k = m"
    using u [where f = write_slot, OF d(2)] by auto
qed

lemma accepted_distinct:
  assumes "validate_spans spans = Inr v"
  shows "distinct (vs_spans v)"
  unfolding validate_spans_Inr(2) [OF assms]
proof (rule distinct_concat_map)
  show "distinct (ordered_layer spans i)" if i: "i \<in> set all_layers" for i
  proof (rule distinct_of_rows)
    show "distinct (map write_slot (concat (map lspan_writes (ordered_layer spans i))))"
      using validate_spans_Inr(5) [OF assms] i by (simp add: covers_def layer_writes_def)
    show "lspan_writes s \<noteq> []" if "s \<in> set (ordered_layer spans i)" for s
      using good_span_ranges(1) [of s] validate_spans_Inr(1) [OF assms] that by (auto simp: span_writes_def)
  qed
qed (auto simp: all_layers_def)

text \<open>The rows of the caches a span names, and its rows in a staging buffer.\<close>

definition span_rows :: "LayerTokenScatterSpan \<Rightarrow> (pystr \<times> int \<times> int \<times> int) list" where
  "span_rows s = (let g = lspan_group_span s in
     concat (map (\<lambda>c. map (\<lambda>r. (lspan_layer_name s, c, gs_block_id g, r)) (row_run (gs_block_offset g) (lspan_count s)))
       [KEY_COMPONENT, VALUE_COMPONENT]))"

definition staged_rows :: "int \<Rightarrow> LayerTokenScatterSpan \<Rightarrow> (int \<times> int \<times> int) list" where
  "staged_rows base s =
     concat (map (\<lambda>c. map (\<lambda>r. (c, lspan_layer_index s, r)) (row_run (base + tr_start (lspan_target s)) (lspan_count s)))
       [KEY_COMPONENT, VALUE_COMPONENT])"

lemma set_row_run [simp]: "set (row_run a n) = {a..<a + n}"
  by (auto simp: row_run_def)

lemma row_run_nth: "0 \<le> k \<Longrightarrow> k < n \<Longrightarrow> row_run a n ! nat k = a + k"
  by (simp add: row_run_def nth_upto)

lemma distinct_row_run [simp]: "distinct (row_run a n)"
  by (simp add: row_run_def)

lemma in_span_rows:
  "(n, c, b, r) \<in> set (span_rows s) \<longleftrightarrow> n = lspan_layer_name s \<and> (c = KEY_COMPONENT \<or> c = VALUE_COMPONENT) \<and>
     b = gs_block_id (lspan_group_span s) \<and> gs_block_offset (lspan_group_span s) \<le> r \<and> r < gs_block_offset (lspan_group_span s) + lspan_count s"
  by (auto simp: span_rows_def Let_def)

lemma in_staged_rows:
  "(c, l, r) \<in> set (staged_rows base s) \<longleftrightarrow> (c = KEY_COMPONENT \<or> c = VALUE_COMPONENT) \<and> l = lspan_layer_index s \<and>
     base + tr_start (lspan_target s) \<le> r \<and> r < base + tr_start (lspan_target s) + lspan_count s"
  by (auto simp: staged_rows_def)

lemma distinct_span_rows:
  assumes "validate_spans spans = Inr v"
  shows "distinct (concat (map span_rows (vs_spans v)))" "distinct (concat (map (staged_rows base) (vs_spans v)))"
proof -
  have good: "good_span s" "s \<in> set spans" if "s \<in> set (vs_spans v)" for s
    using that validate_spans_Inr(1,3) [OF assms] by auto
  have one: "distinct (span_rows s)" "distinct (staged_rows base s)" for s
    by (auto simp: span_rows_def Let_def staged_rows_def distinct_map inj_on_def KEY_COMPONENT_def VALUE_COMPONENT_def)
  show "distinct (concat (map span_rows (vs_spans v)))"
  proof (rule distinct_concat_map [OF accepted_distinct [OF assms] one(1)])
    fix s t
    assume st: "s \<in> set (vs_spans v)" "t \<in> set (vs_spans v)" "s \<noteq> t"
    note g = good [OF st(1)] good [OF st(2)]
    have False if "(n, c, b, r) \<in> set (span_rows s)" "(n, c, b, r) \<in> set (span_rows t)" for n c b r
    proof -
      have l: "lspan_layer_index s = lspan_layer_index t"
        using that g ascii_layer_name_inj [of "lspan_layer_index s" "lspan_layer_index t"]
        by (auto simp: in_span_rows good_span_def Let_def)
      have "lspan_slot s + (r - gs_block_offset (lspan_group_span s)) = lspan_slot t + (r - gs_block_offset (lspan_group_span t))"
        using that g accepted_block_size [OF assms g(2,4) l] by (simp add: in_span_rows good_span_def Let_def)
      then show False
        using accepted_rows_unique(2) [OF assms g(2,4) l, of "r - gs_block_offset (lspan_group_span s)" "r - gs_block_offset (lspan_group_span t)"]
          that st(3) by (auto simp: in_span_rows)
    qed
    then show "set (span_rows s) \<inter> set (span_rows t) = {}" by fastforce
  qed
  show "distinct (concat (map (staged_rows base) (vs_spans v)))"
  proof (rule distinct_concat_map [OF accepted_distinct [OF assms] one(2)])
    fix s t
    assume st: "s \<in> set (vs_spans v)" "t \<in> set (vs_spans v)" "s \<noteq> t"
    note g = good [OF st(1)] good [OF st(2)]
    have False if "(c, l, r) \<in> set (staged_rows base s)" "(c, l, r) \<in> set (staged_rows base t)" for c l r
      using accepted_rows_unique(1) [OF assms g(2,4), of "r - base - tr_start (lspan_target s)" "r - base - tr_start (lspan_target t)"]
        that st(3) by (auto simp: in_staged_rows)
    then show "set (staged_rows base s) \<inter> set (staged_rows base t) = {}" by fastforce
  qed
qed

section \<open>Moving the rows\<close>

definition paged_cell :: "('o \<Rightarrow> int \<Rightarrow> int \<Rightarrow> int \<Rightarrow> 'c) \<Rightarrow> 'o caches \<Rightarrow> pystr \<times> int \<times> int \<times> int \<Rightarrow> 'c" where
  "paged_cell paged caches = (\<lambda>(n, c, b, r). paged (the (map_of caches n)) c b r)"

definition staged_cell :: "('o \<Rightarrow> int \<Rightarrow> int \<Rightarrow> int \<Rightarrow> 'c) \<Rightarrow> 'o \<Rightarrow> int \<times> int \<times> int \<Rightarrow> 'c" where
  "staged_cell staged staging = (\<lambda>(c, l, r). staged staging c l r)"

text \<open>The rows a transfer writes are different rows of memory, and none is a row of the tensors it reads.\<close>

definition scatter_apart ::
    "('o \<Rightarrow> int \<Rightarrow> int \<Rightarrow> int \<Rightarrow> 'c) \<Rightarrow> ('o \<Rightarrow> int \<Rightarrow> int \<Rightarrow> int \<Rightarrow> 'c) \<Rightarrow> 'o \<Rightarrow> 'o caches \<Rightarrow> LayerTokenScatterSpan list \<Rightarrow> bool" where
  "scatter_apart staged paged staging caches spans \<longleftrightarrow>
     inj_on (paged_cell paged caches) (set (concat (map span_rows spans))) \<and>
     (\<forall>c l r. staged staging c l r \<notin> paged_cell paged caches ` set (concat (map span_rows spans)))"

definition gather_apart ::
    "('o \<Rightarrow> int \<Rightarrow> int \<Rightarrow> int \<Rightarrow> 'c) \<Rightarrow> ('o \<Rightarrow> int \<Rightarrow> int \<Rightarrow> int \<Rightarrow> 'c) \<Rightarrow> 'o \<Rightarrow> 'o caches \<Rightarrow> int \<Rightarrow> LayerTokenScatterSpan list \<Rightarrow> bool" where
  "gather_apart staged paged staging caches base spans \<longleftrightarrow>
     inj_on (staged_cell staged staging) (set (concat (map (staged_rows base) spans))) \<and>
     (\<forall>cache\<in>snd ` set caches. \<forall>c b r. paged cache c b r \<notin> staged_cell staged staging ` set (concat (map (staged_rows base) spans)))"

context tensor_memory begin

abbreviation all_scatter_targets :: "('c \<Rightarrow> 'v) \<Rightarrow> 'o \<Rightarrow> 'o caches \<Rightarrow> int \<Rightarrow> LayerTokenScatterSpan list \<Rightarrow> ('c list \<times> 'v list) list" where
  "all_scatter_targets f staging caches offset spans \<equiv> concat (map (\<lambda>s. scatter_targets f staging (the (map_of caches (lspan_layer_name s))) s
     (offset + tr_start (lspan_target s))) spans)"

abbreviation all_gather_targets :: "('c \<Rightarrow> 'v) \<Rightarrow> 'o \<Rightarrow> 'o caches \<Rightarrow> int \<Rightarrow> int \<Rightarrow> LayerTokenScatterSpan list \<Rightarrow> ('c list \<times> 'v list) list" where
  "all_gather_targets f staging caches start offset spans \<equiv> concat (map (\<lambda>s. gather_targets f staging (the (map_of caches (lspan_layer_name s))) s
     (offset + (tr_start (lspan_target s) - start))) spans)"

lemma scatter_target_cells:
  "concat (map fst (all_scatter_targets f staging caches offset spans)) = map (paged_cell paged caches) (concat (map span_rows spans))"
  by (induction spans) (simp_all add: scatter_targets_def span_rows_def paged_cell_def Let_def)

lemma gather_target_cells:
  "concat (map fst (all_gather_targets f staging caches start offset spans)) =
     map (staged_cell staged staging) (concat (map (staged_rows (offset - start)) spans))"
  by (induction spans) (simp_all add: gather_targets_def staged_rows_def staged_cell_def Let_def algebra_simps)

lemma scatter_overwrites:
  assumes "scatter_apart staged paged staging caches spans"
  shows "wp (scatter_retrieved_kv env staging caches spans offset n)
     (\<lambda>_ w'. \<exists>v. validate_spans spans = Inr v \<and>
        store w' = foldl overwrite (store w) (all_scatter_targets (store w) staging caches (the_int offset) (vs_spans v))) (\<lambda>_ _. True) w"
proof -
  have rest: "wp (ebind (prepare_scatter env staging caches a [] (Finite 0) (vs_spans v)) (\<lambda>(prepared, latency).
        ethen (apply_copies env prepared t) (of_result (DataPlaneReceipt_init (load_receipt v latency)))))
      (\<lambda>_ w'. store w' = foldl overwrite (store w) (all_scatter_targets (store w) staging caches a (vs_spans v))) (\<lambda>_ _. True) w1"
    if v: "validate_spans spans = Inr v" "same w w1" for v a t w1
  proof -
    let ?targets = "all_scatter_targets (store w) staging caches a (vs_spans v)"
    have good: "\<forall>s\<in>set (vs_spans v). good_span s" using validate_spans_Inr(1,3) [OF v(1)] by simp
    have cells: "set (concat (map fst ?targets)) = paged_cell paged caches ` set (concat (map span_rows spans))"
      unfolding scatter_target_cells using validate_spans_Inr(3) [OF v(1)] by simp
    have d2: "staged_cells staging \<inter> set (concat (map fst ?targets)) = {}"
      using assms unfolding cells scatter_apart_def staged_cells_def by blast
    have d1: "distinct (concat (map fst ?targets))"
      using assms distinct_span_rows(1) [OF v(1)] validate_spans_Inr(3) [OF v(1)] unfolding scatter_target_cells
      by (simp add: scatter_apart_def distinct_map)
    have "wp (ethen (apply_copies env copies t) (of_result (DataPlaneReceipt_init (load_receipt v latency))))
        (\<lambda>_ w'. store w' = foldl overwrite (store w) (all_scatter_targets (store w) staging caches a (vs_spans v))) (\<lambda>_ _. True) w2"
      if "same w w2" "pending w2 (staged_cells staging) copies ?targets" for copies latency w2
      unfolding wp_ethen
      by (rule wp_mono [OF apply_copies_rows [OF that(2) d1 d2]]) (use v(1) same_store [OF that(1)] in \<open>auto simp: wp_simps split: sum.split\<close>)
    then show ?thesis
      unfolding wp_ebind by (intro wp_mono [OF prepare_scatter_rows [OF good v(2), where targets = "[]"]]) auto
  qed
  show ?thesis
    unfolding scatter_retrieved_kv_def wp_ebind [of "preflight_common _ _ _ _"]
    by (rule wp_mono [OF preflight_rows])
      (auto simp: data_require_plain_int_def wp_ethen wp_require wp_ebind [of "safe_shape _ _"] simp del: wp_ebind
        intro!: wp_harmless [OF harmless_checks(1)] rest intro: same_trans)
qed

lemma gather_overwrites:
  assumes "gather_apart staged paged staging caches (the_int offset - tr_start document) spans"
  shows "wp (gather_precomputed_kv env staging caches spans document offset)
     (\<lambda>_ w'. \<exists>v. validate_spans spans = Inr v \<and> document = vs_target_range v \<and>
        store w' = foldl overwrite (store w)
          (all_gather_targets (store w) staging caches (tr_start document) (the_int offset) (vs_spans v))) (\<lambda>_ _. True) w"
proof -
  have rest: "wp (ebind (prepare_gather env staging caches (tr_start (vs_target_range v)) (the_int offset) [] (vs_spans v)) (\<lambda>prepared.
        ethen (apply_copies env prepared t) (of_result (DataPlaneReceipt_init (store_receipt v)))))
      (\<lambda>_ w'. store w' = foldl overwrite (store w)
          (all_gather_targets (store w) staging caches (tr_start (vs_target_range v)) (the_int offset) (vs_spans v))) (\<lambda>_ _. True) w1"
    if v: "validate_spans spans = Inr v" "document = vs_target_range v" "same w w1" for v t w1
  proof -
    let ?targets = "all_gather_targets (store w) staging caches (tr_start (vs_target_range v)) (the_int offset) (vs_spans v)"
    let ?S = "paged_cells (snd ` set caches)"
    note apart = assms [unfolded v(2)]
    have cells: "set (concat (map fst ?targets)) =
        staged_cell staged staging ` set (concat (map (staged_rows (the_int offset - tr_start (vs_target_range v))) spans))"
      unfolding gather_target_cells using validate_spans_Inr(3) [OF v(1)] by simp
    have d2: "?S \<inter> set (concat (map fst ?targets)) = {}"
      using apart unfolding cells gather_apart_def paged_cells_def by blast
    have d1: "distinct (concat (map fst ?targets))"
      using apart distinct_span_rows(2) [OF v(1)] validate_spans_Inr(3) [OF v(1)] unfolding gather_target_cells
      by (simp add: gather_apart_def distinct_map)
    have "wp (ethen (apply_copies env copies t) (of_result (DataPlaneReceipt_init (store_receipt v))))
        (\<lambda>_ w'. store w' = foldl overwrite (store w)
          (all_gather_targets (store w) staging caches (tr_start (vs_target_range v)) (the_int offset) (vs_spans v))) (\<lambda>_ _. True) w2"
      if "same w w2" "pending w2 ?S copies ?targets" for copies w2
      unfolding wp_ethen
      by (rule wp_mono [OF apply_copies_rows [OF that(2) d1 d2]]) (use v(1,2) same_store [OF that(1)] in \<open>auto simp: wp_simps split: sum.split\<close>)
    then show ?thesis
      unfolding wp_ebind by (intro wp_mono [OF prepare_gather_rows [OF v(3), where targets = "[]"]]) auto
  qed
  show ?thesis
    unfolding gather_precomputed_kv_def wp_ebind [of "preflight_common _ _ _ _"]
    by (rule wp_mono [OF preflight_rows])
      (auto simp: data_require_plain_int_def wp_ethen wp_require wp_ebind [of "safe_shape _ _"] simp del: wp_ebind
        intro!: wp_harmless [OF harmless_checks(1)] rest intro: same_trans)
qed

lemma rotate_rows_nth:
  assumes "0 \<le> k" "k < range_len src" "range_len tgt = range_len src" "length rows = nat (range_len src)"
  shows "rotate_rows turn l (positions src) (positions tgt) rows ! nat k = turn l (tr_start src + k) (tr_start tgt + k) (rows ! nat k)"
  using assms by (simp add: rotate_rows_def positions_def nth_upto range_len_def)

lemma scatter_rows_at:
  assumes c: "c = KEY_COMPONENT \<or> c = VALUE_COMPONENT" and moves: "scatter_apart staged paged staging caches spans"
    "validate_spans spans = Inr v" "s \<in> set spans" "0 \<le> k" "k < lspan_count s"
  shows "foldl overwrite f (all_scatter_targets f staging caches base (vs_spans v))
      (paged_cell paged caches (lspan_layer_name s, c, gs_block_id (lspan_group_span s), gs_block_offset (lspan_group_span s) + k)) =
    (if c = KEY_COMPONENT then
       turn (lspan_layer_index s) (tr_start (lspan_source s) + k) (tr_start (lspan_target s) + k)
         (f (staged staging KEY_COMPONENT (lspan_layer_index s) (base + tr_start (lspan_target s) + k)))
     else f (staged staging VALUE_COMPONENT (lspan_layer_index s) (base + tr_start (lspan_target s) + k)))"
proof -
  let ?cache = "the (map_of caches (lspan_layer_name s))" let ?targets = "all_scatter_targets f staging caches base (vs_spans v)"
  let ?cs = "\<lambda>c. map (paged ?cache c (gs_block_id (lspan_group_span s))) (row_run (gs_block_offset (lspan_group_span s)) (lspan_count s))"
  let ?l = "lspan_layer_index s" let ?rows = "row_run (base + tr_start (lspan_target s)) (lspan_count s)"
  let ?key = "rotate_rows turn ?l (positions (lspan_source s)) (positions (lspan_target s)) (map (f \<circ> staged staging KEY_COMPONENT ?l) ?rows)"
  let ?val = "map (f \<circ> staged staging VALUE_COMPONENT ?l) ?rows"
  have s: "s \<in> set (vs_spans v)" "good_span s" using moves(3) validate_spans_Inr(1,3) [OF moves(2)] by auto
  note len = good_span_ranges [OF s(2)]
  have d: "distinct (concat (map fst ?targets))"
    using moves(1) distinct_span_rows(1) [OF moves(2)] validate_spans_Inr(3) [OF moves(2)] unfolding scatter_target_cells
    by (simp add: scatter_apart_def distinct_map)
  have targets: "(?cs KEY_COMPONENT, ?key) \<in> set ?targets" "(?cs VALUE_COMPONENT, ?val) \<in> set ?targets"
    using s(1) by (auto simp: scatter_targets_def Let_def)
  have lengths: "length ?key = length (?cs KEY_COMPONENT)" "length ?val = length (?cs VALUE_COMPONENT)"
    using len by (simp_all add: rotate_rows_def positions_def)
  have k: "nat k < length (?cs c)" for c using moves(4,5) by simp
  have at: "?cs c ! nat k = paged_cell paged caches (lspan_layer_name s, c, gs_block_id (lspan_group_span s), gs_block_offset (lspan_group_span s) + k)" for c
    using moves(4,5) by (simp add: paged_cell_def row_run_nth)
  have rows: "?key ! nat k = turn ?l (tr_start (lspan_source s) + k) (tr_start (lspan_target s) + k) (f (staged staging KEY_COMPONENT ?l (base + tr_start (lspan_target s) + k)))"
    "?val ! nat k = f (staged staging VALUE_COMPONENT ?l (base + tr_start (lspan_target s) + k))"
    using rotate_rows_nth [of k "lspan_source s" "lspan_target s" "map (f \<circ> staged staging KEY_COMPONENT ?l) ?rows" ?l] moves(4,5) len
    by (simp_all add: row_run_nth range_len_def)
  show ?thesis
    using c overwrites_at [OF d targets(1) lengths(1) k, of f] overwrites_at [OF d targets(2) lengths(2) k, of f]
    unfolding at rows by (auto simp: KEY_COMPONENT_def VALUE_COMPONENT_def)
qed

lemma gather_rows_at:
  assumes "gather_apart staged paged staging caches (offset - start) spans" "validate_spans spans = Inr v" "s \<in> set spans" "0 \<le> k"
    "k < lspan_count s" "c = KEY_COMPONENT \<or> c = VALUE_COMPONENT"
  shows "foldl overwrite f (all_gather_targets f staging caches start offset (vs_spans v))
      (staged staging c (lspan_layer_index s) (offset + (tr_start (lspan_target s) - start) + k)) =
    f (paged_cell paged caches (lspan_layer_name s, c, gs_block_id (lspan_group_span s), gs_block_offset (lspan_group_span s) + k))"
proof -
  let ?cache = "the (map_of caches (lspan_layer_name s))" let ?targets = "all_gather_targets f staging caches start offset (vs_spans v)"
  let ?cs = "map (staged staging c (lspan_layer_index s)) (row_run (offset + (tr_start (lspan_target s) - start)) (lspan_count s))"
  let ?rows = "map (f \<circ> paged ?cache c (gs_block_id (lspan_group_span s))) (row_run (gs_block_offset (lspan_group_span s)) (lspan_count s))"
  have s: "s \<in> set (vs_spans v)" using assms(3) validate_spans_Inr(3) [OF assms(2)] by auto
  have d: "distinct (concat (map fst ?targets))"
    using assms(1) distinct_span_rows(2) [OF assms(2)] validate_spans_Inr(3) [OF assms(2)] unfolding gather_target_cells
    by (simp add: gather_apart_def distinct_map)
  have "(?cs, ?rows) \<in> set ?targets" using s assms(6) by (auto simp: gather_targets_def Let_def)
  from overwrites_at [OF d this, of "nat k" f] show ?thesis
    using assms(4,5) by (simp add: row_run_nth paged_cell_def)
qed

lemma scatter_placement:
  assumes "scatter_apart staged paged staging caches spans"
    "scatter_retrieved_kv env staging caches spans offset n w = (Inr receipt, w')"
  shows "(\<forall>s\<in>set spans. \<forall>k. 0 \<le> k \<and> k < lspan_count s \<longrightarrow>
     (let l = lspan_layer_index s; g = lspan_group_span s;
          target = (\<lambda>c. paged (the (map_of caches (lspan_layer_name s))) c (gs_block_id g) (gs_block_offset g + k));
          origin = (\<lambda>c. staged staging c l (the_int offset + tr_start (lspan_target s) + k)) in
      store w' (target KEY_COMPONENT) = turn l (tr_start (lspan_source s) + k) (tr_start (lspan_target s) + k) (store w (origin KEY_COMPONENT)) \<and>
      store w' (target VALUE_COMPONENT) = store w (origin VALUE_COMPONENT))) \<and>
   (\<forall>cell. cell \<notin> paged_cell paged caches ` set (concat (map span_rows spans)) \<longrightarrow> store w' cell = store w cell)"
proof -
  obtain v where v: "validate_spans spans = Inr v"
    "store w' = foldl overwrite (store w) (all_scatter_targets (store w) staging caches (the_int offset) (vs_spans v))"
    using wp_result [OF assms(2) scatter_overwrites [OF assms(1)]] by auto
  note at = scatter_rows_at [OF _ assms(1) v(1), of KEY_COMPONENT] scatter_rows_at [OF _ assms(1) v(1), of VALUE_COMPONENT]
  have "store w' cell = store w cell" if "cell \<notin> paged_cell paged caches ` set (concat (map span_rows spans))" for cell
    unfolding v(2) using that validate_spans_Inr(3) [OF v(1)]
    by (intro overwrites_other) (simp add: scatter_target_cells)
  moreover have "KEY_COMPONENT \<noteq> VALUE_COMPONENT" by (simp add: KEY_COMPONENT_def VALUE_COMPONENT_def)
  ultimately show ?thesis
    using at unfolding v(2) by (simp add: paged_cell_def Let_def)
qed

lemma gather_placement:
  assumes "gather_apart staged paged staging caches (the_int offset - tr_start document) spans"
    "gather_precomputed_kv env staging caches spans document offset w = (Inr receipt, w')"
  shows "(\<forall>s\<in>set spans. \<forall>k c. 0 \<le> k \<and> k < lspan_count s \<and> (c = KEY_COMPONENT \<or> c = VALUE_COMPONENT) \<longrightarrow>
     store w' (staged staging c (lspan_layer_index s) (the_int offset + (tr_start (lspan_target s) - tr_start document) + k)) =
     store w (paged (the (map_of caches (lspan_layer_name s))) c (gs_block_id (lspan_group_span s)) (gs_block_offset (lspan_group_span s) + k))) \<and>
   (\<forall>cell. cell \<notin> staged_cell staged staging ` set (concat (map (staged_rows (the_int offset - tr_start document)) spans)) \<longrightarrow>
      store w' cell = store w cell)"
proof -
  obtain v where v: "validate_spans spans = Inr v"
    "store w' = foldl overwrite (store w) (all_gather_targets (store w) staging caches (tr_start document) (the_int offset) (vs_spans v))"
    using wp_result [OF assms(2) gather_overwrites [OF assms(1)]] by auto
  have "store w' cell = store w cell"
    if "cell \<notin> staged_cell staged staging ` set (concat (map (staged_rows (the_int offset - tr_start document)) spans))" for cell
    unfolding v(2) using that validate_spans_Inr(3) [OF v(1)]
    by (intro overwrites_other) (simp add: gather_target_cells)
  then show ?thesis
    using gather_rows_at [OF assms(1) v(1)] unfolding v(2) by (simp add: paged_cell_def)
qed

end

section \<open>A concrete transfer\<close>

text \<open>One block of sixteen rows per layer; staging rows named by layer and position as in the test.\<close>

definition example_span :: "int \<Rightarrow> LayerTokenScatterSpan" where
  "example_span i =
     \<lparr>lspan_layer_name = ascii_layer_name i, lspan_layer_index = i, lspan_group_span =
       \<lparr>gs_group_id = i mod 2, gs_attention_kind = expected_kind i, gs_source_range = \<lparr>tr_start = 100, tr_end = 116\<rparr>,
        gs_target_range = \<lparr>tr_start = 16, tr_end = 32\<rparr>, gs_logical_block_index = 1, gs_block_id = 2, gs_block_size = 16,
        gs_block_offset = 0, gs_physical_slot_start = 32\<rparr>\<rparr>"

definition example_spans :: "LayerTokenScatterSpan list" where
  "example_spans = map example_span all_layers"

definition example_world :: FakeWorld where
  "example_world =
     \<lparr>fw_rows = (\<lambda>(t, a, b, r). if t = 0 then SeededRow (if a = 0 then ''retrieved-k'' else ''retrieved-v'') b (r - 7)
        else SeededRow (if b = 0 then ''paged-k'' else ''paged-v'') (int t - 1) (r + 16)),
      fw_copy_count = 0, fw_synchronizations = [], fw_staging_reads = [], fw_calls = []\<rparr>"

lemma example_spans_accepted:
  "\<exists>v. validate_spans example_spans = Inr v \<and> vs_spans v = example_spans \<and> vs_source_range v = \<lparr>tr_start = 100, tr_end = 116\<rparr> \<and>
     vs_target_range v = \<lparr>tr_start = 16, tr_end = 32\<rparr>"
proof (rule layered_spans_accepted [where idx = "\<lambda>i. i" and layers = all_layers and h = "\<lambda>i. [example_span i]" and gid = "\<lambda>i. i mod 2"
      and K = expected_kind and B = "\<lambda>_. 16"])
  show "spans_of_layer example_spans i = [example_span i]" if i: "i \<in> set all_layers" for i
  proof -
    have "filter (\<lambda>s. lspan_layer_index s = i) (concat (map (\<lambda>i. [example_span i]) all_layers)) = [example_span i]"
      by (rule filter_concat_name [where f = "\<lambda>i. i"]) (use i in \<open>auto simp: example_span_def all_layers_def\<close>)
    then show ?thesis by (simp add: spans_of_layer_def example_spans_def)
  qed
  show "example_spans = concat (map (\<lambda>i. [example_span i]) all_layers)" by (simp add: example_spans_def)
  fix i
  assume i: "i \<in> set all_layers"
  have two: "i mod 2 = 0 \<or> i mod 2 = 1" by auto
  show "[example_span i] \<noteq> [] \<and> sort_key (\<lambda>s. tr_start (lspan_target s)) [example_span i] = [example_span i] \<and>
      layer_ranges [example_span i] = Inr (\<lparr>tr_start = 100, tr_end = 116\<rparr>, \<lparr>tr_start = 16, tr_end = 32\<rparr>) \<and>
      expected_kind (i mod 2) = expected_kind i \<and> (i mod 2 = 0 \<or> i mod 2 = 1)"
    using two by (simp add: example_span_def layer_ranges_def Let_def result_simps expected_kind_def)
  show "\<forall>s\<in>set [example_span i]. good_span s \<and> gs_group_id (lspan_group_span s) = i mod 2 \<and>
      gs_attention_kind (lspan_group_span s) = expected_kind (i mod 2) \<and> gs_block_size (lspan_group_span s) = 16"
    using i two by (simp add: example_span_def good_span_def Let_def valid_span_fields_def range_len_def span_token_count_def
        GPT_OSS_MAX_CONTEXT_TOKENS_def all_layers_def expected_kind_def)
qed simp

lemma example_spans_fit: "\<forall>s\<in>set example_spans. fake_span_fits s"
  by (auto simp: example_spans_def example_span_def fake_span_fits_def)

lemma example_cache: "s \<in> set example_spans \<Longrightarrow> map_of fake_caches (lspan_layer_name s) = Some (fake_cache (lspan_layer_index s))"
  by (auto simp: example_spans_def example_span_def fake_caches_of)

lemma fake_id_simps: "fake_id (fake_cache i) = Suc (nat i)" "fake_id fake_staging = 0"
  by (simp_all add: fake_id_def fake_cache_def fake_staging_def)

lemma example_scatter_apart: "scatter_apart fake_staged fake_paged fake_staging fake_caches example_spans"
proof -
  have cell: "paged_cell fake_paged fake_caches x = (Suc (nat (lspan_layer_index s)), fst (snd (snd x)), fst (snd x), snd (snd (snd x)))"
    "fst x = ascii_layer_name (lspan_layer_index s)" "0 \<le> lspan_layer_index s"
    if "s \<in> set example_spans" "x \<in> set (span_rows s)" for s x
    using that example_cache [OF that(1)]
    by (cases x; auto simp: in_span_rows paged_cell_def fake_paged_def fake_id_simps example_spans_def example_span_def all_layers_def)+
  have "inj_on (paged_cell fake_paged fake_caches) (set (concat (map span_rows example_spans)))"
  proof (rule inj_onI)
    fix x y
    assume xy: "x \<in> set (concat (map span_rows example_spans))" "y \<in> set (concat (map span_rows example_spans))"
      "paged_cell fake_paged fake_caches x = paged_cell fake_paged fake_caches y"
    then obtain s t where s: "s \<in> set example_spans" "x \<in> set (span_rows s)" and t: "t \<in> set example_spans" "y \<in> set (span_rows t)" by auto
    have "lspan_layer_index s = lspan_layer_index t" using xy(3) cell [OF s] cell [OF t] by (simp add: eq_nat_nat_iff)
    then show "x = y" using xy(3) cell [OF s] cell [OF t] by (simp add: prod_eq_iff)
  qed
  moreover have "fake_staged fake_staging c l r \<notin> paged_cell fake_paged fake_caches ` set (concat (map span_rows example_spans))" for c l r
    using cell(1) by (auto simp: fake_staged_def fake_id_simps)
  ultimately show ?thesis by (simp add: scatter_apart_def)
qed

lemma example_gather_apart: "gather_apart fake_staged fake_paged fake_staging fake_caches b example_spans"
  by (auto simp: gather_apart_def staged_cell_def fake_staged_def fake_paged_def fake_id_simps inj_on_def fake_caches_def)

lemma example_span_of: "i \<in> set all_layers \<Longrightarrow> example_span i \<in> set example_spans"
  by (simp add: example_spans_def)

section \<open>Properties\<close>

text \<open>
  C38. Where a scatter puts every row.  Let the tensors satisfy \<open>tensor_memory\<close> and let the rows the spans name be
  different rows, none of them in the staging buffer.  When the scatter returns a receipt, the cache row of every
  position \<open>k\<close> of every span of every layer holds the staged key at offset plus target position, turned from its
  source to its target position, and the staged value unchanged; every other row of memory is what it was.
\<close>

theorem scatter_moves_rows:
  assumes "tensor_memory env view holds depends store staged paged turn" "scatter_apart staged paged staging caches spans"
    "scatter_retrieved_kv env staging caches spans offset n w = (Inr receipt, w')"
  shows "(\<forall>s\<in>set spans. \<forall>k. 0 \<le> k \<and> k < lspan_count s \<longrightarrow>
     (let l = lspan_layer_index s; g = lspan_group_span s;
          target = (\<lambda>c. paged (the (map_of caches (lspan_layer_name s))) c (gs_block_id g) (gs_block_offset g + k));
          origin = (\<lambda>c. staged staging c l (the_int offset + tr_start (lspan_target s) + k)) in
      store w' (target KEY_COMPONENT) = turn l (tr_start (lspan_source s) + k) (tr_start (lspan_target s) + k) (store w (origin KEY_COMPONENT)) \<and>
      store w' (target VALUE_COMPONENT) = store w (origin VALUE_COMPONENT))) \<and>
   (\<forall>cell. cell \<notin> paged_cell paged caches ` set (concat (map span_rows spans)) \<longrightarrow> store w' cell = store w cell)"
  by (rule tensor_memory.scatter_placement [OF assms])

theorem scatter_moves_rows_witness:
  "\<exists>receipt w'. scatter_retrieved_kv (fake_env (\<lambda>_. Finite 0) None) fake_staging fake_caches example_spans (PInt 7) (PInt 32) example_world =
      (Inr receipt, w') \<and>
    fw_rows w' (4, 2, KEY_COMPONENT, 5) = CorrectedKey (SeededRow ''retrieved-k'' 3 21) 105 21 3 \<and>
    fw_rows w' (4, 2, VALUE_COMPONENT, 5) = SeededRow ''retrieved-v'' 3 21 \<and>
    fw_rows w' (4, 3, KEY_COMPONENT, 5) = SeededRow ''paged-k'' 3 21"
proof -
  obtain v where v: "validate_spans example_spans = Inr v" "tr_end (vs_target_range v) = 32" using example_spans_accepted by force
  obtain receipt w' where run: "scatter_retrieved_kv (fake_env (\<lambda>_. Finite 0) None) fake_staging fake_caches example_spans (PInt 7) (PInt 32)
      example_world = (Inr receipt, w')"
    using fake_scatter_returns [OF v(1) example_spans_fit, of 7 32 example_world] v(2) by auto
  note moved = scatter_moves_rows [OF fake.tensor_memory_axioms example_scatter_apart run]
  have three: "3 \<in> set all_layers" by (simp add: all_layers_def GPT_OSS_NUM_LAYERS_def)
  have "(4, 3, KEY_COMPONENT, 5) \<notin> paged_cell fake_paged fake_caches ` set (concat (map span_rows example_spans))"
    by (auto simp: paged_cell_def fake_paged_def in_span_rows example_spans_def example_span_def)
  with moved bspec [OF conjunct1 [OF moved] example_span_of [OF three], THEN spec, of 5] show ?thesis
    using run fake_caches_of [OF three]
    by (simp add: example_span_def Let_def fake_paged_def fake_staged_def fake_id_simps fake_turn_def example_world_def span_token_count_def
        range_len_def KEY_COMPONENT_def VALUE_COMPONENT_def)
qed

text \<open>
  C39. Where a gather puts every row.  Under the same reading of the tensors, with the staging rows of the document
  different from each other and from all cache rows: when the gather returns a receipt, the staging row at offset
  plus the position inside the document holds the key or value row of the cache slot of that position, unchanged,
  in every layer; every other row of memory is what it was.
\<close>

theorem gather_moves_rows:
  assumes "tensor_memory env view holds depends store staged paged turn"
    "gather_apart staged paged staging caches (the_int offset - tr_start document) spans"
    "gather_precomputed_kv env staging caches spans document offset w = (Inr receipt, w')"
  shows "(\<forall>s\<in>set spans. \<forall>k c. 0 \<le> k \<and> k < lspan_count s \<and> (c = KEY_COMPONENT \<or> c = VALUE_COMPONENT) \<longrightarrow>
     store w' (staged staging c (lspan_layer_index s) (the_int offset + (tr_start (lspan_target s) - tr_start document) + k)) =
     store w (paged (the (map_of caches (lspan_layer_name s))) c (gs_block_id (lspan_group_span s)) (gs_block_offset (lspan_group_span s) + k))) \<and>
   (\<forall>cell. cell \<notin> staged_cell staged staging ` set (concat (map (staged_rows (the_int offset - tr_start document)) spans)) \<longrightarrow>
      store w' cell = store w cell)"
  by (rule tensor_memory.gather_placement [OF assms])

theorem gather_moves_rows_witness:
  "\<exists>receipt w'. gather_precomputed_kv (fake_env (\<lambda>_. Finite 0) None) fake_staging fake_caches example_spans \<lparr>tr_start = 16, tr_end = 32\<rparr> (PInt 3)
      example_world = (Inr receipt, w') \<and>
    fw_rows w' (0, KEY_COMPONENT, 5, 10) = SeededRow ''paged-k'' 5 23 \<and> fw_rows w' (0, KEY_COMPONENT, 5, 19) = SeededRow ''retrieved-k'' 5 12"
proof -
  obtain v where v: "validate_spans example_spans = Inr v" "vs_target_range v = \<lparr>tr_start = 16, tr_end = 32\<rparr>" using example_spans_accepted by blast
  obtain receipt w' where run: "gather_precomputed_kv (fake_env (\<lambda>_. Finite 0) None) fake_staging fake_caches example_spans
      \<lparr>tr_start = 16, tr_end = 32\<rparr> (PInt 3) example_world = (Inr receipt, w')"
    using fake_gather_returns [OF v(1) example_spans_fit, of 3 "\<lambda>_. Finite 0" None example_world] v(2) by (auto simp: range_len_def)
  note moved = gather_moves_rows [OF fake.tensor_memory_axioms example_gather_apart run]
  have five: "5 \<in> set all_layers" by (simp add: all_layers_def GPT_OSS_NUM_LAYERS_def)
  have "(0, KEY_COMPONENT, 5, 19) \<notin> staged_cell fake_staged fake_staging ` set (concat (map (staged_rows (3 - 16)) example_spans))"
    by (auto simp: staged_cell_def fake_staged_def in_staged_rows example_spans_def example_span_def span_token_count_def range_len_def)
  with moved bspec [OF conjunct1 [OF moved] example_span_of [OF five], THEN spec, THEN spec, of 7 KEY_COMPONENT] show ?thesis
    using run fake_caches_of [OF five]
    by (simp add: example_span_def fake_paged_def fake_staged_def fake_id_simps example_world_def span_token_count_def range_len_def
        KEY_COMPONENT_def)
qed

end
