(* ===== verification/BridgeReceipts.thy ===== *)
theory BridgeReceipts
  imports WorkerBridge RowPlacement
begin

text \<open>
  Data plane and worker bridge composed: the receipts the data plane returns are those the bridge checks for,
  whatever the tensors do.
\<close>

lemma length_partition:
  assumes "distinct ls" "f ` set xs \<subseteq> set ls"
  shows "length (concat (map (\<lambda>i. filter (\<lambda>x. f x = i) xs) ls)) = length xs"
  using assms
proof (induction ls arbitrary: xs)
  case (Cons l ls)
  let ?rest = "filter (\<lambda>x. f x \<noteq> l) xs"
  have eq: "map (\<lambda>i. filter (\<lambda>x. f x = i) xs) ls = map (\<lambda>i. filter (\<lambda>x. f x = i) ?rest) ls"
    using Cons.prems(1) by (auto intro!: filter_cong)
  have "length (concat (map (\<lambda>i. filter (\<lambda>x. f x = i) ?rest) ls)) = length ?rest"
    using Cons.prems by (intro Cons.IH) auto
  then show ?case unfolding list.map concat.simps length_append eq using sum_length_filter_compl [of "\<lambda>x. f x = l" xs] by linarith
qed simp

lemma accepted_span_count:
  assumes "validate_spans spans = Inr v"
  shows "length (vs_spans v) = length spans"
proof -
  have "lspan_layer_index ` set spans \<subseteq> set all_layers"
    using validate_spans_Inr(1) [OF assms] by (auto simp: good_span_def Let_def all_layers_def)
  moreover have "length (concat (map (ordered_layer spans) is)) =
      length (concat (map (\<lambda>i. filter (\<lambda>s. lspan_layer_index s = i) spans) is))" for "is"
    by (induction "is") (simp_all add: ordered_layer_def spans_of_layer_def)
  ultimately show ?thesis
    using length_partition [of all_layers lspan_layer_index spans] validate_spans_Inr(2) [OF assms] by (simp add: all_layers_def)
qed

lemma scatter_receipt:
  "wp (scatter_retrieved_kv env staging caches spans offset n)
     (\<lambda>r _. \<exists>v latency. validate_spans spans = Inr v \<and> DataPlaneReceipt_init (load_receipt v latency) = Inr r) (\<lambda>_ _. True) w"
  unfolding scatter_retrieved_kv_def preflight_common_def
  by (cases "validate_spans spans")
    (auto simp: wp_simps data_require_plain_int_def split: sum.split intro!: wp_any [of _ _ "safe_shape env staging"] wp_any [of _ _ "safe_dtype env staging"]
        wp_any [of _ _ "safe_device env staging"] wp_any [of _ _ "for_each f xs" for f xs]
        wp_any [of _ _ "prepare_scatter env staging caches a p l ss" for a p l ss] wp_any [of _ _ "apply_copies env p t" for p t], blast)

lemma gather_receipt:
  "wp (gather_precomputed_kv env staging caches spans document offset)
     (\<lambda>r _. \<exists>v. validate_spans spans = Inr v \<and> DataPlaneReceipt_init (store_receipt v) = Inr r) (\<lambda>_ _. True) w"
  unfolding gather_precomputed_kv_def preflight_common_def
  by (cases "validate_spans spans")
    (auto simp: wp_simps data_require_plain_int_def split: sum.split intro!: wp_any [of _ _ "safe_shape env staging"] wp_any [of _ _ "safe_dtype env staging"]
        wp_any [of _ _ "safe_device env staging"] wp_any [of _ _ "for_each f xs" for f xs]
        wp_any [of _ _ "prepare_gather env staging caches b a p ss" for b a p ss] wp_any [of _ _ "apply_copies env p t" for p t])

lemma receipt_init_keeps: "DataPlaneReceipt_init r = Inr r' \<Longrightarrow> r' = r"
  by (auto simp: DataPlaneReceipt_init_def split: pyfloat.splits if_splits)

text \<open>
  C40. The receipts of the data plane pass the bridge.  When a scatter or a gather of accepted spans returns, its
  receipt is the one the bridge expects for the number of target tokens and for the number of spans the plan has:
  the right direction, all rows of all 24 layers copied, keys corrected on a load and on no store, sinks untouched.
  With a planned chunk of \<open>LMCACHE_CHUNK_SIZE\<close> tokens the bridge therefore never answers
  \<open>RECEIPT_MISMATCH\<close> to a data plane call that returned.
\<close>

theorem transfer_receipts_accepted:
  assumes "validate_spans spans = Inr v"
  shows "(\<forall>receipt w'. scatter_retrieved_kv env staging caches spans offset n w = (Inr receipt, w') \<longrightarrow>
      valid_data_receipt (Some receipt) LOAD_FROM_STAGING (logical_tokens v) (int (length spans))) \<and>
    (\<forall>receipt w'. gather_precomputed_kv env staging caches spans document store_offset w = (Inr receipt, w') \<longrightarrow>
      valid_data_receipt (Some receipt) STORE_TO_STAGING (logical_tokens v) (int (length spans)))"
proof -
  have "valid_data_receipt (Some receipt) LOAD_FROM_STAGING (logical_tokens v) (int (length spans))"
    if "scatter_retrieved_kv env staging caches spans offset n w = (Inr receipt, w')" for receipt w'
    using wp_result [OF that scatter_receipt] assms accepted_span_count [OF assms]
    by (auto dest!: receipt_init_keeps simp: valid_data_receipt_def load_receipt_def layer_token_rows_def)
  moreover have "valid_data_receipt (Some receipt) STORE_TO_STAGING (logical_tokens v) (int (length spans))"
    if "gather_precomputed_kv env staging caches spans document store_offset w = (Inr receipt, w')" for receipt w'
    using wp_result [OF that gather_receipt] assms accepted_span_count [OF assms]
    by (auto dest!: receipt_init_keeps simp: valid_data_receipt_def store_receipt_def layer_token_rows_def)
  ultimately show ?thesis by blast
qed

theorem transfer_receipts_accepted_witness:
  "\<exists>receipt w'. scatter_retrieved_kv (fake_env (\<lambda>_. Finite 0) None) fake_staging fake_caches example_spans (PInt 7) (PInt 32) example_world =
      (Inr receipt, w') \<and> valid_data_receipt (Some receipt) LOAD_FROM_STAGING 16 24"
proof -
  obtain v where v: "validate_spans example_spans = Inr v" "vs_target_range v = \<lparr>tr_start = 16, tr_end = 32\<rparr>" using example_spans_accepted by blast
  obtain receipt w' where "scatter_retrieved_kv (fake_env (\<lambda>_. Finite 0) None) fake_staging fake_caches example_spans (PInt 7) (PInt 32)
      example_world = (Inr receipt, w')"
    using fake_scatter_returns [OF v(1) example_spans_fit, of 7 32 example_world] v(2) by auto
  moreover have "logical_tokens v = 16" "length example_spans = 24"
    by (simp_all add: logical_tokens_def v(2) range_len_def example_spans_def all_layers_def GPT_OSS_NUM_LAYERS_def)
  ultimately show ?thesis using transfer_receipts_accepted [OF v(1)] by force
qed

end
