(* ===== verification/Spec2Isabelle.thy ===== *)
theory Spec2Isabelle
  imports Matching Segmentation Metrics RuntimeValidation ControlPlane Layout SelectionPolicy Publication BridgeReceipts
begin

text \<open>
  A verification library for cacheblend-gpt-oss, a connector that lets a vLLM server for GPT-OSS-20B
  look up, verify and transfer cached key/value blocks of earlier prompts while it still recomputes
  every prompt token.  Paths below are relative to \<^verbatim>\<open>src/src/cacheblend_gpt_oss\<close>.

  \<^bold>\<open>The program.\<close>  A prompt is cut into segments; a segment has a namespaced SHA-256 fingerprint;
  stored records are found by fingerprint, verified token by token and selected by weighted interval
  scheduling.  In a running server the untrusted candidates come from an LMCache server and are
  verified against a local sidecar.  The scheduler runtime owns the connection and keeps one immutable
  lookup result per request; the control plane carries that result through allocation, handoff to the
  worker, validation, preemption and finish.  The layout module says to which physical slot of which
  layer every transferred token goes; the worker's transfer runtime loads verified chunks before the
  forward pass and stores complete chunks after it.  Row plans, output contracts and the forward bridge prepare
  selective recomputation.  Metrics and runtime validation guard what is reported and where reuse is
  enabled at all.

  \<^bold>\<open>Theories and sources.\<close>
  \<^item> \<open>Doubles\<close>: rounding to IEEE binary64, as \<^verbatim>\<open>float()\<close> and float products do it.
  \<^item> \<open>Prelude\<close>: Python values, exceptions as sums (\<open>rbind\<close>, \<open>rmap\<close>), shared list lemmas, the named
    collections \<open>result_simps\<close>, \<open>wf_simps\<close> and \<open>init_simps\<close>.
  \<^item> \<open>PlannerModels\<close>: \<^verbatim>\<open>planner/models.py\<close>, \<^verbatim>\<open>targets.py\<close>; the union-length loop.
  \<^item> \<open>Sha256\<close>, \<open>Fingerprint\<close>: \<^verbatim>\<open>hashlib.sha256\<close> on 32-bit words; \<^verbatim>\<open>planner/fingerprint.py\<close>.
  \<^item> \<open>Segmentation\<close>: \<^verbatim>\<open>planner/segmentation.py\<close>.
  \<^item> \<open>IntervalScheduling\<close>, \<open>Matching\<close>: \<^verbatim>\<open>planner/matching.py\<close>; the selection routine is shared with
    \<open>Lookup\<close> through the locale \<open>interval_jobs\<close>, the index contract is the locale \<open>record_index\<close>.
  \<^item> \<open>LmcacheTypes\<close>, \<open>Lookup\<close>: \<^verbatim>\<open>storage/lmcache_types.py\<close>, \<^verbatim>\<open>storage/lookup.py\<close>.
  \<^item> \<open>SidecarCodec\<close>, \<open>Sidecar\<close>: \<^verbatim>\<open>storage/sidecar.py\<close>; the store contract is the locale \<open>record_store\<close>.
    \<open>Publication\<close> composes worker, sidecar and lookup.
  \<^item> \<open>ControlPlane\<close>: \<^verbatim>\<open>connector/control_plane.py\<close>; the locale \<open>lifecycle_transition\<close> is interpreted
    once per transition.
  \<^item> \<open>SchedulerRuntime\<close>: \<^verbatim>\<open>vllm_compat/v0_19_1/scheduler_runtime.py\<close>.
  \<^item> \<open>TransferRuntime\<close>: \<^verbatim>\<open>vllm_compat/v0_19_1/transfer_runtime.py\<close>, composed with the lookup on one side
    and with the control plane on the other.
  \<^item> \<open>Effects\<close>: programs that may raise, over an object and a world, with one weakest-precondition rule per
    construct.  \<open>Staging\<close>: \<^verbatim>\<open>vllm_compat/v0_19_1/staging.py\<close>, the life cycle of the shared buffer.
    \<open>WorkerBridge\<close>: \<^verbatim>\<open>worker_bridge.py\<close>, between the transfer runtime, LMCache, staging and data plane.
  \<^item> \<open>DataPlane\<close>: \<^verbatim>\<open>data_plane.py\<close>, validation of the spans, preflight, preparation and copying.
    \<open>DataTransfer\<close>: which spans it accepts and in which order it acts.  \<open>TensorMemory\<close>: the locale
    \<open>tensor_memory\<close>, what the data plane relies on of its tensors.  \<open>FakeTensors\<close>: its interpretation on the
    tensors of \<^verbatim>\<open>tests/unit/test_vllm_data_plane.py\<close>.  \<open>RowPlacement\<close>: where every row ends up.
    \<open>BridgeReceipts\<close> composes data plane and bridge.
  \<^item> \<open>Layout\<close>, \<open>Selective\<close>: \<^verbatim>\<open>gpt_oss/layout.py\<close>; \<^verbatim>\<open>gpt_oss/selective.py\<close>,
    \<^verbatim>\<open>forward_output.py\<close>, \<^verbatim>\<open>selective_runtime.py\<close>; \<open>SelectionPolicy\<close>: \<^verbatim>\<open>gpt_oss/selective_policy.py\<close>.
  \<^item> \<open>Metrics\<close>, \<open>RuntimeValidation\<close>: \<^verbatim>\<open>metrics/request.py\<close>, \<^verbatim>\<open>connector/runtime_validation.py\<close>.

  \<^bold>\<open>State and operations.\<close>  A frozen dataclass is a record whose \<^verbatim>\<open>__post_init__\<close> is a function
  \<open>C_init\<close> into a sum; \<^verbatim>\<open>dataclasses.replace\<close> runs it again.  The control plane, the scheduler runtime
  and the lookup loop are records passed from call to call, their dictionaries are maps.  Injected
  collaborators are arguments: the fingerprinter and the record index of the planner, the sidecar of the
  lookup (a parameter there, and the SQLite index in \<open>Publication\<close>), and, for the scheduler, an \<open>Environment\<close> of functions on an arbitrary world state that may
  raise and change the world at every call; the worker's storage and data plane are a
  \<open>WorkerEnvironment\<close> of the same kind, observed through a journal of its calls.  Staging, bridge and data
  plane are programs of \<open>Effects\<close> over such environments; tensors are opaque objects there, and a dry run of the
  data plane is the environment \<open>read_only env\<close>.  Long-lived objects have a step relation
  (\<open>cp_step\<close>, \<open>scheduler_step\<close>) whose reachable states satisfy an invariant.

  \<^bold>\<open>What is shown.\<close>  Planner and lookup: soundness of every match, optimal coverage against all
  conflict-free choices, complete accounting of candidates and tokens, success exactly on well-formed
  input.  Fingerprints and storage names: injective preimages.  Segmentation: the unique leftmost-longest
  split at the delimiters, exact chunk partitions and window sets.  Control plane: an invariant of all reachable states, a complete undisturbed run, stale
  receipts after preemption, harmless replays, counters that pass the metrics validator.  Scheduler:
  zero credit, fatal states absorb, replay and preemption, and the composition with the lookup: no call
  raises and every match is an exact piece of the prompt.  Worker: it accepts whatever the scheduler
  verified; a load returns an outcome explained by the calls it made, or raises because a collaborator was
  interrupted or the latency unreadable; it publishes only exact chunks of the prompt, and reports receipts
  the control plane accepts.  Sidecar: under every
  schedule of engine faults it behaves as a set of records, its reader accepts exactly the rows its
  writer produces, and published chunks are found by later prompts unless their position is ambiguous, a
  bucket is over its limit or checksums collide.  Layout: the scatter plan equals a per-token
  reference, exists exactly for fitting tables and writes no slot twice when no table lists a block twice.  Selective: row partitions,
  exact acceptance conditions, restored context on every path; the selection policy recomputes every row
  without verified KV, picks the best-ranked others and lowers its work with the ratio.  Staging: as long as
  no backend call is interrupted, the buffer stays owned while the server may hold it, and every transfer is
  ordered between a synchronized event and a device synchronization.  Bridge: nothing is written or published before the dry runs and accepted receipts
  of the steps before.  Data plane: planned spans are accepted exactly when layer names are canonical and
  slots differ, nothing is copied before everything was checked, a dry run predicts the real run up to the
  copying, every row ends up in its slot and no other row changes, and its receipts
  are those the bridge expects.

  \<^bold>\<open>Loops.\<close>  Loops over finite collections are structural.  The delimiter scan and the scatter loop
  advance a cursor by a computed amount and are \<open>partial_function (option)\<close>; that they return is part of
  their theorems.  No definition uses fuel.

  \<^bold>\<open>Representation.\<close>  Strings are their UTF-8 bytes, so \<^verbatim>\<open>encode\<close> is the identity and byte order is
  code-point order; layer names, where a regular expression looks at characters, are code points.
  Machine integers of the program are range-checked Python integers; SHA-256 uses 32-bit words.
  Finite floats are rationals; where the program converts or multiplies, the result is rounded to the
  nearest double.

  \<^bold>\<open>Not modelled.\<close>  Display-only float ratios and message texts.  Opening a sidecar file and its schema
  checks.  The LMCache client and server entry point: message-queue I/O against a third-party server, whose
  answers are parameters here.  The Torch backends of staging and data plane, each a call into Torch: what
  the code relies on is the environment and the locale \<open>tensor_memory\<close>; and the YaRN arithmetic, real-number code on
  the GPU, which is the parameter \<open>turn\<close> of that locale.  The vLLM hook classes, configuration parsing and
  start-up checks, which read third-party objects and call the modelled parts.  Offline evidence, benchmark
  and script code, which no part of the running connector calls.
\<close>

end
